(* ===== verification/Anbox_Prelude.thy ===== *)
theory Anbox_Prelude
  imports Main "HOL-Library.Word" "HOL-Library.Sublist"
begin

text \<open>
  Shared material of the development: the machine types of the C++ sources, the failures a
  C++ function can end in, the bytes and characters of wire formats, ring-buffer arithmetic, and the
  interface of a bounded first-in first-out queue that two components of the program implement.

  \<^item> \<open>byte\<close>, \<open>u16\<close>, \<open>u32\<close>, \<open>u64\<close>, \<open>i32\<close>: fixed-width integers. \<open>std::string\<close> is
    \<^typ>\<open>string\<close>, a list of 8-bit characters, and \<open>std::vector<std::uint8_t>\<close> is a list of bytes.
  \<^item> \<open>fault\<close>: what a call ends in when it does not return: a C++ exception, or an access the
    language gives no meaning to. A fallible operation returns \<open>fault + 'a\<close>.
  \<^item> \<open>wire\<close>, \<open>ring\<close>: the simplification collections the component theories use.
\<close>

unbundle bit_operations_syntax

named_theorems wire \<open>Bytes, characters and fixed-width encodings\<close>
named_theorems ring \<open>Positions and contents of ring buffers\<close>

section \<open>Machine types and failures\<close>

type_synonym byte = "8 word"
type_synonym u16 = "16 word"
type_synonym u32 = "32 word"
type_synonym u64 = "64 word"
type_synonym i32 = "32 word"

datatype fault =
    Out_Of_Range string      \<comment> \<open>\<open>std::out_of_range\<close>\<close>
  | Runtime_Error string     \<comment> \<open>\<open>std::runtime_error\<close>\<close>
  | Logic_Error string       \<comment> \<open>\<open>std::logic_error\<close>\<close>
  | Undefined                \<comment> \<open>undefined behaviour: an access outside an object\<close>

text \<open>Unsigned subtraction on \<open>size_t\<close> (64 bits), with its wrap-around.\<close>

definition size_sub :: "nat \<Rightarrow> nat \<Rightarrow> nat" where
  "size_sub a b = unat (word_of_nat a - word_of_nat b :: u64)"

lemma size_sub_le: "b \<le> a \<Longrightarrow> a < 2 ^ 64 \<Longrightarrow> size_sub a b = a - b"
  by (simp add: size_sub_def unat_sub_if' unat_of_nat take_bit_eq_mod flip: take_bit_nat_eq_self_iff)

lemma size_sub_eq_0_iff:
  assumes "a < 2 ^ 64" and "b < 2 ^ 64"
  shows "size_sub a b = 0 \<longleftrightarrow> a = b"
proof -
  have "size_sub a b = 0 \<longleftrightarrow> (word_of_nat a :: u64) = word_of_nat b"
    by (simp add: size_sub_def unat_eq_zero)
  also have "\<dots> \<longleftrightarrow> a = b"
    using assms by (simp add: word_unat_eq_iff unat_of_nat take_bit_nat_eq_self)
  finally show ?thesis .
qed

section \<open>Bytes and characters\<close>

definition byte_of :: "char \<Rightarrow> byte" where
  "byte_of c = word_of_nat (of_char c)"

definition char_of_byte :: "byte \<Rightarrow> char" where
  "char_of_byte b = char_of (unat b)"

abbreviation bytes_of :: "string \<Rightarrow> byte list" where
  "bytes_of s \<equiv> map byte_of s"

abbreviation string_of :: "byte list \<Rightarrow> string" where
  "string_of bs \<equiv> map char_of_byte bs"

lemma unat_byte_less: "unat (b :: byte) < 256"
  using unsigned_less [of b, where ?'a = nat] by simp

lemma char_of_byte_of [simp, wire]: "char_of_byte (byte_of c) = c"
  by (simp add: char_of_byte_def byte_of_def unat_of_nat take_bit_nat_eq_self)

lemma byte_of_char_of_byte [simp, wire]: "byte_of (char_of_byte b) = b"
  using unat_byte_less [of b] by (simp add: char_of_byte_def byte_of_def of_char_of)

lemma string_of_bytes_of [simp, wire]: "string_of (bytes_of s) = s"
  by (induction s) simp_all

lemma bytes_of_string_of [simp, wire]: "bytes_of (string_of bs) = bs"
  by (induction bs) simp_all

lemma byte_of_eq_iff [simp]: "byte_of c = byte_of d \<longleftrightarrow> c = d"
  by (metis char_of_byte_of)

lemma byte_of_eq_0 [simp]: "byte_of c = 0 \<longleftrightarrow> c = CHR 0x00"
proof -
  have "byte_of (CHR 0x00) = 0" by (simp add: byte_of_def)
  then show ?thesis by (metis byte_of_eq_iff)
qed

section \<open>Numbers in decimal\<close>

fun show_nat :: "nat \<Rightarrow> string" where
  "show_nat n = (if n < 10 then [char_of (48 + n)] else show_nat (n div 10) @ [char_of (48 + n mod 10)])"

declare show_nat.simps [simp del]

definition show_int :: "int \<Rightarrow> string" where
  "show_int n = (if n < 0 then ''-'' @ show_nat (nat (- n)) else show_nat (nat n))"

section \<open>Scanning numbers\<close>

text \<open>Spaces and digits of the C locale.\<close>

definition c_isspace :: "char \<Rightarrow> bool" where
  "c_isspace c \<longleftrightarrow> c = CHR '' '' \<or> of_char c \<in> {9 .. 13 :: nat}"

definition c_isdigit :: "char \<Rightarrow> bool" where
  "c_isdigit c \<longleftrightarrow> of_char c \<in> {48 .. 57 :: nat}"

text \<open>\<open>sscanf\<close> with \<open>%d\<close>: spaces, a sign, digits.\<close>

definition scan_digits :: "string \<Rightarrow> int option" where
  "scan_digits s =
     (let ds = takeWhile c_isdigit s in
      if ds = [] then None else Some (foldl (\<lambda>n d. 10 * n + int (of_char d - 48)) 0 ds))"

definition scan_int :: "string \<Rightarrow> int option" where
  "scan_int s =
     (let s = dropWhile c_isspace s in
      if s \<noteq> [] \<and> hd s = CHR ''-'' then map_option uminus (scan_digits (tl s))
      else if s \<noteq> [] \<and> hd s = CHR ''+'' then scan_digits (tl s)
      else scan_digits s)"

section \<open>Fixed-width integers as byte runs\<close>

definition be16 :: "u16 \<Rightarrow> byte list" where
  "be16 w = [ucast (drop_bit 8 w), ucast w]"

definition be32 :: "u32 \<Rightarrow> byte list" where
  "be32 w = [ucast (drop_bit 24 w), ucast (drop_bit 16 w), ucast (drop_bit 8 w), ucast w]"

definition from_be :: "byte list \<Rightarrow> nat" where
  "from_be bs = foldl (\<lambda>n b. n * 256 + unat b) 0 bs"

lemma length_be16 [simp, wire]: "length (be16 w) = 2"
  by (simp add: be16_def)

lemma length_be32 [simp, wire]: "length (be32 w) = 4"
  by (simp add: be32_def)

lemma from_be_be16 [simp, wire]: "from_be (be16 w) = unat w"
proof -
  have "unat w < 65536" using unsigned_less [of w, where ?'a = nat] by simp
  then show ?thesis
    by (simp add: from_be_def be16_def unsigned_ucast_eq unat_drop_bit_eq drop_bit_eq_div
        take_bit_eq_mod unat_div)
qed

lemma base256_digits:
  fixes n :: nat
  shows "((n div 16777216 * 256 + n div 65536 mod 256) * 256 + n div 256 mod 256) * 256
    + n mod 256 = n"
proof -
  have d1: "n div 65536 = n div 256 div 256" and d2: "n div 16777216 = n div 256 div 256 div 256"
    by (simp_all add: div_mult2_eq [symmetric])
  show ?thesis
    unfolding d1 d2
    by (simp only: div_mult_mod_eq)
qed

lemma from_be_be32 [simp, wire]: "from_be (be32 w) = unat w"
proof -
  have "unat w < 4294967296" using unsigned_less [of w, where ?'a = nat] by simp
  with base256_digits [of "unat w"] show ?thesis
    by (simp add: from_be_def be32_def unsigned_ucast_eq unat_drop_bit_eq drop_bit_eq_div
        take_bit_eq_mod unat_div)
qed

section \<open>Ring buffers\<close>

text \<open>
  The sources write the index of a ring slot as \<open>pos_ + count_\<close>, minus the capacity when that is
  not below it. Under the invariant of a ring this is reduction modulo the capacity.
\<close>

definition ring_index :: "nat \<Rightarrow> nat \<Rightarrow> nat" where
  "ring_index cap i = (if cap \<le> i then i - cap else i)"

lemma ring_index_mod [ring]: "i < 2 * cap \<Longrightarrow> ring_index cap i = i mod cap"
  by (auto simp: ring_index_def mod_if)

lemma ring_index_less [ring]: "i < 2 * cap \<Longrightarrow> ring_index cap i < cap"
  by (auto simp: ring_index_def)

definition ring_contents :: "nat \<Rightarrow> nat \<Rightarrow> nat \<Rightarrow> 'a list \<Rightarrow> 'a list" where
  "ring_contents cap pos n slots = map (\<lambda>i. slots ! ((pos + i) mod cap)) [0..<n]"

lemma length_ring_contents [simp]: "length (ring_contents cap pos n slots) = n"
  by (simp add: ring_contents_def)

lemma ring_contents_0 [simp]: "ring_contents cap pos 0 slots = []"
  by (simp add: ring_contents_def)

lemma ring_slots_distinct:
  assumes "i < n" and "n < cap"
  shows "(pos + i) mod cap \<noteq> (pos + n) mod (cap::nat)"
proof
  assume "(pos + i) mod cap = (pos + n) mod cap"
  then have "cap dvd (pos + n) - (pos + i)"
    using mod_eq_dvd_iff_nat [of "pos + i" "pos + n" cap] assms by simp
  then have "cap \<le> n - i" using assms by (auto dest: dvd_imp_le)
  with assms show False by simp
qed

lemma ring_contents_push [ring]:
  assumes "n < cap" and "length slots = cap"
  shows "ring_contents cap pos (Suc n) (slots[(pos + n) mod cap := x]) =
    ring_contents cap pos n slots @ [x]"
proof -
  have "(pos + n) mod cap < cap" using assms by simp
  moreover have "slots[(pos + n) mod cap := x] ! ((pos + i) mod cap) = slots ! ((pos + i) mod cap)"
    if "i < n" for i
    using ring_slots_distinct [OF that assms(1), of pos] by simp
  ultimately show ?thesis
    using assms by (simp add: ring_contents_def)
qed

lemma ring_contents_pop [ring]:
  "ring_contents cap pos (Suc n) slots =
     slots ! (pos mod cap) # ring_contents cap (Suc pos mod cap) n slots"
proof -
  have "map (\<lambda>i. slots ! ((pos + i) mod cap)) [Suc 0..<Suc n] =
    map (\<lambda>i. slots ! ((Suc pos mod cap + i) mod cap)) [0..<n]"
    by (rule nth_equalityI) (simp_all add: mod_simps del: upt_Suc)
  then show ?thesis
    by (simp add: ring_contents_def upt_conv_Cons del: upt_Suc)
qed

section \<open>The interface of a bounded queue\<close>

text \<open>
  A queue is driven by a sequence of requests. \<open>put\<close> returns nothing when the queue refuses the
  item (it is full or closed), \<open>get\<close> when there is nothing to deliver. The run of a sequence collects
  the items accepted and the items delivered, in the order in which that happened.
\<close>

datatype 'a fifo_op = Put 'a | Get

fun fifo_run ::
  "('a \<Rightarrow> 'q \<Rightarrow> 'q option) \<Rightarrow> ('q \<Rightarrow> ('a \<times> 'q) option) \<Rightarrow> 'a fifo_op list \<Rightarrow> 'q \<Rightarrow>
   'a list \<times> 'a list \<times> 'q"
where
  "fifo_run put get [] q = ([], [], q)"
| "fifo_run put get (Put x # ops) q =
     (case put x q of
        None \<Rightarrow> fifo_run put get ops q
      | Some q' \<Rightarrow> (case fifo_run put get ops q' of (acc, del, r) \<Rightarrow> (x # acc, del, r)))"
| "fifo_run put get (Get # ops) q =
     (case get q of
        None \<Rightarrow> fifo_run put get ops q
      | Some (x, q') \<Rightarrow> (case fifo_run put get ops q' of (acc, del, r) \<Rightarrow> (acc, x # del, r)))"

locale bounded_fifo =
  fixes invar :: "'q \<Rightarrow> bool"
    and contents :: "'q \<Rightarrow> 'a list"
    and cap :: "'q \<Rightarrow> nat"
    and put :: "'a \<Rightarrow> 'q \<Rightarrow> 'q option"
    and get :: "'q \<Rightarrow> ('a \<times> 'q) option"
  assumes invar_put: "invar q \<Longrightarrow> put x q = Some q' \<Longrightarrow> invar q'"
    and invar_get: "invar q \<Longrightarrow> get q = Some (x, q') \<Longrightarrow> invar q'"
    and contents_put: "invar q \<Longrightarrow> put x q = Some q' \<Longrightarrow> contents q' = contents q @ [x]"
    and contents_get: "invar q \<Longrightarrow> get q = Some (x, q') \<Longrightarrow> contents q = x # contents q'"
    and get_None: "invar q \<Longrightarrow> get q = None \<longleftrightarrow> contents q = []"
    and put_full: "invar q \<Longrightarrow> length (contents q) = cap q \<Longrightarrow> put x q = None"
    and bounded: "invar q \<Longrightarrow> length (contents q) \<le> cap q"
    and cap_put: "put x q = Some q' \<Longrightarrow> cap q' = cap q"
    and cap_get: "get q = Some (x, q') \<Longrightarrow> cap q' = cap q"
begin

lemma run_laws:
  assumes "invar q" and "fifo_run put get ops q = (acc, del, q')"
  shows "invar q' \<and> cap q' = cap q \<and> contents q @ acc = del @ contents q'"
  using assms
proof (induction ops arbitrary: q acc del)
  case Nil
  then show ?case by simp
next
  case (Cons op ops)
  show ?case
  proof (cases op)
    case (Put x)
    show ?thesis
    proof (cases "put x q")
      case None
      with Cons Put show ?thesis by simp
    next
      case (Some r)
      with Cons.prems Put obtain acc' where
        run: "fifo_run put get ops r = (acc', del, q')" and acc: "acc = x # acc'"
        by (auto split: prod.splits)
      with Cons.IH [of r acc' del] Some Cons.prems(1)
      show ?thesis by (auto simp: invar_put contents_put cap_put)
    qed
  next
    case Get
    show ?thesis
    proof (cases "get q")
      case None
      with Cons Get show ?thesis by simp
    next
      case (Some y)
      then obtain x r where get: "get q = Some (x, r)" by (cases y) auto
      with Cons.prems Get obtain del' where
        run: "fifo_run put get ops r = (acc, del', q')" and del: "del = x # del'"
        by (auto split: prod.splits)
      with Cons.IH [of r acc del'] get Cons.prems(1)
      show ?thesis by (auto simp: invar_get contents_get cap_get)
    qed
  qed
qed

text \<open>What comes out of a queue that starts empty is a prefix of what went in.\<close>

lemma delivered_prefix:
  assumes "invar q" and "contents q = []" and "fifo_run put get ops q = (acc, del, q')"
  shows "prefix del acc"
  using run_laws [OF assms(1,3)] assms(2) by (auto simp: prefix_def)

text \<open>At any moment no more items are inside than the queue has room for.\<close>

lemma in_flight_bounded:
  assumes "invar q" and "contents q = []" and "fifo_run put get ops q = (acc, del, q')"
  shows "length acc \<le> length del + cap q"
proof -
  from run_laws [OF assms(1,3)] assms(2)
  have inv: "invar q'" and cap: "cap q' = cap q" and eq: "acc = del @ contents q'"
    by auto
  from bounded [OF inv] cap eq show ?thesis by simp
qed

end

end
