(* ===== verification/Streams.thy ===== *)
theory Streams
  imports Anbox_Prelude
begin

text \<open>
  What the receivers of byte streams have in common: a step takes the bytes of one read and the state, and
  gives what it has recognised and the new state. The interface \<open>incremental\<close> states that a read may be cut
  in two; a client may then rely on the whole stream only, however it arrives. A step that fails gives None.
\<close>

locale incremental =
  fixes ok :: "'s \<Rightarrow> bool"
    and step :: "'i list \<Rightarrow> 's \<Rightarrow> ('o list \<times> 's) option"
  assumes step_Nil: "ok s \<Longrightarrow> step [] s = Some ([], s)"
    and step_append: "ok s \<Longrightarrow> step (xs @ ys) s =
      (case step xs s of
         None \<Rightarrow> None
       | Some (out, t) \<Rightarrow> map_option (\<lambda>(out', u). (out @ out', u)) (step ys t))"
    and step_ok: "ok s \<Longrightarrow> step xs s = Some (out, t) \<Longrightarrow> ok t"
begin

fun reads :: "'i list list \<Rightarrow> 's \<Rightarrow> ('o list \<times> 's) option" where
  "reads [] s = Some ([], s)"
| "reads (xs # xss) s =
     (case step xs s of
        None \<Rightarrow> None
      | Some (out, t) \<Rightarrow> map_option (\<lambda>(out', u). (out @ out', u)) (reads xss t))"

lemma reads_concat: "ok s \<Longrightarrow> reads xss s = step (concat xss) s"
proof (induction xss arbitrary: s)
  case Nil
  then show ?case by (simp add: step_Nil)
next
  case (Cons xs xss)
  show ?case
  proof (cases "step xs s")
    case None
    with Cons.prems show ?thesis by (simp add: step_append)
  next
    case (Some r)
    obtain out t where r: "r = (out, t)" by fastforce
    with Some Cons step_ok [OF Cons.prems] show ?thesis by (simp add: step_append)
  qed
qed

lemma reads_ok: "ok s \<Longrightarrow> reads xss s = Some (out, t) \<Longrightarrow> ok t"
  using step_ok by (simp add: reads_concat)

lemma reads_same_stream: "ok s \<Longrightarrow> concat xss = concat yss \<Longrightarrow> reads xss s = reads yss s"
  by (simp add: reads_concat)

end

end
