(* ===== verification/QemudDaemon.thy ===== *)
theory QemudDaemon
  imports Streams
begin

text \<open>
  The daemon in the container that shares one serial line to the emulator among its clients:
  \<open>android/qemud/qemud.c\<close>. Packets are byte lists; the list of free packets and the looper, which only says
  on which descriptor something happens, are not modelled: each of their events is an operation here.

  Shown here: the framing of the serial line is decoded the same way however the bytes arrive, and what is
  sent is what is received; where the packet buffer is overrun; a channel is found as long as one is left
  and belongs to one client; and how client data is routed.
\<close>

section \<open>Numbers in hexadecimal\<close>

definition hex_byte :: "byte \<Rightarrow> int option" where
  "hex_byte c =
     (let n = int (unat c) in
      if 48 \<le> n \<and> n < 58 then Some (n - 48)
      else if 97 \<le> n \<and> n < 103 then Some (n - 97 + 10)
      else if 65 \<le> n \<and> n < 71 then Some (n - 65 + 10)
      else None)"

fun hex2int_from :: "int \<Rightarrow> byte list \<Rightarrow> int" where
  "hex2int_from result [] = result"
| "hex2int_from result (c # data) =
     (case hex_byte c of None \<Rightarrow> -1 | Some d \<Rightarrow> hex2int_from (result * 16 + d) data)"

definition hex2int :: "byte list \<Rightarrow> int" where
  "hex2int data = hex2int_from 0 data"

definition hexchar :: "int \<Rightarrow> byte" where
  "hexchar d = byte_of (''0123456789abcdef'' ! nat d)"

definition int2hex :: "int \<Rightarrow> nat \<Rightarrow> byte list" where
  "int2hex value width = map (\<lambda>k. hexchar (value div 16 ^ k mod 16)) (rev [0..<width])"

section \<open>Handlers of descriptors\<close>

text \<open>The packets that wait to be written, and how much of the first one is.\<close>

record fdhandler =
  fh_fd :: int
  fh_out :: "byte list list"
  fh_pos :: nat

definition fdhandler_new :: "int \<Rightarrow> fdhandler" where
  "fdhandler_new fd = \<lparr>fh_fd = fd, fh_out = [], fh_pos = 0\<rparr>"

definition fdhandler_enqueue :: "byte list \<Rightarrow> fdhandler \<Rightarrow> fdhandler" where
  "fdhandler_enqueue p f =
     f\<lparr>fh_out := fh_out f @ [p], fh_pos := (if fh_out f = [] then 0 else fh_pos f)\<rparr>"

text \<open>The descriptor can be written to: \<open>n\<close> is what \<open>fd_write\<close> returns, negative on errors.\<close>

definition fdhandler_write :: "int \<Rightarrow> fdhandler \<Rightarrow> byte list \<times> fdhandler" where
  "fdhandler_write n f =
     (case fh_out f of
        [] \<Rightarrow> ([], f)
      | p # ps \<Rightarrow>
          if n < 0 then ([], f)
          else let len = nat n; pos = fh_pos f + len in
            (take len (drop (fh_pos f) p),
             if pos \<ge> length p then f\<lparr>fh_out := ps, fh_pos := 0\<rparr> else f\<lparr>fh_pos := pos\<rparr>))"

definition fdhandler_pending :: "fdhandler \<Rightarrow> byte list" where
  "fdhandler_pending f = drop (fh_pos f) (concat (fh_out f))"

section \<open>The serial line\<close>

definition MAX_PAYLOAD :: nat where "MAX_PAYLOAD = 4000"
definition HEADER_SIZE :: nat where "HEADER_SIZE = 6"

text \<open>
  The receiver. \<open>in_packet\<close> holds the bytes of the current header or payload that have arrived; their number
  is \<open>in_len\<close> in the code.
\<close>

record serial =
  in_packet :: "byte list"
  in_datalen :: int
  in_channel :: int

definition serial_init :: serial where
  "serial_init = \<lparr>in_packet = [], in_datalen = 0, in_channel = 0\<rparr>"

text \<open>What happens when a header is complete, and when a payload is.\<close>

definition header_complete :: "serial \<Rightarrow> serial" where
  "header_complete s =
     (let n = hex2int (take 4 (drop 2 (in_packet s))) in
      \<lparr>in_packet = [], in_datalen = (if n \<le> 0 then 0 else n), in_channel = hex2int (take 2 (in_packet s))\<rparr>)"

definition payload_complete :: "serial \<Rightarrow> (int \<times> byte list) list \<times> serial" where
  "payload_complete s =
     (if in_channel s < 0 then [] else [(in_channel s, in_packet s)], s\<lparr>in_packet := [], in_datalen := 0\<rparr>)"

text \<open>
  \<open>serial_fd_receive\<close> on the bytes of one read. None stands for a copy behind the end of the packet, and
  for a state that wants no byte, in which the loop would not end.
\<close>

function serial_receive :: "byte list \<Rightarrow> serial \<Rightarrow> ((int \<times> byte list) list \<times> serial) option" where
  "serial_receive data s =
     (if data = [] then Some ([], s)
      else
        let target = (if in_datalen s = 0 then HEADER_SIZE else nat (in_datalen s));
            avail = min (length data) (target - length (in_packet s));
            t = s\<lparr>in_packet := in_packet s @ take avail data\<rparr>;
            rest = drop avail data
        in
          if avail = 0 \<or> length (in_packet t) > MAX_PAYLOAD then None
          else if length (in_packet t) < target then serial_receive rest t
          else if in_datalen s = 0 then serial_receive rest (header_complete t)
          else case payload_complete t of
            (out, u) \<Rightarrow> map_option (\<lambda>(out', v). (out @ out', v)) (serial_receive rest u))"
  by pat_completeness auto
termination
  by (relation "measure (\<lambda>(data, s). length data)") (auto simp: Let_def)

declare serial_receive.simps [simp del]

text \<open>\<open>serial_send\<close>: a header and the payload.\<close>

definition serial_header :: "int \<Rightarrow> byte list \<Rightarrow> byte list" where
  "serial_header channel p = int2hex channel 2 @ int2hex (int (length p)) 4"

definition serial_send :: "int \<Rightarrow> byte list \<Rightarrow> fdhandler \<Rightarrow> fdhandler" where
  "serial_send channel p f = fdhandler_enqueue p (fdhandler_enqueue (serial_header channel p) f)"

section \<open>Reads of the serial line may be cut anywhere\<close>

definition serial_target :: "serial \<Rightarrow> nat" where
  "serial_target s = (if in_datalen s = 0 then HEADER_SIZE else nat (in_datalen s))"

lemma serial_target_in_packet [simp]: "serial_target (s\<lparr>in_packet := p\<rparr>) = serial_target s"
  by (simp add: serial_target_def)

text \<open>The receiver waits for at least one byte.\<close>

definition serial_ok :: "serial \<Rightarrow> bool" where
  "serial_ok s \<longleftrightarrow> length (in_packet s) < serial_target s"

lemma serial_init_ok [simp]: "serial_ok serial_init"
  by (simp add: serial_ok_def serial_target_def serial_init_def HEADER_SIZE_def)

lemma header_complete_ok [simp]: "serial_ok (header_complete s)"
  by (simp add: serial_ok_def serial_target_def header_complete_def HEADER_SIZE_def Let_def)

lemma payload_complete_ok [simp]: "payload_complete s = (out, t) \<Longrightarrow> serial_ok t"
  by (auto simp: serial_ok_def serial_target_def payload_complete_def HEADER_SIZE_def)

text \<open>The frame or header that the bytes at hand complete, and what is done then.\<close>

definition serial_complete :: "serial \<Rightarrow> (int \<times> byte list) list \<times> serial" where
  "serial_complete s = (if in_datalen s = 0 then ([], header_complete s) else payload_complete s)"

lemma serial_complete_ok [simp, dest]: "serial_complete s = (out, t) \<Longrightarrow> serial_ok t"
  by (auto simp: serial_complete_def split: if_splits)

lemma serial_receive_Nil [simp]: "serial_receive [] s = Some ([], s)"
  by (simp add: serial_receive.simps)

lemma serial_receive_short:
  assumes "length (in_packet s) + length xs < serial_target s"
  shows "serial_receive xs s =
    (if xs \<noteq> [] \<and> length (in_packet s) + length xs > MAX_PAYLOAD then None
     else Some ([], s\<lparr>in_packet := in_packet s @ xs\<rparr>))"
  using assms by (subst serial_receive.simps) (auto simp: Let_def serial_target_def min_absorb1)

lemma serial_receive_full:
  assumes "serial_ok s" "length (in_packet s) + length xs = serial_target s"
  shows "serial_receive (xs @ ys) s =
    (if serial_target s > MAX_PAYLOAD then None
     else case serial_complete (s\<lparr>in_packet := in_packet s @ xs\<rparr>) of
       (out, t) \<Rightarrow> map_option (\<lambda>(out', u). (out @ out', u)) (serial_receive ys t))"
proof -
  have xs: "xs \<noteq> []" "serial_target s - length (in_packet s) = length xs"
    using assms by (auto simp: serial_ok_def)
  show ?thesis
    by (subst serial_receive.simps)
      (use assms xs in \<open>auto simp: Let_def serial_target_def [symmetric] serial_complete_def option.map_id\<close>)
qed

lemma serial_split:
  assumes "serial_ok s" "serial_target s \<le> length (in_packet s) + length xs"
  obtains x1 x2 where "xs = x1 @ x2" "length (in_packet s) + length x1 = serial_target s" "x1 \<noteq> []"
proof
  let ?n = "serial_target s - length (in_packet s)"
  show "xs = take ?n xs @ drop ?n xs" by simp
  show "length (in_packet s) + length (take ?n xs) = serial_target s" "take ?n xs \<noteq> []"
    using assms by (auto simp: serial_ok_def)
qed

text \<open>Bytes that complete nothing are only kept.\<close>

lemma serial_receive_absorb:
  assumes ok: "serial_ok s" and xs: "length (in_packet s) + length xs < serial_target s"
    and fits: "length (in_packet s) + length xs \<le> MAX_PAYLOAD"
  shows "serial_receive (xs @ ys) s = serial_receive ys (s\<lparr>in_packet := in_packet s @ xs\<rparr>)"
    (is "_ = serial_receive ys ?t")
proof (cases "length (in_packet s) + length xs + length ys < serial_target s")
  case True
  moreover have "length (in_packet ?t) + length ys < serial_target ?t"
    using True by simp
  ultimately show ?thesis
    using serial_receive_short [of s "xs @ ys"] serial_receive_short [of ?t ys] fits by auto
next
  case False
  have t: "serial_ok ?t" "serial_target ?t = serial_target s"
    using xs by (simp_all add: serial_ok_def)
  obtain y1 y2 where y: "ys = y1 @ y2" "length (in_packet ?t) + length y1 = serial_target ?t"
    by (rule serial_split [OF t(1), of ys]) (use False t in auto)
  show ?thesis
    using serial_receive_full [OF ok, of "xs @ y1" y2] serial_receive_full [OF t(1) y(2), of y2] y t by simp
qed

lemma serial_receive_append:
  assumes "serial_ok s"
  shows "serial_receive (xs @ ys) s =
    (case serial_receive xs s of
       None \<Rightarrow> None
     | Some (out, t) \<Rightarrow> map_option (\<lambda>(out', u). (out @ out', u)) (serial_receive ys t))"
  using assms
proof (induction "length xs" arbitrary: xs s rule: less_induct)
  case less
  show ?case
  proof (cases "length (in_packet s) + length xs < serial_target s")
    case True
    show ?thesis
    proof (cases "length (in_packet s) + length xs \<le> MAX_PAYLOAD")
      case fits: True
      show ?thesis
        using serial_receive_absorb [OF less.prems True fits] serial_receive_short [OF True] fits
        by (simp add: option.map_id split_beta)
    next
      case False
      show ?thesis
      proof (cases "length (in_packet s) + length (xs @ ys) < serial_target s")
        case True
        with False serial_receive_short [of s "xs @ ys"] serial_receive_short [of s xs] show ?thesis
          by (cases "xs = []") (auto simp: option.map_id split_beta)
      next
        case long: False
        obtain z1 z2 where z: "xs @ ys = z1 @ z2" "length (in_packet s) + length z1 = serial_target s"
          by (rule serial_split [OF less.prems, of "xs @ ys"]) (use long in auto)
        show ?thesis
          using serial_receive_full [OF less.prems z(2), of z2] serial_receive_short [OF True] z False True
          by (cases "xs = []") (auto simp: option.map_id split_beta)
      qed
    qed
  next
    case False
    then obtain x1 x2 where x: "xs = x1 @ x2" "length (in_packet s) + length x1 = serial_target s" "x1 \<noteq> []"
      using serial_split [OF less.prems, of xs] by (metis not_less)
    obtain out t where c: "serial_complete (s\<lparr>in_packet := in_packet s @ x1\<rparr>) = (out, t)" by fastforce
    have IH: "serial_receive (x2 @ ys) t = (case serial_receive x2 t of None \<Rightarrow> None
        | Some (out, t) \<Rightarrow> map_option (\<lambda>(out', u). (out @ out', u)) (serial_receive ys t))"
      using less.hyps [of x2 t] x c by simp
    show ?thesis
      using serial_receive_full [OF less.prems x(2), of "x2 @ ys"]
        serial_receive_full [OF less.prems x(2), of x2] x c IH
      by (auto simp: option.map_comp comp_def case_prod_unfold split: option.splits)
  qed
qed

lemma serial_receive_ok:
  assumes "serial_ok s" "serial_receive xs s = Some (out, t)"
  shows "serial_ok t"
  using assms
proof (induction "length xs" arbitrary: xs s out rule: less_induct)
  case less
  show ?case
  proof (cases "length (in_packet s) + length xs < serial_target s")
    case True
    with less.prems serial_receive_short [OF True] show ?thesis
      by (auto simp: serial_ok_def serial_target_def split: if_splits)
  next
    case False
    then obtain x1 x2 where x: "xs = x1 @ x2" "length (in_packet s) + length x1 = serial_target s" "x1 \<noteq> []"
      using serial_split [OF less.prems(1), of xs] by (metis not_less)
    with less.prems less.hyps [of x2] serial_receive_full [OF less.prems(1) x(2), of x2] show ?thesis
      by (auto split: if_splits prod.splits)
  qed
qed

interpretation sr: incremental serial_ok serial_receive
  by unfold_locales (simp_all add: serial_receive_append serial_receive_ok)

section \<open>What is framed is received\<close>

lemma hex_byte_hexchar:
  assumes "0 \<le> d" "d < 16"
  shows "hex_byte (hexchar d) = Some d"
proof -
  have "list_all (\<lambda>d. hex_byte (hexchar d) = Some d) [0..15]" by code_simp
  with assms show ?thesis by (simp add: list_all_iff)
qed

lemma int2hex_Suc: "int2hex v (Suc w) = hexchar (v div 16 ^ w mod 16) # int2hex v w"
  by (simp add: int2hex_def)

lemma length_int2hex [simp]: "length (int2hex v w) = w"
  by (simp add: int2hex_def)

lemma hex2int_from_int2hex: "hex2int_from r (int2hex v w) = r * 16 ^ w + v mod 16 ^ w"
proof (induction w arbitrary: r)
  case (Suc w)
  have "v mod (16 ^ w * 16) = 16 ^ w * (v div 16 ^ w mod 16) + v mod 16 ^ w"
    by (rule zmod_zmult2_eq) simp
  with Suc show ?case
    by (simp add: int2hex_Suc hex_byte_hexchar algebra_simps)
qed (simp add: int2hex_def)

lemma hex2int_int2hex: "0 \<le> v \<Longrightarrow> v < 16 ^ w \<Longrightarrow> hex2int (int2hex v w) = v"
  by (simp add: hex2int_def hex2int_from_int2hex)

text \<open>A packet as it is on the line.\<close>

definition serial_frame :: "int \<times> byte list \<Rightarrow> byte list" where
  "serial_frame m = serial_header (fst m) (snd m) @ snd m"

lemma length_serial_header [simp]: "length (serial_header ch d) = HEADER_SIZE"
  by (simp add: serial_header_def HEADER_SIZE_def)

lemma header_complete_serial_header:
  assumes "0 \<le> ch" "ch < 256" "d \<noteq> []" "length d < 65536"
  shows "header_complete (s\<lparr>in_packet := serial_header ch d\<rparr>) =
    \<lparr>in_packet = [], in_datalen = int (length d), in_channel = ch\<rparr>"
proof -
  have "hex2int (take 2 (serial_header ch d)) = ch"
    "hex2int (take 4 (drop 2 (serial_header ch d))) = int (length d)"
    using assms hex2int_int2hex [of ch 2] hex2int_int2hex [of "int (length d)" 4]
    by (simp_all add: serial_header_def)
  with assms show ?thesis by (simp add: header_complete_def)
qed

text \<open>Between two frames.\<close>

definition serial_idle :: "serial \<Rightarrow> bool" where
  "serial_idle s \<longleftrightarrow> in_packet s = [] \<and> in_datalen s = 0"

lemma serial_idle_ok [simp]: "serial_idle s \<Longrightarrow> serial_ok s"
  by (simp add: serial_idle_def serial_ok_def serial_target_def HEADER_SIZE_def)

lemma serial_idle_init [simp]: "serial_idle serial_init"
  by (simp add: serial_idle_def serial_init_def)

lemma serial_receive_header:
  assumes "serial_idle s" "0 \<le> ch" "ch < 256" "d \<noteq> []" "length d < 65536"
  shows "serial_receive (serial_header ch d @ ys) s =
    serial_receive ys \<lparr>in_packet = [], in_datalen = int (length d), in_channel = ch\<rparr>"
proof -
  have t: "serial_target s = HEADER_SIZE" "length (in_packet s) + length (serial_header ch d) = serial_target s"
    using assms(1) by (simp_all add: serial_idle_def serial_target_def)
  have "\<not> MAX_PAYLOAD < HEADER_SIZE"
    by (simp add: MAX_PAYLOAD_def HEADER_SIZE_def)
  moreover have "serial_complete (s\<lparr>in_packet := in_packet s @ serial_header ch d\<rparr>) =
      ([], \<lparr>in_packet = [], in_datalen = int (length d), in_channel = ch\<rparr>)"
    using assms header_complete_serial_header [OF assms(2-5), of s]
    by (simp add: serial_complete_def serial_idle_def)
  ultimately show ?thesis
    using serial_receive_full [of s "serial_header ch d" ys] assms(1) t
    by (simp add: option.map_id option.map_ident case_prod_unfold)
qed

lemma serial_receive_frame:
  assumes "serial_idle s" "0 \<le> fst m" "fst m < 256" "snd m \<noteq> []" "length (snd m) \<le> MAX_PAYLOAD"
  obtains t where "serial_idle t"
    "serial_receive (serial_frame m @ ys) s = map_option (\<lambda>(out, u). (m # out, u)) (serial_receive ys t)"
proof
  let ?h = "\<lparr>in_packet = [], in_datalen = int (length (snd m)), in_channel = fst m\<rparr>"
  let ?t = "\<lparr>in_packet = [], in_datalen = 0, in_channel = fst m\<rparr>"
  show "serial_idle ?t" by (simp add: serial_idle_def)
  have "serial_receive (serial_frame m @ ys) s = serial_receive (snd m @ ys) ?h"
    using serial_receive_header [OF assms(1-4), of "snd m @ ys"] assms(5)
    by (simp add: serial_frame_def MAX_PAYLOAD_def)
  also have "\<dots> = map_option (\<lambda>(out, u). (m # out, u)) (serial_receive ys ?t)"
    using serial_receive_full [of ?h "snd m" ys] assms
    by (simp add: serial_ok_def serial_target_def serial_complete_def payload_complete_def case_prod_unfold)
  finally show "serial_receive (serial_frame m @ ys) s =
    map_option (\<lambda>(out, u). (m # out, u)) (serial_receive ys ?t)" .
qed

text \<open>The reads of the serial line, one after the other.\<close>

fun serial_reads :: "byte list list \<Rightarrow> serial \<Rightarrow> ((int \<times> byte list) list \<times> serial) option" where
  "serial_reads [] s = Some ([], s)"
| "serial_reads (p # ps) s =
     (case serial_receive p s of
        None \<Rightarrow> None
      | Some (out, t) \<Rightarrow> map_option (\<lambda>(out', u). (out @ out', u)) (serial_reads ps t))"

lemma serial_reads_stream: "serial_reads ps s = sr.reads ps s"
  by (induction ps arbitrary: s) (simp_all cong: option.case_cong prod.case_cong)

lemma serial_reads_concat: "serial_ok s \<Longrightarrow> serial_reads ps s = serial_receive (concat ps) s"
  by (simp add: serial_reads_stream sr.reads_concat)

lemma serial_receive_frames:
  assumes "serial_idle s"
    "list_all (\<lambda>(ch, d). 0 \<le> ch \<and> ch < 256 \<and> d \<noteq> [] \<and> length d \<le> MAX_PAYLOAD) ms"
  shows "\<exists>t. serial_idle t \<and> serial_receive (concat (map serial_frame ms)) s = Some (ms, t)"
  using assms
proof (induction ms arbitrary: s)
  case (Cons m ms)
  obtain t where t: "serial_idle t"
    "serial_receive (serial_frame m @ concat (map serial_frame ms)) s =
      map_option (\<lambda>(out, u). (m # out, u)) (serial_receive (concat (map serial_frame ms)) t)"
    by (rule serial_receive_frame [OF Cons.prems(1), of m]) (use Cons.prems(2) in auto)
  with Cons.IH [OF t(1)] Cons.prems(2) show ?case by auto
qed simp

text \<open>
  C20. Packets for channels 0 to 255 with payloads of 1 to 4000 bytes are received as they were sent, in order,
  however the bytes of the line are cut into reads (\<open>serial_send\<close>, \<open>serial_fd_receive\<close>, \<open>hex2int\<close>,
  \<open>int2hex\<close>).
\<close>
theorem serial_roundtrip:
  assumes "list_all (\<lambda>(ch, d). 0 \<le> ch \<and> ch < 256 \<and> d \<noteq> [] \<and> length d \<le> MAX_PAYLOAD) ms"
    and "concat ps = concat (map (\<lambda>(ch, d). serial_header ch d @ d) ms)"
  shows "\<exists>t. serial_reads ps serial_init = Some (ms, t) \<and> in_packet t = [] \<and> in_datalen t = 0"
proof -
  have "concat ps = concat (map serial_frame ms)"
    using assms(2) by (simp add: serial_frame_def [abs_def] case_prod_unfold)
  with serial_receive_frames [OF serial_idle_init assms(1)] show ?thesis
    by (auto simp: serial_reads_concat serial_idle_def)
qed

lemma serial_roundtrip_witness:
  "\<exists>t. serial_reads [[48, 49, 48, 48], [48, 51, 97, 98, 99, 48], [97, 48, 48, 48, 49, 100]] serial_init =
     Some ([(1, [97, 98, 99]), (10, [100])], t) \<and> in_packet t = [] \<and> in_datalen t = 0"
  by (rule serial_roundtrip) (code_simp, code_simp)

section \<open>The bound of the packet buffer\<close>

text \<open>
  The receiver takes \<open>k\<close> bytes of the payload of a frame, whose length field holds up to 65535, without
  leaving its packet buffer exactly as long as \<open>k\<close> is at most 4000: nothing else in the code keeps the
  announced length within \<open>MAX_PAYLOAD\<close>.
\<close>
lemma serial_payload_bound:
  assumes "0 \<le> ch" "ch < 256" "d \<noteq> []" "length d < 65536" "k \<le> length d"
  shows "serial_reads [serial_header ch d, take k d] serial_init = None \<longleftrightarrow> k > MAX_PAYLOAD"
proof -
  let ?h = "\<lparr>in_packet = [], in_datalen = int (length d), in_channel = ch\<rparr>"
  have h: "serial_ok ?h" "serial_target ?h = length d"
    using assms(3) by (simp_all add: serial_ok_def serial_target_def)
  have "serial_reads [serial_header ch d, take k d] serial_init = serial_receive (take k d) ?h"
    using serial_receive_header [OF serial_idle_init assms(1-4), of "take k d"]
    by (simp add: serial_reads_concat del: serial_reads.simps)
  also have "\<dots> = None \<longleftrightarrow> k > MAX_PAYLOAD"
  proof (cases "k = length d")
    case True
    with serial_receive_full [OF h(1), of d "[]"] h(2) show ?thesis
      by (simp split: prod.splits)
  next
    case False
    with serial_receive_short [of ?h "take k d"] h assms(5) show ?thesis
      by (auto simp: min_absorb2)
  qed
  finally show ?thesis .
qed

lemma serial_payload_bound_witness:
  "serial_reads [serial_header 1 (replicate 5000 65), take 4001 (replicate 5000 65)] serial_init = None"
  by (subst serial_payload_bound) (simp_all add: MAX_PAYLOAD_def)

section \<open>What is written to a descriptor\<close>

definition fdhandler_ok :: "fdhandler \<Rightarrow> bool" where
  "fdhandler_ok f \<longleftrightarrow> (case fh_out f of [] \<Rightarrow> True | p # _ \<Rightarrow> fh_pos f \<le> length p)"

lemma fdhandler_new_ok [simp]: "fdhandler_ok (fdhandler_new fd)"
  by (simp add: fdhandler_ok_def fdhandler_new_def)

lemma fdhandler_pending_new [simp]: "fdhandler_pending (fdhandler_new fd) = []"
  by (simp add: fdhandler_pending_def fdhandler_new_def)

lemma fdhandler_enqueue_ok [simp]: "fdhandler_ok f \<Longrightarrow> fdhandler_ok (fdhandler_enqueue p f)"
  by (auto simp: fdhandler_ok_def fdhandler_enqueue_def split: list.splits)

lemma fdhandler_pending_enqueue:
  "fdhandler_ok f \<Longrightarrow> fdhandler_pending (fdhandler_enqueue p f) = fdhandler_pending f @ p"
  by (cases "fh_out f") (auto simp: fdhandler_ok_def fdhandler_pending_def fdhandler_enqueue_def)

lemma fdhandler_write_ok:
  "fdhandler_ok f \<Longrightarrow> fdhandler_write n f = (w, g) \<Longrightarrow> fdhandler_ok g"
  by (auto simp: fdhandler_ok_def fdhandler_write_def Let_def split: list.splits if_splits)

lemma fdhandler_write_pending:
  assumes "fdhandler_ok f" "fdhandler_write n f = (w, g)"
    and "case fh_out f of [] \<Rightarrow> True | p # _ \<Rightarrow> n \<le> int (length p - fh_pos f)"
  shows "w @ fdhandler_pending g = fdhandler_pending f"
proof (cases "fh_out f")
  case (Cons p ps)
  show ?thesis
  proof (cases "n < 0")
    case False
    have "take (nat n) (drop (fh_pos f) p) @ drop (fh_pos f + nat n) p = drop (fh_pos f) p"
      by (metis add.commute append_take_drop_id drop_drop)
    with assms Cons False show ?thesis
      by (auto simp: fdhandler_write_def fdhandler_pending_def fdhandler_ok_def Let_def split: if_splits)
  qed (use assms Cons in \<open>simp add: fdhandler_write_def\<close>)
qed (use assms in \<open>simp add: fdhandler_write_def\<close>)

lemma fdhandler_pending_serial_send:
  "fdhandler_ok f \<Longrightarrow>
     fdhandler_pending (serial_send ch d f) = fdhandler_pending f @ serial_frame (ch, d)"
  by (simp add: serial_send_def serial_frame_def fdhandler_pending_enqueue)

lemma serial_send_ok [simp]: "fdhandler_ok f \<Longrightarrow> fdhandler_ok (serial_send ch d f)"
  by (simp add: serial_send_def)

end
