(* ===== verification/Multiplexer.thy ===== *)
theory Multiplexer
  imports QemudDaemon
begin

text \<open>
  The clients of the daemon and the multiplexer between them and the serial line (second half of
  \<open>android/qemud/qemud.c\<close>). A client is known by its descriptor, which no other open client has. Handlers
  that were shut down with packets still to be written are kept apart, as in the code.

  Shown here: what every event keeps of the state, when an event touches an object that has been freed, when
  a free channel is found, and that packets go to the client that owns the channel and to no other.
\<close>

section \<open>State\<close>

record client =
  cl_channel :: int
  cl_registered :: bool
  cl_handler :: fdhandler

record mult =
  mx_clients :: "client list"
  mx_last :: u32
  mx_serial :: serial
  mx_line :: fdhandler
  mx_closing :: "fdhandler list"

abbreviation cl_fd :: "client \<Rightarrow> int" where
  "cl_fd c \<equiv> fh_fd (cl_handler c)"

definition multiplexer_init :: "int \<Rightarrow> mult" where
  "multiplexer_init fd =
     \<lparr>mx_clients = [], mx_last = 0, mx_serial = serial_init, mx_line = fdhandler_new fd, mx_closing = []\<rparr>"

definition CHANNEL_CONTROL :: int where "CHANNEL_CONTROL = 0"

section \<open>Sending to the emulator\<close>

definition multiplexer_serial_send :: "int \<Rightarrow> byte list \<Rightarrow> mult \<Rightarrow> mult" where
  "multiplexer_serial_send channel p m = m\<lparr>mx_line := serial_send channel p (mx_line m)\<rparr>"

text \<open>\<open>%02x\<close> of a channel, which is between 0 and 255 wherever it is printed.\<close>

definition multiplexer_close_channel :: "int \<Rightarrow> mult \<Rightarrow> mult" where
  "multiplexer_close_channel channel m =
     multiplexer_serial_send CHANNEL_CONTROL (bytes_of ''disconnect:'' @ int2hex channel 2) m"

text \<open>The search for a channel; it does not end when all the 256 are taken.\<close>

partial_function (option) next_channel :: "client list \<Rightarrow> u32 \<Rightarrow> (int \<times> u32) option" where
  "next_channel cs last_channel =
     (let n = last_channel + 1; channel = uint (n AND 0xff) in
      if list_ex (\<lambda>c. cl_channel c = channel) cs then next_channel cs n else Some (channel, n))"

text \<open>\<open>%.*s\<close> prints the name up to a zero byte. The result is the channel, or -1.\<close>

definition connect_message :: "byte list \<Rightarrow> int \<Rightarrow> byte list" where
  "connect_message service channel =
     bytes_of ''connect:'' @ takeWhile (\<lambda>b. b \<noteq> 0) service @ bytes_of '':'' @ int2hex channel 2"

definition multiplexer_open_channel :: "byte list \<Rightarrow> mult \<Rightarrow> (int \<times> mult) option" where
  "multiplexer_open_channel service m =
     (case next_channel (mx_clients m) (mx_last m) of
        None \<Rightarrow> None
      | Some (channel, n) \<Rightarrow>
          let m = m\<lparr>mx_last := n\<rparr>; p = connect_message service channel in
          Some (if length p \<ge> MAX_PAYLOAD then (-1, m)
                else (channel, multiplexer_serial_send CHANNEL_CONTROL p m)))"

section \<open>Clients\<close>

definition client_new :: "int \<Rightarrow> mult \<Rightarrow> mult" where
  "client_new fd m =
     m\<lparr>mx_clients := \<lparr>cl_channel = -1, cl_registered = False, cl_handler = fdhandler_new fd\<rparr> # mx_clients m\<rparr>"

definition find_fd :: "int \<Rightarrow> mult \<Rightarrow> client option" where
  "find_fd fd m = find (\<lambda>c. cl_fd c = fd) (mx_clients m)"

definition update_fd :: "int \<Rightarrow> (client \<Rightarrow> client) \<Rightarrow> client list \<Rightarrow> client list" where
  "update_fd fd f cs = map (\<lambda>c. if cl_fd c = fd then f c else c) cs"

definition update_client :: "int \<Rightarrow> (client \<Rightarrow> client) \<Rightarrow> mult \<Rightarrow> mult" where
  "update_client fd f m = m\<lparr>mx_clients := update_fd fd f (mx_clients m)\<rparr>"

definition remove_client :: "int \<Rightarrow> mult \<Rightarrow> mult" where
  "remove_client fd m = m\<lparr>mx_clients := filter (\<lambda>c. cl_fd c \<noteq> fd) (mx_clients m)\<rparr>"

text \<open>
  \<open>client_free\<close> with the shutdown of the handler, which stays as long as it has packets to write.
\<close>

definition fdhandler_shutdown :: "fdhandler \<Rightarrow> mult \<Rightarrow> mult" where
  "fdhandler_shutdown f m = (if fh_out f \<noteq> [] then m\<lparr>mx_closing := f # mx_closing m\<rparr> else m)"

definition client_free :: "client \<Rightarrow> mult \<Rightarrow> mult" where
  "client_free c m = fdhandler_shutdown (cl_handler c) (remove_client (cl_fd c) m)"

text \<open>A client socket receives data. None: the search for a channel does not end.\<close>

definition client_fd_receive :: "client \<Rightarrow> byte list \<Rightarrow> mult \<Rightarrow> mult option" where
  "client_fd_receive c p m =
     (if cl_registered c then Some (multiplexer_serial_send (cl_channel c) p m)
      else if cl_channel c > 0 then Some (client_free c m)
      else case multiplexer_open_channel p m of
          None \<Rightarrow> None
        | Some (channel, m) \<Rightarrow>
            let m = update_client (cl_fd c) (\<lambda>c. c\<lparr>cl_channel := channel\<rparr>) m in
            Some (if channel < 0 then client_free c m else m))"

definition client_fd_close :: "client \<Rightarrow> mult \<Rightarrow> mult" where
  "client_fd_close c m =
     remove_client (cl_fd c)
       (if cl_channel c > 0 then multiplexer_close_channel (cl_channel c) m else m)"

definition client_send :: "byte list \<Rightarrow> client \<Rightarrow> client" where
  "client_send p c = c\<lparr>cl_handler := fdhandler_enqueue p (cl_handler c)\<rparr>"

definition client_registration :: "bool \<Rightarrow> client \<Rightarrow> client" where
  "client_registration registered c =
     (let c = client_send (bytes_of (if registered then ''OK'' else ''KO'')) c;
          c = c\<lparr>cl_registered := registered\<rparr>
      in if registered then c else c\<lparr>cl_channel := -1\<rparr>)"

section \<open>Packets from the emulator\<close>

fun multiplexer_find_client :: "client list \<Rightarrow> int \<Rightarrow> client option" where
  "multiplexer_find_client [] channel = None"
| "multiplexer_find_client (c # cs) channel =
     (if cl_channel c = channel then Some c else multiplexer_find_client cs channel)"

definition multiplexer_handle_control :: "byte list \<Rightarrow> mult \<Rightarrow> mult" where
  "multiplexer_handle_control p m =
     (let client = multiplexer_find_client (mx_clients m) (hex2int (drop 11 p));
          is = (\<lambda>s. length p = 13 \<and> take 11 p = bytes_of s)
      in if is ''ok:connect:'' then
           (case client of None \<Rightarrow> m | Some c \<Rightarrow> update_client (cl_fd c) (client_registration True) m)
         else if is ''ko:connect:'' then
           (case client of None \<Rightarrow> m | Some c \<Rightarrow> update_client (cl_fd c) (client_registration False) m)
         else if is ''disconnect:'' then
           (case client of None \<Rightarrow> m | Some c \<Rightarrow> client_free c m)
         else m)"

definition multiplexer_serial_receive :: "int \<times> byte list \<Rightarrow> mult \<Rightarrow> mult" where
  "multiplexer_serial_receive q m =
     (case q of (channel, p) \<Rightarrow>
        if channel = CHANNEL_CONTROL then multiplexer_handle_control p m
        else case multiplexer_find_client (mx_clients m) channel of
            None \<Rightarrow> m
          | Some c \<Rightarrow> update_client (cl_fd c) (client_send p) m)"

text \<open>\<open>serial_fd_receive\<close> posts each packet to the multiplexer as soon as it is complete.\<close>

definition mult_serial_fd_receive :: "byte list \<Rightarrow> mult \<Rightarrow> mult option" where
  "mult_serial_fd_receive data m =
     (case serial_receive data (mx_serial m) of
        None \<Rightarrow> None
      | Some (packets, s) \<Rightarrow> Some (fold multiplexer_serial_receive packets (m\<lparr>mx_serial := s\<rparr>)))"

section \<open>Events\<close>

text \<open>
  \<open>fdhandler_event\<close> on the handler of a client: the data of an \<open>EPOLLIN\<close> (no data when there is none or the
  read failed), \<open>EPOLLHUP\<close> or \<open>EPOLLERR\<close>, and the result of the write for an \<open>EPOLLOUT\<close>. None stands for
  the use of a freed object: the handler when the client has been freed with nothing to write, or the client
  of a handler that is closing.
\<close>

record fd_event =
  ev_data :: "byte list"
  ev_hangup :: bool
  ev_writable :: "int option"

definition is_closing :: "int \<Rightarrow> mult \<Rightarrow> bool" where
  "is_closing fd m \<longleftrightarrow> list_ex (\<lambda>f. fh_fd f = fd) (mx_closing m)"

definition finish_client_event :: "fd_event \<Rightarrow> int \<Rightarrow> mult \<Rightarrow> mult option" where
  "finish_client_event e fd m =
     (case find_fd fd m of
        Some c \<Rightarrow>
          Some (if ev_hangup e then client_fd_close c m
                else case ev_writable e of
                    None \<Rightarrow> m
                  | Some n \<Rightarrow> update_client fd (\<lambda>c. c\<lparr>cl_handler := snd (fdhandler_write n (cl_handler c))\<rparr>) m)
      | None \<Rightarrow>
          if is_closing fd m then
            Some (if ev_hangup e then m\<lparr>mx_closing := filter (\<lambda>f. fh_fd f \<noteq> fd) (mx_closing m)\<rparr>
                  else case ev_writable e of
                      None \<Rightarrow> m
                    | Some n \<Rightarrow> m\<lparr>mx_closing :=
                        map (\<lambda>f. if fh_fd f = fd then snd (fdhandler_write n f) else f) (mx_closing m)\<rparr>)
          else if ev_hangup e \<or> ev_writable e \<noteq> None then None
          else Some m)"

definition client_event :: "fd_event \<Rightarrow> int \<Rightarrow> mult \<Rightarrow> mult option" where
  "client_event e fd m =
     (if ev_data e = [] then finish_client_event e fd m
      else case find_fd fd m of
          Some c \<Rightarrow> Option.bind (client_fd_receive c (ev_data e) m) (finish_client_event e fd)
        | None \<Rightarrow> None)"

datatype event =
    Line_Data "byte list"
  | Line_Writable int
  | Accept int
  | Client_Event fd_event int

text \<open>
  The descriptor of a new connection is one the daemon has not open: that is what the kernel guarantees.
\<close>

definition daemon_step :: "event \<Rightarrow> mult \<Rightarrow> mult option" where
  "daemon_step ev m =
     (case ev of
        Line_Data data \<Rightarrow> mult_serial_fd_receive data m
      | Line_Writable n \<Rightarrow> Some (m\<lparr>mx_line := snd (fdhandler_write n (mx_line m))\<rparr>)
      | Accept fd \<Rightarrow> Some (client_new fd m)
      | Client_Event e fd \<Rightarrow> client_event e fd m)"

fun daemon_run :: "event list \<Rightarrow> mult \<Rightarrow> mult option" where
  "daemon_run [] m = Some m"
| "daemon_run (e # es) m = Option.bind (daemon_step e m) (daemon_run es)"

section \<open>The search for a channel\<close>

definition channels :: "client list \<Rightarrow> int set" where
  "channels cs = cl_channel ` set cs"

lemma channels_simps [simp]:
  "channels [] = {}" "channels (c # cs) = insert (cl_channel c) (channels cs)"
  by (simp_all add: channels_def)

lemma list_ex_channel: "list_ex (\<lambda>c. cl_channel c = ch) cs \<longleftrightarrow> ch \<in> channels cs"
  by (induction cs) auto

abbreviation channel_of :: "u32 \<Rightarrow> int" where
  "channel_of n \<equiv> uint (n AND 0xff)"

lemma channel_of_mod: "channel_of n = uint n mod 256"
proof -
  have "channel_of n = uint n AND mask 8" by (simp add: mask_numeral unsigned_and_eq)
  also have "\<dots> = uint n mod 256" by (simp add: take_bit_eq_mask [symmetric] take_bit_eq_mod)
  finally show ?thesis .
qed

lemma channel_of_range: "0 \<le> channel_of n" "channel_of n < 256"
  by (simp_all add: channel_of_mod)

lemma channel_of_add: "channel_of (n + of_nat k) = (uint n + int k) mod 256"
proof -
  have "uint (n + of_nat k) = (uint n + int k) mod 2 ^ 32"
    by (simp add: uint_word_ariths unsigned_of_nat take_bit_eq_mod of_nat_mod mod_add_right_eq)
  then show ?thesis
    by (simp add: channel_of_mod mod_mod_cancel)
qed

lemma next_channel_code:
  "next_channel cs n =
     (if channel_of (n + 1) \<in> channels cs then next_channel cs (n + 1) else Some (channel_of (n + 1), n + 1))"
  by (subst next_channel.simps) (simp add: Let_def list_ex_channel)

text \<open>What it finds is free.\<close>

lemma next_channel_free:
  assumes "next_channel cs n = Some (ch, n')"
  shows "ch \<notin> channels cs \<and> 0 \<le> ch \<and> ch < 256 \<and> ch = channel_of n'"
proof -
  have "\<And>r. next_channel cs n = Some r \<Longrightarrow>
    (case r of (ch, n') \<Rightarrow> ch \<notin> channels cs \<and> 0 \<le> ch \<and> ch < 256 \<and> ch = channel_of n')"
    by (rule next_channel.raw_induct
        [where P = "\<lambda>cs n r. case r of (ch, n') \<Rightarrow> ch \<notin> channels cs \<and> 0 \<le> ch \<and> ch < 256 \<and> ch = channel_of n'",
          rotated])
      (auto simp: Let_def list_ex_channel channel_of_range split: if_splits)
  with assms show ?thesis by fastforce
qed

text \<open>It goes on from the last channel given and stops at the first free one.\<close>

lemma next_channel_first:
  assumes "channel_of (n + of_nat (Suc k)) \<notin> channels cs"
    and "\<And>j. j < k \<Longrightarrow> channel_of (n + of_nat (Suc j)) \<in> channels cs"
  shows "next_channel cs n = Some (channel_of (n + of_nat (Suc k)), n + of_nat (Suc k))"
  using assms
proof (induction k arbitrary: n)
  case 0
  then show ?case by (simp add: next_channel_code [of cs n])
next
  case (Suc k)
  have "next_channel cs (n + 1) =
    Some (channel_of (n + 1 + of_nat (Suc k)), n + 1 + of_nat (Suc k))"
  proof (rule Suc.IH)
    show "channel_of (n + 1 + of_nat (Suc k)) \<notin> channels cs"
      using Suc.prems(1) by (simp add: add.assoc)
    show "channel_of (n + 1 + of_nat (Suc j)) \<in> channels cs" if "j < k" for j
      using Suc.prems(2) [of "Suc j"] that by (simp add: add.assoc)
  qed
  moreover have "channel_of (n + 1) \<in> channels cs"
    using Suc.prems(2) [of 0] by simp
  ultimately show ?case
    by (simp add: next_channel_code [of cs n] add.assoc)
qed

lemma next_channel_finds:
  assumes "0 \<le> ch" "ch < 256" "ch \<notin> channels cs"
  shows "\<exists>r. next_channel cs n = Some r"
proof -
  let ?free = "\<lambda>k. channel_of (n + of_nat (Suc k)) \<notin> channels cs"
  let ?k = "nat ((ch - uint n - 1) mod 256)"
  have "channel_of (n + of_nat (Suc ?k)) = (uint n + 1 + (ch - uint n - 1)) mod 256"
    unfolding channel_of_add
    using mod_add_right_eq [of "uint n + 1" "ch - uint n - 1" 256] by (simp add: add.assoc)
  also have "\<dots> = ch" using assms by simp
  finally have "?free ?k" using assms by simp
  then obtain k where k: "?free k" "\<And>j. j < k \<Longrightarrow> \<not> ?free j"
    using exists_least_iff [of ?free] by blast
  show ?thesis
    by (rule exI, rule next_channel_first [OF k(1)]) (use k(2) in blast)
qed

text \<open>
  The search of \<open>multiplexer_open_channel\<close> ends exactly when one of the 256 channels is free, whatever was
  given last, and gives a channel that no client has.
\<close>
lemma next_channel_ends:
  "case next_channel cs n of
     None \<Rightarrow> {0..<256} \<subseteq> cl_channel ` set cs
   | Some (ch, n') \<Rightarrow> ch \<in> {0..<256} \<and> ch \<notin> cl_channel ` set cs \<and> uint (n' AND 0xff) = ch"
proof (cases "next_channel cs n")
  case None
  then show ?thesis
    using next_channel_finds [of _ cs n] by (fastforce simp: channels_def)
next
  case (Some r)
  then show ?thesis
    using next_channel_free [of cs n "fst r" "snd r"] by (auto simp: channels_def)
qed

text \<open>After 255 channels the search reaches 0, the control channel, which is not for clients.\<close>

lemma next_channel_control: "next_channel [] 255 = Some (CHANNEL_CONTROL, 256)"
  by (simp add: next_channel_code CHANNEL_CONTROL_def)

section \<open>What every event keeps\<close>

definition clients_ok :: "client list \<Rightarrow> bool" where
  "clients_ok cs \<longleftrightarrow>
     list_all (\<lambda>c. fdhandler_ok (cl_handler c) \<and> -1 \<le> cl_channel c \<and> cl_channel c < 256) cs \<and>
     distinct (filter (\<lambda>ch. ch \<noteq> -1) (map cl_channel cs))"

definition open_fds :: "mult \<Rightarrow> int list" where
  "open_fds m = map cl_fd (mx_clients m) @ map fh_fd (mx_closing m)"

definition mult_inv :: "mult \<Rightarrow> bool" where
  "mult_inv m \<longleftrightarrow>
     serial_ok (mx_serial m) \<and> fdhandler_ok (mx_line m) \<and> clients_ok (mx_clients m) \<and>
     list_all fdhandler_ok (mx_closing m) \<and> distinct (open_fds m)"

lemma fh_fd_enqueue [simp]: "fh_fd (fdhandler_enqueue p f) = fh_fd f"
  by (simp add: fdhandler_enqueue_def)

lemma fh_fd_write [simp]: "fh_fd (snd (fdhandler_write n f)) = fh_fd f"
  by (simp add: fdhandler_write_def Let_def split: list.splits)

lemma fdhandler_write_snd_ok [simp]: "fdhandler_ok f \<Longrightarrow> fdhandler_ok (snd (fdhandler_write n f))"
  by (metis fdhandler_write_ok prod.collapse)

text \<open>Updates that leave descriptors and channels alone.\<close>

definition quiet :: "(client \<Rightarrow> client) \<Rightarrow> bool" where
  "quiet f \<longleftrightarrow>
     (\<forall>c. cl_fd (f c) = cl_fd c \<and> cl_channel (f c) = cl_channel c \<and>
          (fdhandler_ok (cl_handler c) \<longrightarrow> fdhandler_ok (cl_handler (f c))))"

lemma update_fd_simps [simp]:
  "update_fd fd f [] = []"
  "update_fd fd f (c # cs) = (if cl_fd c = fd then f c else c) # update_fd fd f cs"
  by (simp_all add: update_fd_def)

lemma map_update_fd: "(\<And>c. h (f c) = h c) \<Longrightarrow> map h (update_fd fd f cs) = map h cs"
  by (induction cs) auto

lemma image_update_fd:
  "(\<And>c. cl_fd (f c) = cl_fd c) \<Longrightarrow> cl_fd ` set (update_fd fd f cs) = cl_fd ` set cs"
  by (simp add: map_update_fd flip: set_map)

lemma update_fd_other: "fd \<notin> cl_fd ` set cs \<Longrightarrow> update_fd fd f cs = cs"
  by (induction cs) auto

lemma list_all_update_fd:
  "list_all P cs \<Longrightarrow> (\<And>c. P c \<Longrightarrow> P (f c)) \<Longrightarrow> list_all P (update_fd fd f cs)"
  by (induction cs) auto

lemma mult_inv_quiet:
  assumes "mult_inv m" "quiet f"
  shows "mult_inv (update_client fd f m)"
proof -
  have "map cl_channel (update_fd fd f cs) = map cl_channel cs"
    "map cl_fd (update_fd fd f cs) = map cl_fd cs" for cs
    using assms(2) by (auto simp: quiet_def intro!: map_update_fd)
  with assms show ?thesis
    by (auto simp: mult_inv_def clients_ok_def open_fds_def update_client_def quiet_def
        intro!: list_all_update_fd)
qed

text \<open>A client gets a channel nobody has, or none.\<close>

lemma distinct_update_channel:
  assumes "distinct (filter (\<lambda>ch. ch \<noteq> -1) (map cl_channel cs))" "distinct (map cl_fd cs)"
    and "ch \<notin> cl_channel ` set cs \<or> ch = -1" "\<And>c. cl_channel (f c) = ch"
  shows "distinct (filter (\<lambda>ch. ch \<noteq> -1) (map cl_channel (update_fd fd f cs)))"
  using assms
proof (induction cs)
  case (Cons c cs)
  show ?case
  proof (cases "cl_fd c = fd")
    case True
    then have "update_fd fd f cs = cs"
      using Cons.prems(2) by (intro update_fd_other) auto
    with True Cons.prems show ?thesis by (auto split: if_splits)
  next
    case False
    have "cl_channel x \<in> insert ch (cl_channel ` set cs)" if "x \<in> set (update_fd fd f cs)" for x
      using that Cons.prems(4) by (auto simp: update_fd_def)
    then have "cl_channel c \<noteq> -1 \<Longrightarrow> cl_channel c \<notin> cl_channel ` set (update_fd fd f cs)"
      using Cons.prems by (fastforce split: if_splits)
    moreover have "distinct (filter (\<lambda>ch. ch \<noteq> -1) (map cl_channel (update_fd fd f cs)))"
      using Cons by (auto split: if_splits)
    ultimately show ?thesis using False by auto
  qed
qed simp

lemma mult_inv_channel:
  assumes "mult_inv m" "ch \<notin> cl_channel ` set (mx_clients m) \<or> ch = -1" "-1 \<le> ch" "ch < 256"
    and f: "\<And>c. cl_fd (f c) = cl_fd c" "\<And>c. cl_channel (f c) = ch"
      "\<And>c. fdhandler_ok (cl_handler c) \<Longrightarrow> fdhandler_ok (cl_handler (f c))"
  shows "mult_inv (update_client fd f m)"
proof -
  have "distinct (map cl_fd (mx_clients m))"
    using assms(1) by (simp add: mult_inv_def open_fds_def)
  then have "distinct (filter (\<lambda>ch. ch \<noteq> -1) (map cl_channel (update_fd fd f (mx_clients m))))"
    using assms(1,2) f(2) by (intro distinct_update_channel) (auto simp: mult_inv_def clients_ok_def)
  moreover have "map cl_fd (update_fd fd f (mx_clients m)) = map cl_fd (mx_clients m)"
    by (intro map_update_fd) (rule f(1))
  ultimately show ?thesis
    using assms by (auto simp: mult_inv_def clients_ok_def open_fds_def update_client_def
        intro!: list_all_update_fd)
qed

lemma mult_inv_line: "mult_inv m \<Longrightarrow> fdhandler_ok f \<Longrightarrow> mult_inv (m\<lparr>mx_line := f\<rparr>)"
  by (simp add: mult_inv_def open_fds_def)

lemma mult_inv_last: "mult_inv (m\<lparr>mx_last := n\<rparr>) = mult_inv m"
  by (simp add: mult_inv_def open_fds_def)

lemma mult_inv_serial_send [simp]: "mult_inv m \<Longrightarrow> mult_inv (multiplexer_serial_send ch p m)"
  unfolding multiplexer_serial_send_def by (rule mult_inv_line) (simp_all add: mult_inv_def)

lemma mult_inv_close_channel [simp]: "mult_inv m \<Longrightarrow> mult_inv (multiplexer_close_channel ch m)"
  by (simp add: multiplexer_close_channel_def)

lemma distinct_filter_channels:
  "distinct (filter Q (map cl_channel cs)) \<Longrightarrow> distinct (filter Q (map cl_channel (filter P cs)))"
  by (induction cs) auto

lemma mult_inv_remove [simp]:
  assumes "mult_inv m"
  shows "mult_inv (remove_client fd m)"
proof -
  have "distinct (map cl_fd (filter (\<lambda>c. cl_fd c \<noteq> fd) (mx_clients m)) @ map fh_fd (mx_closing m))"
    using assms by (auto simp: mult_inv_def open_fds_def distinct_map_filter)
  with assms show ?thesis
    by (auto simp: mult_inv_def clients_ok_def open_fds_def remove_client_def list_all_iff
        distinct_filter_channels)
qed

lemma mult_inv_free:
  assumes "mult_inv m" "fdhandler_ok (cl_handler c)" "cl_fd c \<in> cl_fd ` set (mx_clients m)"
  shows "mult_inv (client_free c m)"
proof -
  have "cl_fd c \<notin> fh_fd ` set (mx_closing m)"
    using assms by (auto simp: mult_inv_def clients_ok_def list_all_iff open_fds_def)
  with assms(2) mult_inv_remove [OF assms(1), of "cl_fd c"] show ?thesis
    by (auto simp: client_free_def fdhandler_shutdown_def mult_inv_def open_fds_def remove_client_def)
qed

lemma mult_inv_client:
  assumes "mult_inv m" "c \<in> set (mx_clients m)"
  shows "fdhandler_ok (cl_handler c)" "-1 \<le> cl_channel c" "cl_channel c < 256"
  using assms by (auto simp: mult_inv_def clients_ok_def list_all_iff)

lemma find_client_Some:
  "multiplexer_find_client cs ch = Some c \<Longrightarrow> c \<in> set cs \<and> cl_channel c = ch"
  by (induction cs) (auto split: if_splits)

lemma find_client_None: "multiplexer_find_client cs ch = None \<longleftrightarrow> ch \<notin> cl_channel ` set cs"
  by (induction cs) auto

lemma find_fd_Some: "find_fd fd m = Some c \<Longrightarrow> c \<in> set (mx_clients m) \<and> cl_fd c = fd"
  by (auto simp: find_fd_def find_Some_iff)

lemma quiet_client_send [simp]: "quiet (client_send p)"
  by (simp add: quiet_def client_send_def)

lemma quiet_client_registration [simp]: "quiet (client_registration True)"
  by (simp add: quiet_def client_registration_def client_send_def)

lemma mult_inv_registration:
  assumes "mult_inv m"
  shows "mult_inv (update_client fd (client_registration b) m)"
proof (cases b)
  case True
  with assms show ?thesis by (simp add: mult_inv_quiet)
next
  case False
  have "mult_inv (update_client fd (client_registration False) m)"
    by (rule mult_inv_channel [where ch = "-1", OF assms])
      (simp_all add: client_registration_def client_send_def)
  with False show ?thesis by simp
qed

lemma mult_inv_handle_control: "mult_inv m \<Longrightarrow> mult_inv (multiplexer_handle_control p m)"
  by (auto simp: multiplexer_handle_control_def Let_def mult_inv_registration
      dest!: find_client_Some intro!: mult_inv_free dest: mult_inv_client split: option.splits)

lemma mult_inv_serial_receive: "mult_inv m \<Longrightarrow> mult_inv (multiplexer_serial_receive q m)"
  by (auto simp: multiplexer_serial_receive_def mult_inv_handle_control mult_inv_quiet
      split: prod.splits option.splits)

lemma mult_inv_packets: "mult_inv m \<Longrightarrow> mult_inv (fold multiplexer_serial_receive qs m)"
  by (induction qs arbitrary: m) (simp_all add: mult_inv_serial_receive)

lemma mult_inv_line_data:
  assumes "mult_inv m" "mult_serial_fd_receive data m = Some m'"
  shows "mult_inv m'"
proof -
  obtain qs s where s: "serial_receive data (mx_serial m) = Some (qs, s)"
    "m' = fold multiplexer_serial_receive qs (m\<lparr>mx_serial := s\<rparr>)"
    using assms(2) by (auto simp: mult_serial_fd_receive_def split: option.splits)
  have "serial_ok s"
    using assms(1) s(1) by (auto simp: mult_inv_def intro: serial_receive_ok)
  with assms(1) have "mult_inv (m\<lparr>mx_serial := s\<rparr>)"
    by (simp add: mult_inv_def open_fds_def)
  then show ?thesis by (simp add: s(2) mult_inv_packets)
qed

lemma open_channel_cases:
  assumes "multiplexer_open_channel p m = Some (ch, m')"
  obtains n where "ch = -1" "m' = m\<lparr>mx_last := n\<rparr>"
  | n where "ch \<notin> cl_channel ` set (mx_clients m)" "0 \<le> ch" "ch < 256"
      "m' = multiplexer_serial_send CHANNEL_CONTROL (connect_message p ch) (m\<lparr>mx_last := n\<rparr>)"
      "length (connect_message p ch) < MAX_PAYLOAD"
proof -
  obtain ch0 n where n: "next_channel (mx_clients m) (mx_last m) = Some (ch0, n)"
    using assms by (auto simp: multiplexer_open_channel_def split: option.splits)
  show thesis
    using that assms n next_channel_free [OF n]
    by (auto simp: multiplexer_open_channel_def Let_def channels_def split: if_splits)
qed

lemma mx_clients_send [simp]:
  "mx_clients (multiplexer_serial_send ch p m) = mx_clients m"
  "mx_closing (multiplexer_serial_send ch p m) = mx_closing m"
  "mx_serial (multiplexer_serial_send ch p m) = mx_serial m"
  by (simp_all add: multiplexer_serial_send_def)

lemma mult_inv_client_receive:
  assumes inv: "mult_inv m" and c: "c \<in> set (mx_clients m)" and r: "client_fd_receive c p m = Some m'"
  shows "mult_inv m'"
proof -
  note ok = mult_inv_client [OF inv c]
  consider "cl_registered c" | "\<not> cl_registered c" "cl_channel c > 0"
    | "\<not> cl_registered c" "\<not> cl_channel c > 0"
    by blast
  then show ?thesis
  proof cases
    case 3
    let ?f = "\<lambda>ch c :: client. c\<lparr>cl_channel := ch\<rparr>"
    obtain ch m1 where o: "multiplexer_open_channel p m = Some (ch, m1)"
      "m' = (if ch < 0 then client_free c (update_client (cl_fd c) (?f ch) m1)
             else update_client (cl_fd c) (?f ch) m1)"
      using 3 r by (auto simp: client_fd_receive_def Let_def split: option.splits)
    from o(1) have m1: "mult_inv m1" "ch \<notin> cl_channel ` set (mx_clients m1) \<or> ch = -1" "-1 \<le> ch" "ch < 256"
      "mx_clients m1 = mx_clients m"
      by (cases rule: open_channel_cases; simp add: inv mult_inv_last)+
    have m2: "mult_inv (update_client (cl_fd c) (?f ch) m1)"
      by (rule mult_inv_channel [OF m1(1-4)]) simp_all
    have "cl_fd c \<in> cl_fd ` set (mx_clients (update_client (cl_fd c) (?f ch) m1))"
      using c m1(5) image_update_fd [of "?f ch" "cl_fd c"] by (simp add: update_client_def)
    with m2 o(2) mult_inv_free [OF m2, of c] ok show ?thesis by simp
  qed (use r inv c ok in \<open>auto simp: client_fd_receive_def intro!: mult_inv_free\<close>)
qed

lemma mult_inv_close: "mult_inv m \<Longrightarrow> mult_inv (client_fd_close c m)"
  by (simp add: client_fd_close_def)

lemma map_fh_fd_write:
  "map fh_fd (map (\<lambda>f. if fh_fd f = fd then snd (fdhandler_write n f) else f) fs) = map fh_fd fs"
  by (induction fs) auto

lemma mult_inv_closing:
  assumes "mult_inv m"
  shows "mult_inv (m\<lparr>mx_closing := filter P (mx_closing m)\<rparr>)"
    "mult_inv (m\<lparr>mx_closing := map (\<lambda>f. if fh_fd f = fd then snd (fdhandler_write n f) else f) (mx_closing m)\<rparr>)"
  using assms map_fh_fd_write [of fd n "mx_closing m"]
  by (auto simp: mult_inv_def open_fds_def list_all_iff distinct_map_filter simp del: map_map map_eq_conv)

lemma mult_inv_finish:
  assumes "mult_inv m" "finish_client_event e fd m = Some m'"
  shows "mult_inv m'"
proof -
  have "quiet (\<lambda>c. c\<lparr>cl_handler := snd (fdhandler_write n (cl_handler c))\<rparr>)" for n
    by (simp add: quiet_def)
  with assms show ?thesis
    by (auto simp: finish_client_event_def mult_inv_close mult_inv_quiet mult_inv_closing
        split: option.splits if_splits)
qed

lemma mult_inv_client_event:
  assumes "mult_inv m" "client_event e fd m = Some m'"
  shows "mult_inv m'"
  using assms
  by (auto simp: client_event_def bind_eq_Some_conv dest!: find_fd_Some
      intro: mult_inv_finish mult_inv_client_receive split: if_splits option.splits)

lemma fh_fd_new [simp]: "fh_fd (fdhandler_new fd) = fd"
  by (simp add: fdhandler_new_def)

lemma open_fds_accept [simp]: "open_fds (client_new fd m) = fd # open_fds m"
  by (simp add: open_fds_def client_new_def)

lemma mult_inv_accept: "mult_inv m \<Longrightarrow> fd \<notin> set (open_fds m) \<Longrightarrow> mult_inv (client_new fd m)"
  unfolding mult_inv_def open_fds_accept by (simp add: client_new_def clients_ok_def)

text \<open>
  Every event keeps the state of the daemon well formed: open descriptors are different, each client's
  channel is between -1 and 255, no two clients have the same channel, what is left to write lies within its
  packet, and the receiver waits for a byte.
\<close>
lemma daemon_step_inv:
  assumes "mult_inv m" "daemon_step ev m = Some m'"
    and "case ev of Accept fd \<Rightarrow> fd \<notin> set (open_fds m) | _ \<Rightarrow> True"
  shows "mult_inv m'"
proof (cases ev)
  case (Line_Data data)
  with assms show ?thesis by (simp add: daemon_step_def mult_inv_line_data)
next
  case (Line_Writable n)
  with assms mult_inv_line [of m "snd (fdhandler_write n (mx_line m))"] show ?thesis
    by (auto simp: daemon_step_def mult_inv_def)
next
  case (Accept fd)
  with assms show ?thesis by (auto simp: daemon_step_def mult_inv_accept)
next
  case (Client_Event e fd)
  with assms show ?thesis by (auto simp: daemon_step_def intro: mult_inv_client_event)
qed

lemma mult_inv_init [simp]: "mult_inv (multiplexer_init fd)"
  by (simp add: mult_inv_def multiplexer_init_def clients_ok_def open_fds_def)

section \<open>Packets go to the client that owns the channel\<close>

text \<open>What is to be seen of a client: its channel, whether it is registered, what it is still to be sent.\<close>

definition client_view :: "client \<Rightarrow> int \<times> bool \<times> byte list" where
  "client_view c = (cl_channel c, cl_registered c, fdhandler_pending (cl_handler c))"

definition view :: "mult \<Rightarrow> int \<Rightarrow> (int \<times> bool \<times> byte list) option" where
  "view m fd = map_option client_view (find_fd fd m)"

lemma find_fd_simps [simp]:
  "find (\<lambda>c. cl_fd c = fd) (update_fd fd' f cs) =
     (if fd = fd' then map_option f (find (\<lambda>c. cl_fd c = fd) cs) else find (\<lambda>c. cl_fd c = fd) cs)"
  if "\<And>c. cl_fd (f c) = cl_fd c"
  using that by (induction cs) auto

lemma view_update_client:
  assumes "\<And>c. cl_fd (f c) = cl_fd c"
  shows "view (update_client fd' f m) fd =
    (if fd = fd' then map_option (client_view \<circ> f) (find_fd fd m) else view m fd)"
  using assms by (simp add: view_def find_fd_def update_client_def option.map_comp)

lemma client_view_send:
  "fdhandler_ok (cl_handler c) \<Longrightarrow>
     client_view (client_send p c) = (cl_channel c, cl_registered c, fdhandler_pending (cl_handler c) @ p)"
  by (simp add: client_view_def client_send_def fdhandler_pending_enqueue)

lemma cl_fd_client_send [simp]: "cl_fd (client_send p c) = cl_fd c"
  by (simp add: client_send_def)

lemma cl_fd_client_registration [simp]: "cl_fd (client_registration b c) = cl_fd c"
  by (simp add: client_registration_def Let_def)

lemma mult_inv_same_channel:
  assumes "mult_inv m" "c \<in> set (mx_clients m)" "d \<in> set (mx_clients m)"
    and "cl_channel c = cl_channel d" "cl_channel c \<noteq> -1"
  shows "c = d"
proof -
  have "inj_on cl_channel {c \<in> set (mx_clients m). cl_channel c \<noteq> -1}"
    using assms(1) by (simp add: mult_inv_def clients_ok_def filter_map comp_def distinct_map)
  with assms show ?thesis by (auto dest: inj_onD)
qed

lemma mult_inv_same_fd:
  assumes "mult_inv m" "c \<in> set (mx_clients m)" "d \<in> set (mx_clients m)" "cl_fd c = cl_fd d"
  shows "c = d"
proof -
  have "inj_on cl_fd (set (mx_clients m))"
    using assms(1) by (simp add: mult_inv_def open_fds_def distinct_map)
  with assms show ?thesis by (auto dest: inj_onD)
qed

lemma find_fd_eq:
  assumes "mult_inv m" "c \<in> set (mx_clients m)"
  shows "find_fd (cl_fd c) m = Some c"
proof (cases "find_fd (cl_fd c) m")
  case None
  with assms(2) show ?thesis by (auto simp: find_fd_def find_None_iff)
next
  case (Some d)
  with mult_inv_same_fd [OF assms(1), of d c] find_fd_Some [OF Some] assms(2) show ?thesis by simp
qed

text \<open>
  C21. A packet for channel \<open>ch\<close>, which is not the control channel, is appended to what the client with that
  channel is to be sent; every other client, and a client that has no channel, is left as it is.
\<close>
theorem serial_packet_routed:
  assumes "mult_inv m" "1 \<le> ch"
  shows "view (multiplexer_serial_receive (ch, p) m) =
    (\<lambda>fd. map_option (\<lambda>(k, r, b). (k, r, if k = ch then b @ p else b)) (view m fd))"
proof (cases "multiplexer_find_client (mx_clients m) ch")
  case None
  then have "cl_channel c \<noteq> ch" if "find_fd fd m = Some c" for c fd
    using find_fd_Some [OF that] by (auto simp: find_client_None)
  with None assms(2) show ?thesis
    by (fastforce simp: multiplexer_serial_receive_def CHANNEL_CONTROL_def view_def client_view_def fun_eq_iff
        map_option_case split: option.splits)
next
  case (Some c)
  note c = find_client_Some [OF this]
  have other: "cl_channel d \<noteq> ch" if "find_fd fd m = Some d" "fd \<noteq> cl_fd c" for d fd
    using find_fd_Some [OF that(1)] that(2) c assms mult_inv_same_channel [of m d c] by auto
  show ?thesis
  proof (rule ext)
    fix fd
    have r: "multiplexer_serial_receive (ch, p) m = update_client (cl_fd c) (client_send p) m"
      using Some assms(2) by (simp add: multiplexer_serial_receive_def CHANNEL_CONTROL_def)
    show "view (multiplexer_serial_receive (ch, p) m) fd =
      map_option (\<lambda>(k, r, b). (k, r, if k = ch then b @ p else b)) (view m fd)"
    proof (cases "fd = cl_fd c")
      case True
      with c find_fd_eq [OF assms(1), of c] mult_inv_client [OF assms(1), of c] client_view_send [of c p]
      show ?thesis
        unfolding r view_update_client [OF cl_fd_client_send] by (simp add: view_def client_view_def)
    next
      case False
      with other [of fd] show ?thesis
        unfolding r view_update_client [OF cl_fd_client_send]
        by (cases "find_fd fd m") (auto simp: view_def client_view_def)
    qed
  qed
qed

lemma mult_inv_first_client [simp]: "mult_inv (client_new fd (multiplexer_init fd'))"
  by (rule mult_inv_accept) (simp, simp add: open_fds_def multiplexer_init_def)

lemma serial_packet_routed_witness:
  "view (multiplexer_serial_receive (1, [65]) (client_new 7 (multiplexer_init 3))) =
    (\<lambda>fd. map_option (\<lambda>(k, r, b). (k, r, if k = 1 then b @ [65] else b))
      (view (client_new 7 (multiplexer_init 3)) fd))"
  by (rule serial_packet_routed) simp_all

section \<open>From a client to the emulator\<close>

definition data_event :: "byte list \<Rightarrow> fd_event" where
  "data_event p = \<lparr>ev_data = p, ev_hangup = False, ev_writable = None\<rparr>"

lemma client_event_registered:
  assumes "find_fd fd m = Some c" "cl_registered c" "p \<noteq> []"
  shows "client_event (data_event p) fd m = Some (multiplexer_serial_send (cl_channel c) p m)"
  using assms
  by (simp add: client_event_def data_event_def client_fd_receive_def finish_client_event_def find_fd_def)

lemma find_fd_send [simp]: "find_fd fd (multiplexer_serial_send ch p m) = find_fd fd m"
  by (simp add: find_fd_def)

lemma daemon_run_registered:
  assumes "find_fd fd m = Some c" "cl_registered c" "[] \<notin> set ps"
  shows "daemon_run (map (\<lambda>p. Client_Event (data_event p) fd) ps) m =
    Some (fold (multiplexer_serial_send (cl_channel c)) ps m)"
  using assms
  by (induction ps arbitrary: m) (auto simp: daemon_step_def client_event_registered)

lemma fold_send_pending:
  "fdhandler_ok (mx_line m) \<Longrightarrow>
     fdhandler_pending (mx_line (fold (multiplexer_serial_send ch) ps m)) =
       fdhandler_pending (mx_line m) @ concat (map (\<lambda>p. serial_frame (ch, p)) ps)"
  by (induction ps arbitrary: m) (simp_all add: multiplexer_serial_send_def fdhandler_pending_serial_send)

text \<open>
  What a registered client writes, in packets of 1 to 4000 bytes, is on the serial line in order and under
  its channel: whoever reads the line, in pieces of any size, finds exactly these packets.
\<close>
lemma client_data_reaches_emulator:
  assumes "mult_inv m" "fdhandler_pending (mx_line m) = []"
    and "find_fd fd m = Some c" "cl_registered c" "0 \<le> cl_channel c"
    and "list_all (\<lambda>p. p \<noteq> [] \<and> length p \<le> MAX_PAYLOAD) ps"
    and "\<And>bs. concat (pieces bs) = bs"
  shows "case daemon_run (map (\<lambda>p. Client_Event (data_event p) fd) ps) m of
      None \<Rightarrow> False
    | Some m' \<Rightarrow>
        map_option fst (serial_reads (pieces (fdhandler_pending (mx_line m'))) serial_init) =
          Some (map (Pair (cl_channel c)) ps)"
proof -
  let ?m = "fold (multiplexer_serial_send (cl_channel c)) ps m"
  have "daemon_run (map (\<lambda>p. Client_Event (data_event p) fd) ps) m = Some ?m"
    using assms(6) by (intro daemon_run_registered [OF assms(3,4)]) (auto simp: list_all_iff)
  moreover have "fdhandler_ok (mx_line m)" "cl_channel c < 256"
    using assms(1,3) by (auto simp: mult_inv_def dest!: find_fd_Some intro: mult_inv_client(3))
  moreover have "list_all (\<lambda>(ch, d). 0 \<le> ch \<and> ch < 256 \<and> d \<noteq> [] \<and> length d \<le> MAX_PAYLOAD)
      (map (Pair (cl_channel c)) ps)"
    using assms(5,6) \<open>cl_channel c < 256\<close> by (simp add: list_all_iff)
  ultimately show ?thesis
    using serial_receive_frames [OF serial_idle_init, of "map (Pair (cl_channel c)) ps"] assms(2,7)
    by (auto simp: serial_reads_concat fold_send_pending comp_def)
qed

definition registered_client :: mult where
  "registered_client =
     (multiplexer_init 3)\<lparr>mx_clients :=
        [\<lparr>cl_channel = 1, cl_registered = True, cl_handler = fdhandler_new 7\<rparr>]\<rparr>"

lemma client_data_reaches_emulator_witness:
  "case daemon_run (map (\<lambda>p. Client_Event (data_event p) 7) [[65], [66, 67]]) registered_client of
      None \<Rightarrow> False
    | Some m' \<Rightarrow>
        map_option fst (serial_reads (map (\<lambda>b. [b]) (fdhandler_pending (mx_line m'))) serial_init) =
          Some (map (Pair 1) [[65], [66, 67]])"
proof -
  have "mult_inv registered_client" "fdhandler_pending (mx_line registered_client) = []"
    "find_fd 7 registered_client =
       Some \<lparr>cl_channel = 1, cl_registered = True, cl_handler = fdhandler_new 7\<rparr>"
    by (simp_all add: registered_client_def mult_inv_def multiplexer_init_def clients_ok_def open_fds_def
        fdhandler_pending_def fdhandler_new_def find_fd_def fdhandler_ok_def)
  from client_data_reaches_emulator [OF this, where ps = "[[65], [66, 67]]" and pieces = "map (\<lambda>b. [b])"]
  show ?thesis
    by (simp add: MAX_PAYLOAD_def concat_map_singleton del: daemon_run.simps split: option.splits)
qed

section \<open>Registration\<close>

definition ok_connect :: "int \<Rightarrow> byte list" where
  "ok_connect channel = bytes_of ''ok:connect:'' @ int2hex channel 2"

lemma multiplexer_ok_connect:
  assumes "0 \<le> ch" "ch < 256" "multiplexer_find_client (mx_clients m) ch = Some c"
  shows "multiplexer_serial_receive (CHANNEL_CONTROL, ok_connect ch) m =
    update_client (cl_fd c) (client_registration True) m"
proof -
  have "hex2int (drop 11 (ok_connect ch)) = ch"
    using assms hex2int_int2hex [of ch 2] by (simp add: ok_connect_def)
  moreover have "length (ok_connect ch) = 13" "take 11 (ok_connect ch) = bytes_of ''ok:connect:''"
    by (simp_all add: ok_connect_def)
  ultimately show ?thesis
    using assms(3) by (simp add: multiplexer_serial_receive_def multiplexer_handle_control_def)
qed

lemma open_channel_Some:
  assumes "next_channel (mx_clients m) (mx_last m) = Some (ch, n)"
    and "length (connect_message name ch) < MAX_PAYLOAD"
  shows "multiplexer_open_channel name m =
    Some (ch, multiplexer_serial_send CHANNEL_CONTROL (connect_message name ch) (m\<lparr>mx_last := n\<rparr>))"
  using assms by (simp add: multiplexer_open_channel_def)

lemma find_client_update_channel:
  assumes "mult_inv m" "c \<in> set (mx_clients m)" "ch \<notin> cl_channel ` set (mx_clients m)"
  shows "multiplexer_find_client
      (mx_clients (update_client (cl_fd c) (\<lambda>c. c\<lparr>cl_channel := ch\<rparr>) m)) ch =
    Some (c\<lparr>cl_channel := ch\<rparr>)"
proof -
  have "distinct (map cl_fd cs) \<Longrightarrow> c \<in> set cs \<Longrightarrow> ch \<notin> cl_channel ` set cs \<Longrightarrow>
    multiplexer_find_client (update_fd (cl_fd c) (\<lambda>c. c\<lparr>cl_channel := ch\<rparr>) cs) ch =
      Some (c\<lparr>cl_channel := ch\<rparr>)" for cs
    by (induction cs) (auto simp: image_iff)
  with assms show ?thesis
    by (simp add: update_client_def mult_inv_def open_fds_def)
qed

lemma client_event_name:
  assumes "find_fd fd m = Some c" "\<not> cl_registered c" "cl_channel c \<le> 0" "name \<noteq> []"
    and "next_channel (mx_clients m) (mx_last m) = Some (ch, n)"
    and "length (connect_message name ch) < MAX_PAYLOAD"
  shows "client_event (data_event name) fd m =
    Some (update_client fd (\<lambda>c. c\<lparr>cl_channel := ch\<rparr>)
      (multiplexer_serial_send CHANNEL_CONTROL (connect_message name ch) (m\<lparr>mx_last := n\<rparr>)))"
proof -
  have "\<not> ch < 0" using next_channel_free [OF assms(5)] by simp
  moreover have "find_fd fd (update_client fd (\<lambda>c. c\<lparr>cl_channel := ch\<rparr>)
      (multiplexer_serial_send CHANNEL_CONTROL (connect_message name ch) (m\<lparr>mx_last := n\<rparr>))) =
    Some (c\<lparr>cl_channel := ch\<rparr>)"
    using assms(1) by (simp add: find_fd_def update_client_def)
  moreover have "cl_fd c = fd" using find_fd_Some [OF assms(1)] by simp
  ultimately show ?thesis
    using assms open_channel_Some [OF assms(5,6)]
    by (simp add: client_event_def data_event_def client_fd_receive_def finish_client_event_def Let_def)
qed

lemma line_data_frame:
  assumes "serial_idle (mx_serial m)" "0 \<le> ch" "ch < 256" "d \<noteq> []" "length d \<le> MAX_PAYLOAD"
  obtains t where "serial_idle t"
    "mult_serial_fd_receive (serial_header ch d @ d) m =
      Some (multiplexer_serial_receive (ch, d) (m\<lparr>mx_serial := t\<rparr>))"
proof (rule serial_receive_frame [OF assms(1), of "(ch, d)" "[]"])
  fix t
  assume "serial_idle t" and "serial_receive (serial_frame (ch, d) @ []) (mx_serial m) =
    map_option (\<lambda>(out, u). ((ch, d) # out, u)) (serial_receive [] t)"
  then show thesis
    using that [of t] by (simp add: mult_serial_fd_receive_def serial_frame_def)
qed (use assms in simp_all)

lemma client_view_registration:
  "fdhandler_ok (cl_handler c) \<Longrightarrow>
     client_view (client_registration True c) =
       (cl_channel c, True, fdhandler_pending (cl_handler c) @ bytes_of ''OK'')"
  by (simp add: client_view_def client_registration_def client_send_def fdhandler_pending_enqueue)

text \<open>
  A client that names a service is given a free channel and the emulator is asked to connect it; when the
  answer is \<open>ok:connect:<id>\<close> the client gets \<open>OK\<close> and is registered under that channel. No other client is
  changed.
\<close>
lemma client_connects:
  assumes inv: "mult_inv m" and idle: "in_packet (mx_serial m) = []" "in_datalen (mx_serial m) = 0"
    and c: "find_fd fd m = Some c" "\<not> cl_registered c" "cl_channel c \<le> 0"
    and name: "name \<noteq> []" "next_channel (mx_clients m) (mx_last m) = Some (ch, n)"
      "length (connect_message name ch) < MAX_PAYLOAD"
  shows "case daemon_run [Client_Event (data_event name) fd,
        Line_Data (serial_header CHANNEL_CONTROL (ok_connect ch) @ ok_connect ch)] m of
      None \<Rightarrow> False
    | Some m' \<Rightarrow>
        view m' = (view m)(fd \<mapsto> (ch, True, fdhandler_pending (cl_handler c) @ bytes_of ''OK'')) \<and>
        fdhandler_pending (mx_line m') = fdhandler_pending (mx_line m) @
          serial_header CHANNEL_CONTROL (connect_message name ch) @ connect_message name ch"
proof -
  let ?f = "\<lambda>c :: client. c\<lparr>cl_channel := ch\<rparr>"
  let ?s = "multiplexer_serial_send CHANNEL_CONTROL (connect_message name ch) (m\<lparr>mx_last := n\<rparr>)"
  let ?m1 = "update_client fd ?f ?s"
  have ch: "0 \<le> ch" "ch < 256" "ch \<notin> cl_channel ` set (mx_clients m)"
    using next_channel_free [OF name(2)] unfolding channels_def by blast+
  have fd: "c \<in> set (mx_clients m)" "cl_fd c = fd"
    using find_fd_Some [OF c(1)] by simp_all
  have ev: "daemon_step (Client_Event (data_event name) fd) m = Some ?m1"
    using client_event_name [OF c name] by (simp add: daemon_step_def)
  have i: "serial_idle (mx_serial ?m1)"
    using idle by (simp add: serial_idle_def update_client_def)
  have l: "ok_connect ch \<noteq> []" "length (ok_connect ch) \<le> MAX_PAYLOAD"
    by (simp_all add: ok_connect_def MAX_PAYLOAD_def)
  obtain t where t: "daemon_step (Line_Data (serial_header CHANNEL_CONTROL (ok_connect ch) @ ok_connect ch)) ?m1 =
      Some (multiplexer_serial_receive (CHANNEL_CONTROL, ok_connect ch) (?m1\<lparr>mx_serial := t\<rparr>))"
    by (rule line_data_frame [OF i, of CHANNEL_CONTROL "ok_connect ch"])
      (use l in \<open>simp_all add: CHANNEL_CONTROL_def daemon_step_def\<close>)
  have "mult_inv ?s" using inv by (simp add: mult_inv_last)
  then have "multiplexer_find_client (mx_clients (?m1\<lparr>mx_serial := t\<rparr>)) ch = Some (?f c)"
    using find_client_update_channel [of ?s c ch] fd ch(3) by simp
  from multiplexer_ok_connect [OF ch(1,2) this] fd(2)
  have r: "daemon_run [Client_Event (data_event name) fd,
        Line_Data (serial_header CHANNEL_CONTROL (ok_connect ch) @ ok_connect ch)] m =
      Some (update_client fd (client_registration True) (?m1\<lparr>mx_serial := t\<rparr>))"
    using ev t by simp
  have "view (update_client fd (client_registration True) (?m1\<lparr>mx_serial := t\<rparr>)) x =
      ((view m)(fd \<mapsto> (ch, True, fdhandler_pending (cl_handler c) @ bytes_of ''OK''))) x" for x
    unfolding view_update_client [OF cl_fd_client_registration]
    using c(1) client_view_registration [of "?f c"] mult_inv_client(1) [OF inv fd(1)]
    by (simp add: view_def find_fd_def update_client_def)
  moreover have "fdhandler_ok (mx_line m)"
    using inv by (simp add: mult_inv_def)
  ultimately show ?thesis
    unfolding r option.case fun_eq_iff
    by (simp add: update_client_def multiplexer_serial_send_def fdhandler_pending_serial_send serial_frame_def
        del: fun_upd_apply)
qed

definition name_boot :: "byte list" where
  "name_boot = bytes_of ''boot-properties''"

lemma client_connects_witness:
  "case daemon_run [Client_Event (data_event name_boot) 7,
        Line_Data (serial_header CHANNEL_CONTROL (ok_connect 1) @ ok_connect 1)]
        (client_new 7 (multiplexer_init 3)) of
      None \<Rightarrow> False
    | Some m' \<Rightarrow>
        view m' = (view (client_new 7 (multiplexer_init 3)))(7 \<mapsto> (1, True, bytes_of ''OK'')) \<and>
        fdhandler_pending (mx_line m') =
          fdhandler_pending (mx_line (client_new 7 (multiplexer_init 3))) @
          serial_header CHANNEL_CONTROL (connect_message name_boot 1) @ connect_message name_boot 1"
proof -
  let ?c = "\<lparr>cl_channel = -1, cl_registered = False, cl_handler = fdhandler_new 7\<rparr>"
  let ?m = "client_new 7 (multiplexer_init 3)"
  have m: "in_packet (mx_serial ?m) = []" "in_datalen (mx_serial ?m) = 0" "find_fd 7 ?m = Some ?c"
    by (simp_all add: client_new_def multiplexer_init_def serial_init_def find_fd_def)
  have n: "next_channel (mx_clients ?m) (mx_last ?m) = Some (1, 1)"
    by (simp add: next_channel_code client_new_def multiplexer_init_def)
  have "length (connect_message name_boot 1) < MAX_PAYLOAD" "name_boot \<noteq> []"
    by code_simp+
  with client_connects [OF mult_inv_first_client m _ _ _ n, of name_boot] show ?thesis
    by (simp del: daemon_run.simps list.map split: option.splits)
qed

section \<open>Freed objects\<close>

text \<open>
  Data of a client, in an event, ends in no good state exactly in these cases: the client is not registered
  yet has a channel, or the name of the service is too long, so that it is freed, with nothing left to be
  written to it, and the event also says that the connection has been hung up or can be written to, which the
  handler goes on to look at although it has been freed; or the search for a channel does not end.
\<close>
lemma client_event_fails:
  assumes "mult_inv m" "find_fd fd m = Some c" "ev_data e \<noteq> []"
  shows "client_event e fd m = None \<longleftrightarrow>
    \<not> cl_registered c \<and>
    (let freed = (fh_out (cl_handler c) = [] \<and> (ev_hangup e \<or> ev_writable e \<noteq> None)) in
     if cl_channel c > 0 then freed
     else case next_channel (mx_clients m) (mx_last m) of
         None \<Rightarrow> True
       | Some (ch, n) \<Rightarrow> length (takeWhile (\<lambda>b. b \<noteq> 0) (ev_data e)) \<ge> 3989 \<and> freed)"
proof -
  have fd: "c \<in> set (mx_clients m)" "cl_fd c = fd"
    using find_fd_Some [OF assms(2)] by simp_all
  have other: "fd \<notin> fh_fd ` set (mx_closing m)"
    using assms(1) fd by (auto simp: mult_inv_def open_fds_def)
  have gone: "find_fd fd (client_free c m') = None" for m'
    using fd(2) by (simp add: find_fd_def client_free_def fdhandler_shutdown_def remove_client_def find_None_iff)
  have free: "finish_client_event e fd (client_free c m') = None \<longleftrightarrow>
      fh_out (cl_handler c) = [] \<and> (ev_hangup e \<or> ev_writable e \<noteq> None)"
    if "mx_closing m' = mx_closing m" for m'
  proof -
    have "is_closing fd (client_free c m') \<longleftrightarrow> fh_out (cl_handler c) \<noteq> []"
      using other that fd(2)
      by (auto simp: is_closing_def client_free_def fdhandler_shutdown_def remove_client_def list_ex_iff
          image_iff)
    then show ?thesis by (simp add: finish_client_event_def gone)
  qed
  have stays: "finish_client_event e fd m' \<noteq> None" if "find_fd fd m' = Some c'" for m' c'
    using that by (simp add: finish_client_event_def)
  have len: "length (connect_message (ev_data e) ch) = length (takeWhile (\<lambda>b. b \<noteq> 0) (ev_data e)) + 11" for ch
    by (simp add: connect_message_def)
  consider "cl_registered c" | "\<not> cl_registered c" "cl_channel c > 0"
    | "\<not> cl_registered c" "\<not> cl_channel c > 0" "next_channel (mx_clients m) (mx_last m) = None"
    | ch n where "\<not> cl_registered c" "\<not> cl_channel c > 0"
        "next_channel (mx_clients m) (mx_last m) = Some (ch, n)"
    by fastforce
  then show ?thesis
  proof cases
    case 1
    with assms stays show ?thesis
      by (simp add: client_event_def client_fd_receive_def)
  next
    case 2
    with assms free [of m] show ?thesis
      by (simp add: client_event_def client_fd_receive_def)
  next
    case 3
    with assms show ?thesis
      by (simp add: client_event_def client_fd_receive_def multiplexer_open_channel_def)
  next
    case (4 ch n)
    have ch: "\<not> ch < 0" using next_channel_free [OF 4(3)] by simp
    let ?f = "\<lambda>ch c :: client. c\<lparr>cl_channel := ch\<rparr>"
    show ?thesis
    proof (cases "length (connect_message (ev_data e) ch) \<ge> MAX_PAYLOAD")
      case True
      with 4 assms fd(2) free [of "update_client fd (?f (-1)) (m\<lparr>mx_last := n\<rparr>)"] show ?thesis
        by (simp add: client_event_def client_fd_receive_def multiplexer_open_channel_def len MAX_PAYLOAD_def
            update_client_def)
    next
      case False
      with 4 assms fd(2) ch stays [of "update_client fd (?f ch)
          (multiplexer_serial_send CHANNEL_CONTROL (connect_message (ev_data e) ch) (m\<lparr>mx_last := n\<rparr>))" "?f ch c"]
      show ?thesis
        by (simp add: client_event_def client_fd_receive_def multiplexer_open_channel_def len MAX_PAYLOAD_def
            find_fd_def update_client_def)
    qed
  qed
qed

definition impatient_client :: mult where
  "impatient_client =
     (multiplexer_init 3)\<lparr>mx_clients :=
        [\<lparr>cl_channel = 1, cl_registered = False, cl_handler = fdhandler_new 7\<rparr>]\<rparr>"

lemma client_event_fails_witness:
  "client_event \<lparr>ev_data = [65], ev_hangup = True, ev_writable = None\<rparr> 7 impatient_client = None"
proof -
  have "mult_inv impatient_client"
    "find_fd 7 impatient_client =
       Some \<lparr>cl_channel = 1, cl_registered = False, cl_handler = fdhandler_new 7\<rparr>"
    by (simp_all add: impatient_client_def mult_inv_def multiplexer_init_def clients_ok_def open_fds_def
        fdhandler_new_def find_fd_def fdhandler_ok_def)
  from client_event_fails [OF this, of "\<lparr>ev_data = [65], ev_hangup = True, ev_writable = None\<rparr>"]
  show ?thesis by (simp add: fdhandler_new_def)
qed

lemma daemon_step_inv_witness:
  "mult_inv (the (daemon_step (Accept 8) (client_new 7 (multiplexer_init 3))))"
  using daemon_step_inv [OF mult_inv_first_client [of 7 3], of "Accept 8"
      "client_new 8 (client_new 7 (multiplexer_init 3))"]
  by (simp add: daemon_step_def) (simp add: open_fds_def multiplexer_init_def)

text \<open>
  A handler that is closing still hands what it reads to the client it had, which has been freed; and it stays
  when everything has been written.
\<close>

lemma closing_handler_reads:
  assumes "find_fd fd m = None" "ev_data e \<noteq> []"
  shows "client_event e fd m = None"
  using assms by (simp add: client_event_def)

lemma closing_handler_stays:
  assumes "find_fd fd m = None" "is_closing fd m" "ev_data e = []" "\<not> ev_hangup e"
    and "client_event e fd m = Some m'"
  shows "is_closing fd m'"
proof -
  have closing: "is_closing fd m \<longleftrightarrow> fd \<in> set (map fh_fd (mx_closing m))" for m
    by (auto simp: is_closing_def list_ex_iff)
  show ?thesis
    using assms unfolding closing client_event_def finish_client_event_def
    by (auto simp: closing map_fh_fd_write simp del: map_map set_map split: option.splits)
qed

text \<open>An answer with a malformed number registers a client that has no channel.\<close>

lemma malformed_answer_registers:
  "map_option client_view (find_fd 7 (multiplexer_serial_receive
      (CHANNEL_CONTROL, bytes_of ''ok:connect:zz'') (client_new 7 (multiplexer_init 3)))) =
   Some (-1, True, bytes_of ''OK'')"
  by code_simp

end
