(* ===== verification/Looper.thy ===== *)
theory Looper
  imports Anbox_Prelude "HOL-Library.Multiset"
begin

text \<open>
  The event loop of the daemon (\<open>Looper\<close> in \<open>android/qemud/qemud.c\<close>): an array of hooks, one for each
  descriptor, and what epoll has been told about it. A pointer to a hook is its index. The kernel's part is
  the documented one: to add a descriptor that is there, or to modify or remove one that is not, has no effect;
  the code looks at none of the results. The two bits of \<open>state\<close> are two fields.

  Shown here: the operations and the removal of closed hooks keep epoll and the array in step, as long as
  no descriptor is used again before its closed hook has been removed; and what happens if one is.
\<close>

record 'u hook =
  hk_fd :: int
  hk_wanted :: u32
  hk_events :: u32
  hk_pending :: bool
  hk_closing :: bool
  hk_user :: 'u

record 'u looper =
  lp_hooks :: "'u hook list"
  lp_max :: nat
  lp_epoll :: "int \<Rightarrow> (u32 \<times> nat) option"

definition looper_init :: "'u looper" where
  "looper_init = \<lparr>lp_hooks = [], lp_max = 0, lp_epoll = (\<lambda>_. None)\<rparr>"

fun find_from :: "nat \<Rightarrow> 'u hook list \<Rightarrow> int \<Rightarrow> nat option" where
  "find_from i [] fd = None"
| "find_from i (h # hs) fd = (if hk_fd h = fd then Some i else find_from (Suc i) hs fd)"

definition looper_find :: "'u looper \<Rightarrow> int \<Rightarrow> nat option" where
  "looper_find l fd = find_from 0 (lp_hooks l) fd"

text \<open>\<open>epoll_ctl\<close> with its three operations.\<close>

definition ctl_add :: "int \<Rightarrow> u32 \<Rightarrow> nat \<Rightarrow> 'u looper \<Rightarrow> 'u looper" where
  "ctl_add fd m i l =
     (if lp_epoll l fd = None then l\<lparr>lp_epoll := (lp_epoll l)(fd \<mapsto> (m, i))\<rparr> else l)"

definition ctl_mod :: "int \<Rightarrow> u32 \<Rightarrow> nat \<Rightarrow> 'u looper \<Rightarrow> 'u looper" where
  "ctl_mod fd m i l =
     (if lp_epoll l fd = None then l else l\<lparr>lp_epoll := (lp_epoll l)(fd \<mapsto> (m, i))\<rparr>)"

definition ctl_del :: "int \<Rightarrow> 'u looper \<Rightarrow> 'u looper" where
  "ctl_del fd l = l\<lparr>lp_epoll := (lp_epoll l)(fd := None)\<rparr>"

text \<open>The arrays grow by half and four; every hook is told to epoll again.\<close>

fun remod :: "nat \<Rightarrow> 'u hook list \<Rightarrow> 'u looper \<Rightarrow> 'u looper" where
  "remod i [] l = l"
| "remod i (h # hs) l = remod (Suc i) hs (ctl_mod (hk_fd h) (hk_wanted h) i l)"

definition looper_grow :: "'u looper \<Rightarrow> 'u looper" where
  "looper_grow l = remod 0 (lp_hooks l) (l\<lparr>lp_max := lp_max l + lp_max l div 2 + 4\<rparr>)"

definition looper_add :: "int \<Rightarrow> 'u \<Rightarrow> 'u looper \<Rightarrow> 'u looper" where
  "looper_add fd user l =
     (let l = (if length (lp_hooks l) \<ge> lp_max l then looper_grow l else l);
          h = \<lparr>hk_fd = fd, hk_wanted = 0, hk_events = 0, hk_pending = False, hk_closing = False, hk_user = user\<rparr>;
          l = ctl_add fd 0 (length (lp_hooks l)) l
      in l\<lparr>lp_hooks := lp_hooks l @ [h]\<rparr>)"

definition update_hook :: "nat \<Rightarrow> ('u hook \<Rightarrow> 'u hook) \<Rightarrow> 'u looper \<Rightarrow> 'u looper" where
  "update_hook i f l = l\<lparr>lp_hooks := (lp_hooks l)[i := f (lp_hooks l ! i)]\<rparr>"

definition looper_del :: "int \<Rightarrow> 'u looper \<Rightarrow> 'u looper" where
  "looper_del fd l =
     (case looper_find l fd of
        None \<Rightarrow> l
      | Some i \<Rightarrow> ctl_del fd (update_hook i (\<lambda>h. h\<lparr>hk_closing := True\<rparr>) l))"

definition looper_enable :: "int \<Rightarrow> u32 \<Rightarrow> 'u looper \<Rightarrow> 'u looper" where
  "looper_enable fd events l =
     (case looper_find l fd of
        None \<Rightarrow> l
      | Some i \<Rightarrow>
          let wanted = hk_wanted (lp_hooks l ! i) in
          if events AND NOT wanted = 0 then l
          else ctl_mod fd (wanted OR events) i (update_hook i (\<lambda>h. h\<lparr>hk_wanted := wanted OR events\<rparr>) l))"

definition looper_disable :: "int \<Rightarrow> u32 \<Rightarrow> 'u looper \<Rightarrow> 'u looper" where
  "looper_disable fd events l =
     (case looper_find l fd of
        None \<Rightarrow> l
      | Some i \<Rightarrow>
          let wanted = hk_wanted (lp_hooks l ! i) in
          if events AND wanted = 0 then l
          else ctl_mod fd (wanted AND NOT events) i
                 (update_hook i (\<lambda>h. h\<lparr>hk_wanted := wanted AND NOT events\<rparr>) l))"

section \<open>One turn of the loop\<close>

definition looper_mark :: "(nat \<times> u32) list \<Rightarrow> 'u looper \<Rightarrow> 'u looper" where
  "looper_mark events l =
     fold (\<lambda>(i, e). update_hook i (\<lambda>h. h\<lparr>hk_pending := True, hk_closing := False, hk_events := e\<rparr>)) events l"

text \<open>
  The callbacks of the pending hooks, whatever they do to the looper and to the state \<open>'s\<close> of the daemon;
  a hook that an earlier callback has closed is not passed over.
\<close>

partial_function (option) looper_dispatch ::
  "('u \<Rightarrow> u32 \<Rightarrow> 's \<times> 'u looper \<Rightarrow> 's \<times> 'u looper) \<Rightarrow> nat \<Rightarrow> 's \<times> 'u looper \<Rightarrow> ('s \<times> 'u looper) option" where
  "looper_dispatch ev_func n s =
     (let hooks = lp_hooks (snd s) in
      if n \<ge> length hooks then Some s
      else if hk_pending (hooks ! n) then
        looper_dispatch ev_func (Suc n)
          (ev_func (hk_user (hooks ! n)) (hk_events (hooks ! n))
             (fst s, update_hook n (\<lambda>h. h\<lparr>hk_pending := False\<rparr>) (snd s)))
      else looper_dispatch ev_func (Suc n) s)"

function looper_sweep :: "nat \<Rightarrow> 'u looper \<Rightarrow> 'u looper" where
  "looper_sweep n l =
     (if n \<ge> length (lp_hooks l) then l
      else if \<not> hk_closing (lp_hooks l ! n) then looper_sweep (Suc n) l
      else
        let moved = last (lp_hooks l);
            l = l\<lparr>lp_hooks := butlast ((lp_hooks l)[n := moved])\<rparr>
        in looper_sweep n (ctl_mod (hk_fd moved) (hk_wanted moved) n l))"
  by pat_completeness auto
termination
  by (relation "measure (\<lambda>(n, l). 2 * length (lp_hooks l) - n)") (auto simp: ctl_mod_def)

declare looper_sweep.simps [simp del]

definition looper_turn ::
  "('u \<Rightarrow> u32 \<Rightarrow> 's \<times> 'u looper \<Rightarrow> 's \<times> 'u looper) \<Rightarrow> (nat \<times> u32) list \<Rightarrow> 's \<times> 'u looper \<Rightarrow> ('s \<times> 'u looper) option"
where
  "looper_turn ev_func events s =
     map_option (\<lambda>(t, l). (t, looper_sweep 0 l)) (looper_dispatch ev_func 0 (fst s, looper_mark events (snd s)))"

section \<open>epoll and the array in step\<close>

text \<open>What epoll has been told of each descriptor, read off the array.\<close>

definition looper_ok :: "'u looper \<Rightarrow> bool" where
  "looper_ok l \<longleftrightarrow>
     distinct (map hk_fd (lp_hooks l)) \<and> length (lp_hooks l) \<le> lp_max l \<and>
     (\<forall>i < length (lp_hooks l). lp_epoll l (hk_fd (lp_hooks l ! i)) =
        (if hk_closing (lp_hooks l ! i) then None else Some (hk_wanted (lp_hooks l ! i), i))) \<and>
     dom (lp_epoll l) \<subseteq> hk_fd ` set (lp_hooks l)"

lemma looper_ok_init [simp]: "looper_ok looper_init"
  by (simp add: looper_ok_def looper_init_def)

lemma find_from_nth:
  "distinct (map hk_fd hs) \<Longrightarrow> i < length hs \<Longrightarrow> find_from k hs (hk_fd (hs ! i)) = Some (k + i)"
proof (induction hs arbitrary: i k)
  case (Cons h hs)
  then show ?case by (cases i) (auto simp: imageI)
qed simp

lemma find_from_Some:
  "find_from k hs fd = Some j \<Longrightarrow> \<exists>i. j = k + i \<and> i < length hs \<and> hk_fd (hs ! i) = fd"
  by (induction k hs fd rule: find_from.induct) (fastforce split: if_splits)+

lemma looper_find_Some:
  "looper_find l fd = Some i \<Longrightarrow> i < length (lp_hooks l) \<and> hk_fd (lp_hooks l ! i) = fd"
  using find_from_Some [of 0 "lp_hooks l" fd i] by (auto simp: looper_find_def)

lemma hooks_ctl_mod [simp]: "lp_hooks (ctl_mod fd m i l) = lp_hooks l" "lp_max (ctl_mod fd m i l) = lp_max l"
  by (simp_all add: ctl_mod_def)

lemma hooks_remod [simp]: "lp_hooks (remod i hs l) = lp_hooks l" "lp_max (remod i hs l) = lp_max l"
  by (induction i hs l rule: remod.induct) simp_all

lemma ctl_mod_same: "lp_epoll l fd \<in> {None, Some (m, i)} \<Longrightarrow> ctl_mod fd m i l = l"
  by (cases l) (auto simp: ctl_mod_def fun_upd_idem)

text \<open>To tell epoll again changes nothing.\<close>

lemma remod_same:
  "(\<And>j. j < length hs \<Longrightarrow> lp_epoll l (hk_fd (hs ! j)) \<in> {None, Some (hk_wanted (hs ! j), i + j)}) \<Longrightarrow>
     remod i hs l = l"
proof (induction i hs l rule: remod.induct)
  case (2 i h hs l)
  have "ctl_mod (hk_fd h) (hk_wanted h) i l = l"
    using 2(2) [of 0] by (simp add: ctl_mod_same)
  moreover have "lp_epoll l (hk_fd (hs ! j)) \<in> {None, Some (hk_wanted (hs ! j), Suc i + j)}"
    if "j < length hs" for j
    using 2(2) [of "Suc j"] that by simp
  ultimately show ?case using 2(1) by simp
qed simp

lemma looper_grow_ok:
  assumes "looper_ok l"
  shows "looper_grow l = l\<lparr>lp_max := lp_max l + lp_max l div 2 + 4\<rparr>"
  using assms unfolding looper_grow_def by (intro remod_same) (auto simp: looper_ok_def)

lemma looper_ok_add:
  assumes "looper_ok l" "fd \<notin> hk_fd ` set (lp_hooks l)"
  shows "looper_ok (looper_add fd user l)"
proof -
  have "lp_epoll l fd = None" using assms by (auto simp: looper_ok_def)
  with assms looper_grow_ok [OF assms(1)] show ?thesis
    by (auto simp: looper_add_def ctl_add_def looper_ok_def Let_def nth_append less_Suc_eq image_iff)
qed

lemma looper_ok_update:
  assumes ok: "looper_ok l" and i: "looper_find l fd = Some i"
    and f: "\<And>h. hk_fd (f h) = hk_fd h"
    and e: "lp_epoll l' = (lp_epoll l)(fd := (let h = f (lp_hooks l ! i) in
      if hk_closing h then None else Some (hk_wanted h, i)))"
    and h: "lp_hooks l' = (lp_hooks l)[i := f (lp_hooks l ! i)]" "lp_max l' = lp_max l"
  shows "looper_ok l'"
proof -
  have i': "i < length (lp_hooks l)" "hk_fd (lp_hooks l ! i) = fd"
    using looper_find_Some [OF i] by simp_all
  have fds: "map hk_fd (lp_hooks l') = map hk_fd (lp_hooks l)"
    using i' h f by (simp add: map_update) (metis list_update_id map_update)
  have "lp_epoll l' (hk_fd (lp_hooks l' ! j)) =
      (if hk_closing (lp_hooks l' ! j) then None else Some (hk_wanted (lp_hooks l' ! j), j))"
    if j: "j < length (lp_hooks l)" for j
  proof (cases "j = i")
    case True
    with h e f i' show ?thesis by (simp add: Let_def)
  next
    case False
    have "hk_fd (lp_hooks l ! j) \<noteq> fd"
      using ok i' j False by (auto simp: looper_ok_def distinct_conv_nth)
    with False h e ok j show ?thesis by (simp add: looper_ok_def)
  qed
  moreover have "dom (lp_epoll l') \<subseteq> hk_fd ` set (lp_hooks l')"
  proof -
    have "fd \<in> hk_fd ` set (lp_hooks l)" using i' by auto
    moreover have "hk_fd ` set (lp_hooks l') = hk_fd ` set (lp_hooks l)"
      using fds by (metis set_map)
    ultimately show ?thesis
      using ok e by (auto simp: looper_ok_def split: if_splits)
  qed
  ultimately show ?thesis
    using ok fds h by (simp add: looper_ok_def)
qed

lemma looper_ok_del: 
  assumes "looper_ok l"
  shows "looper_ok (looper_del fd l)"
proof (cases "looper_find l fd")
  case (Some i)
  have "looper_ok (ctl_del fd (update_hook i (\<lambda>h. h\<lparr>hk_closing := True\<rparr>) l))"
    by (rule looper_ok_update [where fd = fd and f = "\<lambda>h. h\<lparr>hk_closing := True\<rparr>", OF assms Some])
      (simp_all add: ctl_del_def update_hook_def)
  with Some show ?thesis by (simp add: looper_del_def)
qed (simp add: looper_del_def assms)

text \<open>The kernel refuses the change of a descriptor that has been removed, whose hook is closing.\<close>

lemma looper_ok_wanted:
  assumes "looper_ok l" "looper_find l fd = Some i"
  shows "looper_ok (ctl_mod fd w i (update_hook i (\<lambda>h. h\<lparr>hk_wanted := w\<rparr>) l))"
proof (rule looper_ok_update [where fd = fd and f = "\<lambda>h. h\<lparr>hk_wanted := w\<rparr>", OF assms])
  have "lp_epoll l fd = (if hk_closing (lp_hooks l ! i) then None else Some (hk_wanted (lp_hooks l ! i), i))"
    using assms looper_find_Some [OF assms(2)] by (auto simp: looper_ok_def)
  then show "lp_epoll (ctl_mod fd w i (update_hook i (\<lambda>h. h\<lparr>hk_wanted := w\<rparr>) l)) =
      (lp_epoll l)(fd := (let h = (lp_hooks l ! i)\<lparr>hk_wanted := w\<rparr> in
        if hk_closing h then None else Some (hk_wanted h, i)))"
    by (auto simp: ctl_mod_def update_hook_def Let_def fun_eq_iff)
qed (simp_all add: update_hook_def)

lemma looper_ok_enable: "looper_ok l \<Longrightarrow> looper_ok (looper_enable fd events l)"
  by (auto simp: looper_enable_def Let_def looper_ok_wanted split: option.splits)

lemma looper_ok_disable: "looper_ok l \<Longrightarrow> looper_ok (looper_disable fd events l)"
  by (auto simp: looper_disable_def Let_def looper_ok_wanted split: option.splits)

text \<open>One closed hook is removed: the last one takes its place.\<close>

definition sweep_one :: "nat \<Rightarrow> 'u looper \<Rightarrow> 'u looper" where
  "sweep_one n l =
     ctl_mod (hk_fd (last (lp_hooks l))) (hk_wanted (last (lp_hooks l))) n
       (l\<lparr>lp_hooks := butlast ((lp_hooks l)[n := last (lp_hooks l)])\<rparr>)"

lemma looper_sweep_code:
  "looper_sweep n l =
     (if n \<ge> length (lp_hooks l) then l
      else if hk_closing (lp_hooks l ! n) then looper_sweep n (sweep_one n l)
      else looper_sweep (Suc n) l)"
  by (subst looper_sweep.simps) (simp add: sweep_one_def Let_def)

lemma sweep_one_nth:
  assumes "n < length (lp_hooks l)" "j < length (lp_hooks l) - 1"
  shows "lp_hooks (sweep_one n l) ! j = lp_hooks l ! (if j = n then length (lp_hooks l) - 1 else j)"
proof -
  have "lp_hooks l \<noteq> []" using assms(1) by auto
  with assms show ?thesis by (simp add: sweep_one_def nth_butlast last_conv_nth nth_list_update)
qed

lemma sweep_one_length [simp]:
  "length (lp_hooks (sweep_one n l)) = length (lp_hooks l) - 1" "lp_max (sweep_one n l) = lp_max l"
  by (simp_all add: sweep_one_def)

lemma mset_butlast: "xs \<noteq> [] \<Longrightarrow> add_mset (last xs) (mset (butlast xs)) = mset xs"
  by (induction xs) auto

lemma sweep_one_mset:
  assumes "n < length (lp_hooks l)"
  shows "add_mset (lp_hooks l ! n) (mset (lp_hooks (sweep_one n l))) = mset (lp_hooks l)"
proof -
  let ?h = "lp_hooks l"
  have ne: "?h \<noteq> []" using assms by auto
  have "last (?h[n := last ?h]) = last ?h"
    using assms ne by (simp add: last_conv_nth nth_list_update)
  with ne have "mset (?h[n := last ?h]) = add_mset (last ?h) (mset (butlast (?h[n := last ?h])))"
    using mset_butlast [of "?h[n := last ?h]"] by simp
  moreover have "mset (?h[n := last ?h]) = add_mset (last ?h) (mset ?h - {#?h ! n#})"
    using assms by (simp add: mset_update)
  ultimately have "mset (butlast (?h[n := last ?h])) = mset ?h - {#?h ! n#}" by simp
  with assms show ?thesis by (simp add: sweep_one_def)
qed

lemma looper_ok_sweep_one:
  assumes ok: "looper_ok l" and n: "n < length (lp_hooks l)" "hk_closing (lp_hooks l ! n)"
  shows "looper_ok (sweep_one n l)"
proof -
  let ?h = "lp_hooks l" and ?l = "sweep_one n l" and ?last = "length (lp_hooks l) - 1"
  let ?g = "\<lambda>j. if j = n then ?last else j"
  have fd: "hk_fd (?h ! i) = hk_fd (?h ! j) \<longleftrightarrow> i = j" if "i < length ?h" "j < length ?h" for i j
    using ok that by (auto simp: looper_ok_def distinct_conv_nth)
  have e: "lp_epoll l (hk_fd (?h ! i)) =
      (if hk_closing (?h ! i) then None else Some (hk_wanted (?h ! i), i))" if "i < length ?h" for i
    using ok that by (simp add: looper_ok_def)
  have "?h \<noteq> []" using n(1) by auto
  then have moved: "last ?h = ?h ! ?last" "?last < length ?h"
    by (simp_all add: last_conv_nth)
  have e': "lp_epoll ?l = (if hk_closing (?h ! ?last) then lp_epoll l
      else (lp_epoll l)(hk_fd (?h ! ?last) \<mapsto> (hk_wanted (?h ! ?last), n)))"
    using e [OF moved(2)] by (simp add: sweep_one_def ctl_mod_def moved(1))
  have "distinct (map hk_fd (lp_hooks ?l))"
    using n by (auto simp: distinct_conv_nth sweep_one_nth fd split: if_splits)
  moreover have "lp_epoll ?l (hk_fd (lp_hooks ?l ! j)) =
      (if hk_closing (lp_hooks ?l ! j) then None else Some (hk_wanted (lp_hooks ?l ! j), j))"
    if "j < ?last" for j
    using that n e [of j] e [OF moved(2)] fd [of j ?last] by (auto simp: sweep_one_nth e')
  moreover have "dom (lp_epoll ?l) \<subseteq> hk_fd ` set (lp_hooks ?l)"
  proof
    fix x
    assume "x \<in> dom (lp_epoll ?l)"
    then have "x \<in> dom (lp_epoll l)"
      using e [OF moved(2)] by (auto simp: e' split: if_splits)
    note dom = this
    moreover have "dom (lp_epoll l) \<subseteq> hk_fd ` set ?h" using ok by (simp add: looper_ok_def)
    ultimately obtain i where i: "i < length ?h" "x = hk_fd (?h ! i)"
      by (metis imageE in_set_conv_nth subsetD)
    with dom e [of n] n have "i \<noteq> n" by auto
    with i n(1) have "(if i = ?last then n else i) < ?last" by auto
    then have "lp_hooks ?l ! (if i = ?last then n else i) = ?h ! i"
      using n(1) by (simp add: sweep_one_nth split: if_splits) (use \<open>i \<noteq> n\<close> in auto)
    then show "x \<in> hk_fd ` set (lp_hooks ?l)"
      using \<open>(if i = ?last then n else i) < ?last\<close> i(2) by (metis imageI nth_mem sweep_one_length(1))
  qed
  ultimately show ?thesis
    using ok by (auto simp: looper_ok_def)
qed

text \<open>
  The end of a turn of \<open>looper_loop\<close> removes exactly the closed hooks and leaves epoll and the array in step:
  descriptors are different, and epoll knows each of them with the events wanted and the index of its hook.
\<close>
lemma looper_sweep_closed:
  assumes "looper_ok l"
  shows "looper_ok (looper_sweep 0 l) \<and>
    mset (lp_hooks (looper_sweep 0 l)) = filter_mset (\<lambda>h. \<not> hk_closing h) (mset (lp_hooks l))"
proof -
  have "looper_ok (looper_sweep n l) \<and>
      mset (lp_hooks (looper_sweep n l)) =
        filter_mset (\<lambda>h. \<not> hk_closing h) (mset (lp_hooks l))"
    if "looper_ok l" "\<forall>h \<in> set (take n (lp_hooks l)). \<not> hk_closing h" for n and l :: "'a looper"
    using that
  proof (induction n l rule: looper_sweep.induct)
    case (1 n l)
    consider "n \<ge> length (lp_hooks l)" | "n < length (lp_hooks l)" "hk_closing (lp_hooks l ! n)"
      | "n < length (lp_hooks l)" "\<not> hk_closing (lp_hooks l ! n)"
      by fastforce
    then show ?case
    proof cases
      case 1
      with "1.prems" have "filter_mset (\<lambda>h. \<not> hk_closing h) (mset (lp_hooks l)) = mset (lp_hooks l)"
        by (simp add: filter_mset_eq_conv)
      with 1 "1.prems"(1) show ?thesis by (simp add: looper_sweep_code)
    next
      case 2
      have "take n (lp_hooks (sweep_one n l)) = take n (lp_hooks l)"
        using 2(1) by (intro nth_equalityI) (simp_all add: sweep_one_nth)
      moreover have "looper_ok (sweep_one n l)"
        using "1.prems"(1) 2 by (rule looper_ok_sweep_one)
      moreover have "filter_mset (\<lambda>h. \<not> hk_closing h) (mset (lp_hooks l)) =
          filter_mset (\<lambda>h. \<not> hk_closing h) (mset (lp_hooks (sweep_one n l)))"
        using sweep_one_mset [OF 2(1)] 2(2) by (metis filter_mset_add_mset)
      ultimately show ?thesis
        using "1.IH"(2) [OF _ _ refl refl] 2 "1.prems" looper_sweep_code [of n l] by (simp add: sweep_one_def)
    next
      case 3
      have "\<forall>h \<in> set (take (Suc n) (lp_hooks l)). \<not> hk_closing h"
        using "1.prems"(2) 3 by (simp add: take_Suc_conv_app_nth)
      with 3 "1.IH"(1) "1.prems"(1) show ?thesis by (simp add: looper_sweep_code [of n l])
    qed
  qed
  from this [of l 0] assms show ?thesis by simp
qed

lemma looper_sweep_closed_witness:
  "looper_ok (looper_sweep 0 (looper_del 5 (looper_add 7 () (looper_add 5 () looper_init)))) \<and>
    mset (lp_hooks (looper_sweep 0 (looper_del 5 (looper_add 7 () (looper_add 5 () looper_init))))) =
      filter_mset (\<lambda>h. \<not> hk_closing h) (mset (lp_hooks (looper_del 5 (looper_add 7 () (looper_add 5 () looper_init)))))"
proof (rule looper_sweep_closed, rule looper_ok_del, rule looper_ok_add)
  show "looper_ok (looper_add 5 () looper_init)"
    by (rule looper_ok_add) (simp, simp add: looper_init_def)
  show "7 \<notin> hk_fd ` set (lp_hooks (looper_add 5 () looper_init))" by code_simp
qed

section \<open>A descriptor that is used again too early\<close>

text \<open>
  A client is closed and the next connection, in the same turn, gets the same descriptor: \<open>looper_enable\<close> then
  finds the hook that is closing, and epoll is never told that the new one waits for input.
\<close>

definition looper_reuse :: "unit looper" where
  "looper_reuse =
     looper_sweep 0 (looper_enable 7 1 (looper_add 7 () (looper_del 7
       (looper_enable 7 1 (looper_add 7 () looper_init)))))"

lemma looper_reuse_deaf:
  "map (\<lambda>h. (hk_fd h, hk_wanted h)) (lp_hooks looper_reuse) = [(7, 0)] \<and> lp_epoll looper_reuse 7 = Some (0, 0)"
  by code_simp

text \<open>Without the hook that is closing, it is told.\<close>

lemma looper_fresh_heard:
  "lp_epoll (looper_enable 7 1 (looper_add 7 () (looper_init :: unit looper))) 7 = Some (1, 0)"
  by code_simp

text \<open>The callback of a hook that an earlier callback of the same turn has closed is called.\<close>

lemma looper_dispatch_closed:
  "map_option fst (looper_dispatch (\<lambda>user events (log, l). (log @ [user], looper_del 7 l)) 0
      ([], looper_mark [(0, 1), (1, 1)] (looper_add 7 True (looper_add 3 False looper_init)))) =
   Some [False, True]"
  by (simp add: looper_dispatch.simps looper_mark_def looper_add_def looper_init_def looper_grow_def
      ctl_add_def update_hook_def looper_del_def looper_find_def ctl_del_def Let_def)

end
