(* ===== verification/BufferQueue.thy ===== *)
theory BufferQueue
  imports Anbox_Prelude
begin

text \<open>
  \<open>anbox::graphics::BufferQueue\<close> (\<open>src/anbox/graphics/buffer_queue.cpp\<close>): a bounded ring of buffers
  guarded by a lock of its owner, with one condition variable for room and one for data.

  The record has the fields of the class. An operation returns its \<open>int\<close> result (\<open>bq_code\<close>), the
  condition-variable notifications it issued, in order, and the new queue. An operation that would wait
  on a condition variable returns \<open>Waits\<close>: the caller releases the lock and runs it again when woken,
  which is what the loop around \<open>std::condition_variable::wait\<close> does.

  Shown here: the ring invariant and that every operation keeps it; that the ring behaves like a list
  with a capacity and a closed flag on every sequence of operations; that the queue implements the
  interface \<open>bounded_fifo\<close>.
\<close>

section \<open>The class\<close>

record 'a buffer_queue =
  bq_capacity :: nat
  bq_pos :: nat
  bq_count :: nat
  bq_closed :: bool
  bq_buffers :: "'a list"

datatype bq_code = BQ_OK | BQ_EIO | BQ_EAGAIN

datatype wake = Notify_One_Pop | Notify_One_Push | Notify_All_Pop | Notify_All_Push

datatype 'r blocking = Waits | Returns 'r

text \<open>The constructor; \<open>d\<close> is a default-constructed buffer.\<close>

definition buffer_queue_new :: "'a \<Rightarrow> nat \<Rightarrow> 'a buffer_queue" where
  "buffer_queue_new d capacity =
     \<lparr>bq_capacity = capacity, bq_pos = 0, bq_count = 0, bq_closed = False,
      bq_buffers = replicate capacity d\<rparr>"

definition can_push_locked :: "'a buffer_queue \<Rightarrow> bool" where
  "can_push_locked q \<longleftrightarrow> \<not> bq_closed q \<and> bq_count q < bq_capacity q"

definition can_pop_locked :: "'a buffer_queue \<Rightarrow> bool" where
  "can_pop_locked q \<longleftrightarrow> bq_count q > 0"

definition try_push_locked :: "'a \<Rightarrow> 'a buffer_queue \<Rightarrow> bq_code \<times> wake list \<times> 'a buffer_queue" where
  "try_push_locked buffer q =
     (if bq_closed q then (BQ_EIO, [], q)
      else if bq_count q \<ge> bq_capacity q then (BQ_EAGAIN, [], q)
      else
        let pos = ring_index (bq_capacity q) (bq_pos q + bq_count q)
        in (BQ_OK,
            if bq_count q = 0 then [Notify_One_Pop] else [],
            q\<lparr>bq_buffers := (bq_buffers q)[pos := buffer], bq_count := bq_count q + 1\<rparr>))"

definition push_locked ::
  "'a \<Rightarrow> 'a buffer_queue \<Rightarrow> (bq_code \<times> wake list \<times> 'a buffer_queue) blocking"
where
  "push_locked buffer q =
     (if bq_count q = bq_capacity q
      then (if bq_closed q then Returns (BQ_EIO, [], q) else Waits)
      else Returns (try_push_locked buffer q))"

definition wait_until_not_empty_locked :: "'a buffer_queue \<Rightarrow> bq_code blocking" where
  "wait_until_not_empty_locked q =
     (if bq_count q = 0
      then (if bq_closed q then Returns BQ_EIO else Waits)
      else Returns BQ_OK)"

text \<open>
  \<open>try_pop_locked\<close> writes to \<open>*buffer\<close> only when it returns 0, hence the option. The slot it moved
  the buffer out of keeps a moved-from value that is overwritten before it is read again.
\<close>

definition try_pop_locked ::
  "'a buffer_queue \<Rightarrow> bq_code \<times> 'a option \<times> wake list \<times> 'a buffer_queue"
where
  "try_pop_locked q =
     (if bq_count q = 0 then (if bq_closed q then BQ_EIO else BQ_EAGAIN, None, [], q)
      else
        let pos = ring_index (bq_capacity q) (bq_pos q + 1)
        in (BQ_OK, Some (bq_buffers q ! bq_pos q),
            if bq_count q = bq_capacity q then [Notify_One_Push] else [],
            q\<lparr>bq_pos := pos, bq_count := bq_count q - 1\<rparr>))"

definition pop_locked ::
  "'a buffer_queue \<Rightarrow> (bq_code \<times> 'a option \<times> wake list \<times> 'a buffer_queue) blocking"
where
  "pop_locked q =
     (if bq_count q = 0
      then (if bq_closed q then Returns (BQ_EIO, None, [], q) else Waits)
      else Returns (try_pop_locked q))"

definition close_locked :: "'a buffer_queue \<Rightarrow> wake list \<times> 'a buffer_queue" where
  "close_locked q =
     ((if bq_count q = bq_capacity q then [Notify_All_Push] else []) @
      (if bq_count q = 0 then [Notify_All_Pop] else []),
      q\<lparr>bq_closed := True\<rparr>)"

section \<open>Invariant and contents\<close>

definition bq_inv :: "'a buffer_queue \<Rightarrow> bool" where
  "bq_inv q \<longleftrightarrow>
     length (bq_buffers q) = bq_capacity q \<and> bq_count q \<le> bq_capacity q \<and>
     (bq_pos q < bq_capacity q \<or> bq_capacity q = 0)"

definition bq_contents :: "'a buffer_queue \<Rightarrow> 'a list" where
  "bq_contents q = ring_contents (bq_capacity q) (bq_pos q) (bq_count q) (bq_buffers q)"

lemma length_bq_contents [simp]: "length (bq_contents q) = bq_count q"
  by (simp add: bq_contents_def)

lemma bq_contents_Nil_iff [simp]: "bq_contents q = [] \<longleftrightarrow> bq_count q = 0"
  by (metis length_0_conv length_bq_contents)

lemma bq_contents_new [simp]: "bq_contents (buffer_queue_new d c) = []"
  by (simp add: buffer_queue_new_def)

lemma bq_capacity_new [simp]: "bq_capacity (buffer_queue_new d c) = c"
  by (simp add: buffer_queue_new_def)

lemma bq_closed_new [simp]: "\<not> bq_closed (buffer_queue_new d c)"
  by (simp add: buffer_queue_new_def)

lemma bq_inv_new [simp]: "bq_inv (buffer_queue_new d c)"
  by (auto simp: bq_inv_def buffer_queue_new_def)

lemma bq_push_room:
  assumes inv: "bq_inv q" and room: "bq_count q < bq_capacity q"
  shows "bq_inv (q\<lparr>bq_buffers := (bq_buffers q)[ring_index (bq_capacity q) (bq_pos q + bq_count q) := x],
                    bq_count := bq_count q + 1\<rparr>)"
    and "bq_contents (q\<lparr>bq_buffers := (bq_buffers q)[ring_index (bq_capacity q) (bq_pos q + bq_count q) := x],
                    bq_count := bq_count q + 1\<rparr>) = bq_contents q @ [x]"
proof -
  have "bq_pos q + bq_count q < 2 * bq_capacity q"
    using inv room by (auto simp: bq_inv_def)
  then show "bq_contents (q\<lparr>bq_buffers := (bq_buffers q)[ring_index (bq_capacity q) (bq_pos q + bq_count q) := x],
                    bq_count := bq_count q + 1\<rparr>) = bq_contents q @ [x]"
    using inv room by (simp add: bq_contents_def bq_inv_def ring_index_mod ring_contents_push)
qed (use inv room in \<open>auto simp: bq_inv_def\<close>)

lemma bq_pop_some:
  assumes inv: "bq_inv q" and some: "0 < bq_count q"
  shows "bq_inv (q\<lparr>bq_pos := ring_index (bq_capacity q) (bq_pos q + 1), bq_count := bq_count q - 1\<rparr>)"
    and "bq_contents q = bq_buffers q ! bq_pos q #
      bq_contents (q\<lparr>bq_pos := ring_index (bq_capacity q) (bq_pos q + 1), bq_count := bq_count q - 1\<rparr>)"
proof -
  have pos: "bq_pos q < bq_capacity q" and idx: "bq_pos q + 1 < 2 * bq_capacity q"
    using inv some by (auto simp: bq_inv_def)
  show "bq_inv (q\<lparr>bq_pos := ring_index (bq_capacity q) (bq_pos q + 1), bq_count := bq_count q - 1\<rparr>)"
    using inv some ring_index_less [OF idx] by (auto simp: bq_inv_def)
  obtain n where "bq_count q = Suc n" using some by (cases "bq_count q") auto
  then show "bq_contents q = bq_buffers q ! bq_pos q #
      bq_contents (q\<lparr>bq_pos := ring_index (bq_capacity q) (bq_pos q + 1), bq_count := bq_count q - 1\<rparr>)"
    using pos idx by (simp add: bq_contents_def ring)
qed

lemmas bq_ops = try_push_locked_def push_locked_def try_pop_locked_def pop_locked_def
  close_locked_def wait_until_not_empty_locked_def Let_def

lemma bq_inv_try_push: "bq_inv q \<Longrightarrow> bq_inv (snd (snd (try_push_locked x q)))"
  using bq_push_room(1) by (auto simp: bq_ops not_le)

lemma bq_inv_try_pop: "bq_inv q \<Longrightarrow> bq_inv (snd (snd (snd (try_pop_locked q))))"
  using bq_pop_some(1) by (auto simp: bq_ops)

lemma bq_inv_close: "bq_inv q \<Longrightarrow> bq_inv (snd (close_locked q))"
  by (auto simp: bq_ops bq_inv_def)

section \<open>Refinement of a bounded list\<close>

text \<open>
  The contract: a list of at most \<open>c\<close> buffers and a closed flag. Pushing appends, unless the queue is
  closed (\<open>EIO\<close>) or full (\<open>EAGAIN\<close>); popping takes the head, and reports \<open>EIO\<close> or \<open>EAGAIN\<close> on an
  empty queue that is closed or open.
\<close>

datatype 'a bq_op = Try_Push 'a | Try_Pop | Close

fun bq_step :: "'a bq_op \<Rightarrow> 'a buffer_queue \<Rightarrow> (bq_code \<times> 'a option) \<times> 'a buffer_queue" where
  "bq_step (Try_Push x) q = (case try_push_locked x q of (c, _, q') \<Rightarrow> ((c, None), q'))"
| "bq_step Try_Pop q = (case try_pop_locked q of (c, r, _, q') \<Rightarrow> ((c, r), q'))"
| "bq_step Close q = (case close_locked q of (_, q') \<Rightarrow> ((BQ_OK, None), q'))"

fun list_step :: "nat \<Rightarrow> 'a bq_op \<Rightarrow> 'a list \<times> bool \<Rightarrow> (bq_code \<times> 'a option) \<times> 'a list \<times> bool" where
  "list_step c (Try_Push x) (xs, closed) =
     (if closed then ((BQ_EIO, None), (xs, closed))
      else if length xs = c then ((BQ_EAGAIN, None), (xs, closed))
      else ((BQ_OK, None), (xs @ [x], closed)))"
| "list_step c Try_Pop (xs, closed) =
     (case xs of
        [] \<Rightarrow> ((if closed then BQ_EIO else BQ_EAGAIN, None), (xs, closed))
      | x # ys \<Rightarrow> ((BQ_OK, Some x), (ys, closed)))"
| "list_step c Close (xs, closed) = ((BQ_OK, None), (xs, True))"

fun run_ops :: "('op \<Rightarrow> 's \<Rightarrow> 'r \<times> 's) \<Rightarrow> 'op list \<Rightarrow> 's \<Rightarrow> 'r list \<times> 's" where
  "run_ops f [] s = ([], s)"
| "run_ops f (op # ops) s =
     (case f op s of (r, s') \<Rightarrow> (case run_ops f ops s' of (rs, t) \<Rightarrow> (r # rs, t)))"

definition bq_abs :: "'a buffer_queue \<Rightarrow> 'a list \<times> bool" where
  "bq_abs q = (bq_contents q, bq_closed q)"

lemma bq_contents_close [simp]: "bq_contents (q\<lparr>bq_closed := b\<rparr>) = bq_contents q"
  by (simp add: bq_contents_def)

lemma bq_step_refines:
  assumes "bq_inv q"
  shows "list_step (bq_capacity q) op (bq_abs q) = (fst (bq_step op q), bq_abs (snd (bq_step op q)))"
    and "bq_inv (snd (bq_step op q)) \<and> bq_capacity (snd (bq_step op q)) = bq_capacity q"
proof -
  have le: "bq_count q \<le> bq_capacity q" using assms by (simp add: bq_inv_def)
  show "list_step (bq_capacity q) op (bq_abs q) = (fst (bq_step op q), bq_abs (snd (bq_step op q)))"
  proof (cases op)
    case Try_Pop
    show ?thesis
    proof (cases "bq_count q = 0")
      case True
      with Try_Pop show ?thesis by (simp add: bq_ops bq_abs_def bq_contents_def)
    next
      case False
      with Try_Pop bq_pop_some(2) [OF assms] show ?thesis by (simp add: bq_ops bq_abs_def)
    qed
  qed (use assms le bq_push_room(2) [of q] in \<open>auto simp: bq_ops bq_abs_def\<close>)
  show "bq_inv (snd (bq_step op q)) \<and> bq_capacity (snd (bq_step op q)) = bq_capacity q"
    using assms bq_inv_try_push [of q] bq_inv_try_pop [of q] bq_inv_close [of q]
    by (cases op) (auto simp: bq_ops split: prod.splits if_splits)
qed

lemma bq_run_refines:
  assumes "bq_inv q"
  shows "run_ops (list_step (bq_capacity q)) ops (bq_abs q) =
    (fst (run_ops bq_step ops q), bq_abs (snd (run_ops bq_step ops q)))"
  using assms
proof (induction ops arbitrary: q)
  case Nil
  then show ?case by simp
next
  case (Cons op ops)
  let ?q = "snd (bq_step op q)"
  from bq_step_refines [OF Cons.prems, of op] Cons.IH [of ?q]
  show ?case by (simp split: prod.splits)
qed

section \<open>The queue interface\<close>

definition bq_put :: "'a \<Rightarrow> 'a buffer_queue \<Rightarrow> 'a buffer_queue option" where
  "bq_put x q = (case try_push_locked x q of (BQ_OK, _, q') \<Rightarrow> Some q' | _ \<Rightarrow> None)"

definition bq_get :: "'a buffer_queue \<Rightarrow> ('a \<times> 'a buffer_queue) option" where
  "bq_get q = (case try_pop_locked q of (BQ_OK, Some x, _, q') \<Rightarrow> Some (x, q') | _ \<Rightarrow> None)"

lemma bq_put_eq:
  "bq_put x q = (if bq_closed q \<or> bq_capacity q \<le> bq_count q then None
     else Some (q\<lparr>bq_buffers := (bq_buffers q)[ring_index (bq_capacity q) (bq_pos q + bq_count q) := x],
                   bq_count := bq_count q + 1\<rparr>))"
  by (simp add: bq_put_def bq_ops)

lemma bq_get_eq:
  "bq_get q = (if bq_count q = 0 then None
     else Some (bq_buffers q ! bq_pos q,
                q\<lparr>bq_pos := ring_index (bq_capacity q) (bq_pos q + 1), bq_count := bq_count q - 1\<rparr>))"
  by (simp add: bq_get_def bq_ops)

interpretation bqf: bounded_fifo bq_inv bq_contents bq_capacity bq_put bq_get
proof
  fix q q' :: "'a buffer_queue" and x :: 'a
  show "bq_inv q \<Longrightarrow> bq_put x q = Some q' \<Longrightarrow> bq_inv q'"
    using bq_push_room(1) [of q x] by (auto simp: bq_put_eq split: if_splits)
  show "bq_inv q \<Longrightarrow> bq_get q = Some (x, q') \<Longrightarrow> bq_inv q'"
    using bq_pop_some(1) [of q] by (auto simp: bq_get_eq split: if_splits)
  show "bq_inv q \<Longrightarrow> bq_put x q = Some q' \<Longrightarrow> bq_contents q' = bq_contents q @ [x]"
    using bq_push_room(2) [of q x] by (auto simp: bq_put_eq split: if_splits)
  show "bq_inv q \<Longrightarrow> bq_get q = Some (x, q') \<Longrightarrow> bq_contents q = x # bq_contents q'"
    using bq_pop_some(2) [of q] by (auto simp: bq_get_eq split: if_splits)
  show "bq_inv q \<Longrightarrow> bq_get q = None \<longleftrightarrow> bq_contents q = []"
    by (simp add: bq_get_eq)
  show "bq_inv q \<Longrightarrow> length (bq_contents q) = bq_capacity q \<Longrightarrow> bq_put x q = None"
    by (simp add: bq_put_eq)
  show "bq_inv q \<Longrightarrow> length (bq_contents q) \<le> bq_capacity q"
    by (simp add: bq_inv_def)
  show "bq_put x q = Some q' \<Longrightarrow> bq_capacity q' = bq_capacity q"
    by (auto simp: bq_put_eq split: if_splits)
  show "bq_get q = Some (x, q') \<Longrightarrow> bq_capacity q' = bq_capacity q"
    by (auto simp: bq_get_eq split: if_splits)
qed

section \<open>Properties\<close>

text \<open>
  C1. On every sequence of pushes, pops and closes, a new \<open>BufferQueue\<close> of capacity \<open>c\<close> returns the
  result codes and delivers the buffers that the bounded list of the contract does, and it represents
  the list the contract ends with. This covers the wrap-around of the ring, the full and the empty
  queue, and the behaviour after closing.
\<close>

theorem buffer_queue_refines_bounded_list:
  "run_ops (list_step c) ops ([], False) =
     (fst (run_ops bq_step ops (buffer_queue_new d c)),
      bq_abs (snd (run_ops bq_step ops (buffer_queue_new d c))))"
  using bq_run_refines [of "buffer_queue_new d c" ops]
  by (simp add: bq_abs_def)

text \<open>
  C2. Buffers leave a \<open>BufferQueue\<close> in the order in which they were accepted, none is lost or
  duplicated, and never more than the capacity are inside: whatever is asked of it, what was delivered
  is a prefix of what was accepted, and what is missing from it fits the queue.
\<close>

theorem buffer_queue_fifo:
  "case fifo_run bq_put bq_get ops (buffer_queue_new d c) of
     (acc, del, q) \<Rightarrow> prefix del acc \<and> acc = del @ bq_contents q \<and> length acc \<le> length del + c"
proof -
  obtain acc del q where run: "fifo_run bq_put bq_get ops (buffer_queue_new d c) = (acc, del, q)"
    by (cases "fifo_run bq_put bq_get ops (buffer_queue_new d c)") auto
  show ?thesis
    using bqf.delivered_prefix [OF _ _ run] bqf.in_flight_bounded [OF _ _ run] bqf.run_laws [OF _ run] run
    by simp
qed

lemma closed_queue_drain_list:
  "run_ops (list_step c) (replicate (length xs + k) Try_Pop) (xs, True) =
     (map (\<lambda>x. (BQ_OK, Some x)) xs @ replicate k (BQ_EIO, None), ([], True))"
proof (induction xs)
  case Nil
  show ?case by (induction k) simp_all
qed simp

text \<open>
  A closed queue can be drained and never blocks. From any well-formed closed queue, repeated pops
  deliver exactly the buffers that are still in it, in order, and from then on report \<open>EIO\<close>; no pop
  and no push waits.
\<close>

lemma closed_queue_drains:
  assumes "bq_inv q" and "bq_closed q"
  shows "fst (run_ops bq_step (replicate (bq_count q + k) Try_Pop) q) =
      map (\<lambda>x. (BQ_OK, Some x)) (bq_contents q) @ replicate k (BQ_EIO, None) \<and>
    pop_locked q \<noteq> Waits \<and> (\<forall>x. push_locked x q \<noteq> Waits)"
proof -
  have "run_ops (list_step (bq_capacity q)) (replicate (bq_count q + k) Try_Pop) (bq_abs q) =
    (map (\<lambda>x. (BQ_OK, Some x)) (bq_contents q) @ replicate k (BQ_EIO, None), ([], True))"
    using closed_queue_drain_list [of "bq_capacity q" "bq_contents q" k] assms(2)
    by (simp add: bq_abs_def)
  with bq_run_refines [OF assms(1)]
  have "fst (run_ops bq_step (replicate (bq_count q + k) Try_Pop) q) =
      map (\<lambda>x. (BQ_OK, Some x)) (bq_contents q) @ replicate k (BQ_EIO, None)"
    by (metis fst_conv)
  then show ?thesis using assms by (auto simp: bq_ops)
qed

definition closed_queue_example :: "nat buffer_queue" where
  "closed_queue_example =
     \<lparr>bq_capacity = 3, bq_pos = 2, bq_count = 2, bq_closed = True, bq_buffers = [11, 0, 10]\<rparr>"

theorem closed_queue_drains_witness:
  "fst (run_ops bq_step [Try_Pop, Try_Pop, Try_Pop] closed_queue_example) =
     [(BQ_OK, Some 10), (BQ_OK, Some 11), (BQ_EIO, None)] \<and> pop_locked closed_queue_example \<noteq> Waits"
proof -
  have inv: "bq_inv closed_queue_example" "bq_closed closed_queue_example"
    by (simp_all add: bq_inv_def closed_queue_example_def)
  have "bq_contents closed_queue_example = [10, 11]" and "bq_count closed_queue_example = 2"
    by (simp_all add: bq_contents_def ring_contents_def closed_queue_example_def upt_rec)
  then show ?thesis
    using closed_queue_drains [OF inv, of 1] by (simp add: numeral_eq_Suc)
qed

end
