(* ===== verification/QueueMonitor.thy ===== *)
theory QueueMonitor
  imports BufferQueue
begin

text \<open>
  One \<open>BufferQueue\<close> between a producer thread and a consumer thread, the way
  \<open>src/anbox/graphics/buffered_io_stream.cpp\<close> uses its two queues, as a transition system over the
  operations of theory \<open>BufferQueue\<close>.

  A thread that finds it has to wait first commits to it, still holding the lock
  (\<open>Committed\<close>), and then sleeps on the condition variable, which releases the lock (\<open>Asleep\<close>). A
  notification reaches a thread only when it is asleep. Every operation runs with the lock held. What
  differs between the two queues is closing: \<open>forceStop\<close> takes \<open>lock_\<close>, which is the lock of the
  incoming queue, and closes both queues under it, while the outgoing queue is used under
  \<open>out_lock_\<close>. The parameter \<open>locked\<close> of the step relation says which of the two is modelled.

  Shown here: with the lock held a sleeping thread always has a reason to sleep, and the two threads
  never sleep at the same time; without it, a consumer can sleep on a closed queue that nobody will
  signal again.
\<close>

datatype thread = Running | Committed | Asleep

record 'a monitor =
  m_queue :: "'a buffer_queue"
  m_prod :: thread
  m_cons :: thread

definition monitor_init :: "'a \<Rightarrow> nat \<Rightarrow> 'a monitor" where
  "monitor_init d c = \<lparr>m_queue = buffer_queue_new d c, m_prod = Running, m_cons = Running\<rparr>"

definition lock_free :: "'a monitor \<Rightarrow> bool" where
  "lock_free s \<longleftrightarrow> m_prod s \<noteq> Committed \<and> m_cons s \<noteq> Committed"

fun wakes_cons :: "wake \<Rightarrow> bool" where
  "wakes_cons Notify_One_Pop = True"
| "wakes_cons Notify_All_Pop = True"
| "wakes_cons _ = False"

definition wake_up :: "thread \<Rightarrow> thread" where
  "wake_up t = (if t = Asleep then Running else t)"

definition deliver :: "wake list \<Rightarrow> 'a monitor \<Rightarrow> 'a monitor" where
  "deliver ws s =
     s\<lparr>m_cons := (if list_ex wakes_cons ws then wake_up (m_cons s) else m_cons s),
       m_prod := (if list_ex (\<lambda>w. \<not> wakes_cons w) ws then wake_up (m_prod s) else m_prod s)\<rparr>"

inductive mon_step :: "bool \<Rightarrow> 'a monitor \<Rightarrow> 'a monitor \<Rightarrow> bool" for locked where
  push_waits: "lock_free s \<Longrightarrow> m_prod s = Running \<Longrightarrow> push_locked x (m_queue s) = Waits \<Longrightarrow>
     mon_step locked s (s\<lparr>m_prod := Committed\<rparr>)"
| push_returns: "lock_free s \<Longrightarrow> m_prod s = Running \<Longrightarrow>
     push_locked x (m_queue s) = Returns (c, ws, q) \<Longrightarrow>
     mon_step locked s (deliver ws (s\<lparr>m_queue := q\<rparr>))"
| prod_sleeps: "m_prod s = Committed \<Longrightarrow> mon_step locked s (s\<lparr>m_prod := Asleep\<rparr>)"
| prod_spurious: "m_prod s = Asleep \<Longrightarrow> mon_step locked s (s\<lparr>m_prod := Running\<rparr>)"
| pop_waits: "lock_free s \<Longrightarrow> m_cons s = Running \<Longrightarrow> pop_locked (m_queue s) = Waits \<Longrightarrow>
     mon_step locked s (s\<lparr>m_cons := Committed\<rparr>)"
| pop_returns: "lock_free s \<Longrightarrow> m_cons s = Running \<Longrightarrow>
     pop_locked (m_queue s) = Returns (c, r, ws, q) \<Longrightarrow>
     mon_step locked s (deliver ws (s\<lparr>m_queue := q\<rparr>))"
| cons_sleeps: "m_cons s = Committed \<Longrightarrow> mon_step locked s (s\<lparr>m_cons := Asleep\<rparr>)"
| cons_spurious: "m_cons s = Asleep \<Longrightarrow> mon_step locked s (s\<lparr>m_cons := Running\<rparr>)"
| closes: "(locked \<longrightarrow> lock_free s) \<Longrightarrow> close_locked (m_queue s) = (ws, q) \<Longrightarrow>
     mon_step locked s (deliver ws (s\<lparr>m_queue := q\<rparr>))"

inductive mon_reachable :: "bool \<Rightarrow> 'a \<Rightarrow> nat \<Rightarrow> 'a monitor \<Rightarrow> bool" for locked d c where
  mon_start: "mon_reachable locked d c (monitor_init d c)"
| mon_next: "mon_reachable locked d c s \<Longrightarrow> mon_step locked s t \<Longrightarrow> mon_reachable locked d c t"

section \<open>No lost wake-up when closing takes the queue's lock\<close>

definition no_lost_wakeup :: "'a monitor \<Rightarrow> bool" where
  "no_lost_wakeup s \<longleftrightarrow>
     (m_cons s \<noteq> Running \<longrightarrow> bq_count (m_queue s) = 0 \<and> \<not> bq_closed (m_queue s)) \<and>
     (m_prod s \<noteq> Running \<longrightarrow>
        bq_count (m_queue s) = bq_capacity (m_queue s) \<and> \<not> bq_closed (m_queue s))"

definition mon_inv :: "nat \<Rightarrow> 'a monitor \<Rightarrow> bool" where
  "mon_inv c s \<longleftrightarrow> bq_inv (m_queue s) \<and> bq_capacity (m_queue s) = c \<and> no_lost_wakeup s"

lemma mon_inv_init: "mon_inv c (monitor_init d c)"
  by (simp add: mon_inv_def no_lost_wakeup_def monitor_init_def)

lemma queue_results_keep_inv:
  assumes "bq_inv q"
  shows "push_locked x q = Returns (e, ws, q') \<Longrightarrow> bq_inv q' \<and> bq_capacity q' = bq_capacity q"
    and "pop_locked q = Returns (e, r, ws, q') \<Longrightarrow> bq_inv q' \<and> bq_capacity q' = bq_capacity q"
    and "close_locked q = (ws, q') \<Longrightarrow> bq_inv q' \<and> bq_capacity q' = bq_capacity q"
  using bq_inv_try_push [OF assms, of x] bq_inv_try_pop [OF assms] bq_inv_close [OF assms] assms
  by (auto simp: bq_ops split: if_splits)

lemma mon_step_inv:
  assumes "mon_step True s t" and "mon_inv c s"
  shows "mon_inv c t"
  using assms
proof (induction rule: mon_step.induct)
  case (push_returns s x e ws q)
  then show ?case
    using queue_results_keep_inv(1) [of "m_queue s" x e ws q]
    by (cases "m_prod s"; cases "m_cons s")
       (simp_all add: mon_inv_def no_lost_wakeup_def lock_free_def deliver_def wake_up_def bq_ops,
        auto simp: bq_ops split: if_splits)
next
  case (pop_returns s e r ws q)
  then show ?case
    using queue_results_keep_inv(2) [of "m_queue s" e r ws q]
    by (cases "m_prod s"; cases "m_cons s")
       (simp_all add: mon_inv_def no_lost_wakeup_def lock_free_def deliver_def wake_up_def bq_ops,
        auto simp: bq_ops split: if_splits)
next
  case (closes s ws q)
  have q: "q = (m_queue s)\<lparr>bq_closed := True\<rparr>" and ws: "ws = fst (close_locked (m_queue s))"
    using closes(2) by (auto simp: close_locked_def)
  have "bq_inv q" and "bq_capacity q = c"
    using queue_results_keep_inv(3) [OF _ closes(2)] closes(3) by (auto simp: mon_inv_def)
  moreover have "m_prod (deliver ws (s\<lparr>m_queue := q\<rparr>)) = Running \<and>
    m_cons (deliver ws (s\<lparr>m_queue := q\<rparr>)) = Running"
    using closes(1,3) unfolding ws
    by (cases "m_prod s"; cases "m_cons s")
       (simp_all add: mon_inv_def no_lost_wakeup_def lock_free_def deliver_def wake_up_def
        close_locked_def)
  ultimately show ?case
    by (simp add: mon_inv_def no_lost_wakeup_def deliver_def)
qed (auto simp: mon_inv_def no_lost_wakeup_def bq_ops split: if_splits)

lemma mon_reachable_inv: "mon_reachable True d c s \<Longrightarrow> mon_inv c s"
  by (induction rule: mon_reachable.induct) (blast intro: mon_inv_init mon_step_inv)+

text \<open>
  C3. Closing under the queue's own lock loses no wake-up. In every reachable state of a queue with
  room for at least one buffer: a consumer that sleeps does so on an empty open queue, a producer that
  sleeps does so on a full open queue, and they do not sleep at the same time. So no reachable state is
  a deadlock, and nobody sleeps on a closed queue.
\<close>

theorem monitor_no_lost_wakeup:
  assumes "mon_reachable True d c s" and "0 < c"
  shows "(m_cons s = Asleep \<longrightarrow> bq_count (m_queue s) = 0 \<and> \<not> bq_closed (m_queue s)) \<and>
    (m_prod s = Asleep \<longrightarrow> bq_count (m_queue s) = c \<and> \<not> bq_closed (m_queue s)) \<and>
    \<not> (m_cons s = Asleep \<and> m_prod s = Asleep)"
  using mon_reachable_inv [OF assms(1)] assms(2)
  by (auto simp: mon_inv_def no_lost_wakeup_def)

definition sleeping_consumer :: "nat monitor" where
  "sleeping_consumer = \<lparr>m_queue = buffer_queue_new 0 2, m_prod = Running, m_cons = Asleep\<rparr>"

lemma sleeping_consumer_reachable: "mon_reachable True 0 2 sleeping_consumer"
proof -
  let ?i = "monitor_init (0::nat) 2"
  have 1: "mon_step True ?i (?i\<lparr>m_cons := Committed\<rparr>)"
    by (rule mon_step.pop_waits)
       (simp_all add: monitor_init_def lock_free_def pop_locked_def buffer_queue_new_def)
  have 2: "mon_step True (?i\<lparr>m_cons := Committed\<rparr>) (?i\<lparr>m_cons := Committed\<rparr>\<lparr>m_cons := Asleep\<rparr>)"
    by (rule mon_step.cons_sleeps) simp
  have "?i\<lparr>m_cons := Committed\<rparr>\<lparr>m_cons := Asleep\<rparr> = sleeping_consumer"
    by (simp add: monitor_init_def sleeping_consumer_def)
  then show ?thesis
    using mon_reachable.mon_next [OF mon_reachable.mon_next [OF mon_reachable.mon_start 1] 2] by simp
qed

theorem monitor_no_lost_wakeup_witness:
  "m_cons sleeping_consumer = Asleep \<and> bq_count (m_queue sleeping_consumer) = 0 \<and>
   \<not> bq_closed (m_queue sleeping_consumer) \<and> m_prod sleeping_consumer \<noteq> Asleep"
proof -
  have "m_cons sleeping_consumer = Asleep" by (simp add: sleeping_consumer_def)
  with monitor_no_lost_wakeup [OF sleeping_consumer_reachable] show ?thesis by simp
qed

section \<open>Closing without the queue's lock\<close>

text \<open>
  The outgoing queue of \<open>BufferedIOStream\<close> is closed under a lock that is not its own. Then, for
  every capacity, a state is reachable in which the worker thread sleeps on a closed queue. A
  later push does not help: it reports \<open>EIO\<close> and notifies nobody.
\<close>

lemma unlocked_close_strands_consumer:
  "\<exists>s. mon_reachable False d (Suc c) s \<and> m_cons s = Asleep \<and> bq_closed (m_queue s) \<and>
       (\<forall>x. push_locked x (m_queue s) = Returns (BQ_EIO, [], m_queue s))"
proof -
  let ?i = "monitor_init d (Suc c)"
  let ?q = "snd (close_locked (m_queue ?i))"
  let ?s1 = "?i\<lparr>m_cons := Committed\<rparr>"
  let ?s2 = "?s1\<lparr>m_queue := ?q\<rparr>"
  have 1: "mon_step False ?i ?s1"
    by (rule mon_step.pop_waits)
       (simp_all add: monitor_init_def lock_free_def pop_locked_def buffer_queue_new_def)
  have "mon_step False ?s1 (deliver (fst (close_locked (m_queue ?s1))) ?s2)"
    by (rule mon_step.closes) (simp_all add: monitor_init_def)
  moreover have "deliver (fst (close_locked (m_queue ?s1))) ?s2 = ?s2"
    by (simp add: deliver_def wake_up_def monitor_init_def close_locked_def buffer_queue_new_def)
  ultimately have 2: "mon_step False ?s1 ?s2" by simp
  have 3: "mon_step False ?s2 (?s2\<lparr>m_cons := Asleep\<rparr>)"
    by (rule mon_step.cons_sleeps) simp
  have "mon_reachable False d (Suc c) (?s2\<lparr>m_cons := Asleep\<rparr>)"
    by (blast intro: mon_reachable.intros 1 2 3)
  then show ?thesis
    by (intro exI [of _ "?s2\<lparr>m_cons := Asleep\<rparr>"])
       (simp add: monitor_init_def close_locked_def buffer_queue_new_def push_locked_def
        try_push_locked_def)
qed

end
