(* ===== verification/SmallVector.thy ===== *)
theory SmallVector
  imports Anbox_Prelude "HOL-Library.Multiset"
begin

text \<open>
  \<open>anbox::common::SmallVector\<close> and \<open>SmallFixedVector\<close> (\<open>src/anbox/common/small_vector.h\<close>): a vector
  that keeps up to \<open>S\<close> elements inside the object and moves to a \<open>malloc\<close>ed array beyond that.

  \<open>sv_begin\<close> says where \<open>mBegin\<close> points: the array inside the object, or a heap block. The elements
  in \<open>[mBegin, mEnd)\<close> are \<open>sv_elems\<close>. The heap records the blocks that are allocated and not freed,
  and whether a block was ever freed that was not allocated. \<open>malloc\<close> is taken to succeed: on failure
  the code calls \<open>abort\<close>. Elements are trivially copyable, as in the one use of the class
  (\<open>SmallFixedVector<char, 512>\<close>), so that moving an element leaves its source as it was.

  Shown here: the class behaves like a list whatever the storage; no sequence of operations on any
  number of vectors leaks a block, frees one twice or lets two vectors share one.
\<close>

datatype storage = In_Place | Heap nat

record 'a small_vector =
  sv_begin :: storage
  sv_elems :: "'a list"
  sv_capacity :: nat

record heap =
  hp_next :: nat
  hp_live :: "nat list"
  hp_bad :: bool

definition heap_empty :: heap where
  "heap_empty = \<lparr>hp_next = 0, hp_live = [], hp_bad = False\<rparr>"

definition malloc :: "heap \<Rightarrow> nat \<times> heap" where
  "malloc h = (hp_next h, h\<lparr>hp_next := hp_next h + 1, hp_live := hp_next h # hp_live h\<rparr>)"

definition free :: "nat \<Rightarrow> heap \<Rightarrow> heap" where
  "free a h = (if a \<in> set (hp_live h) then h\<lparr>hp_live := remove1 a (hp_live h)\<rparr> else h\<lparr>hp_bad := True\<rparr>)"

section \<open>The class\<close>

definition isAllocated :: "'a small_vector \<Rightarrow> bool" where
  "isAllocated v \<longleftrightarrow> sv_begin v \<noteq> In_Place"

definition sv_dtor :: "'a small_vector \<Rightarrow> heap \<Rightarrow> heap" where
  "sv_dtor v h = (case sv_begin v of In_Place \<Rightarrow> h | Heap a \<Rightarrow> free a h)"

definition init_inplace :: "nat \<Rightarrow> 'a small_vector" where
  "init_inplace S = \<lparr>sv_begin = In_Place, sv_elems = [], sv_capacity = S\<rparr>"

definition set_capacity :: "nat \<Rightarrow> 'a small_vector \<times> heap \<Rightarrow> 'a small_vector \<times> heap" where
  "set_capacity newCap = (\<lambda>(v, h).
     case malloc h of (a, h') \<Rightarrow> (v\<lparr>sv_begin := Heap a, sv_capacity := newCap\<rparr>, sv_dtor v h'))"

definition grow_for_size :: "nat \<Rightarrow> 'a small_vector \<times> heap \<Rightarrow> 'a small_vector \<times> heap" where
  "grow_for_size newSize = (\<lambda>(v, h).
     if newSize > sv_capacity v
     then set_capacity (max newSize (sv_capacity v + sv_capacity v div 2)) (v, h)
     else (v, h))"

definition sv_append :: "'a list \<Rightarrow> 'a small_vector \<times> heap \<Rightarrow> 'a small_vector \<times> heap" where
  "sv_append xs = (\<lambda>(v, h). (v\<lparr>sv_elems := sv_elems v @ xs\<rparr>, h))"

definition emplace_back :: "'a \<Rightarrow> 'a small_vector \<times> heap \<Rightarrow> 'a small_vector \<times> heap" where
  "emplace_back x = (\<lambda>(v, h). sv_append [x] (grow_for_size (length (sv_elems v) + 1) (v, h)))"

definition sv_clear :: "'a small_vector \<times> heap \<Rightarrow> 'a small_vector \<times> heap" where
  "sv_clear = (\<lambda>(v, h). (v\<lparr>sv_elems := []\<rparr>, h))"

definition sv_reserve :: "nat \<Rightarrow> 'a small_vector \<times> heap \<Rightarrow> 'a small_vector \<times> heap" where
  "sv_reserve newCap = (\<lambda>(v, h).
     if newCap \<le> sv_capacity v then (v, h) else set_capacity newCap (v, h))"

text \<open>
  \<open>resize_impl<init>\<close>. The new elements are \<open>T()\<close> when \<open>init\<close> holds and whatever the memory holds
  otherwise; \<open>fill\<close> gives the value at each new index for both.
\<close>

definition resize_impl :: "(nat \<Rightarrow> 'a) \<Rightarrow> nat \<Rightarrow> 'a small_vector \<times> heap \<Rightarrow> 'a small_vector \<times> heap" where
  "resize_impl fill newSize = (\<lambda>(v, h).
     if newSize < length (sv_elems v) then (v\<lparr>sv_elems := take newSize (sv_elems v)\<rparr>, h)
     else if newSize > length (sv_elems v)
     then sv_append (map fill [length (sv_elems v)..<newSize]) (grow_for_size newSize (v, h))
     else (v, h))"

definition insert_back :: "'a list \<Rightarrow> 'a small_vector \<times> heap \<Rightarrow> 'a small_vector \<times> heap" where
  "insert_back xs = (\<lambda>(v, h).
     if xs = [] then (v, h)
     else sv_append xs (grow_for_size (length (sv_elems v) + length xs) (v, h)))"

text \<open>The constructors of \<open>SmallFixedVector\<close>: empty, from a range (also the copy), by moving.\<close>

definition sv_from_range :: "nat \<Rightarrow> 'a list \<Rightarrow> heap \<Rightarrow> 'a small_vector \<times> heap" where
  "sv_from_range S xs h = insert_back xs (init_inplace S, h)"

definition sv_move_ctor :: "nat \<Rightarrow> 'a small_vector \<Rightarrow> 'a small_vector \<times> 'a small_vector" where
  "sv_move_ctor S other =
     (if isAllocated other then (other, init_inplace S)
      else (\<lparr>sv_begin = In_Place, sv_elems = sv_elems other, sv_capacity = S\<rparr>, other))"

definition sv_copy_assign :: "'a small_vector \<Rightarrow> 'a small_vector \<times> heap \<Rightarrow> 'a small_vector \<times> heap" where
  "sv_copy_assign other s = insert_back (sv_elems other) (sv_clear s)"

text \<open>Move assignment between different objects: the new \<open>*this\<close>, the new \<open>other\<close>, the heap.\<close>

definition sv_move_assign ::
  "nat \<Rightarrow> 'a small_vector \<Rightarrow> 'a small_vector \<Rightarrow> heap \<Rightarrow> 'a small_vector \<times> 'a small_vector \<times> heap"
where
  "sv_move_assign S this other h =
     (if isAllocated other then (other, init_inplace S, sv_dtor this h)
      else if isAllocated this \<and> sv_capacity this < length (sv_elems other)
      then ((init_inplace S)\<lparr>sv_elems := sv_elems other\<rparr>, other, sv_dtor this h)
      else (this\<lparr>sv_elems := sv_elems other\<rparr>, other, h))"

lemmas sv_ops = malloc_def free_def isAllocated_def sv_dtor_def init_inplace_def set_capacity_def
  grow_for_size_def sv_append_def emplace_back_def sv_clear_def sv_reserve_def resize_impl_def
  insert_back_def sv_from_range_def sv_move_ctor_def sv_copy_assign_def sv_move_assign_def

section \<open>Representation invariant\<close>

text \<open>The elements fit; the in-place array has capacity \<open>S\<close>; a heap array has more than that.\<close>

definition sv_wf :: "nat \<Rightarrow> 'a small_vector \<Rightarrow> bool" where
  "sv_wf S v \<longleftrightarrow> length (sv_elems v) \<le> sv_capacity v \<and>
     (case sv_begin v of In_Place \<Rightarrow> sv_capacity v = S | Heap _ \<Rightarrow> S < sv_capacity v)"

definition addr :: "'a small_vector \<Rightarrow> nat list" where
  "addr v = (case sv_begin v of In_Place \<Rightarrow> [] | Heap a \<Rightarrow> [a])"

text \<open>
  What an operation on one vector may do to the heap: the blocks of everybody else, \<open>fs\<close>, stay as
  they are, and the vector owns exactly the rest.
\<close>

definition heap_ok :: "nat list \<Rightarrow> heap \<Rightarrow> bool" where
  "heap_ok blocks h \<longleftrightarrow> \<not> hp_bad h \<and> mset (hp_live h) = mset blocks \<and> distinct (hp_live h) \<and>
     (\<forall>a \<in> set (hp_live h). a < hp_next h)"

definition sv_ok :: "nat \<Rightarrow> nat list \<Rightarrow> 'a small_vector \<times> heap \<Rightarrow> bool" where
  "sv_ok S fs s \<longleftrightarrow> sv_wf S (fst s) \<and> heap_ok (addr (fst s) @ fs) (snd s)"

lemma addr_update [simp]:
  "addr (v\<lparr>sv_elems := xs\<rparr>) = addr v" "addr (v\<lparr>sv_capacity := c\<rparr>) = addr v"
  "addr (v\<lparr>sv_begin := Heap a\<rparr>) = [a]" "addr (init_inplace S) = []"
  by (simp_all add: addr_def init_inplace_def)

lemma sv_wf_set_elems: "sv_wf S v \<Longrightarrow> length xs \<le> sv_capacity v \<Longrightarrow> sv_wf S (v\<lparr>sv_elems := xs\<rparr>)"
  by (cases "sv_begin v") (simp_all add: sv_wf_def)

lemma sv_wf_init [simp]: "sv_wf S (init_inplace S)"
  by (simp add: sv_wf_def init_inplace_def)

lemma sv_ok_set_elems:
  "sv_ok S fs (v, h) \<Longrightarrow> length xs \<le> sv_capacity v \<Longrightarrow> sv_ok S fs (v\<lparr>sv_elems := xs\<rparr>, h)"
  by (simp add: sv_ok_def sv_wf_set_elems)

lemma heap_ok_malloc:
  "heap_ok bs h \<Longrightarrow> heap_ok (fst (malloc h) # bs) (snd (malloc h))"
  by (auto simp: heap_ok_def malloc_def less_Suc_eq)

lemma heap_ok_mset: "mset bs = mset cs \<Longrightarrow> heap_ok bs h \<longleftrightarrow> heap_ok cs h"
  by (simp add: heap_ok_def)

lemma heap_ok_free:
  assumes "heap_ok (a # bs) h"
  shows "heap_ok bs (free a h)"
proof -
  have "a \<in> set (hp_live h)"
    using assms by (metis heap_ok_def list.set_intros(1) mset_eq_setD)
  then show ?thesis
    using assms by (auto simp: heap_ok_def free_def in_set_remove1)
qed

lemma heap_ok_dtor: "heap_ok (addr v @ bs) h \<Longrightarrow> heap_ok bs (sv_dtor v h)"
  by (auto simp: addr_def sv_dtor_def heap_ok_free split: storage.splits)

lemma set_capacity_ok:
  assumes "sv_ok S fs (v, h)" and "sv_capacity v < c"
  shows "sv_ok S fs (set_capacity c (v, h))"
proof -
  have wf: "S < c" "length (sv_elems v) \<le> c"
    using assms by (auto simp: sv_ok_def sv_wf_def split: storage.splits)
  have "heap_ok (addr v @ fst (malloc h) # fs) (snd (malloc h))"
    using heap_ok_malloc [of "addr v @ fs" h] assms(1)
    by (subst heap_ok_mset [of _ "fst (malloc h) # addr v @ fs"]) (simp_all add: sv_ok_def)
  from heap_ok_dtor [OF this] wf show ?thesis
    by (simp add: sv_ok_def sv_wf_def set_capacity_def malloc_def)
qed

lemma grow_for_size_ok:
  assumes "sv_ok S fs (v, h)"
  shows "sv_ok S fs (grow_for_size n (v, h))"
    and "n \<le> sv_capacity (fst (grow_for_size n (v, h)))"
    and "sv_elems (fst (grow_for_size n (v, h))) = sv_elems v"
  using set_capacity_ok [OF assms] assms by (auto simp: grow_for_size_def set_capacity_def malloc_def)

lemma grow_append_ok:
  assumes "sv_ok S fs (v, h)" and "length (sv_elems v) + length xs \<le> n"
  shows "sv_ok S fs (sv_append xs (grow_for_size n (v, h)))"
    and "sv_elems (fst (sv_append xs (grow_for_size n (v, h)))) = sv_elems v @ xs"
proof -
  obtain w k where g: "grow_for_size n (v, h) = (w, k)" by fastforce
  with grow_for_size_ok [OF assms(1), of n] assms(2)
  show "sv_ok S fs (sv_append xs (grow_for_size n (v, h)))"
    and "sv_elems (fst (sv_append xs (grow_for_size n (v, h)))) = sv_elems v @ xs"
    by (auto simp: sv_append_def intro!: sv_ok_set_elems)
qed

section \<open>A vector is a list\<close>

datatype 'a sv_op =
    Emplace_Back 'a | Clear | Reserve nat | Resize nat | Insert_Back "'a list" | Copy_Assign "'a list"

fun sv_step :: "(nat \<Rightarrow> 'a) \<Rightarrow> 'a sv_op \<Rightarrow> 'a small_vector \<times> heap \<Rightarrow> 'a small_vector \<times> heap" where
  "sv_step fill (Emplace_Back x) s = emplace_back x s"
| "sv_step fill Clear s = sv_clear s"
| "sv_step fill (Reserve n) s = sv_reserve n s"
| "sv_step fill (Resize n) s = resize_impl fill n s"
| "sv_step fill (Insert_Back xs) s = insert_back xs s"
| "sv_step fill (Copy_Assign xs) s =
     sv_copy_assign \<lparr>sv_begin = In_Place, sv_elems = xs, sv_capacity = length xs\<rparr> s"

fun vec_step :: "(nat \<Rightarrow> 'a) \<Rightarrow> 'a sv_op \<Rightarrow> 'a list \<Rightarrow> 'a list" where
  "vec_step fill (Emplace_Back x) xs = xs @ [x]"
| "vec_step fill Clear xs = []"
| "vec_step fill (Reserve n) xs = xs"
| "vec_step fill (Resize n) xs = take n xs @ map fill [length xs..<n]"
| "vec_step fill (Insert_Back ys) xs = xs @ ys"
| "vec_step fill (Copy_Assign ys) xs = ys"

lemma sv_clear_ok: "sv_ok S fs s \<Longrightarrow> sv_ok S fs (sv_clear s)"
  by (cases s) (simp add: sv_clear_def sv_ok_set_elems)

lemma insert_back_ok:
  assumes "sv_ok S fs (v, h)"
  shows "sv_ok S fs (insert_back xs (v, h))" and "sv_elems (fst (insert_back xs (v, h))) = sv_elems v @ xs"
  using grow_append_ok [OF assms, of xs "length (sv_elems v) + length xs"] assms
  by (simp_all add: insert_back_def)

lemma resize_impl_ok:
  assumes "sv_ok S fs (v, h)"
  shows "sv_ok S fs (resize_impl fill n (v, h)) \<and>
    sv_elems (fst (resize_impl fill n (v, h))) = take n (sv_elems v) @ map fill [length (sv_elems v)..<n]"
proof (cases "n < length (sv_elems v)")
  case True
  moreover have "length (take n (sv_elems v)) \<le> sv_capacity v"
    using assms by (auto simp: sv_ok_def sv_wf_def)
  ultimately show ?thesis
    using assms by (simp add: resize_impl_def sv_ok_set_elems del: length_take)
next
  case False
  with assms grow_append_ok [OF assms, of "map fill [length (sv_elems v)..<n]" n] show ?thesis
    by (auto simp: resize_impl_def)
qed

lemma sv_step_ok:
  assumes "sv_ok S fs (v, h)"
  shows "sv_ok S fs (sv_step fill op (v, h)) \<and>
    sv_elems (fst (sv_step fill op (v, h))) = vec_step fill op (sv_elems v)"
proof (cases op)
  case (Emplace_Back x)
  with grow_append_ok [OF assms, of "[x]" "length (sv_elems v) + 1"] show ?thesis
    by (simp add: emplace_back_def)
next
  case (Reserve n)
  with set_capacity_ok [OF assms, of n] assms show ?thesis
    by (auto simp: sv_reserve_def set_capacity_def malloc_def)
next
  case (Resize n)
  with resize_impl_ok [OF assms] show ?thesis by simp
next
  case (Insert_Back xs)
  with insert_back_ok [OF assms] show ?thesis by simp
next
  case (Copy_Assign xs)
  have "sv_ok S fs (sv_clear (v, h))" using assms by (rule sv_clear_ok)
  with Copy_Assign insert_back_ok [of S fs "v\<lparr>sv_elems := []\<rparr>" h xs] show ?thesis
    by (simp add: sv_copy_assign_def sv_clear_def)
qed (use sv_clear_ok [OF assms] in \<open>simp add: sv_clear_def\<close>)

lemma sv_steps_ok:
  "sv_ok S fs s \<Longrightarrow> sv_ok S fs (fold (sv_step fill) ops s) \<and>
     sv_elems (fst (fold (sv_step fill) ops s)) = fold (vec_step fill) ops (sv_elems (fst s))"
proof (induction ops arbitrary: s)
  case Nil
  then show ?case by simp
next
  case (Cons op ops)
  with sv_step_ok [of S fs "fst s" "snd s" fill op] Cons.IH [of "sv_step fill op s"]
  show ?case by simp
qed

lemma sv_ok_init: "sv_ok S [] (init_inplace S, heap_empty)"
  by (simp add: sv_ok_def heap_ok_def heap_empty_def)

text \<open>
  Whatever is done to a \<open>SmallFixedVector\<close>, its elements are those of a plain list under the same
  operations: the change from the array in the object to the heap is invisible. The elements always fit
  the capacity, and the vector owns at most one heap block, the only one that is live.
\<close>

lemma small_vector_is_list:
  "let (v, h) = fold (sv_step fill) ops (init_inplace S, heap_empty) in
     sv_elems v = fold (vec_step fill) ops [] \<and> length (sv_elems v) \<le> sv_capacity v \<and>
     mset (hp_live h) = mset (addr v) \<and> \<not> hp_bad h"
  using sv_steps_ok [OF sv_ok_init, of S fill ops]
  by (auto simp: sv_ok_def sv_wf_def heap_ok_def init_inplace_def split: prod.splits)

section \<open>Several vectors\<close>

text \<open>
  A program over numbered vectors: \<open>On i op\<close> applies an operation to vector \<open>i\<close>, \<open>Move i j\<close> is
  \<open>v\<^sub>i = std::move(v\<^sub>j)\<close>, \<open>Move_New j\<close> constructs a new vector from \<open>std::move(v\<^sub>j)\<close>, \<open>Create\<close>
  constructs an empty one, \<open>Destroy\<close> runs the destructor of the newest. Requests for vectors that do
  not exist, and moves of a vector to itself, are not part of a program and are skipped.
\<close>

datatype 'a sv_cmd = Create | On nat "'a sv_op" | Move nat nat | Move_New nat | Destroy

type_synonym 'a sv_world = "'a small_vector list \<times> heap"

fun sv_exec :: "nat \<Rightarrow> (nat \<Rightarrow> 'a) \<Rightarrow> 'a sv_cmd \<Rightarrow> 'a sv_world \<Rightarrow> 'a sv_world" where
  "sv_exec S fill Create (vs, h) = (init_inplace S # vs, h)"
| "sv_exec S fill (On i op) (vs, h) =
     (if i < length vs then (case sv_step fill op (vs ! i, h) of (v, h') \<Rightarrow> (vs[i := v], h'))
      else (vs, h))"
| "sv_exec S fill (Move i j) (vs, h) =
     (if i < length vs \<and> j < length vs \<and> i \<noteq> j
      then (case sv_move_assign S (vs ! i) (vs ! j) h of (v, w, h') \<Rightarrow> (vs[i := v, j := w], h'))
      else (vs, h))"
| "sv_exec S fill (Move_New j) (vs, h) =
     (if j < length vs then (case sv_move_ctor S (vs ! j) of (v, w) \<Rightarrow> (v # vs[j := w], h)) else (vs, h))"
| "sv_exec S fill Destroy (vs, h) = (case vs of [] \<Rightarrow> ([], h) | v # ws \<Rightarrow> (ws, sv_dtor v h))"

definition owned :: "'a small_vector list \<Rightarrow> nat list" where
  "owned vs = concat (map addr vs)"

definition world_ok :: "nat \<Rightarrow> 'a sv_world \<Rightarrow> bool" where
  "world_ok S = (\<lambda>(vs, h). (\<forall>v \<in> set vs. sv_wf S v) \<and> heap_ok (owned vs) h)"

text \<open>The view of one vector: the blocks of the others are the frame.\<close>

definition others :: "'a small_vector list \<Rightarrow> nat \<Rightarrow> nat list" where
  "others vs i = owned (take i vs) @ owned (drop (Suc i) vs)"

lemma owned_simps [simp]: "owned [] = []" "owned (v # vs) = addr v @ owned vs"
  "owned (vs @ ws) = owned vs @ owned ws"
  by (simp_all add: owned_def)

lemma owned_update: "i < length vs \<Longrightarrow> mset (owned (vs[i := v])) = mset (addr v @ others vs i)"
  by (simp add: others_def upd_conv_take_nth_drop)

lemma owned_nth: "i < length vs \<Longrightarrow> mset (owned vs) = mset (addr (vs ! i) @ others vs i)"
  using owned_update [of i vs "vs ! i"] by simp

lemma world_view:
  assumes "world_ok S (vs, h)" and "i < length vs"
  shows "sv_ok S (others vs i) (vs ! i, h)"
  using assms heap_ok_mset [OF owned_nth [OF assms(2)]] by (simp add: world_ok_def sv_ok_def)

lemma world_update:
  assumes "world_ok S (vs, h)" and "i < length vs" and "sv_ok S (others vs i) (v, h')"
  shows "world_ok S (vs[i := v], h')"
  using assms heap_ok_mset [OF owned_update [OF assms(2), of v]]
  by (auto simp: world_ok_def sv_ok_def dest: set_update_subset_insert [THEN subsetD])

lemma move_blocks:
  assumes "i < length vs" and "j < length vs" and "i \<noteq> j"
  shows "mset (owned (vs[i := v, j := w])) + mset (addr (vs ! i)) + mset (addr (vs ! j)) =
    mset (owned vs) + mset (addr v) + mset (addr w)"
proof -
  have "mset (owned (vs[i := v, j := w])) + mset (addr (vs ! j)) = mset (owned (vs[i := v])) + mset (addr w)"
    using owned_update [of j "vs[i := v]" w] owned_nth [of j "vs[i := v]"] assms by simp
  moreover have "mset (owned (vs[i := v])) + mset (addr (vs ! i)) = mset (owned vs) + mset (addr v)"
    using owned_update [of i vs v] owned_nth [of i vs] assms by simp
  ultimately show ?thesis
    by (metis add.assoc add.commute)
qed

text \<open>
  In a move assignment from a vector in place, the branch that gives up a heap array that is too
  small is never taken: what fits in place fits every heap array.
\<close>

lemma move_assign_keeps_array:
  assumes "sv_wf S this" and "sv_wf S other" and "\<not> isAllocated other"
  shows "sv_move_assign S this other h = (this\<lparr>sv_elems := sv_elems other\<rparr>, other, h)"
  using assms by (auto simp: sv_wf_def sv_move_assign_def isAllocated_def split: storage.splits)

lemma move_assign_wf:
  assumes "sv_wf S this" and "sv_wf S other" and "sv_move_assign S this other h = (v, w, h')"
  shows "sv_wf S v \<and> sv_wf S w \<and> sv_elems v = sv_elems other"
  using assms
  by (auto simp: sv_move_assign_def isAllocated_def sv_wf_def init_inplace_def
      split: if_splits storage.splits)

lemma world_move:
  assumes ok: "world_ok S (vs, h)" and ij: "i < length vs" "j < length vs" "i \<noteq> j"
    and eq: "sv_move_assign S (vs ! i) (vs ! j) h = (v, w, h')"
  shows "world_ok S (vs[i := v, j := w], h')"
proof -
  note blocks = move_blocks [OF ij, of v w]
  have wf: "sv_wf S (vs ! i)" "sv_wf S (vs ! j)" using ok ij by (auto simp: world_ok_def)
  have heap: "heap_ok (owned (vs[i := v, j := w])) h'"
  proof (cases "isAllocated (vs ! j)")
    case True
    with eq have vw: "v = vs ! j" "w = init_inplace S" "h' = sv_dtor (vs ! i) h"
      by (auto simp: sv_move_assign_def)
    have "mset (owned vs) = mset (addr (vs ! i) @ owned (vs[i := v, j := w]))"
      using blocks by (simp add: vw add.commute)
    with ok have "heap_ok (addr (vs ! i) @ owned (vs[i := v, j := w])) h"
      by (metis (mono_tags, lifting) case_prod_conv heap_ok_mset world_ok_def)
    then show ?thesis by (simp add: vw heap_ok_dtor)
  next
    case False
    then have vw: "v = (vs ! i)\<lparr>sv_elems := sv_elems (vs ! j)\<rparr>" "w = vs ! j" "h' = h"
      using eq move_assign_keeps_array [OF wf False] by auto
    have "mset (owned vs) = mset (owned (vs[i := v, j := w]))"
      using blocks by (simp add: vw)
    with ok vw(3) show ?thesis
      by (metis (mono_tags, lifting) case_prod_conv heap_ok_mset world_ok_def)
  qed
  have "\<forall>x \<in> set (vs[i := v, j := w]). sv_wf S x"
    using ok move_assign_wf [OF wf eq] by (auto simp: world_ok_def dest!: set_update_subset_insert [THEN subsetD])
  with heap show ?thesis by (simp add: world_ok_def)
qed

lemma world_move_new:
  assumes ok: "world_ok S (vs, h)" and j: "j < length vs" and eq: "sv_move_ctor S (vs ! j) = (v, w)"
  shows "world_ok S (v # vs[j := w], h)"
proof -
  have wf: "sv_wf S (vs ! j)" using ok j by (auto simp: world_ok_def)
  have "mset (addr v) + mset (addr w) = mset (addr (vs ! j)) \<and> sv_wf S v \<and> sv_wf S w"
    using eq wf by (auto simp: sv_move_ctor_def isAllocated_def addr_def sv_wf_def init_inplace_def
        split: if_splits storage.splits)
  moreover from this have "mset (owned (v # vs[j := w])) = mset (owned vs)"
    using owned_update [OF j, of w] owned_nth [OF j] by simp
  moreover from this ok have "heap_ok (owned (v # vs[j := w])) h"
    using heap_ok_mset [of "owned (v # vs[j := w])" "owned vs" h] by (simp add: world_ok_def)
  ultimately show ?thesis
    using ok by (auto simp: world_ok_def dest!: set_update_subset_insert [THEN subsetD])
qed

lemma world_exec:
  assumes "world_ok S s"
  shows "world_ok S (sv_exec S fill cmd s)"
proof (cases s)
  case (Pair vs h)
  show ?thesis
  proof (cases cmd)
    case (On i op)
    then show ?thesis
      using assms Pair sv_step_ok [of S "others vs i" "vs ! i" h fill op]
      by (auto simp: world_view intro!: world_update split: prod.splits)
  next
    case Destroy
    then show ?thesis
      using assms Pair by (auto simp: world_ok_def heap_ok_dtor split: list.splits)
  qed (use assms Pair in \<open>auto simp: world_move world_move_new split: prod.splits\<close>,
       auto simp: world_ok_def)
qed

text \<open>
  C4. Any program over any number of \<open>SmallFixedVector\<close>s is memory safe: whatever vectors are
  created, filled, moved and destroyed, no block is freed that is not allocated, no two vectors own the
  same block, the blocks that are live are exactly those the existing vectors own, and the elements of
  every vector fit its array, which is larger than the in-place one when it is on the heap.
\<close>

theorem small_vectors_memory_safe:
  "let (vs, h) = fold (sv_exec S fill) cmds ([], heap_empty) in
     \<not> hp_bad h \<and> distinct (owned vs) \<and> mset (hp_live h) = mset (owned vs) \<and> list_all (sv_wf S) vs"
proof -
  have "world_ok S s \<Longrightarrow> world_ok S (fold (sv_exec S fill) cmds s)" for s
    by (induction cmds arbitrary: s) (simp_all add: world_exec)
  moreover have "world_ok S ([], heap_empty)"
    by (simp add: world_ok_def heap_ok_def heap_empty_def)
  ultimately have "world_ok S (fold (sv_exec S fill) cmds ([], heap_empty))" by blast
  then show ?thesis
    by (auto simp: world_ok_def heap_ok_def list_all_iff dest: mset_eq_imp_distinct_iff)
qed

end
