(* ===== verification/MessageChannel.thy ===== *)
theory MessageChannel
  imports BufferQueue
begin

text \<open>
  \<open>anbox::common::MessageChannel\<close> (\<open>src/anbox/common/message_channel.{cpp,h}\<close>): a blocking channel of
  fixed-size messages between two threads, a second ring buffer with an invariant of its own: it has no
  closed state, and the read position is moved after the message was copied out. The lock is taken in
  \<open>before_*\<close> and released in \<open>after_*\<close>, so that a \<open>send\<close> or a \<open>receive\<close> is one atomic step once it
  stops waiting.

  Shown here: the channel implements the interface of a bounded queue, and the channel and the
  \<open>BufferQueue\<close> of the same capacity cannot be told apart by a client that never closes the queue.
\<close>

record 'a message_channel =
  mc_pos :: nat
  mc_count :: nat
  mc_capacity :: nat
  mc_items :: "'a list"

definition message_channel_new :: "'a list \<Rightarrow> 'a message_channel" where
  "message_channel_new items = \<lparr>mc_pos = 0, mc_count = 0, mc_capacity = length items, mc_items = items\<rparr>"

definition before_write :: "'a message_channel \<Rightarrow> nat blocking" where
  "before_write c =
     (if mc_count c \<ge> mc_capacity c then Waits
      else Returns (ring_index (mc_capacity c) (mc_pos c + mc_count c)))"

definition after_write :: "'a message_channel \<Rightarrow> 'a message_channel" where
  "after_write c = c\<lparr>mc_count := mc_count c + 1\<rparr>"

definition before_read :: "'a message_channel \<Rightarrow> nat blocking" where
  "before_read c = (if mc_count c = 0 then Waits else Returns (mc_pos c))"

definition after_read :: "'a message_channel \<Rightarrow> 'a message_channel" where
  "after_read c =
     (let pos = mc_pos c + 1 in
      c\<lparr>mc_pos := (if pos = mc_capacity c then 0 else pos), mc_count := mc_count c - 1\<rparr>)"

definition mc_send :: "'a \<Rightarrow> 'a message_channel \<Rightarrow> 'a message_channel blocking" where
  "mc_send msg c =
     (case before_write c of
        Waits \<Rightarrow> Waits
      | Returns pos \<Rightarrow> Returns (after_write (c\<lparr>mc_items := (mc_items c)[pos := msg]\<rparr>)))"

definition mc_receive :: "'a message_channel \<Rightarrow> ('a \<times> 'a message_channel) blocking" where
  "mc_receive c =
     (case before_read c of
        Waits \<Rightarrow> Waits
      | Returns pos \<Rightarrow> Returns (mc_items c ! pos, after_read c))"

lemmas mc_ops = before_write_def after_write_def before_read_def after_read_def mc_send_def mc_receive_def

section \<open>The queue interface\<close>

definition mc_inv :: "'a message_channel \<Rightarrow> bool" where
  "mc_inv c \<longleftrightarrow> length (mc_items c) = mc_capacity c \<and> mc_count c \<le> mc_capacity c \<and>
     (mc_pos c < mc_capacity c \<or> mc_capacity c = 0)"

definition mc_contents :: "'a message_channel \<Rightarrow> 'a list" where
  "mc_contents c = ring_contents (mc_capacity c) (mc_pos c) (mc_count c) (mc_items c)"

definition mc_put :: "'a \<Rightarrow> 'a message_channel \<Rightarrow> 'a message_channel option" where
  "mc_put x c = (case mc_send x c of Waits \<Rightarrow> None | Returns c' \<Rightarrow> Some c')"

definition mc_get :: "'a message_channel \<Rightarrow> ('a \<times> 'a message_channel) option" where
  "mc_get c = (case mc_receive c of Waits \<Rightarrow> None | Returns r \<Rightarrow> Some r)"

lemmas mc_defs = mc_ops mc_inv_def mc_contents_def mc_put_def mc_get_def

lemma mc_put_room:
  assumes "mc_inv c" and "mc_put x c = Some c'"
  shows "mc_inv c' \<and> mc_contents c' = mc_contents c @ [x] \<and> mc_capacity c' = mc_capacity c"
proof -
  have "mc_pos c + mc_count c < 2 * mc_capacity c"
    using assms by (auto simp: mc_defs split: if_splits)
  then show ?thesis
    using assms by (auto simp: mc_defs ring_index_mod ring_contents_push split: if_splits)
qed

lemma mc_get_some:
  assumes "mc_inv c" and "mc_get c = Some (x, c')"
  shows "mc_inv c' \<and> mc_contents c = x # mc_contents c' \<and> mc_capacity c' = mc_capacity c"
proof -
  obtain n where n: "mc_count c = Suc n"
    using assms by (cases "mc_count c") (auto simp: mc_defs)
  have pos: "mc_pos c < mc_capacity c" using assms n by (auto simp: mc_defs)
  have "(if mc_pos c + 1 = mc_capacity c then 0 else mc_pos c + 1) = Suc (mc_pos c) mod mc_capacity c"
    using pos by (auto simp: mod_Suc)
  then show ?thesis
    using assms n pos by (auto simp: mc_defs Let_def ring_contents_pop)
qed

interpretation mcf: bounded_fifo mc_inv mc_contents mc_capacity mc_put mc_get
proof
  fix c c' :: "'a message_channel" and x :: 'a
  show "mc_inv c \<Longrightarrow> mc_put x c = Some c' \<Longrightarrow> mc_inv c'"
    using mc_put_room [of c x c'] by simp
  show "mc_inv c \<Longrightarrow> mc_put x c = Some c' \<Longrightarrow> mc_contents c' = mc_contents c @ [x]"
    using mc_put_room [of c x c'] by simp
  show "mc_inv c \<Longrightarrow> mc_get c = Some (x, c') \<Longrightarrow> mc_inv c'"
    using mc_get_some [of c x c'] by simp
  show "mc_inv c \<Longrightarrow> mc_get c = Some (x, c') \<Longrightarrow> mc_contents c = x # mc_contents c'"
    using mc_get_some [of c x c'] by simp
  show "mc_inv c \<Longrightarrow> mc_get c = None \<longleftrightarrow> mc_contents c = []"
    by (cases "mc_count c") (simp_all add: mc_defs ring_contents_pop)
  show "mc_inv c \<Longrightarrow> length (mc_contents c) = mc_capacity c \<Longrightarrow> mc_put x c = None"
    by (simp add: mc_defs)
  show "mc_inv c \<Longrightarrow> length (mc_contents c) \<le> mc_capacity c"
    by (simp add: mc_defs)
  show "mc_put x c = Some c' \<Longrightarrow> mc_capacity c' = mc_capacity c"
    by (auto simp: mc_defs split: if_splits)
  show "mc_get c = Some (x, c') \<Longrightarrow> mc_capacity c' = mc_capacity c"
    by (auto simp: mc_defs Let_def split: if_splits)
qed

section \<open>Properties\<close>

lemma two_rings_agree:
  assumes "mc_inv c" and "bq_inv q" and "mc_contents c = bq_contents q"
    and "mc_capacity c = bq_capacity q" and "\<not> bq_closed q"
  shows "case (fifo_run mc_put mc_get ops c, fifo_run bq_put bq_get ops q) of
    ((acc, del, c'), (acc', del', q')) \<Rightarrow> acc = acc' \<and> del = del' \<and> mc_contents c' = bq_contents q'"
  using assms
proof (induction ops arbitrary: c q)
  case Nil
  then show ?case by simp
next
  case (Cons op ops)
  have count: "mc_count c = bq_count q"
    using arg_cong [OF Cons.prems(3), of length] by (simp add: mc_contents_def)
  show ?case
  proof (cases op)
    case (Put x)
    show ?thesis
    proof (cases "bq_count q < bq_capacity q")
      case False
      then have "mc_put x c = None" "bq_put x q = None"
        using Cons.prems count by (auto simp: mc_defs bq_put_eq)
      with Cons Put show ?thesis by simp
    next
      case True
      then obtain c' q' where put: "mc_put x c = Some c'" "bq_put x q = Some q'"
        using Cons.prems count by (auto simp: mc_defs bq_put_eq)
      moreover have "\<not> bq_closed q'" using put(2) Cons.prems(5) by (auto simp: bq_put_eq split: if_splits)
      ultimately show ?thesis
        using Cons.IH [of c' q'] mc_put_room [OF Cons.prems(1) put(1)] Cons.prems Put
          bqf.invar_put [OF _ put(2)] bqf.contents_put [OF _ put(2)] bqf.cap_put [OF put(2)]
        by (auto split: prod.splits)
    qed
  next
    case Get
    show ?thesis
    proof (cases "bq_count q = 0")
      case True
      then have "mc_get c = None" "bq_get q = None"
        using count by (auto simp: mc_defs bq_get_eq)
      with Cons Get show ?thesis by simp
    next
      case False
      then obtain x y c' q' where get: "mc_get c = Some (x, c')" "bq_get q = Some (y, q')"
        using count by (auto simp: mc_defs bq_get_eq)
      moreover have "\<not> bq_closed q'" using get(2) Cons.prems(5) by (auto simp: bq_get_eq split: if_splits)
      ultimately show ?thesis
        using Cons.IH [of c' q'] mc_get_some [OF Cons.prems(1) get(1)] Cons.prems Get
          bqf.invar_get [OF _ get(2)] bqf.contents_get [OF _ get(2)] bqf.cap_get [OF get(2)]
        by (auto split: prod.splits)
    qed
  qed
qed

text \<open>
  C5. The channel and a \<open>BufferQueue\<close> of the same capacity accept and deliver the same messages on every
  sequence of requests, and messages leave the channel in the order in which they were sent: the two
  rings, which compute their indices differently, implement one contract.
\<close>

theorem message_channel_equals_buffer_queue:
  "case (fifo_run mc_put mc_get ops (message_channel_new items),
         fifo_run bq_put bq_get ops (buffer_queue_new d (length items))) of
     ((acc, del, c), (acc', del', q)) \<Rightarrow>
       acc = acc' \<and> del = del' \<and> mc_contents c = bq_contents q \<and> acc = del @ mc_contents c"
proof -
  have new: "mc_inv (message_channel_new items)" "mc_contents (message_channel_new items) = []"
    by (auto simp: mc_defs message_channel_new_def)
  obtain acc del c where run: "fifo_run mc_put mc_get ops (message_channel_new items) = (acc, del, c)"
    by (cases "fifo_run mc_put mc_get ops (message_channel_new items)") auto
  show ?thesis
    using two_rings_agree [of "message_channel_new items" "buffer_queue_new d (length items)" ops]
      mcf.run_laws [OF new(1) run] new run
    by (auto simp: message_channel_new_def split: prod.splits)
qed

end
