(* ===== verification/BufferedIOStream.thy ===== *)
theory BufferedIOStream
  imports BufferQueue SmallVector
begin

text \<open>
  \<open>anbox::graphics::BufferedIOStream\<close> (\<open>src/anbox/graphics/buffered_io_stream.cpp\<close>): the byte stream
  between a render thread and the guest. Incoming data is posted as buffers to \<open>in_queue_\<close> and read as
  bytes; outgoing bytes are gathered in \<open>write_buffer_\<close> by the base class \<open>IOStream\<close>, committed as
  buffers to \<open>out_queue_\<close>, and sent by the worker thread.

  Buffers inside a queue are represented by their elements (\<open>small_vector_is_list\<close> says why that is
  enough); \<open>write_buffer_\<close> is the vector itself, because \<open>commitBuffer\<close> does different things for a
  vector in place and one on the heap. The two directions have no state in common and are two records.

  Shown here: no byte is lost, duplicated or reordered in either direction, through any split into
  buffers and any partial writes of the socket; a read blocks only when there is nothing to return.
\<close>

section \<open>Reading\<close>

record read_side =
  rs_buffer :: "byte list"
  rs_left :: nat
  rs_queue :: "byte list buffer_queue"

datatype read_result =
    Read_Waits read_side                  \<comment> \<open>the thread sleeps in \<open>pop_locked\<close>\<close>
  | Read_Null read_side                   \<comment> \<open>\<open>nullptr\<close>\<close>
  | Read_Data "byte list" read_side       \<comment> \<open>the bytes stored at \<open>buf\<close>; \<open>*inout_len\<close> is their number\<close>

definition read_side_new :: read_side where
  "read_side_new = \<lparr>rs_buffer = [], rs_left = 0, rs_queue = buffer_queue_new [] 1024\<rparr>"

text \<open>
  The loop of \<open>read\<close>; \<open>got\<close> is what has been copied to \<open>buf\<close> so far. Only a pop with nothing copied
  yet may wait, so a woken thread continues from the state of the wait with an empty \<open>got\<close>.
\<close>

function read_loop :: "nat \<Rightarrow> byte list \<Rightarrow> read_side \<Rightarrow> read_result" where
  "read_loop wanted got s =
     (if length got < wanted
      then if rs_left s > 0
           then let avail = min (wanted - length got) (rs_left s);
                    start = length (rs_buffer s) - rs_left s
                in read_loop wanted (got @ take avail (drop start (rs_buffer s)))
                     (s\<lparr>rs_left := rs_left s - avail\<rparr>)
           else case (if got = [] then pop_locked (rs_queue s) else Returns (try_pop_locked (rs_queue s))) of
               Waits \<Rightarrow> Read_Waits s
             | Returns (result, popped, _, q) \<Rightarrow>
                 (case (result, popped) of
                    (BQ_OK, Some b) \<Rightarrow>
                      read_loop wanted got (s\<lparr>rs_buffer := b, rs_left := length b, rs_queue := q\<rparr>)
                  | _ \<Rightarrow> if got \<noteq> [] then Read_Data got s else Read_Null s)
      else Read_Data got s)"
  by pat_completeness auto
termination
  by (relation "inv_image (less_than <*lex*> less_than) (\<lambda>(wanted, got, s). (bq_count (rs_queue s), rs_left s))")
     (auto simp: bq_ops split: if_splits)

declare read_loop.simps [simp del]

definition read :: "nat \<Rightarrow> read_side \<Rightarrow> read_result" where
  "read wanted s = read_loop wanted [] s"

definition post_data :: "byte list \<Rightarrow> read_side \<Rightarrow> read_side blocking" where
  "post_data data s =
     (case push_locked data (rs_queue s) of
        Waits \<Rightarrow> Waits
      | Returns (_, _, q) \<Rightarrow> Returns (s\<lparr>rs_queue := q\<rparr>))"

definition needs_data :: "read_side \<Rightarrow> bool" where
  "needs_data s \<longleftrightarrow> \<not> can_pop_locked (rs_queue s)"

definition rs_inv :: "read_side \<Rightarrow> bool" where
  "rs_inv s \<longleftrightarrow> rs_left s \<le> length (rs_buffer s) \<and> bq_inv (rs_queue s)"

text \<open>The bytes that have been posted and not been read.\<close>

definition unread :: "read_side \<Rightarrow> byte list" where
  "unread s = drop (length (rs_buffer s) - rs_left s) (rs_buffer s) @ concat (bq_contents (rs_queue s))"


text \<open>The cases of one round of the loop.\<close>

lemma read_loop_done: "\<not> length got < wanted \<Longrightarrow> read_loop wanted got s = Read_Data got s"
  by (subst read_loop.simps) simp

lemma read_loop_copy:
  "length got < wanted \<Longrightarrow> rs_left s > 0 \<Longrightarrow>
   read_loop wanted got s =
     read_loop wanted
       (got @ take (min (wanted - length got) (rs_left s))
                (drop (length (rs_buffer s) - rs_left s) (rs_buffer s)))
       (s\<lparr>rs_left := rs_left s - min (wanted - length got) (rs_left s)\<rparr>)"
  by (subst read_loop.simps) (simp add: Let_def)

lemma read_loop_empty:
  "length got < wanted \<Longrightarrow> rs_left s = 0 \<Longrightarrow> bq_count (rs_queue s) = 0 \<Longrightarrow>
   read_loop wanted got s =
     (if got \<noteq> [] then Read_Data got s else if bq_closed (rs_queue s) then Read_Null s else Read_Waits s)"
  by (subst read_loop.simps) (auto simp: bq_ops)

lemma read_loop_pop:
  "length got < wanted \<Longrightarrow> rs_left s = 0 \<Longrightarrow> bq_get (rs_queue s) = Some (b, q) \<Longrightarrow>
   read_loop wanted got s =
     read_loop wanted got (s\<lparr>rs_buffer := b, rs_left := length b, rs_queue := q\<rparr>)"
  by (subst read_loop.simps) (auto simp: bq_ops bq_get_eq split: if_splits)

fun read_ok :: "nat \<Rightarrow> byte list \<Rightarrow> read_side \<Rightarrow> read_result \<Rightarrow> bool" where
  "read_ok wanted got s (Read_Data bs t) \<longleftrightarrow>
     rs_inv t \<and> bs @ unread t = got @ unread s \<and> length bs \<le> max wanted (length got) \<and>
     (length bs < wanted \<longrightarrow> unread t = [] \<and> bs \<noteq> [])"
| "read_ok wanted got s (Read_Null t) \<longleftrightarrow>
     rs_inv t \<and> unread t = [] \<and> got = [] \<and> unread s = [] \<and> bq_closed (rs_queue t)"
| "read_ok wanted got s (Read_Waits t) \<longleftrightarrow>
     rs_inv t \<and> unread t = [] \<and> got = [] \<and> unread s = [] \<and> \<not> bq_closed (rs_queue t) \<and>
     bq_count (rs_queue t) = 0"

lemma read_ok_transfer:
  assumes "read_ok wanted got' s' r" and "got' @ unread s' = got @ unread s"
    and "length got' \<le> max wanted (length got)"
  shows "read_ok wanted got s r"
  using assms by (cases r) auto

lemma read_loop_ok: "rs_inv s \<Longrightarrow> read_ok wanted got s (read_loop wanted got s)"
proof (induction wanted got s rule: read_loop.induct)
  case (1 wanted got s)
  show ?case
  proof (cases "length got < wanted")
    case False
    with 1 show ?thesis by (simp add: read_loop_done)
  next
    case more: True
    show ?thesis
    proof (cases "rs_left s > 0")
      case True
      let ?n = "min (wanted - length got) (rs_left s)" and ?st = "length (rs_buffer s) - rs_left s"
      let ?t = "s\<lparr>rs_left := rs_left s - ?n\<rparr>"
      have "rs_inv ?t" using "1.prems" by (auto simp: rs_inv_def)
      with "1.IH"(1) [OF more True refl refl]
      have "read_ok wanted (got @ take ?n (drop ?st (rs_buffer s))) ?t (read_loop wanted got s)"
        by (simp add: read_loop_copy [OF more True])
      moreover have "take ?n (drop ?st (rs_buffer s)) @ unread ?t = unread s"
      proof -
        have "length (rs_buffer s) - (rs_left s - ?n) = ?n + ?st"
          using "1.prems" by (auto simp: rs_inv_def)
        then have "drop (length (rs_buffer s) - (rs_left s - ?n)) (rs_buffer s) =
            drop ?n (drop ?st (rs_buffer s))"
          by (simp only: drop_drop)
        then have "unread ?t = drop ?n (drop ?st (rs_buffer s)) @ concat (bq_contents (rs_queue s))"
          by (simp only: unread_def) simp
        then show ?thesis by (metis append_assoc append_take_drop_id unread_def)
      qed
      moreover have "length (got @ take ?n (drop ?st (rs_buffer s))) \<le> max wanted (length got)"
        using more by simp
      ultimately show ?thesis
        by (metis (no_types, lifting) append_assoc read_ok_transfer)
    next
      case False
      show ?thesis
      proof (cases "bq_get (rs_queue s)")
        case None
        then have empty: "bq_count (rs_queue s) = 0" by (simp add: bq_get_eq split: if_splits)
        with False have "unread s = []" by (simp add: unread_def bq_contents_def)
        with "1.prems" empty more False show ?thesis by (simp add: read_loop_empty)
      next
        case (Some r)
        then obtain b q where get: "bq_get (rs_queue s) = Some (b, q)" by (cases r) auto
        let ?t = "s\<lparr>rs_buffer := b, rs_left := length b, rs_queue := q\<rparr>"
        have inv: "bq_inv (rs_queue s)" using "1.prems" by (simp add: rs_inv_def)
        have "unread ?t = unread s" and "rs_inv ?t"
          using bqf.contents_get [OF inv get] bqf.invar_get [OF inv get] False
          by (auto simp: unread_def rs_inv_def)
        moreover have "read_ok wanted got ?t (read_loop wanted got s)"
          using "1.IH"(2) [OF more False] get \<open>rs_inv ?t\<close> more False
          by (auto simp: read_loop_pop bq_get_eq bq_ops split: if_splits)
        ultimately show ?thesis by (auto intro: read_ok_transfer)
      qed
    qed
  qed
qed

text \<open>A session on the incoming side; \<open>Stop\<close> is \<open>forceStop\<close>. Collects what was posted and what was read.\<close>

datatype in_op = Post "byte list" | Read nat | Stop

definition stop_reading :: "read_side \<Rightarrow> read_side" where
  "stop_reading s = s\<lparr>rs_queue := snd (close_locked (rs_queue s))\<rparr>"

fun in_step :: "in_op \<Rightarrow> read_side \<Rightarrow> byte list \<times> byte list \<times> read_side" where
  "in_step (Post data) s =
     (case post_data data s of
        Waits \<Rightarrow> ([], [], s)
      | Returns t \<Rightarrow> (if bq_closed (rs_queue s) then [] else data, [], t))"
| "in_step (Read n) s =
     (case read n s of Read_Waits t \<Rightarrow> ([], [], t) | Read_Null t \<Rightarrow> ([], [], t) | Read_Data bs t \<Rightarrow> ([], bs, t))"
| "in_step Stop s = ([], [], stop_reading s)"

fun in_run :: "in_op list \<Rightarrow> read_side \<Rightarrow> byte list \<times> byte list \<times> read_side" where
  "in_run [] s = ([], [], s)"
| "in_run (op # ops) s =
     (case in_step op s of (p, g, s') \<Rightarrow> (case in_run ops s' of (p', g', t) \<Rightarrow> (p @ p', g @ g', t)))"

lemma post_data_ok:
  assumes "rs_inv s"
  shows "case post_data data s of Waits \<Rightarrow> True
    | Returns t \<Rightarrow> rs_inv t \<and> unread t = unread s @ (if bq_closed (rs_queue s) then [] else data)"
proof (cases "bq_closed (rs_queue s) \<or> bq_capacity (rs_queue s) \<le> bq_count (rs_queue s)")
  case True
  with assms show ?thesis by (auto simp: post_data_def bq_ops rs_inv_def bq_inv_def)
next
  case False
  then obtain q where put: "bq_put data (rs_queue s) = Some q" by (auto simp: bq_put_eq)
  have inv: "bq_inv (rs_queue s)" using assms by (simp add: rs_inv_def)
  note bqf.invar_put [OF inv put] bqf.contents_put [OF inv put]
  moreover have "post_data data s = Returns (s\<lparr>rs_queue := q\<rparr>)"
    using False put by (auto simp: post_data_def bq_ops bq_put_eq)
  ultimately show ?thesis using assms False by (simp add: rs_inv_def unread_def)
qed

lemma in_step_ok:
  assumes "rs_inv s"
  shows "case in_step op s of (p, g, t) \<Rightarrow> rs_inv t \<and> unread s @ p = g @ unread t"
proof (cases op)
  case (Post data)
  with post_data_ok [OF assms, of data] assms show ?thesis by (auto split: blocking.splits)
next
  case (Read n)
  with read_loop_ok [OF assms, of n "[]"] show ?thesis
    by (auto simp: read_def split: read_result.splits)
next
  case Stop
  with assms show ?thesis
    by (simp add: stop_reading_def close_locked_def rs_inv_def bq_inv_def unread_def bq_contents_def)
qed

lemma in_run_ok:
  "rs_inv s \<Longrightarrow> case in_run ops s of (p, g, t) \<Rightarrow> rs_inv t \<and> unread s @ p = g @ unread t"
proof (induction ops arbitrary: s)
  case Nil
  then show ?case by simp
next
  case (Cons op ops)
  obtain p g s' where step: "in_step op s = (p, g, s')" by (cases "in_step op s") auto
  with in_step_ok [OF Cons.prems, of op] have "rs_inv s'" "unread s @ p = g @ unread s'" by auto
  with Cons.IH [of s'] step show ?case
    by (auto split: prod.splits) (metis append_assoc)
qed

lemma rs_inv_new: "rs_inv read_side_new" and unread_new: "unread read_side_new = []"
  by (simp_all add: rs_inv_def read_side_new_def unread_def)

text \<open>
  C6. The incoming half of the stream: after any sequence of posts, reads and a stop, the bytes read
  so far followed by those still unread are exactly the bytes posted, in order. From there, \<open>read\<close> of
  \<open>n\<close> bytes returns the next \<open>n\<close> bytes, or all there are when there are fewer; it sleeps only when
  nothing is there and the stream is open, and fails only when nothing is there and the stream is
  stopped.
\<close>

theorem buffered_stream_reads_in_order:
  "case in_run ops read_side_new of (posted, got, s) \<Rightarrow>
     posted = got @ unread s \<and>
     (case read n s of
        Read_Data bs t \<Rightarrow>
          bs = take n (unread s) \<and> unread t = drop n (unread s) \<and> (if unread s = [] then n = 0 else True)
      | Read_Waits t \<Rightarrow> unread s = [] \<and> \<not> bq_closed (rs_queue t)
      | Read_Null t \<Rightarrow> unread s = [] \<and> bq_closed (rs_queue t))"
proof -
  obtain p g s where run: "in_run ops read_side_new = (p, g, s)"
    by (cases "in_run ops read_side_new") auto
  with in_run_ok [OF rs_inv_new, of ops] have inv: "rs_inv s" and eq: "p = g @ unread s"
    by (auto simp: unread_new)
  have data: "bs = take n (unread s) \<and> unread t = drop n (unread s) \<and> (if unread s = [] then n = 0 else True)"
    if "read_ok n [] s (Read_Data bs t)" for bs t
  proof -
    have u: "unread s = bs @ unread t" using that by simp
    have "length bs \<le> n" and "length bs < n \<Longrightarrow> unread t = [] \<and> bs \<noteq> []" using that by auto
    then show ?thesis unfolding u by (cases "length bs < n") auto
  qed
  have ok: "read_ok n [] s (read n s)" using read_loop_ok [OF inv] by (simp add: read_def)
  show ?thesis
  proof (cases "read n s")
    case (Read_Data bs t)
    with data [of bs t] ok eq run show ?thesis by (simp del: read_ok.simps)
  qed (use ok eq run in simp_all)
qed

section \<open>Writing\<close>

text \<open>
  The fields of the base class \<open>IOStream\<close> and those of the outgoing half of the stream. \<open>m_buf\<close> is
  either null or points to the data of \<open>write_buffer_\<close>, so a flag is enough for it. Sizes are taken
  to be below \<open>2\<^sup>3\<^sup>1\<close>, where the conversions of \<open>size_t\<close> to \<open>int\<close> in \<open>IOStream\<close> are exact.
\<close>

record write_side =
  m_buf :: bool
  m_bufsize :: nat
  m_free :: nat
  ws_buffer :: "byte small_vector"
  ws_heap :: heap
  ws_queue :: "byte list buffer_queue"

datatype 'a outcome = Done 'a | Blocked | Failed fault

fun and_then :: "'a outcome \<Rightarrow> ('a \<Rightarrow> 'b outcome) \<Rightarrow> 'b outcome" where
  "and_then (Done x) f = f x"
| "and_then Blocked f = Blocked"
| "and_then (Failed e) f = Failed e"

abbreviation buffer_in_place :: nat where
  "buffer_in_place \<equiv> 512"

definition resize_noinit :: "(nat \<Rightarrow> byte) \<Rightarrow> nat \<Rightarrow> write_side \<Rightarrow> write_side" where
  "resize_noinit mem n s =
     (case resize_impl mem n (ws_buffer s, ws_heap s) of (v, h) \<Rightarrow> s\<lparr>ws_buffer := v, ws_heap := h\<rparr>)"

definition write_side_new :: "(nat \<Rightarrow> byte) \<Rightarrow> nat \<Rightarrow> write_side" where
  "write_side_new mem buffer_size = resize_noinit mem buffer_size
     \<lparr>m_buf = False, m_bufsize = buffer_size, m_free = 0, ws_buffer = init_inplace buffer_in_place,
      ws_heap = heap_empty, ws_queue = buffer_queue_new [] 16\<rparr>"

text \<open>\<open>mem\<close> is what uninitialised memory holds.\<close>

definition allocBuffer :: "(nat \<Rightarrow> byte) \<Rightarrow> nat \<Rightarrow> write_side \<Rightarrow> write_side" where
  "allocBuffer mem min_size s =
     (if length (sv_elems (ws_buffer s)) < min_size then resize_noinit mem min_size s else s)"

definition push_out :: "byte list \<Rightarrow> write_side \<Rightarrow> (bq_code \<times> write_side) outcome" where
  "push_out data s =
     (case push_locked data (ws_queue s) of
        Waits \<Rightarrow> Blocked
      | Returns (c, _, q) \<Rightarrow> Done (c, s\<lparr>ws_queue := q\<rparr>))"

text \<open>
  A buffer on the heap is moved into the queue, which leaves \<open>write_buffer_\<close> empty and in place; when
  the queue refuses it, it is not moved. A buffer in place is copied. \<open>resize\<close> never enlarges here.
\<close>

definition commitBuffer :: "nat \<Rightarrow> write_side \<Rightarrow> write_side outcome" where
  "commitBuffer sz s =
     (if sz > length (sv_elems (ws_buffer s)) then Failed (Logic_Error ''assert'')
      else if isAllocated (ws_buffer s)
      then let t = resize_noinit (\<lambda>_. 0) sz s
           in and_then (push_out (sv_elems (ws_buffer t)) t) (\<lambda>(c, u).
                Done (if c = BQ_OK then u\<lparr>ws_buffer := init_inplace buffer_in_place\<rparr> else u))
      else and_then (push_out (take sz (sv_elems (ws_buffer s))) s) (\<lambda>(c, u). Done u))"

definition flush :: "write_side \<Rightarrow> write_side outcome" where
  "flush s =
     (if \<not> m_buf s \<or> m_free s = m_bufsize s then Done s
      else and_then (commitBuffer (m_bufsize s - m_free s) s) (\<lambda>t. Done (t\<lparr>m_buf := False, m_free := 0\<rparr>)))"

text \<open>\<open>alloc\<close> returns the offset of the pointer into \<open>write_buffer_\<close>.\<close>

definition alloc :: "(nat \<Rightarrow> byte) \<Rightarrow> nat \<Rightarrow> write_side \<Rightarrow> (nat \<times> write_side) outcome" where
  "alloc mem len s =
     and_then (if m_buf s \<and> len > m_free s then flush s else Done s) (\<lambda>t.
       let u = (if \<not> m_buf t \<or> len > m_bufsize t
                then let allocLen = (if m_bufsize t < len then len else m_bufsize t)
                     in (allocBuffer mem allocLen t)\<lparr>m_buf := True, m_bufsize := allocLen, m_free := allocLen\<rparr>
                else t)
       in Done (m_bufsize u - m_free u, u\<lparr>m_free := m_free u - len\<rparr>))"

text \<open>What the encoders do with the pointer: store \<open>data\<close> there. A store outside the buffer is a fault.\<close>

definition store_at :: "nat \<Rightarrow> byte list \<Rightarrow> write_side \<Rightarrow> write_side outcome" where
  "store_at off data s =
     (let xs = sv_elems (ws_buffer s) in
      if off + length data > length xs then Failed Undefined
      else Done (s\<lparr>ws_buffer := (ws_buffer s)\<lparr>sv_elems := take off xs @ data @ drop (off + length data) xs\<rparr>\<rparr>))"

definition stream_write :: "(nat \<Rightarrow> byte) \<Rightarrow> byte list \<Rightarrow> write_side \<Rightarrow> write_side outcome" where
  "stream_write mem data s =
     and_then (alloc mem (length data) s) (\<lambda>(off, t). store_at off data t)"

text \<open>One buffer is taken by the worker.\<close>

definition take_out :: "write_side \<Rightarrow> (byte list \<times> write_side) outcome" where
  "take_out s =
     (case pop_locked (ws_queue s) of
        Returns (BQ_OK, Some b, _, q) \<Rightarrow> Done (b, s\<lparr>ws_queue := q\<rparr>)
      | _ \<Rightarrow> Blocked)"

definition ws_inv :: "write_side \<Rightarrow> bool" where
  "ws_inv s \<longleftrightarrow> bq_inv (ws_queue s) \<and> \<not> bq_closed (ws_queue s) \<and> m_free s \<le> m_bufsize s \<and>
     (m_buf s \<longrightarrow> m_bufsize s \<le> length (sv_elems (ws_buffer s)))"

text \<open>The bytes written and not yet taken by the worker.\<close>

definition unsent :: "write_side \<Rightarrow> byte list" where
  "unsent s = concat (bq_contents (ws_queue s)) @
     (if m_buf s then take (m_bufsize s - m_free s) (sv_elems (ws_buffer s)) else [])"

lemma resize_elems:
  "sv_elems (fst (resize_impl f n (v, h))) = take n (sv_elems v) @ map f [length (sv_elems v)..<n]"
  by (auto simp: resize_impl_def grow_for_size_def set_capacity_def sv_append_def malloc_def)

lemma resize_noinit_simps [simp]:
  "sv_elems (ws_buffer (resize_noinit f n s)) =
     take n (sv_elems (ws_buffer s)) @ map f [length (sv_elems (ws_buffer s))..<n]"
  "m_buf (resize_noinit f n s) = m_buf s" "m_bufsize (resize_noinit f n s) = m_bufsize s"
  "m_free (resize_noinit f n s) = m_free s" "ws_queue (resize_noinit f n s) = ws_queue s"
  using resize_elems [of f n "ws_buffer s" "ws_heap s"]
  by (auto simp: resize_noinit_def split: prod.splits)

lemma push_out_ok:
  assumes "bq_inv (ws_queue s)" and "\<not> bq_closed (ws_queue s)"
  shows "push_out data s = Blocked \<or> (\<exists>q. push_out data s = Done (BQ_OK, s\<lparr>ws_queue := q\<rparr>) \<and>
    bq_inv q \<and> \<not> bq_closed q \<and> bq_contents q = bq_contents (ws_queue s) @ [data])"
proof (cases "bq_put data (ws_queue s)")
  case None
  with assms have "push_out data s = Blocked"
    by (auto simp: push_out_def bq_ops bq_put_eq bq_inv_def split: if_splits)
  then show ?thesis ..
next
  case (Some q)
  then have "push_out data s = Done (BQ_OK, s\<lparr>ws_queue := q\<rparr>)" "\<not> bq_closed q"
    using assms by (auto simp: push_out_def bq_ops bq_put_eq bq_inv_def split: if_splits)
  then show ?thesis
    using bqf.invar_put [OF assms(1) Some] bqf.contents_put [OF assms(1) Some] by auto
qed

lemma commitBuffer_ok:
  assumes "ws_inv s" and "sz \<le> length (sv_elems (ws_buffer s))"
  shows "commitBuffer sz s = Blocked \<or> (\<exists>t. commitBuffer sz s = Done t \<and>
    bq_inv (ws_queue t) \<and> \<not> bq_closed (ws_queue t) \<and> m_bufsize t = m_bufsize s \<and>
    concat (bq_contents (ws_queue t)) =
      concat (bq_contents (ws_queue s)) @ take sz (sv_elems (ws_buffer s)))"
proof -
  have q: "bq_inv (ws_queue s)" "\<not> bq_closed (ws_queue s)" using assms by (auto simp: ws_inv_def)
  show ?thesis
    using push_out_ok [OF q, of "take sz (sv_elems (ws_buffer s))"]
      push_out_ok [of "resize_noinit (\<lambda>_. 0) sz s" "take sz (sv_elems (ws_buffer s))"] q assms(2)
    by (auto simp: commitBuffer_def Let_def)
qed

lemma flush_ok:
  assumes "ws_inv s"
  shows "flush s = Blocked \<or> (\<exists>t. flush s = Done t \<and> ws_inv t \<and> unsent t = unsent s \<and>
    (m_buf t \<longrightarrow> m_free t = m_bufsize t))"
proof (cases "\<not> m_buf s \<or> m_free s = m_bufsize s")
  case True
  with assms show ?thesis by (auto simp: flush_def)
next
  case False
  with assms have "m_bufsize s - m_free s \<le> length (sv_elems (ws_buffer s))"
    by (auto simp: ws_inv_def)
  from commitBuffer_ok [OF assms this] False show ?thesis
    by (auto simp: flush_def ws_inv_def unsent_def)
qed

definition prepared :: "(nat \<Rightarrow> byte) \<Rightarrow> nat \<Rightarrow> write_side \<Rightarrow> write_side" where
  "prepared mem len t =
     (if \<not> m_buf t \<or> len > m_bufsize t
      then (allocBuffer mem (max len (m_bufsize t)) t)
             \<lparr>m_buf := True, m_bufsize := max len (m_bufsize t), m_free := max len (m_bufsize t)\<rparr>
      else t)"

lemma alloc_prepared:
  "alloc mem len s = and_then (if m_buf s \<and> len > m_free s then flush s else Done s)
     (\<lambda>t. Done (m_bufsize (prepared mem len t) - m_free (prepared mem len t),
                (prepared mem len t)\<lparr>m_free := m_free (prepared mem len t) - len\<rparr>))"
  unfolding alloc_def prepared_def Let_def by (intro arg_cong2 [of _ _ _ _ and_then] refl ext) (auto simp: max_def)

text \<open>When an existing buffer is too small for the request, nothing has been written to it.\<close>

lemma prepared_ok:
  assumes "ws_inv t" and "m_buf t \<Longrightarrow> len > m_free t \<Longrightarrow> m_free t = m_bufsize t"
  shows "ws_inv (prepared mem len t)" and "m_buf (prepared mem len t)"
    and "len \<le> m_free (prepared mem len t)" and "unsent (prepared mem len t) = unsent t"
proof -
  show "m_buf (prepared mem len t)" by (simp add: prepared_def)
  show "len \<le> m_free (prepared mem len t)" using assms by (fastforce simp: prepared_def)
  show "ws_inv (prepared mem len t)"
    using assms by (auto simp: prepared_def ws_inv_def allocBuffer_def)
  have "m_bufsize t < len \<Longrightarrow> m_buf t \<Longrightarrow> m_free t = m_bufsize t"
    using assms by (auto simp: ws_inv_def)
  then show "unsent (prepared mem len t) = unsent t"
    by (auto simp: prepared_def unsent_def allocBuffer_def)
qed

lemma store_ok:
  assumes "ws_inv u" and "m_buf u" and "length data \<le> m_free u"
  shows "\<exists>t. store_at (m_bufsize u - m_free u) data (u\<lparr>m_free := m_free u - length data\<rparr>) = Done t \<and>
    ws_inv t \<and> unsent t = unsent u @ data"
proof -
  let ?off = "m_bufsize u - m_free u" and ?xs = "sv_elems (ws_buffer u)"
  have fits: "?off + length data \<le> length ?xs" and le: "m_free u \<le> m_bufsize u"
    using assms by (auto simp: ws_inv_def)
  have "m_bufsize u - (m_free u - length data) = ?off + length data"
    using assms(3) le by simp
  then have "take (m_bufsize u - (m_free u - length data)) (take ?off ?xs @ data @ drop (?off + length data) ?xs) =
    take ?off ?xs @ data"
    using fits by simp
  with assms fits le show ?thesis
    by (auto simp: store_at_def Let_def ws_inv_def unsent_def)
qed

lemma stream_write_ok:
  assumes "ws_inv s"
  shows "stream_write mem data s = Blocked \<or>
    (\<exists>t. stream_write mem data s = Done t \<and> ws_inv t \<and> unsent t = unsent s @ data)"
proof (cases "if m_buf s \<and> length data > m_free s then flush s else Done s")
  case (Done t)
  have "ws_inv t \<and> unsent t = unsent s \<and> (m_buf t \<longrightarrow> length data > m_free t \<longrightarrow> m_free t = m_bufsize t)"
    using Done flush_ok [OF assms] assms by (auto split: if_splits)
  then have inv: "ws_inv t" and uns: "unsent t = unsent s"
    and full: "m_buf t \<Longrightarrow> length data > m_free t \<Longrightarrow> m_free t = m_bufsize t" by auto
  note p = prepared_ok [where mem = mem, OF inv full]
  show ?thesis
    using store_ok [OF p(1-3)] p(4) uns Done
    by (auto simp: stream_write_def alloc_prepared simp del: if_split_asm)
next
  case Blocked
  then show ?thesis by (simp add: stream_write_def alloc_prepared)
next
  case (Failed e)
  with flush_ok [OF assms] show ?thesis by (auto split: if_splits)
qed

text \<open>A session on the outgoing side: what was written, what the worker took, and whether it failed.\<close>

datatype out_op = Write "byte list" | Flush | Take_Out

fun out_step :: "(nat \<Rightarrow> byte) \<Rightarrow> out_op \<Rightarrow> write_side \<Rightarrow> (byte list \<times> byte list \<times> write_side) outcome" where
  "out_step mem (Write data) s = and_then (stream_write mem data s) (\<lambda>t. Done (data, [], t))"
| "out_step mem Flush s = and_then (flush s) (\<lambda>t. Done ([], [], t))"
| "out_step mem Take_Out s = and_then (take_out s) (\<lambda>(b, t). Done ([], b, t))"

fun out_run :: "(nat \<Rightarrow> byte) \<Rightarrow> out_op list \<Rightarrow> write_side \<Rightarrow> (byte list \<times> byte list \<times> write_side) option" where
  "out_run mem [] s = Some ([], [], s)"
| "out_run mem (op # ops) s =
     (case out_step mem op s of
        Blocked \<Rightarrow> out_run mem ops s
      | Failed e \<Rightarrow> None
      | Done (w, d, t) \<Rightarrow> map_option (\<lambda>(w', d', u). (w @ w', d @ d', u)) (out_run mem ops t))"

lemma take_out_ok:
  assumes "ws_inv s"
  shows "take_out s = Blocked \<or>
    (\<exists>b t. take_out s = Done (b, t) \<and> ws_inv t \<and> unsent s = b @ unsent t)"
proof (cases "bq_get (ws_queue s)")
  case None
  then show ?thesis by (auto simp: take_out_def bq_ops bq_get_eq split: if_splits)
next
  case (Some r)
  then obtain b q where get: "bq_get (ws_queue s) = Some (b, q)" by (cases r) auto
  have inv: "bq_inv (ws_queue s)" using assms by (simp add: ws_inv_def)
  have "take_out s = Done (b, s\<lparr>ws_queue := q\<rparr>)" "bq_closed q = bq_closed (ws_queue s)"
    using get by (auto simp: take_out_def bq_ops bq_get_eq split: if_splits)
  then show ?thesis
    using bqf.contents_get [OF inv get] bqf.invar_get [OF inv get] assms
    by (auto simp: ws_inv_def unsent_def)
qed

lemma out_step_ok:
  assumes "ws_inv s"
  shows "out_step mem op s = Blocked \<or>
    (\<exists>w d t. out_step mem op s = Done (w, d, t) \<and> ws_inv t \<and> unsent s @ w = d @ unsent t)"
proof (cases op)
  case (Write data)
  with stream_write_ok [OF assms, of mem data] show ?thesis by auto
next
  case Flush
  with flush_ok [OF assms] show ?thesis by auto
next
  case Take_Out
  with take_out_ok [OF assms] show ?thesis by auto
qed

lemma out_run_ok:
  "ws_inv s \<Longrightarrow> \<exists>w d t. out_run mem ops s = Some (w, d, t) \<and> ws_inv t \<and> unsent s @ w = d @ unsent t"
proof (induction ops arbitrary: s)
  case Nil
  then show ?case by simp
next
  case (Cons op ops)
  from out_step_ok [OF Cons.prems, of mem op] show ?case
  proof
    assume "out_step mem op s = Blocked"
    with Cons.IH [OF Cons.prems] show ?thesis by simp
  next
    assume "\<exists>w d t. out_step mem op s = Done (w, d, t) \<and> ws_inv t \<and> unsent s @ w = d @ unsent t"
    then obtain w d t where step: "out_step mem op s = Done (w, d, t)" and "ws_inv t"
      and eq: "unsent s @ w = d @ unsent t" by blast
    with Cons.IH [of t] obtain w' d' u where
      run: "out_run mem ops t = Some (w', d', u)" "ws_inv u" "unsent t @ w' = d' @ unsent u" by blast
    then have "unsent s @ (w @ w') = (d @ d') @ unsent u" using eq by (metis append_assoc)
    with step run show ?thesis by simp
  qed
qed

lemma ws_inv_new: "ws_inv (write_side_new mem n)" and unsent_new: "unsent (write_side_new mem n) = []"
  by (simp_all add: ws_inv_def write_side_new_def unsent_def)

text \<open>
  C7. The outgoing half of the stream: whatever is written through \<open>IOStream::alloc\<close>, flushed and
  taken by the worker thread, in any order and with any sizes, no assertion fails, nothing is stored
  outside the write buffer, and the bytes the worker took followed by those still in the queue and in
  the write buffer are exactly the bytes written, in order. This covers the buffer that outgrows its
  in-place array, is moved into the queue and starts again.
\<close>

theorem buffered_stream_writes_in_order:
  "\<exists>written taken s. out_run mem ops (write_side_new mem n) = Some (written, taken, s) \<and>
     written = taken @ unsent s"
  using out_run_ok [OF ws_inv_new, of mem ops mem n] by (auto simp: unsent_new)

section \<open>The worker thread\<close>

text \<open>
  \<open>thread_main\<close> sends each buffer it pops. What \<open>send_raw\<close> returns is given by a list: the number of
  bytes the socket took (never more than offered), \<open>EINTR\<close> or \<open>EAGAIN\<close>, or another error. The result
  is what has gone over the wire; nothing when the list ends while the thread is still trying.
\<close>

datatype send_outcome = Sent nat | Try_Again | Send_Error

fun send_buffer :: "send_outcome list \<Rightarrow> byte list \<Rightarrow> nat \<Rightarrow> (byte list \<times> send_outcome list) option" where
  "send_buffer os buffer 0 = Some ([], os)"
| "send_buffer [] buffer (Suc left) = None"
| "send_buffer (Sent k # os) buffer (Suc left) =
     (let bytes_left = Suc left; written = min k bytes_left;
          data = drop (length buffer - bytes_left) buffer
      in map_option (apfst ((@) (take written data))) (send_buffer os buffer (bytes_left - written)))"
| "send_buffer (Try_Again # os) buffer (Suc left) = send_buffer os buffer (Suc left)"
| "send_buffer (Send_Error # os) buffer (Suc left) = Some ([], os)"

fun thread_main :: "send_outcome list \<Rightarrow> byte list list \<Rightarrow> (byte list \<times> send_outcome list) option" where
  "thread_main os [] = Some ([], os)"
| "thread_main os (b # bs) =
     (case send_buffer os b (length b) of
        None \<Rightarrow> None
      | Some (w, os') \<Rightarrow> map_option (apfst ((@) w)) (thread_main os' bs))"

definition progress :: "send_outcome list \<Rightarrow> nat" where
  "progress os = length (filter (\<lambda>r. \<exists>k > 0. r = Sent k) os)"

lemma send_buffer_ok:
  "left \<le> length b \<Longrightarrow> Send_Error \<notin> set os \<Longrightarrow> left \<le> progress os \<Longrightarrow>
   \<exists>os'. send_buffer os b left = Some (drop (length b - left) b, os') \<and> Send_Error \<notin> set os' \<and>
     progress os \<le> left + progress os'"
proof (induction os b left rule: send_buffer.induct)
  case (3 k os b left)
  let ?w = "min k (Suc left)"
  have "Suc left - ?w \<le> progress os" and "Suc left - ?w \<le> length b"
    using "3.prems" by (cases k; auto simp: progress_def)+
  with "3.IH" [OF refl refl refl] "3.prems" obtain os' where
    rec: "send_buffer os b (Suc left - ?w) = Some (drop (length b - (Suc left - ?w)) b, os')"
    and os': "Send_Error \<notin> set os'" "progress os \<le> (Suc left - ?w) + progress os'"
    by (auto simp del: send_buffer.simps)
  have "length b - (Suc left - ?w) = ?w + (length b - Suc left)" using "3.prems" by auto
  then have "take ?w (drop (length b - Suc left) b) @ drop (length b - (Suc left - ?w)) b =
      drop (length b - Suc left) b"
    by (simp only: drop_drop [symmetric] append_take_drop_id)
  moreover have "progress (Sent k # os) \<le> Suc left + progress os'"
    using os'(2) by (cases k) (auto simp: progress_def)
  ultimately show ?case using rec os'(1) by (auto simp: Let_def)
qed (auto simp: progress_def)

lemma thread_main_ok:
  "Send_Error \<notin> set os \<Longrightarrow> length (concat bs) \<le> progress os \<Longrightarrow>
   \<exists>os'. thread_main os bs = Some (concat bs, os')"
proof (induction bs arbitrary: os)
  case Nil
  then show ?case by simp
next
  case (Cons b bs)
  with send_buffer_ok [of "length b" b os] obtain os' where
    "send_buffer os b (length b) = Some (b, os')" "Send_Error \<notin> set os'" "progress os \<le> length b + progress os'"
    by auto
  with Cons.IH [of os'] Cons.prems show ?case by auto
qed

text \<open>
  C8. The worker thread sends every buffer completely and in order, however the socket splits the
  writes and however often it is busy, provided it takes at least one byte often enough and reports no
  other error.
\<close>

theorem worker_sends_everything:
  assumes "Send_Error \<notin> set os" and "length (concat bs) \<le> progress os"
  shows "\<exists>os'. thread_main os bs = Some (concat bs, os')"
  using assms by (rule thread_main_ok)

theorem worker_sends_everything_witness:
  "\<exists>os'. thread_main [Try_Again, Sent 1, Sent 0, Sent 5, Sent 7] [[1, 2], [3]] = Some ([1, 2, 3], os')"
  using worker_sends_everything [of "[Try_Again, Sent 1, Sent 0, Sent 5, Sent 7]" "[[1, 2], [3]]"]
  by (simp add: progress_def)

text \<open>
  After any other error the worker drops the rest of the buffer and goes on with the next one, so
  that the peer can see later bytes without the ones before them.
\<close>

lemma worker_error_leaves_gap:
  "thread_main (Sent (Suc (length xs)) # Send_Error # Sent (Suc (length zs)) # os) [x # xs @ y # ys, z # zs] =
     Some (x # xs @ z # zs, os)"
  by simp

end
