(* ===== verification/BinaryWriter.thy ===== *)
theory BinaryWriter
  imports Anbox_Prelude
begin

text \<open>
  \<open>anbox::common::BinaryWriter\<close> (\<open>src/anbox/common/binary_writer.cpp\<close>) and its client
  \<open>anbox::android::IpConfigBuilder\<close> (\<open>src/anbox/android/ip_config_builder.cpp\<close>), which writes the
  network configuration file that Android reads at start.

  The writer is a window of bytes (\<open>begin_\<close> to \<open>end_\<close>), a position and a byte order. An operation
  returns the exception it threw, if any, and the writer: a sequence of writes that fails in the middle
  leaves the ones before it in the window.

  Shown here: a write never leaves the window; the file is written completely or the call throws; a
  reader of the format gets back the configuration. The 16-bit length field is the limit of that.
\<close>

section \<open>The writer\<close>

datatype byte_order = Big | Little

record binary_writer =
  bw_window :: "byte list"
  bw_current :: nat
  bw_order :: byte_order

type_synonym writing = "binary_writer \<Rightarrow> fault option \<times> binary_writer"

definition binary_writer_new :: "byte list \<Rightarrow> binary_writer" where
  "binary_writer_new window = \<lparr>bw_window = window, bw_current = 0, bw_order = Little\<rparr>"

definition set_byte_order :: "byte_order \<Rightarrow> binary_writer \<Rightarrow> binary_writer" where
  "set_byte_order ord w = w\<lparr>bw_order := ord\<rparr>"

definition put_bytes :: "byte list \<Rightarrow> writing" where
  "put_bytes bs w =
     (if bw_current w + length bs > length (bw_window w)
      then (Some (Out_Of_Range ''Write buffer exhausted''), w)
      else (None, w\<lparr>bw_window := take (bw_current w) (bw_window w) @ bs @
                       drop (bw_current w + length bs) (bw_window w),
                     bw_current := bw_current w + length bs\<rparr>))"

definition in_order :: "byte_order \<Rightarrow> byte list \<Rightarrow> byte list" where
  "in_order ord bs = (case ord of Big \<Rightarrow> bs | Little \<Rightarrow> rev bs)"

definition write_uint16 :: "u16 \<Rightarrow> writing" where
  "write_uint16 v w = put_bytes (in_order (bw_order w) (be16 v)) w"

definition write_uint32 :: "u32 \<Rightarrow> writing" where
  "write_uint32 v w = put_bytes (in_order (bw_order w) (be32 v)) w"

definition write_string :: "string \<Rightarrow> writing" where
  "write_string s w = put_bytes (bytes_of s) w"

fun write_all :: "writing list \<Rightarrow> writing" where
  "write_all [] w = (None, w)"
| "write_all (f # fs) w =
     (case f w of (None, w') \<Rightarrow> write_all fs w' | (Some e, w') \<Rightarrow> (Some e, w'))"

definition write_string_with_size :: "string \<Rightarrow> writing" where
  "write_string_with_size s = write_all [write_uint16 (word_of_nat (length s)), write_string s]"

definition bytes_written :: "binary_writer \<Rightarrow> nat" where
  "bytes_written w = bw_current w"

section \<open>The network configuration\<close>

datatype ip_version = Version1 | Version2

datatype ip_assignment = Static | DHCP

record ip_config =
  ip_version :: ip_version
  ip_assignment :: ip_assignment
  ip_link_address :: string
  ip_prefix_length :: u32
  ip_gateway :: string
  ip_dns_servers :: "string list"
  ip_id :: u32

fun version_number :: "ip_version \<Rightarrow> u32" where
  "version_number Version1 = 1"
| "version_number Version2 = 2"

fun assignment_to_string :: "ip_assignment \<Rightarrow> string" where
  "assignment_to_string Static = ''STATIC''"
| "assignment_to_string DHCP = ''DHCP''"

definition set_version :: "ip_version \<Rightarrow> ip_config \<Rightarrow> ip_config" where
  "set_version v c = c\<lparr>ip_version := v\<rparr>"

definition set_assignment :: "ip_assignment \<Rightarrow> ip_config \<Rightarrow> ip_config" where
  "set_assignment a c = c\<lparr>ip_assignment := a\<rparr>"

definition set_link_address :: "string \<Rightarrow> u32 \<Rightarrow> ip_config \<Rightarrow> ip_config" where
  "set_link_address a n c = c\<lparr>ip_link_address := a, ip_prefix_length := n\<rparr>"

definition set_gateway :: "string \<Rightarrow> ip_config \<Rightarrow> ip_config" where
  "set_gateway g c = c\<lparr>ip_gateway := g\<rparr>"

definition set_dns_servers :: "string list \<Rightarrow> ip_config \<Rightarrow> ip_config" where
  "set_dns_servers ds c = c\<lparr>ip_dns_servers := ds\<rparr>"

definition set_id :: "u32 \<Rightarrow> ip_config \<Rightarrow> ip_config" where
  "set_id n c = c\<lparr>ip_id := n\<rparr>"

text \<open>\<open>IpConfigBuilder::write\<close>: its calls on the writer, after it switched to network order.\<close>

definition ip_config_fields :: "ip_config \<Rightarrow> writing list" where
  "ip_config_fields c =
     [write_uint32 (version_number (ip_version c)),
      write_string_with_size ''ipAssignment'',
      write_string_with_size (assignment_to_string (ip_assignment c)),
      write_string_with_size ''linkAddress'',
      write_string_with_size (ip_link_address c),
      write_uint32 (ip_prefix_length c),
      write_string_with_size ''gateway'',
      write_uint32 0,
      write_uint32 1,
      write_string_with_size (ip_gateway c),
      write_string_with_size ''dns''] @
     map write_string_with_size (ip_dns_servers c) @
     [write_string_with_size ''id'',
      write_uint32 (ip_id c),
      write_string_with_size ''eos'']"

definition ip_config_write :: "ip_config \<Rightarrow> writing" where
  "ip_config_write c w = write_all (ip_config_fields c) (set_byte_order Big w)"

section \<open>What a sequence of writes does\<close>

text \<open>
  \<open>writes f bs\<close>: in big-endian order, \<open>f\<close> either stores exactly \<open>bs\<close> at the current position and
  moves behind it, or throws because they do not fit, having changed nothing before the position and
  not the size of the window.
\<close>

definition stored :: "byte list \<Rightarrow> binary_writer \<Rightarrow> binary_writer" where
  "stored bs w = w\<lparr>bw_window := take (bw_current w) (bw_window w) @ bs @
                     drop (bw_current w + length bs) (bw_window w),
                   bw_current := bw_current w + length bs\<rparr>"

definition exhausted :: "binary_writer \<Rightarrow> fault option \<times> binary_writer \<Rightarrow> bool" where
  "exhausted w r \<longleftrightarrow> fst r = Some (Out_Of_Range ''Write buffer exhausted'') \<and>
     length (bw_window (snd r)) = length (bw_window w) \<and> bw_current w \<le> bw_current (snd r) \<and>
     bw_current (snd r) \<le> length (bw_window w) \<and>
     take (bw_current w) (bw_window (snd r)) = take (bw_current w) (bw_window w)"

definition writes :: "writing \<Rightarrow> byte list \<Rightarrow> bool" where
  "writes f bs \<longleftrightarrow> (\<forall>w. bw_order w = Big \<longrightarrow> bw_current w \<le> length (bw_window w) \<longrightarrow>
     (if bw_current w + length bs \<le> length (bw_window w) then f w = (None, stored bs w)
      else exhausted w (f w)))"

lemma writes_put_bytes: "writes (put_bytes bs) bs"
  by (auto simp: writes_def put_bytes_def stored_def exhausted_def)

lemma writes_uint16: "writes (write_uint16 v) (be16 v)"
  using writes_put_bytes [of "be16 v"] by (auto simp: writes_def write_uint16_def in_order_def)

lemma writes_uint32: "writes (write_uint32 v) (be32 v)"
  using writes_put_bytes [of "be32 v"] by (auto simp: writes_def write_uint32_def in_order_def)

lemma writes_string: "writes (write_string s) (bytes_of s)"
  using writes_put_bytes [of "bytes_of s"] by (auto simp: writes_def write_string_def)

lemma stored_stored:
  assumes "bw_current w + length (as @ bs) \<le> length (bw_window w)"
  shows "stored bs (stored as w) = stored (as @ bs) w"
  using assms by (simp add: stored_def ac_simps)

lemma exhausted_after_stored:
  assumes "exhausted (stored as w) r" and "bw_current w + length as \<le> length (bw_window w)"
  shows "exhausted w r"
proof -
  have "take (bw_current w) (bw_window (snd r)) = take (bw_current w) (take (bw_current w + length as) (bw_window (snd r)))"
    by (simp add: min_def)
  also have "\<dots> = take (bw_current w) (bw_window w)"
    using assms by (simp add: exhausted_def stored_def)
  finally show ?thesis using assms by (auto simp: exhausted_def stored_def)
qed

lemma writes_Nil: "writes (write_all []) []"
  by (simp add: writes_def stored_def)

lemma writes_Cons:
  assumes f: "writes f as" and fs: "writes (write_all fs) bs"
  shows "writes (write_all (f # fs)) (as @ bs)"
  unfolding writes_def
proof (intro allI impI)
  fix w :: binary_writer
  assume big: "bw_order w = Big" and cur: "bw_current w \<le> length (bw_window w)"
  show "if bw_current w + length (as @ bs) \<le> length (bw_window w)
    then write_all (f # fs) w = (None, stored (as @ bs) w) else exhausted w (write_all (f # fs) w)"
  proof (cases "bw_current w + length as \<le> length (bw_window w)")
    case True
    then have fw: "f w = (None, stored as w)" using f big cur by (simp add: writes_def)
    let ?w = "stored as w"
    have "bw_order ?w = Big" "bw_current ?w = bw_current w + length as" "length (bw_window ?w) = length (bw_window w)"
      using big True by (auto simp: stored_def)
    with fs True have "if bw_current w + length as + length bs \<le> length (bw_window w)
      then write_all fs ?w = (None, stored bs ?w) else exhausted ?w (write_all fs ?w)"
      by (simp add: writes_def)
    then show ?thesis
      using exhausted_after_stored [of as w] stored_stored [of w as bs] True
      by (auto simp: fw add.assoc split: if_splits)
  next
    case False
    then have "exhausted w (f w)" using f big cur by (simp add: writes_def)
    with False show ?thesis by (cases "f w") (auto simp: exhausted_def)
  qed
qed

lemma write_all_append:
  "write_all (fs @ gs) w = (case write_all fs w of (None, w') \<Rightarrow> write_all gs w' | (Some e, w') \<Rightarrow> (Some e, w'))"
  by (induction fs arbitrary: w) (auto split: prod.splits option.splits)

lemma writes_append:
  assumes "writes (write_all fs) as" and "writes (write_all gs) bs"
  shows "writes (write_all (fs @ gs)) (as @ bs)"
proof -
  have "write_all [write_all fs, write_all gs] = write_all (fs @ gs)"
    by (rule ext) (auto simp: write_all_append split: prod.splits option.splits)
  with writes_Cons [OF assms(1) writes_Cons [OF assms(2) writes_Nil]] show ?thesis by simp
qed

definition sized :: "string \<Rightarrow> byte list" where
  "sized s = be16 (word_of_nat (length s)) @ bytes_of s"

lemma writes_string_with_size: "writes (write_string_with_size s) (sized s)"
  unfolding write_string_with_size_def sized_def
  using writes_Cons [OF writes_uint16 writes_Cons [OF writes_string writes_Nil]] by simp

lemma writes_map_sized: "writes (write_all (map write_string_with_size ss)) (concat (map sized ss))"
proof (induction ss)
  case Nil
  show ?case by (simp add: writes_Nil del: write_all.simps)
next
  case (Cons s ss)
  from writes_Cons [OF writes_string_with_size this] show ?case by (simp del: write_all.simps)
qed

text \<open>The file as bytes.\<close>

definition ip_encoding :: "ip_config \<Rightarrow> byte list" where
  "ip_encoding c =
     be32 (version_number (ip_version c)) @
     sized ''ipAssignment'' @ sized (assignment_to_string (ip_assignment c)) @
     sized ''linkAddress'' @ sized (ip_link_address c) @ be32 (ip_prefix_length c) @
     sized ''gateway'' @ be32 0 @ be32 1 @ sized (ip_gateway c) @
     sized ''dns'' @ concat (map sized (ip_dns_servers c)) @
     sized ''id'' @ be32 (ip_id c) @ sized ''eos''"

lemmas writes_intros = writes_uint32 writes_string_with_size writes_Nil writes_map_sized

lemma ip_config_writes: "writes (write_all (ip_config_fields c)) (ip_encoding c)"
proof -
  have "writes (write_all [write_string_with_size ''id'', write_uint32 (ip_id c), write_string_with_size ''eos''])
      (sized ''id'' @ be32 (ip_id c) @ sized ''eos'' @ [])"
    by (intro writes_Cons writes_intros)
  from writes_append [OF writes_map_sized [of "ip_dns_servers c"] this]
  have dns: "writes (write_all (map write_string_with_size (ip_dns_servers c) @
      [write_string_with_size ''id'', write_uint32 (ip_id c), write_string_with_size ''eos'']))
      (concat (map sized (ip_dns_servers c)) @ sized ''id'' @ be32 (ip_id c) @ sized ''eos'')" by simp
  show ?thesis
    unfolding ip_config_fields_def ip_encoding_def append_Cons append_Nil
    by (intro writes_Cons dns writes_uint32 writes_string_with_size)
qed

text \<open>
  Writing a network configuration succeeds exactly when the whole file fits behind the writer's
  position. Then exactly the bytes of the file are stored there, the rest of the window is as before, and
  the position (\<open>bytes_written\<close>) is behind them. Otherwise \<open>std::out_of_range\<close> is thrown; no byte
  outside the window and none before the old position was touched.
\<close>

lemma ip_config_write_fits_or_throws:
  "let w = (binary_writer_new window); (e, w') = ip_config_write c w in
     length (bw_window w') = length window \<and> bytes_written w' \<le> length window \<and>
     (if length (ip_encoding c) \<le> length window
      then e = None \<and> bytes_written w' = length (ip_encoding c) \<and>
           bw_window w' = ip_encoding c @ drop (length (ip_encoding c)) window
      else e = Some (Out_Of_Range ''Write buffer exhausted''))"
  using ip_config_writes [of c, unfolded writes_def, rule_format, of "set_byte_order Big (binary_writer_new window)"]
  by (auto simp: ip_config_write_def set_byte_order_def binary_writer_new_def stored_def exhausted_def
      bytes_written_def split: if_splits)

section \<open>Reading the file back\<close>

text \<open>
  A reader of the format: fixed-width integers, strings with a 16-bit length, the keys in the order in
  which they are written, and name servers up to the key \<open>id\<close>.
\<close>

fun take_bytes :: "nat \<Rightarrow> byte list \<Rightarrow> (byte list \<times> byte list) option" where
  "take_bytes n bs = (if n \<le> length bs then Some (take n bs, drop n bs) else None)"

definition get_u32 :: "byte list \<Rightarrow> (u32 \<times> byte list) option" where
  "get_u32 bs = map_option (apfst (\<lambda>x. word_of_nat (from_be x))) (take_bytes 4 bs)"

definition get_string :: "byte list \<Rightarrow> (string \<times> byte list) option" where
  "get_string bs = Option.bind (take_bytes 2 bs) (\<lambda>(n, rest).
     map_option (apfst string_of) (take_bytes (from_be n) rest))"

definition expect :: "string \<Rightarrow> byte list \<Rightarrow> byte list option" where
  "expect key bs = Option.bind (get_string bs) (\<lambda>(s, rest). if s = key then Some rest else None)"

lemma get_string_length: "get_string bs = Some (s, rest) \<Longrightarrow> length rest < length bs"
  by (auto simp: get_string_def bind_eq_Some_conv split: if_splits)

function get_dns :: "byte list \<Rightarrow> (string list \<times> byte list) option" where
  "get_dns bs =
     (case get_string bs of
        None \<Rightarrow> None
      | Some (s, rest) \<Rightarrow>
          if s = ''id'' then Some ([], rest) else map_option (apfst ((#) s)) (get_dns rest))"
  by pat_completeness auto
termination by (relation "measure length") (auto dest: get_string_length [OF sym] get_string_length)

declare get_dns.simps [simp del]

definition get_version :: "byte list \<Rightarrow> (ip_version \<times> byte list) option" where
  "get_version bs = Option.bind (get_u32 bs) (\<lambda>(v, rest).
     if v = 1 then Some (Version1, rest) else if v = 2 then Some (Version2, rest) else None)"

definition get_assignment :: "byte list \<Rightarrow> (ip_assignment \<times> byte list) option" where
  "get_assignment bs = Option.bind (get_string bs) (\<lambda>(s, rest).
     if s = ''STATIC'' then Some (Static, rest) else if s = ''DHCP'' then Some (DHCP, rest) else None)"

definition ip_decode :: "byte list \<Rightarrow> (ip_config \<times> byte list) option" where
  "ip_decode bs =
     Option.bind (get_version bs) (\<lambda>(ver, bs).
     Option.bind (expect ''ipAssignment'' bs) (\<lambda>bs.
     Option.bind (get_assignment bs) (\<lambda>(asg, bs).
     Option.bind (expect ''linkAddress'' bs) (\<lambda>bs.
     Option.bind (get_string bs) (\<lambda>(adr, bs).
     Option.bind (get_u32 bs) (\<lambda>(plen, bs).
     Option.bind (expect ''gateway'' bs) (\<lambda>bs.
     Option.bind (get_u32 bs) (\<lambda>(_, bs).
     Option.bind (get_u32 bs) (\<lambda>(_, bs).
     Option.bind (get_string bs) (\<lambda>(gw, bs).
     Option.bind (expect ''dns'' bs) (\<lambda>bs.
     Option.bind (get_dns bs) (\<lambda>(dns, bs).
     Option.bind (get_u32 bs) (\<lambda>(i, bs).
     Option.bind (expect ''eos'' bs) (\<lambda>bs.
     Some (\<lparr>ip_version = ver, ip_assignment = asg, ip_link_address = adr, ip_prefix_length = plen,
            ip_gateway = gw, ip_dns_servers = dns, ip_id = i\<rparr>, bs)))))))))))))))"

definition short :: "string \<Rightarrow> bool" where
  "short s \<longleftrightarrow> length s < 65536"

lemma get_u32_be32 [simp, wire]: "get_u32 (be32 v @ rest) = Some (v, rest)"
  by (simp add: get_u32_def)

lemma get_string_sized [simp, wire]:
  assumes "short s"
  shows "get_string (sized s @ rest) = Some (s, rest)"
proof -
  have "from_be (be16 (word_of_nat (length s))) = length s"
    using assms by (simp add: short_def unat_of_nat take_bit_nat_eq_self)
  then show ?thesis by (simp add: get_string_def sized_def map_idI)
qed

lemma expect_sized [simp, wire]: "short key \<Longrightarrow> expect key (sized key @ rest) = Some rest"
  by (simp add: expect_def)

lemma get_dns_sized:
  "\<forall>s \<in> set ss. short s \<and> s \<noteq> ''id'' \<Longrightarrow>
   get_dns (concat (map sized ss) @ sized ''id'' @ rest) = Some (ss, rest)"
proof (induction ss)
  case Nil
  then show ?case by (subst get_dns.simps) (simp add: short_def)
next
  case (Cons s ss)
  then show ?case by (subst get_dns.simps) simp
qed

lemma get_version_be32 [simp]: "get_version (be32 (version_number v) @ rest) = Some (v, rest)"
  by (cases v) (simp_all add: get_version_def)

lemma get_assignment_sized [simp]: "get_assignment (sized (assignment_to_string a) @ rest) = Some (a, rest)"
  by (cases a) (simp_all add: get_assignment_def short_def)

text \<open>
  Reading the file back gives the configuration that was written, provided every string is shorter
  than 65536 bytes and no name server is called \<open>id\<close>; nothing is left over.
\<close>

lemma ip_config_round_trip:
  assumes "short (ip_link_address c)" and "short (ip_gateway c)"
    and "\<forall>s \<in> set (ip_dns_servers c). short s \<and> s \<noteq> ''id''"
  shows "ip_decode (ip_encoding c @ rest) = Some (c, rest)"
  using assms get_dns_sized [OF assms(3)]
  by (simp add: ip_decode_def ip_encoding_def short_def [of "_ # _"])

definition ip_example :: ip_config where
  "ip_example = \<lparr>ip_version = Version2, ip_assignment = Static, ip_link_address = ''192.168.250.2'',
     ip_prefix_length = 24, ip_gateway = ''192.168.250.1'', ip_dns_servers = [''8.8.8.8''], ip_id = 0\<rparr>"

theorem ip_config_round_trip_witness: "ip_decode (ip_encoding ip_example @ []) = Some (ip_example, [])"
  by (rule ip_config_round_trip) (simp_all add: ip_example_def short_def)

text \<open>A longer string is written with the low 16 bits of its length in front of all of its bytes.\<close>

lemma sized_truncates: "from_be (take 2 (sized s)) = length s mod 65536"
  by (simp add: sized_def unat_of_nat take_bit_eq_mod)

end
