(* ===== verification/OrderedMap.thy ===== *)
theory OrderedMap
  imports Anbox_Prelude
begin

text \<open>
  \<open>std::map\<close>, as an association list in increasing order of its keys: the order matters where the
  program iterates over a map. \<open>om_set\<close> is \<open>m[k] = v\<close>, \<open>om_insert\<close> is \<open>m.insert({k, v})\<close>, which keeps
  the value of a key that is there, \<open>om_erase\<close> is \<open>m.erase(k)\<close>; \<open>map_of\<close> is the lookup.

  The interface \<open>keyed_store\<close> states what clients rely on: lookups after updates, and the order of the
  entries as an invariant. What a client finds under a key is what the last operation on that key left.
\<close>

fun om_set :: "'k::linorder \<Rightarrow> 'v \<Rightarrow> ('k \<times> 'v) list \<Rightarrow> ('k \<times> 'v) list" where
  "om_set k v [] = [(k, v)]"
| "om_set k v (e # m) =
     (if k < fst e then (k, v) # e # m else if k = fst e then (k, v) # m else e # om_set k v m)"

definition om_insert :: "'k::linorder \<Rightarrow> 'v \<Rightarrow> ('k \<times> 'v) list \<Rightarrow> ('k \<times> 'v) list" where
  "om_insert k v m = (case map_of m k of None \<Rightarrow> om_set k v m | Some _ \<Rightarrow> m)"

definition om_erase :: "'k::linorder \<Rightarrow> ('k \<times> 'v) list \<Rightarrow> ('k \<times> 'v) list" where
  "om_erase k m = filter (\<lambda>e. fst e \<noteq> k) m"

definition om_wf :: "('k::linorder \<times> 'v) list \<Rightarrow> bool" where
  "om_wf m \<longleftrightarrow> sorted_wrt (<) (map fst m)"

lemma om_wf_Nil [simp]: "om_wf []"
  by (simp add: om_wf_def)

lemma map_of_om_set [simp]: "map_of (om_set k v m) = (map_of m)(k \<mapsto> v)"
  by (induction m) auto

lemma map_of_om_erase [simp]: "map_of (om_erase k m) = (map_of m)(k := None)"
  by (induction m) (auto simp: om_erase_def)

lemma keys_om_set: "fst ` set (om_set k v m) = insert k (fst ` set m)"
  by (induction m) (auto split: if_splits)

lemma keys_om_erase: "fst ` set (om_erase k m) = fst ` set m - {k}"
  by (auto simp: om_erase_def)

lemma om_wf_Cons: "om_wf (e # m) \<longleftrightarrow> (\<forall>k \<in> fst ` set m. fst e < k) \<and> om_wf m"
  by (simp add: om_wf_def)

lemma om_wf_set [simp]: "om_wf m \<Longrightarrow> om_wf (om_set k v m)"
proof (induction m)
  case Nil
  then show ?case by (simp add: om_wf_def)
next
  case (Cons e m)
  then show ?case
    using keys_om_set [of k v m] by (fastforce simp: om_wf_Cons)
qed

lemma om_wf_erase [simp]: "om_wf m \<Longrightarrow> om_wf (om_erase k m)"
  by (auto simp: om_wf_def om_erase_def sorted_wrt_map intro: sorted_wrt_filter)

lemma om_wf_insert [simp]: "om_wf m \<Longrightarrow> om_wf (om_insert k v m)"
  by (simp add: om_insert_def split: option.splits)

lemma om_wf_distinct: "om_wf m \<Longrightarrow> distinct (map fst m)"
  by (auto simp: om_wf_def sorted_wrt_iff_nth_less distinct_conv_nth neq_iff)

lemma map_of_om_insert [simp]:
  "map_of (om_insert k v m) = (case map_of m k of None \<Rightarrow> (map_of m)(k \<mapsto> v) | Some _ \<Rightarrow> map_of m)"
  by (simp add: om_insert_def split: option.splits)

lemma om_erase_absent [simp]: "map_of m k = None \<Longrightarrow> om_erase k m = m"
  by (auto simp: om_erase_def map_of_eq_None_iff intro: filter_True)

lemma om_erase_set [simp]: "om_wf m \<Longrightarrow> map_of m k = None \<Longrightarrow> om_erase k (om_set k v m) = m"
proof (induction m)
  case Nil
  then show ?case by (simp add: om_erase_def)
next
  case (Cons e m)
  then show ?case
    by (auto simp: om_erase_def om_wf_Cons map_of_eq_None_iff split: if_splits intro!: filter_True)
qed

lemma length_om_set:
  "om_wf m \<Longrightarrow> length (om_set k v m) = (if map_of m k = None then Suc (length m) else length m)"
proof (induction m)
  case Nil
  then show ?case by simp
next
  case (Cons e m)
  then have "k < fst e \<Longrightarrow> map_of m k = None"
    by (force simp: om_wf_Cons map_of_eq_None_iff)
  with Cons show ?case by (cases e) (auto simp: om_wf_Cons)
qed

section \<open>The interface\<close>

datatype ('k, 'v) store_op = Store 'k 'v | Drop 'k

fun last_on :: "('k, 'v) store_op list \<Rightarrow> 'k \<Rightarrow> 'v option \<Rightarrow> 'v option" where
  "last_on [] k r = r"
| "last_on (Store k' v # ops) k r = last_on ops k (if k = k' then Some v else r)"
| "last_on (Drop k' # ops) k r = last_on ops k (if k = k' then None else r)"

locale keyed_store =
  fixes invar :: "'m \<Rightarrow> bool"
    and get :: "'m \<Rightarrow> 'k \<Rightarrow> 'v option"
    and put :: "'k \<Rightarrow> 'v \<Rightarrow> 'm \<Rightarrow> 'm"
    and del :: "'k \<Rightarrow> 'm \<Rightarrow> 'm"
  assumes get_put: "invar m \<Longrightarrow> get (put k v m) k' = (if k' = k then Some v else get m k')"
    and get_del: "invar m \<Longrightarrow> get (del k m) k' = (if k' = k then None else get m k')"
    and invar_put: "invar m \<Longrightarrow> invar (put k v m)"
    and invar_del: "invar m \<Longrightarrow> invar (del k m)"
begin

fun apply_op :: "('k, 'v) store_op \<Rightarrow> 'm \<Rightarrow> 'm" where
  "apply_op (Store k v) m = put k v m"
| "apply_op (Drop k) m = del k m"

lemma get_history:
  assumes "invar m"
  shows "get (fold apply_op ops m) k = last_on ops k (get m k) \<and> invar (fold apply_op ops m)"
  using assms
proof (induction ops arbitrary: m)
  case Nil
  then show ?case by simp
next
  case (Cons op ops)
  then show ?case by (cases op) (simp_all add: get_put get_del invar_put invar_del)
qed

end

interpretation om: keyed_store om_wf map_of om_set om_erase
  by unfold_locales simp_all

end
