(* ===== verification/Rpc.thy ===== *)
theory Rpc
  imports OrderedMap
begin

text \<open>
  The RPC layer between the session manager, the container manager and the Android side
  (\<open>src/anbox/rpc\<close>): framing of messages (\<open>Channel::send_message\<close>, \<open>MessageProcessor::send_response\<close>),
  reassembly and dispatch (\<open>MessageProcessor::process_data\<close>), and the table of calls that wait for an
  answer (\<open>PendingCallCache\<close>).

  Protobuf is not part of the repository: \<open>parse_invocation\<close>, \<open>parse_result\<close>, \<open>serialize_invocation\<close> and
  \<open>serialize_result\<close> are parameters. The parsers are total because the code ignores what
  \<open>ParseFromArray\<close> returns. Message objects and closures are numbers; what the code does to them is the
  list of effects an operation returns.

  Shown here: whatever the split of the incoming bytes, the messages are handled one by one, in order
  and completely, as long as no read ends inside a header; a read that does makes the code read outside
  its buffer; every call is answered exactly once.
\<close>

section \<open>Messages\<close>

record invocation =
  inv_id :: u32
  inv_method :: string
  inv_parameters :: "byte list"
  inv_protocol_version :: nat

record rpc_result =
  res_id :: "u32 option"
  res_response :: "byte list"
  res_events :: "byte list list"

record rpc_codec =
  parse_invocation :: "byte list \<Rightarrow> invocation"
  parse_result :: "byte list \<Rightarrow> rpc_result"
  serialize_invocation :: "invocation \<Rightarrow> byte list"
  serialize_result :: "rpc_result \<Rightarrow> byte list"

datatype rpc_effect =
    Dispatch invocation                   \<comment> \<open>\<open>dispatch\<close>, a virtual method\<close>
  | Populate nat "byte list"              \<comment> \<open>\<open>ParseFromString\<close> on the response object of a call\<close>
  | Run_Closure nat
  | Event_Sequence "byte list"            \<comment> \<open>\<open>process_event_sequence\<close>, a virtual method\<close>
  | Send_Bytes "byte list"

abbreviation header_size :: nat where "header_size \<equiv> 4"
abbreviation type_invocation :: byte where "type_invocation \<equiv> 0"
abbreviation type_response :: byte where "type_response \<equiv> 1"

section \<open>Calls that wait for an answer\<close>

record pending_call =
  pc_response :: nat
  pc_complete :: "nat option"

text \<open>The key is the \<open>uint32\<close> id converted to \<open>int\<close>.\<close>

type_synonym pending_calls = "(int \<times> pending_call) list"

definition call_key :: "u32 \<Rightarrow> int" where
  "call_key i = sint i"

definition save_completion_details :: "u32 \<Rightarrow> nat \<Rightarrow> nat option \<Rightarrow> pending_calls \<Rightarrow> pending_calls" where
  "save_completion_details i response complete =
     om_set (call_key i) \<lparr>pc_response = response, pc_complete = complete\<rparr>"

definition populate_message_for_result ::
  "u32 \<Rightarrow> byte list \<Rightarrow> pending_calls \<Rightarrow> fault + rpc_effect list"
where
  "populate_message_for_result i response calls =
     (case map_of calls (call_key i) of
        None \<Rightarrow> Inl (Out_Of_Range ''map::at'')
      | Some c \<Rightarrow> Inr [Populate (pc_response c) response])"

definition complete_response :: "u32 \<Rightarrow> pending_calls \<Rightarrow> rpc_effect list \<times> pending_calls" where
  "complete_response i calls =
     (case map_of calls (call_key i) of
        None \<Rightarrow> ([], calls)
      | Some c \<Rightarrow>
          (case pc_complete c of None \<Rightarrow> [] | Some f \<Rightarrow> [Run_Closure f], om_erase (call_key i) calls))"

text \<open>A call saved with a null closure makes \<open>force_completion\<close> call through a null pointer.\<close>

definition force_completion :: "pending_calls \<Rightarrow> fault + rpc_effect list \<times> pending_calls" where
  "force_completion calls =
     (if \<exists>c \<in> snd ` set calls. pc_complete c = None then Inl Undefined
      else Inr (map (\<lambda>(_, c). Run_Closure (the (pc_complete c))) calls, []))"

definition pending_empty :: "pending_calls \<Rightarrow> bool" where
  "pending_empty calls \<longleftrightarrow> calls = []"

section \<open>Sending\<close>

definition header_bytes :: "byte \<Rightarrow> nat \<Rightarrow> byte list" where
  "header_bytes type n = [word_of_nat (n div 65536), word_of_nat (n div 256), word_of_nat n, type]"

definition framed :: "byte \<times> byte list \<Rightarrow> byte list" where
  "framed = (\<lambda>(type, payload). header_bytes type (length payload) @ payload)"

text \<open>
  \<open>Channel\<close>: the next id (a function-local static of the program) and the pending calls.
  \<open>sent\<close> says whether \<open>sender_->send\<close> returned or threw \<open>std::runtime_error\<close>.
\<close>

record channel =
  ch_next_id :: u32
  ch_pending :: pending_calls

definition next_id :: "channel \<Rightarrow> u32 \<times> channel" where
  "next_id c = (ch_next_id c, c\<lparr>ch_next_id := ch_next_id c + 1\<rparr>)"

definition invocation_for :: "string \<Rightarrow> byte list \<Rightarrow> channel \<Rightarrow> invocation \<times> channel" where
  "invocation_for method request c =
     (case next_id c of (i, c') \<Rightarrow>
        (\<lparr>inv_id = i, inv_method = method, inv_parameters = request, inv_protocol_version = 1\<rparr>, c'))"

definition send_message :: "bool \<Rightarrow> byte \<Rightarrow> byte list \<Rightarrow> channel \<Rightarrow> fault option \<times> rpc_effect list \<times> channel" where
  "send_message sent type message c =
     (if sent then (None, [Send_Bytes (framed (type, message))], c)
      else case force_completion (ch_pending c) of
             Inl e \<Rightarrow> (Some e, [], c)
           | Inr (fx, calls) \<Rightarrow> (Some (Runtime_Error ''send''), fx, c\<lparr>ch_pending := calls\<rparr>))"

definition call_method ::
  "rpc_codec \<Rightarrow> bool \<Rightarrow> string \<Rightarrow> byte list \<Rightarrow> nat \<Rightarrow> nat option \<Rightarrow> channel \<Rightarrow>
   fault option \<times> rpc_effect list \<times> channel"
where
  "call_method P sent method request response complete c =
     (case invocation_for method request c of (iv, c1) \<Rightarrow>
        let c2 = c1\<lparr>ch_pending := save_completion_details (inv_id iv) response complete (ch_pending c1)\<rparr>
        in send_message sent type_invocation (serialize_invocation P iv) c2)"

definition send_event :: "rpc_codec \<Rightarrow> bool \<Rightarrow> byte list \<Rightarrow> channel \<Rightarrow> fault option \<times> rpc_effect list \<times> channel" where
  "send_event P sent event =
     send_message sent type_response
       (serialize_result P \<lparr>res_id = None, res_response = [], res_events = [event]\<rparr>)"

definition send_response :: "rpc_codec \<Rightarrow> u32 \<Rightarrow> byte list \<Rightarrow> rpc_effect list" where
  "send_response P i response =
     [Send_Bytes (framed (type_response,
        serialize_result P \<lparr>res_id = Some i, res_response = response, res_events = []\<rparr>))]"

section \<open>Receiving\<close>

record processor =
  pr_buffer :: "byte list"
  pr_pending :: pending_calls

definition handle_result :: "rpc_result \<Rightarrow> pending_calls \<Rightarrow> fault option \<times> rpc_effect list \<times> pending_calls" where
  "handle_result r calls =
     (let events = map Event_Sequence (res_events r) in
      case res_id r of
        None \<Rightarrow> (None, events, calls)
      | Some i \<Rightarrow>
          (case populate_message_for_result i (res_response r) calls of
             Inl e \<Rightarrow> (Some e, [], calls)
           | Inr fx \<Rightarrow> (case complete_response i calls of
               (fx', calls') \<Rightarrow> (None, fx @ fx' @ events, calls'))))"

text \<open>The body of the loop for one complete message; a type that is not known is skipped.\<close>

definition handle_message ::
  "rpc_codec \<Rightarrow> byte \<times> byte list \<Rightarrow> pending_calls \<Rightarrow> fault option \<times> rpc_effect list \<times> pending_calls"
where
  "handle_message P = (\<lambda>(type, payload) calls.
     if type = type_invocation then (None, [Dispatch (parse_invocation P payload)], calls)
     else if type = type_response then handle_result (parse_result P payload) calls
     else (None, [], calls))"

definition message_size :: "byte list \<Rightarrow> nat" where
  "message_size b = unat (b ! 0) * 65536 + unat (b ! 1) * 256 + unat (b ! 2)"

text \<open>
  The loop. It looks at four bytes whenever the buffer is not empty, whether they are there or not:
  with fewer it reads outside the vector. An exception leaves the message in the buffer.
\<close>

function process_loop :: "rpc_codec \<Rightarrow> processor \<Rightarrow> fault option \<times> rpc_effect list \<times> processor" where
  "process_loop P p =
     (let b = pr_buffer p in
      if b = [] then (None, [], p)
      else if length b < header_size then (Some Undefined, [], p)
      else if length b - header_size < message_size b then (None, [], p)
      else
        case handle_message P (b ! 3, take (message_size b) (drop header_size b)) (pr_pending p) of
          (Some e, fx, calls) \<Rightarrow> (Some e, fx, p\<lparr>pr_pending := calls\<rparr>)
        | (None, fx, calls) \<Rightarrow>
            (case process_loop P (p\<lparr>pr_buffer := drop (header_size + message_size b) b, pr_pending := calls\<rparr>) of
               (e, fx', p') \<Rightarrow> (e, fx @ fx', p')))"
  by pat_completeness auto
termination by (relation "measure (\<lambda>(P, p). length (pr_buffer p))") auto

declare process_loop.simps [simp del]

definition process_data :: "rpc_codec \<Rightarrow> byte list \<Rightarrow> processor \<Rightarrow> fault option \<times> rpc_effect list \<times> processor" where
  "process_data P data p = process_loop P (p\<lparr>pr_buffer := pr_buffer p @ data\<rparr>)"

section \<open>Framing\<close>

text \<open>The contract: the messages that are complete in a run of bytes, and what is left behind them.\<close>

function deframe :: "byte list \<Rightarrow> (byte \<times> byte list) list \<times> byte list" where
  "deframe b =
     (if length b < header_size \<or> length b - header_size < message_size b then ([], b)
      else case deframe (drop (header_size + message_size b) b) of
             (ms, rest) \<Rightarrow> ((b ! 3, take (message_size b) (drop header_size b)) # ms, rest))"
  by pat_completeness auto
termination by (relation "measure length") auto

declare deframe.simps [simp del]

fun handle_messages ::
  "rpc_codec \<Rightarrow> (byte \<times> byte list) list \<Rightarrow> pending_calls \<Rightarrow> fault option \<times> rpc_effect list \<times> pending_calls"
where
  "handle_messages P [] calls = (None, [], calls)"
| "handle_messages P (m # ms) calls =
     (case handle_message P m calls of
        (Some e, fx, calls') \<Rightarrow> (Some e, fx, calls')
      | (None, fx, calls') \<Rightarrow> (case handle_messages P ms calls' of (e, fx', c) \<Rightarrow> (e, fx @ fx', c)))"

lemma deframe_stop: "length b < header_size \<or> length b - header_size < message_size b \<Longrightarrow> deframe b = ([], b)"
  by (subst deframe.simps) simp

lemma deframe_more:
  "\<not> (length b < header_size \<or> length b - header_size < message_size b) \<Longrightarrow>
   deframe b = (case deframe (drop (header_size + message_size b) b) of
     (ms, rest) \<Rightarrow> ((b ! 3, take (message_size b) (drop header_size b)) # ms, rest))"
  by (subst deframe.simps) simp

text \<open>Sending the same bytes in chunks; stops at the first fault.\<close>

fun feed :: "rpc_codec \<Rightarrow> byte list list \<Rightarrow> processor \<Rightarrow> fault option \<times> rpc_effect list \<times> processor" where
  "feed P [] p = (None, [], p)"
| "feed P (c # cs) p =
     (case process_data P c p of
        (Some e, fx, p') \<Rightarrow> (Some e, fx, p')
      | (None, fx, p') \<Rightarrow> (case feed P cs p' of (e, fx', q) \<Rightarrow> (e, fx @ fx', q)))"

text \<open>No chunk ends inside a header.\<close>

definition whole_header :: "byte list \<Rightarrow> bool" where
  "whole_header rest \<longleftrightarrow> rest = [] \<or> header_size \<le> length rest"

fun header_safe :: "byte list \<Rightarrow> byte list list \<Rightarrow> bool" where
  "header_safe rest [] \<longleftrightarrow> True"
| "header_safe rest (c # cs) \<longleftrightarrow>
     (let r = snd (deframe (rest @ c)) in whole_header r \<and> header_safe r cs)"

lemma length_header_bytes [simp]: "length (header_bytes t n) = header_size"
  and header_bytes_type [simp]: "(header_bytes t n @ bs) ! 3 = t"
  by (simp_all add: header_bytes_def)

lemma message_size_header:
  assumes "n < 2 ^ 24"
  shows "message_size (header_bytes t n @ bs) = n"
proof -
  have d: "n div 65536 = n div 256 div 256" by (simp add: div_mult2_eq [symmetric])
  have "n div 65536 < 256" using assms by (simp add: less_mult_imp_div_less)
  then have "message_size (header_bytes t n @ bs) = (n div 65536) * 65536 + (n div 256 mod 256) * 256 + n mod 256"
    by (simp add: message_size_def header_bytes_def unat_of_nat take_bit_eq_mod)
  also have "\<dots> = n"
    using div_mult_mod_eq [of n 256] div_mult_mod_eq [of "n div 256" 256] unfolding d by linarith
  finally show ?thesis .
qed

lemma deframe_framed:
  assumes "length payload < 2 ^ 24"
  shows "deframe (framed (t, payload) @ bs) = (case deframe bs of (ms, rest) \<Rightarrow> ((t, payload) # ms, rest))"
proof -
  have "message_size (framed (t, payload) @ bs) = length payload"
    using message_size_header [OF assms] by (simp add: framed_def)
  then show ?thesis
    by (subst deframe.simps) (simp add: framed_def)
qed

lemma deframe_frames:
  "\<forall>m \<in> set ms. length (snd m) < 2 ^ 24 \<Longrightarrow> deframe (concat (map framed ms)) = (ms, [])"
proof (induction ms)
  case Nil
  show ?case by (subst deframe.simps) simp
next
  case (Cons m ms)
  then show ?case by (cases m) (simp add: deframe_framed)
qed

lemma deframe_append:
  "deframe (a @ b) = (case deframe a of (ms, r) \<Rightarrow> (case deframe (r @ b) of (ms', r') \<Rightarrow> (ms @ ms', r')))"
proof (induction a rule: deframe.induct)
  case (1 a)
  show ?case
  proof (cases "length a < header_size \<or> length a - header_size < message_size a")
    case True
    then have "deframe a = ([], a)" by (subst deframe.simps) simp
    then show ?thesis by (simp split: prod.splits)
  next
    case False
    have size: "message_size (a @ b) = message_size a"
      using False by (cases a) (auto simp: message_size_def nth_append)
    have fit: "header_size + message_size a \<le> length a" using False by arith
    let ?r = "drop (header_size + message_size a) a"
    have "\<not> length a + length b - header_size < message_size a" using fit by arith
    then have "deframe (a @ b) = (case deframe (?r @ b) of
        (ms, rest) \<Rightarrow> ((a ! 3, take (message_size a) (drop header_size a)) # ms, rest))"
      using False fit by (subst deframe.simps) (simp add: size nth_append)
    moreover have "deframe a = (case deframe ?r of
        (ms, rest) \<Rightarrow> ((a ! 3, take (message_size a) (drop header_size a)) # ms, rest))"
      using False by (subst deframe.simps) simp
    ultimately show ?thesis
      using "1.IH" [OF False] by (simp split: prod.splits)
  qed
qed

lemma deframe_rest: "deframe (snd (deframe a)) = ([], snd (deframe a))"
proof (induction a rule: deframe.induct)
  case (1 a)
  show ?case
  proof (cases "length a < header_size \<or> length a - header_size < message_size a")
    case True
    then have "deframe a = ([], a)" by (subst deframe.simps) simp
    then show ?thesis by simp
  next
    case False
    then have "snd (deframe a) = snd (deframe (drop (header_size + message_size a) a))"
      by (subst deframe.simps) (simp split: prod.splits)
    with "1.IH" [OF False] show ?thesis by simp
  qed
qed

lemma handle_messages_append:
  "handle_messages P (ms @ ms') calls =
     (case handle_messages P ms calls of
        (Some e, fx, c) \<Rightarrow> (Some e, fx, c)
      | (None, fx, c) \<Rightarrow> (case handle_messages P ms' c of (e, fx', c') \<Rightarrow> (e, fx @ fx', c')))"
  by (induction ms arbitrary: calls) (auto split: prod.splits option.splits)

lemma process_loop_deframe:
  assumes "handle_messages P (fst (deframe (pr_buffer p))) (pr_pending p) = (None, fx, calls)"
  shows "process_loop P p =
    (if whole_header (snd (deframe (pr_buffer p))) then None else Some Undefined, fx,
     p\<lparr>pr_buffer := snd (deframe (pr_buffer p)), pr_pending := calls\<rparr>)"
  using assms
proof (induction P p arbitrary: fx rule: process_loop.induct)
  case (1 P p)
  let ?b = "pr_buffer p"
  show ?case
  proof (cases "length ?b < header_size \<or> length ?b - header_size < message_size ?b")
    case True
    then have "deframe ?b = ([], ?b)" by (subst deframe.simps) simp
    with "1.prems" True show ?thesis
      by (subst process_loop.simps) (auto simp: Let_def whole_header_def)
  next
    case False
    let ?m = "(?b ! 3, take (message_size ?b) (drop header_size ?b))"
    let ?r = "drop (header_size + message_size ?b) ?b"
    have d: "deframe ?b = (?m # fst (deframe ?r), snd (deframe ?r))"
      using False by (subst deframe.simps) (simp split: prod.splits)
    obtain e gx c where hm: "handle_message P ?m (pr_pending p) = (e, gx, c)"
      by (cases "handle_message P ?m (pr_pending p)") auto
    with "1.prems" d have e: "e = None" by (cases e) auto
    obtain fx' where fx: "fx = gx @ fx'" and rest: "handle_messages P (fst (deframe ?r)) c = (None, fx', calls)"
      using "1.prems" d hm e by (auto split: prod.splits)
    let ?q = "p\<lparr>pr_buffer := ?r, pr_pending := c\<rparr>"
    have "?b \<noteq> []" using False by auto
    then have "process_loop P ?q = (if whole_header (snd (deframe ?r)) then None else Some Undefined, fx',
        ?q\<lparr>pr_buffer := snd (deframe ?r), pr_pending := calls\<rparr>)"
      using "1.IH" [OF refl] False hm e rest by auto
    then show ?thesis
      using False \<open>?b \<noteq> []\<close> hm e by (subst process_loop.simps) (simp add: Let_def d fx)
  qed
qed

lemma feed_deframe:
  assumes "header_safe (pr_buffer p) cs" and "deframe (pr_buffer p) = ([], pr_buffer p)"
    and "handle_messages P (fst (deframe (pr_buffer p @ concat cs))) (pr_pending p) = (None, fx, calls)"
  shows "feed P cs p =
    (None, fx, p\<lparr>pr_buffer := snd (deframe (pr_buffer p @ concat cs)), pr_pending := calls\<rparr>)"
  using assms
proof (induction cs arbitrary: p fx)
  case Nil
  then show ?case by simp
next
  case (Cons c cs)
  let ?b = "pr_buffer p @ c"
  obtain ms r where d: "deframe ?b = (ms, r)" by (cases "deframe ?b") auto
  have da: "deframe (pr_buffer p @ concat (c # cs)) =
      (ms @ fst (deframe (r @ concat cs)), snd (deframe (r @ concat cs)))"
    using deframe_append [of ?b "concat cs"] d by (simp split: prod.splits)
  obtain e gx c' where hm: "handle_messages P ms (pr_pending p) = (e, gx, c')"
    by (cases "handle_messages P ms (pr_pending p)") auto
  note prem = Cons.prems(3) [unfolded da handle_messages_append fst_conv]
  from prem hm have e: "e = None"
    by (cases e) auto
  obtain fx' where fx: "fx = gx @ fx'"
    and rest: "handle_messages P (fst (deframe (r @ concat cs))) c' = (None, fx', calls)"
    using prem hm e by (auto split: prod.splits)
  have safe: "whole_header r" "header_safe r cs" using Cons.prems(1) d by (auto simp: Let_def)
  have pd: "process_data P c p = (None, gx, p\<lparr>pr_buffer := r, pr_pending := c'\<rparr>)"
    using process_loop_deframe [of P "p\<lparr>pr_buffer := ?b\<rparr>" gx c'] hm e d safe
    by (simp add: process_data_def)
  have "deframe r = ([], r)" using deframe_rest [of ?b] d by simp
  then show ?case
    using Cons.IH [of "p\<lparr>pr_buffer := r, pr_pending := c'\<rparr>" fx'] safe rest pd fx da by simp
qed

section \<open>Properties of the transport\<close>

text \<open>
  C9. Messages of less than \<open>2\<^sup>2\<^sup>4\<close> bytes, framed and sent one after the other, are handled one by one,
  in order and completely, however the stream is cut into reads, as long as no read ends inside a
  four-byte header; at the end nothing is left in the buffer. The effects and the table of pending calls
  are those of handling the messages directly.
\<close>

theorem rpc_messages_delivered:
  assumes "\<forall>m \<in> set ms. length (snd m) < 2 ^ 24" and "concat cs = concat (map framed ms)"
    and "header_safe [] cs" and "handle_messages P ms calls = (None, fx, calls')"
  shows "feed P cs \<lparr>pr_buffer = [], pr_pending = calls\<rparr> =
    (None, fx, \<lparr>pr_buffer = [], pr_pending = calls'\<rparr>)"
  using feed_deframe [of "\<lparr>pr_buffer = [], pr_pending = calls\<rparr>" cs P fx calls'] assms
    deframe_frames [OF assms(1)]
  by (simp add: deframe.simps [of "[]"])

definition echo_codec :: rpc_codec where
  "echo_codec =
     \<lparr>parse_invocation = (\<lambda>b. \<lparr>inv_id = 0, inv_method = string_of b, inv_parameters = [], inv_protocol_version = 1\<rparr>),
      parse_result = (\<lambda>b. \<lparr>res_id = None, res_response = [], res_events = [b]\<rparr>),
      serialize_invocation = (\<lambda>i. bytes_of (inv_method i)),
      serialize_result = (\<lambda>r. concat (res_events r))\<rparr>"

theorem rpc_messages_delivered_witness:
  "feed echo_codec [[0, 0, 2, 1, 7], [8, 0, 0, 1, 1], [9]] \<lparr>pr_buffer = [], pr_pending = []\<rparr> =
     (None, [Event_Sequence [7, 8], Event_Sequence [9]], \<lparr>pr_buffer = [], pr_pending = []\<rparr>)"
proof (rule rpc_messages_delivered [of "[(1, [7, 8]), (1, [9])]"])
  show "header_safe [] [[0, 0, 2, 1, 7], [8, 0, 0, 1, 1], [9]]"
    by (simp add: deframe_stop deframe_more message_size_def whole_header_def)
qed (simp_all add: framed_def header_bytes_def handle_message_def handle_result_def echo_codec_def)

text \<open>
  A read that ends inside a header makes the loop look at bytes that are not there: any one, two or
  three bytes that arrive alone put \<open>process_data\<close> outside its buffer.
\<close>

lemma rpc_split_header_undefined:
  "process_data P (b # take 2 bs) \<lparr>pr_buffer = [], pr_pending = calls\<rparr> =
     (Some Undefined, [], \<lparr>pr_buffer = b # take 2 bs, pr_pending = calls\<rparr>)"
proof -
  have "length (b # take 2 bs) < header_size" by simp
  then show ?thesis
    by (simp add: process_data_def process_loop.simps [of P "\<lparr>pr_buffer = b # take 2 bs, pr_pending = calls\<rparr>"]
        del: length_take length_Cons)
qed

section \<open>Calls and answers\<close>

text \<open>\<open>n\<close> calls issued over one channel, with their response objects and closures.\<close>

fun issue_calls :: "rpc_codec \<Rightarrow> (string \<times> byte list \<times> nat \<times> nat) list \<Rightarrow> channel \<Rightarrow> channel" where
  "issue_calls P [] c = c"
| "issue_calls P ((method, request, response, closure) # cs) c =
     issue_calls P cs (snd (snd (call_method P True method request response (Some closure) c)))"

definition answer :: "u32 \<times> byte list \<Rightarrow> rpc_result" where
  "answer = (\<lambda>(i, response). \<lparr>res_id = Some i, res_response = response, res_events = []\<rparr>)"

fun handle_answers :: "(u32 \<times> byte list) list \<Rightarrow> pending_calls \<Rightarrow> fault option \<times> rpc_effect list \<times> pending_calls" where
  "handle_answers [] calls = (None, [], calls)"
| "handle_answers (a # as) calls =
     (case handle_result (answer a) calls of
        (Some e, fx, c) \<Rightarrow> (Some e, fx, c)
      | (None, fx, c) \<Rightarrow> (case handle_answers as c of (e, fx', c') \<Rightarrow> (e, fx @ fx', c')))"

definition expected :: "(u32 \<Rightarrow> nat \<times> nat) \<Rightarrow> u32 \<times> byte list \<Rightarrow> rpc_effect list" where
  "expected calls = (\<lambda>(i, response). [Populate (fst (calls i)) response, Run_Closure (snd (calls i))])"

lemma call_key_inj [simp]: "call_key i = call_key j \<longleftrightarrow> i = j"
  by (simp add: call_key_def signed_word_eqI inj_eq)

lemma handle_answers_ok:
  assumes "om_wf calls" and "distinct (map fst as)"
    and "dom (map_of calls) = call_key ` set (map fst as)"
    and "\<forall>i \<in> set (map fst as). map_of calls (call_key i) =
      Some \<lparr>pc_response = fst (f i), pc_complete = Some (snd (f i))\<rparr>"
  shows "handle_answers as calls = (None, concat (map (expected f) as), [])"
  using assms
proof (induction as arbitrary: calls)
  case Nil
  then have "calls = []" by (metis dom_eq_empty_conv list.simps(8,15) image_empty list.set(1) map_of_eq_empty_iff)
  then show ?case by simp
next
  case (Cons a as)
  obtain i r where a: "a = (i, r)" by (cases a)
  let ?c = "om_erase (call_key i) calls"
  have "handle_answers as ?c = (None, concat (map (expected f) as), [])"
  proof (rule Cons.IH)
    show "om_wf ?c" using Cons.prems(1) by simp
    show "distinct (map fst as)" using Cons.prems(2) by simp
    show "dom (map_of ?c) = call_key ` set (map fst as)"
      using Cons.prems(2,3) by (force simp: a)
    show "\<forall>i \<in> set (map fst as). map_of ?c (call_key i) =
        Some \<lparr>pc_response = fst (f i), pc_complete = Some (snd (f i))\<rparr>"
      using Cons.prems(2,4) by (force simp: a)
  qed
  moreover have "map_of calls (call_key i) =
      Some \<lparr>pc_response = fst (f i), pc_complete = Some (snd (f i))\<rparr>"
    using Cons.prems(4) by (simp add: a)
  ultimately show ?case
    by (simp add: a handle_result_def answer_def populate_message_for_result_def complete_response_def
        expected_def)
qed

definition issued :: "channel \<Rightarrow> (string \<times> byte list \<times> nat \<times> nat) \<Rightarrow> channel" where
  "issued c = (\<lambda>(method, request, response, closure).
     c\<lparr>ch_next_id := ch_next_id c + 1,
       ch_pending := om_set (call_key (ch_next_id c))
         \<lparr>pc_response = response, pc_complete = Some closure\<rparr> (ch_pending c)\<rparr>)"

lemma issue_calls_Cons: "issue_calls P (x # cs) c = issue_calls P cs (issued c x)"
  by (cases x) (simp add: call_method_def invocation_for_def next_id_def save_completion_details_def
      send_message_def issued_def)

text \<open>The objects of the call that has the given id, when the first call had id \<open>s\<close>.\<close>

definition call_objects :: "u32 \<Rightarrow> (string \<times> byte list \<times> nat \<times> nat) list \<Rightarrow> u32 \<Rightarrow> nat \<times> nat" where
  "call_objects s cs i = snd (snd (cs ! unat (i - s)))"

definition call_ids :: "u32 \<Rightarrow> nat \<Rightarrow> u32 set" where
  "call_ids s n = (\<lambda>j. s + word_of_nat j) ` {..<n}"

lemma call_ids_Suc: "call_ids s (Suc n) = insert s (call_ids (s + 1) n)"
  by (simp add: call_ids_def lessThan_Suc_eq_insert_0 image_image add.assoc)

lemma call_ids_fresh: "n < 2 ^ 32 \<Longrightarrow> s \<notin> call_ids (s + 1) n"
proof
  assume n: "n < 2 ^ 32" and "s \<in> call_ids (s + 1) n"
  then obtain j where j: "j < n" and "s = s + 1 + word_of_nat j" by (auto simp: call_ids_def)
  then have "word_of_nat (Suc j) = (0 :: u32)" by (simp add: add.assoc)
  then have "(2 ^ 32 :: nat) dvd Suc j" by (simp add: word_of_nat_eq_0_iff del: of_nat_Suc)
  with j n show False by (auto dest: dvd_imp_le)
qed

lemma call_objects_Cons:
  assumes "i \<in> call_ids (s + 1) (length cs)" and "length cs < 2 ^ 32"
  shows "call_objects s (x # cs) i = call_objects (s + 1) cs i"
proof -
  obtain j where j: "j < length cs" "i = s + 1 + word_of_nat j" using assms(1) by (auto simp: call_ids_def)
  have "unat (word_of_nat j :: u32) = j" "unat (1 + word_of_nat j :: u32) = Suc j"
    using j(1) assms(2) unat_of_nat [of "Suc j", where ?'a = 32]
    by (simp_all add: unat_of_nat take_bit_nat_eq_self)
  then show ?thesis by (simp add: call_objects_def j(2))
qed

lemma issue_calls_ok:
  assumes "om_wf (ch_pending c)" and "length cs \<le> 2 ^ 32"
  shows "om_wf (ch_pending (issue_calls P cs c)) \<and>
    (\<forall>i. map_of (ch_pending (issue_calls P cs c)) (call_key i) =
      (if i \<in> call_ids (ch_next_id c) (length cs)
       then Some \<lparr>pc_response = fst (call_objects (ch_next_id c) cs i),
                  pc_complete = Some (snd (call_objects (ch_next_id c) cs i))\<rparr>
       else map_of (ch_pending c) (call_key i))) \<and>
    dom (map_of (ch_pending (issue_calls P cs c))) =
      dom (map_of (ch_pending c)) \<union> call_key ` call_ids (ch_next_id c) (length cs)"
  using assms
proof (induction cs arbitrary: c)
  case Nil
  then show ?case by (simp add: call_ids_def)
next
  case (Cons x cs)
  let ?s = "ch_next_id c"
  obtain m rq r f where x: "x = (m, rq, r, f)" by (cases x)
  have len: "length cs < 2 ^ 32" using Cons.prems(2) by simp
  have "om_wf (ch_pending (issued c x))" using Cons.prems(1) by (simp add: x issued_def)
  note IH = Cons.IH [OF this less_imp_le [OF len]]
  have next_id: "ch_next_id (issued c x) = ?s + 1" by (simp add: x issued_def)
  have head: "call_objects ?s (x # cs) ?s = (r, f)" by (simp add: call_objects_def x)
  have "map_of (ch_pending (issued c x)) (call_key i) =
    (if i = ?s then Some \<lparr>pc_response = r, pc_complete = Some f\<rparr> else map_of (ch_pending c) (call_key i))" for i
    by (simp add: x issued_def)
  moreover have "dom (map_of (ch_pending (issued c x))) = insert (call_key ?s) (dom (map_of (ch_pending c)))"
    by (simp add: x issued_def)
  ultimately show ?case
    using IH call_ids_fresh [OF len, of ?s] call_objects_Cons [OF _ len, of _ ?s x] head
    unfolding issue_calls_Cons next_id length_Cons call_ids_Suc by auto
qed

text \<open>
  C10. However many calls are issued over a channel, up to \<open>2\<^sup>3\<^sup>2\<close> at a time, and in whatever order their
  answers arrive, each answer is stored in the response object of its own call and runs the closure of
  that call, once; when all have been answered no call is pending.
\<close>

theorem rpc_calls_answered_once:
  assumes "length cs \<le> 2 ^ 32" and "distinct (map fst as)" and "set (map fst as) = call_ids s (length cs)"
  shows "handle_answers as (ch_pending (issue_calls P cs \<lparr>ch_next_id = s, ch_pending = []\<rparr>)) =
    (None, concat (map (expected (call_objects s cs)) as), [])"
proof -
  let ?c = "\<lparr>ch_next_id = s, ch_pending = []\<rparr>"
  have "om_wf (ch_pending ?c)" by simp
  note ok = issue_calls_ok [OF this assms(1), of P]
  show ?thesis
    by (rule handle_answers_ok) (use ok assms in auto)
qed

theorem rpc_calls_answered_once_witness:
  "handle_answers [(1, [5]), (0, [6])]
     (ch_pending (issue_calls echo_codec [(''a'', [], 10, 20), (''b'', [], 11, 21)]
        \<lparr>ch_next_id = 0, ch_pending = []\<rparr>)) =
   (None, [Populate 11 [5], Run_Closure 21, Populate 10 [6], Run_Closure 20], [])"
proof (rule trans [OF rpc_calls_answered_once])
  have "call_ids 0 (Suc (Suc 0)) = {1, 0}" by (simp add: call_ids_def lessThan_Suc)
  then show "set (map fst [(1 :: u32, [5 :: byte]), (0, [6])]) =
      call_ids 0 (length [(''a'', [] :: byte list, 10 :: nat, 20 :: nat), (''b'', [], 11, 21)])" by simp
qed (simp_all add: expected_def call_objects_def)

text \<open>
  C11. When sending a call fails, the closures of all pending calls and of the new call are run, in the
  order of their keys, the table is emptied and the exception is passed on.
\<close>

theorem rpc_send_failure_completes_all:
  assumes "om_wf (ch_pending c)" and "\<forall>e \<in> set (ch_pending c). pc_complete (snd e) \<noteq> None"
  shows "\<exists>fx c'. call_method P False method request response (Some closure) c =
      (Some (Runtime_Error ''send''), fx, c') \<and> ch_pending c' = [] \<and>
    fx = map (\<lambda>e. Run_Closure (the (pc_complete (snd e))))
      (om_set (call_key (ch_next_id c)) \<lparr>pc_response = response, pc_complete = Some closure\<rparr> (ch_pending c))"
proof -
  have "\<forall>e \<in> set (om_set k v m). pc_complete (snd e) \<noteq> None"
    if "\<forall>e \<in> set m. pc_complete (snd e) \<noteq> None" "pc_complete v \<noteq> None"
    for m :: pending_calls and k v
    using that by (induction m) (auto split: if_splits)
  from this [OF assms(2), of "\<lparr>pc_response = response, pc_complete = Some closure\<rparr>" "call_key (ch_next_id c)"]
  have "\<not> (\<exists>p \<in> snd ` set (om_set (call_key (ch_next_id c))
      \<lparr>pc_response = response, pc_complete = Some closure\<rparr> (ch_pending c)). pc_complete p = None)"
    by simp
  then show ?thesis
    by (simp add: call_method_def invocation_for_def next_id_def save_completion_details_def
        send_message_def force_completion_def Let_def case_prod_beta)
qed

theorem rpc_send_failure_completes_all_witness:
  "\<exists>fx c'. call_method echo_codec False ''m'' [] 1 (Some 2)
      \<lparr>ch_next_id = 7, ch_pending = [(3, \<lparr>pc_response = 8, pc_complete = Some 9\<rparr>)]\<rparr> =
      (Some (Runtime_Error ''send''), fx, c') \<and> ch_pending c' = [] \<and> fx = [Run_Closure 9, Run_Closure 2]"
  using rpc_send_failure_completes_all
    [of "\<lparr>ch_next_id = 7, ch_pending = [(3, \<lparr>pc_response = 8, pc_complete = Some 9\<rparr>)]\<rparr>"
      echo_codec "''m''" "[]" 1 2]
  by (simp add: om_wf_def call_key_def)

end
