(* ===== verification/Network.thy ===== *)
theory Network
  imports OrderedMap
begin

text \<open>
  Connections and sockets (\<open>src/anbox/network\<close>, \<open>src/anbox/rpc/connection_creator.cpp\<close>): the table of
  connections, the read loop of a connection, the creator that admits one RPC client at a time, the
  acceptors, the decision to remove a stale socket file, and the reception of data with file
  descriptors.

  The processor of a connection is a parameter, \<open>process\<close>, from the data and its state to its verdict and
  new state. What the kernel reports (accept errors, read errors, the results of \<open>recvmsg\<close>) is the
  input of the operations.
\<close>

section \<open>The table of connections\<close>

type_synonym 'c connections = "(int \<times> 'c) list"

definition conns_add :: "int \<Rightarrow> 'c \<Rightarrow> 'c connections \<Rightarrow> 'c connections" where
  "conns_add = om_insert"

definition conns_remove :: "int \<Rightarrow> 'c connections \<Rightarrow> 'c connections" where
  "conns_remove = om_erase"

definition conns_includes :: "int \<Rightarrow> 'c connections \<Rightarrow> bool" where
  "conns_includes i m \<longleftrightarrow> map_of m i \<noteq> None"

definition conns_clear :: "'c connections \<Rightarrow> 'c connections" where
  "conns_clear m = []"

definition conns_size :: "'c connections \<Rightarrow> nat" where
  "conns_size m = length m"

definition conns_at :: "nat \<Rightarrow> 'c connections \<Rightarrow> fault + 'c" where
  "conns_at n m = (case map_of m (int n) of None \<Rightarrow> Inl (Out_Of_Range ''map::at'') | Some c \<Rightarrow> Inr c)"

section \<open>One RPC client at a time\<close>

record 'p creator =
  cc_next_id :: i32
  cc_connections :: "'p connections"

definition creator_new :: "'p creator" where
  "creator_new = \<lparr>cc_next_id = 0, cc_connections = []\<rparr>"

text \<open>\<open>create_connection_for\<close>: nothing means that the socket was closed on the spot.\<close>

definition create_connection_for :: "'p \<Rightarrow> 'p creator \<Rightarrow> int option \<times> 'p creator" where
  "create_connection_for processor c =
     (if conns_size (cc_connections c) \<ge> 1 then (None, c)
      else let i = sint (cc_next_id c)
           in (Some i, c\<lparr>cc_next_id := cc_next_id c + 1,
                         cc_connections := conns_add i processor (cc_connections c)\<rparr>))"

text \<open>
  \<open>SocketConnection::on_read_size\<close> for connection \<open>i\<close>: an error, or the data that was read. A
  connection that is not in the table has been destroyed and is not called any more.
\<close>

definition on_read_size ::
  "(byte list \<Rightarrow> 'p \<Rightarrow> bool \<times> 'p) \<Rightarrow> int \<Rightarrow> byte list option \<Rightarrow> 'p connections \<Rightarrow> 'p connections"
where
  "on_read_size process i input m =
     (case map_of m i of
        None \<Rightarrow> m
      | Some p \<Rightarrow>
          (case input of
             None \<Rightarrow> conns_remove i m
           | Some data \<Rightarrow>
               (case process data p of
                  (True, p') \<Rightarrow> om_set i p' m
                | (False, p') \<Rightarrow> conns_remove i m)))"

datatype 'p net_event = Client_Connects 'p | Client_Data int "byte list" | Client_Error int

fun net_step :: "(byte list \<Rightarrow> 'p \<Rightarrow> bool \<times> 'p) \<Rightarrow> 'p net_event \<Rightarrow> 'p creator \<Rightarrow> 'p creator" where
  "net_step process (Client_Connects p) c = snd (create_connection_for p c)"
| "net_step process (Client_Data i data) c =
     c\<lparr>cc_connections := on_read_size process i (Some data) (cc_connections c)\<rparr>"
| "net_step process (Client_Error i) c =
     c\<lparr>cc_connections := on_read_size process i None (cc_connections c)\<rparr>"

definition single_client :: "'p creator \<Rightarrow> bool" where
  "single_client c \<longleftrightarrow> om_wf (cc_connections c) \<and> length (cc_connections c) \<le> 1"

lemma length_conns_remove: "length (conns_remove i m) \<le> length m"
  by (simp add: conns_remove_def om_erase_def)

lemma on_read_size_wf: "om_wf m \<Longrightarrow> om_wf (on_read_size process i input m)"
  by (auto simp: on_read_size_def conns_remove_def split: option.splits prod.splits bool.splits)

lemma on_read_size_length: "om_wf m \<Longrightarrow> length (on_read_size process i input m) \<le> length m"
  using length_conns_remove [of i m]
  by (auto simp: on_read_size_def length_om_set split: option.splits prod.splits bool.splits)

lemma net_step_single: "single_client c \<Longrightarrow> single_client (net_step process ev c)"
proof (cases ev)
  case (Client_Connects p)
  assume "single_client c"
  with Client_Connects show ?thesis
    by (auto simp: single_client_def create_connection_for_def conns_size_def conns_add_def om_insert_def
        length_om_set Let_def Suc_le_eq om_wf_Cons split: option.splits)
next
  case (Client_Data i data)
  assume "single_client c"
  with Client_Data on_read_size_wf on_read_size_length [of "cc_connections c" process i "Some data"]
  show ?thesis by (auto simp: single_client_def intro: order_trans)
next
  case (Client_Error i)
  assume "single_client c"
  with Client_Error on_read_size_wf on_read_size_length [of "cc_connections c" process i None]
  show ?thesis by (auto simp: single_client_def intro: order_trans)
qed

text \<open>
  C12. Whatever clients connect, send and fail, the RPC socket never has more than one connection: a
  client that connects while there is one is refused and changes nothing, and a client that connects
  when there is none is admitted as the only one. After a read error or a verdict of the processor that
  ends the connection there is none, so that the next client is admitted.
\<close>

theorem rpc_single_client:
  "let c = fold (net_step process) evs creator_new in
     length (cc_connections c) \<le> 1 \<and>
     (case create_connection_for p c of
        (None, c') \<Rightarrow> c' = c \<and> cc_connections c \<noteq> []
      | (Some i, c') \<Rightarrow> cc_connections c = [] \<and> cc_connections c' = [(i, p)] \<and>
          cc_connections (net_step process (Client_Error i) c') = [])"
proof -
  have "single_client c \<Longrightarrow> single_client (fold (net_step process) evs c)" for c
    by (induction evs arbitrary: c) (simp_all add: net_step_single)
  from this [of creator_new] have "single_client (fold (net_step process) evs creator_new)"
    by (simp add: single_client_def creator_new_def)
  then show ?thesis
    by (cases "cc_connections (fold (net_step process) evs creator_new)")
       (auto simp: Let_def single_client_def create_connection_for_def conns_size_def conns_add_def
         om_insert_def on_read_size_def conns_remove_def om_erase_def)
qed

section \<open>Acceptors\<close>

datatype accept_result = Accepted | Aborted | Other_Error

text \<open>Whether the connection creator is called, and whether the acceptor waits for the next client.\<close>

fun published_on_new_connection :: "accept_result \<Rightarrow> bool \<times> bool" where
  "published_on_new_connection Accepted = (True, True)"
| "published_on_new_connection Aborted = (False, False)"
| "published_on_new_connection Other_Error = (False, True)"

fun tcp_on_new_connection :: "accept_result \<Rightarrow> bool \<times> bool" where
  "tcp_on_new_connection Accepted = (True, True)"
| "tcp_on_new_connection Aborted = (False, False)"
| "tcp_on_new_connection Other_Error = (False, False)"

fun accept_loop :: "(accept_result \<Rightarrow> bool \<times> bool) \<Rightarrow> accept_result list \<Rightarrow> nat" where
  "accept_loop handler [] = 0"
| "accept_loop handler (r # rs) =
     (case handler r of (created, again) \<Rightarrow>
        (if created then 1 else 0) + (if again then accept_loop handler rs else 0))"

text \<open>
  The local acceptor serves every client up to the moment it is cancelled, whatever errors accepting
  reports in between; the TCP acceptor serves only those before the first error of any kind.
\<close>

lemma acceptors_serve:
  "accept_loop published_on_new_connection rs =
     count_list (takeWhile (\<lambda>r. r \<noteq> Aborted) rs) Accepted \<and>
   accept_loop tcp_on_new_connection rs = length (takeWhile (\<lambda>r. r = Accepted) rs)"
proof (induction rs)
  case Nil
  show ?case by simp
next
  case (Cons r rs)
  then show ?case by (cases r) simp_all
qed

section \<open>Stale socket files\<close>

datatype file_kind = No_File | Socket_File | Other_File

definition socket_file_exists :: "file_kind \<Rightarrow> bool" where
  "socket_file_exists k \<longleftrightarrow> k = Socket_File"

fun find_text_from :: "string \<Rightarrow> string \<Rightarrow> nat \<Rightarrow> nat option" where
  "find_text_from pat [] n = (if pat = [] then Some n else None)"
| "find_text_from pat (c # cs) n = (if prefix pat (c # cs) then Some n else find_text_from pat cs (n + 1))"

text \<open>\<open>socket_exists\<close> on the lines of \<open>/proc/net/unix\<close>; nothing stands for a failure to read them.\<close>

definition socket_exists :: "string list option \<Rightarrow> string \<Rightarrow> bool" where
  "socket_exists table name =
     (let socket_path = CHR '' '' # name in
      case table of
        None \<Rightarrow> True
      | Some ls \<Rightarrow> list_ex (\<lambda>line. case find_text_from socket_path line 0 of
            None \<Rightarrow> False
          | Some index \<Rightarrow> index + length socket_path = length line) ls)"

text \<open>Whether the file is removed; removing it fails when \<open>removable\<close> is false.\<close>

definition remove_socket_if_stale :: "file_kind \<Rightarrow> string list option \<Rightarrow> bool \<Rightarrow> string \<Rightarrow> fault + bool" where
  "remove_socket_if_stale k table removable name =
     (if socket_file_exists k \<and> \<not> socket_exists table name
      then if removable then Inr True else Inl (Runtime_Error ''Failed removing stale socket file'')
      else Inr False)"

lemma find_from_sound: "find_text_from pat s n = Some i \<Longrightarrow> n \<le> i \<and> prefix pat (drop (i - n) s)"
proof (induction s arbitrary: n)
  case Nil
  then show ?case by (simp split: if_splits)
next
  case (Cons c cs)
  show ?case
  proof (cases "prefix pat (c # cs)")
    case True
    with Cons.prems show ?thesis by simp
  next
    case False
    with Cons.prems Cons.IH [of "n + 1"] have "n + 1 \<le> i" "prefix pat (drop (i - (n + 1)) cs)" by simp_all
    moreover from this(1) have "i - n = Suc (i - (n + 1))" by simp
    ultimately show ?thesis by simp
  qed
qed

text \<open>A socket is taken to be in use only when some line of the table ends with its name.\<close>

lemma socket_exists_sound:
  "socket_exists (Some ls) name \<Longrightarrow> \<exists>line \<in> set ls. suffix (CHR '' '' # name) line"
proof -
  assume "socket_exists (Some ls) name"
  then obtain line i where line: "line \<in> set ls" and find: "find_text_from (CHR '' '' # name) line 0 = Some i"
    and len: "i + length (CHR '' '' # name) = length line"
    by (auto simp: socket_exists_def list_ex_iff Let_def split: option.splits)
  from find_from_sound [OF find] obtain ys where ys: "drop i line = (CHR '' '' # name) @ ys"
    by (auto simp: prefix_def)
  then have "length (drop i line) = length (CHR '' '' # name) + length ys" by (simp only: length_append)
  with len have "ys = []" by (simp only: length_drop length_0_conv [symmetric])
  with ys have "line = take i line @ (CHR '' '' # name)" by (metis append_Nil2 append_take_drop_id)
  with line show ?thesis by (metis suffixI)
qed

section \<open>Receiving data and file descriptors\<close>

text \<open>
  \<open>receive_data\<close>: one \<open>recvmsg\<close> per round. It reports that the peer is gone, an error, or some bytes
  (at most as many as asked for) with a control message. The result is the exception or the bytes and
  descriptors, and the descriptors the function closed; nothing when the list of reports ends first.
\<close>

datatype ctrl = No_Ctrl | Ctrl_Credentials | Ctrl_Other | Ctrl_Fds "int list" bool

datatype recv = Recv_Shutdown | Recv_Transient | Recv_Pipe | Recv_Failed | Recv "byte list" ctrl

datatype recv_fault =
    Zero_Bytes | Disconnected | Socket_Error | Fd_Reception | More_Fds | Fewer_Fds

text \<open>The control message: how many descriptors are still expected is \<open>room\<close>.\<close>

fun receive_ctrl :: "nat \<Rightarrow> ctrl \<Rightarrow> (recv_fault + int list) \<times> int list" where
  "receive_ctrl room No_Ctrl = (Inr [], [])"
| "receive_ctrl room Ctrl_Credentials = (Inl Fd_Reception, [])"
| "receive_ctrl room Ctrl_Other = (Inl Fd_Reception, [])"
| "receive_ctrl room (Ctrl_Fds fds truncated) =
     (if length fds > room \<or> truncated then (Inl More_Fds, fds) else (Inr fds, []))"

fun receive_loop ::
  "recv list \<Rightarrow> nat \<Rightarrow> nat \<Rightarrow> byte list \<Rightarrow> int list \<Rightarrow>
   ((recv_fault + byte list \<times> int list) \<times> int list) option"
where
  "receive_loop [] requested n got fds =
     (if length got < requested then None
      else if length fds < n then Some (Inl Fewer_Fds, filter (\<lambda>fd. fd \<ge> 0) fds)
      else Some (Inr (got, fds), []))"
| "receive_loop (r # rs) requested n got fds =
     (if length got < requested
      then case r of
          Recv_Shutdown \<Rightarrow> Some (Inl Disconnected, [])
        | Recv_Transient \<Rightarrow> receive_loop rs requested n got fds
        | Recv_Pipe \<Rightarrow> Some (Inl Disconnected, [])
        | Recv_Failed \<Rightarrow> Some (Inl Socket_Error, [])
        | Recv bs c \<Rightarrow>
            (case receive_ctrl (n - length fds) c of
               (Inl e, closed) \<Rightarrow> Some (Inl e, closed)
             | (Inr new, _) \<Rightarrow>
                 receive_loop rs requested n (got @ take (requested - length got) bs) (fds @ new))
      else if length fds < n then Some (Inl Fewer_Fds, filter (\<lambda>fd. fd \<ge> 0) fds)
      else Some (Inr (got, fds), []))"

definition receive_data ::
  "recv list \<Rightarrow> nat \<Rightarrow> nat \<Rightarrow> ((recv_fault + byte list \<times> int list) \<times> int list) option"
where
  "receive_data rs requested n =
     (if requested = 0 then Some (Inl Zero_Bytes, []) else receive_loop rs requested n [] [])"

text \<open>What has been delivered by a list of reports: its bytes and its descriptors.\<close>

fun recv_bytes :: "recv list \<Rightarrow> byte list" where
  "recv_bytes [] = []"
| "recv_bytes (Recv bs c # rs) = bs @ recv_bytes rs"
| "recv_bytes (r # rs) = recv_bytes rs"

fun recv_fds :: "recv list \<Rightarrow> int list" where
  "recv_fds [] = []"
| "recv_fds (Recv bs (Ctrl_Fds fds t) # rs) = fds @ recv_fds rs"
| "recv_fds (r # rs) = recv_fds rs"

lemma receive_loop_result:
  assumes "receive_loop rs requested n got fds = Some (r, closed)" and "length got \<le> requested"
    and "length fds \<le> n"
  shows "case r of
      Inr (bs, fs) \<Rightarrow> closed = [] \<and> length bs = requested \<and> length fs = n \<and>
        prefix bs (got @ recv_bytes rs) \<and> prefix fs (fds @ recv_fds rs)
    | Inl e \<Rightarrow> e = Fewer_Fds \<longrightarrow> (\<exists>fs. length fs < n \<and> prefix fs (fds @ recv_fds rs) \<and>
        closed = filter (\<lambda>fd. fd \<ge> 0) fs)"
  using assms
proof (induction rs arbitrary: got fds)
  case Nil
  then show ?case by (auto split: if_splits)
next
  case (Cons x rs)
  show ?case
  proof (cases "length got < requested")
    case False
    with Cons.prems show ?thesis by (auto split: if_splits intro!: exI [of _ fds])
  next
    case more: True
    show ?thesis
    proof (cases x)
      case Recv_Transient
      with Cons.IH [of got fds] Cons.prems more show ?thesis by (auto split: sum.splits)
    next
      case (Recv bs c)
      show ?thesis
      proof (cases "fst (receive_ctrl (n - length fds) c)")
        case (Inl e)
        with Cons.prems more Recv show ?thesis
          by (cases c) (auto split: if_splits)
      next
        case (Inr new)
        let ?got = "got @ take (requested - length got) bs"
        have rc: "receive_ctrl (n - length fds) c = (Inr new, [])" and len: "length (fds @ new) \<le> n"
          and fds: "recv_fds (Recv bs c # rs) = new @ recv_fds rs"
          using Inr Cons.prems(3) by (cases c; auto split: if_splits)+
        have run: "receive_loop rs requested n ?got (fds @ new) = Some (r, closed)"
          using Cons.prems(1) more Recv rc by simp
        have len': "length ?got \<le> requested" using Cons.prems(2) by simp
        note IH = Cons.IH [OF run len' len]
        show ?thesis
        proof (cases "length bs \<le> requested - length got")
          case True
          with IH fds Recv show ?thesis by (auto split: sum.splits)
        next
          case False
          then have full: "length ?got = requested" using more by simp
          have "r = (if length (fds @ new) < n then Inl Fewer_Fds else Inr (?got, fds @ new))"
            using run full by (cases rs) (auto split: if_splits)
          moreover have "prefix ?got (got @ bs @ recv_bytes rs)"
            by (simp add: prefix_def) (metis append.assoc append_take_drop_id)
          ultimately show ?thesis
            using IH fds Recv full len by (auto split: if_splits)
        qed
      qed
    qed (use Cons.prems more in auto)
  qed
qed

text \<open>
  \<open>receive_data\<close> either returns exactly the number of bytes asked for and exactly the number of
  descriptors expected, both in the order in which they arrived and none of them closed, or it throws.
  When it throws because descriptors are missing, it has closed the ones that did arrive.
\<close>

lemma receive_data_complete:
  "case receive_data rs requested n of
     None \<Rightarrow> True
   | Some (Inr (bs, fs), closed) \<Rightarrow> closed = [] \<and> length bs = requested \<and> length fs = n \<and>
       prefix bs (recv_bytes rs) \<and> prefix fs (recv_fds rs)
   | Some (Inl e, closed) \<Rightarrow> (if e = Fewer_Fds then \<exists>fs. length fs < n \<and> prefix fs (recv_fds rs) \<and>
       closed = filter (\<lambda>fd. fd \<ge> 0) fs else True)"
proof (cases "requested = 0 \<or> receive_loop rs requested n [] [] = None")
  case True
  then show ?thesis by (auto simp: receive_data_def)
next
  case False
  then obtain r closed where run: "receive_loop rs requested n [] [] = Some (r, closed)" by auto
  from receive_loop_result [OF run] show ?thesis
    using False run by (auto simp: receive_data_def split: sum.splits)
qed

text \<open>A connection that ends after some descriptors arrived leaves them open.\<close>

lemma receive_data_leaks: "receive_data [Recv [b] (Ctrl_Fds [fd] False), Recv_Shutdown] 2 1 = Some (Inl Disconnected, [])"
  by (simp add: receive_data_def)

end
