(* ===== verification/Geometry.thy ===== *)
theory Geometry
  imports Anbox_Prelude
begin

text \<open>
  Rectangles (\<open>src/anbox/graphics/rect.{h,cpp}\<close>), densities (\<open>density.cpp\<close>) and the hit test of a
  window without decoration (\<open>src/anbox/platform/sdl/window.cpp\<close>).

  Coordinates are 32-bit signed integers with two's-complement arithmetic, so that the laws about sizes
  hold without any bound on the coordinates. \<open>boost::lexical_cast\<close>, which reads a coordinate, is a
  parameter.
\<close>

section \<open>Rectangles\<close>

record rect =
  rleft :: i32
  rtop :: i32
  rright :: i32
  rbottom :: i32

definition Rect :: "i32 \<Rightarrow> i32 \<Rightarrow> i32 \<Rightarrow> i32 \<Rightarrow> rect" where
  "Rect l t r b = \<lparr>rleft = l, rtop = t, rright = r, rbottom = b\<rparr>"

definition Rect_Invalid :: rect where
  "Rect_Invalid = Rect (-1) (-1) (-1) (-1)"

definition Rect_Empty :: rect where
  "Rect_Empty = Rect 0 0 0 0"

definition rwidth :: "rect \<Rightarrow> i32" where
  "rwidth r = rright r - rleft r"

definition rheight :: "rect \<Rightarrow> i32" where
  "rheight r = rbottom r - rtop r"

definition rvalid :: "rect \<Rightarrow> bool" where
  "rvalid r \<longleftrightarrow> sint (rwidth r) \<ge> 0 \<and> sint (rheight r) \<ge> 0"

definition smin :: "i32 \<Rightarrow> i32 \<Rightarrow> i32" where
  "smin a b = (if sint b < sint a then b else a)"

definition smax :: "i32 \<Rightarrow> i32 \<Rightarrow> i32" where
  "smax a b = (if sint a < sint b then b else a)"

definition rmerge :: "rect \<Rightarrow> rect \<Rightarrow> rect" where
  "rmerge r rhs =
     \<lparr>rleft = smin (rleft r) (rleft rhs), rtop = smin (rtop r) (rtop rhs),
      rright = smax (rright r) (rright rhs), rbottom = smax (rbottom r) (rbottom rhs)\<rparr>"

definition rtranslate :: "i32 \<Rightarrow> i32 \<Rightarrow> rect \<Rightarrow> rect" where
  "rtranslate x y r =
     (let old_width = rwidth r; old_height = rheight r in
      \<lparr>rleft = x, rtop = y, rright = x + old_width, rbottom = y + old_height\<rparr>)"

definition rresize :: "i32 \<Rightarrow> i32 \<Rightarrow> rect \<Rightarrow> rect" where
  "rresize width height r = r\<lparr>rright := rleft r + width, rbottom := rtop r + height\<rparr>"

text \<open>\<open>operator>>\<close> on the tokens of the word it read; anything it cannot use leaves the rectangle.\<close>

definition rect_read :: "(string \<Rightarrow> i32 option) \<Rightarrow> string list \<Rightarrow> rect \<Rightarrow> rect" where
  "rect_read lexical_cast tokens rect =
     (case map lexical_cast tokens of
        [Some w, Some h] \<Rightarrow> Rect 0 0 w h
      | [Some l, Some t, Some r, Some b] \<Rightarrow> Rect l t r b
      | _ \<Rightarrow> rect)"

lemmas rect_simps = Rect_def rwidth_def rheight_def rmerge_def rtranslate_def rresize_def Let_def

lemma rwidth_translate [simp]: "rwidth (rtranslate x y r) = rwidth r"
  and rheight_translate [simp]: "rheight (rtranslate x y r) = rheight r"
  by (simp_all add: rect_simps)

lemma rwidth_resize [simp]: "rwidth (rresize w h r) = w"
  and rheight_resize [simp]: "rheight (rresize w h r) = h"
  by (simp_all add: rect_simps)

text \<open>A point lies in a rectangle, and one rectangle in another, by signed comparison.\<close>

definition rcontains :: "rect \<Rightarrow> rect \<Rightarrow> bool" where
  "rcontains a b \<longleftrightarrow> sint (rleft a) \<le> sint (rleft b) \<and> sint (rtop a) \<le> sint (rtop b) \<and>
     sint (rright b) \<le> sint (rright a) \<and> sint (rbottom b) \<le> sint (rbottom a)"

text \<open>
  Merging rectangles, as the platform does with the bounds of all displays, gives the smallest
  rectangle that contains both: it contains each of them, and it lies in every rectangle that does.
\<close>

lemma merge_is_bounding_box:
  "rcontains c (rmerge a b) \<longleftrightarrow> rcontains c a \<and> rcontains c b"
  by (auto simp: rcontains_def rmerge_def smin_def smax_def)

section \<open>The displays of the host\<close>

text \<open>
  The part of \<open>Platform::Platform\<close> that finds the display frame: \<open>bounds\<close> are the positions and sizes
  SDL reports, nothing for a display it reports no bounds for.
\<close>

definition display_frame :: "rect \<Rightarrow> (i32 \<times> i32 \<times> i32 \<times> i32) option list \<Rightarrow> (fault + rect) \<times> bool" where
  "display_frame configured bounds =
     (if configured = Rect_Invalid
      then let f = fold (\<lambda>d frame.
                 case d of
                   None \<Rightarrow> frame
                 | Some (x, y, w, h) \<Rightarrow>
                     let r = Rect x y (x + w) (y + h)
                     in if frame = Rect_Invalid then r else rmerge frame r) bounds Rect_Invalid
           in (if f = Rect_Invalid then Inl (Runtime_Error ''No valid display configuration found'') else Inr f,
               False)
      else (Inr configured, True))"

section \<open>The hit test\<close>

datatype density = Low | Medium | Tv | High | Xhigh | Xxhigh

fun density_value :: "density \<Rightarrow> u32" where
  "density_value Low = 120"
| "density_value Medium = 160"
| "density_value Tv = 213"
| "density_value High = 240"
| "density_value Xhigh = 360"
| "density_value Xxhigh = 480"

definition current_density :: density where
  "current_density = Medium"

definition dp_to_pixel :: "u32 \<Rightarrow> u32" where
  "dp_to_pixel dp = dp * density_value current_density div density_value Medium"

datatype hit =
    Hit_Normal | Hit_Draggable | Hit_Top_Left | Hit_Top | Hit_Top_Right | Hit_Right | Hit_Bottom_Right
  | Hit_Bottom | Hit_Bottom_Left | Hit_Left

datatype hit_action = Close_Window | Switch_Window_State

record window_flags =
  wf_fullscreen :: bool
  wf_resizable :: bool
  wf_maximized :: bool

abbreviation window_resize_border :: u32 where "window_resize_border \<equiv> 10"
abbreviation top_drag_area :: u32 where "top_drag_area \<equiv> 42"
abbreviation button_area :: u32 where "button_area \<equiv> 42"

definition on_window_hit :: "window_flags \<Rightarrow> int \<Rightarrow> int \<Rightarrow> int \<Rightarrow> int \<Rightarrow> hit \<times> hit_action list" where
  "on_window_hit flags w h x y =
     (let border_size = sint (dp_to_pixel window_resize_border);
          top_drag_area_height = sint (dp_to_pixel top_drag_area);
          button_area_width = sint (dp_to_pixel button_area)
      in
      if wf_fullscreen flags then (Hit_Normal, [])
      else if \<not> wf_resizable flags
      then (if y < border_size then Hit_Draggable else Hit_Normal, [])
      else if y < top_drag_area_height
      then if x > w - button_area_width \<and> x < w then (Hit_Normal, [Close_Window])
           else if x > w - button_area_width * 2 \<and> x < w - button_area_width
           then (Hit_Normal, [Switch_Window_State])
           else (Hit_Draggable, [])
      else if wf_maximized flags then (Hit_Normal, [])
      else if x < border_size \<and> y < border_size then (Hit_Top_Left, [])
      else if x > border_size \<and> x < w - border_size \<and> y < border_size then (Hit_Top, [])
      else if x > w - border_size \<and> y < border_size then (Hit_Top_Right, [])
      else if x > w - border_size \<and> y > border_size \<and> y < h - border_size then (Hit_Right, [])
      else if x > w - border_size \<and> y > h - border_size then (Hit_Bottom_Right, [])
      else if x < w - border_size \<and> x > border_size \<and> y > h - border_size then (Hit_Bottom, [])
      else if x < border_size \<and> y > h - border_size then (Hit_Bottom_Left, [])
      else if x < border_size \<and> y < h - border_size \<and> y > border_size then (Hit_Left, [])
      else (Hit_Normal, []))"

lemma dp_to_pixel_values [simp]: "sint (dp_to_pixel 10) = 10" "sint (dp_to_pixel 42) = 42"
  by (simp_all add: dp_to_pixel_def current_density_def)

text \<open>
  The hit test never answers that a window may be resized at its top edge or one of its top corners:
  the area in which the window can be dragged is higher than the border and is looked at first, so that
  three branches of the function are dead. A window is closed exactly by a hit in the rightmost 41 pixels
  of that area.
\<close>

lemma hit_test_never_resizes_top:
  "fst (on_window_hit flags w h x y) \<notin> {Hit_Top_Left, Hit_Top, Hit_Top_Right} \<and>
   (Close_Window \<in> set (snd (on_window_hit flags w h x y)) \<longleftrightarrow>
     \<not> wf_fullscreen flags \<and> wf_resizable flags \<and> y < 42 \<and> w - 42 < x \<and> x < w)"
  by (simp add: on_window_hit_def Let_def)

end
