(* ===== verification/WindowManager.thy ===== *)
theory WindowManager
  imports OrderedMap Geometry
begin

text \<open>
  Windows, tasks and layers: \<open>src/anbox/wm\<close>, the window bookkeeping of the SDL platform
  (\<open>src/anbox/platform/sdl/platform.cpp\<close>) and the composition strategies
  (\<open>src/anbox/graphics/*_composer_strategy.cpp\<close>).

  A window object is owned by the table of the window manager and only weakly referenced by the
  platform, so the platform can use it exactly while it is in that table. Calls to the renderer and to
  Android are the effects an operation adds to the log. Map entries keyed by the address of a window are
  keyed by its number here.

  Shown here: which tasks have a window after an update; that a window is drawn with exactly the layers
  of its task, in order and with their sizes; that the window callbacks only ever act on the task of the
  window they are called for.
\<close>

section \<open>Windows\<close>

abbreviation Stack_Default :: int where "Stack_Default \<equiv> 0"
abbreviation Stack_Fullscreen :: int where "Stack_Fullscreen \<equiv> 1"
abbreviation Stack_Freeform :: int where "Stack_Freeform \<equiv> 2"

record window_state =
  st_display :: int
  st_has_surface :: bool
  st_frame :: rect
  st_package :: string
  st_task :: int
  st_stack :: int

definition window_state_default :: window_state where
  "window_state_default =
     \<lparr>st_display = -1, st_has_surface = False, st_frame = Rect_Invalid, st_package = '''', st_task = -1,
      st_stack = -1\<rparr>"

record window =
  w_id :: int
  w_task :: int
  w_frame :: rect
  w_title :: string
  w_attached :: bool

datatype desk_effect =
    Create_Native int
  | Destroy_Native int
  | Api_Remove_Task int
  | Api_Focus_Task int
  | Api_Resize_Task int rect int

text \<open>The platform (\<open>renderer_\<close>, the next window id, \<open>windows_\<close>, the focus) and the manager (\<open>windows_\<close>).\<close>

record desk =
  dk_renderer :: bool
  dk_next_id :: i32
  dk_ids :: "(int \<times> unit) list"
  dk_focused :: int
  dk_windows :: "(int \<times> window) list"
  dk_log :: "desk_effect list"

definition desk_new :: desk where
  "desk_new = \<lparr>dk_renderer = True, dk_next_id = 0, dk_ids = [], dk_focused = 0, dk_windows = [], dk_log = []\<rparr>"

definition effect :: "desk_effect \<Rightarrow> desk \<Rightarrow> desk" where
  "effect e d = d\<lparr>dk_log := dk_log d @ [e]\<rparr>"

definition create_window :: "int \<Rightarrow> rect \<Rightarrow> string \<Rightarrow> desk \<Rightarrow> window option \<times> desk" where
  "create_window task frame title d =
     (if \<not> dk_renderer d then (None, d)
      else let i = sint (dk_next_id d) in
        (Some \<lparr>w_id = i, w_task = task, w_frame = frame, w_title = title, w_attached = False\<rparr>,
         d\<lparr>dk_next_id := dk_next_id d + 1, dk_focused := i, dk_ids := om_insert i () (dk_ids d)\<rparr>))"

text \<open>\<open>native_ok\<close> says for which windows \<open>createNativeWindow\<close> succeeds.\<close>

definition attach :: "(int \<Rightarrow> bool) \<Rightarrow> window \<Rightarrow> desk \<Rightarrow> window \<times> desk" where
  "attach native_ok w d =
     (if \<not> dk_renderer d then (w, d)
      else (w\<lparr>w_attached := native_ok (w_id w)\<rparr>, effect (Create_Native (w_id w)) d))"

text \<open>
  \<open>release\<close> does not clear \<open>attached_\<close>, and the destructor of the base class calls it again; there the
  virtual \<open>native_handle\<close> is the one of the base class, which is 0.
\<close>

definition release :: "int \<Rightarrow> window \<Rightarrow> desk \<Rightarrow> desk" where
  "release handle w d =
     (if \<not> dk_renderer d \<or> \<not> w_attached w then d else effect (Destroy_Native handle) d)"

definition destroy_window :: "window \<Rightarrow> desk \<Rightarrow> desk" where
  "destroy_window w d = release 0 w d"

definition update_frame :: "rect \<Rightarrow> window \<Rightarrow> window" where
  "update_frame frame w = (if frame = w_frame w then w else w\<lparr>w_frame := frame\<rparr>)"

section \<open>The multi-window manager\<close>

text \<open>\<open>app_name\<close> is the lookup in the application database: the name of a package it knows.\<close>

definition apply_updated ::
  "(int \<Rightarrow> bool) \<Rightarrow> (string \<Rightarrow> string option) \<Rightarrow> window_state \<Rightarrow>
   desk \<times> (int \<times> window_state list) list \<Rightarrow> desk \<times> (int \<times> window_state list) list"
where
  "apply_updated native_ok app_name s = (\<lambda>(d, task_updates).
     if st_stack s \<noteq> Stack_Freeform then (d, task_updates)
     else if \<not> st_has_surface s then (d, task_updates)
     else case map_of (dk_windows d) (st_task s) of
         Some _ \<Rightarrow>
           (case map_of task_updates (st_task s) of
              None \<Rightarrow> (d, om_set (st_task s) [s] task_updates)
            | Some ss \<Rightarrow> (d, om_set (st_task s) (ss @ [s]) task_updates))
       | None \<Rightarrow>
           let title = (case app_name (st_package s) of None \<Rightarrow> st_package s | Some n \<Rightarrow> n) in
           (case create_window (st_task s) (st_frame s) title d of
              (Some w, d') \<Rightarrow>
                (case attach native_ok w d' of
                   (w', d'') \<Rightarrow> (d''\<lparr>dk_windows := om_insert (st_task s) w' (dk_windows d'')\<rparr>, task_updates))
            | (None, d') \<Rightarrow> (effect (Api_Remove_Task (st_task s)) d', task_updates)))"

definition apply_removed ::
  "(int \<times> window_state list) list \<Rightarrow> window_state \<Rightarrow> desk \<Rightarrow> desk"
where
  "apply_removed task_updates s d =
     (case map_of (dk_windows d) (st_task s) of
        None \<Rightarrow> d
      | Some w \<Rightarrow>
          if map_of task_updates (st_task s) = None
          then let d' = release (w_id w) w d
               in destroy_window w (d'\<lparr>dk_windows := om_erase (st_task s) (dk_windows d')\<rparr>)
          else d)"

text \<open>\<open>Window::update_state\<close>, to which the collected updates are sent, does nothing.\<close>

definition apply_window_state_update ::
  "(int \<Rightarrow> bool) \<Rightarrow> (string \<Rightarrow> string option) \<Rightarrow> window_state list \<Rightarrow> window_state list \<Rightarrow> desk \<Rightarrow> desk"
where
  "apply_window_state_update native_ok app_name updated removed d =
     (case fold (apply_updated native_ok app_name) updated (d, []) of
        (d', task_updates) \<Rightarrow> fold (apply_removed task_updates) removed d')"

definition find_window_for_task :: "int \<Rightarrow> desk \<Rightarrow> window option" where
  "find_window_for_task task d = find (\<lambda>w. w_task w = task) (map snd (dk_windows d))"

section \<open>Window callbacks of the platform\<close>

text \<open>The object behind a weak reference, while it is alive.\<close>

definition lock_window :: "int \<Rightarrow> desk \<Rightarrow> window option" where
  "lock_window i d =
     (case map_of (dk_ids d) i of
        None \<Rightarrow> None
      | Some _ \<Rightarrow> find (\<lambda>w. w_id w = i) (map snd (dk_windows d)))"

text \<open>The object is changed where it is, in the table entry of its task.\<close>

definition store_window :: "window \<Rightarrow> desk \<Rightarrow> desk" where
  "store_window w d = d\<lparr>dk_windows := om_set (w_task w) w (dk_windows d)\<rparr>"

definition window_deleted :: "int \<Rightarrow> desk \<Rightarrow> desk" where
  "window_deleted i d =
     (case map_of (dk_ids d) i of
        None \<Rightarrow> d
      | Some _ \<Rightarrow>
          let d' = (case lock_window i d of None \<Rightarrow> d | Some w \<Rightarrow> effect (Api_Remove_Task (w_task w)) d)
          in d'\<lparr>dk_ids := om_erase i (dk_ids d')\<rparr>)"

definition window_wants_focus :: "int \<Rightarrow> desk \<Rightarrow> desk" where
  "window_wants_focus i d =
     (case lock_window i d of
        None \<Rightarrow> d
      | Some w \<Rightarrow> effect (Api_Focus_Task (w_task w)) (d\<lparr>dk_focused := w_id w\<rparr>))"

definition window_moved :: "int \<Rightarrow> i32 \<Rightarrow> i32 \<Rightarrow> desk \<Rightarrow> desk" where
  "window_moved i x y d =
     (case lock_window i d of
        None \<Rightarrow> d
      | Some w \<Rightarrow>
          let new_frame = rtranslate x y (w_frame w)
          in effect (Api_Resize_Task (w_task w) new_frame 3) (store_window (update_frame new_frame w) d))"

definition window_resized :: "int \<Rightarrow> i32 \<Rightarrow> i32 \<Rightarrow> desk \<Rightarrow> desk" where
  "window_resized i width height d =
     (case lock_window i d of
        None \<Rightarrow> d
      | Some w \<Rightarrow>
          let new_frame = rresize width height (w_frame w)
          in effect (Api_Resize_Task (w_task w) new_frame 3) (store_window (update_frame new_frame w) d))"

section \<open>Which tasks have a window\<close>

definition shown :: "window_state \<Rightarrow> bool" where
  "shown s \<longleftrightarrow> st_stack s = Stack_Freeform \<and> st_has_surface s"

definition shown_tasks :: "window_state list \<Rightarrow> int list" where
  "shown_tasks ss = map st_task (filter shown ss)"

abbreviation has_window :: "desk \<Rightarrow> int \<Rightarrow> bool" where
  "has_window d t \<equiv> map_of (dk_windows d) t \<noteq> None"

definition desk_inv :: "desk \<Rightarrow> bool" where
  "desk_inv d \<longleftrightarrow> om_wf (dk_windows d) \<and> om_wf (dk_ids d) \<and> (\<forall>(t, w) \<in> set (dk_windows d). w_task w = t)"


lemma set_om_set: "set (om_set k v m) \<subseteq> insert (k, v) (set m)"
  by (induction m) auto

lemma set_om_insert: "set (om_insert k v m) \<subseteq> insert (k, v) (set m)"
  using set_om_set [of k v m] by (auto simp: om_insert_def split: option.splits)

lemma release_fields [simp]:
  "dk_windows (release i w d) = dk_windows d" "dk_ids (release i w d) = dk_ids d"
  "dk_renderer (release i w d) = dk_renderer d"
  by (simp_all add: release_def effect_def)

lemma destroy_fields [simp]:
  "dk_windows (destroy_window w d) = dk_windows d" "dk_ids (destroy_window w d) = dk_ids d"
  "dk_renderer (destroy_window w d) = dk_renderer d"
  by (simp_all add: destroy_window_def)

lemma apply_updated_step:
  assumes "desk_inv d" and "dk_renderer d" and "apply_updated native_ok app_name s (d, tu) = (d', tu')"
  shows "desk_inv d' \<and> dk_renderer d' \<and>
    (\<forall>t. has_window d' t \<longleftrightarrow> has_window d t \<or> shown s \<and> t = st_task s) \<and>
    (\<forall>t. map_of tu' t \<noteq> None \<longleftrightarrow> map_of tu t \<noteq> None \<or> shown s \<and> t = st_task s \<and> has_window d t)"
proof (cases "shown s \<and> map_of (dk_windows d) (st_task s) = None")
  case True
  obtain title w where d': "d' = effect (Create_Native (sint (dk_next_id d)))
        (d\<lparr>dk_next_id := dk_next_id d + 1, dk_focused := sint (dk_next_id d),
           dk_ids := om_insert (sint (dk_next_id d)) () (dk_ids d)\<rparr>)
        \<lparr>dk_windows := om_insert (st_task s) w (dk_windows d)\<rparr>"
    and w: "w_task w = st_task s" and tu: "tu' = tu"
    using assms(2,3) True
    by (auto simp: apply_updated_def shown_def create_window_def attach_def Let_def effect_def)
  have "\<forall>(t, v) \<in> set (om_insert (st_task s) w (dk_windows d)). w_task v = t"
    using set_om_insert [of "st_task s" w "dk_windows d"] assms(1) w by (auto simp: desk_inv_def)
  then show ?thesis
    using assms(1,2) True by (auto simp: d' tu desk_inv_def effect_def)
next
  case False
  with assms show ?thesis
    by (auto simp: apply_updated_def shown_def split: option.splits if_splits)
qed

lemma apply_updated_fold:
  assumes "desk_inv d" and "dk_renderer d"
    and "fold (apply_updated native_ok app_name) us (d, tu) = (d', tu')"
  shows "desk_inv d' \<and> dk_renderer d' \<and>
    (\<forall>t. has_window d' t \<longleftrightarrow> has_window d t \<or> t \<in> set (shown_tasks us)) \<and>
    (\<forall>t. map_of tu' t \<noteq> None \<longleftrightarrow>
      map_of tu t \<noteq> None \<or> count_list (shown_tasks us) t \<ge> (if has_window d t then 1 else 2))"
  using assms
proof (induction us arbitrary: d tu)
  case Nil
  then show ?case by (simp add: shown_tasks_def)
next
  case (Cons s us)
  obtain d1 tu1 where step: "apply_updated native_ok app_name s (d, tu) = (d1, tu1)"
    by (cases "apply_updated native_ok app_name s (d, tu)") auto
  note one = apply_updated_step [OF Cons.prems(1,2) step]
  have "fold (apply_updated native_ok app_name) us (d1, tu1) = (d', tu')"
    using Cons.prems(3) step by simp
  note rest = Cons.IH [OF one [THEN conjunct1] one [THEN conjunct2, THEN conjunct1] this]
  have zero: "count_list xs t = 0 \<longleftrightarrow> t \<notin> set xs" for xs :: "int list" and t
    by (simp add: count_list_0_iff)
  show ?case
  proof (intro conjI allI)
    fix t
    show "has_window d' t \<longleftrightarrow> has_window d t \<or> t \<in> set (shown_tasks (s # us))"
      using one rest by (auto simp: shown_tasks_def)
    show "map_of tu' t \<noteq> None \<longleftrightarrow> map_of tu t \<noteq> None \<or>
        count_list (shown_tasks (s # us)) t \<ge> (if has_window d t then 1 else 2)"
      using one [THEN conjunct2, THEN conjunct2, THEN conjunct1, rule_format, of t]
        one [THEN conjunct2, THEN conjunct2, THEN conjunct2, rule_format, of t]
        rest [THEN conjunct2, THEN conjunct2, THEN conjunct2, rule_format, of t]
      by (cases "shown s \<and> st_task s = t") (auto simp: shown_tasks_def)
  qed (use rest in auto)
qed

lemma apply_removed_fold:
  assumes "desk_inv d"
  shows "desk_inv (fold (apply_removed tu) rs d) \<and>
    dk_renderer (fold (apply_removed tu) rs d) = dk_renderer d \<and>
    (\<forall>t. has_window (fold (apply_removed tu) rs d) t \<longleftrightarrow>
      has_window d t \<and> \<not> (t \<in> st_task ` set rs \<and> map_of tu t = None))"
  using assms
proof (induction rs arbitrary: d)
  case Nil
  then show ?case by simp
next
  case (Cons s rs)
  have "desk_inv (apply_removed tu s d)"
    using Cons.prems by (auto simp: apply_removed_def desk_inv_def om_erase_def [of _ "dk_windows d"] Let_def
        intro: om_wf_erase [unfolded om_erase_def] split: option.splits)
  moreover have "has_window (apply_removed tu s d) t \<longleftrightarrow>
      has_window d t \<and> \<not> (t = st_task s \<and> map_of tu t = None)" for t
    by (auto simp: apply_removed_def Let_def split: option.splits)
  moreover have "dk_renderer (apply_removed tu s d) = dk_renderer d"
    by (auto simp: apply_removed_def Let_def split: option.splits)
  ultimately show ?case using Cons.IH [of "apply_removed tu s d"] by auto
qed

lemma apply_window_state_update_ok:
  assumes "desk_inv d" and "dk_renderer d"
  shows "desk_inv (apply_window_state_update native_ok app_name us rs d) \<and>
    dk_renderer (apply_window_state_update native_ok app_name us rs d) \<and>
    (\<forall>t. has_window (apply_window_state_update native_ok app_name us rs d) t \<longleftrightarrow>
      (if has_window d t then True else t \<in> set (shown_tasks us)) \<and>
      \<not> (t \<in> st_task ` set rs \<and> count_list (shown_tasks us) t < (if has_window d t then 1 else 2)))"
proof -
  obtain d1 tu where run: "fold (apply_updated native_ok app_name) us (d, []) = (d1, tu)"
    by (cases "fold (apply_updated native_ok app_name) us (d, [])") auto
  note up = apply_updated_fold [OF assms run]
  have "map_of tu t = None \<longleftrightarrow> count_list (shown_tasks us) t < (if has_window d t then 1 else 2)" for t
    using up [THEN conjunct2, THEN conjunct2, THEN conjunct2, rule_format, of t] by (auto simp: not_le)
  then show ?thesis
    using apply_removed_fold [of d1 tu rs] up by (simp add: apply_window_state_update_def run)
qed

datatype desk_op =
    Update "window_state list" "window_state list"
  | Deleted int
  | Wants_Focus int
  | Moved int i32 i32
  | Resized int i32 i32

fun desk_step :: "(int \<Rightarrow> bool) \<Rightarrow> (string \<Rightarrow> string option) \<Rightarrow> desk_op \<Rightarrow> desk \<Rightarrow> desk" where
  "desk_step native_ok app_name (Update us rs) d = apply_window_state_update native_ok app_name us rs d"
| "desk_step native_ok app_name (Deleted i) d = window_deleted i d"
| "desk_step native_ok app_name (Wants_Focus i) d = window_wants_focus i d"
| "desk_step native_ok app_name (Moved i x y) d = window_moved i x y d"
| "desk_step native_ok app_name (Resized i w h) d = window_resized i w h d"

lemma lock_window_mem: "lock_window i d = Some w \<Longrightarrow> w_id w = i \<and> w \<in> snd ` set (dk_windows d)"
  by (auto simp: lock_window_def find_Some_iff split: option.splits)

lemma update_frame_fields [simp]:
  "w_task (update_frame f w) = w_task w" "w_id (update_frame f w) = w_id w" "w_frame (update_frame f w) = f"
  by (simp_all add: update_frame_def)

lemma desk_new_simps [simp]:
  "desk_inv desk_new" "dk_renderer desk_new" "dk_windows desk_new = []" "dk_ids desk_new = []"
  by (simp_all add: desk_inv_def desk_new_def)

lemma desk_inv_store:
  assumes "desk_inv d"
  shows "desk_inv (store_window w d) \<and> map_of (dk_windows (store_window w d)) (w_task w) = Some w"
  using assms set_om_set [of "w_task w" w "dk_windows d"] by (auto simp: desk_inv_def store_window_def)

lemma desk_step_inv:
  assumes "desk_inv d" and "dk_renderer d"
  shows "desk_inv (desk_step native_ok app_name op d) \<and> dk_renderer (desk_step native_ok app_name op d)"
proof -
  have eff: "desk_inv (effect e d') = desk_inv d'" "dk_renderer (effect e d') = dk_renderer d'" for e d'
    by (simp_all add: effect_def desk_inv_def)
  have store: "dk_renderer (store_window w d) = dk_renderer d" for w by (simp add: store_window_def)
  have "desk_inv (window_deleted i d) \<and> dk_renderer (window_deleted i d)" for i
    using assms by (auto simp: window_deleted_def Let_def effect_def desk_inv_def split: option.splits)
  moreover have "desk_inv (window_wants_focus i d) \<and> dk_renderer (window_wants_focus i d)" for i
    using assms by (auto simp: window_wants_focus_def effect_def desk_inv_def split: option.splits)
  moreover have "desk_inv (window_moved i x y d) \<and> dk_renderer (window_moved i x y d)" for i x y
    using assms by (auto simp: window_moved_def Let_def eff store desk_inv_store [OF assms(1)] split: option.splits)
  moreover have "desk_inv (window_resized i x y d) \<and> dk_renderer (window_resized i x y d)" for i x y
    using assms by (auto simp: window_resized_def Let_def eff store desk_inv_store [OF assms(1)] split: option.splits)
  ultimately show ?thesis
    using apply_window_state_update_ok [OF assms] by (cases op) auto
qed

lemma desk_run_inv:
  "desk_inv d \<Longrightarrow> dk_renderer d \<Longrightarrow>
   desk_inv (fold (desk_step native_ok app_name) ops d) \<and> dk_renderer (fold (desk_step native_ok app_name) ops d)"
  by (induction ops arbitrary: d) (simp_all add: desk_step_inv)

lemma find_window_map: "desk_inv d \<Longrightarrow> find_window_for_task t d = map_of (dk_windows d) t"
proof -
  have "find (\<lambda>w. w_task w = t) (map snd m) = map_of m t" if "\<forall>(t, w) \<in> set m. w_task w = t"
    for m :: "(int \<times> window) list"
    using that by (induction m) auto
  then show "desk_inv d \<Longrightarrow> ?thesis" by (simp add: find_window_for_task_def desk_inv_def)
qed


definition a_state :: "int \<Rightarrow> window_state" where
  "a_state t = window_state_default\<lparr>st_has_surface := True, st_task := t, st_stack := Stack_Freeform,
     st_package := ''app''\<rparr>"

text \<open>
  The case the removal loop gets wrong: the first state of a task and the removal of another window of
  the same task, in one update, destroy the window that was just made.
\<close>

lemma first_state_and_removal:
  "\<not> has_window (apply_window_state_update native_ok app_name [a_state t] [a_state t] desk_new) t"
  "has_window (apply_window_state_update native_ok app_name [a_state t] [] desk_new) t"
  using apply_window_state_update_ok [of desk_new native_ok app_name "[a_state t]" "[a_state t]"]
    apply_window_state_update_ok [of desk_new native_ok app_name "[a_state t]" "[]"]
  by (simp_all add: shown_tasks_def shown_def a_state_def)

text \<open>
  A window that is moved or resized by the user: the callback tells Android to resize exactly the task
  of that window, the new frame is the one stored with the window, moving keeps the size, resizing keeps
  the corner and sets the size. A callback for a window that is gone does nothing.
\<close>

lemma window_callbacks:
  "let d = fold (desk_step native_ok app_name) ops desk_new in
   (case lock_window i d of
      None \<Rightarrow> window_moved i x y d = d \<and> window_resized i x y d = d
    | Some w \<Rightarrow>
        dk_log (window_moved i x y d) =
          dk_log d @ [Api_Resize_Task (w_task w) (rtranslate x y (w_frame w)) 3] \<and>
        dk_log (window_resized i x y d) =
          dk_log d @ [Api_Resize_Task (w_task w) (rresize x y (w_frame w)) 3] \<and>
        map_option w_frame (find_window_for_task (w_task w) (window_moved i x y d)) =
          Some (rtranslate x y (w_frame w)) \<and>
        map_option w_frame (find_window_for_task (w_task w) (window_resized i x y d)) =
          Some (rresize x y (w_frame w)) \<and>
        rwidth (rtranslate x y (w_frame w)) = rwidth (w_frame w) \<and>
        rwidth (rresize x y (w_frame w)) = x \<and> rleft (rresize x y (w_frame w)) = rleft (w_frame w))"
proof -
  let ?d = "fold (desk_step native_ok app_name) ops desk_new"
  have inv: "desk_inv ?d" "dk_renderer ?d" using desk_run_inv [of desk_new] by simp_all
  have "desk_inv (window_moved i x y ?d)" "desk_inv (window_resized i x y ?d)"
    using desk_step_inv [OF inv, of native_ok app_name "Moved i x y"]
      desk_step_inv [OF inv, of native_ok app_name "Resized i x y"] by simp_all
  note find = this [THEN find_window_map]
  show ?thesis
    by (cases "lock_window i ?d")
       (auto simp: Let_def find, auto simp: window_moved_def window_resized_def Let_def effect_def
         store_window_def rresize_def)
qed

section \<open>Composition\<close>

text \<open>\<open>sscanf\<close> with \<open>%d\<close> behind a literal prefix: white space, a sign, digits.\<close>

definition is_space :: "char \<Rightarrow> bool" where
  "is_space c \<longleftrightarrow> c \<in> {CHR '' '', CHR 0x09, CHR 0x0A, CHR 0x0B, CHR 0x0C, CHR 0x0D}"

definition is_digit :: "char \<Rightarrow> bool" where
  "is_digit c \<longleftrightarrow> 48 \<le> (of_char c :: nat) \<and> (of_char c :: nat) \<le> 57"

definition digits_value :: "string \<Rightarrow> int" where
  "digits_value ds = foldl (\<lambda>n c. n * 10 + (of_char c - 48)) 0 ds"

definition scan_d :: "string \<Rightarrow> int option" where
  "scan_d s =
     (let s1 = dropWhile is_space s;
          (neg, s2) = (case s1 of [] \<Rightarrow> (False, s1)
             | c # cs \<Rightarrow> if c = CHR ''-'' then (True, cs) else if c = CHR ''+'' then (False, cs) else (False, s1));
          ds = takeWhile is_digit s2
      in if ds = [] then None else Some (if neg then - digits_value ds else digits_value ds))"

abbreviation surface_prefix :: string where "surface_prefix \<equiv> ''org.anbox.surface.''"

record 'x renderable =
  rn_name :: string
  rn_buffer :: u32
  rn_screen_position :: rect
  rn_crop :: rect
  rn_look :: 'x            \<comment> \<open>alpha and transformation\<close>

definition layer_task :: "'x renderable \<Rightarrow> int option" where
  "layer_task r =
     (if \<not> prefix surface_prefix (rn_name r) then None
      else case scan_d (drop (length surface_prefix) (rn_name r)) of
             None \<Rightarrow> None
           | Some t \<Rightarrow> if t = 0 then None else Some t)"

definition layer_window :: "desk \<Rightarrow> 'x renderable \<Rightarrow> window option" where
  "layer_window d r = (case layer_task r of None \<Rightarrow> None | Some t \<Rightarrow> find_window_for_task t d)"

definition collect_layer ::
  "desk \<Rightarrow> 'x renderable \<Rightarrow> (int \<times> 'x renderable list) list \<Rightarrow> (int \<times> 'x renderable list) list"
where
  "collect_layer d r m =
     (case layer_window d r of
        None \<Rightarrow> m
      | Some w \<Rightarrow>
          (case map_of m (w_id w) of
             None \<Rightarrow> om_set (w_id w) [r] m
           | Some rs \<Rightarrow> om_set (w_id w) (rs @ [r]) m))"

definition layer_area :: "'x renderable \<Rightarrow> i32" where
  "layer_area r = rwidth (rn_screen_position r) * rheight (rn_screen_position r)"

definition new_window_frame :: "'x renderable list \<Rightarrow> i32 \<times> rect" where
  "new_window_frame rs = fold (\<lambda>r (max_area, frame).
     if sint (layer_area r) < sint max_area then (max_area, frame)
     else (layer_area r, rn_screen_position r)) rs (-1, Rect_Invalid)"

definition relative_layer :: "rect \<Rightarrow> 'x renderable \<Rightarrow> 'x renderable" where
  "relative_layer frame r = r\<lparr>rn_screen_position :=
     Rect (rleft (rn_screen_position r) - rleft frame + rleft (rn_crop r))
          (rtop (rn_screen_position r) - rtop frame + rtop (rn_crop r))
          (rright (rn_screen_position r) - rleft frame + rleft (rn_crop r))
          (rbottom (rn_screen_position r) - rtop frame + rtop (rn_crop r))\<rparr>"

definition multi_process_layers :: "desk \<Rightarrow> 'x renderable list \<Rightarrow> (int \<times> 'x renderable list) list" where
  "multi_process_layers d rs =
     map (\<lambda>(w, ls). (w, map (relative_layer (snd (new_window_frame ls))) ls)) (fold (collect_layer d) rs [])"

definition single_process_layers :: "'x renderable list \<Rightarrow> 'x renderable list" where
  "single_process_layers rs = filter (\<lambda>r. rn_name r \<noteq> ''Sprite'') rs"

lemma collect_layers:
  assumes "om_wf m"
  shows "om_wf (fold (collect_layer d) rs m) \<and>
    map_of (fold (collect_layer d) rs m) i =
      (let new = filter (\<lambda>r. map_option w_id (layer_window d r) = Some i) rs in
       case map_of m i of None \<Rightarrow> if new = [] then None else Some new | Some old \<Rightarrow> Some (old @ new))"
  using assms
proof (induction rs arbitrary: m)
  case Nil
  then show ?case by (simp split: option.splits)
next
  case (Cons r rs)
  have wf: "om_wf (collect_layer d r m)"
    using Cons.prems by (auto simp: collect_layer_def split: option.splits)
  show ?case
    using Cons.IH [OF wf] Cons.prems
    by (auto simp: collect_layer_def Let_def split: option.splits if_splits)
qed

lemma relative_layer_size [simp]:
  "rwidth (rn_screen_position (relative_layer f r)) = rwidth (rn_screen_position r)"
  "rheight (rn_screen_position (relative_layer f r)) = rheight (rn_screen_position r)"
  by (simp_all add: relative_layer_def rect_simps)

lemma map_of_map_values: "map_of (map (\<lambda>(k, v). (k, f v)) m) = map_option f \<circ> map_of m"
  by (induction m) auto

text \<open>
  In multi-window mode every window gets exactly the layers whose name leads to its task, in the order
  SurfaceFlinger gave them; every layer keeps its name, buffer, crop and look and its width and height,
  and all layers of a window are shifted by the same offset apart from their own crop. A window without
  layers is not drawn.
\<close>

lemma composer_assigns_layers:
  "map_of (multi_process_layers d rs) i =
     (let ls = filter (\<lambda>r. map_option w_id (layer_window d r) = Some i) rs in
      if ls = [] then None else Some (map (relative_layer (snd (new_window_frame ls))) ls)) \<and>
   map rn_name (map (relative_layer f) rs) = map rn_name rs \<and>
   map (rwidth \<circ> rn_screen_position) (map (relative_layer f) rs) = map (rwidth \<circ> rn_screen_position) rs \<and>
   map (rheight \<circ> rn_screen_position) (map (relative_layer f) rs) = map (rheight \<circ> rn_screen_position) rs"
  using collect_layers [of "[]" d rs i]
  by (auto simp: multi_process_layers_def map_of_map_values Let_def) (simp add: relative_layer_def)

end
