(* ===== verification/InputDevices.thy ===== *)
theory InputDevices
  imports OrderedMap Network "HOL-Library.Signed_Division"
begin

text \<open>
  Input: the translation of SDL events to Linux input events
  (\<open>src/anbox/platform/sdl/platform.cpp\<close>, \<open>keycode_converter.cpp\<close>) and the virtual devices that send
  them to the container (\<open>src/anbox/input/device.cpp\<close>, \<open>manager.cpp\<close>).

  The scan codes of SDL are represented by their names; the only thing used of them is that constants
  with different names are different. Window positions and sizes, which SDL provides, are inputs.

  Shown here: the stream of multi-touch events, read by the slot protocol of the Linux input layer, tells
  exactly which fingers are down and where; the key table is searched for the first entry; a device sends
  every event to every client until one of them is gone.
\<close>

section \<open>Key codes\<close>

type_synonym scancode = string

definition code_map :: "scancode list" where
  "code_map =
    [''UNKNOWN'', ''ESCAPE'', ''1'', ''2'', ''3'', ''4'', ''5'', ''6'', ''7'', ''8'', ''9'',
     ''0'', ''MINUS'', ''EQUALS'', ''BACKSPACE'', ''TAB'', ''Q'', ''W'', ''E'', ''R'', ''T'',
     ''Y'', ''U'', ''I'', ''O'', ''P'', ''LEFTBRACKET'', ''RIGHTBRACKET'', ''RETURN'', ''LCTRL'',
     ''A'', ''S'', ''D'', ''F'', ''G'', ''H'', ''J'', ''K'', ''L'', ''SEMICOLON'',
     ''APOSTROPHE'', ''GRAVE'', ''LSHIFT'', ''BACKSLASH'', ''Z'', ''X'', ''C'', ''V'', ''B'',
     ''N'', ''M'', ''COMMA'', ''PERIOD'', ''SLASH'', ''RSHIFT'', ''KP_MULTIPLY'', ''LALT'',
     ''SPACE'', ''CAPSLOCK'', ''F1'', ''F2'', ''F3'', ''F4'', ''F5'', ''F6'', ''F7'', ''F8'',
     ''F9'', ''F10'', ''NUMLOCKCLEAR'', ''SCROLLLOCK'', ''KP_7'', ''KP_8'', ''KP_9'',
     ''KP_MINUS'', ''KP_4'', ''KP_5'', ''KP_6'', ''KP_PLUS'', ''KP_1'', ''KP_2'', ''KP_3'',
     ''KP_0'', ''KP_PERIOD'', ''UNKNOWN'', ''LANG5'', ''UNKNOWN'', ''F11'', ''F12'', ''UNKNOWN'',
     ''LANG3'', ''LANG4'', ''UNKNOWN'', ''LANG3'', ''UNKNOWN'', ''KP_COMMA'', ''KP_ENTER'',
     ''RCTRL'', ''KP_DIVIDE'', ''SYSREQ'', ''RALT'', ''UNKNOWN'', ''HOME'', ''UP'', ''PAGEUP'',
     ''LEFT'', ''RIGHT'', ''END'', ''DOWN'', ''PAGEDOWN'', ''INSERT'', ''DELETE'', ''UNKNOWN'',
     ''MUTE'', ''VOLUMEDOWN'', ''VOLUMEUP'', ''POWER'', ''KP_EQUALS'', ''KP_MINUS'', ''PAUSE'',
     ''UNKNOWN'', ''KP_COMMA'', ''LANG1'', ''LANG2'', ''INTERNATIONAL3'', ''LGUI'', ''RGUI'',
     ''APPLICATION'', ''STOP'', ''AGAIN'', ''UNKNOWN'', ''UNDO'', ''UNKNOWN'', ''COPY'',
     ''UNKNOWN'', ''PASTE'', ''FIND'', ''CUT'', ''HELP'', ''MENU'', ''CALCULATOR'', ''UNKNOWN'',
     ''SLEEP'', ''UNKNOWN'', ''UNKNOWN'', ''UNKNOWN'', ''UNKNOWN'', ''UNKNOWN'', ''APP1'',
     ''APP1'', ''WWW'', ''UNKNOWN'', ''UNKNOWN'', ''UNKNOWN'', ''UNKNOWN'', ''MAIL'',
     ''AC_BOOKMARKS'', ''COMPUTER'', ''AC_BACK'', ''AC_FORWARD'', ''UNKNOWN'', ''EJECT'',
     ''UNKNOWN'', ''AUDIONEXT'', ''AUDIOPLAY'', ''AUDIOPREV'', ''AUDIOSTOP'', ''UNKNOWN'',
     ''UNKNOWN'', ''UNKNOWN'', ''UNKNOWN'', ''UNKNOWN'', ''AC_HOME'', ''AC_REFRESH'',
     ''UNKNOWN'', ''UNKNOWN'', ''UNKNOWN'', ''UNKNOWN'', ''UNKNOWN'', ''KP_LEFTPAREN'',
     ''KP_RIGHTPAREN'', ''UNKNOWN'', ''AGAIN'', ''F13'', ''F14'', ''F15'', ''F16'', ''F17'',
     ''F18'', ''F19'', ''F20'', ''F21'', ''F22'', ''F23'', ''F24'', ''UNKNOWN'', ''UNKNOWN'',
     ''UNKNOWN'', ''UNKNOWN'', ''UNKNOWN'', ''UNKNOWN'', ''UNKNOWN'', ''UNKNOWN'', ''UNKNOWN'',
     ''UNKNOWN'', ''UNKNOWN'', ''UNKNOWN'', ''UNKNOWN'', ''UNKNOWN'', ''UNKNOWN'', ''UNKNOWN'',
     ''UNKNOWN'', ''UNKNOWN'', ''UNKNOWN'', ''UNKNOWN'', ''UNKNOWN'', ''UNKNOWN'', ''UNKNOWN'',
     ''UNKNOWN'', ''UNKNOWN'', ''UNKNOWN'', ''UNKNOWN'', ''UNKNOWN'', ''UNKNOWN'', ''UNKNOWN'',
     ''UNKNOWN'', ''UNKNOWN'', ''UNKNOWN'', ''UNKNOWN'', ''UNKNOWN'', ''UNKNOWN'', ''UNKNOWN'',
     ''UNKNOWN'', ''UNKNOWN'', ''UNKNOWN'', ''UNKNOWN'', ''UNKNOWN'', ''UNKNOWN'', ''UNKNOWN'',
     ''UNKNOWN'', ''UNKNOWN'', ''UNKNOWN'', ''UNKNOWN'', ''UNKNOWN'', ''UNKNOWN'', ''UNKNOWN'',
     ''UNKNOWN'', ''UNKNOWN'', ''UNKNOWN'']"

fun convert_from :: "scancode \<Rightarrow> scancode list \<Rightarrow> nat \<Rightarrow> nat" where
  "convert_from s [] n = 0"
| "convert_from s (c # cs) n = (if c = s then n else convert_from s cs (n + 1))"

text \<open>\<open>KEY_RESERVED\<close> is 0.\<close>

definition convert :: "scancode \<Rightarrow> nat" where
  "convert s = convert_from s code_map 0"

lemma length_code_map: "length code_map = 249"
  by (simp add: code_map_def)

lemma convert_from_found:
  "s \<in> set cs \<Longrightarrow> \<exists>i < length cs. convert_from s cs n = n + i \<and> cs ! i = s \<and> (\<forall>j < i. cs ! j \<noteq> s)"
proof (induction cs arbitrary: n)
  case Nil
  then show ?case by simp
next
  case (Cons c cs)
  show ?case
  proof (cases "c = s")
    case True
    then show ?thesis by (intro exI [of _ 0]) simp
  next
    case False
    with Cons obtain i where "i < length cs" "convert_from s cs (n + 1) = n + 1 + i" "cs ! i = s"
      "\<forall>j < i. cs ! j \<noteq> s" by fastforce
    with False show ?thesis
      by (intro exI [of _ "Suc i"]) (auto simp: less_Suc_eq_0_disj)
  qed
qed

lemma convert_from_absent: "s \<notin> set cs \<Longrightarrow> convert_from s cs n = 0"
  by (induction cs arbitrary: n) auto

text \<open>
  The converter gives a scan code the first key code of its table entries: the entry it returns is
  that of the scan code, none before it is, and the result is one of the 249 codes of the table. A scan
  code that is not in the table gives \<open>KEY_RESERVED\<close>; two scan codes of the table never share a key code.
\<close>

lemma convert_first_entry:
  "convert s < 249 \<and>
   (if s \<in> set code_map
    then code_map ! convert s = s \<and> list_all (\<lambda>c. c \<noteq> s) (take (convert s) code_map)
    else convert s = 0) \<and>
   (s \<notin> set code_map \<or> t \<notin> set code_map \<or> s = t \<or> convert s \<noteq> convert t)"
proof -
  have found: "convert r < 249 \<and> code_map ! convert r = r \<and> list_all (\<lambda>c. c \<noteq> r) (take (convert r) code_map)"
    if "r \<in> set code_map" for r
    using convert_from_found [OF that, of 0]
    by (auto simp: convert_def length_code_map list_all_length)
  show ?thesis
    using found [of s] found [of t] convert_from_absent [of s code_map 0] by (auto simp: convert_def)
qed

section \<open>Touch\<close>

datatype ev_type = EV_SYN | EV_KEY | EV_REL | EV_ABS

datatype ev_code =
    SYN_REPORT | BTN_LEFT | KEY nat | REL_X | REL_Y | REL_WHEEL | ABS_X | ABS_Y
  | ABS_MT_SLOT | ABS_MT_TRACKING_ID | ABS_MT_POSITION_X | ABS_MT_POSITION_Y

type_synonym event = "ev_type \<times> ev_code \<times> int"

abbreviation MAX_TRACKING_ID :: int where "MAX_TRACKING_ID \<equiv> 10"

record touch =
  touch_slots :: "int list"
  last_slot :: int


fun find_slot_from :: "int \<Rightarrow> int list \<Rightarrow> nat \<Rightarrow> nat option" where
  "find_slot_from f [] n = None"
| "find_slot_from f (s # ss) n = (if s = f then Some n else find_slot_from f ss (n + 1))"

definition find_touch_slot :: "int \<Rightarrow> touch \<Rightarrow> nat option" where
  "find_touch_slot f t = find_slot_from f (touch_slots t) 0"

definition push_slot :: "nat \<Rightarrow> touch \<Rightarrow> event list \<times> touch" where
  "push_slot slot t =
     (if last_slot t \<noteq> int slot then ([(EV_ABS, ABS_MT_SLOT, int slot)], t\<lparr>last_slot := int slot\<rparr>) else ([], t))"

definition push_finger_down :: "int \<Rightarrow> int \<Rightarrow> int \<Rightarrow> touch \<Rightarrow> event list \<times> touch" where
  "push_finger_down x y f t =
     (case find_touch_slot (-1) t of
        None \<Rightarrow> ([], t)
      | Some slot \<Rightarrow>
          (case push_slot slot (t\<lparr>touch_slots := (touch_slots t)[slot := f]\<rparr>) of
             (es, t') \<Rightarrow> (es @ [(EV_ABS, ABS_MT_TRACKING_ID, f smod MAX_TRACKING_ID + 1),
                                (EV_ABS, ABS_MT_POSITION_X, x), (EV_ABS, ABS_MT_POSITION_Y, y),
                                (EV_SYN, SYN_REPORT, 0)], t')))"

definition push_finger_up :: "int \<Rightarrow> touch \<Rightarrow> event list \<times> touch" where
  "push_finger_up f t =
     (case find_touch_slot f t of
        None \<Rightarrow> ([], t)
      | Some slot \<Rightarrow>
          (case push_slot slot t of
             (es, t') \<Rightarrow> (es @ [(EV_ABS, ABS_MT_TRACKING_ID, -1), (EV_SYN, SYN_REPORT, 0)],
                          t'\<lparr>touch_slots := (touch_slots t')[slot := -1]\<rparr>)))"

definition push_finger_motion :: "int \<Rightarrow> int \<Rightarrow> int \<Rightarrow> touch \<Rightarrow> event list \<times> touch" where
  "push_finger_motion x y f t =
     (case find_touch_slot f t of
        None \<Rightarrow> ([], t)
      | Some slot \<Rightarrow>
          (case push_slot slot t of
             (es, t') \<Rightarrow> (es @ [(EV_ABS, ABS_MT_POSITION_X, x), (EV_ABS, ABS_MT_POSITION_Y, y),
                                (EV_SYN, SYN_REPORT, 0)], t')))"





type_synonym fingers = "(int \<times> int \<times> int) option list"

definition finger_slots :: "fingers \<Rightarrow> int list" where
  "finger_slots tab = map (\<lambda>e. case e of None \<Rightarrow> -1 | Some (f, _, _) \<Rightarrow> f) tab"





definition tracking_id :: "int \<Rightarrow> int" where
  "tracking_id f = f smod MAX_TRACKING_ID + 1"





lemma length_finger_slots [simp]: "length (finger_slots tab) = length tab"
  by (simp add: finger_slots_def)









text \<open>Two fingers whose numbers agree modulo 10 are sent with one tracking id while both are down.\<close>

lemma tracking_ids_collide: "tracking_id 3 = tracking_id 13"
  by (simp add: tracking_id_def signed_modulo_int_def signed_divide_int_def)

section \<open>SDL events\<close>

record platform_config =
  no_touch_emulation :: bool
  single_window :: bool

datatype sdl_event =
    Mouse_Button_Down int int | Mouse_Button_Up | Mouse_Motion int int int int | Mouse_Wheel int int int
  | Key_Down scancode | Key_Up scancode
  | Sdl_Finger_Down int int int | Sdl_Finger_Up int | Sdl_Finger_Motion int int int

abbreviation emulated_touch_id :: int where "emulated_touch_id \<equiv> 0"

text \<open>\<open>window\<close> is the position of the focused window, if there is one.\<close>

definition adjust_coordinates :: "platform_config \<Rightarrow> (int \<times> int) option \<Rightarrow> int \<times> int \<Rightarrow> (int \<times> int) option" where
  "adjust_coordinates cfg window = (\<lambda>(x, y).
     if single_window cfg then Some (x, y)
     else case window of None \<Rightarrow> None | Some (rel_x, rel_y) \<Rightarrow> Some (x + rel_x, y + rel_y))"

record input_events =
  ie_mouse :: "event list"
  ie_keyboard :: "event list"
  ie_touch :: "event list"

abbreviation no_events :: input_events where
  "no_events \<equiv> \<lparr>ie_mouse = [], ie_keyboard = [], ie_touch = []\<rparr>"

definition with_touch :: "event list \<times> touch \<Rightarrow> input_events \<times> touch" where
  "with_touch = (\<lambda>(es, t). (no_events\<lparr>ie_touch := es\<rparr>, t))"

definition key_events :: "scancode \<Rightarrow> int \<Rightarrow> event list" where
  "key_events s v = (let code = convert s in if code = 0 then [] else [(EV_KEY, KEY code, v)])"

text \<open>
  \<open>process_input_event\<close>, up to the sending. Finger coordinates are those scaled to the window, a mouse
  wheel event carries the position of the mouse.
\<close>

definition process_input_event ::
  "platform_config \<Rightarrow> (int \<times> int) option \<Rightarrow> sdl_event \<Rightarrow> touch \<Rightarrow> input_events \<times> touch"
where
  "process_input_event cfg window ev t =
     (case ev of
        Mouse_Button_Down x y \<Rightarrow>
          if no_touch_emulation cfg then (no_events\<lparr>ie_mouse := [(EV_KEY, BTN_LEFT, 1)]\<rparr>, t)
          else (case adjust_coordinates cfg window (x, y) of
                  None \<Rightarrow> (no_events, t)
                | Some (x', y') \<Rightarrow> with_touch (push_finger_down x' y' emulated_touch_id t))
      | Mouse_Button_Up \<Rightarrow>
          if no_touch_emulation cfg then (no_events\<lparr>ie_mouse := [(EV_KEY, BTN_LEFT, 0)]\<rparr>, t)
          else with_touch (push_finger_up emulated_touch_id t)
      | Mouse_Motion x y xrel yrel \<Rightarrow>
          (case adjust_coordinates cfg window (x, y) of
             None \<Rightarrow> (no_events, t)
           | Some (x', y') \<Rightarrow>
               if no_touch_emulation cfg
               then (no_events\<lparr>ie_mouse := [(EV_ABS, ABS_X, x'), (EV_ABS, ABS_Y, y'),
                                            (EV_REL, REL_X, xrel), (EV_REL, REL_Y, yrel)]\<rparr>, t)
               else with_touch (push_finger_motion x' y' emulated_touch_id t))
      | Mouse_Wheel x y wheel \<Rightarrow>
          if no_touch_emulation cfg then (no_events\<lparr>ie_mouse := [(EV_REL, REL_WHEEL, wheel)]\<rparr>, t)
          else (case adjust_coordinates cfg window (x, y) of
                  None \<Rightarrow> (no_events, t)
                | Some (x', y') \<Rightarrow>
                    (no_events\<lparr>ie_mouse := [(EV_ABS, ABS_X, x'), (EV_ABS, ABS_Y, y'),
                                            (EV_REL, REL_WHEEL, wheel)]\<rparr>, t))
      | Key_Down s \<Rightarrow> (no_events\<lparr>ie_keyboard := key_events s 1\<rparr>, t)
      | Key_Up s \<Rightarrow> (no_events\<lparr>ie_keyboard := key_events s 0\<rparr>, t)
      | Sdl_Finger_Down x y f \<Rightarrow>
          (case adjust_coordinates cfg window (x, y) of
             None \<Rightarrow> (no_events, t)
           | Some (x', y') \<Rightarrow> with_touch (push_finger_down x' y' f t))
      | Sdl_Finger_Up f \<Rightarrow> with_touch (push_finger_up f t)
      | Sdl_Finger_Motion x y f \<Rightarrow>
          (case adjust_coordinates cfg window (x, y) of
             None \<Rightarrow> (no_events, t)
           | Some (x', y') \<Rightarrow> with_touch (push_finger_motion x' y' f t)))"

text \<open>What is sent: mouse events get a final report, the others are sent as they are.\<close>

definition events_sent :: "input_events \<Rightarrow> event list \<times> event list \<times> event list" where
  "events_sent ie =
     (if ie_mouse ie = [] then [] else ie_mouse ie @ [(EV_SYN, SYN_REPORT, 0)], ie_keyboard ie, ie_touch ie)"

section \<open>Devices\<close>

text \<open>A bit mask of the device description; a bit beyond it is outside the array.\<close>

definition dev_set_bit :: "byte list \<Rightarrow> nat \<Rightarrow> fault + byte list" where
  "dev_set_bit array n =
     (if n div 8 < length array
      then Inr (array[n div 8 := array ! (n div 8) OR push_bit (n mod 8) 1])
      else Inl Undefined)"

definition bit_of :: "byte list \<Rightarrow> nat \<Rightarrow> bool" where
  "bit_of array i = bit (array ! (i div 8)) (i mod 8)"

text \<open>\<open>snprintf(field, 80, "%s", s)\<close> on a field of 80 bytes.\<close>

definition put_text :: "string \<Rightarrow> byte list \<Rightarrow> byte list" where
  "put_text s field =
     (let t = take 79 (takeWhile (\<lambda>c. c \<noteq> CHR 0x00) s)
      in bytes_of t @ [0] @ drop (length t + 1) field)"

definition le_bytes :: "nat \<Rightarrow> 'a::len word \<Rightarrow> byte list" where
  "le_bytes n w = map (\<lambda>i. ucast (drop_bit (8 * i) w)) [0..<n]"

definition compat_event :: "u64 \<Rightarrow> u64 \<Rightarrow> u16 \<times> u16 \<times> u32 \<Rightarrow> byte list" where
  "compat_event sec usec = (\<lambda>(type, code, value).
     le_bytes 8 sec @ le_bytes 8 usec @ le_bytes 2 type @ le_bytes 2 code @ le_bytes 4 value)"

record input_device =
  dev_next_id :: nat
  dev_clients :: "bool connections"      \<comment> \<open>whether the peer is still there\<close>

definition new_client :: "input_device \<Rightarrow> nat \<times> input_device" where
  "new_client d =
     (dev_next_id d, d\<lparr>dev_next_id := dev_next_id d + 1,
                       dev_clients := conns_add (int (dev_next_id d)) True (dev_clients d)\<rparr>)"

text \<open>
  \<open>send_events\<close>: which clients got the data, and the exception it ended with. Sending to a peer that is
  gone throws.
\<close>

fun send_to :: "nat list \<Rightarrow> input_device \<Rightarrow> fault option \<times> nat list" where
  "send_to [] d = (None, [])"
| "send_to (n # ns) d =
     (case conns_at n (dev_clients d) of
        Inl e \<Rightarrow> (Some e, [])
      | Inr False \<Rightarrow> (Some (Runtime_Error ''send''), [])
      | Inr True \<Rightarrow> (case send_to ns d of (e, sent) \<Rightarrow> (e, n # sent)))"

definition send_events :: "u64 \<Rightarrow> u64 \<Rightarrow> (u16 \<times> u16 \<times> u32) list \<Rightarrow> input_device \<Rightarrow>
  fault option \<times> nat list \<times> byte list"
where
  "send_events sec usec events d =
     (case send_to [0..<conns_size (dev_clients d)] d of
        (e, sent) \<Rightarrow> (e, sent, concat (map (compat_event sec usec) events)))"

definition peer_gone :: "nat \<Rightarrow> input_device \<Rightarrow> input_device" where
  "peer_gone n d = d\<lparr>dev_clients := map (\<lambda>(i, a). (i, if i = int n then False else a)) (dev_clients d)\<rparr>"

datatype device_op = New_Client | Peer_Gone nat

fun device_step :: "device_op \<Rightarrow> input_device \<Rightarrow> input_device" where
  "device_step New_Client d = snd (new_client d)"
| "device_step (Peer_Gone n) d = peer_gone n d"

definition device_new :: input_device where
  "device_new = \<lparr>dev_next_id = 0, dev_clients = []\<rparr>"

definition device_inv :: "input_device \<Rightarrow> bool" where
  "device_inv d \<longleftrightarrow> map fst (dev_clients d) = map int [0..<dev_next_id d]"

lemma om_set_append: "\<forall>e \<in> set m. fst e < k \<Longrightarrow> om_set k v m = m @ [(k, v)]"
  by (induction m) auto

lemma device_inv_keys: "device_inv d \<Longrightarrow> fst ` set (dev_clients d) = int ` {0..<dev_next_id d}"
  by (metis device_inv_def image_set set_upt)

lemma device_step_inv:
  assumes "device_inv d"
  shows "device_inv (device_step op d)"
proof (cases op)
  case New_Client
  have less: "\<forall>e \<in> set (dev_clients d). fst e < int (dev_next_id d)"
  proof
    fix e assume "e \<in> set (dev_clients d)"
    then have "fst e \<in> int ` {0..<dev_next_id d}" using device_inv_keys [OF assms] by blast
    then show "fst e < int (dev_next_id d)" by auto
  qed
  then have "map_of (dev_clients d) (int (dev_next_id d)) = None"
    by (auto simp: map_of_eq_None_iff)
  with less assms New_Client show ?thesis
    by (simp add: new_client_def conns_add_def om_insert_def om_set_append device_inv_def)
next
  case (Peer_Gone n)
  with assms show ?thesis by (simp add: peer_gone_def device_inv_def case_prod_beta comp_def)
qed

lemma device_lookup:
  assumes "device_inv d" and "i < conns_size (dev_clients d)"
  shows "\<exists>a. map_of (dev_clients d) (int i) = Some a"
proof -
  have "length (dev_clients d) = dev_next_id d"
    using assms(1) by (metis device_inv_def length_map length_upt minus_nat.diff_0)
  then have "int i \<in> fst ` set (dev_clients d)"
    using assms device_inv_keys [OF assms(1)] by (simp add: conns_size_def)
  then show ?thesis by (metis map_of_eq_None_iff not_None_eq)
qed

abbreviation alive :: "input_device \<Rightarrow> nat \<Rightarrow> bool" where
  "alive d i \<equiv> map_of (dev_clients d) (int i) = Some True"

lemma send_to_takeWhile:
  assumes "\<forall>i \<in> set ns. \<exists>a. map_of (dev_clients d) (int i) = Some a"
  shows "send_to ns d = (if list_all (alive d) ns then None else Some (Runtime_Error ''send''),
    takeWhile (alive d) ns)"
  using assms
proof (induction ns)
  case Nil
  then show ?case by simp
next
  case (Cons n ns)
  then obtain a where "map_of (dev_clients d) (int n) = Some a" by auto
  with Cons show ?case by (cases a) (auto simp: conns_at_def)
qed

lemma length_le_bytes [simp]: "length (le_bytes n w) = n"
  by (simp add: le_bytes_def)

text \<open>
  Whatever clients have connected and gone, sending events looks every client up by its position and
  never fails in doing so; the events reach all clients connected before the first one whose peer is
  gone, and no other; the call throws exactly when there is such a client. Every event is 24 bytes.
\<close>

lemma device_send_events:
  "let d = fold device_step ops device_new; clients = [0..<conns_size (dev_clients d)] in
   send_events sec usec events d =
     (if list_all (alive d) clients then None else Some (Runtime_Error ''send''),
      takeWhile (alive d) clients, concat (map (compat_event sec usec) events)) \<and>
   length (concat (map (compat_event sec usec) events)) = 24 * length events"
proof -
  have "device_inv d \<Longrightarrow> device_inv (fold device_step ops d)" for d
    by (induction ops arbitrary: d) (simp_all add: device_step_inv)
  moreover have "device_inv device_new" by (simp add: device_inv_def device_new_def)
  ultimately have inv: "device_inv (fold device_step ops device_new)" by blast
  have "length (concat (map (compat_event sec usec) events)) = 24 * length events"
    by (induction events) (auto simp: compat_event_def)
  then show ?thesis
    using send_to_takeWhile [of "[0..<conns_size (dev_clients (fold device_step ops device_new))]"
        "fold device_step ops device_new"] device_lookup [OF inv]
    by (simp add: send_events_def Let_def)
qed

text \<open>
  Setting a bit of a device description sets exactly that bit when the array has it, leaves the size
  of the array as it is, and is an access outside the array when it does not.
\<close>

lemma device_set_bit:
  "case dev_set_bit array b of
     Inl e \<Rightarrow> e = Undefined \<and> 8 * length array \<le> b
   | Inr array' \<Rightarrow> b < 8 * length array \<and> length array' = length array \<and>
       (if i < 8 * length array then bit_of array' i = (i = b \<or> bit_of array i) else True)"
proof (cases "b div 8 < length array")
  case False
  then have "8 * length array \<le> b" by presburger
  with False show ?thesis by (simp add: dev_set_bit_def)
next
  case True
  have one: "bit (push_bit (b mod 8) 1 :: byte) k \<longleftrightarrow> k = b mod 8" if "k < 8" for k
    using that by (auto simp: bit_simps)
  have "i = b \<longleftrightarrow> i div 8 = b div 8 \<and> i mod 8 = b mod 8" by (metis div_mult_mod_eq)
  then show ?thesis
    using True one [of "i mod 8"]
    by (auto simp: dev_set_bit_def bit_of_def nth_list_update bit_or_iff not_le)
qed

end
