(* ===== verification/Adb.thy ===== *)
theory Adb
  imports Anbox_Prelude
begin

text \<open>
  The bridge between the debugger on the host and the one in the container:
  \<open>src/anbox/qemu/adb_message_processor.cpp\<close>. A session is one processor; the lock \<open>active_instance_\<close>, which
  is shared by all sessions, and the threads that wait for it are in the state of the system. What is sent
  to either side is kept in the session.

  Shown here: only the session that has the lock listens for the host, talks to it or has left its first
  state, and no session locks twice; a session that gets the expected commands relays both directions
  unchanged; and the ways in which the comparison of the commands and a second host break a session.
\<close>

section \<open>A session\<close>

datatype adb_state =
  Waiting_For_Guest_Accept_Command | Waiting_For_Host_Connection | Waiting_For_Guest_Start_Command |
  Proxying_Data | Closed_By_Container | Closed_By_Host

record adb =
  adb_state :: adb_state
  expected_command :: "byte list"
  adb_buffer :: "byte list"
  host_connector :: bool
  host_messenger :: bool
  host_reading :: bool
  to_guest :: "byte list"
  to_host :: "byte list"
  guest_closed :: bool

definition adb_new :: adb where
  "adb_new = \<lparr>adb_state = Waiting_For_Guest_Accept_Command, expected_command = bytes_of ''accept'',
     adb_buffer = [], host_connector = False, host_messenger = False, host_reading = False,
     to_guest = [], to_host = [], guest_closed = False\<rparr>"

definition wait_for_host_connection :: "adb \<Rightarrow> adb" where
  "wait_for_host_connection s =
     (if adb_state s \<noteq> Waiting_For_Guest_Accept_Command then s else s\<lparr>host_connector := True\<rparr>)"

text \<open>What \<open>advance_state\<close> does in the first state once it has the lock, and what it does in the others.\<close>

definition after_lock :: "adb \<Rightarrow> adb" where
  "after_lock s =
     (if adb_state s = Closed_By_Host then s\<lparr>host_connector := False\<rparr> else wait_for_host_connection s)"

definition advance_state :: "adb \<Rightarrow> adb" where
  "advance_state s =
     (case adb_state s of
        Waiting_For_Guest_Accept_Command \<Rightarrow> after_lock s
      | Waiting_For_Host_Connection \<Rightarrow>
          s\<lparr>to_guest := to_guest s @ bytes_of ''ok'', adb_state := Waiting_For_Guest_Start_Command,
            expected_command := bytes_of ''start''\<rparr>
      | Waiting_For_Guest_Start_Command \<Rightarrow> s\<lparr>adb_state := Proxying_Data, host_reading := True\<rparr>
      | Proxying_Data \<Rightarrow> s
      | Closed_By_Host \<Rightarrow> s\<lparr>guest_closed := True\<rparr>
      | Closed_By_Container \<Rightarrow> s)"

text \<open>
  The arrival of a host. The old messenger, if there is one, is destroyed, which cancels its read.
\<close>

definition on_host_connection :: "adb \<Rightarrow> adb" where
  "on_host_connection s =
     s\<lparr>host_messenger := True, host_reading := False, to_guest := to_guest s @ bytes_of ''ok'',
       adb_state := Waiting_For_Guest_Start_Command, expected_command := bytes_of ''start''\<rparr>"

datatype host_read = Canceled | Read_Error | Bytes_Read "byte list"

definition on_host_read_size :: "host_read \<Rightarrow> adb \<Rightarrow> adb" where
  "on_host_read_size r s =
     (case r of
        Canceled \<Rightarrow> s\<lparr>host_reading := False\<rparr>
      | Read_Error \<Rightarrow> s\<lparr>host_reading := False, adb_state := Closed_By_Host, guest_closed := True\<rparr>
      | Bytes_Read d \<Rightarrow> s\<lparr>to_guest := to_guest s @ d, host_reading := True\<rparr>)"

text \<open>
  \<open>memcmp\<close> of the buffer and the expected command over as many bytes as have just arrived. The command is
  a string, with a NUL behind it that may be read; None stands for a comparison that reads further.
\<close>

definition compare_command :: "byte list \<Rightarrow> byte list \<Rightarrow> nat \<Rightarrow> bool option" where
  "compare_command buf expected n =
     (if n \<le> length buf \<and> n \<le> length expected + 1 then Some (take n buf = take n (expected @ [0])) else None)"

datatype guest_result = Accepted adb | Needs_Lock adb | Refused adb | Over_Read

definition adb_process_data :: "byte list \<Rightarrow> adb \<Rightarrow> guest_result" where
  "adb_process_data data s =
     (if adb_state s = Proxying_Data then Accepted (s\<lparr>to_host := to_host s @ data\<rparr>)
      else let s = s\<lparr>adb_buffer := adb_buffer s @ data\<rparr>;
               n = length (expected_command s) in
        if 0 < n \<and> n \<le> length (adb_buffer s) then
          (case compare_command (adb_buffer s) (expected_command s) (length data) of
             None \<Rightarrow> Over_Read
           | Some False \<Rightarrow> Refused s
           | Some True \<Rightarrow>
               let s = s\<lparr>adb_buffer := drop n (adb_buffer s), expected_command := []\<rparr> in
               if adb_state s = Waiting_For_Guest_Accept_Command then Needs_Lock s
               else Accepted (advance_state s))
        else Accepted s)"

section \<open>All sessions\<close>

record adb_system =
  sessions :: "nat \<rightharpoonup> adb"
  lock_waiters :: "nat set"
  active_instance :: "nat option"

definition adb_init :: adb_system where
  "adb_init = \<lparr>sessions = Map.empty, lock_waiters = {}, active_instance = None\<rparr>"

definition put_session :: "nat \<Rightarrow> adb \<Rightarrow> adb_system \<Rightarrow> adb_system" where
  "put_session i s S = S\<lparr>sessions := (sessions S)(i \<mapsto> s)\<rparr>"

text \<open>The destructor: the connector and the lock go with the session.\<close>

definition destroy_session :: "nat \<Rightarrow> adb_system \<Rightarrow> adb_system" where
  "destroy_session i S = S\<lparr>sessions := (sessions S)(i := None),
     active_instance := (if active_instance S = Some i then None else active_instance S)\<rparr>"

inductive adb_step :: "adb_system \<Rightarrow> adb_system \<Rightarrow> bool" where
  new_session: "sessions S i = None \<Longrightarrow> adb_step S (put_session i adb_new S)"
| guest_data: "sessions S i = Some s \<Longrightarrow> i \<notin> lock_waiters S \<Longrightarrow> adb_process_data d s = Accepted s' \<Longrightarrow>
    adb_step S (put_session i s' S)"
| guest_refused: "sessions S i = Some s \<Longrightarrow> i \<notin> lock_waiters S \<Longrightarrow> adb_process_data d s = Refused s' \<Longrightarrow>
    adb_step S (destroy_session i S)"
| wait_for_lock: "sessions S i = Some s \<Longrightarrow> i \<notin> lock_waiters S \<Longrightarrow> adb_process_data d s = Needs_Lock s' \<Longrightarrow>
    adb_step S (put_session i s' S\<lparr>lock_waiters := insert i (lock_waiters S)\<rparr>)"
| get_lock: "sessions S i = Some s \<Longrightarrow> i \<in> lock_waiters S \<Longrightarrow> active_instance S = None \<Longrightarrow>
    adb_step S (put_session i (after_lock s) S\<lparr>lock_waiters := lock_waiters S - {i},
      active_instance := Some i\<rparr>)"
| host_connects: "sessions S i = Some s \<Longrightarrow> host_connector s \<Longrightarrow>
    adb_step S (put_session i (on_host_connection s) S)"
| host_data: "sessions S i = Some s \<Longrightarrow> host_reading s \<Longrightarrow>
    adb_step S (put_session i (on_host_read_size r s) S)"
| session_ends: "i \<notin> lock_waiters S \<Longrightarrow> adb_step S (destroy_session i S)"

inductive adb_reachable :: "adb_system \<Rightarrow> bool" where
  start: "adb_reachable adb_init"
| step: "adb_reachable S \<Longrightarrow> adb_step S T \<Longrightarrow> adb_reachable T"

inductive_cases adb_step_cases: "adb_step S T"

section \<open>The lock\<close>

text \<open>A session that does not have the lock: it still waits for its first command.\<close>

definition idle :: "adb \<Rightarrow> bool" where
  "idle s \<longleftrightarrow> adb_state s = Waiting_For_Guest_Accept_Command \<and> \<not> host_connector s \<and> \<not> host_messenger s \<and>
     \<not> host_reading s"

text \<open>A session with the lock: it never comes back to the point where it would lock again.\<close>

definition past_lock :: "adb \<Rightarrow> bool" where
  "past_lock s \<longleftrightarrow> (adb_state s = Waiting_For_Guest_Accept_Command \<longrightarrow> expected_command s = [])"

definition adb_inv :: "adb_system \<Rightarrow> bool" where
  "adb_inv S \<longleftrightarrow>
     (\<forall>i s. sessions S i = Some s \<longrightarrow> (if active_instance S = Some i then past_lock s else idle s)) \<and>
     (\<forall>i. active_instance S = Some i \<longrightarrow> sessions S i \<noteq> None \<and> i \<notin> lock_waiters S) \<and>
     (\<forall>i \<in> lock_waiters S. \<exists>s. sessions S i = Some s \<and> expected_command s = [])"

lemma idle_new: "idle adb_new"
  by (simp add: idle_def adb_new_def)

lemma process_data_idle:
  "idle s \<Longrightarrow> adb_process_data d s = Accepted s' \<Longrightarrow> idle s'"
  "idle s \<Longrightarrow> adb_process_data d s = Needs_Lock s' \<Longrightarrow> idle s' \<and> expected_command s' = []"
  by (auto simp: idle_def adb_process_data_def Let_def split: if_splits option.splits bool.splits)

lemma process_data_past_lock:
  "past_lock s \<Longrightarrow> adb_process_data d s = Accepted s' \<Longrightarrow> past_lock s'"
  "past_lock s \<Longrightarrow> adb_process_data d s \<noteq> Needs_Lock s'"
  by (auto simp: past_lock_def adb_process_data_def advance_state_def Let_def
      split: if_splits option.splits bool.splits adb_state.splits)

lemma host_past_lock: "past_lock (on_host_connection s)" "past_lock s \<Longrightarrow> past_lock (on_host_read_size r s)"
  by (auto simp: past_lock_def on_host_connection_def on_host_read_size_def split: host_read.splits)

lemma after_lock_past: "expected_command s = [] \<Longrightarrow> past_lock (after_lock s)"
  by (simp add: past_lock_def after_lock_def wait_for_host_connection_def)

lemma adb_inv_session:
  "adb_inv S \<Longrightarrow> sessions S i = Some s \<Longrightarrow> if active_instance S = Some i then past_lock s else idle s"
  by (simp add: adb_inv_def)

lemma adb_inv_put:
  "adb_inv S \<Longrightarrow> i \<notin> lock_waiters S \<Longrightarrow> if active_instance S = Some i then past_lock s else idle s \<Longrightarrow>
     adb_inv (put_session i s S)"
  by (auto simp: adb_inv_def put_session_def)

lemma adb_inv_active: "adb_inv S \<Longrightarrow> active_instance S = Some i \<Longrightarrow> i \<notin> lock_waiters S"
  by (simp add: adb_inv_def)

lemma adb_step_inv: "adb_step S T \<Longrightarrow> adb_inv S \<Longrightarrow> adb_inv T"
proof (induction rule: adb_step.induct)
  case (new_session S i)
  then show ?case by (auto simp: adb_inv_def put_session_def idle_new)
next
  case (guest_data S i s d s')
  then show ?case
    using adb_inv_session [of S i s] process_data_idle(1) [of s d s'] process_data_past_lock(1) [of s d s']
    by (auto intro!: adb_inv_put split: if_splits)
next
  case (guest_refused S i s d s')
  then show ?case by (auto simp: adb_inv_def destroy_session_def)
next
  case (wait_for_lock S i s d s')
  then have "active_instance S \<noteq> Some i"
    using process_data_past_lock(2) by (auto simp: adb_inv_def)
  with wait_for_lock show ?case
    using process_data_idle(2) [of s d s'] by (auto simp: adb_inv_def put_session_def)
next
  case (get_lock S i s)
  then show ?case by (auto simp: adb_inv_def put_session_def after_lock_past)
next
  case (host_connects S i s)
  then have "active_instance S = Some i" by (auto simp: adb_inv_def idle_def split: if_splits)
  with host_connects show ?case by (auto intro!: adb_inv_put dest: adb_inv_active simp: host_past_lock)
next
  case (host_data S i s r)
  then have "active_instance S = Some i" by (auto simp: adb_inv_def idle_def split: if_splits)
  with host_data show ?case
    using adb_inv_session [of S i s] by (auto intro!: adb_inv_put dest: adb_inv_active simp: host_past_lock)
next
  case (session_ends i S)
  then show ?case by (auto simp: adb_inv_def destroy_session_def)
qed

lemma adb_reachable_inv: "adb_reachable S \<Longrightarrow> adb_inv S"
  by (induction rule: adb_reachable.induct) (simp add: adb_inv_def adb_init_def, rule adb_step_inv)

text \<open>
  C16. In every state that the sessions can reach, whatever guests and hosts send and whenever sessions
  come and go: a session that listens for the host, has a connection to it, reads from it or has left its
  first state is the one that has the lock, so there is at most one. A session that has the lock does not
  wait for it, and no data of the guest makes it lock again.
\<close>

theorem adb_one_active_session:
  assumes "adb_reachable S" and "sessions S i = Some s"
  shows "(host_connector s \<or> host_messenger s \<or> host_reading s \<or>
            adb_state s \<noteq> Waiting_For_Guest_Accept_Command \<longrightarrow> active_instance S = Some i) \<and>
         (active_instance S = Some i \<longrightarrow>
            i \<notin> lock_waiters S \<and> (\<forall>d s'. adb_process_data d s \<noteq> Needs_Lock s'))"
proof -
  note inv = adb_reachable_inv [OF assms(1)]
  show ?thesis
    using adb_inv_session [OF inv assms(2)] adb_inv_active [OF inv] process_data_past_lock(2)
    by (auto simp: idle_def split: if_splits)
qed

theorem adb_one_active_session_witness:
  "\<exists>S s. adb_reachable S \<and> sessions S 0 = Some s \<and> host_messenger s \<and> active_instance S = Some 0"
proof -
  let ?s1 = "adb_new\<lparr>expected_command := []\<rparr>"
  let ?S1 = "put_session 0 adb_new adb_init"
  let ?S2 = "put_session 0 ?s1 ?S1\<lparr>lock_waiters := {0}\<rparr>"
  let ?S3 = "put_session 0 (after_lock ?s1) ?S2\<lparr>lock_waiters := {}, active_instance := Some 0\<rparr>"
  let ?S4 = "put_session 0 (on_host_connection (after_lock ?s1)) ?S3"
  have "adb_step adb_init ?S1" by (rule adb_step.new_session) (simp add: adb_init_def)
  moreover have "adb_step ?S1 ?S2"
    using adb_step.wait_for_lock [of ?S1 0 adb_new "bytes_of ''accept''" ?s1]
    by (simp add: put_session_def adb_init_def adb_process_data_def adb_new_def compare_command_def)
  moreover have "adb_step ?S2 ?S3"
    using adb_step.get_lock [of ?S2 0 ?s1] by (simp add: put_session_def adb_init_def)
  moreover have "adb_step ?S3 ?S4"
    by (rule adb_step.host_connects)
      (simp_all add: put_session_def after_lock_def wait_for_host_connection_def adb_new_def)
  ultimately have reach: "adb_reachable ?S4"
    by (meson adb_reachable.intros)
  have "host_messenger (on_host_connection (after_lock ?s1))" by (simp add: on_host_connection_def)
  then show ?thesis
    using reach adb_one_active_session [OF reach, of 0 "on_host_connection (after_lock ?s1)"]
    by (intro exI [of _ ?S4] exI [of _ "on_host_connection (after_lock ?s1)"]) (simp add: put_session_def)
qed

section \<open>A session with a host\<close>

datatype traffic = From_Guest "byte list" | From_Host "byte list"

fun relay_event :: "traffic \<Rightarrow> adb \<Rightarrow> adb" where
  "relay_event (From_Guest d) s = (case adb_process_data d s of Accepted s' \<Rightarrow> s' | _ \<Rightarrow> s)"
| "relay_event (From_Host d) s = on_host_read_size (Bytes_Read d) s"

fun guest_bytes :: "traffic \<Rightarrow> byte list" where
  "guest_bytes (From_Guest d) = d"
| "guest_bytes (From_Host d) = []"

fun host_bytes :: "traffic \<Rightarrow> byte list" where
  "host_bytes (From_Guest d) = []"
| "host_bytes (From_Host d) = d"

text \<open>The way of a session to the point where it relays, each command read at once.\<close>

definition open_session :: guest_result where
  "open_session =
     (case adb_process_data (bytes_of ''accept'') adb_new of
        Needs_Lock s \<Rightarrow> adb_process_data (bytes_of ''start'') (on_host_connection (after_lock s))
      | r \<Rightarrow> r)"

lemma relay_proxying:
  "adb_state s = Proxying_Data \<Longrightarrow>
     adb_state (fold relay_event es s) = Proxying_Data \<and>
     to_host (fold relay_event es s) = to_host s @ concat (map guest_bytes es) \<and>
     to_guest (fold relay_event es s) = to_guest s @ concat (map host_bytes es) \<and>
     guest_closed (fold relay_event es s) = guest_closed s"
proof (induction es arbitrary: s)
  case Nil
  then show ?case by simp
next
  case (Cons e es)
  then show ?case by (cases e) (simp_all add: adb_process_data_def on_host_read_size_def)
qed

lemma open_session_state:
  "open_session = Accepted (adb_new\<lparr>adb_state := Proxying_Data, expected_command := [], host_connector := True,
     host_messenger := True, host_reading := True, to_guest := bytes_of ''ok''\<rparr>)"
  by (simp add: open_session_def adb_process_data_def adb_new_def compare_command_def after_lock_def
      wait_for_host_connection_def on_host_connection_def advance_state_def Let_def)

text \<open>
  Once the guest has sent its two commands and a host has connected, the session passes everything on
  unchanged and in order: the host gets exactly the bytes of the guest, and the guest gets the answer
  \<open>ok\<close> to its first command and then exactly the bytes of the host.
\<close>

lemma adb_session_relays:
  "case open_session of
     Accepted s \<Rightarrow>
       (let t = fold relay_event es s in
        to_host t = concat (map guest_bytes es) \<and>
        to_guest t = bytes_of ''ok'' @ concat (map host_bytes es) \<and> \<not> guest_closed t)
   | _ \<Rightarrow> False"
  by (simp add: open_session_state relay_proxying Let_def) (simp add: adb_new_def)

text \<open>
  The comparison covers as many bytes as have just arrived, not the command: a wrong command that comes in
  pieces is accepted, a read that is longer than the command is compared behind its end, and what follows
  the command in the same read is never sent on. A second host ends a session that relays.
\<close>

lemma adb_wrong_command_accepted:
  "adb_process_data (bytes_of ''acc'') adb_new = Accepted (adb_new\<lparr>adb_buffer := bytes_of ''acc''\<rparr>) \<and>
   (\<exists>s. adb_process_data (bytes_of ''xyz'') (adb_new\<lparr>adb_buffer := bytes_of ''acc''\<rparr>) = Needs_Lock s)"
  by (simp add: adb_process_data_def adb_new_def compare_command_def)

lemma adb_compares_behind_command: "adb_process_data (bytes_of ''acceptab'') adb_new = Over_Read"
  by (simp add: adb_process_data_def adb_new_def compare_command_def)

lemma adb_second_host:
  assumes "adb_state s = Proxying_Data" and "adb_buffer s = []"
  shows "\<exists>s'. adb_process_data (bytes_of ''CNXN.'') (on_host_connection s) = Refused s'"
  using assms
  by (simp add: adb_process_data_def on_host_connection_def compare_command_def Let_def)

end
