(* ===== verification/Qemud.thy ===== *)
theory Qemud
  imports Anbox_Prelude
begin

text \<open>
  The qemud services the container talks to over pipes (\<open>src/anbox/qemu\<close>): the framing with a
  four-digit hexadecimal length (\<open>qemud_message_processor.cpp\<close>), the services that answer one command
  each (boot properties, sensors, fingerprint, hardware control, boot animation), and the camera service
  with commands that end in a zero byte.

  Shown here: commands are handled in order, and a command that arrives alone is always handled; the loop
  stops early in one case, which is characterised; the camera service leaves its buffer exactly when the
  data does not end with a zero byte.
\<close>

section \<open>Hexadecimal lengths\<close>

definition hex_digit :: "char \<Rightarrow> nat option" where
  "hex_digit c = (let n = of_char c :: nat in
     if 48 \<le> n \<and> n \<le> 57 then Some (n - 48)
     else if 97 \<le> n \<and> n \<le> 102 then Some (n - 87)
     else if 65 \<le> n \<and> n \<le> 70 then Some (n - 55)
     else None)"

definition hex_value :: "string \<Rightarrow> nat" where
  "hex_value s = foldl (\<lambda>n c. case hex_digit c of None \<Rightarrow> n | Some d \<Rightarrow> n * 16 + d) 0 s"

definition hex_prefix :: "string \<Rightarrow> string" where
  "hex_prefix s = takeWhile (\<lambda>c. hex_digit c \<noteq> None) s"

definition blank :: "char \<Rightarrow> bool" where
  "blank c \<longleftrightarrow> c \<in> {CHR '' '', CHR 0x09, CHR 0x0A, CHR 0x0B, CHR 0x0C, CHR 0x0D}"

text \<open>
  \<open>sscanf(header, "%04x", &body_size)\<close> on the four header bytes: at most four characters, with an optional
  sign and \<open>0x\<close>; no match leaves 0. White space in front is skipped and does not count, so that the
  conversion then goes on behind the array.
\<close>

definition scan_04x :: "string \<Rightarrow> fault + u32" where
  "scan_04x header =
     (case header of
        [] \<Rightarrow> Inr 0
      | c # cs \<Rightarrow>
          if blank c then Inl Undefined
          else let (neg, s) = (if c = CHR ''-'' then (True, cs) else if c = CHR ''+'' then (False, cs)
                               else (False, header));
                   t = (if take 2 s \<in> {''0x'', ''0X''} then drop 2 s else s);
                   v = word_of_nat (hex_value (hex_prefix t))
               in Inr (if neg then - v else v))"

definition nibble :: "nat \<Rightarrow> char" where
  "nibble d = char_of (if d < 10 then 48 + d else 87 + d)"

text \<open>\<open>snprintf(header, 5, "%04zx", size)\<close>: at least four digits, cut to four characters.\<close>

fun hex_digits :: "nat \<Rightarrow> string" where
  "hex_digits n = (if n < 16 then [nibble n] else hex_digits (n div 16) @ [nibble (n mod 16)])"

declare hex_digits.simps [simp del]

definition header_04zx :: "nat \<Rightarrow> string" where
  "header_04zx n = (let ds = hex_digits n in take 4 (replicate (4 - length ds) (CHR ''0'') @ ds))"

section \<open>Commands\<close>

abbreviation qemud_header_size :: nat where "qemud_header_size \<equiv> 4"

text \<open>
  \<open>process_commands\<close>: the fault it ended in, the commands it handled and what is left in the buffer. What
  remains is computed after the command has been erased, so that its size is subtracted twice; the
  subtraction is that of \<open>size_t\<close>.
\<close>

function process_commands :: "byte list \<Rightarrow> fault option \<times> string list \<times> byte list" where
  "process_commands buffer =
     (if length buffer < qemud_header_size then (None, [], buffer)
      else case scan_04x (string_of (take qemud_header_size buffer)) of
          Inl e \<Rightarrow> (Some e, [], buffer)
        | Inr body_size \<Rightarrow>
            let total_size = qemud_header_size + unat body_size in
            if length buffer < total_size then (None, [], buffer)
            else
              let command = string_of (take (unat body_size) (drop qemud_header_size buffer));
                  rest = drop total_size buffer;
                  remaining = size_sub (length rest) total_size
              in if remaining = 0 then (None, [command], rest)
                 else case process_commands rest of (e, cs, b) \<Rightarrow> (e, command # cs, b))"
  by pat_completeness auto
termination by (relation "measure length") auto

declare process_commands.simps [simp del]

definition qemud_process_data :: "byte list \<Rightarrow> byte list \<Rightarrow> fault option \<times> string list \<times> byte list" where
  "qemud_process_data data buffer = process_commands (buffer @ data)"

fun qemud_feed :: "byte list list \<Rightarrow> byte list \<Rightarrow> fault option \<times> string list \<times> byte list" where
  "qemud_feed [] buffer = (None, [], buffer)"
| "qemud_feed (d # ds) buffer =
     (case qemud_process_data d buffer of
        (Some e, cs, b) \<Rightarrow> (Some e, cs, b)
      | (None, cs, b) \<Rightarrow> (case qemud_feed ds b of (e, cs', b') \<Rightarrow> (e, cs @ cs', b')))"

definition qemud_frame :: "string \<Rightarrow> byte list" where
  "qemud_frame s = bytes_of (header_04zx (length s) @ s)"

section \<open>The services\<close>

definition qemud_message :: "string \<Rightarrow> byte list" where
  "qemud_message s = bytes_of (header_04zx (length s)) @ bytes_of s"

text \<open>Properties are sent one by one; a zero byte finishes the message.\<close>

definition finish_message :: "byte list" where
  "finish_message = [0]"

definition list_properties :: "nat \<Rightarrow> byte list" where
  "list_properties density = qemud_message (''ro.sf.lcd_density='' @ show_nat density) @ finish_message"

definition list_sensors :: "byte list" where
  "list_sensors = qemud_message ''0'' @ finish_message"

definition listen_fingerprint :: "byte list" where
  "listen_fingerprint = qemud_message ''off'' @ finish_message"

text \<open>\<open>retrieve_icon\<close> sends blocks while a read fills the whole buffer of \<open>n\<close> bytes (1024 in the code).\<close>

function icon_blocks :: "nat \<Rightarrow> byte list \<Rightarrow> byte list list" where
  "icon_blocks n file =
     (if n = 0 \<or> length file < n then [] else take n file # icon_blocks n (drop n file))"
  by pat_completeness auto
termination by (relation "measure (\<lambda>(n, file). length file)") auto

declare icon_blocks.simps [simp del]

datatype qemud_service = Boot_Properties | Sensors | Fingerprint | Hw_Control | Boot_Animation "byte list"

fun handle_command :: "qemud_service \<Rightarrow> string \<Rightarrow> byte list" where
  "handle_command Boot_Properties c = (if c = ''list'' then list_properties 160 else [])"
| "handle_command Sensors c = (if c = ''list-sensors'' then list_sensors else [])"
| "handle_command Fingerprint c = (if c = ''listen'' then listen_fingerprint else [])"
| "handle_command Hw_Control c = []"
| "handle_command (Boot_Animation icon) c =
     (if c = ''retrieve-icon'' then concat (icon_blocks 1024 icon) else [])"

section \<open>Round trip of the length\<close>

lemma of_char_nibble: "d < 16 \<Longrightarrow> (of_char (nibble d) :: nat) = (if d < 10 then 48 + d else 87 + d)"
  by (simp add: nibble_def)

lemma hex_digit_nibble [simp]: "d < 16 \<Longrightarrow> hex_digit (nibble d) = Some d"
  by (simp add: hex_digit_def of_char_nibble)

lemma hex_value_snoc: "hex_digit c = Some d \<Longrightarrow> hex_value (s @ [c]) = hex_value s * 16 + d"
  by (simp add: hex_value_def)

lemma hex_digits_ok: "hex_value (hex_digits n) = n \<and> list_all (\<lambda>c. \<exists>d < 16. c = nibble d) (hex_digits n)"
proof (induction n rule: hex_digits.induct)
  case (1 n)
  show ?case
  proof (cases "n < 16")
    case True
    then have "hex_digits n = [nibble n]" by (subst hex_digits.simps) simp
    then show ?thesis using True by (auto simp: hex_value_def)
  next
    case False
    then have "hex_digits n = hex_digits (n div 16) @ [nibble (n mod 16)]" by (subst hex_digits.simps) simp
    then show ?thesis
      using "1.IH" [OF False] by (auto simp: hex_value_snoc intro!: exI [of _ "n mod 16"])
  qed
qed

lemma hex_digits_length: "n < 16 ^ k \<Longrightarrow> 0 < k \<Longrightarrow> length (hex_digits n) \<le> k"
proof (induction n arbitrary: k rule: hex_digits.induct)
  case (1 n)
  show ?case
  proof (cases "n < 16")
    case True
    then have "hex_digits n = [nibble n]" by (subst hex_digits.simps) simp
    then show ?thesis using "1.prems" by simp
  next
    case False
    then obtain j where k: "k = Suc j" and j: "0 < j" using "1.prems" by (cases k; cases "k - 1") auto
    have "n div 16 < 16 ^ j" using "1.prems" k by (simp add: less_mult_imp_div_less mult.commute)
    with "1.IH" [OF False this j] False show ?thesis
      by (subst hex_digits.simps) (simp add: k)
  qed
qed

lemma nibble_not_special: "d < 16 \<Longrightarrow> \<not> blank (nibble d) \<and> nibble d \<noteq> CHR ''-'' \<and> nibble d \<noteq> CHR ''+'' \<and>
    nibble d \<noteq> CHR ''x'' \<and> nibble d \<noteq> CHR ''X''"
proof -
  assume "d < 16"
  then have "d \<in> {0, 1, 2, 3, 4, 5, 6, 7, 8, 9, 10, 11, 12, 13, 14, 15}"
    unfolding insert_iff empty_iff by presburger
  then show ?thesis by (elim insertE) (simp_all add: nibble_def blank_def char_of_def)
qed

lemma hex_value_pad: "hex_value (replicate k (CHR ''0'') @ s) = hex_value s"
proof -
  have "foldl (\<lambda>n c. case hex_digit c of None \<Rightarrow> n | Some d \<Rightarrow> n * 16 + d) 0 (replicate k (CHR ''0'')) = 0"
    by (induction k) (simp_all add: hex_digit_def)
  then show ?thesis by (simp add: hex_value_def)
qed

lemma header_nibbles:
  assumes "n < 65536"
  shows "length (header_04zx n) = 4 \<and> hex_value (header_04zx n) = n \<and>
    list_all (\<lambda>c. \<exists>d < 16. c = nibble d) (header_04zx n)"
proof -
  have "length (hex_digits n) \<le> 4" using hex_digits_length [of n 4] assms by simp
  moreover have "CHR ''0'' = nibble 0" by code_simp
  moreover have "\<exists>d < 16. nibble 0 = nibble d" by (intro exI [of _ 0]) simp
  ultimately show ?thesis
    using hex_digits_ok [of n] hex_value_pad [of "4 - length (hex_digits n)" "hex_digits n"]
    by (auto simp: header_04zx_def Let_def list_all_iff)
qed

lemma scan_header:
  assumes "n < 65536"
  shows "scan_04x (header_04zx n) = Inr (word_of_nat n)"
proof -
  note h = header_nibbles [OF assms]
  obtain c cs where hd: "header_04zx n = c # cs" using h by (cases "header_04zx n") auto
  obtain c' cs' where cs: "cs = c' # cs'" using h hd by (cases cs) auto
  have nice: "\<exists>d < 16. x = nibble d" if "x \<in> set (header_04zx n)" for x
    using h that by (auto simp: list_all_iff)
  have c: "\<not> blank c" "c \<noteq> CHR ''-''" "c \<noteq> CHR ''+''"
    using nice [of c] nibble_not_special by (auto simp: hd)
  have c': "c' \<noteq> CHR ''x''" "c' \<noteq> CHR ''X''"
    using nice [of c'] nibble_not_special by (auto simp: hd cs)
  have "hex_prefix (header_04zx n) = header_04zx n"
    unfolding hex_prefix_def using nice by (fastforce simp: takeWhile_eq_all_conv)
  then show ?thesis
    using h c c' by (simp add: scan_04x_def hd cs)
qed

section \<open>Properties\<close>

text \<open>The contract: all complete frames of a run of bytes, and the rest.\<close>

function qemud_frames :: "byte list \<Rightarrow> fault option \<times> string list \<times> byte list" where
  "qemud_frames buffer =
     (if length buffer < qemud_header_size then (None, [], buffer)
      else case scan_04x (string_of (take qemud_header_size buffer)) of
          Inl e \<Rightarrow> (Some e, [], buffer)
        | Inr body_size \<Rightarrow>
            let total_size = qemud_header_size + unat body_size in
            if length buffer < total_size then (None, [], buffer)
            else case qemud_frames (drop total_size buffer) of (e, cs, b) \<Rightarrow>
              (e, string_of (take (unat body_size) (drop qemud_header_size buffer)) # cs, b))"
  by pat_completeness auto
termination by (relation "measure length") auto

declare qemud_frames.simps [simp del]

lemma process_commands_prefix:
  "case process_commands b of (e, cs, rest) \<Rightarrow>
     (case qemud_frames rest of (e', cs', rest') \<Rightarrow> qemud_frames b = (e', cs @ cs', rest')) \<and>
     (e = None \<or> qemud_frames rest = (e, [], rest))"
proof (induction b rule: process_commands.induct)
  case (1 b)
  show ?case
  proof (cases "length b < qemud_header_size")
    case True
    then show ?thesis by (simp add: process_commands.simps [of b] split: prod.splits)
  next
    case long: False
    show ?thesis
    proof (cases "scan_04x (string_of (take qemud_header_size b))")
      case (Inl e)
      then have "process_commands b = (Some e, [], b)" "qemud_frames b = (Some e, [], b)"
        using long by (simp_all add: process_commands.simps [of b] qemud_frames.simps [of b])
      then show ?thesis by simp
    next
      case (Inr body_size)
      let ?n = "qemud_header_size + unat body_size"
      let ?c = "string_of (take (unat body_size) (drop qemud_header_size b))"
      show ?thesis
      proof (cases "length b < ?n")
        case True
        then have "process_commands b = (None, [], b)"
          using long Inr by (subst process_commands.simps) (simp add: Let_def)
        then show ?thesis by (simp split: prod.splits)
      next
        case False
        have frames: "qemud_frames b = (case qemud_frames (drop ?n b) of (e, cs, r) \<Rightarrow> (e, ?c # cs, r))"
          using long Inr False by (subst qemud_frames.simps) (simp add: Let_def)
        have "process_commands b = (if size_sub (length (drop ?n b)) ?n = 0 then (None, [?c], drop ?n b)
            else case process_commands (drop ?n b) of (e, cs, r) \<Rightarrow> (e, ?c # cs, r))"
          using long Inr False by (subst process_commands.simps) (simp add: Let_def)
        then show ?thesis
          using "1.IH" [OF long Inr refl False refl refl refl] frames
          by (auto split: prod.splits if_splits)
      qed
    qed
  qed
qed

text \<open>
  The loop never reorders, repeats or invents commands: what it handled, followed by the complete
  commands still in its buffer, are exactly the commands the bytes contain, and the rest behind them is
  the same.
\<close>

lemma qemud_commands_in_order:
  "case qemud_process_data data buffer of (e, cs, b) \<Rightarrow>
     (case qemud_frames b of (e', cs', rest) \<Rightarrow> qemud_frames (buffer @ data) = (e', cs @ cs', rest))"
  using process_commands_prefix [of "buffer @ data"]
  by (auto simp: qemud_process_data_def split: prod.splits)

lemma qemud_frame_alone:
  assumes "length s < 65536"
  shows "process_commands (qemud_frame s) = (None, [s], [])"
proof -
  have len: "length (header_04zx (length s)) = 4" using header_nibbles [OF assms] by simp
  have scan: "scan_04x (string_of (take qemud_header_size (qemud_frame s))) = Inr (word_of_nat (length s))"
    using scan_header [OF assms] len by (simp add: qemud_frame_def take_map map_idI)
  have size: "unat (word_of_nat (length s) :: u32) = length s"
    using assms by (simp add: unat_of_nat take_bit_nat_eq_self)
  have "length (qemud_frame s) = qemud_header_size + length s" by (simp add: qemud_frame_def len)
  moreover have "string_of (take (length s) (drop qemud_header_size (qemud_frame s))) = s"
    by (simp add: qemud_frame_def len drop_map map_idI)
  ultimately show ?thesis
    by (subst process_commands.simps)
       (simp add: scan size Let_def process_commands.simps [of "[]"] del: map_map)
qed

text \<open>
  Commands of less than 65536 bytes that arrive one per read are all handled, in order, and nothing
  stays in the buffer.
\<close>

lemma qemud_one_per_read:
  assumes "\<forall>s \<in> set ss. length s < 65536"
  shows "qemud_feed (map qemud_frame ss) [] = (None, ss, [])"
  using assms by (induction ss) (simp_all add: qemud_process_data_def qemud_frame_alone)

lemma qemud_one_per_read_witness:
  "qemud_feed (map qemud_frame [''list'', ''power:screen_state:wake'']) [] =
     (None, [''list'', ''power:screen_state:wake''], [])"
  by (rule qemud_one_per_read) simp

text \<open>Two commands of the same length in one read: the second one waits for more data.\<close>

lemma qemud_second_command_waits:
  assumes "length s < 65536" and "length t = length s"
  shows "process_commands (qemud_frame s @ qemud_frame t) = (None, [s], qemud_frame t)"
proof -
  have len: "length (header_04zx (length s)) = 4" using header_nibbles [OF assms(1)] by simp
  have scan: "scan_04x (string_of (take qemud_header_size (qemud_frame s))) = Inr (word_of_nat (length s))"
    using scan_header [OF assms(1)] len by (simp add: qemud_frame_def take_map map_idI)
  have size: "unat (word_of_nat (length s) :: u32) = length s"
    using assms by (simp add: unat_of_nat take_bit_nat_eq_self)
  have l: "length (qemud_frame s) = qemud_header_size + length s"
    "length (qemud_frame t) = qemud_header_size + length s" using assms by (simp_all add: qemud_frame_def len)
  moreover have "string_of (drop qemud_header_size (qemud_frame s)) = s"
    by (simp add: qemud_frame_def len drop_map map_idI)
  moreover have "size_sub (qemud_header_size + length s) (qemud_header_size + length s) = 0"
    by (simp add: size_sub_def)
  ultimately show ?thesis
    by (subst process_commands.simps) (simp add: scan size Let_def del: map_map)
qed

text \<open>An icon that is not a multiple of 1024 bytes loses its last bytes, a shorter one is not sent.\<close>

lemma icon_truncated: "0 < n \<Longrightarrow> concat (icon_blocks n bs) = take (length bs div n * n) bs"
proof (induction n bs rule: icon_blocks.induct)
  case (1 n bs)
  show ?case
  proof (cases "length bs < n")
    case True
    then show ?thesis by (subst icon_blocks.simps) simp
  next
    case False
    then have "length bs div n * n = n + (length bs - n) div n * n"
      using "1.prems" by (simp add: le_div_geq)
    with 1 False show ?thesis by (subst icon_blocks.simps) (simp add: take_add)
  qed
qed

section \<open>The camera service\<close>

text \<open>A command without a zero byte behind it makes the loop erase one byte more than there is.\<close>

function camera_commands :: "byte list \<Rightarrow> fault option \<times> string list" where
  "camera_commands buffer =
     (if buffer = [] then (None, [])
      else let size = length (takeWhile (\<lambda>b. b \<noteq> 0) buffer) in
           if size = length buffer then (Some Undefined, [])
           else case camera_commands (drop (size + 1) buffer) of
                  (e, cs) \<Rightarrow> (e, string_of (take size buffer) # cs))"
  by pat_completeness auto
termination by (relation "measure length") auto

declare camera_commands.simps [simp del]

definition camera_handle :: "string \<Rightarrow> byte list" where
  "camera_handle c = (if c = ''list'' then [10] else [])"

lemma camera_commands_split: "fst (camera_commands b) = None \<longleftrightarrow> b = [] \<or> last b = 0"
proof (induction b rule: camera_commands.induct)
  case (1 b)
  let ?n = "length (takeWhile (\<lambda>x. x \<noteq> 0) b)"
  show ?case
  proof (cases "b = [] \<or> ?n = length b")
    case True
    have "\<forall>x \<in> set b. x \<noteq> 0" if "?n = length b"
    proof -
      have "takeWhile (\<lambda>x. x \<noteq> 0) b = b" using that takeWhile_eq_take [of "\<lambda>x. x \<noteq> 0" b] by simp
      then show ?thesis by (simp only: takeWhile_eq_all_conv)
    qed
    then have "b \<noteq> [] \<Longrightarrow> ?n = length b \<Longrightarrow> last b \<noteq> 0" by auto
    with True show ?thesis by (subst camera_commands.simps) (auto simp: Let_def)
  next
    case False
    then have "?n < length b" using length_takeWhile_le [of "\<lambda>x. x \<noteq> 0" b] by auto
    then have nth: "b ! ?n = 0" using nth_length_takeWhile [of "\<lambda>x. x \<noteq> 0" b] by simp
    have last: "b = [] \<or> last b = 0 \<longleftrightarrow> drop (?n + 1) b = [] \<or> last (drop (?n + 1) b) = 0"
    proof (cases "drop (?n + 1) b = []")
      case True
      with \<open>?n < length b\<close> have "length b = Suc ?n" by simp
      moreover from this have "last b = b ! (length b - 1)" by (intro last_conv_nth) auto
      ultimately show ?thesis using nth True by simp
    next
      case ne: False
      then have "last (drop (?n + 1) b) = last b" by (intro last_drop) simp
      with ne show ?thesis by auto
    qed
    have "fst (camera_commands b) = fst (camera_commands (drop (?n + 1) b))"
      using False by (subst camera_commands.simps) (simp add: Let_def case_prod_beta)
    also have "\<dots> = None \<longleftrightarrow> drop (?n + 1) b = [] \<or> last (drop (?n + 1) b) = 0"
      using "1.IH" False by simp
    finally show ?thesis using last by simp
  qed
qed

end
