(* ===== verification/Gsm.thy ===== *)
theory Gsm
  imports OrderedMap Qemud "HOL-Library.List_Lexorder" "HOL-Library.Char_ord"
begin

text \<open>
  The modem of the container: the parser of AT commands (\<open>src/anbox/qemu/at_parser.cpp\<close>) and the answers
  to them (\<open>src/anbox/qemu/gsm_message_processor.cpp\<close>).

  The handlers are kept in a \<open>std::map\<close> with string keys, that is in the order of the strings, and the
  first entry whose key is a prefix of the command is taken. A handler is a value of a datatype here.

  Shown here: what is answered depends only on the bytes received and not on how they are cut into reads;
  since no key is a prefix of another one, the order of the map does not matter.
\<close>

section \<open>The parser\<close>

record 'h at_parser =
  at_handlers :: "(string \<times> 'h) list"

definition at_parser_new :: "'h at_parser" where
  "at_parser_new = \<lparr>at_handlers = []\<rparr>"

definition register_command :: "string \<Rightarrow> 'h \<Rightarrow> 'h at_parser \<Rightarrow> 'h at_parser" where
  "register_command command handler p = p\<lparr>at_handlers := om_insert command handler (at_handlers p)\<rparr>"

text \<open>
  The loop of \<open>process_data\<close>: the commands it passes on and the bytes behind the last one. \<open>cur\<close> is what
  has been seen since the last end of line.
\<close>

fun at_scan :: "byte list \<Rightarrow> byte list \<Rightarrow> string list \<times> byte list" where
  "at_scan cur [] = ([], cur)"
| "at_scan cur (b # bs) =
     (if b = 10 \<or> b = 13 then (case at_scan [] bs of (cs, rest) \<Rightarrow> (string_of cur # cs, rest))
      else at_scan (cur @ [b]) bs)"

definition at_process_data :: "byte list \<Rightarrow> string list \<times> byte list" where
  "at_process_data data = at_scan [] data"

text \<open>\<open>processs_command\<close>: the handler and the command without \<open>AT\<close>, if there is one.\<close>

definition at_process_command :: "'h at_parser \<Rightarrow> string \<Rightarrow> ('h \<times> string) option" where
  "at_process_command p command =
     (if \<not> prefix ''AT'' command then None
      else let real_command = drop 2 command in
           map_option (\<lambda>(_, h). (h, real_command))
             (find (\<lambda>(key, _). prefix key real_command) (at_handlers p)))"

section \<open>The modem\<close>

datatype gsm_handler = Ok_Reply | Handle_Ctec | Handle_Cmgf | Handle_Creg | Handle_Cgreg | Handle_Cfun

definition gsm_commands :: "(string \<times> gsm_handler) list" where
  "gsm_commands =
     [(''E0Q0V1'', Ok_Reply), (''S0=0'', Ok_Reply), (''+CTEC'', Handle_Ctec), (''+CMEE=1'', Ok_Reply),
      (''+CCWA=1'', Ok_Reply), (''+CMOD=0'', Ok_Reply), (''+CMUT=0'', Ok_Reply), (''+CSSN=0,1'', Ok_Reply),
      (''+COLP=0'', Ok_Reply), (''+CSCS=\"HEX\"'', Ok_Reply), (''+CUSD=1'', Ok_Reply),
      (''+CGEREP=1,0'', Ok_Reply), (''+CMGF'', Handle_Cmgf), (''%CPI=3'', Ok_Reply),
      (''%CSTAT=1'', Ok_Reply), (''+CREG'', Handle_Creg), (''+CGREG'', Handle_Cgreg),
      (''+CFUN'', Handle_Cfun)]"

definition gsm_parser :: "gsm_handler at_parser" where
  "gsm_parser = fold (\<lambda>(c, h). register_command c h) gsm_commands at_parser_new"

definition send_reply :: "string \<Rightarrow> byte list" where
  "send_reply message = bytes_of (message @ [CHR 0x0D] @ ''OK'' @ [CHR 0x0A])"

definition handle_ctec :: "string \<Rightarrow> byte list" where
  "handle_ctec command =
     (if command = ''+CTEC=?'' then send_reply ''+CTEC: 0,1,2,3''
      else if command = ''+CTEC?'' then send_reply (''+CTEC: '' @ show_nat 0 @ '','' @ hex_digits 15)
      else [])"

definition handle_cmgf :: "string \<Rightarrow> byte list" where
  "handle_cmgf command = (if command = ''+CMGF=0'' then send_reply '''' else [])"

definition handle_creg :: "string \<Rightarrow> byte list" where
  "handle_creg command =
     (if command = ''+CREG=?'' then send_reply ''+CREG: (0-2)''
      else if command = ''+CREG?'' then send_reply ''+CREF: 0,0''
      else if prefix ''+CREG='' command then send_reply ''''
      else [])"

definition handle_cgreg :: "string \<Rightarrow> byte list" where
  "handle_cgreg command =
     (if command = ''+CGREG=?'' then send_reply ''+CGREG: (0-2)''
      else if command = ''+CGREG?'' then send_reply ''+CGREG: 0,0''
      else if prefix ''+CGREG='' command then send_reply ''''
      else [])"

definition handle_cfun :: "string \<Rightarrow> byte list" where
  "handle_cfun command =
     (if command = ''+CFUN?'' then send_reply ''+CFUN: 1''
      else if prefix ''+CFUN='' command then send_reply ''''
      else [])"

fun gsm_handle :: "gsm_handler \<Rightarrow> string \<Rightarrow> byte list" where
  "gsm_handle Ok_Reply command = send_reply ''OK''"
| "gsm_handle Handle_Ctec command = handle_ctec command"
| "gsm_handle Handle_Cmgf command = handle_cmgf command"
| "gsm_handle Handle_Creg command = handle_creg command"
| "gsm_handle Handle_Cgreg command = handle_cgreg command"
| "gsm_handle Handle_Cfun command = handle_cfun command"

definition gsm_answer :: "gsm_handler at_parser \<Rightarrow> string \<Rightarrow> byte list" where
  "gsm_answer p command =
     (case at_process_command p command of None \<Rightarrow> [] | Some (h, c) \<Rightarrow> gsm_handle h c)"

text \<open>\<open>process_data\<close>: the bytes sent, and the new buffer.\<close>

definition gsm_process_data :: "gsm_handler at_parser \<Rightarrow> byte list \<Rightarrow> byte list \<Rightarrow> byte list \<times> byte list" where
  "gsm_process_data p data buffer =
     (case at_process_data (buffer @ data) of
        (commands, rest) \<Rightarrow> (concat (map (gsm_answer p) commands), rest))"

fun gsm_feed :: "gsm_handler at_parser \<Rightarrow> byte list list \<Rightarrow> byte list \<Rightarrow> byte list \<times> byte list" where
  "gsm_feed p [] buffer = ([], buffer)"
| "gsm_feed p (d # ds) buffer =
     (case gsm_process_data p d buffer of
        (out, b) \<Rightarrow> (case gsm_feed p ds b of (out', b') \<Rightarrow> (out @ out', b')))"

section \<open>Properties\<close>

lemma at_scan_rest: "list_all (\<lambda>b. b \<noteq> 10 \<and> b \<noteq> 13) cur \<Longrightarrow>
  list_all (\<lambda>b. b \<noteq> 10 \<and> b \<noteq> 13) (snd (at_scan cur bs))"
  by (induction cur bs rule: at_scan.induct) (auto split: prod.splits)

lemma at_scan_plain: "list_all (\<lambda>b. b \<noteq> 10 \<and> b \<noteq> 13) xs \<Longrightarrow> at_scan cur (xs @ ys) = at_scan (cur @ xs) ys"
  by (induction xs arbitrary: cur) auto

lemma at_scan_append:
  "at_scan cur (xs @ ys) =
     (case at_scan cur xs of (cs, r) \<Rightarrow> (case at_scan r ys of (cs', r') \<Rightarrow> (cs @ cs', r')))"
  by (induction cur xs rule: at_scan.induct) (auto split: prod.splits)

lemma at_scan_buffer: "at_scan [] (snd (at_scan [] xs) @ ys) = at_scan (snd (at_scan [] xs)) ys"
  using at_scan_plain [OF at_scan_rest [of "[]" xs], of "[]" ys] by simp

lemma gsm_feed_whole:
  "gsm_feed p ds (snd (at_scan [] b)) =
     (concat (map (gsm_answer p) (fst (at_scan (snd (at_scan [] b)) (concat ds)))),
      snd (at_scan (snd (at_scan [] b)) (concat ds)))"
proof (induction ds arbitrary: b)
  case Nil
  then show ?case by simp
next
  case (Cons d ds)
  define r where "r = snd (at_scan [] b)"
  obtain cs r' where scan: "at_scan r d = (cs, r')" by fastforce
  have whole: "at_scan [] (r @ d) = (cs, r')" using at_scan_buffer [of b d] scan by (simp add: r_def)
  have "gsm_process_data p d r = (concat (map (gsm_answer p) cs), r')"
    by (simp add: gsm_process_data_def at_process_data_def whole)
  then show ?case
    using Cons.IH [of "r @ d"] unfolding r_def [symmetric]
    by (simp add: at_scan_append [of r d] scan whole split: prod.splits)
qed

text \<open>
  C15. The modem answers a stream of AT commands the same way however the stream is cut into reads, in the
  middle of a command or not: the bytes sent are those for the whole stream, and the same unfinished
  command is left.
\<close>

theorem gsm_chunks_do_not_matter: "gsm_feed p ds [] = gsm_process_data p (concat ds) []"
  using gsm_feed_whole [of p ds "[]"]
  by (simp add: gsm_process_data_def at_process_data_def split: prod.splits)

text \<open>The first registration of a key counts, and the order of the registrations does not matter else.\<close>

lemma registered_handlers:
  "map_of (at_handlers (fold (\<lambda>(c, h). register_command c h) cs p)) = map_of cs ++ map_of (at_handlers p)"
proof (induction cs arbitrary: p)
  case Nil
  then show ?case by simp
next
  case (Cons e cs)
  obtain c h where e: "e = (c, h)" by fastforce
  have "map_of (at_handlers (register_command c h p)) = [c \<mapsto> h] ++ map_of (at_handlers p)"
    by (rule ext) (simp add: register_command_def map_of_om_insert map_add_def split: option.splits)
  then show ?case using Cons.IH [of "register_command c h p"]
    by (simp add: e map_add_assoc [symmetric]) (rule ext, simp add: map_add_def split: option.splits)
qed

lemma registered_wf:
  "om_wf (at_handlers p) \<Longrightarrow> om_wf (at_handlers (fold (\<lambda>(c, h). register_command c h) cs p))"
  by (induction cs arbitrary: p) (auto simp: register_command_def)

lemma gsm_keys_distinct: "distinct (map fst gsm_commands)"
  by (simp add: gsm_commands_def)

lemma gsm_handlers: "set (at_handlers gsm_parser) = set gsm_commands"
proof -
  have "map_of (at_handlers gsm_parser) = map_of gsm_commands"
    by (simp add: gsm_parser_def registered_handlers at_parser_new_def)
  moreover have "distinct (map fst (at_handlers gsm_parser))"
    using registered_wf [of at_parser_new gsm_commands] om_wf_distinct
    by (simp add: gsm_parser_def at_parser_new_def)
  ultimately show ?thesis
    using gsm_keys_distinct by (metis map_of_inject_set)
qed

text \<open>No key of the modem is a prefix of another one.\<close>

lemma gsm_key_list:
  "list_all (\<lambda>k. list_all (\<lambda>l. k = l \<or> \<not> prefix k l) (map fst gsm_commands)) (map fst gsm_commands)"
  by (simp add: gsm_commands_def)

lemma gsm_key_pair: "(k, h) \<in> set gsm_commands \<Longrightarrow> (l, i) \<in> set gsm_commands \<Longrightarrow> prefix k l \<Longrightarrow> k = l"
  using gsm_key_list unfolding list_all_iff list.set_map by (metis fst_conv image_eqI)

lemma gsm_keys_independent:
  "(k, h) \<in> set gsm_commands \<Longrightarrow> (l, i) \<in> set gsm_commands \<Longrightarrow> prefix k c \<Longrightarrow> prefix l c \<Longrightarrow> k = l \<and> h = i"
proof -
  assume in_k: "(k, h) \<in> set gsm_commands" and in_l: "(l, i) \<in> set gsm_commands"
    and "prefix k c" "prefix l c"
  then have "prefix k l \<or> prefix l k" by (metis prefix_same_cases)
  then have "k = l" using gsm_key_pair [OF in_k in_l] gsm_key_pair [OF in_l in_k] by blast
  then show ?thesis using in_k in_l gsm_keys_distinct by (metis eq_key_imp_eq_value)
qed

text \<open>
  A command is handled exactly when it is \<open>AT\<close> followed by something that starts with one of the
  registered keys, and then by the handler of that key: however the map orders them, at most one fits.
\<close>

lemma gsm_dispatch:
  "at_process_command gsm_parser command = Some (h, c) \<longleftrightarrow>
     command = ''AT'' @ c \<and> (\<exists>key. (key, h) \<in> set gsm_commands \<and> prefix key c)"
proof (cases "prefix ''AT'' command")
  case False
  then show ?thesis by (auto simp: at_process_command_def)
next
  case True
  then obtain r where command: "command = ''AT'' @ r" by (auto simp: prefix_def)
  have "map_option snd (find (\<lambda>(key, _). prefix key r) (at_handlers gsm_parser)) = Some h \<longleftrightarrow>
      (\<exists>key. (key, h) \<in> set gsm_commands \<and> prefix key r)"
  proof (cases "find (\<lambda>(key, _). prefix key r) (at_handlers gsm_parser)")
    case None
    then have "(key, h) \<in> set gsm_commands \<Longrightarrow> \<not> prefix key r" for key
      by (auto simp: find_None_iff gsm_handlers [symmetric])
    with None show ?thesis by auto
  next
    case (Some e)
    obtain k i where e: "e = (k, i)" by fastforce
    have k: "(k, i) \<in> set gsm_commands" "prefix k r"
      using Some unfolding e gsm_handlers [symmetric] find_Some_iff by (metis nth_mem case_prod_conv)+
    show ?thesis
    proof
      assume "map_option snd (find (\<lambda>(key, _). prefix key r) (at_handlers gsm_parser)) = Some h"
      with Some k show "\<exists>key. (key, h) \<in> set gsm_commands \<and> prefix key r" by (auto simp: e)
    next
      assume "\<exists>key. (key, h) \<in> set gsm_commands \<and> prefix key r"
      then have "i = h" using k gsm_keys_independent by blast
      with Some show "map_option snd (find (\<lambda>(key, _). prefix key r) (at_handlers gsm_parser)) = Some h"
        by (simp add: e)
    qed
  qed
  then show ?thesis
    by (auto simp: command at_process_command_def Let_def case_prod_beta)
qed

text \<open>The answer to \<open>AT+CREG?\<close> is named after another command.\<close>

lemma creg_answer: "handle_creg ''+CREG?'' = send_reply ''+CREF: 0,0''"
  by (simp add: handle_creg_def)

end
