(* ===== verification/Pipe.thy ===== *)
theory Pipe
  imports Adb Gsm
begin

text \<open>
  The clients of the pipe socket: \<open>src/anbox/qemu/pipe_connection_creator.cpp\<close> finds out from the first
  bytes which service a guest process wants and creates the processor for it.

  Shown here: the name a client sends decides which service it gets, in whatever order the names are tried,
  and every client gets exactly one processor; the service of the boot animation gets one that ignores it.
\<close>

section \<open>Identification\<close>

datatype client_type =
  Opengles | Qemud_Boot_Properties | Qemud_Hw_Control | Qemud_Sensors | Qemud_Camera | Qemud_Fingerprint |
  Qemud_Gsm | Bootanimation | Qemud_Adb | Invalid_Client

definition client_type_to_string :: "client_type \<Rightarrow> string" where
  "client_type_to_string t =
     (case t of
        Opengles \<Rightarrow> ''opengles''
      | Qemud_Boot_Properties \<Rightarrow> ''boot-properties''
      | Qemud_Hw_Control \<Rightarrow> ''hw-control''
      | Qemud_Sensors \<Rightarrow> ''sensors''
      | Qemud_Camera \<Rightarrow> ''camera''
      | Qemud_Fingerprint \<Rightarrow> ''fingerprint''
      | Qemud_Gsm \<Rightarrow> ''gsm''
      | Qemud_Adb \<Rightarrow> ''adb''
      | Bootanimation \<Rightarrow> ''boot-animation''
      | Invalid_Client \<Rightarrow> ''unknown'')"

text \<open>
  The bytes are read one by one up to a NUL. \<open>Unterminated\<close> is the case in which the read fails before
  that: the buffer is then used as a string although no NUL ends it. The bytes behind the NUL stay in the
  socket for the processor.
\<close>

datatype client_id = Unterminated "byte list" | Identifier string "byte list"

fun read_identifier :: "byte list \<Rightarrow> byte list \<Rightarrow> client_id" where
  "read_identifier buf [] = Unterminated buf"
| "read_identifier buf (b # bs) =
     (if b = 0 then Identifier (string_of buf) bs else read_identifier (buf @ [b]) bs)"

definition identify_client :: "string \<Rightarrow> client_type" where
  "identify_client s =
     (if prefix ''pipe:opengles'' s then Opengles
      else if prefix ''pipe:qemud:boot-properties'' s then Qemud_Boot_Properties
      else if prefix ''pipe:qemud:hw-control'' s then Qemud_Hw_Control
      else if prefix ''pipe:qemud:sensors'' s then Qemud_Sensors
      else if prefix ''pipe:qemud:camera'' s then Qemud_Camera
      else if prefix ''pipe:qemud:fingerprintlisten'' s then Qemud_Fingerprint
      else if prefix ''pipe:qemud:gsm'' s then Qemud_Gsm
      else if prefix ''pipe:anbox:bootanimation'' s then Bootanimation
      else if prefix ''pipe:qemud:adb'' s then Qemud_Adb
      else Invalid_Client)"

datatype service_processor =
  OpenGles_Processor | Boot_Properties_Processor | Hw_Control_Processor | Sensors_Processor |
  Camera_Processor | Fingerprint_Processor | Gsm_Processor | Adb_Processor | Null_Processor

definition create_processor :: "client_type \<Rightarrow> service_processor" where
  "create_processor t =
     (if t = Opengles then OpenGles_Processor
      else if t = Qemud_Boot_Properties then Boot_Properties_Processor
      else if t = Qemud_Hw_Control then Hw_Control_Processor
      else if t = Qemud_Sensors then Sensors_Processor
      else if t = Qemud_Camera then Camera_Processor
      else if t = Qemud_Fingerprint then Fingerprint_Processor
      else if t = Qemud_Gsm then Gsm_Processor
      else if t = Qemud_Adb then Adb_Processor
      else Null_Processor)"

record pipe_connection =
  pipe_id :: int
  pipe_name :: string
  pipe_processor :: service_processor

record pipe_creator =
  next_connection_id :: int
  pipe_connections :: "pipe_connection list"

text \<open>
  A new client with the bytes it sends: the connection is kept with the name of its type and reads what is
  left. A client whose identifier is not terminated has no defined behaviour.
\<close>

definition create_pipe_connection :: "byte list \<Rightarrow> pipe_creator \<Rightarrow> (pipe_creator \<times> service_processor \<times> byte list) option" where
  "create_pipe_connection stream c =
     (case read_identifier [] stream of
        Unterminated _ \<Rightarrow> None
      | Identifier s rest \<Rightarrow>
          let t = identify_client s; p = create_processor t; i = next_connection_id c in
          Some (\<lparr>next_connection_id = i + 1,
                 pipe_connections = pipe_connections c @
                   [\<lparr>pipe_id = i, pipe_name = client_type_to_string t, pipe_processor = p\<rparr>]\<rparr>, p, rest))"

section \<open>Properties\<close>

definition service_names :: "(string \<times> client_type) list" where
  "service_names =
     [(''pipe:opengles'', Opengles), (''pipe:qemud:boot-properties'', Qemud_Boot_Properties),
      (''pipe:qemud:hw-control'', Qemud_Hw_Control), (''pipe:qemud:sensors'', Qemud_Sensors),
      (''pipe:qemud:camera'', Qemud_Camera), (''pipe:qemud:fingerprintlisten'', Qemud_Fingerprint),
      (''pipe:qemud:gsm'', Qemud_Gsm), (''pipe:anbox:bootanimation'', Bootanimation),
      (''pipe:qemud:adb'', Qemud_Adb)]"

lemma read_identifier_rest:
  "0 \<notin> set name \<Longrightarrow> read_identifier buf (name @ 0 # rest) = Identifier (string_of (buf @ name)) rest"
  by (induction name arbitrary: buf) auto

lemma identify_client_named: "identify_client s = t \<Longrightarrow> t \<noteq> Invalid_Client \<Longrightarrow>
    \<exists>name. (name, t) \<in> set service_names \<and> prefix name s"
  by (simp add: identify_client_def service_names_def split: if_splits)

lemma service_name_list:
  "list_all (\<lambda>k. list_all (\<lambda>l. k = l \<or> \<not> prefix k l) (map fst service_names)) (map fst service_names)"
  by (simp add: service_names_def)

lemma service_name_keys: "distinct (map fst service_names)"
  by (simp add: service_names_def)

lemma service_names_independent:
  "(k, t) \<in> set service_names \<Longrightarrow> (l, u) \<in> set service_names \<Longrightarrow> prefix k s \<Longrightarrow> prefix l s \<Longrightarrow> t = u"
proof -
  assume in_k: "(k, t) \<in> set service_names" and in_l: "(l, u) \<in> set service_names"
    and "prefix k s" "prefix l s"
  then have "prefix k l \<or> prefix l k" by (metis prefix_same_cases)
  then have "k = l"
    using in_k in_l service_name_list unfolding list_all_iff list.set_map by (metis fst_conv image_eqI)
  then show ?thesis using in_k in_l service_name_keys by (metis eq_key_imp_eq_value)
qed

lemma identify_client_found:
  "(name, t) \<in> set service_names \<Longrightarrow> prefix name s \<Longrightarrow> identify_client s \<noteq> Invalid_Client"
  by (simp add: identify_client_def service_names_def) blast

text \<open>
  A client gets a service exactly when what it sends starts with the name of that service; the order
  in which the names are tried does not matter, and arguments behind the name do not either.
\<close>

lemma client_service_by_name:
  "(identify_client s = t \<and> t \<noteq> Invalid_Client) \<longleftrightarrow> (\<exists>name. (name, t) \<in> set service_names \<and> prefix name s)"
proof
  assume "identify_client s = t \<and> t \<noteq> Invalid_Client"
  then show "\<exists>name. (name, t) \<in> set service_names \<and> prefix name s"
    using identify_client_named by blast
next
  assume "\<exists>name. (name, t) \<in> set service_names \<and> prefix name s"
  then obtain name where name: "(name, t) \<in> set service_names" "prefix name s" by blast
  note found = identify_client_found [OF name]
  obtain name' where "(name', identify_client s) \<in> set service_names" "prefix name' s"
    using identify_client_named [OF refl found] by blast
  then have "identify_client s = t" using service_names_independent name by blast
  with found show "identify_client s = t \<and> t \<noteq> Invalid_Client" by simp
qed

text \<open>
  Everything behind the NUL is left for the processor. The boot animation has a processor of its own that is
  never created, and a client whose name is unknown is kept as well, with a processor that ignores it: the
  error for an unhandled client can never be raised.
\<close>

lemma connection_created:
  assumes "0 \<notin> set (bytes_of s)"
  shows "create_pipe_connection (bytes_of s @ 0 # rest) c =
    Some (\<lparr>next_connection_id = next_connection_id c + 1,
      pipe_connections = pipe_connections c @ [\<lparr>pipe_id = next_connection_id c,
        pipe_name = client_type_to_string (identify_client s),
        pipe_processor = create_processor (identify_client s)\<rparr>]\<rparr>,
      create_processor (identify_client s), rest)"
  using assms by (simp add: create_pipe_connection_def read_identifier_rest Let_def o_def)

lemma bootanimation_ignored:
  "create_processor (identify_client ''pipe:anbox:bootanimation'') = Null_Processor"
  by (simp add: create_processor_def identify_client_def)

end
