(* ===== verification/RendererState.thy ===== *)
theory RendererState
  imports OrderedMap
begin

text \<open>
  The handles of the host renderer: \<open>src/anbox/graphics/emugl/Renderer.cpp\<close>, with the parts of
  \<open>WindowSurface.cpp\<close>, \<open>ColorBuffer.cpp\<close>, \<open>RenderThreadInfo.h\<close> and \<open>RendererConfig.h\<close> that it uses.

  The objects behind the handles are shared pointers. Contexts and colour buffers do not change and are
  values with an identity; window surfaces do and live in a store, so that a surface that is current in a
  thread stays when its handle is gone. Whether a call of EGL succeeds is an input of the operation that
  makes it; pixels are not modelled.

  Shown here: handles are found, and new, as long as one is left; contexts and windows never share a
  handle and 0 is never one; a colour buffer lives as long as clients hold references to it, and which
  operation breaks that; what binding a context does.
\<close>

section \<open>Objects\<close>

type_synonym handle = u32

record render_context =
  context_object :: nat
  is_gl2 :: bool

datatype gl_format = GL_RGB | GL_RGB565_OES | GL_RGBA | GL_RGB5_A1_OES | GL_RGBA4_OES | Other_Format u32

record color_buffer =
  cb_object :: nat
  cb_width :: u32
  cb_height :: u32
  cb_format :: gl_format
  cb_image :: bool

text \<open>
  \<open>ColorBuffer::create\<close>: the format of the texture, and none if the format is not one of the five or the
  context of the helper cannot be made current. \<open>image_ok\<close> says whether EGL gives an image for the texture.
\<close>

definition texture_format :: "gl_format \<Rightarrow> gl_format option" where
  "texture_format f =
     (case f of
        GL_RGB \<Rightarrow> Some GL_RGB
      | GL_RGB565_OES \<Rightarrow> Some GL_RGB
      | GL_RGBA \<Rightarrow> Some GL_RGBA
      | GL_RGB5_A1_OES \<Rightarrow> Some GL_RGBA
      | GL_RGBA4_OES \<Rightarrow> Some GL_RGBA
      | Other_Format _ \<Rightarrow> None)"

definition color_buffer_create :: "bool \<Rightarrow> bool \<Rightarrow> bool \<Rightarrow> nat \<Rightarrow> u32 \<Rightarrow> u32 \<Rightarrow> gl_format \<Rightarrow> color_buffer option" where
  "color_buffer_create helper_ok has_eglimage image_ok i w h f =
     (case texture_format f of
        None \<Rightarrow> None
      | Some t \<Rightarrow> if \<not> helper_ok then None
          else Some \<lparr>cb_object = i, cb_width = w, cb_height = h, cb_format = t,
                     cb_image = (has_eglimage \<and> image_ok)\<rparr>)"

record window_surface =
  pbuffer :: bool
  attached_color_buffer :: "color_buffer option"
  read_context :: "render_context option"
  draw_context :: "render_context option"
  ws_width :: u32
  ws_height :: u32

definition window_surface_new :: window_surface where
  "window_surface_new = \<lparr>pbuffer = False, attached_color_buffer = None, read_context = None,
     draw_context = None, ws_width = 0, ws_height = 0\<rparr>"

text \<open>\<open>resize\<close>; \<open>pbuffer_ok\<close> says whether EGL creates the new surface.\<close>

definition ws_resize :: "bool \<Rightarrow> u32 \<Rightarrow> u32 \<Rightarrow> window_surface \<Rightarrow> bool \<times> window_surface" where
  "ws_resize pbuffer_ok w h s =
     (if pbuffer s \<and> ws_width s = w \<and> ws_height s = h then (True, s)
      else if \<not> pbuffer_ok then (False, s\<lparr>pbuffer := False\<rparr>)
      else (True, s\<lparr>pbuffer := True, ws_width := w, ws_height := h\<rparr>))"

definition ws_create :: "bool \<Rightarrow> u32 \<Rightarrow> u32 \<Rightarrow> window_surface option" where
  "ws_create pbuffer_ok w h =
     (case ws_resize pbuffer_ok w h window_surface_new of (ok, s) \<Rightarrow> if ok then Some s else None)"

definition ws_set_color_buffer :: "bool \<Rightarrow> color_buffer \<Rightarrow> window_surface \<Rightarrow> window_surface" where
  "ws_set_color_buffer pbuffer_ok cb s =
     (let s = s\<lparr>attached_color_buffer := Some cb\<rparr> in
      if cb_width cb \<noteq> ws_width s \<or> cb_height cb \<noteq> ws_height s
      then snd (ws_resize pbuffer_ok (cb_width cb) (cb_height cb) s) else s)"

datatype bind_type = Bind_Read | Bind_Draw | Bind_Readdraw

definition ws_bind :: "render_context option \<Rightarrow> bind_type \<Rightarrow> window_surface \<Rightarrow> window_surface" where
  "ws_bind c b s =
     (case b of
        Bind_Read \<Rightarrow> s\<lparr>read_context := c\<rparr>
      | Bind_Draw \<Rightarrow> s\<lparr>draw_context := c\<rparr>
      | Bind_Readdraw \<Rightarrow> s\<lparr>read_context := c, draw_context := c\<rparr>)"

text \<open>
  \<open>flushColorBuffer\<close>: its result, and the colour buffer that gets the contents of the surface. A
  failing copy is not reported.
\<close>

definition ws_flush :: "bool \<Rightarrow> window_surface \<Rightarrow> bool \<times> color_buffer option" where
  "ws_flush make_current_ok s =
     (case attached_color_buffer s of
        None \<Rightarrow> (True, None)
      | Some cb \<Rightarrow>
          if ws_width s = 0 \<or> ws_height s = 0 then (False, None)
          else if cb_width cb \<noteq> ws_width s \<or> cb_height cb \<noteq> ws_height s then (False, None)
          else if draw_context s = None then (False, None)
          else if \<not> make_current_ok then (False, None)
          else (True, Some cb))"

section \<open>The renderer and its threads\<close>

record renderer =
  next_handle :: handle
  contexts :: "(handle \<times> render_context) list"
  windows :: "(handle \<times> (nat \<times> handle)) list"
  colorbuffers :: "(handle \<times> (color_buffer \<times> u32)) list"
  surfaces :: "nat \<rightharpoonup> window_surface"
  surface_count :: nat
  config_count :: nat

record thread_info =
  context_set :: "handle list"
  window_set :: "handle list"
  curr_context :: "render_context option"
  curr_draw_surf :: "nat option"
  curr_read_surf :: "nat option"
  gl_data :: "render_context option"
  gl2_data :: "render_context option"

definition thread_info_new :: thread_info where
  "thread_info_new = \<lparr>context_set = [], window_set = [], curr_context = None, curr_draw_surf = None,
     curr_read_surf = None, gl_data = None, gl2_data = None\<rparr>"

definition renderer_new :: "nat \<Rightarrow> renderer" where
  "renderer_new n = \<lparr>next_handle = 0, contexts = [], windows = [], colorbuffers = [],
     surfaces = Map.empty, surface_count = 0, config_count = n\<rparr>"

text \<open>\<open>genHandle\<close>; None stands for a loop that does not end.\<close>

definition handle_taken :: "renderer \<Rightarrow> handle \<Rightarrow> bool" where
  "handle_taken r h \<longleftrightarrow> h = 0 \<or> map_of (contexts r) h \<noteq> None \<or> map_of (windows r) h \<noteq> None"

partial_function (option) find_handle :: "renderer \<Rightarrow> handle \<Rightarrow> handle option" where
  "find_handle r h = (if handle_taken r (h + 1) then find_handle r (h + 1) else Some (h + 1))"

definition gen_handle :: "renderer \<Rightarrow> (handle \<times> renderer) option" where
  "gen_handle r = map_option (\<lambda>h. (h, r\<lparr>next_handle := h\<rparr>)) (find_handle r (next_handle r))"

definition config_valid :: "renderer \<Rightarrow> int \<Rightarrow> bool" where
  "config_valid r c \<longleftrightarrow> 0 \<le> c \<and> c < int (config_count r)"

definition create_color_buffer :: "color_buffer option \<Rightarrow> renderer \<Rightarrow> (handle \<times> renderer) option" where
  "create_color_buffer made r =
     (case made of
        None \<Rightarrow> Some (0, r)
      | Some cb \<Rightarrow> map_option (\<lambda>(h, r'). (h, r'\<lparr>colorbuffers := om_set h (cb, 1) (colorbuffers r')\<rparr>)) (gen_handle r))"

text \<open>
  \<open>createRenderContext\<close>; \<open>new_context\<close> creates the context from the one it shares with, if any.
\<close>

definition create_render_context ::
  "(render_context option \<Rightarrow> render_context option) \<Rightarrow> int \<Rightarrow> handle \<Rightarrow> thread_info \<Rightarrow> renderer \<Rightarrow>
     (handle \<times> thread_info \<times> renderer) option" where
  "create_render_context new_context config share t r =
     (if \<not> config_valid r config then Some (0, t, r)
      else if share \<noteq> 0 \<and> map_of (contexts r) share = None then Some (0, t, r)
      else case new_context (if share = 0 then None else map_of (contexts r) share) of
        None \<Rightarrow> Some (0, t, r)
      | Some c \<Rightarrow> map_option (\<lambda>(h, r').
            (h, t\<lparr>context_set := insort_insert h (context_set t)\<rparr>, r'\<lparr>contexts := om_set h c (contexts r')\<rparr>))
          (gen_handle r))"

text \<open>\<open>createWindowSurface\<close>; the new object gets the next free place of the store.\<close>

definition create_window_surface ::
  "bool \<Rightarrow> int \<Rightarrow> u32 \<Rightarrow> u32 \<Rightarrow> thread_info \<Rightarrow> renderer \<Rightarrow> (handle \<times> thread_info \<times> renderer) option" where
  "create_window_surface pbuffer_ok config w h t r =
     (if \<not> config_valid r config then Some (0, t, r)
      else case ws_create pbuffer_ok w h of
        None \<Rightarrow> Some (0, t, r)
      | Some s \<Rightarrow> map_option (\<lambda>(n, r').
            (n, t\<lparr>window_set := insort_insert n (window_set t)\<rparr>,
             r'\<lparr>windows := om_set n (surface_count r, 0) (windows r'),
                surfaces := (surfaces r')(surface_count r \<mapsto> s), surface_count := surface_count r + 1\<rparr>))
          (gen_handle r))"

definition drain_render_context :: "thread_info \<Rightarrow> renderer \<Rightarrow> thread_info \<times> renderer" where
  "drain_render_context t r =
     (t\<lparr>context_set := []\<rparr>, r\<lparr>contexts := fold om_erase (context_set t) (contexts r)\<rparr>)"

text \<open>A reference to a colour buffer is given back; with the last one the buffer goes.\<close>

definition drop_reference :: "handle \<Rightarrow> renderer \<Rightarrow> renderer" where
  "drop_reference h r =
     (case map_of (colorbuffers r) h of
        None \<Rightarrow> r
      | Some (cb, n) \<Rightarrow>
          r\<lparr>colorbuffers := (if n - 1 = 0 then om_erase h (colorbuffers r)
                             else om_set h (cb, n - 1) (colorbuffers r))\<rparr>)"

definition drain_window :: "handle \<Rightarrow> renderer \<Rightarrow> renderer" where
  "drain_window h r =
     (case map_of (windows r) h of
        None \<Rightarrow> r
      | Some (_, old) \<Rightarrow>
          let r = (if old \<noteq> 0 then drop_reference old r else r) in
          r\<lparr>windows := om_erase h (windows r)\<rparr>)"

definition drain_window_surface :: "thread_info \<Rightarrow> renderer \<Rightarrow> thread_info \<times> renderer" where
  "drain_window_surface t r = (t\<lparr>window_set := []\<rparr>, fold drain_window (window_set t) r)"

definition destroy_render_context :: "handle \<Rightarrow> thread_info \<Rightarrow> renderer \<Rightarrow> thread_info \<times> renderer" where
  "destroy_render_context h t r =
     (t\<lparr>context_set := removeAll h (context_set t)\<rparr>, r\<lparr>contexts := om_erase h (contexts r)\<rparr>)"

definition destroy_window_surface :: "handle \<Rightarrow> thread_info \<Rightarrow> renderer \<Rightarrow> thread_info \<times> renderer" where
  "destroy_window_surface h t r =
     (if map_of (windows r) h = None then (t, r)
      else (t\<lparr>window_set := removeAll h (window_set t)\<rparr>, r\<lparr>windows := om_erase h (windows r)\<rparr>))"

definition open_color_buffer :: "handle \<Rightarrow> renderer \<Rightarrow> int \<times> renderer" where
  "open_color_buffer h r =
     (case map_of (colorbuffers r) h of
        None \<Rightarrow> (- 1, r)
      | Some (cb, n) \<Rightarrow> (0, r\<lparr>colorbuffers := om_set h (cb, n + 1) (colorbuffers r)\<rparr>))"

definition close_color_buffer :: "handle \<Rightarrow> renderer \<Rightarrow> renderer" where
  "close_color_buffer h r = drop_reference h r"

definition flush_window_surface_color_buffer :: "bool \<Rightarrow> handle \<Rightarrow> renderer \<Rightarrow> bool \<times> color_buffer option" where
  "flush_window_surface_color_buffer make_current_ok h r =
     (case map_of (windows r) h of
        None \<Rightarrow> (False, None)
      | Some (i, _) \<Rightarrow>
          (case surfaces r i of None \<Rightarrow> (False, None) | Some s \<Rightarrow> (True, snd (ws_flush make_current_ok s))))"

definition set_window_surface_color_buffer :: "bool \<Rightarrow> handle \<Rightarrow> handle \<Rightarrow> renderer \<Rightarrow> bool \<times> renderer" where
  "set_window_surface_color_buffer pbuffer_ok h c r =
     (case map_of (windows r) h of
        None \<Rightarrow> (False, r)
      | Some (i, _) \<Rightarrow>
          (case map_of (colorbuffers r) c of
             None \<Rightarrow> (False, r)
           | Some (cb, _) \<Rightarrow>
               (True, r\<lparr>surfaces := (surfaces r)(i := map_option (ws_set_color_buffer pbuffer_ok cb) (surfaces r i)),
                        windows := om_set h (i, c) (windows r)\<rparr>)))"

text \<open>Operations on a colour buffer by its handle, and whether the one it has may be bound.\<close>

definition with_color_buffer :: "handle \<Rightarrow> 'a \<Rightarrow> (color_buffer \<Rightarrow> 'a) \<Rightarrow> renderer \<Rightarrow> 'a" where
  "with_color_buffer h bad f r = (case map_of (colorbuffers r) h of None \<Rightarrow> bad | Some (cb, _) \<Rightarrow> f cb)"

definition bind_color_buffer :: "handle \<Rightarrow> thread_info \<Rightarrow> renderer \<Rightarrow> bool" where
  "bind_color_buffer h t r =
     with_color_buffer h False (\<lambda>cb. cb_image cb \<and> curr_context t \<noteq> None) r"

definition update_color_buffer :: "handle \<Rightarrow> renderer \<Rightarrow> bool" where
  "update_color_buffer h r = with_color_buffer h False (\<lambda>_. True) r"

section \<open>Binding a context\<close>

text \<open>
  The objects behind the three handles of \<open>bindContext\<close>: none at all when all are 0; otherwise the context
  and both surfaces have to be there.
\<close>

definition resolve_binding ::
  "handle \<Rightarrow> handle \<Rightarrow> handle \<Rightarrow> renderer \<Rightarrow> (render_context option \<times> nat option \<times> nat option) option" where
  "resolve_binding c d rd r =
     (if c = 0 \<and> d = 0 \<and> rd = 0 then Some (None, None, None)
      else case map_of (contexts r) c of
        None \<Rightarrow> None
      | Some ctx \<Rightarrow>
          (case map_of (windows r) d of
             None \<Rightarrow> None
           | Some (draw, _) \<Rightarrow>
               if rd = d then Some (Some ctx, Some draw, Some draw)
               else (case map_of (windows r) rd of
                       None \<Rightarrow> None
                     | Some (read, _) \<Rightarrow> Some (Some ctx, Some draw, Some read))))"

definition bind_surface :: "nat \<Rightarrow> render_context option \<Rightarrow> bind_type \<Rightarrow> renderer \<Rightarrow> renderer" where
  "bind_surface i ctx b r = r\<lparr>surfaces := (surfaces r)(i := map_option (ws_bind ctx b) (surfaces r i))\<rparr>"

definition bind_surfaces :: "nat option \<Rightarrow> nat option \<Rightarrow> render_context option \<Rightarrow> renderer \<Rightarrow> renderer" where
  "bind_surfaces draw read ctx r =
     (case (draw, read) of
        (Some d, Some e) \<Rightarrow>
          if d \<noteq> e then bind_surface e ctx Bind_Read (bind_surface d ctx Bind_Draw r)
          else bind_surface d ctx Bind_Readdraw r
      | _ \<Rightarrow> r)"

definition set_decoders :: "render_context option \<Rightarrow> thread_info \<Rightarrow> thread_info" where
  "set_decoders ctx t =
     (case ctx of
        None \<Rightarrow> t\<lparr>gl_data := None, gl2_data := None\<rparr>
      | Some c \<Rightarrow> if is_gl2 c then t\<lparr>gl2_data := Some c\<rparr> else t\<lparr>gl_data := Some c\<rparr>)"

definition bind_context ::
  "bool \<Rightarrow> handle \<Rightarrow> handle \<Rightarrow> handle \<Rightarrow> thread_info \<Rightarrow> renderer \<Rightarrow> bool \<times> thread_info \<times> renderer" where
  "bind_context make_current_ok c d rd t r =
     (case resolve_binding c d rd r of
        None \<Rightarrow> (False, t, r)
      | Some (ctx, draw, read) \<Rightarrow>
          if \<not> make_current_ok then (False, t, r)
          else
            let (bind_draw, bind_read) =
                  (if draw = None \<and> read = None then (curr_draw_surf t, curr_read_surf t) else (draw, read));
                r = bind_surfaces bind_draw bind_read ctx r;
                t = t\<lparr>curr_context := ctx, curr_draw_surf := draw, curr_read_surf := read\<rparr>
            in (True, set_decoders ctx t, r))"

text \<open>The end of a render thread: \<open>RenderThread::main\<close> after its loop.\<close>

definition thread_exit :: "bool \<Rightarrow> thread_info \<Rightarrow> renderer \<Rightarrow> thread_info \<times> renderer" where
  "thread_exit make_current_ok t r =
     (case bind_context make_current_ok 0 0 0 t r of
        (_, t, r) \<Rightarrow> (case drain_window_surface t r of (t, r) \<Rightarrow> drain_render_context t r))"

section \<open>The current context of EGL\<close>

text \<open>
  \<open>bind_locked\<close> and \<open>unbind_locked\<close>: what is current in the thread, and the one place where the renderer
  keeps what was current before. A triple is the context, the surface read and the surface drawn.
\<close>

type_synonym egl_binding = "nat option \<times> nat option \<times> nat option"

record egl_state =
  egl_current :: egl_binding
  egl_previous :: egl_binding

definition bind_locked :: "bool \<Rightarrow> egl_binding \<Rightarrow> egl_state \<Rightarrow> bool \<times> egl_state" where
  "bind_locked ok target e =
     (if ok then (True, e\<lparr>egl_current := target, egl_previous := egl_current e\<rparr>) else (False, e))"

definition unbind_locked :: "bool \<Rightarrow> egl_state \<Rightarrow> bool \<times> egl_state" where
  "unbind_locked ok e =
     (if ok then (True, e\<lparr>egl_current := egl_previous e, egl_previous := (None, None, None)\<rparr>) else (False, e))"

section \<open>Native windows\<close>

text \<open>
  \<open>createNativeWindow\<close> and \<open>destroyNativeWindow\<close>; a window is its EGL surface. The table keeps the window
  that is there when a second one is created for the same native window.
\<close>

definition create_native_window ::
  "bool \<Rightarrow> bool \<Rightarrow> nat \<Rightarrow> nat \<Rightarrow> (nat \<times> nat) list \<Rightarrow> nat option \<times> (nat \<times> nat) list" where
  "create_native_window surface_ok bind_ok surface native ws =
     (if \<not> surface_ok then (None, ws)
      else if \<not> bind_ok then (None, ws)
      else (Some surface, om_insert native surface ws))"

definition destroy_native_window :: "nat \<Rightarrow> (nat \<times> nat) list \<Rightarrow> (nat \<times> nat) list" where
  "destroy_native_window native ws =
     (case map_of ws native of None \<Rightarrow> ws | Some _ \<Rightarrow> om_erase native ws)"

text \<open>
  \<open>draw\<close>: its result and the handles of the layers drawn, with the program that draws each; layers
  without a colour buffer are left out.
\<close>

datatype draw_program = Alpha_Program | Default_Program

definition draw_layers :: "bool \<Rightarrow> nat \<Rightarrow> (nat \<times> nat) list \<Rightarrow> (handle \<times> bool) list \<Rightarrow> renderer \<Rightarrow>
    bool \<times> (color_buffer \<times> draw_program) list" where
  "draw_layers bind_ok native ws layers r =
     (if map_of ws native = None then (False, [])
      else if \<not> bind_ok then (False, [])
      else (False, concat (map (\<lambda>(h, transparent).
             case map_of (colorbuffers r) h of
               None \<Rightarrow> []
             | Some (cb, _) \<Rightarrow> [(cb, if transparent then Alpha_Program else Default_Program)]) layers)))"

section \<open>New handles\<close>

lemma find_handle_free: "find_handle r h = Some x \<Longrightarrow> \<not> handle_taken r x"
  by (erule find_handle.raw_induct [where P = "\<lambda>r h x. \<not> handle_taken r x", rotated])
    (metis option.inject)

lemma find_handle_ends: "\<not> handle_taken r (h + of_nat (Suc k)) \<Longrightarrow> \<exists>x. find_handle r h = Some x"
proof (induction k arbitrary: h)
  case 0
  then show ?case by (subst find_handle.simps) simp
next
  case (Suc k)
  have "h + 1 + of_nat (Suc k) = h + of_nat (Suc (Suc k))" by simp
  then have "\<exists>x. find_handle r (h + 1) = Some x" using Suc by metis
  then show ?case by (subst find_handle.simps) auto
qed

lemma card_taken: "card {h. handle_taken r h} \<le> length (contexts r) + length (windows r) + 1"
proof -
  have "{h. handle_taken r h} = insert 0 (dom (map_of (contexts r)) \<union> dom (map_of (windows r)))"
    by (auto simp: handle_taken_def)
  also have "card \<dots> \<le> card (dom (map_of (contexts r)) \<union> dom (map_of (windows r))) + 1"
    by (simp add: card_insert_if finite_dom_map_of)
  also have "\<dots> \<le> card (dom (map_of (contexts r))) + card (dom (map_of (windows r))) + 1"
    by (simp add: card_Un_le)
  also have "\<dots> \<le> length (contexts r) + length (windows r) + 1"
    by (metis add_le_mono add_le_mono1 card_length dom_map_of_conv_image_fst length_map list.set_map)
  finally show ?thesis .
qed

lemma free_handle:
  assumes "length (contexts r) + length (windows r) + 1 < 2 ^ 32"
  shows "\<exists>x. \<not> handle_taken r x"
proof (rule ccontr)
  assume "\<nexists>x. \<not> handle_taken r x"
  then have "{h. handle_taken r h} = UNIV" by auto
  then have "card {h. handle_taken r h} = 2 ^ 32" by (simp add: card_word)
  with card_taken [of r] assms show False by simp
qed

text \<open>
  C17. As long as contexts and windows do not use up all handles, the search for a new one ends, and the
  handle is not 0 and neither that of a context nor that of a window.
\<close>

theorem gen_handle_total:
  assumes "length (contexts r) + length (windows r) + 1 < 2 ^ 32"
  shows "\<exists>h. gen_handle r = Some (h, r\<lparr>next_handle := h\<rparr>) \<and> h \<noteq> 0 \<and>
           map_of (contexts r) h = None \<and> map_of (windows r) h = None"
proof -
  obtain x where x: "\<not> handle_taken r x" using free_handle [OF assms] by blast
  have "next_handle r + of_nat (Suc (unat (x - next_handle r - 1))) = x"
    by simp
  with x obtain h where h: "find_handle r (next_handle r) = Some h"
    using find_handle_ends by metis
  with find_handle_free [OF h] show ?thesis
    by (auto simp: gen_handle_def handle_taken_def simp del: not_None_eq)
qed

theorem gen_handle_total_witness:
  "\<exists>h. gen_handle (renderer_new 1) = Some (h, (renderer_new 1)\<lparr>next_handle := h\<rparr>) \<and> h \<noteq> 0"
  using gen_handle_total [of "renderer_new 1"] by (auto simp: renderer_new_def)

text \<open>Handles of colour buffers are not looked at: after all handles have been used once, one is given away
  again while its buffer is still there.\<close>

lemma gen_handle_takes_color_buffer:
  assumes "next_handle r + 1 \<noteq> 0" and "contexts r = []" and "windows r = []"
    and "map_of (colorbuffers r) (next_handle r + 1) = Some (old, n)"
  shows "\<exists>r'. create_color_buffer (Some cb) r = Some (next_handle r + 1, r') \<and>
           map_of (colorbuffers r') (next_handle r + 1) = Some (cb, 1)"
  using assms
  by (simp add: create_color_buffer_def gen_handle_def handle_taken_def find_handle.simps [of r "next_handle r"])

section \<open>References to colour buffers\<close>

datatype reference_op = Open_Buffer | Close_Buffer

fun apply_reference :: "handle \<times> reference_op \<Rightarrow> renderer \<Rightarrow> renderer" where
  "apply_reference (h, Open_Buffer) r = snd (open_color_buffer h r)"
| "apply_reference (h, Close_Buffer) r = close_color_buffer h r"

text \<open>The number of references that clients hold; a buffer without any is not opened again.\<close>

fun count_references :: "handle \<Rightarrow> nat \<Rightarrow> (handle \<times> reference_op) list \<Rightarrow> nat" where
  "count_references h n [] = n"
| "count_references h n ((h', op) # ops) =
     count_references h
       (if h' \<noteq> h then n
        else case op of Open_Buffer \<Rightarrow> if n = 0 then 0 else n + 1 | Close_Buffer \<Rightarrow> n - 1) ops"

definition counted_buffer :: "color_buffer \<Rightarrow> nat \<Rightarrow> (color_buffer \<times> u32) option" where
  "counted_buffer cb n = (if n = 0 then None else Some (cb, of_nat n))"

lemma apply_reference_counted:
  assumes "map_of (colorbuffers r) h = counted_buffer cb n" and "n + 1 < 2 ^ 32"
  shows "map_of (colorbuffers (apply_reference (h', op) r)) h =
     counted_buffer cb (count_references h n [(h', op)])"
proof -
  have pred: "0 < n \<Longrightarrow> (of_nat n :: u32) - 1 = of_nat (n - 1)" by (simp add: of_nat_diff)
  have zero: "(of_nat (n - 1) :: u32) = 0 \<longleftrightarrow> n - 1 = 0"
    using assms(2) by (auto simp: word_of_nat_eq_0_iff dest: dvd_imp_le)
  show ?thesis
    using assms(1) pred zero
    by (cases op)
      (auto simp: open_color_buffer_def close_color_buffer_def drop_reference_def counted_buffer_def
        split: option.splits if_splits)
qed

text \<open>
  C18. A colour buffer that has \<open>n\<close> references is found as long as the operations that open and close
  buffers leave at least one, with that number, and is gone from then on: the 32-bit counter with erasure
  is a counter of natural numbers, whatever happens to other buffers in between.
\<close>

theorem buffer_lives_while_referenced:
  assumes "map_of (colorbuffers r) h = counted_buffer cb n" and "n + length ops < 2 ^ 32"
  shows "map_of (colorbuffers (fold apply_reference ops r)) h = counted_buffer cb (count_references h n ops)"
  using assms
proof (induction ops arbitrary: r n)
  case Nil
  then show ?case by simp
next
  case (Cons e ops)
  obtain h' op where e: "e = (h', op)" by fastforce
  have "map_of (colorbuffers (apply_reference e r)) h = counted_buffer cb (count_references h n [e])"
    using apply_reference_counted Cons.prems unfolding e by simp
  moreover have "count_references h n [e] + length ops < 2 ^ 32"
    using Cons.prems(2) by (auto simp: e split: reference_op.splits)
  ultimately have "map_of (colorbuffers (fold apply_reference ops (apply_reference e r))) h =
      counted_buffer cb (count_references h (count_references h n [e]) ops)"
    by (rule Cons.IH)
  then show ?case by (simp add: e)
qed

theorem buffer_lives_while_referenced_witness:
  "let cb = \<lparr>cb_object = 7, cb_width = 4, cb_height = 4, cb_format = GL_RGBA, cb_image = True\<rparr>;
       r = (renderer_new 1)\<lparr>colorbuffers := [(3, (cb, 1))]\<rparr>
   in map_of (colorbuffers (fold apply_reference [(3, Open_Buffer), (3, Close_Buffer), (3, Close_Buffer)] r)) 3 = None"
  using buffer_lives_while_referenced [of
      "(renderer_new 1)\<lparr>colorbuffers := [(3, (\<lparr>cb_object = 7, cb_width = 4, cb_height = 4,
          cb_format = GL_RGBA, cb_image = True\<rparr>, 1))]\<rparr>" 3 _ 1
      "[(3, Open_Buffer), (3, Close_Buffer), (3, Close_Buffer)]"]
  by (simp add: counted_buffer_def Let_def)

text \<open>
  Attaching a buffer to a window takes no reference, but draining the windows of a thread gives one back:
  when the thread of a window ends, the buffer of another client is gone although it still holds its
  reference.
\<close>

lemma drain_takes_foreign_reference:
  assumes "map_of (windows r) w = Some (i, 0)" and "map_of (colorbuffers r) c = Some (cb, 1)" and "c \<noteq> 0"
    and "window_set t = [w]"
  shows "map_of (colorbuffers (snd (drain_window_surface t
    (snd (set_window_surface_color_buffer ok w c r))))) c = None"
  using assms
  by (simp add: set_window_surface_color_buffer_def drain_window_surface_def drain_window_def drop_reference_def)

section \<open>The tables of the renderer\<close>

datatype renderer_op =
    Create_Buffer "color_buffer option"
  | Create_Context "render_context option" int handle
  | Create_Window bool int u32 u32
  | Destroy_Context handle
  | Destroy_Window handle
  | Reference handle reference_op
  | Set_Buffer bool handle handle
  | Bind_Context bool handle handle handle
  | Thread_Exit bool

fun renderer_step :: "renderer_op \<Rightarrow> thread_info \<Rightarrow> renderer \<Rightarrow> (thread_info \<times> renderer) option" where
  "renderer_step (Create_Buffer made) t r = map_option (\<lambda>(_, r'). (t, r')) (create_color_buffer made r)"
| "renderer_step (Create_Context made c share) t r = map_option snd (create_render_context (\<lambda>_. made) c share t r)"
| "renderer_step (Create_Window ok c w h) t r = map_option snd (create_window_surface ok c w h t r)"
| "renderer_step (Destroy_Context h) t r = Some (destroy_render_context h t r)"
| "renderer_step (Destroy_Window h) t r = Some (destroy_window_surface h t r)"
| "renderer_step (Reference h op) t r = Some (t, apply_reference (h, op) r)"
| "renderer_step (Set_Buffer ok h c) t r = Some (t, snd (set_window_surface_color_buffer ok h c r))"
| "renderer_step (Bind_Context ok c d rd) t r = Some (snd (bind_context ok c d rd t r))"
| "renderer_step (Thread_Exit ok) t r = Some (thread_exit ok t r)"

text \<open>Operations of several render threads, in the order in which they get the lock.\<close>

fun renderer_run :: "(nat \<times> renderer_op) list \<Rightarrow> (nat \<Rightarrow> thread_info) \<Rightarrow> renderer \<Rightarrow>
    ((nat \<Rightarrow> thread_info) \<times> renderer) option" where
  "renderer_run [] T r = Some (T, r)"
| "renderer_run ((n, op) # ops) T r =
     (case renderer_step op (T n) r of None \<Rightarrow> None | Some (t, r') \<Rightarrow> renderer_run ops (T(n := t)) r')"

definition surface_fits :: "window_surface \<Rightarrow> bool" where
  "surface_fits s \<longleftrightarrow>
     (case attached_color_buffer s of
        None \<Rightarrow> True
      | Some cb \<Rightarrow> \<not> pbuffer s \<or> cb_width cb = ws_width s \<and> cb_height cb = ws_height s)"

definition tables_ok :: "renderer \<Rightarrow> bool" where
  "tables_ok r \<longleftrightarrow>
     map_of (contexts r) 0 = None \<and> map_of (windows r) 0 = None \<and>
     (\<forall>h. map_of (contexts r) h = None \<or> map_of (windows r) h = None)"

definition windows_ok :: "renderer \<Rightarrow> bool" where
  "windows_ok r \<longleftrightarrow>
     (\<forall>h i c. map_of (windows r) h = Some (i, c) \<longrightarrow> i < surface_count r \<and> surfaces r i \<noteq> None) \<and>
     (\<forall>h h' i c c'. map_of (windows r) h = Some (i, c) \<longrightarrow> map_of (windows r) h' = Some (i, c') \<longrightarrow> h = h')"

definition surfaces_fit :: "renderer \<Rightarrow> bool" where
  "surfaces_fit r \<longleftrightarrow> (\<forall>i s. surfaces r i = Some s \<longrightarrow> surface_fits s)"

definition renderer_inv :: "renderer \<Rightarrow> bool" where
  "renderer_inv r \<longleftrightarrow> tables_ok r \<and> windows_ok r \<and> surfaces_fit r"

lemma gen_handle_fresh: "gen_handle r = Some (h, r') \<Longrightarrow>
    r' = r\<lparr>next_handle := h\<rparr> \<and> h \<noteq> 0 \<and> map_of (contexts r) h = None \<and> map_of (windows r) h = None"
  using find_handle_free [of r "next_handle r" h]
  by (auto simp: gen_handle_def handle_taken_def simp del: not_None_eq)

lemma surface_fits_set [simp]: "surface_fits s \<Longrightarrow> surface_fits (ws_set_color_buffer ok cb s)"
  by (auto simp: surface_fits_def ws_set_color_buffer_def ws_resize_def Let_def)

lemma surface_fits_bind [simp]: "surface_fits s \<Longrightarrow> surface_fits (ws_bind c b s)"
  by (cases b) (simp_all add: surface_fits_def ws_bind_def split: option.splits)

lemma surface_fits_create: "ws_create ok w h = Some s \<Longrightarrow> surface_fits s"
  by (auto simp: surface_fits_def ws_create_def ws_resize_def window_surface_new_def split: if_splits)

lemma drop_reference_tables [simp]:
  "contexts (drop_reference h r) = contexts r" "windows (drop_reference h r) = windows r"
  "surfaces (drop_reference h r) = surfaces r" "surface_count (drop_reference h r) = surface_count r"
  by (simp_all add: drop_reference_def split: option.splits)

lemma inv_colorbuffers:
  assumes "renderer_inv r" "contexts r' = contexts r" "windows r' = windows r" "surfaces r' = surfaces r"
    "surface_count r' = surface_count r"
  shows "renderer_inv r'"
  using assms by (simp add: renderer_inv_def tables_ok_def windows_ok_def surfaces_fit_def)

lemma inv_erase_window: "renderer_inv r \<Longrightarrow> renderer_inv (r\<lparr>windows := om_erase h (windows r)\<rparr>)"
  by (auto simp: renderer_inv_def tables_ok_def windows_ok_def surfaces_fit_def)

lemma inv_erase_context: "renderer_inv r \<Longrightarrow> renderer_inv (r\<lparr>contexts := om_erase h (contexts r)\<rparr>)"
  by (simp add: renderer_inv_def tables_ok_def windows_ok_def surfaces_fit_def)

lemma inv_drain_window: "renderer_inv r \<Longrightarrow> renderer_inv (drain_window h r)"
proof -
  assume r: "renderer_inv r"
  have "renderer_inv (drop_reference old r)" for old by (rule inv_colorbuffers [OF r]) simp_all
  then show ?thesis using r
    by (auto simp: drain_window_def Let_def split: option.splits intro!: inv_erase_window)
       (metis drop_reference_tables(2) inv_erase_window)+
qed

lemma inv_drain_windows: "renderer_inv r \<Longrightarrow> renderer_inv (fold drain_window hs r)"
  by (induction hs arbitrary: r) (simp_all add: inv_drain_window)

lemma inv_drain_contexts:
  "renderer_inv r \<Longrightarrow> renderer_inv (r\<lparr>contexts := fold om_erase hs (contexts r)\<rparr>)"
proof (induction hs arbitrary: r)
  case Nil
  then show ?case by simp
next
  case (Cons h hs)
  from Cons.IH [OF inv_erase_context [OF Cons.prems, of h]] show ?case by simp
qed

lemma inv_bind_surface: "renderer_inv r \<Longrightarrow> renderer_inv (bind_surface i c b r)"
  by (auto simp: renderer_inv_def tables_ok_def windows_ok_def surfaces_fit_def bind_surface_def)

lemma inv_bind_context: "renderer_inv r \<Longrightarrow> renderer_inv (snd (snd (bind_context ok c d rd t r)))"
  by (auto simp: bind_context_def bind_surfaces_def Let_def inv_bind_surface split: option.splits prod.splits)

lemma inv_set_buffer: "renderer_inv r \<Longrightarrow> renderer_inv (snd (set_window_surface_color_buffer ok h c r))"
  by (auto simp: set_window_surface_color_buffer_def renderer_inv_def tables_ok_def windows_ok_def surfaces_fit_def
      split: option.splits)

lemma inv_new_context:
  assumes "renderer_inv r" and "gen_handle r = Some (h, r')"
  shows "renderer_inv (r'\<lparr>contexts := om_set h c (contexts r')\<rparr>)"
  using assms(1) gen_handle_fresh [OF assms(2)]
  by (auto simp: renderer_inv_def tables_ok_def windows_ok_def surfaces_fit_def simp del: not_None_eq)

lemma inv_new_window:
  assumes "renderer_inv r" and "gen_handle r = Some (h, r')" and "surface_fits s"
  shows "renderer_inv (r'\<lparr>windows := om_set h (surface_count r, 0) (windows r'),
    surfaces := (surfaces r')(surface_count r \<mapsto> s), surface_count := Suc (surface_count r)\<rparr>)"
proof -
  note fresh = gen_handle_fresh [OF assms(2)]
  have old: "i < surface_count r \<and> surfaces r i \<noteq> None" if "map_of (windows r) k = Some (i, c)" for k i c
    using assms(1) that by (auto simp: renderer_inv_def windows_ok_def)
  have "tables_ok (r'\<lparr>windows := om_set h (surface_count r, 0) (windows r'),
      surfaces := (surfaces r')(surface_count r \<mapsto> s), surface_count := Suc (surface_count r)\<rparr>)"
    using assms(1) fresh by (auto simp: renderer_inv_def tables_ok_def)
  moreover have "windows_ok (r'\<lparr>windows := om_set h (surface_count r, 0) (windows r'),
      surfaces := (surfaces r')(surface_count r \<mapsto> s), surface_count := Suc (surface_count r)\<rparr>)"
    using assms(1) fresh old unfolding renderer_inv_def windows_ok_def by (fastforce split: if_splits)
  ultimately show ?thesis
    using assms fresh by (auto simp: renderer_inv_def surfaces_fit_def)
qed

lemma renderer_step_inv: "renderer_step op t r = Some (t', r') \<Longrightarrow> renderer_inv r \<Longrightarrow> renderer_inv r'"
proof (cases op)
  case (Create_Buffer made)
  assume "renderer_step op t r = Some (t', r')" and inv: "renderer_inv r"
  then show ?thesis
    by (auto simp: Create_Buffer create_color_buffer_def split: option.splits
        dest!: gen_handle_fresh intro!: inv_colorbuffers [OF inv])
next
  case (Create_Context made c share)
  assume "renderer_step op t r = Some (t', r')" and "renderer_inv r"
  then show ?thesis
    by (auto simp: Create_Context create_render_context_def inv_new_context split: option.splits if_splits)
next
  case (Create_Window ok c w h)
  assume "renderer_step op t r = Some (t', r')" and "renderer_inv r"
  then show ?thesis
    by (auto simp: Create_Window create_window_surface_def surface_fits_create
        split: option.splits if_splits intro!: inv_new_window)
next
  case (Destroy_Context h)
  assume "renderer_step op t r = Some (t', r')" and "renderer_inv r"
  then show ?thesis by (auto simp: Destroy_Context destroy_render_context_def inv_erase_context)
next
  case (Destroy_Window h)
  assume "renderer_step op t r = Some (t', r')" and "renderer_inv r"
  then show ?thesis by (auto simp: Destroy_Window destroy_window_surface_def inv_erase_window split: if_splits)
next
  case (Reference h rop)
  assume "renderer_step op t r = Some (t', r')" and inv: "renderer_inv r"
  moreover have "renderer_inv (apply_reference (h, rop) r)"
    by (cases rop; rule inv_colorbuffers [OF inv])
      (simp_all add: open_color_buffer_def close_color_buffer_def split: option.splits)
  ultimately show ?thesis by (simp add: Reference)
next
  case (Set_Buffer ok h c)
  assume "renderer_step op t r = Some (t', r')" and "renderer_inv r"
  then show ?thesis by (auto simp: Set_Buffer inv_set_buffer)
next
  case (Bind_Context ok c d rd)
  assume "renderer_step op t r = Some (t', r')" and "renderer_inv r"
  then show ?thesis using inv_bind_context [of r ok c d rd t] by (simp add: Bind_Context)
next
  case (Thread_Exit ok)
  assume "renderer_step op t r = Some (t', r')" and "renderer_inv r"
  then show ?thesis using inv_bind_context [of r ok 0 0 0 t]
    by (auto simp: Thread_Exit thread_exit_def drain_window_surface_def drain_render_context_def
        case_prod_beta inv_drain_windows inv_drain_contexts)
qed

lemma renderer_run_inv: "renderer_run ops T r = Some (T', r') \<Longrightarrow> renderer_inv r \<Longrightarrow> renderer_inv r'"
  by (induction ops T r rule: renderer_run.induct)
    (auto split: option.splits prod.splits dest: renderer_step_inv)

lemma renderer_inv_new: "renderer_inv (renderer_new n)"
  by (simp add: renderer_inv_def tables_ok_def windows_ok_def surfaces_fit_def renderer_new_def)

text \<open>
  C19. Whatever the render threads do, in whatever order they get the lock and whatever EGL answers: no
  handle stands for both a context and a window, 0 stands for neither, two windows never have the same
  surface, and the surface of every window exists and has the size of its colour buffer, unless EGL failed
  to make it.
\<close>

theorem renderer_tables:
  "case renderer_run ops (\<lambda>_. thread_info_new) (renderer_new n) of
     None \<Rightarrow> True
   | Some (T, r) \<Rightarrow>
       map_of (contexts r) 0 = None \<and> map_of (windows r) 0 = None \<and>
       (\<forall>h. map_of (contexts r) h = None \<or> map_of (windows r) h = None) \<and>
       inj_on (\<lambda>h. map_option fst (map_of (windows r) h)) (dom (map_of (windows r))) \<and>
       (\<forall>h. case map_of (windows r) h of
          None \<Rightarrow> True
        | Some (i, _) \<Rightarrow> (case surfaces r i of None \<Rightarrow> False | Some s \<Rightarrow> surface_fits s))"
proof (cases "renderer_run ops (\<lambda>_. thread_info_new) (renderer_new n)")
  case None
  then show ?thesis by simp
next
  case (Some Tr)
  obtain T r where Tr: "Tr = (T, r)" by fastforce
  have "renderer_inv r" using renderer_run_inv [OF Some [unfolded Tr] renderer_inv_new] .
  then show ?thesis
    by (auto simp: Some Tr renderer_inv_def tables_ok_def windows_ok_def surfaces_fit_def inj_on_def
        split: option.splits) fastforce
qed

end
