(* ===== verification/RendererConfig.thy ===== *)
theory RendererConfig
  imports Anbox_Prelude
begin

text \<open>
  The framebuffer configurations offered to the guest: \<open>src/anbox/graphics/emugl/RendererConfig.cpp\<close>. The
  configurations of the host are values with their attributes; the choice among them that EGL makes is an
  input. Attribute names are the numbers of the EGL standard.

  Shown here: what is asked of EGL, and what the guest gets: guest numbers of offered configurations, in
  the order of EGL, no more than fit in its array.
\<close>

section \<open>Configurations\<close>

definition EGL_NONE :: int where "EGL_NONE = 12344"
definition EGL_SURFACE_TYPE :: int where "EGL_SURFACE_TYPE = 12339"
definition EGL_CONFIG_ID :: int where "EGL_CONFIG_ID = 12328"
definition EGL_RED_SIZE :: int where "EGL_RED_SIZE = 12324"
definition EGL_GREEN_SIZE :: int where "EGL_GREEN_SIZE = 12323"
definition EGL_BLUE_SIZE :: int where "EGL_BLUE_SIZE = 12322"
definition EGL_PBUFFER_BIT :: int where "EGL_PBUFFER_BIT = 1"
definition EGL_WINDOW_BIT :: int where "EGL_WINDOW_BIT = 4"

lemmas egl_numbers = EGL_NONE_def EGL_SURFACE_TYPE_def EGL_CONFIG_ID_def EGL_RED_SIZE_def
  EGL_GREEN_SIZE_def EGL_BLUE_SIZE_def EGL_PBUFFER_BIT_def EGL_WINDOW_BIT_def

text \<open>A configuration of the host: the value of each attribute.\<close>

type_synonym host_config = "int \<Rightarrow> int"

text \<open>A configuration of the guest: its values, in the order of \<open>kConfigAttributes\<close>.\<close>

type_synonym guest_config = "(int \<times> int) list"

definition is_compatible_host_config :: "host_config \<Rightarrow> bool" where
  "is_compatible_host_config c =
     (if and (c EGL_SURFACE_TYPE) EGL_PBUFFER_BIT = 0 then False
      else if c EGL_RED_SIZE = 0 \<or> c EGL_GREEN_SIZE = 0 \<or> c EGL_BLUE_SIZE = 0 then False
      else True)"

definition renderer_config :: "int list \<Rightarrow> host_config \<Rightarrow> guest_config" where
  "renderer_config attributes c =
     map (\<lambda>a. (a, if a = EGL_SURFACE_TYPE then or (c a) EGL_WINDOW_BIT else c a)) attributes"

definition config_list :: "int list \<Rightarrow> host_config list \<Rightarrow> guest_config list" where
  "config_list attributes hosts = map (renderer_config attributes) (filter is_compatible_host_config hosts)"

definition config_get :: "guest_config list \<Rightarrow> int \<Rightarrow> guest_config option" where
  "config_get cs i = (if 0 \<le> i \<and> i < int (length cs) then Some (cs ! nat i) else None)"

definition config_id :: "guest_config \<Rightarrow> int" where
  "config_id c = (case map_of c EGL_CONFIG_ID of None \<Rightarrow> 0 | Some v \<Rightarrow> v)"

section \<open>Choosing\<close>

text \<open>
  The pairs in front of \<open>EGL_NONE\<close>, whether a surface type is among them and whether one of them asks for
  another surface than a pbuffer. None stands for a list that does not end: it is read behind its end.
\<close>

fun scan_attribs :: "int list \<Rightarrow> ((int \<times> int) list \<times> bool \<times> bool) option" where
  "scan_attribs (a # v # rest) =
     (if a = EGL_NONE then Some ([], False, False)
      else case scan_attribs rest of
        None \<Rightarrow> None
      | Some (ps, has, replace) \<Rightarrow>
          Some ((a, v) # ps, has \<or> a = EGL_SURFACE_TYPE, replace \<or> a = EGL_SURFACE_TYPE \<and> v \<noteq> EGL_PBUFFER_BIT))"
| "scan_attribs [a] = (if a = EGL_NONE then Some ([], False, False) else None)"
| "scan_attribs [] = None"

definition new_attribs :: "int list \<Rightarrow> (int \<times> int) list option" where
  "new_attribs attribs =
     (case scan_attribs attribs of
        None \<Rightarrow> None
      | Some (ps, has, replace) \<Rightarrow>
          Some (if replace then map (\<lambda>(a, v). (a, if a = EGL_SURFACE_TYPE then EGL_PBUFFER_BIT else v)) ps
                else if \<not> has then ps @ [(EGL_SURFACE_TYPE, EGL_PBUFFER_BIT)]
                else ps))"

text \<open>The guest number of a configuration of the host: the first one offered with the same id.\<close>

fun find_config :: "int \<Rightarrow> int \<Rightarrow> guest_config list \<Rightarrow> int option" where
  "find_config i k [] = None"
| "find_config i k (c # cs) = (if config_id c = i then Some k else find_config i (k + 1) cs)"

text \<open>
  The loop over the configurations EGL has chosen. \<open>configs\<close> says whether the guest has given an array,
  \<open>size\<close> how many entries it has; the result is the number returned and what is written.
\<close>

fun choose_loop :: "guest_config list \<Rightarrow> bool \<Rightarrow> int \<Rightarrow> host_config list \<Rightarrow> int \<times> int list \<Rightarrow> int \<times> int list" where
  "choose_loop cs configs limit [] (result, out) = (result, out)"
| "choose_loop cs configs limit (h # hs) (result, out) =
     (if configs \<and> limit > 0 \<and> result \<ge> limit then (result, out)
      else if \<not> is_compatible_host_config h then choose_loop cs configs limit hs (result, out)
      else case find_config (h EGL_CONFIG_ID) 0 cs of
        None \<Rightarrow> choose_loop cs configs limit hs (result, out)
      | Some k \<Rightarrow>
          choose_loop cs configs limit hs
            (result + 1, if configs \<and> result < limit then out @ [k] else out))"

text \<open>\<open>chooseConfig\<close>; \<open>egl\<close> is the choice of EGL, none if it fails. None: undefined.\<close>

definition choose_config ::
  "((int \<times> int) list \<Rightarrow> host_config list option) \<Rightarrow> guest_config list \<Rightarrow> int list \<Rightarrow> bool \<Rightarrow> int \<Rightarrow>
     (int \<times> int list) option"
where
  "choose_config egl cs attribs configs limit =
     (case new_attribs attribs of
        None \<Rightarrow> None
      | Some ps \<Rightarrow>
          let matched = (case egl ps of None \<Rightarrow> [] | Some hs \<Rightarrow> hs) in
          Some (choose_loop cs configs limit matched (0, [])))"

section \<open>Packing\<close>

text \<open>
  \<open>packConfigs\<close>: the answer, and the words written: the attribute names, then the values of each
  configuration. The size is a 32-bit number.
\<close>

definition pack_configs :: "int list \<Rightarrow> guest_config list \<Rightarrow> bool \<Rightarrow> u32 \<Rightarrow> int \<times> int list" where
  "pack_configs attributes cs buffer size_in_bytes =
     (let needed = (of_nat (length cs) + 1) * of_nat (length attributes) * 4 :: u32 in
      if \<not> buffer \<or> size_in_bytes < needed then (sint (- needed), [])
      else (int (length cs), attributes @ concat (map (map snd) cs)))"

section \<open>Properties\<close>

lemma find_config_some: "find_config i k cs = Some n \<Longrightarrow>
    k \<le> n \<and> n < k + int (length cs) \<and> config_id (cs ! nat (n - k)) = i"
proof (induction i k cs rule: find_config.induct)
  case (1 i k)
  then show ?case by simp
next
  case (2 i k c cs)
  show ?case
  proof (cases "config_id c = i")
    case True
    with 2 show ?thesis by simp
  next
    case False
    with 2 have "k + 1 \<le> n \<and> n < k + 1 + int (length cs) \<and> config_id (cs ! nat (n - (k + 1))) = i" by simp
    moreover from this have "nat (n - k) = Suc (nat (n - (k + 1)))"
      by (simp add: Suc_nat_eq_nat_zadd1)
    ultimately show ?thesis by simp
  qed
qed

definition chosen :: "guest_config list \<Rightarrow> host_config list \<Rightarrow> int list" where
  "chosen cs hs = List.map_filter
     (\<lambda>h. if is_compatible_host_config h then find_config (h EGL_CONFIG_ID) 0 cs else None) hs"

lemma chosen_Nil [simp]: "chosen cs [] = []"
  by (simp add: chosen_def)

lemma chosen_Cons [simp]:
  "chosen cs (h # hs) =
     (case if is_compatible_host_config h then find_config (h EGL_CONFIG_ID) 0 cs else None of
        None \<Rightarrow> chosen cs hs | Some k \<Rightarrow> k # chosen cs hs)"
  by (cases "find_config (h EGL_CONFIG_ID) 0 cs") (simp_all add: chosen_def map_filter_simps)

lemma choose_loop_counts:
  "\<not> (configs \<and> limit > 0) \<Longrightarrow> 0 \<le> result \<Longrightarrow>
   choose_loop cs configs limit hs (result, out) = (result + int (length (chosen cs hs)), out)"
  by (induction hs arbitrary: result) (auto split: option.splits)

lemma choose_loop_fills:
  "0 < limit \<Longrightarrow> 0 \<le> result \<Longrightarrow> result \<le> limit \<Longrightarrow>
   choose_loop cs True limit hs (result, out) =
     (min limit (result + int (length (chosen cs hs))), out @ take (nat (limit - result)) (chosen cs hs))"
proof (induction hs arbitrary: result out)
  case Nil
  then show ?case by simp
next
  case (Cons h hs)
  show ?case
  proof (cases "result = limit")
    case True
    with Cons.prems show ?thesis by simp
  next
    case False
    with Cons.prems have less: "result < limit" by simp
    then have "nat (limit - result) = Suc (nat (limit - (result + 1)))" by simp
    with less Cons show ?thesis by (auto split: option.splits)
  qed
qed

lemma scan_attribs_flags: "scan_attribs attribs = Some (ps, has, replace) \<Longrightarrow>
    (has \<longleftrightarrow> (\<exists>v. (EGL_SURFACE_TYPE, v) \<in> set ps)) \<and>
    (replace \<longleftrightarrow> (\<exists>v. (EGL_SURFACE_TYPE, v) \<in> set ps \<and> v \<noteq> EGL_PBUFFER_BIT))"
proof (induction attribs arbitrary: ps has replace rule: scan_attribs.induct)
  case (1 a v rest)
  show ?case
  proof (cases "a = EGL_NONE")
    case True
    with 1 show ?thesis by simp
  next
    case False
    with 1(2) obtain qs h q where qs: "scan_attribs rest = Some (qs, h, q)" "ps = (a, v) # qs"
      "has \<longleftrightarrow> h \<or> a = EGL_SURFACE_TYPE" "replace \<longleftrightarrow> q \<or> a = EGL_SURFACE_TYPE \<and> v \<noteq> EGL_PBUFFER_BIT"
      by (auto split: option.splits)
    with 1(1) [OF False qs(1)] show ?thesis by auto
  qed
qed (simp_all split: if_splits)

lemma new_attribs_surface:
  assumes "new_attribs attribs = Some ps"
  shows "{v. (EGL_SURFACE_TYPE, v) \<in> set ps} = {EGL_PBUFFER_BIT}"
proof -
  obtain qs has replace where scan: "scan_attribs attribs = Some (qs, has, replace)"
    using assms by (auto simp: new_attribs_def split: option.splits)
  show ?thesis
    using assms scan_attribs_flags [OF scan]
    by (auto simp: new_attribs_def scan split: if_splits) force+
qed

text \<open>
  EGL is always asked for configurations with pbuffers, whatever surface the guest asks for. The
  guest gets, in the order of EGL, the numbers of those offered configurations that EGL has chosen: the
  count of all of them if it has no array or one without entries, and otherwise as many as fit.
\<close>

lemma config_choice:
  "choose_config egl cs attribs configs limit =
     (case new_attribs attribs of
        None \<Rightarrow> None
      | Some ps \<Rightarrow>
          let found = chosen cs (case egl ps of None \<Rightarrow> [] | Some hs \<Rightarrow> hs) in
          Some (if configs \<and> limit > 0 then min limit (int (length found)) else int (length found),
                if configs then take (nat limit) found else [])) \<and>
   (case new_attribs attribs of
      None \<Rightarrow> True | Some ps \<Rightarrow> {v. (EGL_SURFACE_TYPE, v) \<in> set ps} = {EGL_PBUFFER_BIT})"
  using new_attribs_surface [of attribs]
  by (cases configs; cases "limit > 0")
    (auto simp: choose_config_def Let_def choose_loop_counts choose_loop_fills split: option.splits)

end
