(* ===== verification/RenderControl.thy ===== *)
theory RenderControl
  imports WindowManager RendererState RendererConfig
begin

text \<open>
  The calls of the guest to the renderer: \<open>src/anbox/graphics/emugl/RenderControl.cpp\<close>, with the display in
  \<open>DisplayManager.cpp\<close>. A call that the decoder makes is an operation here; without a renderer each has its
  own answer. The strings that the drivers report, and the way the library splits them, are inputs.

  Shown here: the protocol by which the guest asks for a string of unknown size, what is left of the
  extensions, and that a frame consists of exactly the layers posted for it, in order.
\<close>

section \<open>Strings\<close>

fun join_words :: "string list \<Rightarrow> string" where
  "join_words [] = []"
| "join_words [w] = w"
| "join_words (w # v # ws) = w @ CHR '' '' # join_words (v # ws)"

text \<open>
  \<open>filter_extensions\<close>: the stream gets a blank in front of a word unless nothing has been written yet.
\<close>

fun append_approved :: "string list \<Rightarrow> string list \<Rightarrow> string \<Rightarrow> string" where
  "append_approved whitelist [] out = out"
| "append_approved whitelist (e # es) out =
     (if e \<notin> set whitelist then append_approved whitelist es out
      else append_approved whitelist es ((if out \<noteq> [] then out @ '' '' else out) @ e))"

definition filter_extensions :: "(string \<Rightarrow> char \<Rightarrow> string list) \<Rightarrow> string \<Rightarrow> string list \<Rightarrow> string" where
  "filter_extensions split extensions whitelist =
     append_approved whitelist (split extensions (CHR '' '')) []"

definition egl_whitelist :: "string list" where
  "egl_whitelist = [''EGL_KHR_image_base'', ''EGL_KHR_gl_texture_2D_image'']"

definition gl_whitelist :: "string list" where
  "gl_whitelist =
     [''GL_OES_EGL_image'', ''GL_OES_EGL_image_external'', ''GL_OES_depth24'', ''GL_OES_depth32'',
      ''GL_OES_element_index_uint'', ''GL_OES_texture_float'', ''GL_OES_texture_float_linear'',
      ''GL_OES_compressed_paletted_texture'', ''GL_OES_compressed_ETC1_RGB8_texture'',
      ''GL_OES_depth_texture'', ''GL_OES_texture_half_float'', ''GL_OES_texture_half_float_linear'',
      ''GL_OES_packed_depth_stencil'', ''GL_OES_vertex_half_float'', ''GL_OES_standard_derivatives'',
      ''GL_OES_texture_npot'', ''GL_OES_rgb8_rgba8'']"

text \<open>
  A string for a buffer of the guest: the answer and what is written, with its NUL. \<open>buffer\<close> says whether
  there is a buffer at all.
\<close>

definition put_string :: "string \<Rightarrow> bool \<Rightarrow> int \<Rightarrow> int \<times> string option" where
  "put_string result buffer buffer_size =
     (let len = int (length result) + 1 in
      if \<not> buffer \<or> len > buffer_size then (- len, None) else (len, Some (result @ [CHR 0x00])))"

datatype egl_name = EGL_EXTENSIONS | Other_Egl_Name int

text \<open>\<open>query\<close> is what EGL reports; that it reports nothing for a name is not expected by the code.\<close>

definition rc_query_egl_string ::
  "bool \<Rightarrow> (string \<Rightarrow> char \<Rightarrow> string list) \<Rightarrow> (egl_name \<Rightarrow> string option) \<Rightarrow> egl_name \<Rightarrow> bool \<Rightarrow> int \<Rightarrow>
     fault + int \<times> string option"
where
  "rc_query_egl_string renderer split query name buffer buffer_size =
     (if \<not> renderer then Inr (0, None)
      else case query name of
        None \<Rightarrow> Inl Undefined
      | Some result \<Rightarrow>
          if result = [] then Inr (0, None)
          else
            let result = (if name = EGL_EXTENSIONS then filter_extensions split result egl_whitelist else result)
            in Inr (put_string result buffer buffer_size))"

datatype gl_name = GL_VERSION | GL_EXTENSIONS | Other_Gl_Name int

text \<open>\<open>driver\<close> is what OpenGL reports when a context is current in the thread; a name without an answer gives
  the empty string.\<close>

definition gl_string :: "(string \<Rightarrow> char \<Rightarrow> string list) \<Rightarrow> (gl_name \<Rightarrow> string option) option \<Rightarrow> gl_name \<Rightarrow> string" where
  "gl_string split driver name =
     (let result = (case driver of None \<Rightarrow> '''' | Some d \<Rightarrow> (case d name of None \<Rightarrow> '''' | Some s \<Rightarrow> s)) in
      if name = GL_VERSION then ''OpenGL ES 2.0''
      else if name = GL_EXTENSIONS then filter_extensions split result gl_whitelist
      else result)"

definition rc_get_gl_string ::
  "(string \<Rightarrow> char \<Rightarrow> string list) \<Rightarrow> (gl_name \<Rightarrow> string option) option \<Rightarrow> gl_name \<Rightarrow> bool \<Rightarrow> int \<Rightarrow> int \<times> string option"
where
  "rc_get_gl_string split driver name buffer buffer_size =
     put_string (gl_string split driver name) buffer buffer_size"

section \<open>The display\<close>

record display_info =
  vertical_resolution :: u32
  horizontal_resolution :: u32

definition display_info_new :: display_info where
  "display_info_new = \<lparr>vertical_resolution = 1280, horizontal_resolution = 720\<rparr>"

definition set_resolution :: "u32 \<Rightarrow> u32 \<Rightarrow> display_info \<Rightarrow> display_info" where
  "set_resolution vertical horizontal d = \<lparr>vertical_resolution = vertical, horizontal_resolution = horizontal\<rparr>"

datatype fb_param = FB_WIDTH | FB_HEIGHT | FB_XDPI | FB_YDPI | FB_FPS | FB_MIN_SWAP_INTERVAL |
  FB_MAX_SWAP_INTERVAL | Other_Fb_Param int

definition rc_get_fb_param :: "bool \<Rightarrow> display_info \<Rightarrow> fb_param \<Rightarrow> int" where
  "rc_get_fb_param renderer d p =
     (if \<not> renderer then 0
      else case p of
        FB_WIDTH \<Rightarrow> sint (vertical_resolution d)
      | FB_HEIGHT \<Rightarrow> sint (horizontal_resolution d)
      | FB_XDPI \<Rightarrow> 72
      | FB_YDPI \<Rightarrow> 72
      | FB_FPS \<Rightarrow> 60
      | FB_MIN_SWAP_INTERVAL \<Rightarrow> 1
      | FB_MAX_SWAP_INTERVAL \<Rightarrow> 1
      | Other_Fb_Param _ \<Rightarrow> 0)"

definition rc_get_num_displays :: int where "rc_get_num_displays = 1"

definition rc_get_display_width :: "display_info \<Rightarrow> u32 \<Rightarrow> int" where
  "rc_get_display_width d display_id = sint (vertical_resolution d)"

definition rc_get_display_height :: "display_info \<Rightarrow> u32 \<Rightarrow> int" where
  "rc_get_display_height d display_id = sint (horizontal_resolution d)"

definition rc_get_display_dpi_x :: "u32 \<Rightarrow> int" where "rc_get_display_dpi_x display_id = 120"

definition rc_get_display_dpi_y :: "u32 \<Rightarrow> int" where "rc_get_display_dpi_y display_id = 120"

definition rc_get_display_vsync_period :: "u32 \<Rightarrow> int" where "rc_get_display_vsync_period display_id = 1"

section \<open>Calls to the renderer\<close>

text \<open>
  Each call of the guest with the answer it gets. \<open>r\<close> is the renderer, if one is registered.
\<close>

definition rc_create_context ::
  "(render_context option \<Rightarrow> render_context option) \<Rightarrow> u32 \<Rightarrow> handle \<Rightarrow> thread_info \<Rightarrow> renderer option \<Rightarrow>
     (handle \<times> thread_info \<times> renderer option) option"
where
  "rc_create_context new_context config share t r =
     (case r of
        None \<Rightarrow> Some (0, t, None)
      | Some q \<Rightarrow> map_option (\<lambda>(h, t', q'). (h, t', Some q')) (create_render_context new_context (sint config) share t q))"

text \<open>The version of OpenGL ES that a context gets for the number the guest asks for.\<close>

definition wants_gl2 :: "u32 \<Rightarrow> bool" where
  "wants_gl2 gl_version \<longleftrightarrow> gl_version = 2 \<or> gl_version = 3"

definition rc_destroy_context :: "handle \<Rightarrow> thread_info \<Rightarrow> renderer option \<Rightarrow> thread_info \<times> renderer option" where
  "rc_destroy_context h t r =
     (case r of None \<Rightarrow> (t, None) | Some q \<Rightarrow> map_prod id Some (destroy_render_context h t q))"

definition rc_create_window_surface ::
  "bool \<Rightarrow> u32 \<Rightarrow> u32 \<Rightarrow> u32 \<Rightarrow> thread_info \<Rightarrow> renderer option \<Rightarrow> (handle \<times> thread_info \<times> renderer option) option"
where
  "rc_create_window_surface ok config w h t r =
     (case r of
        None \<Rightarrow> Some (0, t, None)
      | Some q \<Rightarrow> map_option (\<lambda>(n, t', q'). (n, t', Some q')) (create_window_surface ok (sint config) w h t q))"

definition rc_destroy_window_surface :: "handle \<Rightarrow> thread_info \<Rightarrow> renderer option \<Rightarrow> thread_info \<times> renderer option" where
  "rc_destroy_window_surface h t r =
     (case r of None \<Rightarrow> (t, None) | Some q \<Rightarrow> map_prod id Some (destroy_window_surface h t q))"

definition rc_create_color_buffer :: "color_buffer option \<Rightarrow> renderer option \<Rightarrow> (handle \<times> renderer option) option" where
  "rc_create_color_buffer made r =
     (case r of None \<Rightarrow> Some (0, None) | Some q \<Rightarrow> map_option (map_prod id Some) (create_color_buffer made q))"

definition rc_open_color_buffer2 :: "handle \<Rightarrow> renderer option \<Rightarrow> int \<times> renderer option" where
  "rc_open_color_buffer2 h r =
     (case r of None \<Rightarrow> (- 1, None) | Some q \<Rightarrow> map_prod id Some (open_color_buffer h q))"

definition rc_open_color_buffer :: "handle \<Rightarrow> renderer option \<Rightarrow> renderer option" where
  "rc_open_color_buffer h r = snd (rc_open_color_buffer2 h r)"

definition rc_close_color_buffer :: "handle \<Rightarrow> renderer option \<Rightarrow> renderer option" where
  "rc_close_color_buffer h r = map_option (close_color_buffer h) r"

definition rc_flush_window_color_buffer :: "bool \<Rightarrow> handle \<Rightarrow> renderer option \<Rightarrow> int" where
  "rc_flush_window_color_buffer ok h r =
     (case r of
        None \<Rightarrow> - 1
      | Some q \<Rightarrow> if \<not> fst (flush_window_surface_color_buffer ok h q) then - 1 else 0)"

definition rc_set_window_color_buffer :: "bool \<Rightarrow> handle \<Rightarrow> handle \<Rightarrow> renderer option \<Rightarrow> renderer option" where
  "rc_set_window_color_buffer ok h c r = map_option (\<lambda>q. snd (set_window_surface_color_buffer ok h c q)) r"

definition rc_make_current ::
  "bool \<Rightarrow> handle \<Rightarrow> handle \<Rightarrow> handle \<Rightarrow> thread_info \<Rightarrow> renderer option \<Rightarrow> bool \<times> thread_info \<times> renderer option"
where
  "rc_make_current ok c d rd t r =
     (case r of
        None \<Rightarrow> (False, t, None)
      | Some q \<Rightarrow> (case bind_context ok c d rd t q of (b, t', q') \<Rightarrow> (b, t', Some q')))"

text \<open>The answer to an update is 0 also when there is no such buffer.\<close>

definition rc_update_color_buffer :: "handle \<Rightarrow> renderer option \<Rightarrow> int" where
  "rc_update_color_buffer h r =
     (case r of None \<Rightarrow> - 1 | Some q \<Rightarrow> (case update_color_buffer h q of _ \<Rightarrow> 0))"

section \<open>Layers\<close>

record 'x frame_state =
  frame_layers :: "'x renderable list"
  composer_registered :: bool
  submitted_frames :: "'x renderable list list"

definition is_layer_blacklisted :: "string \<Rightarrow> bool" where
  "is_layer_blacklisted name \<longleftrightarrow> name \<in> set [''Sprite'']"

definition rc_post_layer :: "'x renderable \<Rightarrow> 'x frame_state \<Rightarrow> 'x frame_state" where
  "rc_post_layer l s = s\<lparr>frame_layers := frame_layers s @ [l]\<rparr>"

definition rc_post_all_layers_done :: "'x frame_state \<Rightarrow> 'x frame_state" where
  "rc_post_all_layers_done s =
     s\<lparr>submitted_frames :=
         (if composer_registered s then submitted_frames s @ [frame_layers s] else submitted_frames s),
       frame_layers := []\<rparr>"

section \<open>Properties\<close>

lemma append_approved_words:
  "[] \<notin> set whitelist \<Longrightarrow> append_approved whitelist es out =
     (let ws = filter (\<lambda>e. e \<in> set whitelist) es in
      if ws = [] then out else (if out \<noteq> [] then out @ '' '' else out) @ join_words ws)"
proof (induction es arbitrary: out)
  case Nil
  then show ?case by simp
next
  case (Cons e es)
  show ?case
  proof (cases "e \<in> set whitelist")
    case False
    with Cons show ?thesis by simp
  next
    case True
    with Cons.prems have "e \<noteq> []" by auto
    with True Cons show ?thesis
      by (cases "filter (\<lambda>e. e \<in> set whitelist) es") (simp_all add: Let_def)
  qed
qed

lemma filter_extensions_words:
  "[] \<notin> set whitelist \<Longrightarrow>
     filter_extensions split s whitelist = join_words (filter (\<lambda>e. e \<in> set whitelist) (split s (CHR '' '')))"
  by (simp add: filter_extensions_def append_approved_words Let_def)

lemma put_string_twice:
  "fst (put_string s False n) = - (int (length s) + 1)"
  "put_string s True (int (length s) + 1 + int k) = (int (length s) + 1, Some (s @ [CHR 0x00]))"
  by (simp_all add: put_string_def Let_def)

text \<open>
  Asking for a string of OpenGL without a buffer gives the size that is needed, negated; with a buffer
  of that size the guest gets the whole string, and with a smaller one the size again and nothing else.
  What it gets as extensions are the words of the driver that are on the list, in their order, and the
  version is always 2.0.
\<close>

lemma gl_string_protocol:
  "let s = gl_string split driver name; needed = int (length s) + 1 in
     rc_get_gl_string split driver name False n = (- needed, None) \<and>
     rc_get_gl_string split driver name True needed = (needed, Some (s @ [CHR 0x00])) \<and>
     rc_get_gl_string split driver name True (needed - 1 - int k) = (- needed, None) \<and>
     gl_string split driver GL_VERSION = ''OpenGL ES 2.0'' \<and>
     gl_string split (Some d) GL_EXTENSIONS =
       join_words (filter (\<lambda>e. e \<in> set gl_whitelist)
         (split (case d GL_EXTENSIONS of None \<Rightarrow> '''' | Some e \<Rightarrow> e) (CHR '' '')))"
proof -
  have "[] \<notin> set gl_whitelist" by (simp add: gl_whitelist_def)
  note words = filter_extensions_words [OF this]
  show ?thesis
    by (simp add: rc_get_gl_string_def put_string_def Let_def) (simp add: gl_string_def words Let_def)
qed

text \<open>
  Layers: nothing is lost, repeated or moved to another place, and each call that ends a frame submits one.
  The list of layers that are not to be shown is never looked at.
\<close>

datatype 'x layer_call = Post_Layer "'x renderable" | All_Layers_Done

fun layer_step :: "'x layer_call \<Rightarrow> 'x frame_state \<Rightarrow> 'x frame_state" where
  "layer_step (Post_Layer l) s = rc_post_layer l s"
| "layer_step All_Layers_Done s = rc_post_all_layers_done s"

fun posted :: "'x layer_call \<Rightarrow> 'x renderable list" where
  "posted (Post_Layer l) = [l]"
| "posted All_Layers_Done = []"

lemma frames_are_posted_layers:
  "composer_registered s \<Longrightarrow>
     (let t = fold layer_step calls s in
      concat (submitted_frames t) @ frame_layers t =
        concat (submitted_frames s) @ frame_layers s @ concat (map posted calls) \<and>
      length (submitted_frames t) = length (submitted_frames s) + length (filter ((=) All_Layers_Done) calls))"
proof (induction calls arbitrary: s)
  case Nil
  then show ?case by simp
next
  case (Cons c calls)
  then show ?case
    by (cases c) (simp_all add: rc_post_layer_def rc_post_all_layers_done_def Let_def)
qed

end
