(* ===== verification/Applications.thy ===== *)
theory Applications
  imports Anbox_Prelude
begin

text \<open>
  The applications of the container: \<open>src/anbox/android/intent.cpp\<close>, \<open>src/anbox/application/database.cpp\<close> and
  \<open>launcher_storage.cpp\<close>. The directory of the launchers is a map from the names of its regular files to
  what they hold; that a file cannot be written is not modelled.

  Shown here: the launchers on disk are exactly those of the applications in the database, as long as the
  names of two packages do not become the same file name; and what happens when they do.
\<close>

section \<open>Intents\<close>

record intent =
  in_action :: string
  in_uri :: string
  in_type :: string
  in_flags :: int
  in_package :: string
  in_component :: string
  in_categories :: "string list"

definition intent_new :: intent where
  "intent_new = \<lparr>in_action = '''', in_uri = '''', in_type = '''', in_flags = 0, in_package = '''',
     in_component = '''', in_categories = []\<rparr>"

definition intent_valid :: "intent \<Rightarrow> bool" where
  "intent_valid i \<longleftrightarrow> \<not> (in_component i = '''' \<and> in_package i = '''')"

section \<open>Launchers\<close>

record item =
  it_name :: string
  it_package :: string
  it_launch_intent :: intent
  it_icon :: "byte list"

datatype launcher_file = Desktop_Entry "string list" | Icon_File "byte list" | Other_File

type_synonym launcher_dir = "string \<rightharpoonup> launcher_file"

text \<open>\<open>reset\<close>: all files whose name starts with \<open>anbox-\<close> go.\<close>

definition storage_reset :: "launcher_dir \<Rightarrow> launcher_dir" where
  "storage_reset dir = (\<lambda>n. if prefix ''anbox-'' n then None else dir n)"

definition clean_package_name :: "string \<Rightarrow> string" where
  "clean_package_name p = map (\<lambda>c. if c = CHR ''.'' then CHR ''-'' else c) p"

definition path_for_item :: "string \<Rightarrow> string" where
  "path_for_item p = ''anbox-'' @ p @ ''.desktop''"

definition path_for_item_icon :: "string \<Rightarrow> string" where
  "path_for_item_icon p = ''anbox-'' @ p @ ''.png''"

definition option_text :: "string \<Rightarrow> string \<Rightarrow> string" where
  "option_text name v = (if v = '''' then '''' else ''--'' @ name @ ''='' @ v @ '' '')"

text \<open>The command line of a launcher; \<open>exe\<close> is the program, the one in the snap if there is one.\<close>

definition launcher_exec :: "string \<Rightarrow> intent \<Rightarrow> string" where
  "launcher_exec exe i =
     exe @ '' launch '' @ option_text ''action'' (in_action i) @ option_text ''type'' (in_type i) @
     option_text ''uri'' (in_uri i) @ option_text ''package'' (in_package i) @
     option_text ''component'' (in_component i)"

definition desktop_entry :: "string \<Rightarrow> string \<Rightarrow> item \<Rightarrow> string list" where
  "desktop_entry dir exe it =
     [''[Desktop Entry]'', ''Name='' @ it_name it, ''Exec='' @ launcher_exec exe (it_launch_intent it),
      ''Terminal=false'', ''Type=Application'',
      ''Icon='' @ dir @ ''/'' @ path_for_item_icon (clean_package_name (it_package it))]"

definition storage_add_or_update :: "string \<Rightarrow> string \<Rightarrow> item \<Rightarrow> launcher_dir \<Rightarrow> launcher_dir" where
  "storage_add_or_update path exe it dir =
     (let p = clean_package_name (it_package it) in
      dir(path_for_item p \<mapsto> Desktop_Entry (desktop_entry path exe it),
          path_for_item_icon p \<mapsto> Icon_File (it_icon it)))"

definition storage_remove :: "string \<Rightarrow> launcher_dir \<Rightarrow> launcher_dir" where
  "storage_remove package dir =
     (let p = clean_package_name package in
      dir(path_for_item p := None, path_for_item_icon p := None))"

section \<open>The database\<close>

record database =
  items :: "string \<rightharpoonup> item"
  done_reset :: bool
  launchers :: launcher_dir

definition database_new :: "launcher_dir \<Rightarrow> database" where
  "database_new dir = \<lparr>items = Map.empty, done_reset = False, launchers = dir\<rparr>"

definition store_or_update :: "string \<Rightarrow> string \<Rightarrow> item \<Rightarrow> database \<Rightarrow> database" where
  "store_or_update path exe it db =
     (let dir = (if \<not> done_reset db then storage_reset (launchers db) else launchers db) in
      \<lparr>items = (items db)(it_package it \<mapsto> it\<lparr>it_icon := []\<rparr>), done_reset = True,
       launchers = storage_add_or_update path exe it dir\<rparr>)"

definition database_remove :: "string \<Rightarrow> database \<Rightarrow> database" where
  "database_remove package db =
     (if items db package = None then db
      else db\<lparr>items := (items db)(package := None), launchers := storage_remove package (launchers db)\<rparr>)"

definition find_by_package :: "string \<Rightarrow> database \<Rightarrow> item option" where
  "find_by_package package db = items db package"

section \<open>Properties\<close>

datatype database_op = Store_Item item | Remove_Package string

fun database_step :: "string \<Rightarrow> string \<Rightarrow> database_op \<Rightarrow> database \<Rightarrow> database" where
  "database_step path exe (Store_Item it) db = store_or_update path exe it db"
| "database_step path exe (Remove_Package p) db = database_remove p db"

fun op_package :: "database_op \<Rightarrow> string" where
  "op_package (Store_Item it) = it_package it"
| "op_package (Remove_Package p) = p"

text \<open>The file of an application, up to its icon, which the database does not keep.\<close>

definition launcher_matches :: "string \<Rightarrow> string \<Rightarrow> database \<Rightarrow> bool" where
  "launcher_matches path exe db \<longleftrightarrow>
     (\<forall>n. prefix ''anbox-'' n \<longrightarrow>
        (launchers db n \<noteq> None \<longleftrightarrow>
           (\<exists>p. items db p \<noteq> None \<and>
              (n = path_for_item (clean_package_name p) \<or> n = path_for_item_icon (clean_package_name p))))) \<and>
     (\<forall>p it. items db p = Some it \<longrightarrow>
        it_package it = p \<and>
        launchers db (path_for_item (clean_package_name p)) = Some (Desktop_Entry (desktop_entry path exe it)))"

lemma paths [simp]:
  "path_for_item p = path_for_item q \<longleftrightarrow> p = q"
  "path_for_item_icon p = path_for_item_icon q \<longleftrightarrow> p = q"
  "path_for_item p \<noteq> path_for_item_icon q" "path_for_item_icon q \<noteq> path_for_item p"
  "prefix ''anbox-'' (path_for_item p)" "prefix ''anbox-'' (path_for_item_icon p)"
proof -
  have "last (path_for_item p) \<noteq> last (path_for_item_icon q)"
    by (simp add: path_for_item_def path_for_item_icon_def)
  then show "path_for_item p \<noteq> path_for_item_icon q" "path_for_item_icon q \<noteq> path_for_item p" by metis+
qed (simp_all add: path_for_item_def path_for_item_icon_def)

definition database_inv :: "string \<Rightarrow> string \<Rightarrow> string set \<Rightarrow> database \<Rightarrow> bool" where
  "database_inv path exe P db \<longleftrightarrow>
     dom (items db) \<subseteq> P \<and> (if done_reset db then launcher_matches path exe db else items db = Map.empty)"

lemma desktop_entry_icon [simp]: "desktop_entry path exe (it\<lparr>it_icon := []\<rparr>) = desktop_entry path exe it"
  by (simp add: desktop_entry_def)

lemma store_launchers:
  assumes "launcher_matches path exe db" and "inj_on clean_package_name (insert (it_package it) (dom (items db)))"
    and "done_reset db"
  shows "launcher_matches path exe (store_or_update path exe it db)"
proof -
  have other: "clean_package_name p \<noteq> clean_package_name (it_package it)"
    if "items db p \<noteq> None" "p \<noteq> it_package it" for p
    using assms(2) that unfolding inj_on_def by (metis domI insertCI not_None_eq)
  show ?thesis
    using assms(1,3) other
    unfolding launcher_matches_def store_or_update_def storage_add_or_update_def Let_def
    by (auto split: if_splits; metis)
qed

lemma reset_launchers:
  "launcher_matches path exe (store_or_update path exe it (db\<lparr>items := Map.empty, done_reset := False\<rparr>))"
  unfolding launcher_matches_def store_or_update_def storage_add_or_update_def storage_reset_def Let_def
  by (auto split: if_splits)

lemma remove_launchers:
  assumes "launcher_matches path exe db" and "inj_on clean_package_name (dom (items db))"
  shows "launcher_matches path exe (database_remove p db)"
proof (cases "items db p")
  case None
  with assms show ?thesis by (simp add: database_remove_def)
next
  case (Some it)
  have other: "clean_package_name q \<noteq> clean_package_name p" if "items db q \<noteq> None" "q \<noteq> p" for q
    using assms(2) that Some unfolding inj_on_def by (metis domI not_None_eq)
  show ?thesis
    using assms(1) other Some
    unfolding launcher_matches_def database_remove_def storage_remove_def Let_def
    by (auto split: if_splits; metis)
qed

lemma database_step_inv:
  assumes "database_inv path exe P db" and "op_package op \<in> P" and "inj_on clean_package_name P"
  shows "database_inv path exe P (database_step path exe op db)"
proof (cases op)
  case (Store_Item it)
  have inj: "inj_on clean_package_name (insert (it_package it) (dom (items db)))"
    by (rule inj_on_subset [OF assms(3)]) (use assms Store_Item in \<open>auto simp: database_inv_def\<close>)
  have "launcher_matches path exe (store_or_update path exe it db)"
  proof (cases "done_reset db")
    case True
    with assms(1) inj show ?thesis by (simp add: database_inv_def store_launchers)
  next
    case False
    with assms(1) have "db\<lparr>items := Map.empty, done_reset := False\<rparr> = db" by (simp add: database_inv_def)
    with reset_launchers [of path exe it db] show ?thesis by simp
  qed
  then show ?thesis
    using assms(1,2) by (auto simp: Store_Item database_inv_def store_or_update_def Let_def split: if_splits)
next
  case (Remove_Package p)
  have "inj_on clean_package_name (dom (items db))"
    by (rule inj_on_subset [OF assms(3)]) (use assms in \<open>auto simp: database_inv_def\<close>)
  with assms(1) remove_launchers [of path exe db p] show ?thesis
    by (auto simp: Remove_Package database_inv_def database_remove_def Let_def split: if_splits)
qed

lemma database_run_inv:
  "database_inv path exe P db \<Longrightarrow> op_package ` set ops \<subseteq> P \<Longrightarrow> inj_on clean_package_name P \<Longrightarrow>
     database_inv path exe P (fold (database_step path exe) ops db)"
  by (induction ops arbitrary: db) (auto simp: database_step_inv)

text \<open>
  Whatever applications Android reports as new, changed or removed: once one has been stored, the files
  named \<open>anbox-\<close> are exactly the two of each application in the database, and each launcher starts the
  intent that was stored last. The packages must have different names after the dots have become dashes.
\<close>

lemma launchers_match_database:
  assumes "inj_on clean_package_name (op_package ` set ops)"
  shows "let db = fold (database_step path exe) ops (database_new dir) in
    if done_reset db then launcher_matches path exe db else items db = Map.empty"
  using database_run_inv [of path exe "op_package ` set ops" "database_new dir" ops] assms
  by (simp add: database_inv_def database_new_def Let_def)

theorem launchers_match_database_witness:
  "let it = \<lparr>it_name = ''Clock'', it_package = ''org.clock'', it_launch_intent = intent_new, it_icon = []\<rparr>;
       db = fold (database_step ''apps'' ''anbox'') [Store_Item it, Remove_Package ''org.other''] (database_new Map.empty)
   in launcher_matches ''apps'' ''anbox'' db"
proof -
  let ?it = "\<lparr>it_name = ''Clock'', it_package = ''org.clock'', it_launch_intent = intent_new, it_icon = []\<rparr>"
  let ?ops = "[Store_Item ?it, Remove_Package ''org.other'']"
  have "inj_on clean_package_name (op_package ` set ?ops)"
    by (simp add: clean_package_name_def)
  from launchers_match_database [OF this, of "''apps''" "''anbox''" Map.empty]
  show ?thesis by (simp add: Let_def store_or_update_def database_remove_def database_new_def)
qed

text \<open>Removing a package takes the launcher of another one whose name differs in a dot and a dash.\<close>

lemma launcher_name_collision:
  assumes "it_package a = ''org.x.y''" and "it_package b = ''org.x-y''"
  shows "let db = database_remove ''org.x-y'' (store_or_update path exe b (store_or_update path exe a (database_new dir)))
    in items db ''org.x.y'' \<noteq> None \<and> launchers db (path_for_item (clean_package_name ''org.x.y'')) = None"
  using assms
  by (simp add: Let_def store_or_update_def database_remove_def database_new_def storage_add_or_update_def
      storage_remove_def clean_package_name_def)

end
