(* ===== verification/Bridge.thy ===== *)
theory Bridge
  imports WindowManager Applications
begin

text \<open>
  The two directions of the bridge to Android: the calls into the container
  (\<open>src/anbox/bridge/android_api_stub.cpp\<close> with \<open>common/wait_handle.cpp\<close>), and the calls and events that
  come from there (\<open>platform_api_skeleton.cpp\<close>, \<open>platform_message_processor.cpp\<close>). Messages are records;
  an unset field of a message reads as the empty string.

  Shown here: what a call reports, and that a timeout goes unnoticed once an answer has arrived; what
  becomes of an intent on its way through the messages; how the database follows the events.
\<close>

section \<open>Wait handles\<close>

record wait_handle =
  expecting :: int
  received :: int

definition wait_handle_new :: wait_handle where
  "wait_handle_new = \<lparr>expecting = 0, received = 0\<rparr>"

definition expect_result :: "wait_handle \<Rightarrow> wait_handle" where
  "expect_result h = h\<lparr>expecting := expecting h + 1\<rparr>"

definition result_received :: "wait_handle \<Rightarrow> wait_handle" where
  "result_received h = h\<lparr>received := received h + 1\<rparr>"

text \<open>None: the caller sleeps on. \<open>wait_for_pending\<close> also returns when its time is up.\<close>

definition wait_for_all :: "wait_handle \<Rightarrow> wait_handle option" where
  "wait_for_all h = (if received h = expecting h then Some wait_handle_new else None)"

definition wait_for_pending :: "bool \<Rightarrow> wait_handle \<Rightarrow> wait_handle option" where
  "wait_for_pending timed_out h = (if received h = expecting h \<or> timed_out then Some h else None)"

definition wait_for_one :: "wait_handle \<Rightarrow> wait_handle option" where
  "wait_for_one h =
     (if received h \<noteq> 0 then Some \<lparr>expecting = expecting h - 1, received = received h - 1\<rparr> else None)"

definition has_result :: "wait_handle \<Rightarrow> bool" where
  "has_result h \<longleftrightarrow> received h > 0"

definition is_pending :: "wait_handle \<Rightarrow> bool" where
  "is_pending h \<longleftrightarrow> expecting h > 0 \<and> received h \<noteq> expecting h"

section \<open>Calls into the container\<close>

text \<open>
  What happens to a call while its caller waits: the answer arrives, with an error or not, or the time is up.
\<close>

datatype call_outcome = Answered "string option" | No_Answer

definition await_answer :: "call_outcome \<Rightarrow> wait_handle \<Rightarrow> (fault + unit) \<times> wait_handle" where
  "await_answer outcome h =
     (let h = (case outcome of Answered _ \<Rightarrow> result_received h | No_Answer \<Rightarrow> h);
          error = (case outcome of Answered e \<Rightarrow> e | No_Answer \<Rightarrow> None) in
      if \<not> has_result h then (Inl (Runtime_Error ''RPC call timed out''), h)
      else case error of Some e \<Rightarrow> (Inl (Runtime_Error e), h) | None \<Rightarrow> (Inr (), h))"

datatype stack_id = Id_Invalid | Id_Default | Id_Fullscreen | Id_Freeform

record intent_message =
  im_action :: "string option"
  im_uri :: "string option"
  im_type :: "string option"
  im_package :: "string option"
  im_component :: "string option"
  im_categories :: "string list"

definition field :: "string \<Rightarrow> string option" where
  "field s = (if s = '''' then None else Some s)"

definition proto_field_value :: "string option \<Rightarrow> string" where
  "proto_field_value f = (case f of None \<Rightarrow> '''' | Some s \<Rightarrow> s)"

definition intent_message_of :: "intent \<Rightarrow> intent_message" where
  "intent_message_of i = \<lparr>im_action = field (in_action i), im_uri = field (in_uri i), im_type = field (in_type i),
     im_package = field (in_package i), im_component = field (in_component i), im_categories = in_categories i\<rparr>"

datatype api_message =
    Launch_Application "stack_id option" "rect option" intent_message
  | Set_Focused_Task int
  | Remove_Task int
  | Resize_Task int rect int

record api_stub =
  rpc_channel :: bool
  launch_wait_handle :: wait_handle
  set_focused_task_handle :: wait_handle
  remove_task_handle :: wait_handle
  resize_task_handle :: wait_handle
  launch_bounds :: rect

definition api_stub_new :: api_stub where
  "api_stub_new = \<lparr>rpc_channel = False, launch_wait_handle = wait_handle_new,
     set_focused_task_handle = wait_handle_new, remove_task_handle = wait_handle_new,
     resize_task_handle = wait_handle_new, launch_bounds = Rect_Invalid\<rparr>"

definition set_rpc_channel :: "api_stub \<Rightarrow> api_stub" where
  "set_rpc_channel s = s\<lparr>rpc_channel := True\<rparr>"

definition reset_rpc_channel :: "api_stub \<Rightarrow> api_stub" where
  "reset_rpc_channel s = s\<lparr>rpc_channel := False\<rparr>"

definition no_client :: fault where
  "no_client = Runtime_Error ''No remote client connected''"

text \<open>The result of a call, the message sent, if any, and the new state.\<close>

definition launch_message :: "api_stub \<Rightarrow> intent \<Rightarrow> rect \<Rightarrow> stack_id \<Rightarrow> api_message" where
  "launch_message s i bounds stack =
     Launch_Application (if stack = Id_Invalid then None else Some stack)
       (if bounds \<noteq> Rect_Invalid then Some (launch_bounds s) else None) (intent_message_of i)"

definition api_launch :: "call_outcome \<Rightarrow> intent \<Rightarrow> rect \<Rightarrow> stack_id \<Rightarrow> api_stub \<Rightarrow>
    (fault + unit) \<times> api_message option \<times> api_stub" where
  "api_launch outcome i bounds stack s =
     (if \<not> rpc_channel s then (Inl no_client, None, s)
      else case await_answer outcome (expect_result (launch_wait_handle s)) of
        (r, h) \<Rightarrow> (r, Some (launch_message s i bounds stack), s\<lparr>launch_wait_handle := h\<rparr>))"

definition api_set_focused_task :: "call_outcome \<Rightarrow> int \<Rightarrow> api_stub \<Rightarrow>
    (fault + unit) \<times> api_message option \<times> api_stub" where
  "api_set_focused_task outcome i s =
     (if \<not> rpc_channel s then (Inl no_client, None, s)
      else case await_answer outcome (expect_result (set_focused_task_handle s)) of
        (r, h) \<Rightarrow> (r, Some (Set_Focused_Task i), s\<lparr>set_focused_task_handle := h\<rparr>))"

definition api_remove_task :: "call_outcome \<Rightarrow> int \<Rightarrow> api_stub \<Rightarrow>
    (fault + unit) \<times> api_message option \<times> api_stub" where
  "api_remove_task outcome i s =
     (if \<not> rpc_channel s then (Inl no_client, None, s)
      else case await_answer outcome (expect_result (remove_task_handle s)) of
        (r, h) \<Rightarrow> (r, Some (Remove_Task i), s\<lparr>remove_task_handle := h\<rparr>))"

definition api_resize_task :: "call_outcome \<Rightarrow> int \<Rightarrow> rect \<Rightarrow> int \<Rightarrow> api_stub \<Rightarrow>
    (fault + unit) \<times> api_message option \<times> api_stub" where
  "api_resize_task outcome i bounds mode s =
     (if \<not> rpc_channel s then (Inl no_client, None, s)
      else case await_answer outcome (expect_result (resize_task_handle s)) of
        (r, h) \<Rightarrow> (r, Some (Resize_Task i bounds mode), s\<lparr>resize_task_handle := h\<rparr>))"

section \<open>Calls and events from the container\<close>

record window_message =
  wm_display_id :: int
  wm_has_surface :: bool
  wm_frame_left :: i32
  wm_frame_top :: i32
  wm_frame_right :: i32
  wm_frame_bottom :: i32
  wm_package_name :: string
  wm_task_id :: int
  wm_stack_id :: int

definition convert_window_state :: "window_message \<Rightarrow> window_state" where
  "convert_window_state m = \<lparr>st_display = wm_display_id m, st_has_surface = wm_has_surface m,
     st_frame = Rect (wm_frame_left m) (wm_frame_top m) (wm_frame_right m) (wm_frame_bottom m),
     st_package = wm_package_name m, st_task = wm_task_id m, st_stack = wm_stack_id m\<rparr>"

record application_message =
  am_name :: string
  am_package :: string
  am_launch_intent :: intent_message
  am_icon :: "byte list"

definition item_of_message :: "application_message \<Rightarrow> item" where
  "item_of_message m =
     (let li = am_launch_intent m in
      \<lparr>it_name = am_name m, it_package = am_package m,
       it_launch_intent = \<lparr>in_action = proto_field_value (im_action li), in_uri = proto_field_value (im_uri li),
         in_type = proto_field_value (im_uri li), in_flags = 0, in_package = proto_field_value (im_package li),
         in_component = proto_field_value (im_component li), in_categories = im_categories li\<rparr>,
       it_icon = am_icon m\<rparr>)"

definition handle_application_list_update ::
  "string \<Rightarrow> string \<Rightarrow> application_message list \<Rightarrow> string list \<Rightarrow> database \<Rightarrow> database"
where
  "handle_application_list_update path exe applications removed db =
     fold (\<lambda>m d. if am_package m = '''' then d else store_or_update path exe (item_of_message m) d) applications
       (fold (\<lambda>p d. if p = '''' then d else database_remove p d) removed db)"

definition handle_window_state_update ::
  "(int \<Rightarrow> bool) \<Rightarrow> (string \<Rightarrow> string option) \<Rightarrow> window_message list \<Rightarrow> window_message list \<Rightarrow> desk \<Rightarrow> desk"
where
  "handle_window_state_update native_ok app_name windows removed d =
     apply_window_state_update native_ok app_name (map convert_window_state windows)
       (map convert_window_state removed) d"

text \<open>The clipboard: an empty text is not sent.\<close>

definition set_clipboard_data :: "string option \<Rightarrow> string \<Rightarrow> string" where
  "set_clipboard_data request clipboard = (case request of None \<Rightarrow> clipboard | Some t \<Rightarrow> t)"

definition get_clipboard_data :: "string \<Rightarrow> string option" where
  "get_clipboard_data clipboard = field clipboard"

section \<open>Event sequences\<close>

record event_sequence =
  boot_finished :: bool
  window_state_update :: "(window_message list \<times> window_message list) option"
  application_list_update :: "(application_message list \<times> string list) option"

record platform_state =
  boots_handled :: nat
  boot_handler :: bool
  platform_desk :: desk
  platform_database :: database

text \<open>The title of a task's window: the name of its application, if the database knows it.\<close>

definition application_name :: "database \<Rightarrow> string \<Rightarrow> string option" where
  "application_name db p =
     (case find_by_package p db of
        None \<Rightarrow> None | Some it \<Rightarrow> if it_package it \<noteq> '''' then Some (it_name it) else None)"

text \<open>\<open>process_event_sequence\<close>; None is a text that cannot be parsed.\<close>

definition process_event_sequence ::
  "string \<Rightarrow> string \<Rightarrow> (int \<Rightarrow> bool) \<Rightarrow> event_sequence option \<Rightarrow> platform_state \<Rightarrow> platform_state"
where
  "process_event_sequence path exe native_ok events s =
     (case events of
        None \<Rightarrow> s
      | Some seq \<Rightarrow>
          let s = (if boot_finished seq \<and> boot_handler s then s\<lparr>boots_handled := boots_handled s + 1\<rparr> else s);
              s = (case window_state_update seq of
                     None \<Rightarrow> s
                   | Some (ws, rs) \<Rightarrow>
                       s\<lparr>platform_desk := handle_window_state_update native_ok
                            (application_name (platform_database s)) ws rs (platform_desk s)\<rparr>)
          in (case application_list_update seq of
                None \<Rightarrow> s
              | Some (as, ps) \<Rightarrow>
                  s\<lparr>platform_database := handle_application_list_update path exe as ps (platform_database s)\<rparr>))"

section \<open>Properties\<close>

datatype api_call =
    Call_Launch intent rect stack_id
  | Call_Set_Focused_Task int
  | Call_Remove_Task int
  | Call_Resize_Task int rect int

fun api_do :: "api_call \<Rightarrow> call_outcome \<Rightarrow> api_stub \<Rightarrow> (fault + unit) \<times> api_message option \<times> api_stub" where
  "api_do (Call_Launch i b st) outcome s = api_launch outcome i b st s"
| "api_do (Call_Set_Focused_Task i) outcome s = api_set_focused_task outcome i s"
| "api_do (Call_Remove_Task i) outcome s = api_remove_task outcome i s"
| "api_do (Call_Resize_Task i b m) outcome s = api_resize_task outcome i b m s"

fun same_call :: "api_call \<Rightarrow> api_call \<Rightarrow> bool" where
  "same_call (Call_Launch _ _ _) (Call_Launch _ _ _) = True"
| "same_call (Call_Set_Focused_Task _) (Call_Set_Focused_Task _) = True"
| "same_call (Call_Remove_Task _) (Call_Remove_Task _) = True"
| "same_call (Call_Resize_Task _ _ _) (Call_Resize_Task _ _ _) = True"
| "same_call _ _ = False"

fun call_handle :: "api_call \<Rightarrow> api_stub \<Rightarrow> wait_handle" where
  "call_handle (Call_Launch _ _ _) s = launch_wait_handle s"
| "call_handle (Call_Set_Focused_Task _) s = set_focused_task_handle s"
| "call_handle (Call_Remove_Task _) s = remove_task_handle s"
| "call_handle (Call_Resize_Task _ _ _) s = resize_task_handle s"

lemmas api_defs = api_launch_def api_set_focused_task_def api_remove_task_def api_resize_task_def

lemma await_answer_received:
  "received (snd (await_answer oc h)) = received h + (case oc of Answered _ \<Rightarrow> 1 | No_Answer \<Rightarrow> 0)"
  by (cases oc) (auto simp: await_answer_def Let_def result_received_def split: option.splits)

lemma api_do_handle:
  "rpc_channel s \<Longrightarrow> rpc_channel (snd (snd (api_do c oc s))) \<and>
     received (call_handle d (snd (snd (api_do c oc s)))) =
       received (call_handle d s) +
       (if same_call d c then case oc of Answered _ \<Rightarrow> 1 | No_Answer \<Rightarrow> 0 else 0)"
  by (cases c; cases d)
    (simp_all add: api_defs case_prod_beta await_answer_received expect_result_def)

lemma api_do_result:
  "rpc_channel s \<Longrightarrow> 0 \<le> received (call_handle c s) \<Longrightarrow>
   fst (api_do c oc s) =
     (case oc of
        Answered (Some e) \<Rightarrow> Inl (Runtime_Error e)
      | Answered None \<Rightarrow> Inr ()
      | No_Answer \<Rightarrow> if 0 < received (call_handle c s) then Inr () else Inl (Runtime_Error ''RPC call timed out''))"
  by (cases c)
    (auto simp: api_defs case_prod_beta await_answer_def Let_def has_result_def expect_result_def
      result_received_def split: call_outcome.splits option.splits)

definition api_history :: "(api_call \<times> call_outcome) list \<Rightarrow> api_stub \<Rightarrow> api_stub" where
  "api_history calls s = fold (\<lambda>(c, oc) s. snd (snd (api_do c oc s))) calls s"

lemma api_history_handle:
  "rpc_channel s \<Longrightarrow> rpc_channel (api_history calls s) \<and>
     received (call_handle d (api_history calls s)) =
       received (call_handle d s) + int (length (filter (\<lambda>(c, oc). same_call d c \<and> oc \<noteq> No_Answer) calls))"
proof (induction calls arbitrary: s)
  case Nil
  then show ?case by (simp add: api_history_def)
next
  case (Cons e calls)
  obtain c oc where e: "e = (c, oc)" by fastforce
  from api_do_handle [OF Cons.prems, of c oc d] Cons.IH [of "snd (snd (api_do c oc s))"]
  show ?case by (cases oc) (auto simp: api_history_def e)
qed

text \<open>
  What a call into the container reports after any history of calls: an error if the answer has one,
  success if it has none. A call that gets no answer in time reports this exactly as long as no earlier call
  of its kind has been answered; after that it returns as if it had succeeded.
\<close>

lemma api_call_result:
  "fst (api_do call outcome (api_history calls (set_rpc_channel api_stub_new))) =
     (case outcome of
        Answered (Some e) \<Rightarrow> Inl (Runtime_Error e)
      | Answered None \<Rightarrow> Inr ()
      | No_Answer \<Rightarrow>
          if (\<exists>(c, oc) \<in> set calls. same_call call c \<and> oc \<noteq> No_Answer) then Inr ()
          else Inl (Runtime_Error ''RPC call timed out''))"
proof -
  let ?s = "set_rpc_channel api_stub_new"
  have start: "rpc_channel ?s" "received (call_handle call ?s) = 0"
    by (cases call; simp add: set_rpc_channel_def api_stub_new_def wait_handle_new_def)+
  show ?thesis
    using api_history_handle [OF start(1), of calls call] start(2)
    by (subst api_do_result) (auto simp: filter_empty_conv split: call_outcome.splits option.splits)
qed

text \<open>
  The bounds of a launch are sent as the member of the stub that is never set, and the type of an intent
  is replaced by its URI.
\<close>

lemma launch_sends_invalid_bounds:
  "b \<noteq> Rect_Invalid \<Longrightarrow> launch_message api_stub_new i b st =
     Launch_Application (if st = Id_Invalid then None else Some st) (Some Rect_Invalid) (intent_message_of i)"
  by (simp add: launch_message_def api_stub_new_def)

lemma field_value_field [simp]: "proto_field_value (field s) = s"
  by (simp add: field_def proto_field_value_def)

lemma intent_type_lost:
  "it_launch_intent (item_of_message (m\<lparr>am_launch_intent := intent_message_of i\<rparr>)) =
     i\<lparr>in_flags := 0, in_type := in_uri i\<rparr>"
  by (simp add: item_of_message_def intent_message_of_def Let_def)

text \<open>Only applications with a package reach the database, and all of them do.\<close>

lemma application_update_as_steps:
  "handle_application_list_update path exe applications removed db =
     fold (database_step path exe)
       (map Remove_Package (filter (\<lambda>p. p \<noteq> []) removed) @
        map (\<lambda>m. Store_Item (item_of_message m)) (filter (\<lambda>m. am_package m \<noteq> []) applications)) db"
proof -
  have "fold (\<lambda>p d. if p = '''' then d else database_remove p d) removed db =
      fold (database_step path exe) (map Remove_Package (filter (\<lambda>p. p \<noteq> []) removed)) db" for db
    by (induction removed arbitrary: db) auto
  moreover have "fold (\<lambda>m d. if am_package m = '''' then d else store_or_update path exe (item_of_message m) d)
        applications db =
      fold (database_step path exe)
        (map (\<lambda>m. Store_Item (item_of_message m)) (filter (\<lambda>m. am_package m \<noteq> []) applications)) db" for db
    by (induction applications arbitrary: db) auto
  ultimately show ?thesis by (simp add: handle_application_list_update_def)
qed

end
