(* ===== verification/Checksum.thy ===== *)
theory Checksum
  imports Anbox_Prelude
begin

text \<open>
  The checksums of the OpenGL streams (\<open>android/opengl/shared/OpenglCodecCommon/ChecksumCalculator\<close>): a sender
  and a receiver each keep a calculator. Version 0 has no checksums; version 1 sends the length of the message
  with its bits reversed and the number of the message. Integers are stored in the order of the target,
  which is little-endian.

  Shown here: a receiver that starts with the sender accepts all its messages in order, and exactly what makes
  it reject one.
\<close>

record checksum =
  cs_version :: u32
  cs_num_read :: u32
  cs_num_write :: u32
  cs_encoding :: bool
  cs_total :: u32

definition checksum_new :: checksum where
  "checksum_new =
     \<lparr>cs_version = 0, cs_num_read = 0, cs_num_write = 0, cs_encoding = False, cs_total = 0\<rparr>"

definition max_version :: u32 where "max_version = 1"

definition checksum_set_version :: "u32 \<Rightarrow> checksum \<Rightarrow> bool \<times> checksum" where
  "checksum_set_version version c =
     (if version > max_version then (False, c)
      else if cs_encoding c then (False, c)
      else (True, c\<lparr>cs_version := version\<rparr>))"

definition checksum_byte_size :: "checksum \<Rightarrow> nat" where
  "checksum_byte_size c = (if cs_version c = 1 then 8 else 0)"

definition add_buffer :: "byte list \<Rightarrow> checksum \<Rightarrow> checksum" where
  "add_buffer buf c =
     (let c = c\<lparr>cs_encoding := True\<rparr> in
      if cs_version c = 1 then c\<lparr>cs_total := cs_total c + of_nat (length buf)\<rparr> else c)"

definition swap_bits :: "u32 \<Rightarrow> u32 \<Rightarrow> nat \<Rightarrow> u32 \<Rightarrow> u32" where
  "swap_bits high low n w = (drop_bit n (w AND high)) OR (push_bit n (w AND low))"

definition compute_v1_checksum :: "checksum \<Rightarrow> u32" where
  "compute_v1_checksum c =
     (let w = cs_total c;
          w = swap_bits 0xffff0000 0x0000ffff 16 w;
          w = swap_bits 0xff00ff00 0x00ff00ff 8 w;
          w = swap_bits 0xf0f0f0f0 0x0f0f0f0f 4 w;
          w = swap_bits 0xcccccccc 0x33333333 2 w;
          w = swap_bits 0xaaaaaaaa 0x55555555 1 w
      in w)"

definition reset_checksum :: "checksum \<Rightarrow> checksum" where
  "reset_checksum c =
     (let c = (if cs_version c = 1 then c\<lparr>cs_total := 0\<rparr> else c) in c\<lparr>cs_encoding := False\<rparr>)"

definition store_u32 :: "u32 \<Rightarrow> byte list" where
  "store_u32 w = [ucast w, ucast (drop_bit 8 w), ucast (drop_bit 16 w), ucast (drop_bit 24 w)]"

text \<open>What is written into an output of \<open>n\<close> bytes; None when it is too short.\<close>

definition write_checksum :: "nat \<Rightarrow> checksum \<Rightarrow> byte list option \<times> checksum" where
  "write_checksum n c =
     (if n < checksum_byte_size c then (None, c)
      else
        (Some (if cs_version c = 1 then store_u32 (compute_v1_checksum c) @ store_u32 (cs_num_write c) else []),
         let c = reset_checksum c in c\<lparr>cs_num_write := cs_num_write c + 1\<rparr>))"

definition validate :: "byte list \<Rightarrow> checksum \<Rightarrow> bool \<times> checksum" where
  "validate expected c =
     (let valid = (if length expected \<noteq> checksum_byte_size c then False
                   else if cs_version c = 1
                     then expected = store_u32 (compute_v1_checksum c) @ store_u32 (cs_num_read c)
                   else True)
      in (valid, let c = reset_checksum (c\<lparr>cs_num_read := cs_num_read c + 1\<rparr>) in c))"

section \<open>Messages\<close>

text \<open>
  A message is a list of buffers. The sender appends the checksum; the receiver checks it, with the buffers cut
  as it likes.
\<close>

definition emit_checked :: "byte list list \<Rightarrow> checksum \<Rightarrow> byte list \<times> checksum" where
  "emit_checked bufs c =
     (let c = fold add_buffer bufs c in
      case write_checksum (checksum_byte_size c) c of
        (None, c) \<Rightarrow> ([], c)
      | (Some out, c) \<Rightarrow> (out, c))"

definition accept_checked :: "byte list list \<Rightarrow> byte list \<Rightarrow> checksum \<Rightarrow> bool \<times> checksum" where
  "accept_checked bufs expected c = validate expected (fold add_buffer bufs c)"

text \<open>All the messages of a stream, from the sender to the receiver.\<close>

fun relay_checked ::
  "(byte list list \<times> byte list list) list \<Rightarrow> checksum \<Rightarrow> checksum \<Rightarrow> bool list" where
  "relay_checked [] c d = []"
| "relay_checked ((sent, received) # ms) c d =
     (case emit_checked sent c of
        (out, c') \<Rightarrow>
          (case accept_checked received out d of
             (ok, d') \<Rightarrow> ok # relay_checked ms c' d'))"

section \<open>The bits are reversed\<close>

lemma bit_swap_bits:
  "bit (swap_bits high low n w) i \<longleftrightarrow>
     bit high (n + i) \<and> bit w (n + i) \<or> n \<le> i \<and> i < 32 \<and> bit low (i - n) \<and> bit w (i - n)"
  by (auto simp: swap_bits_def bit_or_iff bit_and_iff bit_drop_bit_eq bit_push_bit_iff dest: bit_imp_le_length)

lemma all_less_32: "list_all P [0..<32] \<Longrightarrow> i < 32 \<Longrightarrow> P i"
  by (simp only: list_all_iff set_upt) simp

text \<open>Blocks of \<open>n\<close> bits change places.\<close>

definition flip :: "nat \<Rightarrow> nat \<Rightarrow> nat" where
  "flip n i = (if i mod (2 * n) < n then n + i else i - n)"

definition flip_masks :: "u32 \<Rightarrow> u32 \<Rightarrow> nat \<Rightarrow> bool" where
  "flip_masks high low n \<longleftrightarrow>
     list_all (\<lambda>i. flip n i < 32 \<and>
       (if i mod (2 * n) < n then bit high (n + i) \<and> (n \<le> i \<longrightarrow> \<not> bit low (i - n))
        else \<not> bit high (n + i) \<and> n \<le> i \<and> bit low (i - n))) [0..<32]"

lemma bit_swap_flip:
  "flip_masks high low n \<Longrightarrow> i < 32 \<Longrightarrow> bit (swap_bits high low n w) i \<longleftrightarrow> bit w (flip n i)"
  unfolding flip_masks_def by (drule (1) all_less_32) (auto simp: bit_swap_bits flip_def)

lemma flip_less: "flip_masks high low n \<Longrightarrow> i < 32 \<Longrightarrow> flip n i < 32"
  unfolding flip_masks_def by (drule (1) all_less_32) simp

lemma flip_masks:
  "flip_masks 0xffff0000 0x0000ffff 16" "flip_masks 0xff00ff00 0x00ff00ff 8"
  "flip_masks 0xf0f0f0f0 0x0f0f0f0f 4" "flip_masks 0xcccccccc 0x33333333 2"
  "flip_masks 0xaaaaaaaa 0x55555555 1"
  by code_simp+

lemma flips_reverse:
  assumes "i < 32"
  shows "flip 16 (flip 8 (flip 4 (flip 2 (flip 1 i)))) = 31 - i"
proof -
  have "list_all (\<lambda>i. flip 16 (flip 8 (flip 4 (flip 2 (flip 1 i)))) = 31 - i) [0..<32]" by code_simp
  then show ?thesis using assms by (rule all_less_32)
qed

lemma bit_compute_v1:
  assumes "i < 32"
  shows "bit (compute_v1_checksum c) i \<longleftrightarrow> bit (cs_total c) (31 - i)"
  unfolding compute_v1_checksum_def Let_def flips_reverse [OF assms, symmetric]
  by (simp only: assms flip_masks [THEN bit_swap_flip] flip_masks [THEN flip_less])

lemma compute_v1_inject:
  "compute_v1_checksum c = compute_v1_checksum d \<longleftrightarrow> cs_total c = cs_total d"
proof
  assume eq: "compute_v1_checksum c = compute_v1_checksum d"
  have "bit (cs_total c) i \<longleftrightarrow> bit (cs_total d) i" if "i < 32" for i
    using bit_compute_v1 [of "31 - i" c] bit_compute_v1 [of "31 - i" d] eq that by simp
  then show "cs_total c = cs_total d" by (auto intro: bit_word_eqI)
qed (simp add: compute_v1_checksum_def)

lemma store_u32_inject [simp]: "store_u32 v = store_u32 w \<longleftrightarrow> v = w"
proof -
  have "rev (store_u32 w) = be32 w" for w by (simp add: store_u32_def be32_def)
  then show ?thesis by (metis from_be_be32 word_unat_eq_iff)
qed

lemma length_store_u32 [simp]: "length (store_u32 w) = 4"
  by (simp add: store_u32_def)

section \<open>What is accepted\<close>

definition message_length :: "byte list list \<Rightarrow> nat" where
  "message_length bufs = length (concat bufs)"

lemma fold_add_buffer:
  "cs_version (fold add_buffer bufs c) = cs_version c"
  "cs_num_read (fold add_buffer bufs c) = cs_num_read c"
  "cs_num_write (fold add_buffer bufs c) = cs_num_write c"
  "cs_total (fold add_buffer bufs c) =
     (if cs_version c = 1 then cs_total c + of_nat (message_length bufs) else cs_total c)"
  by (induction bufs arbitrary: c) (simp_all add: add_buffer_def message_length_def Let_def)

text \<open>Between two messages.\<close>

definition checksum_idle :: "checksum \<Rightarrow> bool" where
  "checksum_idle c \<longleftrightarrow> cs_version c \<le> 1 \<and> cs_total c = 0"

lemma emit_checked_eq:
  "emit_checked bufs c =
     (if cs_version c = 1
      then store_u32 (compute_v1_checksum (fold add_buffer bufs c)) @ store_u32 (cs_num_write c) else [],
      (reset_checksum (fold add_buffer bufs c))\<lparr>cs_num_write := cs_num_write c + 1\<rparr>)"
  by (simp add: emit_checked_def write_checksum_def Let_def fold_add_buffer reset_checksum_def)

text \<open>
  In version 1 the receiver accepts a message exactly when it is the one it expects by number and has as many
  bytes as were sent, both modulo the width of the counters, however sender and receiver cut it into buffers;
  in version 0 it accepts everything.
\<close>
lemma checked_message_accepted:
  assumes "checksum_idle c" "checksum_idle d" "cs_version c = cs_version d"
  shows "fst (accept_checked received (fst (emit_checked sent c)) d) \<longleftrightarrow>
    (if cs_version c = 1
     then cs_num_write c = cs_num_read d \<and>
       (of_nat (message_length sent) :: u32) = of_nat (message_length received)
     else True)"
  using assms
  by (auto simp: emit_checked_eq accept_checked_def validate_def Let_def checksum_byte_size_def fold_add_buffer
      checksum_idle_def compute_v1_inject)

lemma checked_message_accepted_witness:
  "fst (accept_checked [[1, 2, 3]]
      (fst (emit_checked [[1], [2, 3]] (snd (checksum_set_version 1 checksum_new)))) (snd (checksum_set_version 1 checksum_new)))"
  by (subst checked_message_accepted)
    (simp_all add: checksum_idle_def checksum_set_version_def checksum_new_def max_version_def message_length_def)

lemma emit_checked_idle:
  assumes "checksum_idle c"
  shows "checksum_idle (snd (emit_checked bufs c))"
    "cs_version (snd (emit_checked bufs c)) = cs_version c"
    "cs_num_write (snd (emit_checked bufs c)) = cs_num_write c + 1"
  using assms
  by (auto simp: emit_checked_eq checksum_idle_def reset_checksum_def fold_add_buffer)

lemma accept_checked_idle:
  assumes "checksum_idle d"
  shows "checksum_idle (snd (accept_checked bufs e d))"
    "cs_version (snd (accept_checked bufs e d)) = cs_version d"
    "cs_num_read (snd (accept_checked bufs e d)) = cs_num_read d + 1"
  using assms
  by (auto simp: accept_checked_def validate_def Let_def checksum_idle_def reset_checksum_def fold_add_buffer)

text \<open>
  A receiver that starts with the sender, in the same version, accepts all the messages of a stream that
  arrives complete and in order, whatever buffers the two use.
\<close>
lemma checked_stream_accepted:
  assumes "checksum_idle c" "checksum_idle d" "cs_version c = cs_version d" "cs_num_write c = cs_num_read d"
    and "list_all (\<lambda>(sent, received). concat sent = concat received) ms"
  shows "relay_checked ms c d = replicate (length ms) True"
  using assms
proof (induction ms arbitrary: c d)
  case (Cons m ms)
  obtain sent received where m: "m = (sent, received)" by fastforce
  obtain out c' where e: "emit_checked sent c = (out, c')" by fastforce
  obtain ok d' where v: "accept_checked received out d = (ok, d')" by fastforce
  have ok
    using checked_message_accepted [OF Cons.prems(1-3), of received sent] Cons.prems e v m
    by (simp add: message_length_def split: if_splits)
  moreover have "relay_checked ms c' d' = replicate (length ms) True"
    using emit_checked_idle [OF Cons.prems(1), of sent] accept_checked_idle [OF Cons.prems(2), of received out]
      Cons.prems e v by (intro Cons.IH) auto
  ultimately show ?case by (simp add: m e v)
qed simp

lemma checked_stream_accepted_witness:
  "relay_checked [([[1], [2]], [[1, 2]]), ([[3]], [[], [3]])]
     (snd (checksum_set_version 1 checksum_new)) (snd (checksum_set_version 1 checksum_new)) = [True, True]"
  using checked_stream_accepted [of "snd (checksum_set_version 1 checksum_new)" "snd (checksum_set_version 1 checksum_new)"
      "[([[1], [2]], [[1, 2]]), ([[3]], [[], [3]])]"]
  by (simp add: checksum_idle_def checksum_set_version_def checksum_new_def max_version_def numeral_2_eq_2
      del: relay_checked.simps)

text \<open>
  The contents are not checked, a lost message is noticed; version 0 is not without a state: a buffer added in
  it keeps the version from being set.
\<close>

lemma corrupted_contents_accepted:
  assumes "checksum_idle c" "checksum_idle d" "cs_version c = cs_version d" "cs_num_write c = cs_num_read d"
    and "length received = length sent"
  shows "fst (accept_checked [received] (fst (emit_checked [sent] c)) d)"
  using assms by (simp add: checked_message_accepted message_length_def)

lemma lost_message_noticed:
  assumes "checksum_idle c" "checksum_idle d" "cs_version c = 1" "cs_version d = 1" "cs_num_write c = cs_num_read d"
  shows "\<not> fst (accept_checked bufs (fst (emit_checked bufs (snd (emit_checked lost c)))) d)"
  using assms emit_checked_idle [OF assms(1), of lost]
  by (subst checked_message_accepted) auto

lemma version_after_buffer: "fst (checksum_set_version 1 (add_buffer [] checksum_new)) = False"
  by code_simp

end
