(* ===== verification/Fingerprint.thy ===== *)
theory Fingerprint
  imports Anbox_Prelude
begin

text \<open>
  The fingerprint sensor of the container (\<open>android/fingerprint/fingerprint.c\<close>): a table of at most twenty
  fingers with the user each belongs to, kept in a file of its group, the calls of the framework, and what the
  listener does with the events of the host. What is notified is a list. A call and an event run under the
  lock one after the other; files can be written whenever their name is not empty. Time stamps are left out.

  Shown here: the file always holds the table, so that it survives a restart; what removing, enrolling and
  scanning do and tell; and that the table of one group is taken over by the next if that has no file.
\<close>

section \<open>State\<close>

datatype worker_state = STATE_IDLE | STATE_ENROLL | STATE_SCAN | STATE_EXIT

datatype fp_msg =
    Fp_Canceled
  | Fp_Enumerating u64 u64 nat
  | Fp_Removed u64
  | Fp_Acquired
  | Fp_Authenticated u64 u64 u64 u64  \<comment> \<open>finger, operation, authenticator, user\<close>
  | Fp_Enrolling u64

datatype fp_status = Fp_Ok | Fp_EPROTONOSUPPORT | Fp_EPERM | Fp_Error

record fp_device =
  fp_state :: worker_state
  fp_secureid :: "u64 list"
  fp_fingerid :: "u64 list"
  fp_filename :: string
  fp_authid_filename :: string
  fp_op_id :: u64
  fp_challenge :: u64
  fp_user_id :: u64
  fp_group_id :: u64
  fp_secure_user_id :: u64
  fp_authenticator_id :: u64
  fp_files :: "string \<Rightarrow> u64 list option"
  fp_log :: "fp_msg list"

text \<open>An authentication token; whether its version is the supported one, and made by a fingerprint.\<close>

record hw_auth_token =
  hat_version_ok :: bool
  hat_challenge :: u64
  hat_user_id :: u64
  hat_fingerprint :: bool

definition MAX_NUM_FINGERS :: nat where "MAX_NUM_FINGERS = 20"
definition MAX_FID_VALUE :: int where "MAX_FID_VALUE = 0x7FFFFFFF"

definition fingerprint_open :: "(string \<Rightarrow> u64 list option) \<Rightarrow> fp_device" where
  "fingerprint_open files =
     \<lparr>fp_state = STATE_IDLE, fp_secureid = replicate MAX_NUM_FINGERS 0, fp_fingerid = replicate MAX_NUM_FINGERS 0,
      fp_filename = [], fp_authid_filename = [], fp_op_id = 0, fp_challenge = 0, fp_user_id = 0, fp_group_id = 0,
      fp_secure_user_id = 0, fp_authenticator_id = 0, fp_files = files, fp_log = []\<rparr>"

definition fp_notify :: "fp_msg \<Rightarrow> fp_device \<Rightarrow> fp_device" where
  "fp_notify msg d = d\<lparr>fp_log := fp_log d @ [msg]\<rparr>"

section \<open>Files\<close>

definition open_for_write :: "string \<Rightarrow> (string \<Rightarrow> u64 list option) \<Rightarrow> u64 list option" where
  "open_for_write filename files =
     (if filename = [] then None
      else case files filename of
          None \<Rightarrow> Some (replicate (2 * MAX_NUM_FINGERS + 1) 0)
        | Some ws \<Rightarrow> Some ws)"

text \<open>A word is written at an offset; the gap behind a shorter file is filled with zeros.\<close>

definition write_word :: "nat \<Rightarrow> u64 \<Rightarrow> u64 list \<Rightarrow> u64 list" where
  "write_word i v ws = (if i < length ws then ws[i := v] else ws @ replicate (i - length ws) 0 @ [v])"

definition save_fingerprint :: "nat \<Rightarrow> fp_device \<Rightarrow> fp_device" where
  "save_fingerprint idx d =
     (case open_for_write (fp_filename d) (fp_files d) of
        None \<Rightarrow> d
      | Some ws \<Rightarrow>
          d\<lparr>fp_files := (fp_files d)(fp_filename d \<mapsto>
             write_word (MAX_NUM_FINGERS + idx) (fp_fingerid d ! idx)
               (write_word idx (fp_secureid d ! idx) ws))\<rparr>)"

definition save_authenticator_id :: "string \<Rightarrow> u64 \<Rightarrow> fp_device \<Rightarrow> fp_device" where
  "save_authenticator_id filename a d =
     (case open_for_write filename (fp_files d) of
        None \<Rightarrow> d
      | Some ws \<Rightarrow> d\<lparr>fp_files := (fp_files d)(filename \<mapsto> write_word 0 a ws)\<rparr>)"

definition load_authenticator_id :: "string \<Rightarrow> fp_device \<Rightarrow> u64" where
  "load_authenticator_id filename d =
     (case fp_files d filename of Some (a # _) \<Rightarrow> a | _ \<Rightarrow> 0)"

text \<open>\<open>fread\<close> into an array: what the file does not have stays.\<close>

definition read_words :: "u64 list \<Rightarrow> u64 list \<Rightarrow> u64 list" where
  "read_words ws old = take (length old) ws @ drop (length ws) old"

definition load_fingerprints :: "fp_device \<Rightarrow> fp_device" where
  "load_fingerprints d =
     (case fp_files d (fp_filename d) of
        None \<Rightarrow> d
      | Some ws \<Rightarrow>
          d\<lparr>fp_secureid := read_words ws (fp_secureid d),
            fp_fingerid := read_words (drop MAX_NUM_FINGERS ws) (fp_fingerid d)\<rparr>)"

section \<open>Calls of the framework\<close>

text \<open>Two results of \<open>rand()\<close>.\<close>

definition get_64bit_rand :: "u32 \<times> u32 \<Rightarrow> u64" where
  "get_64bit_rand r =
     (let v = push_bit 32 (ucast (fst r)) OR ucast (snd r) in if v \<noteq> 0 then v else 1)"

definition fp_file_name :: "string \<Rightarrow> string \<Rightarrow> string" where
  "fp_file_name path name = take 4095 (path @ ''/'' @ name)"

definition fingerprint_set_active_group :: "u32 \<times> u32 \<Rightarrow> u32 \<Rightarrow> string \<Rightarrow> fp_device \<Rightarrow> fp_device" where
  "fingerprint_set_active_group r gid path d =
     (let d = d\<lparr>fp_group_id := ucast gid, fp_filename := fp_file_name path ''emufp.bin'',
                fp_authid_filename := fp_file_name path ''emuauthid.bin''\<rparr>;
          d = load_fingerprints d;
          a = load_authenticator_id (fp_authid_filename d) d
      in if a = 0
         then let a = get_64bit_rand r in
              (save_authenticator_id (fp_authid_filename d) a d)\<lparr>fp_authenticator_id := a\<rparr>
         else d\<lparr>fp_authenticator_id := a\<rparr>)"

definition fingerprint_authenticate :: "u64 \<Rightarrow> fp_device \<Rightarrow> fp_device" where
  "fingerprint_authenticate operation_id d = d\<lparr>fp_op_id := operation_id, fp_state := STATE_SCAN\<rparr>"

definition fingerprint_enroll :: "hw_auth_token option \<Rightarrow> fp_device \<Rightarrow> fp_status \<times> fp_device" where
  "fingerprint_enroll hat d =
     (case hat of
        None \<Rightarrow> (Fp_EPROTONOSUPPORT, d)
      | Some h \<Rightarrow>
          let d = (if hat_challenge h = fp_challenge d then d\<lparr>fp_secure_user_id := hat_user_id h\<rparr> else d) in
          if \<not> hat_version_ok h then (Fp_EPROTONOSUPPORT, d)
          else if hat_challenge h \<noteq> fp_challenge d \<and> \<not> hat_fingerprint h then (Fp_EPERM, d)
          else (Fp_Ok, d\<lparr>fp_user_id := hat_user_id h, fp_state := STATE_ENROLL\<rparr>))"

definition fingerprint_pre_enroll :: "u32 \<times> u32 \<Rightarrow> fp_device \<Rightarrow> u64 \<times> fp_device" where
  "fingerprint_pre_enroll r d = (let c = get_64bit_rand r in (c, d\<lparr>fp_challenge := c\<rparr>))"

definition fingerprint_post_enroll :: "fp_device \<Rightarrow> fp_device" where
  "fingerprint_post_enroll d = d\<lparr>fp_challenge := 0\<rparr>"

definition fingerprint_cancel :: "fp_device \<Rightarrow> fp_device" where
  "fingerprint_cancel d = fp_notify Fp_Canceled (d\<lparr>fp_state := STATE_IDLE\<rparr>)"

text \<open>The templates are counted first; each message says how many are left.\<close>

definition enum_valid :: "fp_device \<Rightarrow> nat \<Rightarrow> bool" where
  "enum_valid d i \<longleftrightarrow> fp_secureid d ! i \<noteq> 0 \<or> fp_fingerid d ! i \<noteq> 0"

fun enumerate_from :: "fp_device \<Rightarrow> nat list \<Rightarrow> nat \<Rightarrow> fp_msg list" where
  "enumerate_from d [] n = []"
| "enumerate_from d (i # is) n =
     (if enum_valid d i
      then Fp_Enumerating (fp_group_id d) (fp_fingerid d ! i) (n - 1) # enumerate_from d is (n - 1)
      else enumerate_from d is n)"

definition fingerprint_enumerate :: "fp_device \<Rightarrow> fp_device" where
  "fingerprint_enumerate d =
     d\<lparr>fp_log := fp_log d @ enumerate_from d [0..<MAX_NUM_FINGERS]
        (length (List.filter (enum_valid d) [0..<MAX_NUM_FINGERS]))\<rparr>"

definition delete_entry :: "nat \<Rightarrow> fp_device \<Rightarrow> fp_device" where
  "delete_entry idx d =
     save_fingerprint idx (d\<lparr>fp_secureid := (fp_secureid d)[idx := 0], fp_fingerid := (fp_fingerid d)[idx := 0]\<rparr>)"

text \<open>
  All fingers are removed one at a time; the search starts again after each. An identifier counts by its lower
  32 bits.
\<close>

definition some_finger :: "fp_device \<Rightarrow> nat option" where
  "some_finger d = List.find (\<lambda>i. (ucast (fp_fingerid d ! i) :: u32) \<noteq> 0) [0..<MAX_NUM_FINGERS]"

partial_function (option) remove_all :: "fp_device \<Rightarrow> fp_device option" where
  "remove_all d =
     (case some_finger d of
        None \<Rightarrow> Some d
      | Some i \<Rightarrow>
          remove_all (fp_notify (Fp_Removed (ucast (ucast (fp_fingerid d ! i) :: u32))) (delete_entry i d)))"

definition fingerprint_remove :: "u32 \<Rightarrow> fp_device \<Rightarrow> (fp_status \<times> fp_device) option" where
  "fingerprint_remove fid d =
     (if fid = 0 then
        map_option (\<lambda>d. (Fp_Ok, (fp_notify (Fp_Removed 0) d)\<lparr>fp_state := STATE_IDLE\<rparr>)) (remove_all d)
      else Some (
        case List.find (\<lambda>i. fp_fingerid d ! i = ucast fid \<and> fp_secureid d ! i \<noteq> 0) [0..<MAX_NUM_FINGERS] of
          None \<Rightarrow> (Fp_Error, d\<lparr>fp_state := STATE_IDLE\<rparr>)
        | Some i \<Rightarrow> (Fp_Ok, fp_notify (Fp_Removed (ucast fid)) ((delete_entry i d)\<lparr>fp_state := STATE_IDLE\<rparr>))))"

definition set_notify_callback :: "fp_device \<Rightarrow> fp_device" where
  "set_notify_callback d = d\<lparr>fp_state := STATE_IDLE\<rparr>"

section \<open>Events of the host\<close>

definition is_valid_fid :: "fp_device \<Rightarrow> u64 \<Rightarrow> bool" where
  "is_valid_fid d fid \<longleftrightarrow>
     fid \<noteq> 0 \<and> list_ex (\<lambda>i. fp_fingerid d ! i = fid) [0..<MAX_NUM_FINGERS]"

definition send_scan_notice :: "int \<Rightarrow> fp_device \<Rightarrow> fp_device" where
  "send_scan_notice fid d =
     (let f = word_of_int fid in
      fp_notify (Fp_Authenticated (if is_valid_fid d f then f else 0) (fp_op_id d) (fp_authenticator_id d)
        (fp_secure_user_id d)) (fp_notify Fp_Acquired d))"

definition free_entry :: "fp_device \<Rightarrow> nat option" where
  "free_entry d = List.find (\<lambda>i. fp_secureid d ! i = 0 \<or> fp_fingerid d ! i = 0) [0..<MAX_NUM_FINGERS]"

definition send_enroll_notice :: "int \<Rightarrow> fp_device \<Rightarrow> fp_device" where
  "send_enroll_notice fid d =
     (if fid = 0 \<or> fp_secure_user_id d = 0 then d
      else case free_entry d of
          None \<Rightarrow> d\<lparr>fp_state := STATE_SCAN\<rparr>
        | Some i \<Rightarrow>
            let d = d\<lparr>fp_secureid := (fp_secureid d)[i := fp_secure_user_id d],
                      fp_fingerid := (fp_fingerid d)[i := word_of_int fid]\<rparr>;
                d = (save_fingerprint i d)\<lparr>fp_state := STATE_SCAN\<rparr>
            in fp_notify (Fp_Enrolling (word_of_int fid)) d)"

text \<open>An event \<open>on:<number>\<close> that has been scanned.\<close>

definition finger_on :: "int \<Rightarrow> fp_device \<Rightarrow> fp_device" where
  "finger_on fid d =
     (if 0 < fid \<and> fid \<le> MAX_FID_VALUE then
        (case fp_state d of
           STATE_ENROLL \<Rightarrow> send_enroll_notice fid d
         | STATE_SCAN \<Rightarrow> send_scan_notice fid d
         | _ \<Rightarrow> d)
      else d)"

text \<open>Everything but a change of the group; the removal of all fingers ends, as shown below.\<close>

datatype fp_call =
    Authenticate u64
  | Enroll "hw_auth_token option"
  | Pre_Enroll "u32 \<times> u32"
  | Post_Enroll
  | Cancel
  | Enumerate
  | Remove u32
  | Set_Notify
  | Finger int

definition fp_step :: "fp_call \<Rightarrow> fp_device \<Rightarrow> fp_device" where
  "fp_step c d =
     (case c of
        Authenticate op \<Rightarrow> fingerprint_authenticate op d
      | Enroll hat \<Rightarrow> snd (fingerprint_enroll hat d)
      | Pre_Enroll r \<Rightarrow> snd (fingerprint_pre_enroll r d)
      | Post_Enroll \<Rightarrow> fingerprint_post_enroll d
      | Cancel \<Rightarrow> fingerprint_cancel d
      | Enumerate \<Rightarrow> fingerprint_enumerate d
      | Remove fid \<Rightarrow> (case fingerprint_remove fid d of None \<Rightarrow> d | Some r \<Rightarrow> snd r)
      | Set_Notify \<Rightarrow> set_notify_callback d
      | Finger fid \<Rightarrow> finger_on fid d)"

section \<open>The file holds the table\<close>

definition file_word :: "(string \<Rightarrow> u64 list option) \<Rightarrow> string \<Rightarrow> nat \<Rightarrow> u64" where
  "file_word files name j =
     (case files name of None \<Rightarrow> 0 | Some ws \<Rightarrow> if j < length ws then ws ! j else 0)"

definition fp_lengths :: "fp_device \<Rightarrow> bool" where
  "fp_lengths d \<longleftrightarrow> length (fp_secureid d) = MAX_NUM_FINGERS \<and> length (fp_fingerid d) = MAX_NUM_FINGERS"

definition fp_synced :: "fp_device \<Rightarrow> bool" where
  "fp_synced d \<longleftrightarrow> fp_lengths d \<and>
     (fp_filename d \<noteq> [] \<longrightarrow>
        (\<forall>i < MAX_NUM_FINGERS.
           fp_secureid d ! i = file_word (fp_files d) (fp_filename d) i \<and>
           fp_fingerid d ! i = file_word (fp_files d) (fp_filename d) (MAX_NUM_FINGERS + i)))"

lemma nth_write_word:
  "(if j < length (write_word i v ws) then write_word i v ws ! j else 0) =
     (if j = i then v else if j < length ws then ws ! j else 0)"
  by (auto simp: write_word_def nth_append)

lemma nth_write_two:
  "(if j < length (write_word i v (write_word k u ws)) then write_word i v (write_word k u ws) ! j else 0) =
     (if j = i then v else if j = k then u else if j < length ws then ws ! j else 0)"
  unfolding nth_write_word by simp

lemma file_word_save:
  assumes "fp_filename d \<noteq> []"
  shows "file_word (fp_files (save_fingerprint i d)) (fp_filename d) j =
    (if j = MAX_NUM_FINGERS + i then fp_fingerid d ! i
     else if j = i then fp_secureid d ! i
     else file_word (fp_files d) (fp_filename d) j)"
proof (cases "fp_files d (fp_filename d)")
  case None
  then show ?thesis
    using assms
    by (simp add: save_fingerprint_def open_for_write_def file_word_def nth_write_two del: replicate_Suc)
next
  case (Some ws)
  then show ?thesis
    using assms by (simp add: save_fingerprint_def open_for_write_def file_word_def nth_write_two)
qed

lemma save_fingerprint_fields [simp]:
  "fp_filename (save_fingerprint i d) = fp_filename d"
  "fp_secureid (save_fingerprint i d) = fp_secureid d"
  "fp_fingerid (save_fingerprint i d) = fp_fingerid d"
  "fp_secure_user_id (save_fingerprint i d) = fp_secure_user_id d"
  "fp_log (save_fingerprint i d) = fp_log d"
  "fp_state (save_fingerprint i d) = fp_state d"
  by (simp_all add: save_fingerprint_def split: option.splits)

text \<open>An entry is set in the table and saved.\<close>

definition set_entry :: "nat \<Rightarrow> u64 \<Rightarrow> u64 \<Rightarrow> fp_device \<Rightarrow> fp_device" where
  "set_entry i s f d =
     save_fingerprint i (d\<lparr>fp_secureid := (fp_secureid d)[i := s], fp_fingerid := (fp_fingerid d)[i := f]\<rparr>)"

lemma fp_synced_set_entry:
  assumes "fp_synced d" "i < MAX_NUM_FINGERS"
  shows "fp_synced (set_entry i s f d)"
proof -
  let ?d = "d\<lparr>fp_secureid := (fp_secureid d)[i := s], fp_fingerid := (fp_fingerid d)[i := f]\<rparr>"
  have "file_word (fp_files (save_fingerprint i ?d)) (fp_filename d) j =
      (if j = MAX_NUM_FINGERS + i then f else if j = i then s else file_word (fp_files d) (fp_filename d) j)"
    if "fp_filename d \<noteq> []" for j
    using assms that file_word_save [of ?d i j] by (simp add: fp_synced_def fp_lengths_def)
  with assms show ?thesis
    by (simp add: fp_synced_def fp_lengths_def set_entry_def nth_list_update)
qed

lemma delete_entry_eq: "delete_entry i d = set_entry i 0 0 d"
  by (simp add: delete_entry_def set_entry_def)

lemma fp_synced_simps [simp]:
  "fp_synced (fp_notify msg d) = fp_synced d"
  "fp_synced (d\<lparr>fp_state := s\<rparr>) = fp_synced d"
  by (simp_all add: fp_synced_def fp_lengths_def fp_notify_def)

lemma find_upt_less: "List.find P [0..<n] = Some i \<Longrightarrow> i < n \<and> P i"
  by (auto simp: find_Some_iff)

lemma fp_synced_remove_all:
  assumes "remove_all d = Some d'" "fp_synced d"
  shows "fp_synced d'"
proof -
  have "fp_synced d \<longrightarrow> fp_synced d'"
    by (rule remove_all.raw_induct [where P = "\<lambda>d d'. fp_synced d \<longrightarrow> fp_synced d'", rotated, OF assms(1)])
      (auto simp: delete_entry_eq some_finger_def fp_synced_set_entry dest!: find_upt_less split: option.splits)
  with assms(2) show ?thesis by simp
qed

lemma fp_synced_remove:
  assumes "fp_synced d" "fingerprint_remove fid d = Some r"
  shows "fp_synced (snd r)"
  using assms
  by (auto simp: fingerprint_remove_def delete_entry_eq fp_synced_remove_all fp_synced_set_entry
      dest: find_upt_less split: if_splits option.splits)

lemma fp_synced_enroll_notice: "fp_synced d \<Longrightarrow> fp_synced (send_enroll_notice fid d)"
  by (auto simp: send_enroll_notice_def free_entry_def Let_def set_entry_def [symmetric] fp_synced_set_entry
      dest: find_upt_less split: option.splits)

lemma fp_synced_finger: "fp_synced d \<Longrightarrow> fp_synced (finger_on fid d)"
  by (simp add: finger_on_def fp_synced_enroll_notice send_scan_notice_def Let_def split: worker_state.splits)

lemma fp_synced_fields:
  "fp_synced (d\<lparr>fp_op_id := v\<rparr>) = fp_synced d"
  "fp_synced (d\<lparr>fp_challenge := v\<rparr>) = fp_synced d"
  "fp_synced (d\<lparr>fp_secure_user_id := v\<rparr>) = fp_synced d"
  "fp_synced (d\<lparr>fp_user_id := v\<rparr>) = fp_synced d"
  "fp_synced (d\<lparr>fp_log := l\<rparr>) = fp_synced d"
  by (simp_all add: fp_synced_def fp_lengths_def)

lemma fp_synced_step: "fp_synced d \<Longrightarrow> fp_synced (fp_step c d)"
  by (cases c)
    (auto simp: fp_step_def fingerprint_authenticate_def fingerprint_enroll_def fingerprint_pre_enroll_def
      fingerprint_post_enroll_def fingerprint_cancel_def fingerprint_enumerate_def set_notify_callback_def
      fp_synced_fields fp_synced_finger fp_synced_remove Let_def split: option.splits)

lemma read_words_nth:
  "i < length old \<Longrightarrow> read_words ws old ! i = (if i < length ws then ws ! i else old ! i)"
  by (auto simp: read_words_def nth_append min_def)

lemma length_read_words [simp]: "length (read_words ws old) = length old"
  by (auto simp: read_words_def min_def)

lemma set_group_table:
  "fp_fingerid (fingerprint_set_active_group r gid path d) =
     fp_fingerid (load_fingerprints (d\<lparr>fp_filename := fp_file_name path ''emufp.bin''\<rparr>))"
  "fp_secureid (fingerprint_set_active_group r gid path d) =
     fp_secureid (load_fingerprints (d\<lparr>fp_filename := fp_file_name path ''emufp.bin''\<rparr>))"
  "fp_filename (fingerprint_set_active_group r gid path d) = fp_file_name path ''emufp.bin''"
  by (auto simp: fingerprint_set_active_group_def Let_def load_fingerprints_def save_authenticator_id_def
      split: option.splits)

lemma file_names_differ:
  assumes "length path \<le> 4000"
  shows "fp_file_name path ''emufp.bin'' \<noteq> fp_file_name path ''emuauthid.bin''"
    "fp_file_name path name \<noteq> []"
proof -
  have "path @ ''/'' @ ''emufp.bin'' \<noteq> path @ ''/'' @ ''emuauthid.bin''" by simp
  with assms show "fp_file_name path ''emufp.bin'' \<noteq> fp_file_name path ''emuauthid.bin''"
    by (simp add: fp_file_name_def)
  show "fp_file_name path name \<noteq> []" by (simp add: fp_file_name_def)
qed

lemma set_group_files:
  assumes "length path \<le> 4000"
  shows "fp_files (fingerprint_set_active_group r gid path d) (fp_file_name path ''emufp.bin'') =
    fp_files d (fp_file_name path ''emufp.bin'')"
proof -
  have "fp_files (load_fingerprints d) = fp_files d"
    "fp_authid_filename (load_fingerprints d) = fp_authid_filename d" for d
    by (simp_all add: load_fingerprints_def split: option.splits)
  with file_names_differ(1) [OF assms] show ?thesis
    by (simp add: fingerprint_set_active_group_def Let_def save_authenticator_id_def split: option.splits)
qed

text \<open>
  A group whose file has the whole table, or that has none while no finger is in the table, is in step with its
  file.
\<close>

lemma fp_synced_set_group:
  assumes "fp_lengths d" "length path \<le> 4000"
    and "case fp_files d (fp_file_name path ''emufp.bin'') of
        None \<Rightarrow> fp_secureid d = replicate MAX_NUM_FINGERS 0 \<and> fp_fingerid d = replicate MAX_NUM_FINGERS 0
      | Some ws \<Rightarrow> 2 * MAX_NUM_FINGERS \<le> length ws"
  shows "fp_synced (fingerprint_set_active_group r gid path d)"
  using assms(1,3)
  by (auto simp: fp_synced_def fp_lengths_def set_group_table set_group_files [OF assms(2)] load_fingerprints_def
      file_word_def read_words_nth split: option.splits)

lemma file_name_step [simp]: "fp_filename (fp_step c d) = fp_filename d"
proof -
  have delete: "fp_filename (delete_entry i d) = fp_filename d" for i and d :: fp_device
    by (simp add: delete_entry_def)
  have all: "fp_filename d' = fp_filename d" if "remove_all d = Some d'" for d'
    by (rule remove_all.raw_induct [where P = "\<lambda>d d'. fp_filename d' = fp_filename d", rotated, OF that])
      (auto simp: delete fp_notify_def split: option.splits)
  show ?thesis
    by (cases c) (auto simp: fp_step_def fingerprint_authenticate_def fingerprint_enroll_def
        fingerprint_pre_enroll_def fingerprint_post_enroll_def fingerprint_cancel_def fingerprint_enumerate_def
        set_notify_callback_def fingerprint_remove_def fp_notify_def finger_on_def send_enroll_notice_def
        send_scan_notice_def delete all Let_def split: option.splits worker_state.splits)
qed

lemma fp_run_synced:
  "fp_synced d \<Longrightarrow> fp_synced (fold fp_step cs d) \<and> fp_filename (fold fp_step cs d) = fp_filename d"
  by (induction cs arbitrary: d) (simp_all add: fp_synced_step)

text \<open>
  What the framework and the host do to the table of a group survives a restart: after any sequence of calls
  and events, a device opened anew on the same files and set to the same group has the same table.
\<close>
lemma fingerprints_survive_restart:
  assumes "length path \<le> 4000"
    and "case files (fp_file_name path ''emufp.bin'') of None \<Rightarrow> True | Some ws \<Rightarrow> 2 * MAX_NUM_FINGERS \<le> length ws"
    and "d = fold fp_step cs (fingerprint_set_active_group r gid path (fingerprint_open files))"
    and "d' = fingerprint_set_active_group r' gid path (fingerprint_open (fp_files d))"
  shows "fp_fingerid d' = fp_fingerid d \<and> fp_secureid d' = fp_secureid d"
proof -
  let ?name = "fp_file_name path ''emufp.bin''"
  let ?g = "fingerprint_set_active_group r gid path (fingerprint_open files)"
  have open_len: "fp_lengths (fingerprint_open fs)" for fs
    by (simp add: fp_lengths_def fingerprint_open_def)
  have "fp_synced ?g"
    by (rule fp_synced_set_group [OF open_len assms(1)])
      (use assms(2) in \<open>simp add: fingerprint_open_def split: option.splits\<close>)
  from fp_run_synced [OF this, of cs] assms(3) have sync: "fp_synced d" "fp_filename d = ?name"
    by (simp_all add: set_group_table)
  have words: "fp_fingerid d ! i = file_word (fp_files d) ?name (MAX_NUM_FINGERS + i)"
    "fp_secureid d ! i = file_word (fp_files d) ?name i" if "i < MAX_NUM_FINGERS" for i
    using sync that file_names_differ(2) [OF assms(1)] by (simp_all add: fp_synced_def)
  have "fp_fingerid d' ! i = file_word (fp_files d) ?name (MAX_NUM_FINGERS + i)"
    "fp_secureid d' ! i = file_word (fp_files d) ?name i" if "i < MAX_NUM_FINGERS" for i
    using that unfolding assms(4) set_group_table
    by (auto simp: load_fingerprints_def fingerprint_open_def file_word_def read_words_nth split: option.splits)
  moreover have "length (fp_fingerid d') = MAX_NUM_FINGERS" "length (fp_secureid d') = MAX_NUM_FINGERS"
    unfolding assms(4) set_group_table by (simp_all add: load_fingerprints_def fingerprint_open_def split: option.splits)
  ultimately show ?thesis
    using words sync(1) by (auto simp: fp_synced_def fp_lengths_def intro!: nth_equalityI)
qed

text \<open>
  The table is not cleared for a group that has no file: the fingers of the group before it unlock this one.
\<close>

lemma group_takes_over_table:
  assumes "fp_files d (fp_file_name path ''emufp.bin'') = None"
  shows "fp_fingerid (fingerprint_set_active_group r gid path d) = fp_fingerid d"
    "is_valid_fid (fingerprint_set_active_group r gid path d) f = is_valid_fid d f"
  using assms by (simp_all add: set_group_table load_fingerprints_def is_valid_fid_def)

lemma fingerprints_survive_restart_witness:
  "let d = fold fp_step [Enroll (Some \<lparr>hat_version_ok = True, hat_challenge = 0, hat_user_id = 9, hat_fingerprint = True\<rparr>),
       Finger 5] (fingerprint_set_active_group (0, 1) 0 ''/a'' (fingerprint_open (\<lambda>_. None)));
     d' = fingerprint_set_active_group (0, 2) 0 ''/a'' (fingerprint_open (fp_files d))
   in fp_fingerid d' = fp_fingerid d \<and> fp_secureid d' = fp_secureid d"
  unfolding Let_def by (rule fingerprints_survive_restart [OF _ _ refl refl]) simp_all

section \<open>Removing all fingers\<close>

lemma find_Some_filter:
  assumes "List.find P xs = Some i" "distinct xs"
  shows "List.filter P xs = i # List.filter (\<lambda>x. P x \<and> x \<noteq> i) xs"
  using assms
proof (induction xs)
  case (Cons x xs)
  show ?case
  proof (cases "P x")
    case True
    with Cons.prems have "i = x" by simp
    have "List.filter (\<lambda>y. P y \<and> y \<noteq> x) xs = List.filter P xs"
      using Cons.prems(2) by (intro filter_cong) auto
    with True \<open>i = x\<close> show ?thesis by simp
  next
    case False
    with Cons show ?thesis by simp
  qed
qed simp

definition low_fid :: "fp_device \<Rightarrow> nat \<Rightarrow> u32" where
  "low_fid d i = ucast (fp_fingerid d ! i)"

definition fingers :: "fp_device \<Rightarrow> nat list" where
  "fingers d = List.filter (\<lambda>i. low_fid d i \<noteq> 0) [0..<MAX_NUM_FINGERS]"

lemma low_fid_delete:
  assumes "fp_lengths d" "i < MAX_NUM_FINGERS"
  shows "low_fid (fp_notify m (delete_entry i d)) j = (if j = i then 0 else low_fid d j)"
  using assms by (simp add: low_fid_def fp_notify_def delete_entry_def fp_lengths_def nth_list_update)

lemma fp_lengths_delete [simp]: "fp_lengths d \<Longrightarrow> fp_lengths (fp_notify m (delete_entry i d))"
  by (simp add: fp_lengths_def fp_notify_def delete_entry_def)

lemma remove_all_ends:
  assumes "fp_lengths d"
  shows "\<exists>d'. remove_all d = Some d' \<and> fingers d' = [] \<and>
    fp_log d' = fp_log d @ map (\<lambda>i. Fp_Removed (ucast (low_fid d i))) (fingers d)"
  using assms
proof (induction "length (fingers d)" arbitrary: d)
  case 0
  then have "some_finger d = None"
    by (auto simp: fingers_def some_finger_def low_fid_def find_None_iff filter_empty_conv)
  with 0 show ?case by (simp add: remove_all.simps)
next
  case (Suc n)
  obtain i where i: "some_finger d = Some i"
    using Suc(2) by (cases "some_finger d")
      (auto simp: fingers_def some_finger_def low_fid_def find_None_iff filter_empty_conv)
  then have i': "i < MAX_NUM_FINGERS" by (auto simp: some_finger_def dest: find_upt_less)
  let ?d = "fp_notify (Fp_Removed (ucast (low_fid d i))) (delete_entry i d)"
  have f: "fingers d = i # fingers ?d"
    using find_Some_filter [OF i [unfolded some_finger_def]] low_fid_delete [OF Suc.prems i']
    by (simp add: fingers_def low_fid_def [symmetric]) (rule filter_cong, auto)
  have "\<exists>d'. remove_all ?d = Some d' \<and> fingers d' = [] \<and>
      fp_log d' = fp_log ?d @ map (\<lambda>i. Fp_Removed (ucast (low_fid ?d i))) (fingers ?d)"
    using Suc f by (intro Suc(1)) simp_all
  moreover have "low_fid ?d j = low_fid d j" if "j \<in> set (fingers ?d)" for j
    using that low_fid_delete [OF Suc.prems i'] by (auto simp: fingers_def split: if_splits)
  moreover have "fp_log ?d = fp_log d @ [Fp_Removed (ucast (low_fid d i))]"
    by (simp add: fp_notify_def delete_entry_def)
  moreover have "remove_all d = remove_all ?d"
    using i by (subst remove_all.simps) (simp add: low_fid_def)
  ultimately show ?case using f by (auto simp: cong: map_cong)
qed

lemma remove_all_lengths: "remove_all d = Some d' \<Longrightarrow> fp_lengths d \<longrightarrow> fp_lengths d'"
  by (rule remove_all.raw_induct [where P = "\<lambda>d d'. fp_lengths d \<longrightarrow> fp_lengths d'", rotated])
    (auto split: option.splits)

text \<open>
  To remove finger 0 is to remove all: the call returns, reports each finger in the order of the table and
  then 0, and leaves no finger that could be recognised.
\<close>
lemma remove_zero_removes_all:
  assumes "fp_lengths d"
  shows "case fingerprint_remove 0 d of
      None \<Rightarrow> False
    | Some (status, d') \<Rightarrow>
        status = Fp_Ok \<and> fp_state d' = STATE_IDLE \<and>
        fp_log d' = fp_log d @
          map Fp_Removed (filter (\<lambda>f. f \<noteq> 0) (map (\<lambda>f. ucast (ucast f :: u32)) (fp_fingerid d))) @ [Fp_Removed 0] \<and>
        filter (\<lambda>f. (ucast f :: u32) \<noteq> 0) (fp_fingerid d') = []"
proof -
  obtain d' where d': "remove_all d = Some d'" "fingers d' = []"
    "fp_log d' = fp_log d @ map (\<lambda>i. Fp_Removed (ucast (low_fid d i))) (fingers d)"
    using remove_all_ends [OF assms] by blast
  have ucast_0: "(ucast (w :: u32) :: u64) = 0 \<longleftrightarrow> w = 0" for w
    by transfer simp
  have "map (\<lambda>i. Fp_Removed (ucast (low_fid d i))) (fingers d) =
      map Fp_Removed (filter (\<lambda>f. f \<noteq> 0) (map (\<lambda>f. ucast (ucast f :: u32)) (fp_fingerid d)))"
  proof -
    have "map (\<lambda>f. ucast (ucast f :: u32)) (fp_fingerid d) =
        map (\<lambda>i. ucast (low_fid d i) :: u64) [0..<MAX_NUM_FINGERS]"
      using assms by (intro nth_equalityI) (simp_all add: fp_lengths_def low_fid_def)
    then show ?thesis
      by (simp add: fingers_def filter_map comp_def ucast_0)
  qed
  moreover have "fp_lengths d'"
    using remove_all_lengths [OF d'(1)] assms by simp
  moreover from this d'(2) have "filter (\<lambda>f. (ucast f :: u32) \<noteq> 0) (fp_fingerid d') = []"
    by (auto simp: fingers_def low_fid_def filter_empty_conv in_set_conv_nth fp_lengths_def)
  ultimately show ?thesis
    using d' by (simp add: fingerprint_remove_def fp_notify_def)
qed

lemma remove_zero_removes_all_witness:
  "case fingerprint_remove 0 (fingerprint_open (\<lambda>_. None)) of
      None \<Rightarrow> False
    | Some (status, d') \<Rightarrow> status = Fp_Ok \<and> fp_log d' = [Fp_Removed 0]"
  using remove_zero_removes_all [of "fingerprint_open (\<lambda>_. None)"]
  by (auto simp: fp_lengths_def fingerprint_open_def split: option.splits)

section \<open>Enrolling and scanning\<close>

lemma enroll_free_valid:
  assumes "fp_lengths d" "free_entry d = Some i" "0 < fid" "fid \<le> MAX_FID_VALUE" "fp_secure_user_id d \<noteq> 0"
  shows "is_valid_fid (send_enroll_notice fid d) (word_of_int fid)"
    "fp_log (send_enroll_notice fid d) = fp_log d @ [Fp_Enrolling (word_of_int fid)]"
    "fp_state (send_enroll_notice fid d) = STATE_SCAN"
proof -
  have i: "i < MAX_NUM_FINGERS" using assms(2) by (auto simp: free_entry_def dest: find_upt_less)
  have "(word_of_int fid :: u64) \<noteq> 0"
    using assms(3,4) by (simp add: word_of_int_eq_0_iff MAX_FID_VALUE_def zdvd_not_zless)
  with assms i show "is_valid_fid (send_enroll_notice fid d) (word_of_int fid)"
    by (auto simp: is_valid_fid_def send_enroll_notice_def Let_def fp_notify_def fp_lengths_def list_ex_iff
        intro!: bexI [of _ i])
  show "fp_log (send_enroll_notice fid d) = fp_log d @ [Fp_Enrolling (word_of_int fid)]"
    "fp_state (send_enroll_notice fid d) = STATE_SCAN"
    using assms by (simp_all add: send_enroll_notice_def Let_def fp_notify_def)
qed

lemma enroll_other_fields [simp]:
  "fp_op_id (send_enroll_notice fid d) = fp_op_id d"
  "fp_authenticator_id (send_enroll_notice fid d) = fp_authenticator_id d"
  "fp_secure_user_id (send_enroll_notice fid d) = fp_secure_user_id d"
  by (simp_all add: send_enroll_notice_def fp_notify_def save_fingerprint_def Let_def split: option.splits)

text \<open>
  With a valid token for the pending challenge, of a user that is not 0, and a free entry, the first touch of a
  finger enrolls it and the next one is recognised as that finger, for that user and the current operation.
\<close>
lemma enrolled_finger_authenticates:
  assumes "fp_lengths d" "free_entry d \<noteq> None" "0 < fid" "fid \<le> MAX_FID_VALUE"
    and "hat_version_ok h" "hat_challenge h = fp_challenge d" "hat_user_id h \<noteq> 0"
  shows "fp_log (fold fp_step [Enroll (Some h), Finger fid, Finger fid] d) =
    fp_log d @ [Fp_Enrolling (word_of_int fid), Fp_Acquired,
      Fp_Authenticated (word_of_int fid) (fp_op_id d) (fp_authenticator_id d) (hat_user_id h)]"
proof -
  let ?d = "d\<lparr>fp_secure_user_id := hat_user_id h, fp_user_id := hat_user_id h, fp_state := STATE_ENROLL\<rparr>"
  have e: "fp_step (Enroll (Some h)) d = ?d"
    using assms by (simp add: fp_step_def fingerprint_enroll_def)
  obtain i where "free_entry ?d = Some i"
    using assms(2) by (auto simp: free_entry_def)
  then have v: "is_valid_fid (send_enroll_notice fid ?d) (word_of_int fid)"
    "fp_log (send_enroll_notice fid ?d) = fp_log d @ [Fp_Enrolling (word_of_int fid)]"
    "fp_state (send_enroll_notice fid ?d) = STATE_SCAN"
    using enroll_free_valid [of ?d i fid] assms by (simp_all add: fp_lengths_def)
  have "fp_step (Finger fid) ?d = send_enroll_notice fid ?d"
    using assms(3,4) by (simp add: fp_step_def finger_on_def)
  moreover have "fp_step (Finger fid) (send_enroll_notice fid ?d) = send_scan_notice fid (send_enroll_notice fid ?d)"
    using assms(3,4) v(3) by (simp add: fp_step_def finger_on_def)
  ultimately show ?thesis
    using e v(1,2) by (simp add: send_scan_notice_def fp_notify_def Let_def)
qed

lemma enrolled_finger_authenticates_witness:
  "fp_log (fold fp_step [Enroll (Some \<lparr>hat_version_ok = True, hat_challenge = 0, hat_user_id = 9, hat_fingerprint = True\<rparr>),
      Finger 5, Finger 5] (fingerprint_open (\<lambda>_. None))) =
    [Fp_Enrolling 5, Fp_Acquired, Fp_Authenticated 5 0 0 9]"
proof -
  have "free_entry (fingerprint_open (\<lambda>_. None)) \<noteq> None" by code_simp
  with enrolled_finger_authenticates [of "fingerprint_open (\<lambda>_. None)" 5
      "\<lparr>hat_version_ok = True, hat_challenge = 0, hat_user_id = 9, hat_fingerprint = True\<rparr>"]
  show ?thesis by (simp add: fp_lengths_def fingerprint_open_def MAX_FID_VALUE_def)
qed

text \<open>
  A finger that is not in the table is told as 0; a token for another challenge is accepted when it says that it was
  made by a fingerprint.
\<close>

lemma unknown_finger:
  assumes "fp_state d = STATE_SCAN" "0 < fid" "fid \<le> MAX_FID_VALUE" "\<not> is_valid_fid d (word_of_int fid)"
  shows "fp_log (finger_on fid d) = fp_log d @
    [Fp_Acquired, Fp_Authenticated 0 (fp_op_id d) (fp_authenticator_id d) (fp_secure_user_id d)]"
  using assms by (simp add: finger_on_def send_scan_notice_def Let_def fp_notify_def)

lemma stale_token_enrolls:
  assumes "hat_version_ok h" "hat_challenge h \<noteq> fp_challenge d" "hat_fingerprint h"
  shows "fst (fingerprint_enroll (Some h) d) = Fp_Ok"
  using assms by (simp add: fingerprint_enroll_def)

end
