(* ===== verification/Gps.thy ===== *)
theory Gps
  imports Complex_Main Anbox_Prelude
begin

text \<open>
  The receiver of the container for positions (\<open>android/gps/gps_qemu.c\<close>): NMEA sentences from the host are
  split at commas and turned into fixes. Numbers are rational: the rounding of \<open>double\<close> is not modelled, nor
  are hexadecimal numbers, infinities and NaN, which \<open>strtod\<close> also reads. The date and \<open>mktime\<close> are given.

  Shown here: how sentences are split, which sentences are parsed and which are lost, what a position sentence
  makes of its numbers, and that a fix that nobody waits for is kept.
\<close>

section \<open>Tokens\<close>

definition MAX_NMEA_TOKENS :: nat where "MAX_NMEA_TOKENS = 16"

text \<open>\<open>memchr\<close> finds the next comma; a token behind the last comma is only recorded if it is not empty.\<close>

function nmea_split :: "string \<Rightarrow> string list" where
  "nmea_split s =
     (if s = [] then []
      else let t = takeWhile (\<lambda>c. c \<noteq> CHR '','') s in t # nmea_split (drop (length t + 1) s))"
  by pat_completeness auto
termination by (relation "measure length") auto

declare nmea_split.simps [simp del]

definition strip_newline :: "string \<Rightarrow> string" where
  "strip_newline s =
     (if s \<noteq> [] \<and> last s = CHR 0x0A then
        let s = butlast s in if s \<noteq> [] \<and> last s = CHR 0x0D then butlast s else s
      else s)"

definition strip_checksum :: "string \<Rightarrow> string" where
  "strip_checksum s =
     (if length s \<ge> 3 \<and> s ! (length s - 3) = CHR ''*'' then take (length s - 3) s else s)"

definition nmea_tokenizer_init :: "string \<Rightarrow> string list" where
  "nmea_tokenizer_init s =
     (let s = (if s \<noteq> [] \<and> hd s = CHR ''$'' then tl s else s)
      in take MAX_NMEA_TOKENS (nmea_split (strip_checksum (strip_newline s))))"

definition nmea_tokenizer_get :: "string list \<Rightarrow> nat \<Rightarrow> string option" where
  "nmea_tokenizer_get ts i = (if i < length ts then Some (ts ! i) else None)"

definition tok_text :: "string option \<Rightarrow> string" where
  "tok_text t = (case t of None \<Rightarrow> [] | Some s \<Rightarrow> s)"

text \<open>\<open>p[0]\<close>: an empty token is followed by its comma, a missing one is the end of a string.\<close>

definition tok_first :: "string option \<Rightarrow> char" where
  "tok_first t = (case t of None \<Rightarrow> CHR 0x00 | Some [] \<Rightarrow> CHR '','' | Some (c # _) \<Rightarrow> c)"

section \<open>Numbers\<close>

definition digit :: "char \<Rightarrow> int option" where
  "digit c = (let n = of_char c - 48 :: int in if 0 \<le> n \<and> n < 10 then Some n else None)"

fun str2int_from :: "int \<Rightarrow> string \<Rightarrow> int" where
  "str2int_from result [] = result"
| "str2int_from result (c # cs) =
     (case digit c of None \<Rightarrow> -1 | Some d \<Rightarrow> str2int_from (result * 10 + d) cs)"

definition str2int :: "string \<Rightarrow> int" where
  "str2int s = str2int_from 0 s"

definition digits_of :: "string \<Rightarrow> string" where
  "digits_of s = takeWhile (\<lambda>c. digit c \<noteq> None) s"

definition decimal :: "string \<Rightarrow> rat" where
  "decimal ds = of_int (str2int ds)"

definition is_space :: "char \<Rightarrow> bool" where
  "is_space c \<longleftrightarrow> c \<in> {CHR '' '', CHR 0x09, CHR 0x0A, CHR 0x0B, CHR 0x0C, CHR 0x0D}"

definition strtod_sign :: "string \<Rightarrow> rat \<times> string" where
  "strtod_sign s =
     (case s of
        c # cs \<Rightarrow> if c = CHR ''-'' then (-1, cs) else if c = CHR ''+'' then (1, cs) else (1, s)
      | [] \<Rightarrow> (1, s))"

definition strtod_exponent :: "string \<Rightarrow> rat" where
  "strtod_exponent s =
     (case s of
        c # cs \<Rightarrow>
          if c = CHR ''e'' \<or> c = CHR ''E'' then
            (case strtod_sign cs of
               (sign, ds) \<Rightarrow>
                 if digits_of ds = [] then 1
                 else let n = nat (str2int (digits_of ds)) in if sign = 1 then 10 ^ n else 1 / 10 ^ n)
          else 1
      | [] \<Rightarrow> 1)"

definition strtod :: "string \<Rightarrow> rat" where
  "strtod s =
     (case strtod_sign (dropWhile is_space s) of
        (sign, t) \<Rightarrow>
          let whole = digits_of t;
              rest = drop (length whole) t;
              (frac, rest) = (case rest of
                  c # cs \<Rightarrow> if c = CHR ''.'' then (digits_of cs, drop (length (digits_of cs)) cs) else ([], rest)
                | [] \<Rightarrow> ([], []))
          in if whole = [] \<and> frac = [] then 0
             else sign * (decimal whole + decimal frac / 10 ^ length frac) * strtod_exponent rest)"

definition str2float :: "string \<Rightarrow> rat" where
  "str2float s = (if length s \<ge> 16 then 0 else strtod s)"

definition int_of_double :: "rat \<Rightarrow> int" where
  "int_of_double x = (if x < 0 then - \<lfloor>- x\<rfloor> else \<lfloor>x\<rfloor>)"

section \<open>The reader\<close>

datatype gps_flag = HAS_LAT_LONG | HAS_ALTITUDE | HAS_SPEED | HAS_BEARING | HAS_ACCURACY

record fix_record =
  fix_flags :: "gps_flag set"
  fix_latitude :: rat
  fix_longitude :: rat
  fix_altitude :: rat
  fix_speed :: rat
  fix_bearing :: rat
  fix_accuracy :: rat
  fix_timestamp :: int

record gps_env =
  env_date :: "int \<times> int \<times> int"  \<comment> \<open>year, month, day\<close>
  env_mktime :: "int \<times> int \<times> int \<Rightarrow> int \<times> int \<times> int \<Rightarrow> int"
  env_utc_diff :: int

definition NMEA_MAX_SIZE :: nat where "NMEA_MAX_SIZE = 83"

text \<open>\<open>nm_in\<close> holds the \<open>pos\<close> characters received; \<open>nm_sent\<close> is what the callback has been given.\<close>

record nmea_reader =
  nm_in :: string
  nm_overflow :: bool
  nm_year :: int
  nm_mon :: int
  nm_day :: int
  nm_fix :: fix_record
  nm_callback :: bool
  nm_sent :: "fix_record list"

definition nmea_reader_init :: nmea_reader where
  "nmea_reader_init =
     \<lparr>nm_in = [], nm_overflow = False, nm_year = -1, nm_mon = -1, nm_day = -1,
      nm_fix = \<lparr>fix_flags = {}, fix_latitude = 0, fix_longitude = 0, fix_altitude = 0, fix_speed = 0,
        fix_bearing = 0, fix_accuracy = 0, fix_timestamp = 0\<rparr>,
      nm_callback = False, nm_sent = []\<rparr>"

definition send_fix :: "nmea_reader \<Rightarrow> nmea_reader" where
  "send_fix r = r\<lparr>nm_sent := nm_sent r @ [nm_fix r], nm_fix := (nm_fix r)\<lparr>fix_flags := {}\<rparr>\<rparr>"

definition nmea_reader_set_callback :: "bool \<Rightarrow> nmea_reader \<Rightarrow> nmea_reader" where
  "nmea_reader_set_callback cb r =
     (let r = r\<lparr>nm_callback := cb\<rparr> in if cb \<and> fix_flags (nm_fix r) \<noteq> {} then send_fix r else r)"

definition nmea_reader_update_time :: "gps_env \<Rightarrow> string \<Rightarrow> nmea_reader \<Rightarrow> nmea_reader" where
  "nmea_reader_update_time env tok r =
     (if length tok < 6 then r
      else
        let r = (if nm_year r < 0 then
                   (case env_date env of (y, m, d) \<Rightarrow> r\<lparr>nm_year := y, nm_mon := m, nm_day := d\<rparr>) else r);
            t = env_mktime env (nm_year r - 1900, nm_mon r - 1, nm_day r)
                  (str2int (take 2 tok), str2int (take 2 (drop 2 tok)), int_of_double (str2float (drop 4 tok)))
                + env_utc_diff env
        in r\<lparr>nm_fix := (nm_fix r)\<lparr>fix_timestamp := t * 1000\<rparr>\<rparr>)"

definition nmea_reader_update_date :: "gps_env \<Rightarrow> string \<Rightarrow> string \<Rightarrow> nmea_reader \<Rightarrow> nmea_reader" where
  "nmea_reader_update_date env tok time r =
     (if length tok \<noteq> 6 then r
      else
        let day = str2int (take 2 tok); mon = str2int (take 2 (drop 2 tok));
            year = str2int (drop 4 tok) + 2000
        in if day < 0 \<or> mon < 0 \<or> year < 0 then r
           else nmea_reader_update_time env time (r\<lparr>nm_year := year, nm_mon := mon, nm_day := day\<rparr>))"

definition convert_from_hhmm :: "string \<Rightarrow> rat" where
  "convert_from_hhmm tok =
     (let val = str2float tok;
          degrees = int_of_double (of_int \<lfloor>val\<rfloor> / 100);
          minutes = val - of_int degrees * 100
      in of_int degrees + minutes / 60)"

definition nmea_reader_update_latlong ::
  "string \<Rightarrow> char \<Rightarrow> string \<Rightarrow> char \<Rightarrow> nmea_reader \<Rightarrow> nmea_reader" where
  "nmea_reader_update_latlong latitude latitudeHemi longitude longitudeHemi r =
     (if length latitude < 6 \<or> length longitude < 6 then r
      else
        let lat = convert_from_hhmm latitude; lon = convert_from_hhmm longitude
        in r\<lparr>nm_fix := (nm_fix r)\<lparr>
             fix_flags := insert HAS_LAT_LONG (fix_flags (nm_fix r)),
             fix_latitude := (if latitudeHemi = CHR ''S'' then - lat else lat),
             fix_longitude := (if longitudeHemi = CHR ''W'' then - lon else lon)\<rparr>\<rparr>)"

definition nmea_reader_update_altitude :: "string \<Rightarrow> nmea_reader \<Rightarrow> nmea_reader" where
  "nmea_reader_update_altitude tok r =
     (if tok = [] then r
      else r\<lparr>nm_fix := (nm_fix r)\<lparr>fix_flags := insert HAS_ALTITUDE (fix_flags (nm_fix r)),
             fix_altitude := str2float tok\<rparr>\<rparr>)"

definition nmea_reader_update_bearing :: "string \<Rightarrow> nmea_reader \<Rightarrow> nmea_reader" where
  "nmea_reader_update_bearing tok r =
     (if tok = [] then r
      else r\<lparr>nm_fix := (nm_fix r)\<lparr>fix_flags := insert HAS_BEARING (fix_flags (nm_fix r)),
             fix_bearing := str2float tok\<rparr>\<rparr>)"

definition nmea_reader_update_speed :: "string \<Rightarrow> nmea_reader \<Rightarrow> nmea_reader" where
  "nmea_reader_update_speed tok r =
     (if tok = [] then r
      else r\<lparr>nm_fix := (nm_fix r)\<lparr>fix_flags := insert HAS_SPEED (fix_flags (nm_fix r)),
             fix_speed := str2float tok\<rparr>\<rparr>)"

definition nmea_reader_update_accuracy :: "nmea_reader \<Rightarrow> nmea_reader" where
  "nmea_reader_update_accuracy r =
     r\<lparr>nm_fix := (nm_fix r)\<lparr>fix_flags := insert HAS_ACCURACY (fix_flags (nm_fix r)), fix_accuracy := 20\<rparr>\<rparr>"

definition parse_gga :: "gps_env \<Rightarrow> string list \<Rightarrow> nmea_reader \<Rightarrow> nmea_reader" where
  "parse_gga env ts r =
     (let get = nmea_tokenizer_get ts;
          r = nmea_reader_update_time env (tok_text (get 1)) r;
          r = nmea_reader_update_latlong (tok_text (get 2)) (tok_first (get 3)) (tok_text (get 4)) (tok_first (get 5)) r
      in nmea_reader_update_altitude (tok_text (get 9)) r)"

definition parse_rmc :: "gps_env \<Rightarrow> string list \<Rightarrow> nmea_reader \<Rightarrow> nmea_reader" where
  "parse_rmc env ts r =
     (let get = nmea_tokenizer_get ts in
      if tok_first (get 2) = CHR ''A'' then
        let r = nmea_reader_update_date env (tok_text (get 9)) (tok_text (get 1)) r;
            r = nmea_reader_update_latlong (tok_text (get 3)) (tok_first (get 4)) (tok_text (get 5)) (tok_first (get 6)) r;
            r = nmea_reader_update_bearing (tok_text (get 8)) r
        in nmea_reader_update_speed (tok_text (get 7)) r
      else r)"

text \<open>\<open>nmea_reader_parse\<close>. The flags are never empty at the end, as the accuracy is always there.\<close>

definition nmea_reader_parse :: "gps_env \<Rightarrow> nmea_reader \<Rightarrow> nmea_reader" where
  "nmea_reader_parse env r =
     (if length (nm_in r) < 9 then r
      else
        let ts = nmea_tokenizer_init (nm_in r); t = tok_text (nmea_tokenizer_get ts 0) in
        if length t < 5 then r
        else
          let name = take 3 (drop 2 t);
              r = (if name = ''GGA'' then parse_gga env ts r
                   else if name = ''RMC'' then parse_rmc env ts r
                   else r);
              r = nmea_reader_update_accuracy r
          in if fix_flags (nm_fix r) \<noteq> {} \<and> nm_callback r then send_fix r else r)"

definition nmea_reader_addc :: "gps_env \<Rightarrow> char \<Rightarrow> nmea_reader \<Rightarrow> nmea_reader" where
  "nmea_reader_addc env c r =
     (if nm_overflow r then r\<lparr>nm_overflow := (c \<noteq> CHR 0x0A)\<rparr>
      else if length (nm_in r) \<ge> NMEA_MAX_SIZE then r\<lparr>nm_overflow := True, nm_in := []\<rparr>
      else
        let r = r\<lparr>nm_in := nm_in r @ [c]\<rparr> in
        if c = CHR 0x0A then (nmea_reader_parse env r)\<lparr>nm_in := []\<rparr> else r)"

section \<open>The thread\<close>

datatype gps_event = Cmd_Quit | Cmd_Start | Cmd_Stop | Gps_Data string

record gps_thread =
  gt_running :: bool
  gt_started :: bool
  gt_reader :: nmea_reader

definition gps_thread_init :: gps_thread where
  "gps_thread_init = \<lparr>gt_running = True, gt_started = False, gt_reader = nmea_reader_init\<rparr>"

definition gps_thread_event :: "gps_env \<Rightarrow> gps_event \<Rightarrow> gps_thread \<Rightarrow> gps_thread" where
  "gps_thread_event env e s =
     (if \<not> gt_running s then s
      else case e of
          Cmd_Quit \<Rightarrow> s\<lparr>gt_running := False\<rparr>
        | Cmd_Start \<Rightarrow>
            if gt_started s then s
            else s\<lparr>gt_started := True, gt_reader := nmea_reader_set_callback True (gt_reader s)\<rparr>
        | Cmd_Stop \<Rightarrow>
            if gt_started s then s\<lparr>gt_started := False, gt_reader := nmea_reader_set_callback False (gt_reader s)\<rparr>
            else s
        | Gps_Data data \<Rightarrow> s\<lparr>gt_reader := fold (nmea_reader_addc env) data (gt_reader s)\<rparr>)"

section \<open>Which sentences are parsed\<close>

abbreviation NL :: char where "NL \<equiv> CHR 0x0A"

lemma addc_room:
  "\<not> nm_overflow r \<Longrightarrow> NL \<notin> set line \<Longrightarrow> length (nm_in r) + length line \<le> NMEA_MAX_SIZE \<Longrightarrow>
     fold (nmea_reader_addc env) line r = r\<lparr>nm_in := nm_in r @ line\<rparr>"
  by (induction line arbitrary: r) (auto simp: nmea_reader_addc_def Let_def)

lemma addc_overflow:
  "nm_overflow r \<Longrightarrow> NL \<notin> set line \<Longrightarrow> fold (nmea_reader_addc env) line r = r"
proof (induction line arbitrary: r)
  case (Cons c line)
  then have "nmea_reader_addc env c r = r" by (cases r) (auto simp: nmea_reader_addc_def)
  with Cons show ?case by simp
qed simp

lemma addc_line:
  assumes "nm_in r = []" "\<not> nm_overflow r" "NL \<notin> set line"
  shows "fold (nmea_reader_addc env) (line @ [NL]) r =
    (if length line < NMEA_MAX_SIZE then (nmea_reader_parse env (r\<lparr>nm_in := line @ [NL]\<rparr>))\<lparr>nm_in := []\<rparr>
     else if length line = NMEA_MAX_SIZE then r\<lparr>nm_overflow := True\<rparr>
     else r)"
proof -
  consider "length line < NMEA_MAX_SIZE" | "length line = NMEA_MAX_SIZE" | "length line > NMEA_MAX_SIZE"
    by linarith
  then show ?thesis
  proof cases
    case 3
    define l1 where "l1 = take NMEA_MAX_SIZE line"
    obtain c l2 where l: "line = l1 @ c # l2" "length l1 = NMEA_MAX_SIZE"
      using 3 id_take_nth_drop [of NMEA_MAX_SIZE line] by (auto simp: l1_def)
    have "fold (nmea_reader_addc env) l1 r = r\<lparr>nm_in := l1\<rparr>"
      using addc_room [of r l1 env] assms l by simp
    moreover have "nmea_reader_addc env c (r\<lparr>nm_in := l1\<rparr>) = r\<lparr>nm_overflow := True\<rparr>"
      using assms l by (cases r) (simp add: nmea_reader_addc_def)
    moreover have "fold (nmea_reader_addc env) l2 (r\<lparr>nm_overflow := True\<rparr>) = r\<lparr>nm_overflow := True\<rparr>"
      using assms l by (intro addc_overflow) simp_all
    moreover have "nmea_reader_addc env NL (r\<lparr>nm_overflow := True\<rparr>) = r"
      using assms by (cases r) (simp add: nmea_reader_addc_def)
    ultimately show ?thesis using 3 l by simp
  next
    case 2
    with assms addc_room [of r line env] show ?thesis
      by (cases r) (simp add: nmea_reader_addc_def)
  next
    case 1
    with assms addc_room [of r line env] show ?thesis
      by (simp add: nmea_reader_addc_def)
  qed
qed

text \<open>
  A sentence of up to 82 characters before its line end is parsed; a longer one is dropped, and the next
  line is read from its start, unless it has exactly 83 characters: then the line end is taken for the
  character too many, and the next line is dropped as well.
\<close>
lemma nmea_line:
  assumes "nm_in r = []" "\<not> nm_overflow r" "NL \<notin> set line"
  shows "fold (nmea_reader_addc env) (line @ [NL]) r =
    (if length line < NMEA_MAX_SIZE then (nmea_reader_parse env (r\<lparr>nm_in := line @ [NL]\<rparr>))\<lparr>nm_in := []\<rparr>
     else if length line = NMEA_MAX_SIZE then r\<lparr>nm_overflow := True\<rparr>
     else r)"
  by (rule addc_line [OF assms])

lemma nmea_line_witness:
  "\<forall>env. fold (nmea_reader_addc env) (replicate 83 CHR ''x'' @ [NL]) nmea_reader_init =
     nmea_reader_init\<lparr>nm_overflow := True\<rparr>"
  using nmea_line [of nmea_reader_init "replicate 83 CHR ''x''"]
  by (simp add: nmea_reader_init_def NMEA_MAX_SIZE_def)

section \<open>How sentences are split\<close>

fun join_commas :: "string list \<Rightarrow> string" where
  "join_commas [] = []"
| "join_commas [t] = t"
| "join_commas (t # ts) = t @ CHR '','' # join_commas ts"

lemma takeWhile_no_comma: "CHR '','' \<notin> set t \<Longrightarrow> takeWhile (\<lambda>c. c \<noteq> CHR '','') t = t"
  by (induction t) auto

lemma nmea_split_last: "CHR '','' \<notin> set t \<Longrightarrow> nmea_split t = (if t = [] then [] else [t])"
  by (subst nmea_split.simps) (simp add: nmea_split.simps [of "[]"] takeWhile_no_comma Let_def)

lemma takeWhile_comma:
  "CHR '','' \<notin> set t \<Longrightarrow> takeWhile (\<lambda>c. c \<noteq> CHR '','') (t @ CHR '','' # s) = t"
  by (induction t) auto

lemma nmea_split_comma: "CHR '','' \<notin> set t \<Longrightarrow> nmea_split (t @ CHR '','' # s) = t # nmea_split s"
  by (subst nmea_split.simps) (simp add: takeWhile_comma Let_def)

lemma nmea_split_join:
  "ts \<noteq> [] \<Longrightarrow> last ts \<noteq> [] \<Longrightarrow> list_all (\<lambda>t. CHR '','' \<notin> set t) ts \<Longrightarrow> nmea_split (join_commas ts) = ts"
proof (induction ts rule: join_commas.induct)
  case (3 t u ts)
  then show ?case by (simp add: nmea_split_comma del: join_commas.simps(3)) (simp add: nmea_split_comma)
qed (simp_all add: nmea_split_last)

lemma nmea_sentence_tokens':
  assumes "ts \<noteq> []" "last ts \<noteq> []" "length ts \<le> MAX_NMEA_TOKENS" "list_all (\<lambda>t. CHR '','' \<notin> set t) ts"
    and "length checksum = 2"
  shows "nmea_tokenizer_init (CHR ''$'' # join_commas ts @ CHR ''*'' # checksum @ [CHR 0x0D, CHR 0x0A]) = ts"
proof -
  let ?s = "join_commas ts @ CHR ''*'' # checksum"
  have "strip_newline (?s @ [CHR 0x0D, CHR 0x0A]) = ?s"
    by (simp add: strip_newline_def butlast_append)
  moreover have "strip_checksum ?s = join_commas ts"
    using assms(5) by (simp add: strip_checksum_def nth_append)
  moreover have "nmea_split (join_commas ts) = ts"
    using assms by (intro nmea_split_join) simp_all
  ultimately show ?thesis
    using assms(3) by (simp add: nmea_tokenizer_init_def)
qed

text \<open>
  C0. A sentence made of up to 16 tokens without commas, the last not empty, and a checksum of two characters is
  split into exactly these tokens, empty ones included.
\<close>
theorem nmea_sentence_tokens:
  assumes "ts \<noteq> []" "last ts \<noteq> []" "length ts \<le> MAX_NMEA_TOKENS" "list_all (\<lambda>t. CHR '','' \<notin> set t) ts"
    and "length checksum = 2"
  shows "nmea_tokenizer_init (CHR ''$'' # join_commas ts @ CHR ''*'' # checksum @ [CHR 0x0D, CHR 0x0A]) = ts"
  by (rule nmea_sentence_tokens' [OF assms])

lemma nmea_sentence_tokens_witness:
  "nmea_tokenizer_init (CHR ''$'' # join_commas [''GPGGA'', '''', ''M''] @ CHR ''*'' # ''47'' @ [CHR 0x0D, CHR 0x0A]) =
     [''GPGGA'', '''', ''M'']"
  by (rule nmea_sentence_tokens) (simp_all add: MAX_NMEA_TOKENS_def)

section \<open>Positions\<close>

text \<open>Degrees and minutes: 4807.038 is 48 degrees and 7.038 minutes.\<close>

lemma convert_degrees_minutes:
  assumes "str2float tok = of_nat (100 * d) + m" "0 \<le> m" "m < 100"
  shows "convert_from_hhmm tok = of_nat d + m / 60"
proof -
  have "str2float tok = of_int (100 * int d) + m" using assms(1) by simp
  then have f: "\<lfloor>str2float tok\<rfloor> = 100 * int d + \<lfloor>m\<rfloor>"
    by (simp only: int_add_floor)
  have m: "0 \<le> \<lfloor>m\<rfloor>" "\<lfloor>m\<rfloor> < 100"
    using assms(2,3) by (simp_all add: floor_less_iff)
  have "\<lfloor>(of_int (100 * int d + \<lfloor>m\<rfloor>) :: rat) / 100\<rfloor> = (100 * int d + \<lfloor>m\<rfloor>) div 100"
    using floor_divide_of_int_eq [of "100 * int d + \<lfloor>m\<rfloor>" 100] by simp
  also have "\<dots> = int d" using m by simp
  finally have "\<lfloor>(of_int \<lfloor>str2float tok\<rfloor> :: rat) / 100\<rfloor> = int d"
    by (simp only: f)
  moreover have "0 \<le> \<lfloor>str2float tok\<rfloor>" using f m(1) by simp
  ultimately have "int_of_double (of_int \<lfloor>str2float tok\<rfloor> / 100) = int d"
    by (simp add: int_of_double_def)
  with assms(1) show ?thesis
    by (simp add: convert_from_hhmm_def Let_def)
qed

lemma update_time_fields [simp]:
  "nm_sent (nmea_reader_update_time env tok r) = nm_sent r"
  "nm_callback (nmea_reader_update_time env tok r) = nm_callback r"
  "nm_overflow (nmea_reader_update_time env tok r) = nm_overflow r"
  "fix_flags (nm_fix (nmea_reader_update_time env tok r)) = fix_flags (nm_fix r)"
  "nm_in (nmea_reader_update_time env tok r) = nm_in r"
  by (simp_all add: nmea_reader_update_time_def Let_def split: prod.splits)

lemma update_date_fields [simp]:
  "nm_sent (nmea_reader_update_date env tok t r) = nm_sent r"
  "nm_callback (nmea_reader_update_date env tok t r) = nm_callback r"
  "nm_overflow (nmea_reader_update_date env tok t r) = nm_overflow r"
  "nm_in (nmea_reader_update_date env tok t r) = nm_in r"
  by (simp_all add: nmea_reader_update_date_def Let_def)

lemma update_latlong_fields [simp]:
  "nm_sent (nmea_reader_update_latlong a b c d r) = nm_sent r"
  "nm_callback (nmea_reader_update_latlong a b c d r) = nm_callback r"
  "nm_overflow (nmea_reader_update_latlong a b c d r) = nm_overflow r"
  "nm_in (nmea_reader_update_latlong a b c d r) = nm_in r"
  by (simp_all add: nmea_reader_update_latlong_def Let_def)

lemma update_single_fields [simp]:
  "nm_sent (nmea_reader_update_altitude t r) = nm_sent r"
  "nm_callback (nmea_reader_update_altitude t r) = nm_callback r"
  "nm_overflow (nmea_reader_update_altitude t r) = nm_overflow r"
  "nm_in (nmea_reader_update_altitude t r) = nm_in r"
  "nm_sent (nmea_reader_update_bearing t r) = nm_sent r"
  "nm_callback (nmea_reader_update_bearing t r) = nm_callback r"
  "nm_overflow (nmea_reader_update_bearing t r) = nm_overflow r"
  "nm_in (nmea_reader_update_bearing t r) = nm_in r"
  "nm_sent (nmea_reader_update_speed t r) = nm_sent r"
  "nm_callback (nmea_reader_update_speed t r) = nm_callback r"
  "nm_overflow (nmea_reader_update_speed t r) = nm_overflow r"
  "nm_in (nmea_reader_update_speed t r) = nm_in r"
  "nm_sent (nmea_reader_update_accuracy r) = nm_sent r"
  "nm_callback (nmea_reader_update_accuracy r) = nm_callback r"
  "nm_overflow (nmea_reader_update_accuracy r) = nm_overflow r"
  "nm_in (nmea_reader_update_accuracy r) = nm_in r"
  "fix_flags (nm_fix (nmea_reader_update_accuracy r)) \<noteq> {}"
  by (simp_all add: nmea_reader_update_altitude_def nmea_reader_update_bearing_def nmea_reader_update_speed_def
      nmea_reader_update_accuracy_def)

lemma parse_sentence_fields [simp]:
  "nm_sent (parse_gga env ts r) = nm_sent r" "nm_callback (parse_gga env ts r) = nm_callback r"
  "nm_overflow (parse_gga env ts r) = nm_overflow r" "nm_in (parse_gga env ts r) = nm_in r"
  "nm_sent (parse_rmc env ts r) = nm_sent r" "nm_callback (parse_rmc env ts r) = nm_callback r"
  "nm_overflow (parse_rmc env ts r) = nm_overflow r" "nm_in (parse_rmc env ts r) = nm_in r"
  by (simp_all add: parse_gga_def parse_rmc_def Let_def)

text \<open>What every sentence that is not too short leads to.\<close>

lemma nmea_parse_sends:
  assumes "9 \<le> length (nm_in r)" "nm_callback r" "nmea_tokenizer_init (nm_in r) = ts" "ts \<noteq> []" "5 \<le> length (hd ts)"
  shows "nmea_reader_parse env r = send_fix (nmea_reader_update_accuracy
    (if take 3 (drop 2 (hd ts)) = ''GGA'' then parse_gga env ts r
     else if take 3 (drop 2 (hd ts)) = ''RMC'' then parse_rmc env ts r else r))"
  using assms by (cases ts) (simp_all add: nmea_reader_parse_def Let_def nmea_tokenizer_get_def tok_text_def)

lemma gga_latlong:
  assumes "5 < length ts" "6 \<le> length (ts ! 2)" "6 \<le> length (ts ! 4)" "ts ! 3 \<noteq> []" "ts ! 5 \<noteq> []"
  shows "HAS_LAT_LONG \<in> fix_flags (nm_fix (parse_gga env ts r))"
    "fix_latitude (nm_fix (parse_gga env ts r)) =
      (if hd (ts ! 3) = CHR ''S'' then - convert_from_hhmm (ts ! 2) else convert_from_hhmm (ts ! 2))"
    "fix_longitude (nm_fix (parse_gga env ts r)) =
      (if hd (ts ! 5) = CHR ''W'' then - convert_from_hhmm (ts ! 4) else convert_from_hhmm (ts ! 4))"
proof -
  have first: "tok_first (nmea_tokenizer_get ts i) = hd (ts ! i)" "tok_text (nmea_tokenizer_get ts i) = ts ! i"
    if "i < length ts" "ts ! i \<noteq> []" for i
    using that by (auto simp: nmea_tokenizer_get_def tok_first_def tok_text_def split: list.splits)
  have ne: "ts ! 2 \<noteq> []" "ts ! 4 \<noteq> []" using assms by auto
  show "HAS_LAT_LONG \<in> fix_flags (nm_fix (parse_gga env ts r))"
    "fix_latitude (nm_fix (parse_gga env ts r)) =
      (if hd (ts ! 3) = CHR ''S'' then - convert_from_hhmm (ts ! 2) else convert_from_hhmm (ts ! 2))"
    "fix_longitude (nm_fix (parse_gga env ts r)) =
      (if hd (ts ! 5) = CHR ''W'' then - convert_from_hhmm (ts ! 4) else convert_from_hhmm (ts ! 4))"
    using assms ne by (simp_all add: parse_gga_def Let_def first nmea_reader_update_latlong_def
        nmea_reader_update_altitude_def)
qed

text \<open>
  While somebody listens, a GGA sentence of at most 83 characters whose latitude and longitude have at least six
  characters sends exactly one fix, with that position, negative in the south and in the west, with the degrees
  and the minutes put together.
\<close>
lemma gga_sends_position:
  assumes "nm_in r = []" "\<not> nm_overflow r" "nm_callback r"
    and "ts \<noteq> []" "last ts \<noteq> []" "length ts \<le> MAX_NMEA_TOKENS" "list_all (\<lambda>t. CHR '','' \<notin> set t \<and> NL \<notin> set t) ts"
    and "length checksum = 2" "NL \<notin> set checksum" "length (join_commas ts) + 6 \<le> NMEA_MAX_SIZE"
    and "5 < length ts" "take 3 (drop 2 (hd ts)) = ''GGA''"
    and "6 \<le> length (ts ! 2)" "6 \<le> length (ts ! 4)" "ts ! 3 \<noteq> []" "ts ! 5 \<noteq> []"
    and "str2float (ts ! 2) = of_nat (100 * d) + m" "0 \<le> m" "m < 100"
    and "str2float (ts ! 4) = of_nat (100 * d') + m'" "0 \<le> m'" "m' < 100"
  shows "case fold (nmea_reader_addc env) (CHR ''$'' # join_commas ts @ CHR ''*'' # checksum @ [CHR 0x0D, CHR 0x0A]) r of
    r' \<Rightarrow> (\<exists>fx. nm_sent r' = nm_sent r @ [fx] \<and> HAS_LAT_LONG \<in> fix_flags fx \<and>
      fix_latitude fx = (if hd (ts ! 3) = CHR ''S'' then - (of_nat d + m / 60) else of_nat d + m / 60) \<and>
      fix_longitude fx = (if hd (ts ! 5) = CHR ''W'' then - (of_nat d' + m' / 60) else of_nat d' + m' / 60))"
proof -
  let ?l = "CHR ''$'' # join_commas ts @ CHR ''*'' # checksum @ [CHR 0x0D]"
  let ?r = "r\<lparr>nm_in := ?l @ [NL]\<rparr>"
  have no_nl: "NL \<notin> set (join_commas ts)" if "list_all (\<lambda>t. CHR '','' \<notin> set t \<and> NL \<notin> set t) ts" for ts
    using that by (induction ts rule: join_commas.induct) auto
  have tokens: "nmea_tokenizer_init (nm_in ?r) = ts"
    using nmea_sentence_tokens' [of ts checksum] assms(4-8) by (simp add: list_all_iff)
  have "length (hd ts) \<ge> 5" using arg_cong [OF assms(12), of length] by simp
  moreover have "length (join_commas ts) \<ge> 5"
    using \<open>length (hd ts) \<ge> 5\<close> assms(4) by (cases ts rule: join_commas.cases) auto
  ultimately have parse: "nmea_reader_parse env ?r = send_fix (nmea_reader_update_accuracy (parse_gga env ts ?r))"
    using nmea_parse_sends [OF _ _ tokens, of env] assms(3,4,8,12) by simp
  have "length ?l < NMEA_MAX_SIZE" "NL \<notin> set ?l"
    using assms(8-10) no_nl [OF assms(7)] by simp_all
  then have "fold (nmea_reader_addc env) (?l @ [NL]) r = (nmea_reader_parse env ?r)\<lparr>nm_in := []\<rparr>"
    using addc_line [OF assms(1,2), of ?l env] by simp
  with parse gga_latlong [OF assms(11,13-16), of env ?r]
    convert_degrees_minutes [OF assms(17-19)] convert_degrees_minutes [OF assms(20-22)]
  show ?thesis
    by (simp add: send_fix_def nmea_reader_update_accuracy_def)
qed

definition gga_tokens :: "string list" where
  "gga_tokens = [''GPGGA'', ''123519'', ''4807.038'', ''N'', ''01131.000'', ''E'', ''1'', ''08'', ''0.9'', ''545.4'', ''M'']"

lemma gga_sends_position_witness:
  "\<forall>env. case fold (nmea_reader_addc env) (CHR ''$'' # join_commas gga_tokens @ CHR ''*'' # ''47'' @ [CHR 0x0D, CHR 0x0A])
      (nmea_reader_set_callback True nmea_reader_init) of
    r' \<Rightarrow> (\<exists>fx. nm_sent r' = [fx] \<and> HAS_LAT_LONG \<in> fix_flags fx \<and>
      fix_latitude fx = 48 + 7038 / 1000 / 60 \<and> fix_longitude fx = 11 + 31 / 60)"
proof -
  let ?r = "nmea_reader_set_callback True nmea_reader_init"
  have r: "nm_in ?r = []" "\<not> nm_overflow ?r" "nm_callback ?r" "nm_sent ?r = []"
    by (simp_all add: nmea_reader_set_callback_def nmea_reader_init_def)
  have "str2float ''4807.038'' = of_nat (100 * 48) + 7038 / 1000" "str2float ''01131.000'' = of_nat (100 * 11) + 31"
    by (simp_all add: str2float_def strtod_def strtod_sign_def is_space_def digits_of_def digit_def decimal_def
        str2int_def strtod_exponent_def Let_def)
  moreover have "gga_tokens ! 2 = ''4807.038''" "gga_tokens ! 3 = ''N''" "gga_tokens ! 4 = ''01131.000''"
    "gga_tokens ! 5 = ''E''" "take 3 (drop 2 (hd gga_tokens)) = ''GGA''" "5 < length gga_tokens"
    "gga_tokens \<noteq> []" "last gga_tokens \<noteq> []" "length gga_tokens \<le> MAX_NMEA_TOKENS"
    "list_all (\<lambda>t. CHR '','' \<notin> set t \<and> NL \<notin> set t) gga_tokens"
    "length (join_commas gga_tokens) + 6 \<le> NMEA_MAX_SIZE"
    by (simp_all add: gga_tokens_def MAX_NMEA_TOKENS_def NMEA_MAX_SIZE_def)
  ultimately show ?thesis
    using gga_sends_position [OF r(1-3), of gga_tokens "''47''" 48 "7038 / 1000" 11 31] r(4) by simp
qed

section \<open>Nothing is withheld\<close>

definition gps_inv :: "gps_thread \<Rightarrow> bool" where
  "gps_inv s \<longleftrightarrow>
     nm_callback (gt_reader s) = gt_started s \<and>
     (gt_started s \<longrightarrow> fix_flags (nm_fix (gt_reader s)) = {}) \<and>
     length (nm_in (gt_reader s)) \<le> NMEA_MAX_SIZE"

lemma send_fix_fields [simp]:
  "fix_flags (nm_fix (send_fix r)) = {}" "nm_callback (send_fix r) = nm_callback r" "nm_in (send_fix r) = nm_in r"
  by (simp_all add: send_fix_def)

lemma nmea_parse_callback [simp]: "nm_callback (nmea_reader_parse env r) = nm_callback r"
  by (simp add: nmea_reader_parse_def Let_def)

lemma nmea_parse_flags:
  "nm_callback r \<Longrightarrow> fix_flags (nm_fix r) = {} \<Longrightarrow> fix_flags (nm_fix (nmea_reader_parse env r)) = {}"
  by (simp add: nmea_reader_parse_def Let_def)

lemma addc_inv:
  assumes "nm_callback r \<longrightarrow> fix_flags (nm_fix r) = {}" "length (nm_in r) \<le> NMEA_MAX_SIZE"
  shows "nm_callback (nmea_reader_addc env c r) = nm_callback r \<and>
    (nm_callback r \<longrightarrow> fix_flags (nm_fix (nmea_reader_addc env c r)) = {}) \<and>
    length (nm_in (nmea_reader_addc env c r)) \<le> NMEA_MAX_SIZE"
  using assms by (auto simp: nmea_reader_addc_def Let_def nmea_parse_flags)

lemma fold_addc_inv:
  assumes "nm_callback r \<longrightarrow> fix_flags (nm_fix r) = {}" "length (nm_in r) \<le> NMEA_MAX_SIZE"
  shows "nm_callback (fold (nmea_reader_addc env) data r) = nm_callback r \<and>
    (nm_callback r \<longrightarrow> fix_flags (nm_fix (fold (nmea_reader_addc env) data r)) = {}) \<and>
    length (nm_in (fold (nmea_reader_addc env) data r)) \<le> NMEA_MAX_SIZE"
  using assms
proof (induction data arbitrary: r)
  case (Cons c data)
  with addc_inv [OF Cons.prems, of env c] Cons.IH [of "nmea_reader_addc env c r"] show ?case by simp
qed simp

lemma gps_inv_event: "gps_inv s \<Longrightarrow> gps_inv (gps_thread_event env e s)"
proof (cases e)
  case (Gps_Data data)
  assume "gps_inv s"
  with Gps_Data fold_addc_inv [of "gt_reader s" env data] show ?thesis
    by (auto simp: gps_inv_def gps_thread_event_def)
qed (auto simp: gps_inv_def gps_thread_event_def nmea_reader_set_callback_def Let_def)

text \<open>
  Whatever commands and data the thread gets: a callback is set exactly while it is started, no fix is kept back
  then, and the sentence in the buffer never exceeds its 83 characters.
\<close>
lemma gps_thread_keeps:
  "gps_inv (fold (gps_thread_event env) es gps_thread_init)"
proof -
  have "gps_inv s \<Longrightarrow> gps_inv (fold (gps_thread_event env) es s)" for s
    by (induction es arbitrary: s) (simp_all add: gps_inv_event)
  then show ?thesis
    by (simp add: gps_inv_def gps_thread_init_def nmea_reader_init_def)
qed

text \<open>A date with letters for the year is taken, as 1999.\<close>

lemma malformed_year_accepted:
  "nm_year (nmea_reader_update_date env ''0101xx'' '''' nmea_reader_init) = 1999"
  by (simp add: nmea_reader_update_date_def nmea_reader_update_time_def str2int_def digit_def)

text \<open>An unknown sentence sends a fix with nothing but the accuracy.\<close>

lemma unknown_sentence_sends:
  "map fix_flags (nm_sent (nmea_reader_parse env
     ((nmea_reader_set_callback True nmea_reader_init)\<lparr>nm_in := ''$GPGSV,1,1,00''\<rparr>))) = [{HAS_ACCURACY}]"
proof -
  have "nmea_tokenizer_init ''$GPGSV,1,1,00'' = [''GPGSV'', ''1'', ''1'', ''00'']" by code_simp
  then show ?thesis
    by (subst nmea_parse_sends [OF _ _ refl])
      (simp_all add: nmea_reader_set_callback_def nmea_reader_init_def send_fix_def nmea_reader_update_accuracy_def)
qed

end
