(* ===== verification/Container.thy ===== *)
theory Container
  imports BinaryWriter
begin

text \<open>
  The container of Android and its manager: \<open>src/anbox/container/lxc_container.cpp\<close> with the requests of
  \<open>management_api_skeleton.cpp\<close>. The build without snap confinement and with liblxc 3 is modelled. What
  liblxc, the file system, binderfs and Boost answer is given by a record \<open>host\<close>; liblxc's handle is the list of
  the items set on it. Unordered maps are association lists in any order.

  Shown here: which device a new node stands for, how user ids are mapped, what address Android gets, and in
  which states the container and its manager can be.
\<close>

section \<open>State\<close>

datatype cstate = Inactive | Running

record dev_spec =
  ds_permission :: u32
  ds_old_name :: string

record configuration =
  cf_bind_mounts :: "(string \<times> string) list"
  cf_devices :: "(string \<times> dev_spec) list"
  cf_extra_properties :: "string list"

record dev_stat =
  sb_mode :: u32
  sb_rdev :: u64
  sb_uid :: u32
  sb_gid :: u32

record dev_node =
  dn_path :: string
  dn_mode :: u32
  dn_number :: u32
  dn_uid :: u32
  dn_gid :: u32

record settings =
  st_privileged :: bool
  st_overlay :: bool
  st_address :: string
  st_gateway :: string
  st_dns_servers :: "string list"
  st_uid :: u32
  st_gid :: u32

record host =
  h_root :: bool
  h_rootfs_dir :: string
  h_combined_rootfs_dir :: string
  h_log_dir :: string
  h_devices_dir :: string
  h_state_dir :: string
  h_bridge :: bool
  h_ipconf_writable :: bool
  h_is_directory :: "string \<Rightarrow> bool"
  h_stat :: "string \<Rightarrow> dev_stat option"
  h_basename :: "string \<Rightarrow> string"
  h_split :: "string \<Rightarrow> char \<Rightarrow> string list"
  h_binderfs :: bool
  h_new_binder :: "string option"
  h_default_prop :: "string option"
  h_props_writable :: bool
  h_new_ok :: bool
  h_item_ok :: "string \<Rightarrow> string \<Rightarrow> bool"
  h_mknod_ok :: "string \<Rightarrow> bool"
  h_chown_ok :: "string \<Rightarrow> bool"
  h_chmod_ok :: "string \<Rightarrow> bool"
  h_save_ok :: bool
  h_start_ok :: bool
  h_stop_ok :: bool

text \<open>
  \<open>lx_handle\<close>: \<open>container_\<close> is set. \<open>lx_running\<close> is what \<open>is_running\<close> answers: the container of liblxc, which may
  also end by itself.
\<close>

record lxc =
  lx_state :: cstate
  lx_handle :: bool
  lx_items :: "(string \<times> string) list"
  lx_running :: bool
  lx_nodes :: "dev_node list"
  lx_ipconf :: "byte list option"
  lx_default_prop :: "string list option"
  lx_binders :: "string list"

definition lxc_new :: "bool \<Rightarrow> lxc" where
  "lxc_new left_over =
     \<lparr>lx_state = Inactive, lx_handle = False, lx_items = [], lx_running = left_over, lx_nodes = [],
      lx_ipconf = None, lx_default_prop = None, lx_binders = []\<rparr>"

section \<open>Actions that may throw\<close>

type_synonym action = "lxc \<Rightarrow> fault option \<times> lxc"

definition skip :: action where "skip c = (None, c)"

definition throw :: "string \<Rightarrow> action" where "throw msg c = (Some (Runtime_Error msg), c)"

definition effect :: "(lxc \<Rightarrow> lxc) \<Rightarrow> action" where "effect f c = (None, f c)"

fun run_all :: "action list \<Rightarrow> action" where
  "run_all [] c = (None, c)"
| "run_all (a # as) c = (case a c of (Some e, c') \<Rightarrow> (Some e, c') | (None, c') \<Rightarrow> run_all as c')"

definition set_config_item :: "host \<Rightarrow> string \<Rightarrow> string \<Rightarrow> action" where
  "set_config_item h key value c =
     (if h_item_ok h key value then (None, c\<lparr>lx_items := lx_items c @ [(key, value)]\<rparr>)
      else (Some (Runtime_Error (''Failed to set config item '' @ key)), c))"

section \<open>User ids\<close>

definition unprivileged_uid :: nat where "unprivileged_uid = 100000"
definition android_system_uid :: nat where "android_system_uid = 1000"

text \<open>First id inside, first id outside, how many; the last is an unsigned subtraction, printed as unsigned.\<close>

definition id_map :: "u32 \<Rightarrow> (nat \<times> nat \<times> nat) list" where
  "id_map uid =
     [(0, unprivileged_uid, android_system_uid - 1),
      (android_system_uid, unat uid, 1),
      (android_system_uid + 1, unprivileged_uid + android_system_uid + 1, unat (100000 - uid - 1 :: u32))]"

definition show_id_entry :: "char \<Rightarrow> nat \<times> nat \<times> nat \<Rightarrow> string" where
  "show_id_entry kind e =
     (case e of (inside, outside, n) \<Rightarrow>
        kind # '' '' @ show_nat inside @ '' '' @ show_nat outside @ '' '' @ show_nat n)"

definition setup_id_map :: "host \<Rightarrow> settings \<Rightarrow> action" where
  "setup_id_map h s =
     run_all (concat (map (\<lambda>(u, g). [set_config_item h ''lxc.idmap'' (show_id_entry (CHR ''u'') u),
                                      set_config_item h ''lxc.idmap'' (show_id_entry (CHR ''g'') g)])
                       (zip (id_map (st_uid s)) (id_map (st_gid s)))))"

section \<open>The network\<close>

definition atoi :: "string \<Rightarrow> nat" where
  "atoi s = foldl (\<lambda>n c. n * 10 + (of_char c - 48)) 0
     (takeWhile (\<lambda>c. 48 \<le> (of_char c :: nat) \<and> (of_char c :: nat) \<le> 57) s)"

definition container_ip_config :: "host \<Rightarrow> settings \<Rightarrow> ip_config" where
  "container_ip_config h s =
     (let tokens = h_split h (st_address s) (CHR ''/'');
          given = st_address s \<noteq> [];
          address = (if given \<and> (length tokens = 1 \<or> length tokens = 2) then hd tokens else ''192.168.250.2'');
          prefix_len = (if given \<and> length tokens = 2 then word_of_nat (atoi (tokens ! 1)) else 24)
      in \<lparr>ip_version = Version2, ip_assignment = Static, ip_link_address = address, ip_prefix_length = prefix_len,
          ip_gateway = (if st_gateway s \<noteq> [] then st_gateway s else ''192.168.250.1''),
          ip_dns_servers = (if st_dns_servers s \<noteq> [] then st_dns_servers s else [''8.8.8.8'']), ip_id = 0\<rparr>)"

text \<open>The file is written through a buffer of 512 bytes; owners of directories are left out.\<close>

definition write_ip_config :: "host \<Rightarrow> settings \<Rightarrow> action" where
  "write_ip_config h s c =
     (case ip_config_write (container_ip_config h s) (binary_writer_new (replicate 512 0)) of
        (Some e, _) \<Rightarrow> (Some e, c)
      | (None, w) \<Rightarrow>
          (None, c\<lparr>lx_ipconf := (if h_ipconf_writable h then Some (take (bytes_written w) (bw_window w)) else None)\<rparr>))"

definition setup_network :: "host \<Rightarrow> settings \<Rightarrow> action" where
  "setup_network h s =
     (if \<not> h_bridge h then skip
      else run_all [set_config_item h ''lxc.net.0.type'' ''veth'', set_config_item h ''lxc.net.0.flags'' ''up'',
                    set_config_item h ''lxc.net.0.link'' ''anbox0'', write_ip_config h s])"

section \<open>Devices\<close>

definition device_major :: "u64 \<Rightarrow> u32" where
  "device_major dev = ucast ((drop_bit 8 dev AND 0xfff) OR (drop_bit 32 dev AND 0xfffff000))"

definition device_minor :: "u64 \<Rightarrow> u32" where
  "device_minor dev = ucast ((dev AND 0xff) OR (drop_bit 12 dev AND 0xffffff00))"

text \<open>\<open>!0xff\<close> is 0, not the complement.\<close>

definition encoded_device_number :: "u32 \<Rightarrow> u32 \<Rightarrow> u32" where
  "encoded_device_number major minor =
     (minor AND 0xff) OR push_bit 8 major OR push_bit 12 (minor AND 0)"

definition device_mode :: "u32 \<Rightarrow> u32 \<Rightarrow> u32" where
  "device_mode st_mode permission = push_bit 9 (drop_bit 9 st_mode) OR (permission AND NOT (push_bit 9 1))"

text \<open>The failure of a later call leaves the node.\<close>

definition add_device :: "host \<Rightarrow> settings \<Rightarrow> string \<times> dev_spec \<Rightarrow> action" where
  "add_device h s d c =
     (case d of (device, spec) \<Rightarrow>
        let old = (if ds_old_name spec \<noteq> [] then ds_old_name spec else device) in
        case h_stat h old of
          None \<Rightarrow> (Some (Runtime_Error (''Failed to retrieve information about device '' @ device)), c)
        | Some st \<Rightarrow>
            let mode = device_mode (sb_mode st) (ds_permission spec);
                path = h_devices_dir h @ ''/'' @ h_basename h device;
                number = encoded_device_number (device_major (sb_rdev st)) (device_minor (sb_rdev st));
                node = \<lparr>dn_path = path, dn_mode = mode, dn_number = number, dn_uid = 0, dn_gid = 0\<rparr>;
                base = (if st_privileged s then 0 else word_of_nat unprivileged_uid);
                target = (if prefix ''/'' device then tl device else device)
            in if \<not> h_mknod_ok h path \<or> path \<in> dn_path ` set (lx_nodes c)
               then (Some (Runtime_Error (''Failed to create node for device '' @ device)), c)
               else if \<not> h_chown_ok h path
               then (Some (Runtime_Error (''Failed to change ownership of new node for '' @ device)),
                     c\<lparr>lx_nodes := lx_nodes c @ [node]\<rparr>)
               else
                 let node = node\<lparr>dn_uid := base + sb_uid st, dn_gid := base + sb_gid st\<rparr>;
                     c = c\<lparr>lx_nodes := lx_nodes c @ [node]\<rparr>
                 in if \<not> h_chmod_ok h path
                    then (Some (Runtime_Error (''Failed to change mode of new node for '' @ device)), c)
                    else set_config_item h ''lxc.mount.entry''
                           (path @ '' '' @ target @ '' none bind,create=file,optional 0 0'') c)"

section \<open>Start and stop\<close>

text \<open>\<open>insert\<close> on an unordered map keeps the value of a key that is there.\<close>

definition um_insert :: "'k \<Rightarrow> 'v \<Rightarrow> ('k \<times> 'v) list \<Rightarrow> ('k \<times> 'v) list" where
  "um_insert k v m = (case map_of m k of None \<Rightarrow> m @ [(k, v)] | Some _ \<Rightarrow> m)"

definition perm :: "u32 \<Rightarrow> dev_spec" where
  "perm p = \<lparr>ds_permission = p, ds_old_name = []\<rparr>"

text \<open>Octal permissions.\<close>

abbreviation rw_all :: u32 where "rw_all \<equiv> 438"  \<comment> \<open>0666\<close>
abbreviation rw_owner :: u32 where "rw_owner \<equiv> 384"  \<comment> \<open>0600\<close>
abbreviation rw_group :: u32 where "rw_group \<equiv> 432"  \<comment> \<open>0660\<close>

definition standard_devices :: "(string \<times> dev_spec) list" where
  "standard_devices =
     [(''/dev/console'', perm rw_owner), (''/dev/full'', perm rw_all), (''/dev/null'', perm rw_all),
      (''/dev/random'', perm rw_all), (''/dev/tty'', perm rw_all), (''/dev/urandom'', perm rw_all),
      (''/dev/zero'', perm rw_all),
      (''/dev/tun'', \<lparr>ds_permission = rw_group, ds_old_name = ''/dev/net/tun''\<rparr>), (''/dev/ashmem'', perm rw_all)]"

definition all_devices :: "host \<Rightarrow> configuration \<Rightarrow> (string \<times> dev_spec) list" where
  "all_devices h cfg =
     fold (\<lambda>(k, v). um_insert k v)
       ((if h_binderfs h then [] else [(''/dev/binder'', perm rw_all)]) @ standard_devices) (cf_devices cfg)"

definition rootfs_path :: "host \<Rightarrow> settings \<Rightarrow> string" where
  "rootfs_path h s = (if st_overlay s then h_combined_rootfs_dir h else h_rootfs_dir h)"

definition add_bind_mount :: "host \<Rightarrow> settings \<Rightarrow> string \<times> string \<Rightarrow> action" where
  "add_bind_mount h s m =
     (case m of (src, target) \<Rightarrow>
        let create_type = (if h_is_directory h src then ''dir'' else ''file'');
            target = (if prefix ''/'' target then target else ''/'' @ target)
        in set_config_item h ''lxc.mount.entry''
             (src @ '' '' @ rootfs_path h s @ target @ '' none bind,create='' @ create_type @ '',optional 0 0''))"

definition setup_binders :: "host \<Rightarrow> settings \<Rightarrow> configuration \<Rightarrow> action" where
  "setup_binders h s cfg =
     (if h_binderfs h then
        (case h_new_binder h of
           None \<Rightarrow> throw ''Failed to allocate necessary binder devices''
         | Some path \<Rightarrow>
             run_all (effect (\<lambda>c. c\<lparr>lx_binders := [path]\<rparr>) #
               map (add_bind_mount h s) (um_insert path ''/dev/binder'' (cf_bind_mounts cfg))))
      else run_all (map (add_bind_mount h s) (cf_bind_mounts cfg)))"

definition setup_properties :: "host \<Rightarrow> settings \<Rightarrow> configuration \<Rightarrow> action" where
  "setup_properties h s cfg =
     (if cf_extra_properties cfg = [] then skip
      else case h_default_prop h of
          None \<Rightarrow> throw ''File does not exist''
        | Some old \<Rightarrow>
            if \<not> h_props_writable h then throw ''Failed to open new default properties file''
            else run_all [
              effect (\<lambda>c. c\<lparr>lx_default_prop :=
                Some ([''# Properties added by Anbox''] @ cf_extra_properties cfg @ ['''', old])\<rparr>),
              set_config_item h ''lxc.mount.entry'' (h_state_dir h @ ''/default.prop '' @ rootfs_path h s @
                ''/default.prop none bind,optional,ro 0 0'')])"

definition ensure_handle :: "host \<Rightarrow> action" where
  "ensure_handle h c =
     (let c = (if lx_handle c \<and> lx_running c then c\<lparr>lx_running := \<not> h_stop_ok h\<rparr> else c) in
      if lx_handle c then (None, c)
      else if \<not> h_new_ok h then (Some (Runtime_Error ''Failed to create LXC container instance''), c)
      else (None, c\<lparr>lx_handle := True, lx_items := [],
              lx_running := (if lx_running c then \<not> h_stop_ok h else False)\<rparr>))"

definition base_items :: "host \<Rightarrow> settings \<Rightarrow> (string \<times> string) list" where
  "base_items h s =
     [(''lxc.mount.auto'', ''proc:mixed sys:mixed cgroup:mixed''), (''lxc.autodev'', ''1''),
      (''lxc.pty.max'', ''1024''), (''lxc.tty.max'', ''0''), (''lxc.uts.name'', ''anbox''),
      (''lxc.group.devices.deny'', ''''), (''lxc.group.devices.allow'', ''''), (''lxc.tty.dir'', ''''),
      (''lxc.environment'', ''PATH=/system/bin:/system/sbin:/system/xbin''),
      (''lxc.init.cmd'', ''/anbox-init.sh''), (''lxc.rootfs.path'', rootfs_path h s), (''lxc.log.level'', ''0''),
      (''lxc.log.file'', h_log_dir h @ ''/container.log''),
      (''lxc.console.logfile'', h_log_dir h @ ''/console.log''), (''lxc.console.rotate'', ''1'')]"

definition launch_container :: "host \<Rightarrow> action" where
  "launch_container h c =
     (if \<not> h_save_ok h then (Some (Runtime_Error ''Failed to save container configuration''), c)
      else if \<not> h_start_ok h then (Some (Runtime_Error ''Failed to start container''), c)
      else (None, c\<lparr>lx_running := True, lx_state := Running\<rparr>))"

definition lxc_start :: "host \<Rightarrow> settings \<Rightarrow> configuration \<Rightarrow> action" where
  "lxc_start h s cfg =
     (if \<not> h_root h then throw ''You have to start the container as root''
      else run_all
        ([ensure_handle h] @
         map (\<lambda>(k, v). set_config_item h k v) (base_items h s) @
         [setup_network h s, set_config_item h ''lxc.apparmor.profile'' ''unconfined''] @
         (if st_privileged s then [] else [setup_id_map h s]) @
         [setup_binders h s cfg, effect (\<lambda>c. c\<lparr>lx_nodes := []\<rparr>)] @
         map (add_device h s) (all_devices h cfg) @
         [setup_properties h s cfg, launch_container h]))"

definition lxc_stop :: "host \<Rightarrow> action" where
  "lxc_stop h c =
     (if \<not> lx_handle c \<or> \<not> lx_running c then (None, c)
      else if \<not> h_stop_ok h then (Some (Runtime_Error ''Failed to stop container''), c)
      else (None, c\<lparr>lx_running := False, lx_state := Inactive, lx_binders := []\<rparr>))"

section \<open>Requests\<close>

fun fault_message :: "fault \<Rightarrow> string" where
  "fault_message (Out_Of_Range s) = s"
| "fault_message (Runtime_Error s) = s"
| "fault_message (Logic_Error s) = s"
| "fault_message Undefined = []"

text \<open>The answer of the manager: None, or the error. The old names of devices are not sent.\<close>

definition received_configuration :: "configuration \<Rightarrow> configuration" where
  "received_configuration cfg =
     \<lparr>cf_bind_mounts = fold (\<lambda>(k, v). um_insert k v) (cf_bind_mounts cfg) [],
      cf_devices = fold (\<lambda>(k, v). um_insert k (perm (ds_permission v))) (cf_devices cfg) [],
      cf_extra_properties = cf_extra_properties cfg\<rparr>"

definition start_container :: "host \<Rightarrow> settings \<Rightarrow> configuration \<Rightarrow> lxc \<Rightarrow> string option \<times> lxc" where
  "start_container h s cfg c =
     (if lx_state c = Running then (Some ''Container is already running'', c)
      else case lxc_start h s (received_configuration cfg) c of
          (None, c') \<Rightarrow> (None, c')
        | (Some e, c') \<Rightarrow> (Some (''Failed to start container: '' @ fault_message e), c'))"

definition stop_container :: "host \<Rightarrow> lxc \<Rightarrow> string option \<times> lxc" where
  "stop_container h c =
     (if lx_state c \<noteq> Running then (Some ''Container is not running'', c)
      else case lxc_stop h c of
          (None, c') \<Rightarrow> (None, c')
        | (Some e, c') \<Rightarrow> (Some (''Failed to stop container: '' @ fault_message e), c'))"

section \<open>What device a node stands for\<close>

lemma bit_device_masks:
  "bit (0xff :: int) n \<longleftrightarrow> n < 8" "bit (0xffffff00 :: int) n \<longleftrightarrow> 8 \<le> n \<and> n < 32"
  "bit (0xfff :: int) n \<longleftrightarrow> n < 12" "bit (0xfffff000 :: int) n \<longleftrightarrow> 12 \<le> n \<and> n < 32"
proof -
  have m: "(0xff :: int) = mask 8" "(0xfff :: int) = mask 12"
    "(0xffffff00 :: int) = push_bit 8 (mask 24)" "(0xfffff000 :: int) = push_bit 12 (mask 20)"
    by (simp_all add: mask_numeral)
  show "bit (0xff :: int) n \<longleftrightarrow> n < 8" "bit (0xffffff00 :: int) n \<longleftrightarrow> 8 \<le> n \<and> n < 32"
    "bit (0xfff :: int) n \<longleftrightarrow> n < 12" "bit (0xfffff000 :: int) n \<longleftrightarrow> 12 \<le> n \<and> n < 32"
    unfolding m by (auto simp: bit_push_bit_iff bit_mask_iff)
qed

lemma small_word_bits:
  assumes "unat (w :: u32) < 2 ^ k" "bit w n"
  shows "n < k"
proof (rule ccontr)
  assume "\<not> n < k"
  then have "unat w < 2 ^ n"
    using assms(1) by (meson less_le_trans not_less one_le_numeral power_increasing)
  moreover have "bit (unat w) n"
    using assms(2) bit_imp_le_length [OF assms(2)] by (simp add: bit_unsigned_iff)
  ultimately show False by (simp add: bit_iff_odd)
qed

lemma bit_encoded:
  "bit (encoded_device_number ma mi) n \<longleftrightarrow>
     n < 8 \<and> bit mi n \<or> 8 \<le> n \<and> n < 32 \<and> bit ma (n - 8)"
  by (auto simp: encoded_device_number_def bit_or_iff bit_and_iff bit_push_bit_iff bit_device_masks)

lemma bit_encoded_wide:
  assumes "unat ma < 2 ^ 12"
  shows "bit (scast (encoded_device_number ma mi) :: u64) n \<longleftrightarrow>
     n < 8 \<and> bit mi n \<or> 8 \<le> n \<and> n < 20 \<and> bit ma (n - 8)"
  using small_word_bits [OF assms]
  by (auto simp: bit_signed_iff bit_encoded min_def) fastforce+

lemma device_numbers_kept:
  assumes "unat ma < 2 ^ 12"
  shows "device_major (scast (encoded_device_number ma mi)) = ma"
    "device_minor (scast (encoded_device_number ma mi)) = mi AND 0xff"
proof -
  show "device_major (scast (encoded_device_number ma mi)) = ma"
    using small_word_bits [OF assms]
    by (intro bit_word_eqI)
      (auto simp: device_major_def bit_ucast_iff bit_or_iff bit_and_iff bit_drop_bit_eq bit_device_masks
        bit_encoded_wide [OF assms])
  show "device_minor (scast (encoded_device_number ma mi)) = mi AND 0xff"
    by (intro bit_word_eqI)
      (auto simp: device_minor_def bit_ucast_iff bit_or_iff bit_and_iff bit_drop_bit_eq bit_device_masks
        bit_encoded_wide [OF assms])
qed

lemma minor_kept: "mi AND 0xff = (mi :: u32) \<longleftrightarrow> unat mi < 256"
proof -
  have "mi AND 0xff = take_bit 8 mi" by (simp add: take_bit_eq_mask mask_numeral)
  then have "mi AND 0xff = mi \<longleftrightarrow> unat (take_bit 8 mi) = unat mi" by (simp add: word_unat_eq_iff)
  also have "\<dots> \<longleftrightarrow> take_bit 8 (unat mi) = unat mi" by (simp add: unsigned_take_bit_eq)
  finally show ?thesis by (simp add: take_bit_nat_eq_self_iff)
qed

lemma set_config_item_nodes:
  "lx_nodes (snd (set_config_item h k v c)) = lx_nodes c"
  by (simp add: set_config_item_def)

text \<open>
  A device that is added gets one node, under its base name in the directory of devices, owned by the shifted
  owner of the original. The node has the major number of the original, below 4096, but only the lower eight bits of its
  minor number: it stands for the same device exactly when the minor number is below 256.
\<close>
lemma added_device_node:
  assumes "add_device h s (device, spec) c = (None, c')"
    and "h_stat h (if ds_old_name spec \<noteq> [] then ds_old_name spec else device) = Some st"
    and "unat (device_major (sb_rdev st)) < 4096"
  shows "\<exists>n. lx_nodes c' = lx_nodes c @ [n] \<and> dn_path n = h_devices_dir h @ ''/'' @ h_basename h device \<and>
    dn_uid n = (if st_privileged s then 0 else 100000) + sb_uid st \<and>
    device_major (scast (dn_number n)) = device_major (sb_rdev st) \<and>
    device_minor (scast (dn_number n)) = device_minor (sb_rdev st) AND 0xff \<and>
    (device_minor (scast (dn_number n)) = device_minor (sb_rdev st) \<longleftrightarrow> unat (device_minor (sb_rdev st)) < 256)"
proof -
  let ?ma = "device_major (sb_rdev st)" and ?mi = "device_minor (sb_rdev st)"
  let ?n = "\<lparr>dn_path = h_devices_dir h @ ''/'' @ h_basename h device,
    dn_mode = device_mode (sb_mode st) (ds_permission spec), dn_number = encoded_device_number ?ma ?mi,
    dn_uid = (if st_privileged s then 0 else 100000) + sb_uid st,
    dn_gid = (if st_privileged s then 0 else 100000) + sb_gid st\<rparr>"
  have "lx_nodes c' = lx_nodes c @ [?n]"
    using assms(1,2)
    by (auto simp: add_device_def Let_def set_config_item_def unprivileged_uid_def split: if_splits)
  moreover have "unat ?ma < 2 ^ 12" using assms(3) by simp
  from device_numbers_kept [OF this, of ?mi]
  have "device_major (scast (dn_number ?n)) = ?ma" "device_minor (scast (dn_number ?n)) = ?mi AND 0xff"
    by simp_all
  ultimately show ?thesis
    using minor_kept [of ?mi] by (intro exI [of _ ?n]) simp
qed

definition quiet_host :: host where
  "quiet_host =
     \<lparr>h_root = True, h_rootfs_dir = ''/r'', h_combined_rootfs_dir = ''/c'', h_log_dir = ''/l'',
      h_devices_dir = ''/d'', h_state_dir = ''/s'', h_bridge = True, h_ipconf_writable = True,
      h_is_directory = (\<lambda>_. False),
      h_stat = (\<lambda>_. Some \<lparr>sb_mode = 8630, sb_rdev = 0x100103, sb_uid = 0, sb_gid = 0\<rparr>),
      h_basename = (\<lambda>s. s), h_split = (\<lambda>s c. [s]), h_binderfs = False, h_new_binder = None,
      h_default_prop = None, h_props_writable = True, h_new_ok = True, h_item_ok = (\<lambda>_ _. True),
      h_mknod_ok = (\<lambda>_. True), h_chown_ok = (\<lambda>_. True), h_chmod_ok = (\<lambda>_. True), h_save_ok = True,
      h_start_ok = True, h_stop_ok = True\<rparr>"

definition plain_settings :: settings where
  "plain_settings =
     \<lparr>st_privileged = False, st_overlay = False, st_address = [], st_gateway = [], st_dns_servers = [],
      st_uid = 1000, st_gid = 1000\<rparr>"

text \<open>Device 1:259 becomes 1:3, the null device.\<close>

lemma added_device_node_witness:
  "\<exists>n. lx_nodes (snd (add_device quiet_host plain_settings (''x'', perm rw_all) (lxc_new False))) = [n] \<and>
    device_major (scast (dn_number n)) = 1 \<and> device_minor (scast (dn_number n)) = 3"
proof -
  let ?st = "\<lparr>sb_mode = 8630, sb_rdev = 0x100103, sb_uid = 0, sb_gid = 0\<rparr>"
  let ?c = "snd (add_device quiet_host plain_settings (''x'', perm rw_all) (lxc_new False))"
  have "add_device quiet_host plain_settings (''x'', perm rw_all) (lxc_new False) = (None, ?c)"
    by (simp add: add_device_def quiet_host_def lxc_new_def set_config_item_def perm_def Let_def)
  moreover have "h_stat quiet_host (if ds_old_name (perm rw_all) \<noteq> [] then ds_old_name (perm rw_all) else ''x'') = Some ?st"
    by (simp add: quiet_host_def)
  moreover have "device_major (sb_rdev ?st) = 1" "device_minor (sb_rdev ?st) = 259" by code_simp+
  ultimately show ?thesis
    using added_device_node [of quiet_host plain_settings "''x''" "perm rw_all" "lxc_new False" ?c ?st]
    by (auto simp: lxc_new_def)
qed

section \<open>Who is who\<close>

text \<open>The id outside of an id inside, by the first entry that has it, as the kernel reads the map.\<close>

fun outside_id :: "(nat \<times> nat \<times> nat) list \<Rightarrow> nat \<Rightarrow> nat option" where
  "outside_id [] n = None"
| "outside_id ((inside, outside, count) # es) n =
     (if inside \<le> n \<and> n < inside + count then Some (outside + (n - inside)) else outside_id es n)"

lemma third_count:
  assumes "unat uid < 100000"
  shows "unat (100000 - uid - 1 :: u32) = 99999 - unat uid"
proof -
  have "(100000 - uid - 1 :: u32) = word_of_nat (99999 - unat uid)"
    using assms by (simp add: of_nat_diff)
  then show ?thesis by (simp add: unat_of_nat take_bit_nat_eq_self_iff)
qed

text \<open>
  Below a client id of 100000, inside the container id 1000 (Android's system user) is the client; every other id
  that is mapped is its own number behind 100000; 999 is not mapped, nor are ids from 101000 less the client's. No two
  ids are mapped to the same one.
\<close>
lemma id_map_ids:
  assumes "unat uid < 100000"
  shows "outside_id (id_map uid) = (\<lambda>n.
      if n = 1000 then Some (unat uid)
      else if n < 999 \<or> 1001 \<le> n \<and> n + unat uid < 101000 then Some (100000 + n) else None) \<and>
    inj_on (outside_id (id_map uid)) (dom (outside_id (id_map uid)))"
proof -
  have eq: "outside_id (id_map uid) = (\<lambda>n.
      if n = 1000 then Some (unat uid)
      else if n < 999 \<or> 1001 \<le> n \<and> n + unat uid < 101000 then Some (100000 + n) else None)"
    using assms
    by (auto simp: fun_eq_iff id_map_def third_count [OF assms, simplified] unprivileged_uid_def
        android_system_uid_def; insert uint_nat [of uid], linarith)
  moreover have "inj_on (outside_id (id_map uid)) (dom (outside_id (id_map uid)))"
    unfolding eq using assms by (auto simp: inj_on_def split: if_splits)
  ultimately show ?thesis by blast
qed

lemma id_map_ids_witness:
  "outside_id (id_map 1000) 1000 = Some 1000 \<and> outside_id (id_map 1000) 0 = Some 100000 \<and>
   outside_id (id_map 1000) 999 = None"
  using conjunct1 [OF id_map_ids [of 1000]] by simp

text \<open>From 100000 on the last count wraps around: the range leaves the ids there are.\<close>

lemma third_count_wraps: "unat (100000 - 100000 - 1 :: u32) = 2 ^ 32 - 1"
  by (simp add: unsigned_minus_1_eq_mask mask_eq_exp_minus_1)

section \<open>The address of Android\<close>

lemma ip_write_fits:
  assumes "length (ip_encoding cfg) \<le> 512"
  shows "ip_config_write cfg (binary_writer_new (replicate 512 0)) =
    (None, stored (ip_encoding cfg) (set_byte_order Big (binary_writer_new (replicate 512 0))))"
  using ip_config_writes [of cfg, unfolded writes_def, rule_format,
      of "set_byte_order Big (binary_writer_new (replicate 512 0))"] assms
  by (simp add: ip_config_write_def set_byte_order_def binary_writer_new_def)

lemma ip_write_overflows:
  assumes "\<not> length (ip_encoding cfg) \<le> 512"
  shows "fst (ip_config_write cfg (binary_writer_new (replicate 512 0))) = Some (Out_Of_Range ''Write buffer exhausted'')"
  using ip_config_writes [of cfg, unfolded writes_def, rule_format,
      of "set_byte_order Big (binary_writer_new (replicate 512 0))"] assms
  by (simp add: ip_config_write_def set_byte_order_def binary_writer_new_def exhausted_def)

lemma write_ip_config_fits:
  assumes "length (ip_encoding (container_ip_config h s)) \<le> 512" "h_ipconf_writable h"
  shows "write_ip_config h s c = (None, c\<lparr>lx_ipconf := Some (ip_encoding (container_ip_config h s))\<rparr>)"
  using assms
  by (simp add: write_ip_config_def ip_write_fits)
    (simp add: stored_def set_byte_order_def binary_writer_new_def bytes_written_def)

text \<open>
  When the network is set up the file that Android reads holds exactly the configured (or default) address, prefix,
  gateway and name servers, if its encoding has at most 512 bytes; otherwise setting up the network throws.
\<close>
lemma network_config_written:
  assumes "h_ipconf_writable h" "\<And>k v. h_item_ok h k v"
    and "h_bridge h"
  shows "case setup_network h s c of
      (None, c') \<Rightarrow> length (ip_encoding (container_ip_config h s)) \<le> 512 \<and>
        lx_ipconf c' = Some (ip_encoding (container_ip_config h s))
    | (Some e, c') \<Rightarrow> e = Out_Of_Range ''Write buffer exhausted'' \<and>
        length (ip_encoding (container_ip_config h s)) > 512 \<and> lx_ipconf c' = lx_ipconf c"
proof (cases "length (ip_encoding (container_ip_config h s)) \<le> 512")
  case True
  with assms show ?thesis
    by (simp add: setup_network_def set_config_item_def write_ip_config_fits)
next
  case False
  obtain e w where e: "ip_config_write (container_ip_config h s) (binary_writer_new (replicate 512 0)) = (e, w)"
    by fastforce
  with ip_write_overflows [OF False] have "e = Some (Out_Of_Range ''Write buffer exhausted'')" by simp
  with False assms e show ?thesis
    by (simp add: setup_network_def set_config_item_def write_ip_config_def)
qed

lemma network_config_written_witness:
  "case setup_network quiet_host plain_settings (lxc_new False) of
      (None, c') \<Rightarrow> length (ip_encoding (container_ip_config quiet_host plain_settings)) \<le> 512 \<and>
        lx_ipconf c' = Some (ip_encoding (container_ip_config quiet_host plain_settings))
    | (Some e, c') \<Rightarrow> e = Out_Of_Range ''Write buffer exhausted'' \<and>
        length (ip_encoding (container_ip_config quiet_host plain_settings)) > 512 \<and>
        lx_ipconf c' = lx_ipconf (lxc_new False)"
  by (rule network_config_written) (simp_all add: quiet_host_def)

section \<open>The life of the container\<close>

text \<open>Actions that neither start nor stop anything, and only add to the items set.\<close>

definition prepares :: "action \<Rightarrow> bool" where
  "prepares a \<longleftrightarrow>
     (\<forall>c. lx_state (snd (a c)) = lx_state c \<and> lx_running (snd (a c)) = lx_running c \<and>
          lx_handle (snd (a c)) = lx_handle c \<and> prefix (lx_items c) (lx_items (snd (a c))))"

lemma preparesD:
  assumes "prepares a" "a c = (e, c')"
  shows "lx_state c' = lx_state c" "lx_running c' = lx_running c" "lx_handle c' = lx_handle c"
    "prefix (lx_items c) (lx_items c')"
proof -
  have "snd (a c) = c'" using assms(2) by simp
  with assms(1) show "lx_state c' = lx_state c" "lx_running c' = lx_running c" "lx_handle c' = lx_handle c"
    "prefix (lx_items c) (lx_items c')"
    by (auto simp only: prepares_def)
qed

named_theorems preparing \<open>Actions that only prepare the container\<close>

lemma prepares_run_all [preparing]:
  assumes "\<And>a. a \<in> set as \<Longrightarrow> prepares a"
  shows "prepares (run_all as)"
proof -
  have "lx_state (snd (run_all as c)) = lx_state c \<and> lx_running (snd (run_all as c)) = lx_running c \<and>
      lx_handle (snd (run_all as c)) = lx_handle c \<and> prefix (lx_items c) (lx_items (snd (run_all as c)))" for c
    using assms
  proof (induction as arbitrary: c)
    case (Cons a as)
    have a: "lx_state (snd (a c)) = lx_state c" "lx_running (snd (a c)) = lx_running c"
      "lx_handle (snd (a c)) = lx_handle c" "prefix (lx_items c) (lx_items (snd (a c)))"
      using Cons.prems [of a] by (simp_all add: prepares_def)
    obtain e c' where e: "a c = (e, c')" by fastforce
    show ?case
      using Cons.IH [of c'] Cons.prems a e by (cases e) (auto intro: prefix_order.trans)
  qed simp
  then show ?thesis by (simp add: prepares_def)
qed

lemma prepares_simple [preparing]:
  "prepares skip" "prepares (throw msg)" "prepares (set_config_item h k v)" "prepares (write_ip_config h s)"
  "prepares (add_device h s d)"
  by (auto simp: prepares_def skip_def throw_def set_config_item_def write_ip_config_def add_device_def Let_def
      split: option.splits prod.splits)

lemma prepares_effect [preparing]:
  "prepares (effect (\<lambda>c. c\<lparr>lx_binders := b\<rparr>))" "prepares (effect (\<lambda>c. c\<lparr>lx_nodes := ns\<rparr>))"
  "prepares (effect (\<lambda>c. c\<lparr>lx_default_prop := p\<rparr>))"
  by (simp_all add: prepares_def effect_def)

lemma prepares_add_bind_mount [preparing]: "prepares (add_bind_mount h s m)"
  by (cases m) (simp add: add_bind_mount_def preparing)

lemma prepares_setup [preparing]:
  "prepares (setup_network h s)" "prepares (setup_id_map h s)" "prepares (setup_binders h s cfg)"
  "prepares (setup_properties h s cfg)"
  by (auto simp: setup_network_def setup_id_map_def setup_binders_def setup_properties_def
      intro!: preparing split: option.splits)

lemma run_all_append:
  "run_all (as @ bs) c = (case run_all as c of (Some e, c') \<Rightarrow> (Some e, c') | (None, c') \<Rightarrow> run_all bs c')"
  by (induction as arbitrary: c) (auto split: prod.splits option.splits)

lemma run_all_phases: "run_all ([a] @ as @ [b]) = run_all [a, run_all as, b]"
  by (rule ext) (simp add: run_all_append split: prod.splits option.splits)

text \<open>Starting is: a handle that is not running, the preparations, and the launch.\<close>

lemma lxc_start_phases:
  assumes "h_root h"
  obtains prepare where "prepares prepare"
    "lxc_start h s cfg = run_all [ensure_handle h, prepare, launch_container h]"
proof
  let ?as = "map (\<lambda>(k, v). set_config_item h k v) (base_items h s) @
      [setup_network h s, set_config_item h ''lxc.apparmor.profile'' ''unconfined''] @
      (if st_privileged s then [] else [setup_id_map h s]) @
      [setup_binders h s cfg, effect (\<lambda>c. c\<lparr>lx_nodes := []\<rparr>)] @
      map (add_device h s) (all_devices h cfg) @ [setup_properties h s cfg]"
  show "prepares (run_all ?as)"
    by (rule prepares_run_all) (auto intro: preparing split: if_splits)
  have "lxc_start h s cfg = run_all ([ensure_handle h] @ ?as @ [launch_container h])"
    using assms by (simp only: lxc_start_def append_assoc append_Nil append_Cons simp_thms if_False not_True_eq_False)
  then show "lxc_start h s cfg = run_all [ensure_handle h, run_all ?as, launch_container h]"
    by (simp only: run_all_phases)
qed


lemma ensure_handle_again:
  "lx_handle c \<Longrightarrow> \<exists>c1. ensure_handle h c = (None, c1) \<and> lx_items c1 = lx_items c"
  by (cases "lx_running c") (simp_all add: ensure_handle_def)

lemma ensure_handle_cases:
  "ensure_handle h c = (e, c1) \<Longrightarrow> lx_state c1 = lx_state c \<and> (e = None \<longrightarrow> lx_handle c1)"
  by (cases "lx_handle c"; cases "lx_running c") (auto simp: ensure_handle_def split: if_splits)



text \<open>
  What happens to a manager: requests, with what the host does at the time, and the container ending by itself.
\<close>

inductive manager_step :: "settings \<Rightarrow> lxc \<Rightarrow> lxc \<Rightarrow> bool" for s where
  step_start: "manager_step s c (snd (start_container h s cfg c))"
| step_stop: "manager_step s c (snd (stop_container h c))"
| step_end: "lx_running c \<Longrightarrow> manager_step s c (c\<lparr>lx_running := False\<rparr>)"

inductive manager_reachable :: "settings \<Rightarrow> lxc \<Rightarrow> bool" for s where
  reach_new: "manager_reachable s (lxc_new left_over)"
| reach_step: "manager_reachable s c \<Longrightarrow> manager_step s c c' \<Longrightarrow> manager_reachable s c'"

lemma start_container_state:
  assumes "lx_state c = Inactive"
  shows "lx_state (snd (start_container h s cfg c)) = Running \<longrightarrow> lx_handle (snd (start_container h s cfg c))"
proof (cases "h_root h")
  case True
  obtain prepare where p: "prepares prepare"
    "lxc_start h s (received_configuration cfg) = run_all [ensure_handle h, prepare, launch_container h]"
    by (rule lxc_start_phases [OF True])
  obtain e1 c1 where c1: "ensure_handle h c = (e1, c1)" by fastforce
  have s1: "lx_state c1 = Inactive" "e1 = None \<Longrightarrow> lx_handle c1"
    using assms ensure_handle_cases [OF c1] by simp_all
  obtain e2 c2 where c2: "prepare c1 = (e2, c2)" by fastforce
  note c2' = preparesD [OF p(1) c2]
  with s1 c1 c2 c2'(1,3) assms show ?thesis
    by (cases e1; cases e2) (auto simp: start_container_def p(2) launch_container_def)
next
  case False
  with assms show ?thesis by (simp add: start_container_def lxc_start_def throw_def)
qed

lemma manager_running_handle: "manager_reachable s c \<Longrightarrow> lx_state c = Running \<longrightarrow> lx_handle c"
proof (induction rule: manager_reachable.induct)
  case (reach_new left_over)
  then show ?case by (simp add: lxc_new_def)
next
  case (reach_step c c')
  from reach_step.hyps(2) show ?case
  proof cases
    case (step_start h cfg)
    with reach_step.IH start_container_state [of c h s cfg] show ?thesis
      by (cases "lx_state c") (auto simp: start_container_def)
  next
    case (step_stop h)
    with reach_step.IH show ?thesis
      by (auto simp: stop_container_def lxc_stop_def split: option.splits prod.splits if_splits)
  next
    case step_end
    with reach_step.IH show ?thesis by simp
  qed
qed

text \<open>
  When the container has ended by itself, the manager is stuck: from then on the state stays running and nothing
  runs, whatever is requested; a start is always refused because the container is already running, and a stop reports
  success and does nothing.
\<close>
lemma ended_container_stuck:
  assumes "lx_state c = Running" "\<not> lx_running c" "(manager_step s)\<^sup>*\<^sup>* c c'"
  shows "c' = c \<and> start_container h s cfg c' = (Some ''Container is already running'', c') \<and>
    stop_container h c' = (None, c')"
proof -
  have "c' = c"
    using assms(3,1,2)
  proof (induction rule: rtranclp_induct)
    case (step y z)
    from step.hyps(2) show ?case
      by cases (use step in \<open>auto simp: start_container_def stop_container_def lxc_stop_def\<close>)
  qed simp
  with assms(1,2) show ?thesis
    by (simp add: start_container_def stop_container_def lxc_stop_def)
qed

lemma ended_container_stuck_witness:
  "\<exists>c. lx_state c = Running \<and>
     start_container quiet_host plain_settings \<lparr>cf_bind_mounts = [], cf_devices = [], cf_extra_properties = []\<rparr> c =
       (Some ''Container is already running'', c) \<and> stop_container quiet_host c = (None, c)"
proof -
  let ?c = "(lxc_new False)\<lparr>lx_state := Running, lx_handle := True\<rparr>"
  have "lx_state ?c = Running" "\<not> lx_running ?c" "(manager_step plain_settings)\<^sup>*\<^sup>* ?c ?c"
    by (simp_all add: lxc_new_def)
  from ended_container_stuck [OF this, of quiet_host] this(1) show ?thesis by blast
qed

text \<open>Items set by a start that failed are still there for the next one.\<close>

lemma failed_start_items_stay:
  assumes "lx_handle c" "h_root h"
  shows "prefix (lx_items c) (lx_items (snd (lxc_start h s cfg c)))"
proof -
  obtain prepare where p: "prepares prepare"
    "lxc_start h s cfg = run_all [ensure_handle h, prepare, launch_container h]"
    by (rule lxc_start_phases [OF assms(2)])
  obtain c1 where c1: "ensure_handle h c = (None, c1)" "lx_items c1 = lx_items c"
    using ensure_handle_again [OF assms(1)] by blast
  obtain e c2 where c2: "prepare c1 = (e, c2)" by fastforce
  with c1 preparesD(4) [OF p(1) c2] show ?thesis
    by (cases e) (simp_all add: p(2) launch_container_def)
qed

end
