(* ===== verification/Utils.thy ===== *)
theory Utils
  imports Anbox_Prelude
begin

text \<open>
  Helpers of \<open>src/anbox/utils.cpp\<close>. The system calls they use answer through arguments: the results of the calls of
  \<open>write\<close>, one after the other, the environment and what \<open>stat\<close> says of a path.
\<close>

section \<open>Writing\<close>

datatype write_result = Wrote nat | Interrupted | Write_Error

text \<open>
  The return value and what was written; None while the last call has not returned. A call of \<open>write\<close> writes at most
  what it is given.
\<close>

fun write_to_fd :: "write_result list \<Rightarrow> byte list \<Rightarrow> (int \<times> byte list) option" where
  "write_to_fd rs [] = Some (0, [])"
| "write_to_fd [] (c # cs) = None"
| "write_to_fd (Interrupted # rs) (c # cs) = write_to_fd rs (c # cs)"
| "write_to_fd (Write_Error # rs) (c # cs) = Some (-1, [])"
| "write_to_fd (Wrote n # rs) (c # cs) =
     (if n = 0 then Some (-1, [])
      else map_option (\<lambda>(r, out). (r, take n (c # cs) @ out)) (write_to_fd rs (drop n (c # cs))))"

text \<open>\<open>openat\<close> fails: None as the content written.\<close>

definition write_file_at :: "bool \<Rightarrow> write_result list \<Rightarrow> byte list option \<Rightarrow> (int \<times> byte list option) option" where
  "write_file_at open_ok rs content =
     (if \<not> open_ok then Some (-1, None)
      else case content of
          None \<Rightarrow> Some (0, Some [])
        | Some bs \<Rightarrow> map_option (\<lambda>(r, out). (r, Some out)) (write_to_fd rs bs))"

text \<open>0 is returned exactly when everything has been written; otherwise a proper prefix has.\<close>

lemma write_to_fd_all_or_error:
  "write_to_fd rs bs = Some (r, out) \<Longrightarrow> prefix out bs \<and> (r = 0 \<longleftrightarrow> out = bs) \<and> (r = 0 \<or> r = -1)"
proof (induction rs bs arbitrary: r out rule: write_to_fd.induct)
  case (5 n rs c cs)
  show ?case
  proof (cases "n = 0")
    case False
    then obtain out' where o: "write_to_fd rs (drop n (c # cs)) = Some (r, out')" "out = take n (c # cs) @ out'"
      using "5.prems" by auto
    from "5.IH" [OF False o(1)] have ih: "prefix out' (drop n (c # cs))" "r = 0 \<longleftrightarrow> out' = drop n (c # cs)"
      "r = 0 \<or> r = -1" by auto
    then have "prefix out (take n (c # cs) @ drop n (c # cs))" unfolding o(2) by (simp only: same_prefix_prefix)
    moreover have "out = c # cs \<longleftrightarrow> out' = drop n (c # cs)"
      by (metis append_take_drop_id o(2) same_append_eq)
    ultimately show ?thesis using ih by simp
  qed (use "5.prems" in simp)
qed auto

text \<open>It returns as soon as it is given enough results that are not interruptions.\<close>

lemma write_to_fd_returns:
  "length bs \<le> length (filter (\<lambda>r. r \<noteq> Interrupted) rs) \<Longrightarrow> write_to_fd rs bs \<noteq> None"
proof (induction rs bs rule: write_to_fd.induct)
  case (5 n rs c cs)
  then show ?case by (cases "n = 0") auto
qed auto

section \<open>Strings\<close>

definition string_starts_with :: "string \<Rightarrow> string \<Rightarrow> bool" where
  "string_starts_with s pre \<longleftrightarrow> take (length pre) s = pre"

lemma string_starts_with_prefix: "string_starts_with s pre \<longleftrightarrow> prefix pre s"
  by (metis append_eq_conv_conj prefix_def string_starts_with_def)

text \<open>
  \<open>text[0]\<close> of an empty string is the terminating zero; \<open>text[text.length() - 1]\<close> is then out of range but not read.
\<close>

definition strip_surrounding_quotes :: "string \<Rightarrow> string" where
  "strip_surrounding_quotes s =
     (case s of [] \<Rightarrow> []
      | c # cs \<Rightarrow> if c = CHR 0x22 \<and> List.last s = CHR 0x22 then take (length s - 2) cs else s)"

lemma strip_quoted: "strip_surrounding_quotes (CHR 0x22 # s @ [CHR 0x22]) = s"
  by (simp add: strip_surrounding_quotes_def)

lemma strip_unquoted: "s \<noteq> [] \<Longrightarrow> hd s \<noteq> CHR 0x22 \<Longrightarrow> strip_surrounding_quotes s = s"
  by (cases s) (simp_all add: strip_surrounding_quotes_def)

text \<open>A lone quotation mark is stripped to the empty string.\<close>

lemma strip_lone_quote: "strip_surrounding_quotes [CHR 0x22] = []"
  by (simp add: strip_surrounding_quotes_def)

definition collect_arguments :: "string list \<Rightarrow> string list" where
  "collect_arguments argv = drop 1 argv"

section \<open>Environment\<close>

definition get_env_value :: "(string \<Rightarrow> string option) \<Rightarrow> string \<Rightarrow> string \<Rightarrow> string" where
  "get_env_value env name default_value = (case env name of None \<Rightarrow> default_value | Some v \<Rightarrow> v)"

definition is_env_set :: "(string \<Rightarrow> string option) \<Rightarrow> string \<Rightarrow> bool" where
  "is_env_set env name \<longleftrightarrow> env name \<noteq> None"

text \<open>The variable is static: it keeps the value of the first call, whatever name later calls give.\<close>

definition prefix_dir_from_env ::
  "(string \<Rightarrow> string option) \<Rightarrow> string \<Rightarrow> string \<Rightarrow> string option \<Rightarrow> string \<times> string option" where
  "prefix_dir_from_env env path env_var kept =
     (let v = (case kept of Some v \<Rightarrow> v | None \<Rightarrow> get_env_value env env_var []) in
      (if v \<noteq> [] then v @ path else path, Some v))"

lemma prefix_dir_sticks:
  "fst (prefix_dir_from_env env path2 var2 (snd (prefix_dir_from_env env path1 var1 None))) =
     get_env_value env var1 [] @ path2"
  by (simp add: prefix_dir_from_env_def Let_def)

text \<open>\<open>executable\<close>: \<open>stat\<close> succeeds and others may execute the file.\<close>

function find_program_on_path :: "(string \<Rightarrow> bool) \<Rightarrow> string \<Rightarrow> string \<Rightarrow> string" where
  "find_program_on_path executable name path =
     (if CHR '':'' \<in> set path then
        let current = takeWhile (\<lambda>c. c \<noteq> CHR '':'') path @ ''/'' @ name in
        if executable current then current
        else find_program_on_path executable name (tl (dropWhile (\<lambda>c. c \<noteq> CHR '':'') path))
      else [])"
  by pat_completeness auto
termination
proof (relation "measure (\<lambda>(e, n, p). length p)", simp)
  fix path :: string
  assume "CHR '':'' \<in> set path"
  then have "dropWhile (\<lambda>c. c \<noteq> CHR '':'') path \<noteq> []"
    by (auto simp: dropWhile_eq_Nil_conv)
  moreover have "length (dropWhile (\<lambda>c. c \<noteq> CHR '':'') path) \<le> length path" by (rule length_dropWhile_le)
  ultimately have "length (tl (dropWhile (\<lambda>c. c \<noteq> CHR '':'') path)) < length path"
    by (cases "dropWhile (\<lambda>c. c \<noteq> CHR '':'') path") simp_all
  then show "((executable, name, tl (dropWhile (\<lambda>c. c \<noteq> CHR '':'') path)), executable, name, path)
      \<in> measure (\<lambda>(e, n, p). length p)" for executable :: "string \<Rightarrow> bool" and name :: string
    by simp
qed

declare find_program_on_path.simps [simp del]

text \<open>The directories before the last one are searched in order; the last one never is.\<close>

fun join_path :: "string list \<Rightarrow> string" where
  "join_path [] = []"
| "join_path [d] = d"
| "join_path (d # ds) = d @ CHR '':'' # join_path ds"

lemma find_program_searches:
  assumes "list_all (\<lambda>d. CHR '':'' \<notin> set d) dirs" "dirs \<noteq> []"
  shows "find_program_on_path executable name (join_path dirs) =
    (case find (\<lambda>d. executable (d @ ''/'' @ name)) (butlast dirs) of
       None \<Rightarrow> [] | Some d \<Rightarrow> d @ ''/'' @ name)"
  using assms
proof (induction dirs rule: join_path.induct)
  case (2 d)
  then show ?case by (simp add: find_program_on_path.simps)
next
  case (3 d d' ds)
  have t: "takeWhile (\<lambda>c. c \<noteq> CHR '':'') (d @ CHR '':'' # join_path (d' # ds)) = d"
    and r: "tl (dropWhile (\<lambda>c. c \<noteq> CHR '':'') (d @ CHR '':'' # join_path (d' # ds))) = join_path (d' # ds)"
    using "3.prems" by (simp_all add: takeWhile_tail) (auto simp: dropWhile_append)
  show ?case
    using 3 t r by (subst find_program_on_path.simps) (simp add: Let_def)
qed simp

lemma find_program_ignores_last_directory:
  "find_program_on_path (\<lambda>p. p = ''/b/x'') ''x'' ''/a:/b'' = ''''"
  by (simp add: find_program_on_path.simps)

text \<open>Entries of the mount table: what is mounted, and where.\<close>

definition is_mounted :: "(string \<times> string) list \<Rightarrow> string \<Rightarrow> bool" where
  "is_mounted mtab path \<longleftrightarrow> list_ex (\<lambda>(fsname, dir). fsname = path) mtab"

section \<open>Dumps\<close>

definition hex_char :: "nat \<Rightarrow> char" where
  "hex_char n = ''0123456789abcdef'' ! (n mod 16)"

fun show_hex :: "nat \<Rightarrow> string" where
  "show_hex n = (if n < 16 then [hex_char n] else show_hex (n div 16) @ [hex_char n])"

declare show_hex.simps [simp del]

text \<open>The format \<open>%02x\<close>.\<close>

definition hex2 :: "nat \<Rightarrow> string" where
  "hex2 n = (let s = show_hex n in replicate (2 - length s) CHR ''0'' @ s)"

definition printable :: "byte \<Rightarrow> char" where
  "printable b = (if b < 0x20 \<or> b > 0x7e then CHR ''.'' else char_of_byte b)"

text \<open>
  The loop over the bytes from index \<open>i\<close> on: what it prints, the index and the characters of the line it leaves.
  Writing the terminating zero behind each character cuts off what the line before has left.
\<close>

fun hex_dump_loop :: "nat \<Rightarrow> byte list \<Rightarrow> string \<Rightarrow> string \<times> nat \<times> string" where
  "hex_dump_loop i [] buff = ([], i, buff)"
| "hex_dump_loop i (b # bs) buff =
     (let start = (if i mod 16 = 0 then (if i \<noteq> 0 then ''  '' @ buff @ [CHR 0x0A] else []) @ hex2 i @ ''   '' else []);
          buff = take (i mod 16) buff @ [printable b];
          (out, i', buff') = hex_dump_loop (i + 1) bs buff
      in (start @ '' '' @ hex2 (unat b) @ out, i', buff'))"

definition hex_dump :: "byte list \<Rightarrow> string" where
  "hex_dump data =
     (if data = [] then ''NULL'' @ [CHR 0x0A]
      else case hex_dump_loop 0 data [] of
          (out, i, buff) \<Rightarrow> out @ replicate (3 * ((16 - i mod 16) mod 16)) CHR '' '' @ ''  '' @ buff @ [CHR 0x0A])"

text \<open>The dump that is meant: a line per 16 bytes with the offset, the bytes in 16 columns and the characters.\<close>

definition hex_line :: "nat \<Rightarrow> byte list \<Rightarrow> string" where
  "hex_line offset bs =
     hex2 offset @ ''   '' @ concat (map (\<lambda>b. '' '' @ hex2 (unat b)) bs) @
     replicate (3 * (16 - length bs)) CHR '' '' @ ''  '' @ map printable bs @ [CHR 0x0A]"

function hex_lines :: "nat \<Rightarrow> byte list \<Rightarrow> string" where
  "hex_lines offset bs =
     (if bs = [] then [] else hex_line offset (take 16 bs) @ hex_lines (offset + 16) (drop 16 bs))"
  by pat_completeness auto
termination by (relation "measure (\<lambda>(offset, bs). length bs)") auto

declare hex_lines.simps [simp del]

lemma hex_dump_loop_append:
  "hex_dump_loop i (xs @ ys) buff =
     (case hex_dump_loop i xs buff of (o1, i1, b1) \<Rightarrow>
        case hex_dump_loop i1 ys b1 of (o2, i2, b2) \<Rightarrow> (o1 @ o2, i2, b2))"
  by (induction i xs buff rule: hex_dump_loop.induct) (simp_all add: Let_def split: prod.splits)

lemma hex_dump_loop_rest:
  "i mod 16 = length buff \<Longrightarrow> buff \<noteq> [] \<Longrightarrow> length buff + length bs \<le> 16 \<Longrightarrow>
     hex_dump_loop i bs buff =
       (concat (map (\<lambda>b. '' '' @ hex2 (unat b)) bs), i + length bs, buff @ map printable bs)"
proof (induction bs arbitrary: i buff)
  case (Cons b bs)
  have n: "length buff < 16" "i mod 16 \<noteq> 0" using Cons.prems by auto
  show ?case
  proof (cases bs)
    case Nil
    with n Cons.prems show ?thesis by simp
  next
    case (Cons b' bs')
    with Cons.prems have "Suc i mod 16 = length (buff @ [printable b])" by (simp add: mod_Suc)
    from Cons.IH [OF this] Cons.prems n show ?thesis by simp
  qed
qed simp

lemma hex_dump_loop_line:
  assumes "i mod 16 = 0" "bs \<noteq> []" "length bs \<le> 16"
  shows "hex_dump_loop i bs buff =
    ((if i \<noteq> 0 then ''  '' @ buff @ [CHR 0x0A] else []) @ hex2 i @ ''   '' @
       concat (map (\<lambda>b. '' '' @ hex2 (unat b)) bs), i + length bs, map printable bs)"
proof (cases bs)
  case (Cons b bs')
  from assms(1) have "Suc i mod 16 = length [printable b]" by (simp add: mod_Suc)
  from hex_dump_loop_rest [OF this, of bs'] assms Cons show ?thesis by simp
qed (use assms in simp)

lemma hex_dump_loop_lines:
  assumes "i mod 16 = 0" "bs \<noteq> []"
  shows "(case hex_dump_loop i bs buff of
      (out, j, buff') \<Rightarrow> out @ replicate (3 * ((16 - j mod 16) mod 16)) CHR '' '' @ ''  '' @ buff' @ [CHR 0x0A]) =
    (if i \<noteq> 0 then ''  '' @ buff @ [CHR 0x0A] else []) @ hex_lines i bs"
  using assms
proof (induction "length bs" arbitrary: i bs buff rule: less_induct)
  case less
  show ?case
  proof (cases "length bs \<le> 16")
    case True
    have "(16 - (i + length bs) mod 16) mod 16 = 16 - length bs"
    proof -
      have "(i + length bs) mod 16 = length bs mod 16" using less.prems(1) by (metis add_0 mod_add_left_eq)
      moreover have "length bs \<noteq> 0" using less.prems(2) by simp
      ultimately show ?thesis using True by (cases "length bs = 16") auto
    qed
    with True less.prems(2) hex_dump_loop_line [OF less.prems True, of buff] show ?thesis
      by (simp add: hex_lines.simps [of i bs] hex_lines.simps [of "i + 16" "[]"] hex_line_def)
  next
    case False
    let ?xs = "take 16 bs" and ?ys = "drop 16 bs"
    have x: "?xs \<noteq> []" "length ?xs \<le> 16" and y: "?ys \<noteq> []" "length ?ys < length bs" "length ?xs = 16"
      using False less.prems(2) by auto
    have "(i + 16) mod 16 = 0" using less.prems(1) by simp
    note ih = less.hyps [OF y(2) this y(1), of "map printable ?xs"]
    obtain out j b where l: "hex_dump_loop (i + 16) ?ys (map printable ?xs) = (out, j, b)"
      by (cases "hex_dump_loop (i + 16) ?ys (map printable ?xs)") auto
    let ?start = "(if i \<noteq> 0 then ''  '' @ buff @ [CHR 0x0A] else []) @ hex2 i @ ''   '' @
        concat (map (\<lambda>b. '' '' @ hex2 (unat b)) ?xs)"
    have "hex_dump_loop i (?xs @ ?ys) buff = (?start @ out, j, b)"
      using hex_dump_loop_line [OF less.prems(1) x, of buff] y(3) l by (simp only: hex_dump_loop_append prod.case)
    then have "hex_dump_loop i bs buff = (?start @ out, j, b)" by (simp only: append_take_drop_id)
    moreover have "hex_lines i bs = hex_line i ?xs @ hex_lines (i + 16) ?ys"
      using less.prems(2) by (simp add: hex_lines.simps [of i bs])
    moreover have "out @ replicate (3 * ((16 - j mod 16) mod 16)) CHR '' '' @ ''  '' @ b @ [CHR 0x0A] =
        ''  '' @ map printable ?xs @ [CHR 0x0A] @ hex_lines (i + 16) ?ys"
      using ih by (simp add: l)
    ultimately show ?thesis using y(3) by (simp add: hex_line_def)
  qed
qed

text \<open>A dump is the lines meant, with an offset, 16 columns and the characters each; \<open>NULL\<close> for no bytes.\<close>

lemma hex_dump_lines: "hex_dump data = (if data = [] then ''NULL'' @ [CHR 0x0A] else hex_lines 0 data)"
  using hex_dump_loop_lines [of 0 data "[]"] by (simp add: hex_dump_def)


end
