(* ===== verification/Mounts.thy ===== *)
theory Mounts
  imports Utils "HOL-Library.Multiset"
begin

text \<open>
  The mounts of the container manager: \<open>setup_mounts\<close> and \<open>setup_rootfs_overlay\<close> of
  \<open>src/anbox/cmds/container_manager.cpp\<close> with \<open>common/mount_entry.cpp\<close>, \<open>common/loop_device.cpp\<close> and
  \<open>common/loop_device_allocator.cpp\<close>. The kernel's mounts are of a type \<open>'k\<close>; \<open>mount\<close>, \<open>umount\<close> and the program
  \<open>/bin/mount\<close> are functions on it, given with the answers of the file system in a record. A vector is destroyed
  from its first element on.

  Shown here: what is mounted when the manager ends, after a setup that succeeded and after one that failed.
\<close>

section \<open>Mount entries and loop devices\<close>

datatype dir_result = Created | Not_Created | Dir_Throws

record 'k menv =
  e_mount :: "string \<Rightarrow> string \<Rightarrow> 'k \<Rightarrow> 'k option"
  e_umount :: "string \<Rightarrow> 'k \<Rightarrow> 'k"
  e_mount_program :: "'k \<Rightarrow> 'k option"
  e_mtab :: "(string \<times> string) list"
  e_exists :: "string \<Rightarrow> bool"
  e_create_directory :: "string \<Rightarrow> dir_result"
  e_chown_ok :: "string \<Rightarrow> bool"
  e_free_loop :: "string option"
  e_loop_open_ok :: bool
  e_attach_ok :: bool
  e_squashfuse :: string
  e_image_path :: string
  e_data_dir :: string
  e_rootfs_dir :: string
  e_overlay_dir :: string
  e_combined_rootfs_dir :: string

record mount_entry =
  me_active :: bool
  me_target :: string
  me_loop :: "string option"

text \<open>\<open>mn_loops\<close>: the loop devices that are open. \<open>mn_mounts\<close> is \<open>mounts_\<close>.\<close>

record 'k manager =
  mn_kernel :: 'k
  mn_loops :: "string list"
  mn_mounts :: "mount_entry list"

definition entry_create :: "'k menv \<Rightarrow> string \<Rightarrow> string \<Rightarrow> 'k manager \<Rightarrow> mount_entry option \<times> 'k manager" where
  "entry_create env src target s =
     (case e_mount env src target (mn_kernel s) of
        None \<Rightarrow> (None, s)
      | Some k \<Rightarrow> (Some \<lparr>me_active = True, me_target = target, me_loop = None\<rparr>, s\<lparr>mn_kernel := k\<rparr>))"

definition entry_create_loop ::
  "'k menv \<Rightarrow> string \<Rightarrow> string \<Rightarrow> 'k manager \<Rightarrow> mount_entry option \<times> 'k manager" where
  "entry_create_loop env loop target s =
     (case entry_create env loop target s of
        (None, s') \<Rightarrow> (None, s')
      | (Some e, s') \<Rightarrow> (Some (e\<lparr>me_loop := Some loop\<rparr>), s'))"

definition entry_adopt :: "string \<Rightarrow> mount_entry" where
  "entry_adopt target = \<lparr>me_active = True, me_target = target, me_loop = None\<rparr>"

text \<open>The allocator and the constructor throw; both exceptions are caught where they are called.\<close>

definition loop_new_device :: "'k menv \<Rightarrow> 'k manager \<Rightarrow> string option \<times> 'k manager" where
  "loop_new_device env s =
     (case e_free_loop env of
        None \<Rightarrow> (None, s)
      | Some loop \<Rightarrow> if e_loop_open_ok env then (Some loop, s\<lparr>mn_loops := loop # mn_loops s\<rparr>) else (None, s))"

definition loop_destroy :: "string \<Rightarrow> 'k manager \<Rightarrow> 'k manager" where
  "loop_destroy loop s = s\<lparr>mn_loops := remove1 loop (mn_loops s)\<rparr>"

definition entry_destroy :: "'k menv \<Rightarrow> mount_entry \<Rightarrow> 'k manager \<Rightarrow> 'k manager" where
  "entry_destroy env e s =
     (let s = (if me_active e then s\<lparr>mn_kernel := e_umount env (me_target e) (mn_kernel s)\<rparr> else s)
      in case me_loop e of None \<Rightarrow> s | Some loop \<Rightarrow> loop_destroy loop s)"

definition push_mount :: "mount_entry \<Rightarrow> 'k manager \<Rightarrow> 'k manager" where
  "push_mount e s = s\<lparr>mn_mounts := mn_mounts s @ [e]\<rparr>"

definition mounts_clear :: "'k menv \<Rightarrow> 'k manager \<Rightarrow> 'k manager" where
  "mounts_clear env s = (fold (entry_destroy env) (mn_mounts s) s)\<lparr>mn_mounts := []\<rparr>"

section \<open>Setting up\<close>

datatype setup_result = Setup_Done | Setup_Failed | Setup_Throws

type_synonym 'k setup_step = "'k manager \<Rightarrow> setup_result \<times> 'k manager"

definition mount_image_loop :: "'k menv \<Rightarrow> 'k setup_step" where
  "mount_image_loop env s =
     (case loop_new_device env s of
        (None, s) \<Rightarrow> (Setup_Failed, s)
      | (Some loop, s) \<Rightarrow>
          if \<not> e_attach_ok env then (Setup_Failed, loop_destroy loop s)
          else case entry_create_loop env loop (e_rootfs_dir env) s of
              (None, s) \<Rightarrow> (Setup_Failed, loop_destroy loop s)
            | (Some e, s) \<Rightarrow> (Setup_Done, push_mount e s))"

definition mount_image_fuse :: "'k menv \<Rightarrow> 'k setup_step" where
  "mount_image_fuse env s =
     (if e_exists env ''/dev/fuse'' \<and> e_squashfuse env \<noteq> [] then
        (case e_mount_program env (mn_kernel s) of
           None \<Rightarrow> (Setup_Failed, s)
         | Some k \<Rightarrow> (Setup_Done, push_mount (entry_adopt (e_rootfs_dir env)) (s\<lparr>mn_kernel := k\<rparr>)))
      else (Setup_Failed, s))"

definition need_directory :: "'k menv \<Rightarrow> string \<Rightarrow> bool" where
  "need_directory env path \<longleftrightarrow> e_exists env path \<or> e_create_directory env path \<noteq> Dir_Throws"

definition setup_rootfs_overlay :: "'k menv \<Rightarrow> 'k setup_step" where
  "setup_rootfs_overlay env s =
     (if \<not> need_directory env (e_combined_rootfs_dir env) \<or> \<not> need_directory env (e_overlay_dir env)
      then (Setup_Throws, s)
      else case entry_create env ''overlay'' (e_combined_rootfs_dir env) s of
          (None, s) \<Rightarrow> (Setup_Failed, mounts_clear env s)
        | (Some e, s) \<Rightarrow> (Setup_Done, push_mount e s))"

fun bind_directories :: "'k menv \<Rightarrow> string \<Rightarrow> string list \<Rightarrow> 'k setup_step" where
  "bind_directories env rootfs [] s = (Setup_Done, s)"
| "bind_directories env rootfs (name # names) s =
     (let target = rootfs @ ''/'' @ name;
          src = e_data_dir env @ ''/'' @ name;
          created = (if e_exists env src then Created else e_create_directory env src)
      in if created = Dir_Throws then (Setup_Throws, s)
         else if created = Not_Created \<or> (\<not> e_exists env src \<and> \<not> e_chown_ok env src)
         then (Setup_Failed, mounts_clear env s)
         else case entry_create env src target s of
             (None, s) \<Rightarrow> (Setup_Failed, mounts_clear env s)
           | (Some e, s) \<Rightarrow> bind_directories env rootfs names (push_mount e s))"

text \<open>\<open>squashfuse\<close> and \<open>overlay\<close> are options of the command.\<close>

definition mount_image :: "'k menv \<Rightarrow> bool \<Rightarrow> 'k setup_step" where
  "mount_image env squashfuse s =
     (if \<not> e_exists env (e_image_path env) then (Setup_Failed, s)
      else if is_mounted (e_mtab env) (e_rootfs_dir env) then (Setup_Failed, s)
      else if \<not> need_directory env (e_rootfs_dir env) then (Setup_Throws, s)
      else if \<not> squashfuse \<and> e_exists env ''/dev/loop-control'' then mount_image_loop env s
      else mount_image_fuse env s)"

definition final_rootfs :: "'k menv \<Rightarrow> bool \<Rightarrow> string" where
  "final_rootfs env overlay = (if overlay then e_combined_rootfs_dir env else e_rootfs_dir env)"

definition setup_mounts :: "'k menv \<Rightarrow> bool \<Rightarrow> bool \<Rightarrow> 'k setup_step" where
  "setup_mounts env squashfuse overlay s =
     (case mount_image env squashfuse s of
        (Setup_Done, s) \<Rightarrow>
          (case (if overlay then setup_rootfs_overlay env s else (Setup_Done, s)) of
             (Setup_Done, s) \<Rightarrow>
               (case bind_directories env (final_rootfs env overlay) [''cache'', ''data''] s of
                  (Setup_Done, s) \<Rightarrow> (Setup_Done, s\<lparr>mn_mounts := rev (mn_mounts s)\<rparr>)
                | r \<Rightarrow> r)
           | r \<Rightarrow> r)
      | r \<Rightarrow> r)"

definition manager_new :: "'k \<Rightarrow> 'k manager" where
  "manager_new k = \<lparr>mn_kernel = k, mn_loops = [], mn_mounts = []\<rparr>"

text \<open>The manager from its start to its end: the service runs in between if the setup is done.\<close>

definition manager_run :: "'k menv \<Rightarrow> bool \<Rightarrow> bool \<Rightarrow> 'k \<Rightarrow> setup_result \<times> 'k manager" where
  "manager_run env squashfuse overlay k =
     (case setup_mounts env squashfuse overlay (manager_new k) of (r, s) \<Rightarrow> (r, mounts_clear env s))"

section \<open>Every mount is undone\<close>

text \<open>Destroying neither reads nor changes the list of the entries.\<close>

lemma entry_destroy_mounts [simp]:
  "entry_destroy env e (s\<lparr>mn_mounts := es\<rparr>) = (entry_destroy env e s)\<lparr>mn_mounts := es\<rparr>"
  "mn_mounts (entry_destroy env e s) = mn_mounts s"
  by (simp_all add: entry_destroy_def loop_destroy_def Let_def split: option.splits)

lemma fold_destroy_mounts [simp]:
  "fold (entry_destroy env) ds (s\<lparr>mn_mounts := es\<rparr>) = (fold (entry_destroy env) ds s)\<lparr>mn_mounts := es\<rparr>"
  "mn_mounts (fold (entry_destroy env) ds s) = mn_mounts s"
  by (induction ds arbitrary: s) simp_all

lemma fold_destroy_loops:
  "mset (mn_loops (fold (entry_destroy env) ds s)) = mset (mn_loops s) - mset (List.map_filter me_loop ds)"
proof (induction ds arbitrary: s)
  case (Cons d ds)
  have "mset (mn_loops (entry_destroy env d s)) =
      mset (mn_loops s) - (case me_loop d of None \<Rightarrow> {#} | Some l \<Rightarrow> {#l#})"
    by (simp add: entry_destroy_def loop_destroy_def Let_def split: option.splits)
  with Cons.IH [of "entry_destroy env d s"] show ?case
    by (simp add: map_filter_simps split: option.splits)
qed (simp add: map_filter_simps)

text \<open>Every open loop device belongs to an entry; destroying the entries, the youngest first, leads back to \<open>k\<close>.\<close>

definition loops_owned :: "'k manager \<Rightarrow> bool" where
  "loops_owned s \<longleftrightarrow> mset (mn_loops s) = mset (List.map_filter me_loop (mn_mounts s))"

definition undoes_to :: "'k menv \<Rightarrow> 'k \<Rightarrow> 'k manager \<Rightarrow> bool" where
  "undoes_to env k s \<longleftrightarrow> mn_kernel (fold (entry_destroy env) (rev (mn_mounts s)) s) = k"

lemma loops_owned_new [simp]: "loops_owned (manager_new k)"
  by (simp add: loops_owned_def manager_new_def map_filter_simps)

lemma undoes_to_new [simp]: "undoes_to env k (manager_new k)"
  by (simp add: undoes_to_def manager_new_def)

lemma map_filter_snoc: "List.map_filter f (xs @ [x]) = List.map_filter f xs @ (case f x of None \<Rightarrow> [] | Some y \<Rightarrow> [y])"
  by (induction xs) (simp_all add: map_filter_simps split: option.splits)

lemma mounts_clear_loops:
  "loops_owned s \<Longrightarrow> mn_loops (mounts_clear env s) = []"
  "loops_owned (mounts_clear env s) \<longleftrightarrow> mn_loops (mounts_clear env s) = []"
proof -
  assume "loops_owned s"
  then have "mset (mn_loops (mounts_clear env s)) = {#}"
    by (simp add: mounts_clear_def fold_destroy_loops loops_owned_def)
  then show "mn_loops (mounts_clear env s) = []" by simp
next
  show "loops_owned (mounts_clear env s) \<longleftrightarrow> mn_loops (mounts_clear env s) = []"
    by (simp add: loops_owned_def mounts_clear_def map_filter_simps)
qed

text \<open>What \<open>mount\<close>, \<open>umount\<close> and \<open>/bin/mount\<close> promise: \<open>umount\<close> takes the youngest mount of its target away.\<close>

definition umount_undoes :: "'k menv \<Rightarrow> bool" where
  "umount_undoes env \<longleftrightarrow>
     (\<forall>src target k k'. e_mount env src target k = Some k' \<longrightarrow> e_umount env target k' = k) \<and>
     (\<forall>k k'. e_mount_program env k = Some k' \<longrightarrow> e_umount env (e_rootfs_dir env) k' = k)"

lemma push_created:
  assumes "umount_undoes env" "entry_create env src target s = (Some e, s')"
  shows "undoes_to env k s \<Longrightarrow> undoes_to env k (push_mount e s')"
    and "loops_owned s \<Longrightarrow> loops_owned (push_mount e s')"
proof -
  from assms have d: "entry_destroy env e s' = s" and "mn_mounts s' = mn_mounts s" and "mn_loops s' = mn_loops s"
    and "me_loop e = None"
    by (auto simp: entry_create_def entry_destroy_def umount_undoes_def split: option.splits)
  then show "undoes_to env k s \<Longrightarrow> undoes_to env k (push_mount e s')"
    and "loops_owned s \<Longrightarrow> loops_owned (push_mount e s')"
    by (simp_all add: undoes_to_def push_mount_def loops_owned_def map_filter_snoc)
qed

lemma entry_create_fails: "entry_create env src target s = (None, s') \<Longrightarrow> s' = s"
  by (simp add: entry_create_def split: option.splits)

lemma mount_image_keeps:
  assumes "umount_undoes env" "mount_image env squashfuse (manager_new k) = (r, s)"
  shows "loops_owned s \<and> undoes_to env k s"
proof -
  have "loops_owned s \<and> undoes_to env k s" if "mount_image_loop env (manager_new k) = (r, s)"
    using that assms(1)
    by (auto simp: mount_image_loop_def loop_new_device_def entry_create_loop_def entry_create_def loop_destroy_def
        push_mount_def loops_owned_def undoes_to_def entry_destroy_def manager_new_def map_filter_simps
        umount_undoes_def split: option.splits if_splits)
  moreover have "loops_owned s \<and> undoes_to env k s" if "mount_image_fuse env (manager_new k) = (r, s)"
    using that assms(1)
    by (auto simp: mount_image_fuse_def entry_adopt_def push_mount_def loops_owned_def undoes_to_def
        entry_destroy_def manager_new_def map_filter_simps umount_undoes_def split: option.splits if_splits)
  ultimately show ?thesis
    using assms(2) by (auto simp: mount_image_def split: if_splits)
qed

lemma bind_directories_keeps:
  assumes "umount_undoes env"
  shows "bind_directories env rootfs names s = (r, s') \<Longrightarrow>
    (loops_owned s \<longrightarrow> loops_owned s') \<and> (r = Setup_Done \<longrightarrow> undoes_to env k s \<longrightarrow> undoes_to env k s')"
proof (induction names arbitrary: s)
  case (Cons name names)
  let ?src = "e_data_dir env @ ''/'' @ name" and ?target = "rootfs @ ''/'' @ name"
  obtain e s1 where c: "entry_create env ?src ?target s = (e, s1)" by fastforce
  show ?case
  proof (cases e)
    case None
    with c Cons.prems entry_create_fails [of env ?src ?target s s1] show ?thesis
      by (auto simp: Let_def mounts_clear_loops split: if_splits)
  next
    case (Some e')
    with c Cons.prems Cons.IH [of "push_mount e' s1"] push_created [OF assms c [unfolded Some]] show ?thesis
      by (auto simp: Let_def mounts_clear_loops split: if_splits)
  qed
qed simp

lemma setup_rootfs_overlay_keeps:
  assumes "umount_undoes env" "setup_rootfs_overlay env s = (r, s')"
  shows "(loops_owned s \<longrightarrow> loops_owned s') \<and> (r = Setup_Done \<longrightarrow> undoes_to env k s \<longrightarrow> undoes_to env k s')"
proof -
  obtain e s1 where c: "entry_create env ''overlay'' (e_combined_rootfs_dir env) s = (e, s1)" by fastforce
  show ?thesis
  proof (cases e)
    case None
    with c assms(2) entry_create_fails [of env "''overlay''" "e_combined_rootfs_dir env" s s1] show ?thesis
      by (auto simp: setup_rootfs_overlay_def mounts_clear_loops split: if_splits)
  next
    case (Some e')
    with c assms(2) push_created [OF assms(1) c [unfolded Some]] show ?thesis
      by (auto simp: setup_rootfs_overlay_def mounts_clear_loops split: if_splits)
  qed
qed


lemma setup_mounts_keeps:
  assumes "umount_undoes env" "setup_mounts env squashfuse overlay (manager_new k) = (r, s)"
  shows "loops_owned s \<and> (r = Setup_Done \<longrightarrow> mn_kernel (fold (entry_destroy env) (mn_mounts s) s) = k)"
proof -
  obtain r1 s1 where 1: "mount_image env squashfuse (manager_new k) = (r1, s1)" by fastforce
  obtain r2 s2 where 2: "(if overlay then setup_rootfs_overlay env s1 else (Setup_Done, s1)) = (r2, s2)" by fastforce
  obtain r3 s3 where 3: "bind_directories env (final_rootfs env overlay) [''cache'', ''data''] s2 = (r3, s3)" by fastforce
  have k1: "loops_owned s1" "undoes_to env k s1"
    using mount_image_keeps [OF assms(1) 1] by simp_all
  have k2: "loops_owned s2" "r2 = Setup_Done \<Longrightarrow> undoes_to env k s2"
    using 2 k1 setup_rootfs_overlay_keeps [OF assms(1), of s1 r2 s2 k] by (auto split: if_splits)
  have k3: "loops_owned s3" "r2 = Setup_Done \<Longrightarrow> r3 = Setup_Done \<Longrightarrow> undoes_to env k s3"
    using k2 bind_directories_keeps [OF assms(1) 3, of k] by simp_all
  have "loops_owned (s3\<lparr>mn_mounts := rev (mn_mounts s3)\<rparr>)"
    using k3(1) by (simp add: loops_owned_def List.map_filter_def rev_filter [symmetric] rev_map [symmetric])
  with assms(2) 1 2 3 k1 k2 k3 show ?thesis
    by (auto simp: setup_mounts_def undoes_to_def simp del: bind_directories.simps split: setup_result.splits)
qed

text \<open>
  C23. When the manager ends every loop device is closed, whatever has failed. If the setup has succeeded, every mount
  is undone: the kernel's mounts are what they were.
\<close>
theorem manager_restores_mounts:
  assumes "umount_undoes env" "manager_run env squashfuse overlay k = (r, s)"
  shows "mn_loops s = [] \<and> mn_mounts s = [] \<and> (r = Setup_Done \<longrightarrow> mn_kernel s = k)"
proof -
  obtain s1 where s1: "setup_mounts env squashfuse overlay (manager_new k) = (r, s1)" "s = mounts_clear env s1"
    using assms(2) by (auto simp: manager_run_def split: prod.splits)
  from setup_mounts_keeps [OF assms(1) s1(1)] s1(2) show ?thesis
    by (simp add: mounts_clear_loops(1)) (simp add: mounts_clear_def)
qed

text \<open>
  Mounts as a list of their targets, the youngest first; a mount below keeps one from being unmounted.
\<close>

fun umount_target :: "string \<Rightarrow> string list \<Rightarrow> string list" where
  "umount_target target [] = []"
| "umount_target target (t # ts) =
     (if t = target then ts
      else if prefix (target @ ''/'') t then t # ts
      else t # umount_target target ts)"

definition plain_env :: "(string \<Rightarrow> bool) \<Rightarrow> string list menv" where
  "plain_env mountable =
     \<lparr>e_mount = (\<lambda>src target k. if mountable src then Some (target # k) else None),
      e_umount = umount_target, e_mount_program = (\<lambda>k. Some (''/a/rootfs'' # k)), e_mtab = [],
      e_exists = (\<lambda>_. True), e_create_directory = (\<lambda>_. Created), e_chown_ok = (\<lambda>_. True),
      e_free_loop = Some ''/dev/loop0'', e_loop_open_ok = True, e_attach_ok = True, e_squashfuse = ''/bin/squashfuse'',
      e_image_path = ''/a/android.img'', e_data_dir = ''/a'', e_rootfs_dir = ''/a/rootfs'',
      e_overlay_dir = ''/a/rootfs-overlay'', e_combined_rootfs_dir = ''/a/combined-rootfs''\<rparr>"

lemma plain_env_undoes: "umount_undoes (plain_env mountable)"
  by (simp add: umount_undoes_def plain_env_def)

lemma manager_restores_mounts_witness:
  "mn_kernel (snd (manager_run (plain_env (\<lambda>_. True)) False True [''/''])) = [''/''] \<and>
   mn_loops (snd (manager_run (plain_env (\<lambda>src. src \<noteq> ''/a/data'')) False False [''/''])) = []"
proof -
  have "fst (manager_run (plain_env (\<lambda>_. True)) False True [''/'']) = Setup_Done" by code_simp
  then show ?thesis
    using manager_restores_mounts [OF plain_env_undoes, of "\<lambda>_. True" False True "[''/'']"]
      manager_restores_mounts [OF plain_env_undoes, of "\<lambda>src. src \<noteq> ''/a/data''" False False "[''/'']"]
    by (metis prod.collapse)
qed

text \<open>
  When the last directory cannot be mounted, the entries are destroyed the oldest first: the mount of the root file
  system is busy, because the cache is mounted below it, and stays. The table of mounts is asked for the wrong column,
  so that the next start does not notice.
\<close>

lemma failed_setup_leaves_rootfs:
  "case manager_run (plain_env (\<lambda>src. src \<noteq> ''/a/data'')) False False [''/''] of
     (r, s) \<Rightarrow> r = Setup_Failed \<and> mn_kernel s = [''/a/rootfs'', ''/'']"
  by code_simp

lemma mounted_rootfs_unnoticed: "\<not> is_mounted [(''/dev/loop0'', ''/a/rootfs'')] ''/a/rootfs''"
  by (simp add: is_mounted_def)


end
