(* ===== verification/GLUtils.thy ===== *)
theory GLUtils
  imports Anbox_Prelude
begin

text \<open>
  Sizes and packing of OpenGL data in the client (\<open>android/opengl/shared/OpenglCodecCommon/glUtils.cpp\<close> and
  \<open>glUtils.h\<close>). Constants of OpenGL are their names, because their numbers are in headers that are not in the
  repository; where a \<open>switch\<close> has a default, any other name takes it. Client memory is a list of bytes from the
  pointer on; reading behind its end is \<open>Undefined\<close>.
\<close>

type_synonym glenum = string

section \<open>Sizes\<close>

definition glSizeof :: "glenum \<Rightarrow> nat" where
  "glSizeof type =
     (if type \<in> {''GL_BYTE'', ''GL_UNSIGNED_BYTE''} then 1
      else if type \<in> {''GL_SHORT'', ''GL_UNSIGNED_SHORT'', ''GL_HALF_FLOAT_OES''} then 2
      else if type \<in> {''GL_UNSIGNED_INT'', ''GL_INT'', ''GL_FLOAT'', ''GL_FIXED'', ''GL_BOOL''} then 4
      else if type \<in> {''GL_FLOAT_VEC2'', ''GL_INT_VEC2'', ''GL_BOOL_VEC2''} then 8
      else if type \<in> {''GL_INT_VEC3'', ''GL_BOOL_VEC3'', ''GL_FLOAT_VEC3''} then 12
      else if type \<in> {''GL_FLOAT_VEC4'', ''GL_BOOL_VEC4'', ''GL_INT_VEC4'', ''GL_FLOAT_MAT2''} then 16
      else if type = ''GL_FLOAT_MAT3'' then 36
      else if type = ''GL_FLOAT_MAT4'' then 64
      else if type \<in> {''GL_SAMPLER_2D'', ''GL_SAMPLER_CUBE''} then 4
      else 0)"

text \<open>How many values a parameter has.\<close>

definition one_value_params :: "glenum list" where
  "one_value_params =
    [''GL_DEPTH_TEST'', ''GL_DEPTH_FUNC'', ''GL_DEPTH_BITS'', ''GL_MAX_CLIP_PLANES'', ''GL_GREEN_BITS'',
     ''GL_MAX_MODELVIEW_STACK_DEPTH'', ''GL_MAX_PROJECTION_STACK_DEPTH'', ''GL_MAX_TEXTURE_STACK_DEPTH'',
     ''GL_IMPLEMENTATION_COLOR_READ_FORMAT_OES'', ''GL_IMPLEMENTATION_COLOR_READ_TYPE_OES'',
     ''GL_NUM_COMPRESSED_TEXTURE_FORMATS'', ''GL_MAX_TEXTURE_SIZE'', ''GL_TEXTURE_GEN_MODE_OES'',
     ''GL_TEXTURE_ENV_MODE'', ''GL_FOG_MODE'', ''GL_FOG_DENSITY'', ''GL_FOG_START'', ''GL_FOG_END'',
     ''GL_SPOT_EXPONENT'', ''GL_CONSTANT_ATTENUATION'', ''GL_LINEAR_ATTENUATION'', ''GL_QUADRATIC_ATTENUATION'',
     ''GL_SHININESS'', ''GL_LIGHT_MODEL_TWO_SIDE'', ''GL_POINT_SIZE'', ''GL_POINT_SIZE_MIN'',
     ''GL_POINT_SIZE_MAX'', ''GL_POINT_FADE_THRESHOLD_SIZE'', ''GL_CULL_FACE'', ''GL_CULL_FACE_MODE'',
     ''GL_FRONT_FACE'', ''GL_SHADE_MODEL'', ''GL_DEPTH_WRITEMASK'', ''GL_DEPTH_CLEAR_VALUE'',
     ''GL_STENCIL_FAIL'', ''GL_STENCIL_PASS_DEPTH_FAIL'', ''GL_STENCIL_PASS_DEPTH_PASS'', ''GL_STENCIL_REF'',
     ''GL_STENCIL_WRITEMASK'', ''GL_MATRIX_MODE'', ''GL_MODELVIEW_STACK_DEPTH'', ''GL_PROJECTION_STACK_DEPTH'',
     ''GL_TEXTURE_STACK_DEPTH'', ''GL_ALPHA_TEST_FUNC'', ''GL_ALPHA_TEST_REF'', ''GL_ALPHA_TEST'',
     ''GL_DITHER'', ''GL_BLEND_DST'', ''GL_BLEND_SRC'', ''GL_BLEND'', ''GL_LOGIC_OP_MODE'', ''GL_SCISSOR_TEST'',
     ''GL_MAX_TEXTURE_UNITS'', ''GL_ACTIVE_TEXTURE'', ''GL_ALPHA_BITS'', ''GL_ARRAY_BUFFER_BINDING'',
     ''GL_BLUE_BITS'', ''GL_CLIENT_ACTIVE_TEXTURE'', ''GL_CLIP_PLANE0'', ''GL_CLIP_PLANE1'', ''GL_CLIP_PLANE2'',
     ''GL_CLIP_PLANE3'', ''GL_CLIP_PLANE4'', ''GL_CLIP_PLANE5'', ''GL_COLOR_ARRAY'',
     ''GL_COLOR_ARRAY_BUFFER_BINDING'', ''GL_COLOR_ARRAY_SIZE'', ''GL_COLOR_ARRAY_STRIDE'',
     ''GL_COLOR_ARRAY_TYPE'', ''GL_COLOR_LOGIC_OP'', ''GL_COLOR_MATERIAL'', ''GL_PACK_ALIGNMENT'',
     ''GL_PERSPECTIVE_CORRECTION_HINT'', ''GL_POINT_SIZE_ARRAY_BUFFER_BINDING_OES'',
     ''GL_POINT_SIZE_ARRAY_STRIDE_OES'', ''GL_POINT_SIZE_ARRAY_TYPE_OES'', ''GL_POINT_SMOOTH'',
     ''GL_POINT_SMOOTH_HINT'', ''GL_POINT_SPRITE_OES'', ''GL_COORD_REPLACE_OES'', ''GL_COMBINE_ALPHA'',
     ''GL_SRC0_RGB'', ''GL_SRC1_RGB'', ''GL_SRC2_RGB'', ''GL_OPERAND0_RGB'', ''GL_OPERAND1_RGB'',
     ''GL_OPERAND2_RGB'', ''GL_SRC0_ALPHA'', ''GL_SRC1_ALPHA'', ''GL_SRC2_ALPHA'', ''GL_OPERAND0_ALPHA'',
     ''GL_OPERAND1_ALPHA'', ''GL_OPERAND2_ALPHA'', ''GL_RGB_SCALE'', ''GL_ALPHA_SCALE'', ''GL_COMBINE_RGB'',
     ''GL_POLYGON_OFFSET_FACTOR'', ''GL_POLYGON_OFFSET_FILL'', ''GL_POLYGON_OFFSET_UNITS'', ''GL_RED_BITS'',
     ''GL_RESCALE_NORMAL'', ''GL_SAMPLE_ALPHA_TO_COVERAGE'', ''GL_SAMPLE_ALPHA_TO_ONE'', ''GL_SAMPLE_BUFFERS'',
     ''GL_SAMPLE_COVERAGE'', ''GL_SAMPLE_COVERAGE_INVERT'', ''GL_SAMPLE_COVERAGE_VALUE'', ''GL_SAMPLES'',
     ''GL_MAX_SAMPLES_EXT'', ''GL_STENCIL_BITS'', ''GL_STENCIL_CLEAR_VALUE'', ''GL_STENCIL_FUNC'',
     ''GL_STENCIL_TEST'', ''GL_STENCIL_VALUE_MASK'', ''GL_STENCIL_BACK_FUNC'', ''GL_STENCIL_BACK_VALUE_MASK'',
     ''GL_STENCIL_BACK_REF'', ''GL_STENCIL_BACK_FAIL'', ''GL_STENCIL_BACK_PASS_DEPTH_FAIL'',
     ''GL_STENCIL_BACK_PASS_DEPTH_PASS'', ''GL_STENCIL_BACK_WRITEMASK'', ''GL_TEXTURE_2D'',
     ''GL_TEXTURE_BINDING_2D'', ''GL_TEXTURE_BINDING_CUBE_MAP'', ''GL_TEXTURE_BINDING_EXTERNAL_OES'',
     ''GL_TEXTURE_COORD_ARRAY'', ''GL_TEXTURE_COORD_ARRAY_BUFFER_BINDING'', ''GL_TEXTURE_COORD_ARRAY_SIZE'',
     ''GL_TEXTURE_COORD_ARRAY_STRIDE'', ''GL_TEXTURE_COORD_ARRAY_TYPE'', ''GL_UNPACK_ALIGNMENT'',
     ''GL_VERTEX_ARRAY'', ''GL_VERTEX_ARRAY_BUFFER_BINDING'', ''GL_VERTEX_ARRAY_SIZE'',
     ''GL_VERTEX_ARRAY_STRIDE'', ''GL_VERTEX_ARRAY_TYPE'', ''GL_SPOT_CUTOFF'', ''GL_TEXTURE_MIN_FILTER'',
     ''GL_TEXTURE_MAG_FILTER'', ''GL_TEXTURE_WRAP_S'', ''GL_TEXTURE_WRAP_T'', ''GL_GENERATE_MIPMAP'',
     ''GL_GENERATE_MIPMAP_HINT'', ''GL_RENDERBUFFER_WIDTH_OES'', ''GL_RENDERBUFFER_HEIGHT_OES'',
     ''GL_RENDERBUFFER_INTERNAL_FORMAT_OES'', ''GL_RENDERBUFFER_RED_SIZE_OES'',
     ''GL_RENDERBUFFER_GREEN_SIZE_OES'', ''GL_RENDERBUFFER_BLUE_SIZE_OES'', ''GL_RENDERBUFFER_ALPHA_SIZE_OES'',
     ''GL_RENDERBUFFER_DEPTH_SIZE_OES'', ''GL_RENDERBUFFER_STENCIL_SIZE_OES'', ''GL_RENDERBUFFER_BINDING'',
     ''GL_FRAMEBUFFER_BINDING'', ''GL_FRAMEBUFFER_ATTACHMENT_OBJECT_TYPE_OES'',
     ''GL_FRAMEBUFFER_ATTACHMENT_OBJECT_NAME_OES'', ''GL_FRAMEBUFFER_ATTACHMENT_TEXTURE_LEVEL_OES'',
     ''GL_FRAMEBUFFER_ATTACHMENT_TEXTURE_CUBE_MAP_FACE_OES'', ''GL_FENCE_STATUS_NV'', ''GL_FENCE_CONDITION_NV'',
     ''GL_TEXTURE_WIDTH_QCOM'', ''GL_TEXTURE_HEIGHT_QCOM'', ''GL_TEXTURE_DEPTH_QCOM'',
     ''GL_TEXTURE_INTERNAL_FORMAT_QCOM'', ''GL_TEXTURE_FORMAT_QCOM'', ''GL_TEXTURE_TYPE_QCOM'',
     ''GL_TEXTURE_IMAGE_VALID_QCOM'', ''GL_TEXTURE_NUM_LEVELS_QCOM'', ''GL_TEXTURE_TARGET_QCOM'',
     ''GL_TEXTURE_OBJECT_VALID_QCOM'', ''GL_BLEND_EQUATION_RGB_OES'', ''GL_BLEND_EQUATION_ALPHA_OES'',
     ''GL_BLEND_DST_RGB_OES'', ''GL_BLEND_SRC_RGB_OES'', ''GL_BLEND_DST_ALPHA_OES'', ''GL_BLEND_SRC_ALPHA_OES'',
     ''GL_MAX_LIGHTS'', ''GL_SHADER_TYPE'', ''GL_DELETE_STATUS'', ''GL_COMPILE_STATUS'', ''GL_INFO_LOG_LENGTH'',
     ''GL_SHADER_SOURCE_LENGTH'', ''GL_CURRENT_PROGRAM'', ''GL_LINK_STATUS'', ''GL_VALIDATE_STATUS'',
     ''GL_ATTACHED_SHADERS'', ''GL_ACTIVE_UNIFORMS'', ''GL_ACTIVE_ATTRIBUTES'', ''GL_SUBPIXEL_BITS'',
     ''GL_MAX_CUBE_MAP_TEXTURE_SIZE'', ''GL_NUM_SHADER_BINARY_FORMATS'', ''GL_SHADER_COMPILER'',
     ''GL_MAX_VERTEX_ATTRIBS'', ''GL_MAX_VERTEX_UNIFORM_VECTORS'', ''GL_MAX_VARYING_VECTORS'',
     ''GL_MAX_COMBINED_TEXTURE_IMAGE_UNITS'', ''GL_MAX_VERTEX_TEXTURE_IMAGE_UNITS'',
     ''GL_MAX_FRAGMENT_UNIFORM_VECTORS'', ''GL_MAX_RENDERBUFFER_SIZE'', ''GL_MAX_TEXTURE_IMAGE_UNITS'',
     ''GL_REQUIRED_TEXTURE_IMAGE_UNITS_OES'', ''GL_FRAGMENT_SHADER_DERIVATIVE_HINT_OES'', ''GL_LINE_WIDTH'']"

definition two_value_params :: "glenum list" where
  "two_value_params =
    [''GL_ALIASED_LINE_WIDTH_RANGE'', ''GL_ALIASED_POINT_SIZE_RANGE'', ''GL_DEPTH_RANGE'',
     ''GL_MAX_VIEWPORT_DIMS'', ''GL_SMOOTH_POINT_SIZE_RANGE'', ''GL_SMOOTH_LINE_WIDTH_RANGE'']"

definition three_value_params :: "glenum list" where
  "three_value_params =
    [''GL_SPOT_DIRECTION'', ''GL_POINT_DISTANCE_ATTENUATION'', ''GL_CURRENT_NORMAL'']"

definition four_value_params :: "glenum list" where
  "four_value_params =
    [''GL_CURRENT_VERTEX_ATTRIB'', ''GL_CURRENT_TEXTURE_COORDS'', ''GL_CURRENT_COLOR'', ''GL_FOG_COLOR'',
     ''GL_AMBIENT'', ''GL_DIFFUSE'', ''GL_SPECULAR'', ''GL_EMISSION'', ''GL_POSITION'',
     ''GL_LIGHT_MODEL_AMBIENT'', ''GL_TEXTURE_ENV_COLOR'', ''GL_SCISSOR_BOX'', ''GL_VIEWPORT'',
     ''GL_TEXTURE_CROP_RECT_OES'', ''GL_COLOR_CLEAR_VALUE'', ''GL_COLOR_WRITEMASK'', ''GL_AMBIENT_AND_DIFFUSE'',
     ''GL_BLEND_COLOR'']"

definition matrix_params :: "glenum list" where
  "matrix_params =
    [''GL_MODELVIEW_MATRIX'', ''GL_PROJECTION_MATRIX'', ''GL_TEXTURE_MATRIX'']"

definition glUtilsParamSize :: "glenum \<Rightarrow> nat" where
  "glUtilsParamSize param =
     (if param \<in> set one_value_params then 1
      else if param \<in> set two_value_params then 2
      else if param \<in> set three_value_params then 3
      else if param \<in> set four_value_params then 4
      else if param \<in> set matrix_params then 16
      else 1)"

text \<open>Bits of a pixel. Only the types of one byte look at the format.\<close>

definition format_components :: "glenum \<Rightarrow> nat" where
  "format_components format =
     (if format \<in> {''GL_ALPHA'', ''GL_LUMINANCE'', ''GL_DEPTH_COMPONENT'', ''GL_DEPTH_STENCIL_OES''} then 1
      else if format = ''GL_LUMINANCE_ALPHA'' then 2
      else if format = ''GL_RGB'' then 3
      else if format \<in> {''GL_RGBA'', ''GL_BGRA_EXT''} then 4
      else 0)"

definition glUtilsPixelBitSize :: "glenum \<Rightarrow> glenum \<Rightarrow> nat" where
  "glUtilsPixelBitSize format type =
     (if type \<in> {''GL_BYTE'', ''GL_UNSIGNED_BYTE''} then format_components format * 8
      else if type \<in> {''GL_SHORT'', ''GL_UNSIGNED_SHORT'', ''GL_UNSIGNED_SHORT_5_6_5'', ''GL_UNSIGNED_SHORT_4_4_4_4'',
          ''GL_UNSIGNED_SHORT_5_5_5_1'', ''GL_RGB565_OES'', ''GL_RGB5_A1_OES'', ''GL_RGBA4_OES''} then 16
      else if type \<in> {''GL_INT'', ''GL_UNSIGNED_INT'', ''GL_FLOAT'', ''GL_FIXED'', ''GL_UNSIGNED_INT_24_8_OES''} then 32
      else 0)"

section \<open>Packing vertex data\<close>

text \<open>
  The copies of the loop: an element of \<open>vsize\<close> bytes every \<open>stride\<close> bytes until \<open>left\<close> bytes are copied. With
  elements of no bytes it would not end.
\<close>

function pack_elements :: "byte list \<Rightarrow> nat \<Rightarrow> nat \<Rightarrow> nat \<Rightarrow> byte list list" where
  "pack_elements src vsize stride left =
     (if left = 0 \<or> vsize = 0 then []
      else take vsize src # pack_elements (drop stride src) vsize stride (left - vsize))"
  by pat_completeness auto
termination by (relation "measure (\<lambda>(src, vsize, stride, left). left)") auto

declare pack_elements.simps [simp del]

datatype packing = Packed "byte list list" | Packs_Forever | Packs_Undefined

text \<open>The writes to the stream; for \<open>glUtilsPackPointerData\<close> they are one behind the other in the destination.\<close>

definition pack_pointer_data :: "byte list \<Rightarrow> nat \<Rightarrow> glenum \<Rightarrow> nat \<Rightarrow> nat \<Rightarrow> packing" where
  "pack_pointer_data src count type stride datalen =
     (let vsize = (count * glSizeof type) mod 2 ^ 32;
          stride = (if stride = 0 then vsize else stride)
      in if stride = vsize then (if datalen \<le> length src then Packed [take datalen src] else Packs_Undefined)
         else if datalen = 0 then Packed []
         else if vsize = 0 then Packs_Forever
         else if (datalen - 1) div vsize * stride + vsize \<le> length src
         then Packed (pack_elements src vsize stride datalen) else Packs_Undefined)"

text \<open>Elements \<open>i\<close> of the client's array, whatever its stride.\<close>

definition element_bytes :: "byte list \<Rightarrow> nat \<Rightarrow> nat \<Rightarrow> nat \<Rightarrow> byte list" where
  "element_bytes src vsize stride i = take vsize (drop (i * stride) src)"

lemma pack_elements_nth:
  "0 < vsize \<Longrightarrow> pack_elements src vsize stride (n * vsize) = map (element_bytes src vsize stride) [0..<n]"
proof (induction n arbitrary: src)
  case (Suc n)
  have "pack_elements src vsize stride (Suc n * vsize) =
      take vsize src # pack_elements (drop stride src) vsize stride (n * vsize)"
    using Suc.prems by (simp add: pack_elements.simps [of src vsize stride "vsize + n * vsize"])
  also have "\<dots> = map (element_bytes src vsize stride) (0 # map Suc [0..<n])"
    using Suc by (simp add: element_bytes_def add.commute)
  finally show ?case by (simp only: map_Suc_upt upt_conv_Cons [of 0 "Suc n", OF zero_less_Suc])
qed (simp add: pack_elements.simps)

lemma concat_dense_elements: "n * v \<le> length src \<Longrightarrow> concat (map (element_bytes src v v) [0..<n]) = take (n * v) src"
proof (induction n)
  case (Suc n)
  have "concat (map (element_bytes src v v) [0..<Suc n]) =
      concat (map (element_bytes src v v) [0..<n]) @ take v (drop (n * v) src)"
    by (simp add: element_bytes_def [of src v v n])
  also have "concat (map (element_bytes src v v) [0..<n]) = take (n * v) src"
    using Suc by simp
  also have "take (n * v) src @ take v (drop (n * v) src) = take (n * v + v) src" by (simp only: take_add)
  finally show ?case by (simp add: add.commute)
qed simp

text \<open>The bytes sent for \<open>n\<close> elements are these elements, for every stride, as long as the array is readable.\<close>

lemma pack_pointer_data_step:
  assumes "vsize = count * glSizeof type" "vsize < 2 ^ 32" "step = (if stride = 0 then vsize else stride)"
  shows "pack_pointer_data src count type stride datalen =
    (if step = vsize then (if datalen \<le> length src then Packed [take datalen src] else Packs_Undefined)
     else if datalen = 0 then Packed []
     else if vsize = 0 then Packs_Forever
     else if (datalen - 1) div vsize * step + vsize \<le> length src
     then Packed (pack_elements src vsize step datalen) else Packs_Undefined)"
proof -
  have "(count * glSizeof type) mod 2 ^ 32 = vsize" using assms(1,2) by simp
  then show ?thesis by (simp only: pack_pointer_data_def Let_def assms(3))
qed

lemma packed_elements:
  assumes "vsize = count * glSizeof type" "vsize < 2 ^ 32" "0 < vsize" "0 < n"
    and "step = (if stride = 0 then vsize else stride)" "(n - 1) * step + vsize \<le> length src"
  shows "\<exists>ws. pack_pointer_data src count type stride (n * vsize) = Packed ws \<and>
    concat ws = concat (map (element_bytes src vsize step) [0..<n])"
proof (cases "step = vsize")
  case True
  from assms(4) have "n * vsize = (n - 1) * vsize + vsize"
    by (metis Suc_diff_1 mult_Suc add.commute)
  with assms(6) True have "n * vsize \<le> length src" by simp
  with True show ?thesis
    by (simp add: pack_pointer_data_step [OF assms(1,2,5)] concat_dense_elements)
next
  case False
  have "(n * vsize - 1) div vsize = n - 1"
  proof -
    have "n * vsize - 1 = (vsize - 1) + (n - 1) * vsize"
      using assms(3,4) by (cases n) auto
    moreover have "\<dots> div vsize = (n - 1) + (vsize - 1) div vsize"
      using assms(3) by (simp only: div_mult_self1)
    ultimately show ?thesis using assms(3) by simp
  qed
  with False assms(3,4,6) show ?thesis
    by (simp add: pack_pointer_data_step [OF assms(1,2,5)] pack_elements_nth)
qed

section \<open>Shader sources\<close>

text \<open>
  A string with its length; None is a null pointer, a negative length asks for the zero at the end. Without an array of
  lengths all are negative.
\<close>

type_synonym source = "byte list option \<times> int"

definition source_length :: "source \<Rightarrow> nat" where
  "source_length s =
     (case s of (str, len) \<Rightarrow> if len < 0 then (case str of None \<Rightarrow> 0 | Some bs \<Rightarrow> length bs) else nat len)"

definition glUtilsCalcShaderSourceLen :: "source list \<Rightarrow> nat" where
  "glUtilsCalcShaderSourceLen ss = sum_list (map source_length ss)"

text \<open>
  \<open>strcat\<close> and \<open>strncat\<close> on the buffer from \<open>p\<close> on: they look for a zero there and write the string and a zero
  over it. None: no zero, or no room.
\<close>

definition append_at :: "nat \<Rightarrow> byte list \<Rightarrow> byte list \<Rightarrow> byte list option" where
  "append_at p s buf =
     (let q = p + length (takeWhile (\<lambda>b. b \<noteq> 0) (drop p buf))
      in if q < length buf \<and> q + length s < length buf
         then Some (take q buf @ s @ [0] @ drop (q + length s + 1) buf) else None)"

fun pack_strings_from :: "nat \<Rightarrow> source list \<Rightarrow> byte list \<Rightarrow> byte list option" where
  "pack_strings_from p [] buf = Some buf"
| "pack_strings_from p ((None, len) # ss) buf = pack_strings_from p ss buf"
| "pack_strings_from p ((Some s, len) # ss) buf =
     (let l = (if len < 0 then length s else nat len) in
      case append_at p (take l s) buf of
        None \<Rightarrow> None
      | Some buf \<Rightarrow> pack_strings_from (p + l) ss buf)"

definition glUtilsPackStrings :: "source list \<Rightarrow> byte list \<Rightarrow> byte list option" where
  "glUtilsPackStrings ss buf = (if buf = [] then None else pack_strings_from 0 ss (0 # tl buf))"

definition source_text :: "source \<Rightarrow> byte list" where
  "source_text s = (case s of (None, _) \<Rightarrow> [] | (Some bs, len) \<Rightarrow> if len < 0 then bs else take (nat len) bs)"

text \<open>No zero in a string, and no length beyond its end.\<close>

definition source_ok :: "source \<Rightarrow> bool" where
  "source_ok s = (case s of (None, _) \<Rightarrow> True | (Some bs, len) \<Rightarrow> 0 \<notin> set bs \<and> len \<le> int (length bs))"

lemma append_at_end:
  assumes "p < length buf" "buf ! p = 0" "p + length s < length buf"
  shows "append_at p s buf = Some (take p buf @ s @ [0] @ drop (p + length s + 1) buf)"
proof -
  have "drop p buf = 0 # drop (Suc p) buf" using assms(1,2) by (metis Cons_nth_drop_Suc)
  then have "takeWhile (\<lambda>b. b \<noteq> 0) (drop p buf) = []" by simp
  with assms show ?thesis by (simp add: append_at_def)
qed

lemma pack_strings_from_texts:
  "list_all source_ok ss \<Longrightarrow> p < length buf \<Longrightarrow> buf ! p = 0 \<Longrightarrow>
   p + length (concat (map source_text ss)) < length buf \<Longrightarrow>
   \<exists>rest. pack_strings_from p ss buf = Some (take p buf @ concat (map source_text ss) @ [0] @ rest)"
proof (induction p ss buf rule: pack_strings_from.induct)
  case (1 p buf)
  then have "buf = take p buf @ 0 # drop (Suc p) buf" using id_take_nth_drop [of p buf] by simp
  then show ?case by auto
next
  case (2 p len ss buf)
  then show ?case by (simp add: source_text_def)
next
  case (3 p s len ss buf)
  let ?l = "if len < 0 then length s else nat len"
  have l: "?l \<le> length s" using "3.prems"(1) by (auto simp: source_ok_def)
  have t: "source_text (Some s, len) = take ?l s" by (simp add: source_text_def)
  let ?buf = "take p buf @ take ?l s @ [0] @ drop (p + ?l + 1) buf"
  have a: "append_at p (take ?l s) buf = Some ?buf"
    using append_at_end [OF "3.prems"(2,3), of "take ?l s"] "3.prems"(4) l t by simp
  have len: "length ?buf = length buf" using "3.prems"(4) l t by simp
  have "\<exists>rest. pack_strings_from (p + ?l) ss ?buf =
      Some (take (p + ?l) ?buf @ concat (map source_text ss) @ [0] @ rest)"
    by (rule "3.IH" [OF refl a]) (use "3.prems" l t len in \<open>auto simp: nth_append\<close>)
  moreover have "take (p + ?l) ?buf = take p buf @ take ?l s"
    using "3.prems"(2) l by simp
  ultimately show ?case using a t by (simp add: Let_def)
qed

text \<open>
  With room for the length that is computed and a zero, the buffer holds the texts one behind the other, and a zero.
\<close>

lemma source_length_text: "source_ok s \<Longrightarrow> length (source_text s) \<le> source_length s"
  by (cases s) (auto simp: source_ok_def source_text_def source_length_def split: option.splits)

lemma packed_sources:
  assumes "list_all source_ok ss" "glUtilsCalcShaderSourceLen ss < length buf"
  shows "\<exists>rest. glUtilsPackStrings ss buf = Some (concat (map source_text ss) @ [0] @ rest)"
proof -
  have "length (concat (map source_text ss)) \<le> glUtilsCalcShaderSourceLen ss"
    using assms(1) by (induction ss) (auto simp: glUtilsCalcShaderSourceLen_def dest: source_length_text)
  with assms(2) have "length (concat (map source_text ss)) < length buf" by simp
  with pack_strings_from_texts [OF assms(1), of 0 "0 # tl buf"] show ?thesis
    by (cases buf) (simp_all add: glUtilsPackStrings_def)
qed

text \<open>
  A length beyond the end of a string moves the next one behind the zero: it is looked for in memory nobody has
  written, here full of sevens.
\<close>

lemma packed_long_length:
  "glUtilsPackStrings [(Some [65], 2), (Some [66], -1)] [7, 7, 7, 7] = None"
  by (simp add: glUtilsPackStrings_def append_at_def)

section \<open>Indices\<close>

text \<open>A number that is stored in an \<open>int\<close>.\<close>

definition int32 :: "int \<Rightarrow> int" where
  "int32 x = (x + 2 ^ 31) mod 2 ^ 32 - 2 ^ 31"

lemma int32_small: "0 \<le> x \<Longrightarrow> x < 2 ^ 31 \<Longrightarrow> int32 x = x"
  by (simp add: int32_def)

text \<open>
  The smallest and the greatest index; -1 stands for none so far. An index that is an \<open>unsigned int\<close> is compared as one
  with the \<open>int\<close> and stored in it; smaller types are promoted to \<open>int\<close>.
\<close>

fun minmax_from :: "int \<Rightarrow> int \<Rightarrow> int list \<Rightarrow> int \<times> int" where
  "minmax_from mi ma [] = (mi, ma)"
| "minmax_from mi ma (i # is) =
     minmax_from (if mi = -1 \<or> i < mi mod 2 ^ 32 then int32 i else mi)
       (if ma = -1 \<or> i > ma mod 2 ^ 32 then int32 i else ma) is"

definition minmax :: "int list \<Rightarrow> int \<times> int" where
  "minmax is = minmax_from (-1) (-1) is"

definition shiftIndices :: "nat \<Rightarrow> int \<Rightarrow> int list \<Rightarrow> int list" where
  "shiftIndices width offset is = map (\<lambda>i. (i + offset) mod 2 ^ width) is"

lemma minmax_from_Min_Max:
  "0 \<le> mi \<Longrightarrow> mi < 2 ^ 31 \<Longrightarrow> 0 \<le> ma \<Longrightarrow> ma < 2 ^ 31 \<Longrightarrow> list_all (\<lambda>i. 0 \<le> i \<and> i < 2 ^ 31) is \<Longrightarrow>
   minmax_from mi ma is = (Min (set (mi # is)), Max (set (ma # is)))"
proof (induction mi ma "is" rule: minmax_from.induct)
  case (2 mi ma i "is")
  have "(if mi = -1 \<or> i < mi mod 2 ^ 32 then int32 i else mi) = min mi i"
    "(if ma = -1 \<or> i > ma mod 2 ^ 32 then int32 i else ma) = max ma i"
    using 2 by (auto simp: int32_small)
  with 2 show ?case
    by (cases "is = []") (simp_all add: min.assoc max.assoc)
qed simp

lemma minmax_Min_Max:
  "is \<noteq> [] \<Longrightarrow> list_all (\<lambda>i. 0 \<le> i \<and> i < 2 ^ 31) is \<Longrightarrow> minmax is = (Min (set is), Max (set is))"
  by (cases "is") (simp_all add: minmax_def minmax_from_Min_Max int32_small)

text \<open>A pixel of four floats is taken to have as many bits as one of them.\<close>

lemma float_pixels_too_small: "glUtilsPixelBitSize ''GL_RGBA'' ''GL_FLOAT'' = 8 * glSizeof ''GL_FLOAT''"
  by (simp add: glUtilsPixelBitSize_def glSizeof_def)


end
