(* ===== verification/GLClientState.thy ===== *)
theory GLClientState
  imports GLUtils
begin

text \<open>
  What the client knows of an OpenGL context without asking the host
  (\<open>android/opengl/shared/OpenglCodecCommon/GLClientState.{h,cpp}\<close>): the vertex arrays, pixel storage, bound buffers,
  and which textures are bound to the targets \<open>GL_TEXTURE_2D\<close> and \<open>GL_TEXTURE_EXTERNAL_OES\<close> of the texture units.
  The textures that were used are a sorted array, searched by \<open>bsearch\<close>.

  Shown here: the array is a map from names of textures to targets, a texture is bound to targets of its own kind only
  and is forgotten everywhere when it is deleted; the size of pixel data.
\<close>

section \<open>State\<close>

record attrib_state =
  va_enabled :: int
  va_size :: int
  va_type :: glenum
  va_stride :: int
  va_data :: nat
  va_bufferObject :: u32
  va_glConst :: glenum
  va_elementSize :: nat
  va_enableDirty :: bool
  va_normalized :: bool

record texture_unit =
  tu_enables :: u32
  tu_2d :: u32
  tu_external :: u32

record gl_client =
  gc_states :: "attrib_state list"
  gc_unpack :: int
  gc_pack :: int
  gc_maxVertexAttribs :: int
  gc_maxVertexAttribsDirty :: bool
  gc_arrayVbo :: u32
  gc_indexVbo :: u32
  gc_activeTexture :: int
  gc_program :: int
  gc_units :: "texture_unit list"
  gc_activeUnit :: nat
  gc_textures :: "(u32 \<times> glenum) list"
  gc_allocTextures :: nat

abbreviation LAST_LOCATION :: nat where "LAST_LOCATION \<equiv> 14"
abbreviation MAX_TEXTURE_UNITS :: nat where "MAX_TEXTURE_UNITS \<equiv> 32"

definition location_consts :: "glenum list" where
  "location_consts =
     [''GL_VERTEX_ARRAY'', ''GL_NORMAL_ARRAY'', ''GL_COLOR_ARRAY'', ''GL_POINT_SIZE_ARRAY_OES''] @
     replicate 8 ''GL_TEXTURE_COORD_ARRAY'' @ [''GL_MATRIX_INDEX_ARRAY_OES'', ''GL_WEIGHT_ARRAY_OES'']"

text \<open>\<open>junk\<close> is what the fields hold that the constructor does not set.\<close>

definition gl_client_new :: "attrib_state \<Rightarrow> int \<Rightarrow> int \<Rightarrow> gl_client" where
  "gl_client_new junk junk_max nLocations =
     (let n = (if nLocations < int LAST_LOCATION then LAST_LOCATION else nat nLocations);
          st = junk\<lparr>va_enabled := 0, va_enableDirty := False, va_data := 0\<rparr>
      in \<lparr>gc_states = map (\<lambda>i. if i < LAST_LOCATION then st\<lparr>va_glConst := location_consts ! i\<rparr> else st) [0..<n],
          gc_unpack = 4, gc_pack = 4, gc_maxVertexAttribs = junk_max, gc_maxVertexAttribsDirty = True,
          gc_arrayVbo = 0, gc_indexVbo = 0, gc_activeTexture = 0, gc_program = 0,
          gc_units = replicate MAX_TEXTURE_UNITS \<lparr>tu_enables = 0, tu_2d = 0, tu_external = 0\<rparr>, gc_activeUnit = 0,
          gc_textures = [], gc_allocTextures = 0\<rparr>)"

definition validLocation :: "gl_client \<Rightarrow> int \<Rightarrow> bool" where
  "validLocation c location \<longleftrightarrow> 0 \<le> location \<and> location < int (length (gc_states c))"

section \<open>Vertex arrays\<close>

definition gl_update :: "int \<Rightarrow> (attrib_state \<Rightarrow> attrib_state) \<Rightarrow> gl_client \<Rightarrow> gl_client" where
  "gl_update location f c =
     (if validLocation c location
      then c\<lparr>gc_states := (gc_states c)[nat location := f (gc_states c ! nat location)]\<rparr> else c)"

definition gl_enable :: "int \<Rightarrow> int \<Rightarrow> gl_client \<Rightarrow> gl_client" where
  "gl_enable location state =
     gl_update location (\<lambda>s. s\<lparr>va_enableDirty := va_enableDirty s \<or> state \<noteq> va_enabled s, va_enabled := state\<rparr>)"

text \<open>\<open>glSizeof(type) * size\<close> is converted to \<open>unsigned int\<close>.\<close>

definition gl_setState :: "int \<Rightarrow> int \<Rightarrow> glenum \<Rightarrow> bool \<Rightarrow> int \<Rightarrow> nat \<Rightarrow> gl_client \<Rightarrow> gl_client" where
  "gl_setState location count type normalized stride data c =
     gl_update location (\<lambda>s. s\<lparr>va_size := count, va_type := type, va_stride := stride, va_data := data,
       va_bufferObject := gc_arrayVbo c,
       va_elementSize := (if count \<noteq> 0 then nat ((int (glSizeof type) * count) mod 2 ^ 32) else 0),
       va_normalized := normalized\<rparr>) c"

definition gl_setBufferObject :: "int \<Rightarrow> u32 \<Rightarrow> gl_client \<Rightarrow> gl_client" where
  "gl_setBufferObject location i = gl_update location (\<lambda>s. s\<lparr>va_bufferObject := i\<rparr>)"

definition gl_getState :: "int \<Rightarrow> gl_client \<Rightarrow> attrib_state option" where
  "gl_getState location c =
     (if validLocation c location then Some (gc_states c ! nat location) else None)"

definition getStateAndEnableDirty :: "int \<Rightarrow> gl_client \<Rightarrow> (attrib_state \<times> bool) option \<times> gl_client" where
  "getStateAndEnableDirty location c =
     (case gl_getState location c of
        None \<Rightarrow> (None, c)
      | Some s \<Rightarrow> (Some (s\<lparr>va_enableDirty := False\<rparr>, va_enableDirty s),
                   gl_update location (\<lambda>s. s\<lparr>va_enableDirty := False\<rparr>) c))"

text \<open>\<open>other\<close> is the number of a constant that is not one of the arrays.\<close>

definition getLocation :: "glenum \<Rightarrow> int \<Rightarrow> gl_client \<Rightarrow> int" where
  "getLocation loc other c =
     (if loc = ''GL_VERTEX_ARRAY'' then 0
      else if loc = ''GL_NORMAL_ARRAY'' then 1
      else if loc = ''GL_COLOR_ARRAY'' then 2
      else if loc = ''GL_POINT_SIZE_ARRAY_OES'' then 3
      else if loc = ''GL_TEXTURE_COORD_ARRAY'' then 4 + gc_activeTexture c
      else if loc = ''GL_MATRIX_INDEX_ARRAY_OES'' then 12
      else if loc = ''GL_WEIGHT_ARRAY_OES'' then 13
      else other)"

definition setActiveTexture :: "int \<Rightarrow> gl_client \<Rightarrow> gl_client" where
  "setActiveTexture texUnit c = c\<lparr>gc_activeTexture := texUnit\<rparr>"

definition setMaxVertexAttribs :: "int \<Rightarrow> gl_client \<Rightarrow> gl_client" where
  "setMaxVertexAttribs val c = c\<lparr>gc_maxVertexAttribs := val, gc_maxVertexAttribsDirty := False\<rparr>"

definition setCurrentProgram :: "int \<Rightarrow> gl_client \<Rightarrow> gl_client" where
  "setCurrentProgram program c = c\<lparr>gc_program := program\<rparr>"

text \<open>The pointer that is written, if one is.\<close>

definition getClientStatePointer :: "glenum \<Rightarrow> gl_client \<Rightarrow> nat option" where
  "getClientStatePointer pname c =
     (let location =
        (if pname = ''GL_VERTEX_ARRAY_POINTER'' then Some 0
         else if pname = ''GL_NORMAL_ARRAY_POINTER'' then Some 1
         else if pname = ''GL_COLOR_ARRAY_POINTER'' then Some 2
         else if pname = ''GL_TEXTURE_COORD_ARRAY_POINTER'' then Some (gc_activeTexture c + 4)
         else if pname = ''GL_POINT_SIZE_ARRAY_POINTER_OES'' then Some 3
         else if pname = ''GL_MATRIX_INDEX_ARRAY_POINTER_OES'' then Some 12
         else if pname = ''GL_WEIGHT_ARRAY_POINTER_OES'' then Some 13
         else None)
      in case location of None \<Rightarrow> None | Some l \<Rightarrow> map_option va_data (gl_getState l c))"

section \<open>Buffers and pixels\<close>

definition bindBuffer :: "glenum \<Rightarrow> u32 \<Rightarrow> gl_client \<Rightarrow> int \<times> gl_client" where
  "bindBuffer target i c =
     (if target = ''GL_ARRAY_BUFFER'' then (0, c\<lparr>gc_arrayVbo := i\<rparr>)
      else if target = ''GL_ELEMENT_ARRAY_BUFFER'' then (0, c\<lparr>gc_indexVbo := i\<rparr>)
      else (-1, c))"

definition unBindBuffer :: "u32 \<Rightarrow> gl_client \<Rightarrow> gl_client" where
  "unBindBuffer i c =
     (if gc_arrayVbo c = i then c\<lparr>gc_arrayVbo := 0\<rparr>
      else if gc_indexVbo c = i then c\<lparr>gc_indexVbo := 0\<rparr> else c)"

definition getBuffer :: "glenum \<Rightarrow> gl_client \<Rightarrow> int" where
  "getBuffer target c =
     (if target = ''GL_ARRAY_BUFFER'' then sint (gc_arrayVbo c)
      else if target = ''GL_ELEMENT_ARRAY_BUFFER'' then sint (gc_indexVbo c)
      else -1)"

text \<open>The error, or that there is none.\<close>

definition setPixelStore :: "glenum \<Rightarrow> int \<Rightarrow> gl_client \<Rightarrow> glenum option \<times> gl_client" where
  "setPixelStore param val c =
     (if param = ''GL_UNPACK_ALIGNMENT'' then
        (if val \<in> {1, 2, 4, 8} then (None, c\<lparr>gc_unpack := val\<rparr>) else (Some ''GL_INVALID_VALUE'', c))
      else if param = ''GL_PACK_ALIGNMENT'' then
        (if val \<in> {1, 2, 4, 8} then (None, c\<lparr>gc_pack := val\<rparr>) else (Some ''GL_INVALID_VALUE'', c))
      else (Some ''GL_INVALID_ENUM'', c))"

text \<open>
  The size of a row is a product of \<open>int\<close>, the number of blocks in it is cast back to \<open>int\<close>; the rest is in
  \<open>size_t\<close>. The products are taken modulo here.
\<close>

definition pixelDataSize :: "int \<Rightarrow> int \<Rightarrow> glenum \<Rightarrow> glenum \<Rightarrow> bool \<Rightarrow> gl_client \<Rightarrow> int" where
  "pixelDataSize width height format type pack c =
     (if width \<le> 0 \<or> height \<le> 0 then 0
      else
        let pixelsize = int (glUtilsPixelBitSize format type div 8);
            alignment = (if pack then gc_pack c else gc_unpack c);
            linesize = int32 (pixelsize * width) mod 2 ^ 64;
            aligned = (int32 (linesize div alignment) * alignment) mod 2 ^ 64;
            aligned = (if aligned < linesize then (aligned + alignment) mod 2 ^ 64 else aligned)
        in (aligned * height) mod 2 ^ 64)"

section \<open>Textures\<close>

abbreviation active_unit :: "gl_client \<Rightarrow> texture_unit" where
  "active_unit c \<equiv> gc_units c ! gc_activeUnit c"

definition update_unit :: "(texture_unit \<Rightarrow> texture_unit) \<Rightarrow> gl_client \<Rightarrow> gl_client" where
  "update_unit f c = c\<lparr>gc_units := (gc_units c)[gc_activeUnit c := f (active_unit c)]\<rparr>"

text \<open>\<open>unit\<close> is the constant less \<open>GL_TEXTURE0\<close>, unsigned.\<close>

definition setActiveTextureUnit :: "u32 \<Rightarrow> gl_client \<Rightarrow> glenum \<times> gl_client" where
  "setActiveTextureUnit unit c =
     (if unat unit \<ge> MAX_TEXTURE_UNITS then (''GL_INVALID_ENUM'', c)
      else (''GL_NO_ERROR'', c\<lparr>gc_activeUnit := unat unit\<rparr>))"

definition enableTextureTarget :: "glenum \<Rightarrow> gl_client \<Rightarrow> gl_client" where
  "enableTextureTarget target c =
     (if target = ''GL_TEXTURE_2D'' then update_unit (\<lambda>u. u\<lparr>tu_enables := tu_enables u OR 1\<rparr>) c
      else if target = ''GL_TEXTURE_EXTERNAL_OES'' then update_unit (\<lambda>u. u\<lparr>tu_enables := tu_enables u OR 2\<rparr>) c
      else c)"

definition disableTextureTarget :: "glenum \<Rightarrow> gl_client \<Rightarrow> gl_client" where
  "disableTextureTarget target c =
     (if target = ''GL_TEXTURE_2D'' then update_unit (\<lambda>u. u\<lparr>tu_enables := tu_enables u AND NOT 1\<rparr>) c
      else if target = ''GL_TEXTURE_EXTERNAL_OES''
      then update_unit (\<lambda>u. u\<lparr>tu_enables := tu_enables u AND NOT 2\<rparr>) c
      else c)"

definition getPriorityEnabledTarget :: "glenum \<Rightarrow> gl_client \<Rightarrow> glenum" where
  "getPriorityEnabledTarget allDisabled c =
     (let enables = tu_enables (active_unit c) in
      if enables AND 2 \<noteq> 0 then ''GL_TEXTURE_EXTERNAL_OES''
      else if enables AND 1 \<noteq> 0 then ''GL_TEXTURE_2D''
      else allDisabled)"

text \<open>The difference of the two names as signed numbers; an overflow, which is undefined, wraps around here.\<close>

definition compareTexId :: "u32 \<Rightarrow> u32 \<times> glenum \<Rightarrow> int" where
  "compareTexId i rec = sint (i - fst rec)"

text \<open>\<open>bsearch\<close> of the C library: \<open>lim\<close> elements from \<open>base\<close> on are left. The index of what it finds.\<close>

function bsearch :: "u32 \<Rightarrow> (u32 \<times> glenum) list \<Rightarrow> nat \<Rightarrow> nat \<Rightarrow> nat option" where
  "bsearch i xs base lim =
     (if lim = 0 then None
      else let p = base + lim div 2; cmp = compareTexId i (xs ! p) in
        if cmp = 0 then Some p
        else if cmp > 0 then bsearch i xs (p + 1) ((lim - 1) div 2)
        else bsearch i xs base (lim div 2))"
  by pat_completeness auto
termination by (relation "measure (\<lambda>(i, xs, base, lim). lim)") auto

declare bsearch.simps [simp del]

definition find_texture :: "u32 \<Rightarrow> gl_client \<Rightarrow> nat option" where
  "find_texture i c = bsearch i (gc_textures c) 0 (length (gc_textures c))"

text \<open>Room for one more record: the new size, or None when there is none; \<open>realloc_ok\<close> is the answer of \<open>realloc\<close>.\<close>

definition grown_alloc :: "bool \<Rightarrow> nat \<Rightarrow> nat option" where
  "grown_alloc realloc_ok alloc =
     (let max_textures = 2 ^ 32 - 1 in
      if max_textures - alloc \<ge> alloc then (if realloc_ok then Some (max 4 (2 * alloc)) else None)
      else if alloc = max_textures then None
      else if realloc_ok then Some max_textures else None)"

text \<open>The loop moves records with greater names up, from the end on.\<close>

definition insert_texture :: "u32 \<Rightarrow> glenum \<Rightarrow> (u32 \<times> glenum) list \<Rightarrow> (u32 \<times> glenum) list" where
  "insert_texture i target xs =
     (let moved = takeWhile (\<lambda>r. i < fst r) (rev xs) in
      take (length xs - length moved) xs @ (i, target) # rev moved)"

definition addTextureRec :: "bool \<Rightarrow> u32 \<Rightarrow> glenum \<Rightarrow> gl_client \<Rightarrow> gl_client option" where
  "addTextureRec realloc_ok i target c =
     (case (if length (gc_textures c) = gc_allocTextures c then grown_alloc realloc_ok (gc_allocTextures c)
            else Some (gc_allocTextures c)) of
        None \<Rightarrow> None
      | Some alloc \<Rightarrow>
          Some (c\<lparr>gc_textures := insert_texture i target (gc_textures c), gc_allocTextures := alloc\<rparr>))"

definition put_texture :: "glenum \<Rightarrow> u32 \<Rightarrow> gl_client \<Rightarrow> gl_client" where
  "put_texture target texture c =
     (if target = ''GL_TEXTURE_2D'' then update_unit (\<lambda>u. u\<lparr>tu_2d := texture\<rparr>) c
      else if target = ''GL_TEXTURE_EXTERNAL_OES'' then update_unit (\<lambda>u. u\<lparr>tu_external := texture\<rparr>) c
      else c)"

text \<open>The result, and whether it is the first use, which is only told without an error.\<close>

definition bindTexture :: "bool \<Rightarrow> glenum \<Rightarrow> u32 \<Rightarrow> gl_client \<Rightarrow> (glenum \<times> bool option) \<times> gl_client" where
  "bindTexture realloc_ok target texture c =
     (if texture = 0 then ((''GL_NO_ERROR'', Some False), put_texture target 0 c)
      else case find_texture texture c of
          Some j \<Rightarrow>
            if target \<noteq> snd (gc_textures c ! j) then ((''GL_INVALID_OPERATION'', None), c)
            else ((''GL_NO_ERROR'', Some False), put_texture target texture c)
        | None \<Rightarrow>
            (case addTextureRec realloc_ok texture target c of
               None \<Rightarrow> ((''GL_OUT_OF_MEMORY'', None), c)
             | Some c \<Rightarrow> ((''GL_NO_ERROR'', Some True), put_texture target texture c)))"

definition getBoundTexture :: "glenum \<Rightarrow> gl_client \<Rightarrow> u32" where
  "getBoundTexture target c =
     (if target = ''GL_TEXTURE_2D'' then tu_2d (active_unit c)
      else if target = ''GL_TEXTURE_EXTERNAL_OES'' then tu_external (active_unit c)
      else 0)"

definition unbind_unit :: "u32 \<Rightarrow> texture_unit \<Rightarrow> texture_unit" where
  "unbind_unit texture u =
     (if tu_2d u = texture then u\<lparr>tu_2d := 0\<rparr>
      else if tu_external u = texture then u\<lparr>tu_external := 0\<rparr> else u)"

definition delete_texture :: "u32 \<Rightarrow> gl_client \<Rightarrow> gl_client" where
  "delete_texture texture c =
     (case find_texture texture c of
        None \<Rightarrow> c
      | Some j \<Rightarrow> c\<lparr>gc_textures := take j (gc_textures c) @ drop (j + 1) (gc_textures c),
                    gc_units := map (unbind_unit texture) (gc_units c)\<rparr>)"

definition deleteTextures :: "u32 list \<Rightarrow> gl_client \<Rightarrow> gl_client" where
  "deleteTextures textures c = fold delete_texture textures c"

section \<open>Parameters\<close>

datatype attrib_field = Field_Size | Field_Type | Field_Stride | Field_Buffer

datatype gl_value = Num int | Enum glenum

fun field_value :: "attrib_field \<Rightarrow> attrib_state \<Rightarrow> gl_value" where
  "field_value Field_Size s = Num (va_size s)"
| "field_value Field_Type s = Enum (va_type s)"
| "field_value Field_Stride s = Num (va_stride s)"
| "field_value Field_Buffer s = Num (uint (va_bufferObject s))"

text \<open>The parameters of the arrays, with the array and its field; the array of texture coordinates is the active one.\<close>

definition array_params :: "(glenum \<times> int option \<times> attrib_field) list" where
  "array_params =
     [(''GL_VERTEX_ARRAY_SIZE'', Some 0, Field_Size), (''GL_VERTEX_ARRAY_TYPE'', Some 0, Field_Type),
      (''GL_VERTEX_ARRAY_STRIDE'', Some 0, Field_Stride), (''GL_COLOR_ARRAY_SIZE'', Some 2, Field_Size),
      (''GL_COLOR_ARRAY_TYPE'', Some 2, Field_Type), (''GL_COLOR_ARRAY_STRIDE'', Some 2, Field_Stride),
      (''GL_NORMAL_ARRAY_TYPE'', Some 1, Field_Type), (''GL_NORMAL_ARRAY_STRIDE'', Some 1, Field_Stride),
      (''GL_TEXTURE_COORD_ARRAY_SIZE'', None, Field_Size), (''GL_TEXTURE_COORD_ARRAY_TYPE'', None, Field_Type),
      (''GL_TEXTURE_COORD_ARRAY_STRIDE'', None, Field_Stride), (''GL_POINT_SIZE_ARRAY_TYPE_OES'', Some 3, Field_Type),
      (''GL_POINT_SIZE_ARRAY_STRIDE_OES'', Some 3, Field_Stride),
      (''GL_MATRIX_INDEX_ARRAY_SIZE_OES'', Some 12, Field_Size),
      (''GL_MATRIX_INDEX_ARRAY_TYPE_OES'', Some 12, Field_Type),
      (''GL_MATRIX_INDEX_ARRAY_STRIDE_OES'', Some 12, Field_Stride),
      (''GL_WEIGHT_ARRAY_SIZE_OES'', Some 13, Field_Size), (''GL_WEIGHT_ARRAY_TYPE_OES'', Some 13, Field_Type),
      (''GL_WEIGHT_ARRAY_STRIDE_OES'', Some 13, Field_Stride),
      (''GL_VERTEX_ARRAY_BUFFER_BINDING'', Some 0, Field_Buffer),
      (''GL_NORMAL_ARRAY_BUFFER_BINDING'', Some 1, Field_Buffer),
      (''GL_COLOR_ARRAY_BUFFER_BINDING'', Some 2, Field_Buffer),
      (''GL_TEXTURE_COORD_ARRAY_BUFFER_BINDING'', None, Field_Buffer),
      (''GL_POINT_SIZE_ARRAY_BUFFER_BINDING_OES'', Some 3, Field_Buffer),
      (''GL_MATRIX_INDEX_ARRAY_BUFFER_BINDING_OES'', Some 12, Field_Buffer),
      (''GL_WEIGHT_ARRAY_BUFFER_BINDING_OES'', Some 13, Field_Buffer)]"

text \<open>
  The value, or nothing if the host has to be asked. \<open>texture0\<close> is the number of \<open>GL_TEXTURE0\<close>. The state of an
  array is not tested for a null pointer.
\<close>

definition getClientStateParameter :: "int \<Rightarrow> glenum \<Rightarrow> gl_client \<Rightarrow> fault + gl_value option" where
  "getClientStateParameter texture0 param c =
     (case map_of array_params param of
        Some (location, field) \<Rightarrow>
          (case gl_getState (case location of None \<Rightarrow> gc_activeTexture c + 4 | Some l \<Rightarrow> l) c of
             None \<Rightarrow> Inl Undefined
           | Some s \<Rightarrow> Inr (Some (field_value field s)))
      | None \<Rightarrow>
          if param = ''GL_CLIENT_ACTIVE_TEXTURE'' then Inr (Some (Num (gc_activeTexture c + texture0)))
          else if param = ''GL_ARRAY_BUFFER_BINDING'' then Inr (Some (Num (getBuffer ''GL_ARRAY_BUFFER'' c)))
          else if param = ''GL_ELEMENT_ARRAY_BUFFER_BINDING''
          then Inr (Some (Num (getBuffer ''GL_ELEMENT_ARRAY_BUFFER'' c)))
          else if param = ''GL_MAX_VERTEX_ATTRIBS''
          then Inr (if gc_maxVertexAttribsDirty c then None else Some (Num (gc_maxVertexAttribs c)))
          else Inr None)"

text \<open>Whether the parameter is handled here, and the value if there is one.\<close>

definition getVertexAttribParameter :: "int \<Rightarrow> glenum \<Rightarrow> gl_client \<Rightarrow> bool \<times> gl_value option" where
  "getVertexAttribParameter index param c =
     (case gl_getState index c of
        None \<Rightarrow> (True, None)
      | Some s \<Rightarrow>
          if param = ''GL_VERTEX_ATTRIB_ARRAY_BUFFER_BINDING'' then (True, Some (field_value Field_Buffer s))
          else if param = ''GL_VERTEX_ATTRIB_ARRAY_ENABLED'' then (True, Some (Num (va_enabled s)))
          else if param = ''GL_VERTEX_ATTRIB_ARRAY_SIZE'' then (True, Some (field_value Field_Size s))
          else if param = ''GL_VERTEX_ATTRIB_ARRAY_STRIDE'' then (True, Some (field_value Field_Stride s))
          else if param = ''GL_VERTEX_ATTRIB_ARRAY_TYPE'' then (True, Some (field_value Field_Type s))
          else if param = ''GL_VERTEX_ATTRIB_ARRAY_NORMALIZED''
          then (True, Some (Num (if va_normalized s then 1 else 0)))
          else (False, None))"

section \<open>The table of textures is a map\<close>

text \<open>Names with the highest bit are compared as negative numbers; the array is sorted as if they were not.\<close>

definition small_name :: "u32 \<Rightarrow> bool" where
  "small_name i \<longleftrightarrow> i < 0x80000000"

lemma compareTexId_small:
  assumes "small_name i" "small_name (fst r)"
  shows "compareTexId i r = uint i - uint (fst r)"
proof -
  have i: "uint i < 2 ^ 31" "uint (fst r) < 2 ^ 31"
    using assms by (simp_all add: small_name_def word_less_def)
  then have b: "- (2 ^ 31) \<le> uint i - uint (fst r)" "uint i - uint (fst r) < 2 ^ 31"
    using uint_ge_0 [of i] uint_ge_0 [of "fst r"] by linarith+
  have w: "i - fst r = word_of_int (uint i - uint (fst r))" by (simp add: wi_hom_syms)
  have "sint (i - fst r) = signed_take_bit 31 (uint i - uint (fst r))"
    unfolding w signed_of_int by simp
  also have "\<dots> = uint i - uint (fst r)" using b by (simp add: signed_take_bit_int_eq_self)
  finally show ?thesis by (simp add: compareTexId_def)
qed

definition names_sorted :: "(u32 \<times> glenum) list \<Rightarrow> bool" where
  "names_sorted xs \<longleftrightarrow> sorted_wrt (\<lambda>a b. fst a < fst b) xs \<and> list_all (\<lambda>r. small_name (fst r) \<and> fst r \<noteq> 0) xs"

lemma names_sorted_less:
  "names_sorted xs \<Longrightarrow> j < k \<Longrightarrow> k < length xs \<Longrightarrow> fst (xs ! j) < fst (xs ! k)"
  by (simp add: names_sorted_def sorted_wrt_iff_nth_less)

lemma names_sorted_small:
  "names_sorted xs \<Longrightarrow> j < length xs \<Longrightarrow> small_name (fst (xs ! j))"
  by (simp add: names_sorted_def list_all_length)

lemma bsearch_result:
  "names_sorted xs \<Longrightarrow> small_name i \<Longrightarrow> base + lim \<le> length xs \<Longrightarrow>
    (case bsearch i xs base lim of
       Some p \<Rightarrow> p < length xs \<and> fst (xs ! p) = i
     | None \<Rightarrow> (\<forall>p. base \<le> p \<and> p < base + lim \<longrightarrow> fst (xs ! p) \<noteq> i))"
proof (induction i xs base lim rule: bsearch.induct)
  case (1 i xs base lim)
  show ?case
  proof (cases "lim = 0")
    case False
    let ?p = "base + lim div 2"
    have p: "?p < length xs" using "1.prems"(3) False by linarith
    have cmp: "compareTexId i (xs ! ?p) = uint i - uint (fst (xs ! ?p))"
      by (rule compareTexId_small [OF "1.prems"(2) names_sorted_small [OF "1.prems"(1) p]])
    consider (eq) "i = fst (xs ! ?p)" | (gt) "fst (xs ! ?p) < i" | (lt) "i < fst (xs ! ?p)" by fastforce
    then show ?thesis
    proof cases
      case eq
      with False p cmp show ?thesis by (simp add: bsearch.simps Let_def)
    next
      case gt
      then have pos: "0 < compareTexId i (xs ! ?p)" by (simp add: cmp word_less_def)
      have "(?p + 1) + (lim - 1) div 2 \<le> length xs" using "1.prems"(3) False by linarith
      then have ih: "case bsearch i xs (?p + 1) ((lim - 1) div 2) of
          Some p \<Rightarrow> p < length xs \<and> fst (xs ! p) = i
        | None \<Rightarrow> \<forall>p. ?p + 1 \<le> p \<and> p < ?p + 1 + (lim - 1) div 2 \<longrightarrow> fst (xs ! p) \<noteq> i"
        using "1.IH"(1) [OF False refl refl] pos "1.prems"(1,2) by simp
      have below: "fst (xs ! q) \<noteq> i" if "q \<le> ?p" for q
        using that gt names_sorted_less [OF "1.prems"(1) _ p, of q] by (cases "q = ?p") force+
      have step: "bsearch i xs base lim = bsearch i xs (?p + 1) ((lim - 1) div 2)"
        using False pos by (simp add: bsearch.simps [of i xs base lim] Let_def)
      have e: "(?p + 1) + (lim - 1) div 2 = base + lim" using False by presburger
      show ?thesis
      proof (cases "bsearch i xs (?p + 1) ((lim - 1) div 2)")
        case None
        with ih e have n: "\<forall>q. ?p + 1 \<le> q \<and> q < base + lim \<longrightarrow> fst (xs ! q) \<noteq> i" by simp
        have "fst (xs ! q) \<noteq> i" if "q < base + lim" for q
          using that n below [of q] by (cases "q \<le> ?p") simp_all
        with None step show ?thesis by simp
      qed (use ih step in simp)
    next
      case lt
      then have neg: "compareTexId i (xs ! ?p) < 0" by (simp add: cmp word_less_def)
      have "base + lim div 2 \<le> length xs" using p by simp
      then have ih: "case bsearch i xs base (lim div 2) of
          Some p \<Rightarrow> p < length xs \<and> fst (xs ! p) = i
        | None \<Rightarrow> \<forall>p. base \<le> p \<and> p < base + lim div 2 \<longrightarrow> fst (xs ! p) \<noteq> i"
        using "1.IH"(2) [OF False refl refl] neg "1.prems"(1,2) by simp
      have above: "fst (xs ! q) \<noteq> i" if "?p \<le> q" "q < length xs" for q
        using that lt names_sorted_less [OF "1.prems"(1), of ?p q] by (cases "q = ?p") force+
      have step: "bsearch i xs base lim = bsearch i xs base (lim div 2)"
        using False neg by (simp add: bsearch.simps [of i xs base lim] Let_def)
      show ?thesis
      proof (cases "bsearch i xs base (lim div 2)")
        case None
        with ih have n: "\<forall>q. base \<le> q \<and> q < ?p \<longrightarrow> fst (xs ! q) \<noteq> i" by simp
        have "fst (xs ! q) \<noteq> i" if "base \<le> q" "q < base + lim" for q
          using that n above [of q] "1.prems"(3) by (cases "q < ?p") simp_all
        with None step show ?thesis by simp
      qed (use ih step in simp)
    qed
  qed (auto simp: bsearch.simps)
qed


lemma names_sorted_distinct: "names_sorted xs \<Longrightarrow> distinct (map fst xs)"
  unfolding names_sorted_def
  by (induction xs) auto

lemma find_texture_known:
  assumes "names_sorted (gc_textures c)" "small_name i"
  shows "case find_texture i c of
      Some j \<Rightarrow> j < length (gc_textures c) \<and> fst (gc_textures c ! j) = i \<and>
        map_of (gc_textures c) i = Some (snd (gc_textures c ! j))
    | None \<Rightarrow> map_of (gc_textures c) i = None"
proof (cases "find_texture i c")
  case None
  with bsearch_result [OF assms, of 0 "length (gc_textures c)"]
  have "\<forall>p < length (gc_textures c). fst (gc_textures c ! p) \<noteq> i" by (simp add: find_texture_def)
  then have "i \<notin> fst ` set (gc_textures c)" by (auto simp: set_conv_nth)
  with None show ?thesis by (simp add: map_of_eq_None_iff)
next
  case (Some j)
  with bsearch_result [OF assms, of 0 "length (gc_textures c)"]
  have j: "j < length (gc_textures c)" "fst (gc_textures c ! j) = i" by (simp_all add: find_texture_def)
  moreover have "(i, snd (gc_textures c ! j)) \<in> set (gc_textures c)"
    using j by (metis nth_mem prod.collapse)
  ultimately show ?thesis
    using Some names_sorted_distinct [OF assms(1)] by simp
qed

lemma insert_texture_split:
  assumes "names_sorted xs" "i \<notin> fst ` set xs"
  shows "\<exists>as bs. xs = as @ bs \<and> insert_texture i target xs = as @ (i, target) # bs \<and>
    (\<forall>r \<in> set as. fst r < i) \<and> (\<forall>r \<in> set bs. i < fst r)"
proof -
  let ?P = "\<lambda>r :: u32 \<times> glenum. i < fst r"
  obtain m d where m: "m = takeWhile ?P (rev xs)" and d: "d = dropWhile ?P (rev xs)" by blast
  then have "rev xs = m @ d" by simp
  then have xs: "xs = rev d @ rev m" by (metis rev_append rev_rev_ident)
  then have ins: "insert_texture i target xs = rev d @ (i, target) # rev m"
    unfolding insert_texture_def m [symmetric] by simp
  have small: "\<forall>r \<in> set (rev d). fst r < i"
  proof (cases d)
    case (Cons b bs)
    then have "dropWhile ?P (rev xs) \<noteq> []" using d by simp
    from hd_dropWhile [OF this] have "\<not> i < fst b" using Cons d by simp
    moreover have "b \<in> set xs" using xs Cons by simp
    ultimately have b: "fst b < i" using assms(2) by (metis image_eqI linorder_neqE)
    have "sorted_wrt (\<lambda>a b. fst a < fst b) (rev bs @ [b] @ rev m)"
      using assms(1) xs Cons by (simp add: names_sorted_def)
    then have "\<forall>r \<in> set bs. fst r < fst b" by (simp add: sorted_wrt_append)
    with b Cons show ?thesis by (auto intro: less_trans)
  qed simp
  have "\<forall>r \<in> set (rev m). i < fst r"
    unfolding m by (auto dest: set_takeWhileD)
  with xs ins small show ?thesis by blast
qed

lemma map_of_insert_middle:
  "k \<notin> fst ` set as \<Longrightarrow> map_of (as @ (k, v) # bs) = (map_of (as @ bs))(k \<mapsto> v)"
  by (induction as) (auto simp: fun_eq_iff)

lemma map_of_delete_middle:
  assumes "distinct (map fst (as @ r # bs))"
  shows "map_of (as @ bs) = (map_of (as @ r # bs))(fst r := None)"
proof -
  have "map_of (as @ bs) (fst r) = None"
    using assms by (auto simp: map_of_eq_None_iff)
  moreover have "map_of (as @ r # bs) = (map_of (as @ bs))(fst r \<mapsto> snd r)"
    using map_of_insert_middle [of "fst r" as "snd r" bs] assms by auto
  ultimately show ?thesis by (simp add: fun_upd_idem)
qed

lemma insert_texture_map:
  assumes "names_sorted xs" "map_of xs i = None" "small_name i" "i \<noteq> 0"
  shows "names_sorted (insert_texture i target xs) \<and>
    map_of (insert_texture i target xs) = (map_of xs)(i \<mapsto> target)"
proof -
  have new: "i \<notin> fst ` set xs" using assms(2) by (simp add: map_of_eq_None_iff)
  from insert_texture_split [OF assms(1) this] obtain as bs where s:
    "xs = as @ bs" "insert_texture i target xs = as @ (i, target) # bs"
    "\<forall>r \<in> set as. fst r < i" "\<forall>r \<in> set bs. i < fst r" by blast
  have "names_sorted (as @ (i, target) # bs)"
    using assms(1,3,4) s(1,3,4) by (auto simp: names_sorted_def sorted_wrt_append)
  moreover have "map_of (as @ (i, target) # bs) = (map_of xs)(i \<mapsto> target)"
    using new s(1) map_of_insert_middle [of i as target bs] by auto
  ultimately show ?thesis by (simp add: s(2))
qed

lemma names_sorted_delete:
  assumes "names_sorted xs" "j < length xs"
  shows "names_sorted (take j xs @ drop (j + 1) xs)"
    and "map_of (take j xs @ drop (j + 1) xs) = (map_of xs)(fst (xs ! j) := None)"
proof -
  have xs: "xs = take j xs @ xs ! j # drop (j + 1) xs" using assms(2) by (simp add: id_take_nth_drop)
  then have s: "names_sorted (take j xs @ xs ! j # drop (j + 1) xs)" using assms(1) by simp
  then show "names_sorted (take j xs @ drop (j + 1) xs)"
    by (auto simp: names_sorted_def sorted_wrt_append)
  have d: "distinct (map fst (take j xs @ xs ! j # drop (j + 1) xs))"
    using names_sorted_distinct [OF s] .
  show "map_of (take j xs @ drop (j + 1) xs) = (map_of xs)(fst (xs ! j) := None)"
    using map_of_delete_middle [OF d] by (simp only: xs [symmetric])
qed


section \<open>What the textures of a context are\<close>

text \<open>The abstract state: what a name stands for, what is bound to a target of a unit, the active unit.\<close>

record tex_spec =
  ts_known :: "u32 \<Rightarrow> glenum option"
  ts_bound :: "nat \<Rightarrow> glenum \<Rightarrow> u32"
  ts_active :: nat

definition tracked :: "glenum \<Rightarrow> bool" where
  "tracked target \<longleftrightarrow> target = ''GL_TEXTURE_2D'' \<or> target = ''GL_TEXTURE_EXTERNAL_OES''"

definition unit_bound :: "texture_unit \<Rightarrow> glenum \<Rightarrow> u32" where
  "unit_bound u target =
     (if target = ''GL_TEXTURE_2D'' then tu_2d u
      else if target = ''GL_TEXTURE_EXTERNAL_OES'' then tu_external u else 0)"

definition tex_abs :: "gl_client \<Rightarrow> tex_spec" where
  "tex_abs c =
     \<lparr>ts_known = map_of (gc_textures c),
      ts_bound = (\<lambda>i target. if i < length (gc_units c) then unit_bound (gc_units c ! i) target else 0),
      ts_active = gc_activeUnit c\<rparr>"

definition spec_bind :: "glenum \<Rightarrow> u32 \<Rightarrow> tex_spec \<Rightarrow> (glenum \<times> bool option) \<times> tex_spec" where
  "spec_bind target texture s =
     (let bound = (if tracked target
          then (ts_bound s)(ts_active s := (ts_bound s (ts_active s))(target := texture)) else ts_bound s)
      in if texture = 0 then ((''GL_NO_ERROR'', Some False), s\<lparr>ts_bound := bound\<rparr>)
         else case ts_known s texture of
             None \<Rightarrow> ((''GL_NO_ERROR'', Some True), s\<lparr>ts_known := (ts_known s)(texture \<mapsto> target), ts_bound := bound\<rparr>)
           | Some t \<Rightarrow> if t = target then ((''GL_NO_ERROR'', Some False), s\<lparr>ts_bound := bound\<rparr>)
                      else ((''GL_INVALID_OPERATION'', None), s))"

definition spec_delete :: "u32 list \<Rightarrow> tex_spec \<Rightarrow> tex_spec" where
  "spec_delete textures s =
     s\<lparr>ts_known := (\<lambda>t. if t \<in> set textures then None else ts_known s t),
       ts_bound := (\<lambda>i target. if ts_bound s i target \<in> set textures then 0 else ts_bound s i target)\<rparr>"

text \<open>A texture that is bound is known, and for this target.\<close>

definition tex_inv :: "gl_client \<Rightarrow> bool" where
  "tex_inv c \<longleftrightarrow>
     names_sorted (gc_textures c) \<and> gc_activeUnit c < length (gc_units c) \<and>
     (\<forall>u \<in> set (gc_units c). \<forall>target.
        unit_bound u target \<noteq> 0 \<longrightarrow> map_of (gc_textures c) (unit_bound u target) = Some target)"

lemma tex_inv_new: "tex_inv (gl_client_new junk m n)"
  by (simp add: tex_inv_def gl_client_new_def names_sorted_def unit_bound_def Let_def)

lemma unit_bound_put:
  "unit_bound (u\<lparr>tu_2d := t\<rparr>) = (unit_bound u)(''GL_TEXTURE_2D'' := t)"
  "unit_bound (u\<lparr>tu_external := t\<rparr>) = (unit_bound u)(''GL_TEXTURE_EXTERNAL_OES'' := t)"
  "unit_bound (u\<lparr>tu_enables := e\<rparr>) = unit_bound u"
  by (simp_all add: fun_eq_iff unit_bound_def)

lemma put_texture_abs:
  assumes "gc_activeUnit c < length (gc_units c)"
  shows "tex_abs (put_texture target texture c) = (tex_abs c)\<lparr>ts_bound := (if tracked target
      then (ts_bound (tex_abs c))(ts_active (tex_abs c) := (ts_bound (tex_abs c) (ts_active (tex_abs c)))(target := texture))
      else ts_bound (tex_abs c))\<rparr>"
  using assms
  by (auto simp: put_texture_def tex_abs_def tracked_def update_unit_def unit_bound_put nth_list_update fun_eq_iff)

lemma put_texture_inv:
  assumes "tex_inv c" "texture = 0 \<or> map_of (gc_textures c) texture = Some target"
  shows "tex_inv (put_texture target texture c)"
proof -
  have u: "active_unit c \<in> set (gc_units c)" using assms(1) by (simp add: tex_inv_def)
  have "tex_inv (update_unit f c)"
    if f: "\<And>u. unit_bound (f u) = (unit_bound u)(target := texture)" for f
    using assms u unfolding tex_inv_def update_unit_def
    by (auto simp: f dest!: set_update_subset_insert [THEN subsetD])
  then show ?thesis
    using assms(1) by (auto simp: put_texture_def unit_bound_put)
qed

lemma addTextureRec_fields:
  "addTextureRec ok i target c = Some c' \<Longrightarrow>
     gc_units c' = gc_units c \<and> gc_activeUnit c' = gc_activeUnit c \<and>
     gc_textures c' = insert_texture i target (gc_textures c)"
  by (auto simp: addTextureRec_def split: option.splits)

lemma bindTexture_abs:
  assumes "tex_inv c" "small_name texture" "bindTexture ok target texture c = (r, c')"
  shows "tex_inv c' \<and> ((r, tex_abs c') = spec_bind target texture (tex_abs c) \<or>
    fst r = ''GL_OUT_OF_MEMORY'' \<and> c' = c)"
proof (cases "texture = 0")
  case True
  with assms put_texture_inv [OF assms(1), of 0 target] put_texture_abs [of c target 0] show ?thesis
    by (simp add: bindTexture_def spec_bind_def tex_inv_def Let_def)
next
  case nz: False
  have s: "names_sorted (gc_textures c)" and a: "gc_activeUnit c < length (gc_units c)"
    using assms(1) by (simp_all add: tex_inv_def)
  note known = find_texture_known [OF s assms(2)]
  have k: "ts_known (tex_abs c) = map_of (gc_textures c)" for c by (simp add: tex_abs_def)
  show ?thesis
  proof (cases "find_texture texture c")
    case (Some j)
    with known have m: "map_of (gc_textures c) texture = Some (snd (gc_textures c ! j))" by simp
    show ?thesis
    proof (cases "target = snd (gc_textures c ! j)")
      case True
      with assms(3) nz Some have "r = (''GL_NO_ERROR'', Some False)" "c' = put_texture target texture c"
        by (simp_all add: bindTexture_def)
      with True m nz put_texture_inv [OF assms(1), of texture target] put_texture_abs [OF a, of target texture]
      show ?thesis by (simp add: spec_bind_def k Let_def)
    next
      case False
      with assms(1,3) nz Some m show ?thesis
        by (auto simp: bindTexture_def spec_bind_def k Let_def)
    qed
  next
    case None
    with known have m: "map_of (gc_textures c) texture = None" by simp
    show ?thesis
    proof (cases "addTextureRec ok texture target c")
      case None': None
      with None assms(1,3) nz show ?thesis by (auto simp: bindTexture_def)
    next
      case (Some c1)
      note f = addTextureRec_fields [OF Some]
      have r: "r = (''GL_NO_ERROR'', Some True)" "c' = put_texture target texture c1"
        using None Some assms(3) nz by (simp_all add: bindTexture_def)
      have i: "names_sorted (gc_textures c1)" "map_of (gc_textures c1) = (map_of (gc_textures c))(texture \<mapsto> target)"
        using insert_texture_map [OF s m assms(2) nz, of target] f by simp_all
      have "tex_inv c1"
        using assms(1) f i m by (auto simp: tex_inv_def)
      then have "tex_inv c'" unfolding r using i(2) by (simp add: put_texture_inv)
      moreover have "tex_abs c1 = (tex_abs c)\<lparr>ts_known := (map_of (gc_textures c))(texture \<mapsto> target)\<rparr>"
        using f i(2) by (simp add: tex_abs_def cong: if_cong)
      ultimately show ?thesis
        using r put_texture_abs [of c1 target texture] a f nz m
        by (simp add: spec_bind_def k Let_def)
    qed
  qed
qed

lemma unbind_unit_bound:
  assumes "\<forall>target. unit_bound u target \<noteq> 0 \<longrightarrow> known (unit_bound u target) = Some target" "t \<noteq> 0"
  shows "unit_bound (unbind_unit t u) target = (if unit_bound u target = t then 0 else unit_bound u target)"
proof -
  have "\<not> (tu_2d u = t \<and> tu_external u = t)"
    using assms(1) [rule_format, of "''GL_TEXTURE_2D''"] assms(1) [rule_format, of "''GL_TEXTURE_EXTERNAL_OES''"] assms(2)
    by (auto simp: unit_bound_def)
  then show ?thesis using assms(2) by (auto simp: unbind_unit_def unit_bound_def)
qed

lemma delete_texture_abs:
  assumes "tex_inv c" "small_name t"
  shows "tex_inv (delete_texture t c) \<and> tex_abs (delete_texture t c) = spec_delete [t] (tex_abs c)"
proof -
  have s: "names_sorted (gc_textures c)" and a: "gc_activeUnit c < length (gc_units c)"
    and b: "\<And>u target. u \<in> set (gc_units c) \<Longrightarrow> unit_bound u target \<noteq> 0 \<Longrightarrow>
      map_of (gc_textures c) (unit_bound u target) = Some target"
    using assms(1) by (auto simp: tex_inv_def)
  note known = find_texture_known [OF s assms(2)]
  show ?thesis
  proof (cases "find_texture t c")
    case None
    with known have m: "map_of (gc_textures c) t = None" by simp
    then have "unit_bound (gc_units c ! i) target = t \<Longrightarrow> t = 0" if "i < length (gc_units c)" for i target
      using b [OF nth_mem [OF that], of target] by fastforce
    then have "spec_delete [t] (tex_abs c) = tex_abs c"
      using m by (auto simp: spec_delete_def tex_abs_def fun_eq_iff)
    with None assms(1) show ?thesis by (simp add: delete_texture_def)
  next
    case (Some j)
    with known have j: "j < length (gc_textures c)" "fst (gc_textures c ! j) = t" by simp_all
    then have nz: "t \<noteq> 0" using s by (auto simp: names_sorted_def list_all_length)
    let ?xs = "take j (gc_textures c) @ drop (j + 1) (gc_textures c)"
    note d = names_sorted_delete [OF s j(1), unfolded j(2)]
    have del: "delete_texture t c = c\<lparr>gc_textures := ?xs, gc_units := map (unbind_unit t) (gc_units c)\<rparr>"
      by (simp add: delete_texture_def Some)
    have ub: "unit_bound (unbind_unit t u) target = (if unit_bound u target = t then 0 else unit_bound u target)"
      if "u \<in> set (gc_units c)" for u target
      using unbind_unit_bound [of u "map_of (gc_textures c)" t target] b [OF that] nz by blast
    have "tex_inv (delete_texture t c)"
      unfolding del tex_inv_def using a b d by (auto simp: ub split: if_splits)
    moreover have "tex_abs (delete_texture t c) = spec_delete [t] (tex_abs c)"
      unfolding del using d(2) by (auto simp: tex_abs_def spec_delete_def fun_eq_iff ub)
    ultimately show ?thesis ..
  qed
qed

lemma deleteTextures_abs:
  "tex_inv c \<Longrightarrow> list_all small_name ts \<Longrightarrow>
   tex_inv (deleteTextures ts c) \<and> tex_abs (deleteTextures ts c) = spec_delete ts (tex_abs c)"
proof (induction ts arbitrary: c)
  case Nil
  then show ?case by (simp add: deleteTextures_def spec_delete_def)
next
  case (Cons t ts)
  have d: "tex_inv (delete_texture t c)" "tex_abs (delete_texture t c) = spec_delete [t] (tex_abs c)"
    using delete_texture_abs [of c t] Cons.prems by simp_all
  have "spec_delete ts (spec_delete [t] s) = spec_delete (t # ts) s" for s
    by (auto simp: spec_delete_def fun_eq_iff)
  with Cons.IH [OF d(1)] Cons.prems d(2) show ?case by (simp add: deleteTextures_def)
qed


text \<open>The calls that touch textures, with what they answer.\<close>

datatype tex_op =
    Bind_Texture glenum u32
  | Delete_Textures "u32 list"
  | Active_Unit u32
  | Bound_Texture glenum

datatype tex_answer = Bound_Result "glenum \<times> bool option" | Name u32 | Error_Code glenum | No_Answer

fun tex_step :: "bool \<Rightarrow> tex_op \<Rightarrow> gl_client \<Rightarrow> tex_answer \<times> gl_client" where
  "tex_step ok (Bind_Texture target t) c = (case bindTexture ok target t c of (r, c) \<Rightarrow> (Bound_Result r, c))"
| "tex_step ok (Delete_Textures ts) c = (No_Answer, deleteTextures ts c)"
| "tex_step ok (Active_Unit unit) c = (case setActiveTextureUnit unit c of (e, c) \<Rightarrow> (Error_Code e, c))"
| "tex_step ok (Bound_Texture target) c = (Name (getBoundTexture target c), c)"

fun spec_step :: "tex_op \<Rightarrow> tex_spec \<Rightarrow> tex_answer \<times> tex_spec" where
  "spec_step (Bind_Texture target t) s = (case spec_bind target t s of (r, s) \<Rightarrow> (Bound_Result r, s))"
| "spec_step (Delete_Textures ts) s = (No_Answer, spec_delete ts s)"
| "spec_step (Active_Unit unit) s =
     (if unat unit \<ge> MAX_TEXTURE_UNITS then (Error_Code ''GL_INVALID_ENUM'', s)
      else (Error_Code ''GL_NO_ERROR'', s\<lparr>ts_active := unat unit\<rparr>))"
| "spec_step (Bound_Texture target) s = (Name (ts_bound s (ts_active s) target), s)"

fun small_op :: "tex_op \<Rightarrow> bool" where
  "small_op (Bind_Texture target t) = small_name t"
| "small_op (Delete_Textures ts) = list_all small_name ts"
| "small_op _ = True"

definition tex_ok :: "gl_client \<Rightarrow> bool" where
  "tex_ok c \<longleftrightarrow> tex_inv c \<and> length (gc_units c) = MAX_TEXTURE_UNITS"

lemma put_texture_units: "length (gc_units (put_texture target t c)) = length (gc_units c)"
  by (simp add: put_texture_def update_unit_def)

lemma bindTexture_units: "length (gc_units (snd (bindTexture ok target t c))) = length (gc_units c)"
  by (auto simp: bindTexture_def put_texture_units dest: addTextureRec_fields split: option.splits)

lemma deleteTextures_units: "length (gc_units (deleteTextures ts c)) = length (gc_units c)"
  by (induction ts arbitrary: c) (simp_all add: deleteTextures_def delete_texture_def split: option.splits)

text \<open>
  The client's table of textures, a sorted array with binary search, refines a map: from any state that calls lead
  to, binding, deleting, changing the unit and asking for what is bound answer and change what the map says (binding
  may also find no memory, and then changes nothing). In the map a texture is never bound to two kinds of targets and a
  deleted texture is bound nowhere. Names are below 2 to the 31.
\<close>
lemma textures_refine_map:
  assumes "tex_ok c" "small_op oper" "tex_step ok oper c = (r, c')"
  shows "tex_ok c' \<and> ((r, tex_abs c') = spec_step oper (tex_abs c) \<or>
    (\<exists>first. r = Bound_Result (''GL_OUT_OF_MEMORY'', first)) \<and> c' = c)"
proof (cases oper)
  case (Bind_Texture target t)
  obtain r1 c1 where b: "bindTexture ok target t c = (r1, c1)" by fastforce
  with bindTexture_abs [of c t ok target r1 c1] bindTexture_units [of ok target t c] assms Bind_Texture show ?thesis
    by (cases r1) (auto simp: tex_ok_def split: prod.splits)
next
  case (Delete_Textures ts)
  with deleteTextures_abs [of c ts] deleteTextures_units [of ts c] assms show ?thesis
    by (auto simp: tex_ok_def)
next
  case (Active_Unit unit)
  with assms show ?thesis
    by (auto simp: setActiveTextureUnit_def tex_ok_def tex_inv_def tex_abs_def split: if_splits cong: if_cong)
next
  case (Bound_Texture target)
  with assms show ?thesis
    by (auto simp: getBoundTexture_def tex_abs_def unit_bound_def tex_ok_def tex_inv_def)
qed

definition some_attrib :: attrib_state where
  "some_attrib =
     \<lparr>va_enabled = 0, va_size = 0, va_type = [], va_stride = 0, va_data = 0, va_bufferObject = 0, va_glConst = [],
      va_elementSize = 0, va_enableDirty = False, va_normalized = False\<rparr>"

lemma tex_ok_new: "tex_ok (gl_client_new junk m n)"
  by (simp add: tex_ok_def tex_inv_new) (simp add: gl_client_new_def Let_def)

lemma textures_refine_map_witness:
  "\<exists>c. tex_ok c \<and> tex_step True (Bind_Texture ''GL_TEXTURE_2D'' 7) (gl_client_new some_attrib 0 16) =
     (Bound_Result (''GL_NO_ERROR'', Some True), c)"
proof -
  obtain r c where s: "tex_step True (Bind_Texture ''GL_TEXTURE_2D'' 7) (gl_client_new some_attrib 0 16) = (r, c)"
    by fastforce
  have "spec_step (Bind_Texture ''GL_TEXTURE_2D'' 7) (tex_abs (gl_client_new some_attrib 0 16)) =
      (Bound_Result (''GL_NO_ERROR'', Some True),
       snd (spec_step (Bind_Texture ''GL_TEXTURE_2D'' 7) (tex_abs (gl_client_new some_attrib 0 16))))"
    by (simp add: spec_bind_def tex_abs_def gl_client_new_def Let_def)
  moreover have "fst (tex_step True (Bind_Texture ''GL_TEXTURE_2D'' 7) (gl_client_new some_attrib 0 16)) \<noteq>
      Bound_Result (''GL_OUT_OF_MEMORY'', None)"
    by (simp add: bindTexture_def find_texture_def gl_client_new_def bsearch.simps addTextureRec_def grown_alloc_def
        Let_def)
  moreover have "small_op (Bind_Texture ''GL_TEXTURE_2D'' 7)" by (simp add: small_name_def)
  moreover have "r \<noteq> Bound_Result (''GL_OUT_OF_MEMORY'', first)" for first
    using s by (auto simp: bindTexture_def find_texture_def gl_client_new_def bsearch.simps addTextureRec_def
        grown_alloc_def Let_def)
  ultimately show ?thesis
    using textures_refine_map [OF tex_ok_new _ s] s by (metis fst_conv)
qed

text \<open>Names with the highest bit hide others: the texture 1 is not found.\<close>

lemma high_names_hide:
  "bsearch 1 [(1, t), (0x90000000, t), (0xA0000000, t)] 0 3 = None"
  by (simp add: bsearch.simps compareTexId_def)

section \<open>Pixels\<close>

text \<open>
  Without overflow the size is the number of rows times the smallest multiple of the alignment that holds a row. OpenGL
  does not read the padding of the last row, which is sent.
\<close>

lemma pixelDataSize_rows:
  assumes "0 < width" "0 < height" "pix = int (glUtilsPixelBitSize format type div 8)"
    and "alignment = (if pack then gc_pack c else gc_unpack c)" "0 < alignment" "alignment \<le> 8"
    and "pix * width < 2 ^ 31" "height < 2 ^ 31"
  shows "\<exists>row. pixelDataSize width height format type pack c = row * height \<and> alignment dvd row \<and>
    pix * width \<le> row \<and> row < pix * width + alignment"
proof -
  define line where "line = pix * width"
  define q where "q = line div alignment"
  define row where "row = (if q * alignment < line then q * alignment + alignment else q * alignment)"
  have l: "0 \<le> line" "line < 2 ^ 31" using assms(1,3,7) by (simp_all add: line_def)
  have q0: "0 \<le> q" using l(1) assms(5) by (simp add: q_def pos_imp_zdiv_nonneg_iff)
  have m: "line = q * alignment + line mod alignment" by (simp add: q_def)
  have q1: "q * alignment \<le> line" "line < q * alignment + alignment"
    using m pos_mod_sign [OF assms(5), of line] pos_mod_bound [OF assms(5), of line] by linarith+
  have "q * 1 \<le> q * alignment" using q0 assms(5) by (intro mult_left_mono) simp_all
  with q1 have q2: "q \<le> line" by linarith
  have r: "line \<le> row" "row < line + alignment" "0 \<le> row" using q1 l assms(5) by (auto simp: row_def)
  have "row \<le> 2 ^ 31 + 8" using r(2) assms(6) l(2) by linarith
  then have "row * height \<le> (2 ^ 31 + 8) * 2 ^ 31"
    using assms(2,8) r(3) by (intro mult_mono) simp_all
  then have rh: "row * height < 2 ^ 64" by simp
  have i: "int32 line mod 2 ^ 64 = line" "int32 q = q"
    using int32_small [of line] int32_small [of q] l q0 q2 by simp_all
  have a: "(q * alignment) mod 2 ^ 64 = q * alignment"
    using q0 assms(5) q1(1) l(2) by (intro mod_pos_pos_trivial) simp_all
  have b: "(q * alignment + alignment) mod 2 ^ 64 = q * alignment + alignment"
    using q0 assms(5,6) q1(1) l(2) by (intro mod_pos_pos_trivial) simp_all
  have "pixelDataSize width height format type pack c = (row * height) mod 2 ^ 64"
    using assms(1,2)
    by (simp only: pixelDataSize_def Let_def assms(3) [symmetric] assms(4) [symmetric] line_def [symmetric] i
        q_def [symmetric] a b row_def not_le [symmetric] if_False simp_thms)
  also have "\<dots> = row * height" using rh r(3) assms(2) by (intro mod_pos_pos_trivial) simp_all
  finally have "pixelDataSize width height format type pack c = row * height" .
  moreover have "alignment dvd row" by (simp add: row_def)
  ultimately show ?thesis using r(1,2) unfolding line_def by blast
qed

text \<open>A buffer that is bound to both targets stays bound to one of them when it is deleted.\<close>

lemma unbind_forgets_index:
  "gc_indexVbo (unBindBuffer 5 (snd (bindBuffer ''GL_ELEMENT_ARRAY_BUFFER'' 5 (snd (bindBuffer ''GL_ARRAY_BUFFER'' 5 c))))) = 5"
  by (simp add: unBindBuffer_def bindBuffer_def)

text \<open>The active unit for texture coordinates is not checked: with too great a one a null pointer is followed.\<close>

lemma texcoord_parameter_undefined:
  "getClientStateParameter t0 ''GL_TEXTURE_COORD_ARRAY_SIZE'' (setActiveTexture 20 (gl_client_new junk m 16)) =
     Inl Undefined"
  by (simp add: getClientStateParameter_def array_params_def gl_getState_def validLocation_def setActiveTexture_def
      gl_client_new_def Let_def)


end
