(* ===== verification/GLSharedGroup.thy ===== *)
theory GLSharedGroup
  imports GLUtils
begin

text \<open>
  What the contexts of a share group know of buffers, programs and shaders
  (\<open>android/opengl/shared/OpenglCodecCommon/GLSharedGroup.{h,cpp}\<close>). Every method holds the lock of the group, so that
  a method is one step. The keyed vectors are maps; the data of a buffer is a list of bytes. Numbers are unbounded
  where the code has \<open>GLint\<close>.

  Shown here: the locations of uniforms that applications see and the ones the host has are translated forth and back,
  the references of shaders are counted right, and an update of a buffer changes the bytes it names only.
\<close>

section \<open>Programs\<close>

record index_info =
  ix_base :: int
  ix_size :: int
  ix_type :: glenum
  ix_appBase :: int
  ix_hostLocsPerElement :: int
  ix_flags :: nat
  ix_samplerValue :: int

record program_data =
  pd_indexes :: "index_info list"
  pd_initialized :: bool
  pd_locShiftWAR :: bool
  pd_shaders :: "u32 list"

definition INDEX_FLAG_SAMPLER_EXTERNAL :: nat where "INDEX_FLAG_SAMPLER_EXTERNAL = 1"

definition program_data_new :: program_data where
  "program_data_new = \<lparr>pd_indexes = [], pd_initialized = False, pd_locShiftWAR = False, pd_shaders = []\<rparr>"

text \<open>\<open>junk\<close>: the new array is not initialised.\<close>

definition pd_init :: "index_info \<Rightarrow> nat \<Rightarrow> program_data \<Rightarrow> program_data" where
  "pd_init junk numIndexes p =
     p\<lparr>pd_initialized := True, pd_indexes := replicate numIndexes junk, pd_locShiftWAR := False\<rparr>"

definition setIndexInfo :: "nat \<Rightarrow> int \<Rightarrow> int \<Rightarrow> glenum \<Rightarrow> program_data \<Rightarrow> program_data" where
  "setIndexInfo index base count type p =
     (if index \<ge> length (pd_indexes p) then p
      else
        let before = pd_indexes p ! (index - 1);
            appBase = (if index > 0 then ix_appBase before + ix_size before else 0)
        in p\<lparr>pd_indexes := (pd_indexes p)[index :=
             \<lparr>ix_base = base, ix_size = count, ix_type = type, ix_appBase = appBase, ix_hostLocsPerElement = 1,
              ix_flags = 0, ix_samplerValue = 0\<rparr>]\<rparr>)"

definition setIndexFlags :: "nat \<Rightarrow> nat \<Rightarrow> program_data \<Rightarrow> program_data" where
  "setIndexFlags index flags p =
     (if index \<ge> length (pd_indexes p) then p
      else p\<lparr>pd_indexes := (pd_indexes p)[index :=
             (pd_indexes p ! index)\<lparr>ix_flags := (ix_flags (pd_indexes p ! index)) OR flags\<rparr>]\<rparr>)"

text \<open>The loop: \<open>best\<close> is the index so far, \<open>minDist\<close> its distance or -1.\<close>

fun nearest_from :: "int \<Rightarrow> index_info list \<Rightarrow> nat \<Rightarrow> nat \<Rightarrow> int \<Rightarrow> nat" where
  "nearest_from location [] i best minDist = best"
| "nearest_from location (x # xs) i best minDist =
     (let dist = location - ix_base x in
      if dist \<ge> 0 \<and> (minDist < 0 \<or> dist < minDist) then nearest_from location xs (i + 1) i dist
      else nearest_from location xs (i + 1) best minDist)"

definition getIndexForLocation :: "int \<Rightarrow> program_data \<Rightarrow> nat" where
  "getIndexForLocation location p = nearest_from location (pd_indexes p) 0 (length (pd_indexes p)) (-1)"

text \<open>None for the type 0.\<close>

definition getTypeForLocation :: "int \<Rightarrow> program_data \<Rightarrow> glenum option" where
  "getTypeForLocation location p =
     (let index = getIndexForLocation location p in
      if index < length (pd_indexes p) then Some (ix_type (pd_indexes p ! index)) else None)"

definition pd_setupLocationShiftWAR :: "program_data \<Rightarrow> program_data" where
  "pd_setupLocationShiftWAR p =
     p\<lparr>pd_locShiftWAR := list_all (\<lambda>x. ix_base x mod 2 ^ 16 = 0) (pd_indexes p) \<and> length (pd_indexes p) > 1\<rparr>"

definition pd_locationWARHostToApp :: "int \<Rightarrow> int \<Rightarrow> program_data \<Rightarrow> int \<times> program_data" where
  "pd_locationWARHostToApp hostLoc arrIndex p =
     (if \<not> pd_locShiftWAR p then (hostLoc, p)
      else
        let index = getIndexForLocation hostLoc p; x = pd_indexes p ! index in
        if index < length (pd_indexes p) then
          (ix_appBase x + arrIndex,
           if arrIndex > 0
           then p\<lparr>pd_indexes := (pd_indexes p)[index :=
                  x\<lparr>ix_hostLocsPerElement := (hostLoc - ix_base x) div arrIndex\<rparr>]\<rparr>
           else p)
        else (-1, p))"

definition has_app_location :: "int \<Rightarrow> index_info \<Rightarrow> bool" where
  "has_app_location appLoc x \<longleftrightarrow> 0 \<le> appLoc - ix_appBase x \<and> appLoc - ix_appBase x < ix_size x"

definition pd_locationWARAppToHost :: "int \<Rightarrow> program_data \<Rightarrow> int" where
  "pd_locationWARAppToHost appLoc p =
     (if \<not> pd_locShiftWAR p then appLoc
      else case find (has_app_location appLoc) (pd_indexes p) of
          None \<Rightarrow> -1
        | Some x \<Rightarrow> ix_base x + (appLoc - ix_appBase x) * ix_hostLocsPerElement x)"

definition sampler_target :: "index_info \<Rightarrow> glenum" where
  "sampler_target x =
     (if ix_flags x AND INDEX_FLAG_SAMPLER_EXTERNAL \<noteq> 0 then ''GL_TEXTURE_EXTERNAL_OES'' else ''GL_TEXTURE_2D'')"

text \<open>The index behind \<open>index\<close> of a sampler with its value and target, or None for -1.\<close>

definition pd_getNextSamplerUniform :: "int \<Rightarrow> program_data \<Rightarrow> (nat \<times> int \<times> glenum) option" where
  "pd_getNextSamplerUniform index p =
     (if index + 1 < 0 then None
      else case find (\<lambda>i. ix_type (pd_indexes p ! i) = ''GL_SAMPLER_2D'')
               [nat (index + 1)..<length (pd_indexes p)] of
          None \<Rightarrow> None
        | Some i \<Rightarrow> Some (i, ix_samplerValue (pd_indexes p ! i), sampler_target (pd_indexes p ! i)))"

text \<open>The type of a uniform is compared with \<open>GL_TEXTURE_2D\<close>.\<close>

definition pd_setSamplerUniform :: "int \<Rightarrow> int \<Rightarrow> program_data \<Rightarrow> glenum option \<times> program_data" where
  "pd_setSamplerUniform appLoc val p =
     (case find (\<lambda>i. has_app_location appLoc (pd_indexes p ! i) \<and> ix_type (pd_indexes p ! i) = ''GL_TEXTURE_2D'')
             [0..<length (pd_indexes p)] of
        None \<Rightarrow> (None, p)
      | Some i \<Rightarrow> (Some (sampler_target (pd_indexes p ! i)),
                   p\<lparr>pd_indexes := (pd_indexes p)[i := (pd_indexes p ! i)\<lparr>ix_samplerValue := val\<rparr>]\<rparr>))"

definition pd_attachShader :: "u32 \<Rightarrow> program_data \<Rightarrow> bool \<times> program_data" where
  "pd_attachShader shader p =
     (if shader \<in> set (pd_shaders p) then (False, p) else (True, p\<lparr>pd_shaders := pd_shaders p @ [shader]\<rparr>))"

definition pd_detachShader :: "u32 \<Rightarrow> program_data \<Rightarrow> bool \<times> program_data" where
  "pd_detachShader shader p =
     (if shader \<in> set (pd_shaders p) then (True, p\<lparr>pd_shaders := remove1 shader (pd_shaders p)\<rparr>) else (False, p))"

section \<open>The group\<close>

record shader_data =
  sd_samplerExternalNames :: "string list"
  sd_refcount :: int

record shared_group =
  sg_buffers :: "u32 \<Rightarrow> byte list option"
  sg_programs :: "u32 \<Rightarrow> program_data option"
  sg_shaders :: "u32 \<Rightarrow> shader_data option"

definition shared_group_new :: shared_group where
  "shared_group_new = \<lparr>sg_buffers = Map.empty, sg_programs = Map.empty, sg_shaders = Map.empty\<rparr>"

definition isObject :: "u32 \<Rightarrow> shared_group \<Rightarrow> bool" where
  "isObject obj g \<longleftrightarrow> sg_shaders g obj \<noteq> None \<or> sg_programs g obj \<noteq> None"

text \<open>The constructor of \<open>BufferData\<close>: without data the buffer holds what \<open>new\<close> gives, here \<open>junk\<close>.\<close>

definition buffer_data :: "byte list \<Rightarrow> byte list option \<Rightarrow> byte list" where
  "buffer_data junk data = (case data of None \<Rightarrow> junk | Some bs \<Rightarrow> bs)"

definition updateBufferData :: "u32 \<Rightarrow> byte list \<Rightarrow> byte list option \<Rightarrow> shared_group \<Rightarrow> shared_group" where
  "updateBufferData bufferId junk data g = g\<lparr>sg_buffers := (sg_buffers g)(bufferId \<mapsto> buffer_data junk data)\<rparr>"

text \<open>Whether there is no error.\<close>

definition subUpdateBufferData :: "u32 \<Rightarrow> int \<Rightarrow> byte list \<Rightarrow> shared_group \<Rightarrow> bool \<times> shared_group" where
  "subUpdateBufferData bufferId offset data g =
     (case sg_buffers g bufferId of
        None \<Rightarrow> (False, g)
      | Some buf \<Rightarrow>
          if int (length buf) < offset + int (length data) \<or> offset < 0 then (False, g)
          else (True, g\<lparr>sg_buffers := (sg_buffers g)(bufferId \<mapsto>
                 take (nat offset) buf @ data @ drop (nat offset + length data) buf)\<rparr>))"

definition deleteBufferData :: "u32 \<Rightarrow> shared_group \<Rightarrow> shared_group" where
  "deleteBufferData bufferId g = g\<lparr>sg_buffers := (sg_buffers g)(bufferId := None)\<rparr>"

definition on_program :: "u32 \<Rightarrow> (program_data \<Rightarrow> program_data) \<Rightarrow> shared_group \<Rightarrow> shared_group" where
  "on_program program f g =
     (case sg_programs g program of
        None \<Rightarrow> g
      | Some p \<Rightarrow> g\<lparr>sg_programs := (sg_programs g)(program \<mapsto> f p)\<rparr>)"

definition addProgramData :: "u32 \<Rightarrow> shared_group \<Rightarrow> shared_group" where
  "addProgramData program g = g\<lparr>sg_programs := (sg_programs g)(program \<mapsto> program_data_new)\<rparr>"

definition initProgramData :: "index_info \<Rightarrow> u32 \<Rightarrow> nat \<Rightarrow> shared_group \<Rightarrow> shared_group" where
  "initProgramData junk program numIndexes = on_program program (pd_init junk numIndexes)"

definition isProgramInitialized :: "u32 \<Rightarrow> shared_group \<Rightarrow> bool" where
  "isProgramInitialized program g = (case sg_programs g program of None \<Rightarrow> False | Some p \<Rightarrow> pd_initialized p)"

definition deleteProgramData :: "u32 \<Rightarrow> shared_group \<Rightarrow> shared_group" where
  "deleteProgramData program g = g\<lparr>sg_programs := (sg_programs g)(program := None)\<rparr>"

definition add_reference :: "u32 \<Rightarrow> shared_group \<Rightarrow> shared_group" where
  "add_reference shader g =
     (case sg_shaders g shader of
        None \<Rightarrow> g
      | Some d \<Rightarrow> g\<lparr>sg_shaders := (sg_shaders g)(shader \<mapsto> d\<lparr>sd_refcount := sd_refcount d + 1\<rparr>)\<rparr>)"

definition unrefShaderData :: "u32 \<Rightarrow> shared_group \<Rightarrow> shared_group" where
  "unrefShaderData shader g =
     (case sg_shaders g shader of
        None \<Rightarrow> g
      | Some d \<Rightarrow>
          if sd_refcount d - 1 = 0 then g\<lparr>sg_shaders := (sg_shaders g)(shader := None)\<rparr>
          else g\<lparr>sg_shaders := (sg_shaders g)(shader \<mapsto> d\<lparr>sd_refcount := sd_refcount d - 1\<rparr>)\<rparr>)"

definition addShaderData :: "u32 \<Rightarrow> shared_group \<Rightarrow> shared_group" where
  "addShaderData shader g =
     g\<lparr>sg_shaders := (sg_shaders g)(shader \<mapsto> \<lparr>sd_samplerExternalNames = [], sd_refcount = 1\<rparr>)\<rparr>"

definition attachShader :: "u32 \<Rightarrow> u32 \<Rightarrow> shared_group \<Rightarrow> shared_group" where
  "attachShader program shader g =
     (case (sg_programs g program, sg_shaders g shader) of
        (Some p, Some _) \<Rightarrow>
          (case pd_attachShader shader p of
             (True, p) \<Rightarrow> add_reference shader (g\<lparr>sg_programs := (sg_programs g)(program \<mapsto> p)\<rparr>)
           | (False, p) \<Rightarrow> g)
      | _ \<Rightarrow> g)"

definition detachShader :: "u32 \<Rightarrow> u32 \<Rightarrow> shared_group \<Rightarrow> shared_group" where
  "detachShader program shader g =
     (case (sg_programs g program, sg_shaders g shader) of
        (Some p, Some _) \<Rightarrow>
          (case pd_detachShader shader p of
             (True, p) \<Rightarrow> unrefShaderData shader (g\<lparr>sg_programs := (sg_programs g)(program \<mapsto> p)\<rparr>)
           | (False, p) \<Rightarrow> g)
      | _ \<Rightarrow> g)"

definition setProgramIndexInfo ::
  "u32 \<Rightarrow> nat \<Rightarrow> int \<Rightarrow> int \<Rightarrow> glenum \<Rightarrow> string \<Rightarrow> shared_group \<Rightarrow> shared_group" where
  "setProgramIndexInfo program index base count type name g =
     on_program program
       (\<lambda>p. let p = setIndexInfo index base count type p in
            if type = ''GL_SAMPLER_2D'' \<and>
               list_ex (\<lambda>s. case sg_shaders g s of None \<Rightarrow> False | Some d \<Rightarrow> name \<in> set (sd_samplerExternalNames d))
                 (pd_shaders p)
            then setIndexFlags index INDEX_FLAG_SAMPLER_EXTERNAL p else p) g"

definition getProgramUniformType :: "u32 \<Rightarrow> int \<Rightarrow> shared_group \<Rightarrow> glenum option" where
  "getProgramUniformType program location g =
     (case sg_programs g program of None \<Rightarrow> None | Some p \<Rightarrow> getTypeForLocation location p)"

definition setupLocationShiftWAR :: "u32 \<Rightarrow> shared_group \<Rightarrow> shared_group" where
  "setupLocationShiftWAR program = on_program program pd_setupLocationShiftWAR"

definition locationWARHostToApp :: "u32 \<Rightarrow> int \<Rightarrow> int \<Rightarrow> shared_group \<Rightarrow> int \<times> shared_group" where
  "locationWARHostToApp program hostLoc arrIndex g =
     (case sg_programs g program of
        None \<Rightarrow> (hostLoc, g)
      | Some p \<Rightarrow> (case pd_locationWARHostToApp hostLoc arrIndex p of
            (l, p) \<Rightarrow> (l, g\<lparr>sg_programs := (sg_programs g)(program \<mapsto> p)\<rparr>)))"

definition locationWARAppToHost :: "u32 \<Rightarrow> int \<Rightarrow> shared_group \<Rightarrow> int" where
  "locationWARAppToHost program appLoc g =
     (case sg_programs g program of None \<Rightarrow> appLoc | Some p \<Rightarrow> pd_locationWARAppToHost appLoc p)"

definition needUniformLocationWAR :: "u32 \<Rightarrow> shared_group \<Rightarrow> bool" where
  "needUniformLocationWAR program g = (case sg_programs g program of None \<Rightarrow> False | Some p \<Rightarrow> pd_locShiftWAR p)"

definition getNextSamplerUniform :: "u32 \<Rightarrow> int \<Rightarrow> shared_group \<Rightarrow> (nat \<times> int \<times> glenum) option" where
  "getNextSamplerUniform program index g =
     (case sg_programs g program of None \<Rightarrow> None | Some p \<Rightarrow> pd_getNextSamplerUniform index p)"

definition setSamplerUniform :: "u32 \<Rightarrow> int \<Rightarrow> int \<Rightarrow> shared_group \<Rightarrow> glenum option \<times> shared_group" where
  "setSamplerUniform program appLoc val g =
     (case sg_programs g program of
        None \<Rightarrow> (None, g)
      | Some p \<Rightarrow> (case pd_setSamplerUniform appLoc val p of
            (r, p) \<Rightarrow> (r, g\<lparr>sg_programs := (sg_programs g)(program \<mapsto> p)\<rparr>)))"

section \<open>Locations of uniforms\<close>

text \<open>The search returns the first of the indices whose base is the greatest one not behind the location.\<close>

definition nearest :: "int \<Rightarrow> index_info list \<Rightarrow> nat \<Rightarrow> bool" where
  "nearest location xs i \<longleftrightarrow>
     i < length xs \<and> ix_base (xs ! i) \<le> location \<and>
     (\<forall>k < length xs. ix_base (xs ! k) \<le> location \<longrightarrow> ix_base (xs ! k) \<le> ix_base (xs ! i))"

lemma nearest_from_best:
  "0 \<le> minDist \<Longrightarrow>
     (\<exists>k < length xs. nearest_from location xs i best minDist = i + k \<and> nearest location xs k \<and>
        location - ix_base (xs ! k) < minDist) \<or>
     nearest_from location xs i best minDist = best \<and>
       (\<forall>k < length xs. ix_base (xs ! k) \<le> location \<longrightarrow> minDist \<le> location - ix_base (xs ! k))"
proof (induction location xs i best minDist rule: nearest_from.induct)
  case (2 location x xs i best minDist)
  let ?d = "location - ix_base x"
  show ?case
  proof (cases "0 \<le> ?d \<and> ?d < minDist")
    case True
    then have step: "nearest_from location (x # xs) i best minDist = nearest_from location xs (i + 1) i ?d"
      by simp
    from True consider
        (later) k where "k < length xs" "nearest_from location xs (i + 1) i ?d = i + 1 + k" "nearest location xs k"
          "location - ix_base (xs ! k) < ?d"
      | (here) "nearest_from location xs (i + 1) i ?d = i"
          "\<forall>k < length xs. ix_base (xs ! k) \<le> location \<longrightarrow> ?d \<le> location - ix_base (xs ! k)"
      using "2.IH"(1) [OF refl] "2.prems" by (auto simp: Let_def)
    then show ?thesis
    proof cases
      case later
      then have "nearest location (x # xs) (Suc k)"
        using True by (auto simp: nearest_def less_Suc_eq_0_disj)
      with later True step show ?thesis
        by (intro disjI1 exI [of _ "Suc k"]) simp
    next
      case here
      then have "nearest location (x # xs) 0"
        using True by (force simp: nearest_def less_Suc_eq_0_disj)
      with here True step show ?thesis by (intro disjI1 exI [of _ 0]) simp
    qed
  next
    case False
    then have step: "nearest_from location (x # xs) i best minDist = nearest_from location xs (i + 1) best minDist"
      using "2.prems" False by (auto simp: Let_def)
    from False consider
        (later) k where "k < length xs" "nearest_from location xs (i + 1) best minDist = i + 1 + k"
          "nearest location xs k" "location - ix_base (xs ! k) < minDist"
      | (none) "nearest_from location xs (i + 1) best minDist = best"
          "\<forall>k < length xs. ix_base (xs ! k) \<le> location \<longrightarrow> minDist \<le> location - ix_base (xs ! k)"
      using "2.IH"(2) [OF refl] "2.prems" by (auto simp: Let_def)
    then show ?thesis
    proof cases
      case later
      then have "nearest location (x # xs) (Suc k)"
        using False by (auto simp: nearest_def less_Suc_eq_0_disj)
      with later step show ?thesis by (intro disjI1 exI [of _ "Suc k"]) simp
    next
      case none
      with False step show ?thesis by (auto simp: less_Suc_eq_0_disj)
    qed
  qed
qed simp


lemma nearest_from_start:
  "(\<exists>k < length xs. nearest_from location xs i best (-1) = i + k \<and> nearest location xs k) \<or>
   nearest_from location xs i best (-1) = best \<and> (\<forall>k < length xs. location < ix_base (xs ! k))"
proof (induction xs arbitrary: i)
  case (Cons x xs)
  let ?d = "location - ix_base x"
  show ?case
  proof (cases "0 \<le> ?d")
    case True
    then have step: "nearest_from location (x # xs) i best (-1) = nearest_from location xs (i + 1) i ?d" by simp
    from nearest_from_best [OF True, where location = location and xs = xs and i = "i + 1" and best = i] consider
        (later) k where "k < length xs" "nearest_from location xs (i + 1) i ?d = i + 1 + k" "nearest location xs k"
          "location - ix_base (xs ! k) < ?d"
      | (here) "nearest_from location xs (i + 1) i ?d = i"
          "\<forall>k < length xs. ix_base (xs ! k) \<le> location \<longrightarrow> ?d \<le> location - ix_base (xs ! k)"
      by blast
    then show ?thesis
    proof cases
      case later
      then have "nearest location (x # xs) (Suc k)"
        using True by (auto simp: nearest_def less_Suc_eq_0_disj)
      with later step show ?thesis by (intro disjI1 exI [of _ "Suc k"]) simp
    next
      case here
      then have "nearest location (x # xs) 0"
        using True by (force simp: nearest_def less_Suc_eq_0_disj)
      with here step show ?thesis by (intro disjI1 exI [of _ 0]) simp
    qed
  next
    case False
    then have step: "nearest_from location (x # xs) i best (-1) = nearest_from location xs (i + 1) best (-1)" by simp
    from Cons.IH [of "i + 1"] show ?thesis
    proof
      assume "\<exists>k < length xs. nearest_from location xs (i + 1) best (-1) = i + 1 + k \<and> nearest location xs k"
      then obtain k where k: "k < length xs" "nearest_from location xs (i + 1) best (-1) = i + 1 + k"
        "nearest location xs k" by blast
      then have "nearest location (x # xs) (Suc k)"
        using False by (auto simp: nearest_def less_Suc_eq_0_disj)
      with k step show ?thesis by (intro disjI1 exI [of _ "Suc k"]) simp
    next
      assume "nearest_from location xs (i + 1) best (-1) = best \<and> (\<forall>k < length xs. location < ix_base (xs ! k))"
      with False step show ?thesis by (auto simp: less_Suc_eq_0_disj)
    qed
  qed
qed simp

lemma getIndexForLocation_nearest:
  "(\<exists>i. getIndexForLocation location p = i \<and> nearest location (pd_indexes p) i) \<or>
   getIndexForLocation location p = length (pd_indexes p) \<and>
     (\<forall>k < length (pd_indexes p). location < ix_base (pd_indexes p ! k))"
  using nearest_from_start [of "pd_indexes p" location 0 "length (pd_indexes p)"]
  by (auto simp: getIndexForLocation_def)

text \<open>The applications' locations lie one behind the other.\<close>

definition laid_out :: "index_info list \<Rightarrow> bool" where
  "laid_out xs \<longleftrightarrow>
     (\<forall>i < length xs. 0 < ix_size (xs ! i) \<and>
        ix_appBase (xs ! i) = (if i = 0 then 0 else ix_appBase (xs ! (i - 1)) + ix_size (xs ! (i - 1))))"

lemma laid_out_ordered:
  "laid_out xs \<Longrightarrow> i < k \<Longrightarrow> k < length xs \<Longrightarrow> ix_appBase (xs ! i) + ix_size (xs ! i) \<le> ix_appBase (xs ! k)"
proof (induction k)
  case (Suc k)
  then have s: "ix_appBase (xs ! Suc k) = ix_appBase (xs ! k) + ix_size (xs ! k)" "0 < ix_size (xs ! k)"
    by (simp_all add: laid_out_def)
  show ?case
  proof (cases "i = k")
    case False
    with Suc have "ix_appBase (xs ! i) + ix_size (xs ! i) \<le> ix_appBase (xs ! k)" by simp
    with s show ?thesis by simp
  qed (use s in simp)
qed simp

lemma app_location_unique:
  assumes "laid_out xs" "i < length xs" "k < length xs" "has_app_location l (xs ! i)" "has_app_location l (xs ! k)"
  shows "i = k"
  using laid_out_ordered [OF assms(1), of i k] laid_out_ordered [OF assms(1), of k i] assms
  by (cases i k rule: linorder_cases) (auto simp: has_app_location_def)

lemma find_app_location:
  assumes "laid_out xs" "i < length xs" "has_app_location l (xs ! i)"
  shows "find (has_app_location l) xs = Some (xs ! i)"
proof -
  have "\<not> has_app_location l (xs ! k)" if "k < i" for k
    using app_location_unique [OF assms(1) _ assms(2) _ assms(3), of k] that assms(2) by auto
  then show ?thesis using assms(2,3) by (auto simp: find_Some_iff)
qed

lemma laid_out_update:
  assumes "laid_out xs" "i < length xs"
    "ix_size x = ix_size (xs ! i)" "ix_appBase x = ix_appBase (xs ! i)"
  shows "laid_out (xs[i := x])"
proof -
  have "ix_size (xs[i := x] ! k) = ix_size (xs ! k)" "ix_appBase (xs[i := x] ! k) = ix_appBase (xs ! k)"
    if "k < length xs" for k
    using that assms(3,4) by (cases "k = i"; simp)+
  with assms(1) show ?thesis by (auto simp: laid_out_def)
qed

lemma laid_out_snoc:
  assumes "laid_out xs" "0 < ix_size x"
    and "ix_appBase x = (if xs = [] then 0 else ix_appBase (xs ! (length xs - 1)) + ix_size (xs ! (length xs - 1)))"
  shows "laid_out (xs @ [x])"
  unfolding laid_out_def
proof (intro allI impI)
  fix i
  assume i: "i < length (xs @ [x])"
  show "0 < ix_size ((xs @ [x]) ! i) \<and> ix_appBase ((xs @ [x]) ! i) =
      (if i = 0 then 0 else ix_appBase ((xs @ [x]) ! (i - 1)) + ix_size ((xs @ [x]) ! (i - 1)))"
  proof (cases "i < length xs")
    case True
    then have "i - 1 < length xs" by simp
    with True assms(1) show ?thesis by (simp add: laid_out_def nth_append del: One_nat_def)
  next
    case False
    with i have "i = length xs" by simp
    with assms(2,3) show ?thesis by (simp add: nth_append)
  qed
qed

text \<open>The first \<open>n\<close> uniforms of a program are as the host has them: base, size and type.\<close>

definition uniforms_upto :: "nat \<Rightarrow> (int \<times> int \<times> glenum) list \<Rightarrow> program_data \<Rightarrow> bool" where
  "uniforms_upto n us p \<longleftrightarrow>
     length (pd_indexes p) = length us \<and> laid_out (take n (pd_indexes p)) \<and>
     (\<forall>i < n. i < length us \<longrightarrow>
        (ix_base (pd_indexes p ! i), ix_size (pd_indexes p ! i), ix_type (pd_indexes p ! i)) = us ! i)"

lemma uniforms_upto_fields:
  assumes "uniforms_upto n us p" "i < n" "i < length us"
  shows "ix_base (pd_indexes p ! i) = fst (us ! i)" "ix_size (pd_indexes p ! i) = fst (snd (us ! i))"
    "ix_type (pd_indexes p ! i) = snd (snd (us ! i))"
proof -
  have "us ! i = (ix_base (pd_indexes p ! i), ix_size (pd_indexes p ! i), ix_type (pd_indexes p ! i))"
    using assms by (simp add: uniforms_upto_def)
  then show "ix_base (pd_indexes p ! i) = fst (us ! i)" "ix_size (pd_indexes p ! i) = fst (snd (us ! i))"
    "ix_type (pd_indexes p ! i) = snd (snd (us ! i))" by simp_all
qed

lemma uniforms_upto_init: "uniforms_upto 0 us (pd_init junk (length us) p)"
  by (simp add: uniforms_upto_def pd_init_def laid_out_def)

lemma uniforms_upto_set:
  assumes "uniforms_upto n us p" "n < length us" "us ! n = (b, c, t)" "0 < c"
  shows "uniforms_upto (Suc n) us (setIndexInfo n b c t p)"
proof -
  have k: "n < length (pd_indexes p)" using assms(1,2) by (simp add: uniforms_upto_def)
  obtain x where x: "pd_indexes (setIndexInfo n b c t p) = (pd_indexes p)[n := x]"
    "ix_base x = b" "ix_size x = c" "ix_type x = t"
    "ix_appBase x = (if n = 0 then 0 else ix_appBase (pd_indexes p ! (n - 1)) + ix_size (pd_indexes p ! (n - 1)))"
    using k by (auto simp: setIndexInfo_def Let_def)
  have "length (take n (pd_indexes p)) = n" "take n (pd_indexes p) = [] \<longleftrightarrow> n = 0"
    "n \<noteq> 0 \<Longrightarrow> take n (pd_indexes p) ! (n - 1) = pd_indexes p ! (n - 1)"
    using k by auto
  then have "laid_out (take n (pd_indexes p) @ [x])"
    using laid_out_snoc [of "take n (pd_indexes p)" x] assms(1,4) x(3,5) by (auto simp: uniforms_upto_def)
  then have "laid_out (take (Suc n) ((pd_indexes p)[n := x]))" using k by (simp add: take_Suc_conv_app_nth)
  with assms(1,3) x(1-4) k show ?thesis
    by (auto simp: uniforms_upto_def nth_list_update less_Suc_eq)
qed

lemma uniforms_upto_flags:
  assumes "uniforms_upto n us p"
  shows "uniforms_upto n us (setIndexFlags i flags p)"
proof (cases "i < length (pd_indexes p)")
  case True
  let ?x = "(pd_indexes p ! i)\<lparr>ix_flags := ix_flags (pd_indexes p ! i) OR flags\<rparr>"
  have "laid_out (take n ((pd_indexes p)[i := ?x]))"
  proof (cases "i < n")
    case True
    with assms \<open>i < length (pd_indexes p)\<close> show ?thesis
      using laid_out_update [of "take n (pd_indexes p)" i ?x] by (simp add: uniforms_upto_def take_update_swap)
  qed (use assms in \<open>simp add: uniforms_upto_def\<close>)
  with assms True show ?thesis
    by (auto simp: uniforms_upto_def setIndexFlags_def nth_list_update)
qed (use assms in \<open>simp add: setIndexFlags_def\<close>)

lemma uniforms_upto_setup: "uniforms_upto n us (pd_setupLocationShiftWAR p) = uniforms_upto n us p"
  by (simp add: uniforms_upto_def pd_setupLocationShiftWAR_def)

text \<open>
  Element \<open>j\<close> of the uniform \<open>i\<close> at the host: \<open>k\<close> locations for an element. The host gives every uniform locations of
  its own.
\<close>

definition host_location :: "(int \<times> int \<times> glenum) list \<Rightarrow> nat \<Rightarrow> int \<Rightarrow> int \<Rightarrow> bool" where
  "host_location us i j loc \<longleftrightarrow>
     i < length us \<and> 0 \<le> j \<and> j < fst (snd (us ! i)) \<and> (\<exists>k \<ge> 0. loc = fst (us ! i) + j * k) \<and>
     list_all (\<lambda>u. fst u < fst (us ! i) \<or> loc < fst u \<or> u = us ! i) us \<and> distinct (map fst us)"

lemma host_location_index:
  assumes "uniforms_upto (length us) us p" "host_location us i j loc"
  shows "getIndexForLocation loc p = i"
proof -
  have x: "length (pd_indexes p) = length us" using assms(1) by (simp add: uniforms_upto_def)
  have x': "\<forall>i < length us. ix_base (pd_indexes p ! i) = fst (us ! i)"
    using uniforms_upto_fields(1) [OF assms(1)] by simp
  have b: "i < length us" "fst (us ! i) \<le> loc" using assms(2) by (auto simp: host_location_def)
  have "nearest loc (pd_indexes p) (getIndexForLocation loc p)"
    using getIndexForLocation_nearest [of loc p] b x x' by (metis not_le)
  then obtain m where m: "getIndexForLocation loc p = m" "m < length us" "fst (us ! m) \<le> loc" "fst (us ! i) \<le> fst (us ! m)"
    using x x' b by (auto simp: nearest_def)
  have "m = i"
    using assms(2) m(2-4) b(1) unfolding host_location_def
    by (fastforce simp: list_all_length nth_eq_iff_index_eq distinct_map)
  with m(1) show ?thesis by simp
qed

lemma round_trip_at:
  assumes "uniforms_upto (length us) us p" "host_location us i j loc"
    and "pd_locationWARHostToApp loc j p = (appLoc, p')"
  shows "pd_locationWARAppToHost appLoc p' = loc" "uniforms_upto (length us) us p'"
    "appLoc = (if pd_locShiftWAR p then ix_appBase (pd_indexes p ! i) + j else loc)"
proof -
  let ?xs = "pd_indexes p" and ?x = "pd_indexes p ! i"
  let ?x' = "if j > 0 then ?x\<lparr>ix_hostLocsPerElement := (loc - ix_base ?x) div j\<rparr> else ?x"
  have i: "i < length ?xs" "ix_base ?x = fst (us ! i)" "ix_size ?x = fst (snd (us ! i))" "0 \<le> j" "j < ix_size ?x"
    using assms(1,2) uniforms_upto_fields [OF assms(1), of i] by (auto simp: uniforms_upto_def host_location_def)
  obtain k where k: "0 \<le> k" "loc = ix_base ?x + j * k" using assms(2) i(2) by (auto simp: host_location_def)
  have h: "pd_locationWARHostToApp loc j p =
      (if pd_locShiftWAR p then (ix_appBase ?x + j, p\<lparr>pd_indexes := ?xs[i := ?x']\<rparr>) else (loc, p))"
    using host_location_index [OF assms(1,2)] i(1) by (simp add: pd_locationWARHostToApp_def Let_def)
  then show "appLoc = (if pd_locShiftWAR p then ix_appBase ?x + j else loc)" using assms(3) by (simp split: if_splits)
  have lo: "laid_out ?xs" using assms(1) unfolding uniforms_upto_def by (metis take_all_iff order_refl)
  have lo': "laid_out (?xs[i := ?x'])" using laid_out_update [OF lo i(1), of ?x'] by simp
  show "uniforms_upto (length us) us p'"
    using assms(1,3) h lo' i(1) by (auto simp: uniforms_upto_def nth_list_update split: if_splits)
  have "find (has_app_location (ix_appBase ?x + j)) (?xs[i := ?x']) = Some ?x'"
    using find_app_location [of "?xs[i := ?x']" i "ix_appBase ?x + j"] lo' i by (simp add: has_app_location_def)
  then show "pd_locationWARAppToHost appLoc p' = loc"
    using assms(3) h k i(4) by (auto simp: pd_locationWARAppToHost_def split: if_splits)
qed

text \<open>What the encoder does when a program is linked: one call for each uniform, in order.\<close>

definition declare_uniforms :: "(int \<times> int \<times> glenum) list \<Rightarrow> program_data \<Rightarrow> program_data" where
  "declare_uniforms us p = fold (\<lambda>(i, b, n, t). setIndexInfo i b n t) (enumerate 0 us) p"

lemma declared_uniforms:
  assumes "uniforms_upto 0 (us @ vs) p" "list_all (\<lambda>(b, n, t). 0 < n) us"
  shows "uniforms_upto (length us) (us @ vs) (declare_uniforms us p)"
  using assms
proof (induction us arbitrary: vs rule: rev_induct)
  case (snoc u us)
  obtain b n t where u: "u = (b, n, t)" by (cases u)
  have "declare_uniforms (us @ [u]) p = setIndexInfo (length us) b n t (declare_uniforms us p)"
    by (simp add: declare_uniforms_def u enumerate_append_eq)
  then show ?case
    using snoc.IH [of "u # vs"] snoc.prems u
      uniforms_upto_set [of "length us" "us @ u # vs" "declare_uniforms us p" b n t] by simp
qed (simp add: declare_uniforms_def)

text \<open>
  The location an application is given for element \<open>j\<close> of a uniform leads back to the host's: for a program whose
  uniforms were declared in order, a location \<open>base + j * k\<close> of the host, before the next base, and an element within
  the size of the uniform. This holds with and without the shift of locations.
\<close>
lemma uniform_locations_round_trip:
  assumes "list_all (\<lambda>(b, n, t). 0 < n) us"
    and "p = pd_setupLocationShiftWAR (declare_uniforms us (pd_init junk (length us) program_data_new))"
    and "i < length us" "0 \<le> j" "j < fst (snd (us ! i))" "0 \<le> k" "hostLoc = fst (us ! i) + j * k"
    and "list_all (\<lambda>u. fst u < fst (us ! i) \<or> hostLoc < fst u \<or> u = us ! i) us" "distinct (map fst us)"
  shows "case pd_locationWARHostToApp hostLoc j p of
      (appLoc, p') \<Rightarrow> pd_locationWARAppToHost appLoc p' = hostLoc"
proof -
  have "uniforms_upto (length us) us p"
    using declared_uniforms [of us "[]" "pd_init junk (length us) program_data_new"] assms(1)
      uniforms_upto_init [of us junk program_data_new] by (simp add: assms(2) uniforms_upto_setup)
  moreover have "host_location us i j hostLoc" using assms(3-) by (auto simp: host_location_def)
  ultimately show ?thesis using round_trip_at(1) [of us p i j hostLoc] by (simp split: prod.split)
qed

definition no_index :: index_info where
  "no_index =
     \<lparr>ix_base = 0, ix_size = 0, ix_type = [], ix_appBase = 0, ix_hostLocsPerElement = 0, ix_flags = 0,
      ix_samplerValue = 0\<rparr>"

definition two_uniforms :: "(int \<times> int \<times> glenum) list" where
  "two_uniforms = [(65536, 1, ''GL_INT''), (131072, 5, ''GL_FLOAT'')]"

lemma uniform_locations_round_trip_witness:
  "case pd_locationWARHostToApp 131078 3
      (pd_setupLocationShiftWAR (declare_uniforms two_uniforms (pd_init no_index 2 program_data_new))) of
    (appLoc, p') \<Rightarrow> appLoc = 4 \<and> pd_locationWARAppToHost appLoc p' = 131078"
proof -
  let ?p = "pd_setupLocationShiftWAR (declare_uniforms two_uniforms (pd_init no_index (length two_uniforms) program_data_new))"
  have "case pd_locationWARHostToApp 131078 3 ?p of (appLoc, p') \<Rightarrow> pd_locationWARAppToHost appLoc p' = 131078"
    by (rule uniform_locations_round_trip [where us = two_uniforms and i = 1 and k = 2 and junk = no_index])
      (simp_all add: two_uniforms_def)
  moreover have "fst (pd_locationWARHostToApp 131078 3 ?p) = 4" by code_simp
  moreover have "length two_uniforms = 2" by (simp add: two_uniforms_def)
  ultimately show ?thesis by auto
qed

text \<open>A sampler that is declared can not be set: the type that is compared is that of a texture.\<close>

lemma sampler_never_set:
  assumes "list_all (\<lambda>x. ix_type x \<noteq> ''GL_TEXTURE_2D'') (pd_indexes p)"
  shows "pd_setSamplerUniform appLoc val p = (None, p)"
proof -
  have "find (\<lambda>i. has_app_location appLoc (pd_indexes p ! i) \<and> ix_type (pd_indexes p ! i) = ''GL_TEXTURE_2D'')
      [0..<length (pd_indexes p)] = None"
    using assms by (auto simp: find_None_iff list_all_length)
  then show ?thesis by (simp add: pd_setSamplerUniform_def)
qed

section \<open>Buffers\<close>

text \<open>An update replaces the bytes it names; the size and every other byte stay. Out of range nothing changes.\<close>

lemma subUpdate_bytes:
  assumes "sg_buffers g i = Some buf"
  shows "case subUpdateBufferData i offset data g of (ok, g') \<Rightarrow>
    (ok \<longleftrightarrow> 0 \<le> offset \<and> offset + int (length data) \<le> int (length buf)) \<and> (\<not> ok \<longrightarrow> g' = g) \<and>
    (ok \<longrightarrow> (\<exists>buf'. sg_buffers g' i = Some buf' \<and> length buf' = length buf \<and>
      (\<forall>n < length buf. buf' ! n =
         (if nat offset \<le> n \<and> n < nat offset + length data then data ! (n - nat offset) else buf ! n))))"
  using assms by (auto simp: subUpdateBufferData_def nth_append not_less)

section \<open>References of shaders\<close>

text \<open>
  Calls on shaders and programs as the encoder makes them, with the shaders that the application has created and not
  deleted. The condition of a call is what the host guarantees (new names are not in use) or the application keeps to.
\<close>

datatype shader_op =
    Create_Shader u32
  | Delete_Shader u32
  | Create_Program u32
  | Delete_Program u32
  | Attach u32 u32
  | Detach u32 u32

fun shader_step :: "shader_op \<Rightarrow> shared_group \<Rightarrow> shared_group" where
  "shader_step (Create_Shader s) g = addShaderData s g"
| "shader_step (Delete_Shader s) g = unrefShaderData s g"
| "shader_step (Create_Program p) g = addProgramData p g"
| "shader_step (Delete_Program p) g = deleteProgramData p g"
| "shader_step (Attach p s) g = attachShader p s g"
| "shader_step (Detach p s) g = detachShader p s g"

definition users :: "shared_group \<Rightarrow> u32 \<Rightarrow> u32 set" where
  "users g s = {p. \<exists>d. sg_programs g p = Some d \<and> s \<in> set (pd_shaders d)}"

fun allowed :: "shader_op \<Rightarrow> shared_group \<Rightarrow> u32 set \<Rightarrow> bool" where
  "allowed (Create_Shader s) g owned \<longleftrightarrow> sg_shaders g s = None"
| "allowed (Delete_Shader s) g owned \<longleftrightarrow> s \<in> owned"
| "allowed (Create_Program p) g owned \<longleftrightarrow> sg_programs g p = None"
| "allowed (Delete_Program p) g owned \<longleftrightarrow> (\<forall>s. p \<notin> users g s)"
| "allowed (Attach p s) g owned \<longleftrightarrow> True"
| "allowed (Detach p s) g owned \<longleftrightarrow> True"

fun owned_after :: "shader_op \<Rightarrow> u32 set \<Rightarrow> u32 set" where
  "owned_after (Create_Shader s) owned = insert s owned"
| "owned_after (Delete_Shader s) owned = owned - {s}"
| "owned_after oper owned = owned"

definition refs :: "shared_group \<Rightarrow> u32 set \<Rightarrow> u32 \<Rightarrow> nat" where
  "refs g owned s = (if s \<in> owned then 1 else 0) + card (users g s)"

fun counted :: "shader_data option \<Rightarrow> nat \<Rightarrow> bool" where
  "counted None n \<longleftrightarrow> n = 0"
| "counted (Some d) n \<longleftrightarrow> sd_refcount d = int n \<and> 0 < n"

definition shader_inv :: "shared_group \<Rightarrow> u32 set \<Rightarrow> bool" where
  "shader_inv g owned \<longleftrightarrow>
     (\<forall>s. counted (sg_shaders g s) (refs g owned s)) \<and>
     (\<forall>p d. sg_programs g p = Some d \<longrightarrow> distinct (pd_shaders d))"

lemma finite_users [simp]: "finite (users g s)"
  by (rule finite_subset [of _ UNIV]) simp_all

lemma refs_0_iff: "refs g owned s = 0 \<longleftrightarrow> s \<notin> owned \<and> users g s = {}"
  by (simp add: refs_def)

lemma shader_inv_new: "shader_inv shared_group_new {}"
  by (simp add: shader_inv_def shared_group_new_def refs_def users_def)

lemma shader_invD:
  assumes "shader_inv g owned"
  shows "counted (sg_shaders g s) (refs g owned s)"
    and "sg_programs g p = Some pd \<Longrightarrow> distinct (pd_shaders pd)"
  using assms by (simp_all add: shader_inv_def)

lemma shader_invI:
  assumes "\<And>s. counted (sg_shaders g s) (refs g owned s)"
    and "\<And>p pd. sg_programs g p = Some pd \<Longrightarrow> distinct (pd_shaders pd)"
  shows "shader_inv g owned"
  using assms by (simp add: shader_inv_def)

text \<open>The count does not depend on the table of the shaders.\<close>

lemma refs_shaders [simp]: "refs (g\<lparr>sg_shaders := m\<rparr>) owned s = refs g owned s"
  by (simp add: refs_def users_def)

lemma refs_programs:
  assumes "sg_programs g p = Some d" "distinct (pd_shaders d)"
  shows "s \<notin> set (pd_shaders d) \<Longrightarrow>
      refs (g\<lparr>sg_programs := (sg_programs g)(p \<mapsto> d\<lparr>pd_shaders := pd_shaders d @ [s]\<rparr>)\<rparr>) owned t =
        (if t = s then Suc (refs g owned t) else refs g owned t)"
    and "s \<in> set (pd_shaders d) \<Longrightarrow>
      refs g owned t = (if t = s then Suc (refs (g\<lparr>sg_programs := (sg_programs g)(p \<mapsto> d\<lparr>pd_shaders := remove1 s (pd_shaders d)\<rparr>)\<rparr>) owned t)
        else refs (g\<lparr>sg_programs := (sg_programs g)(p \<mapsto> d\<lparr>pd_shaders := remove1 s (pd_shaders d)\<rparr>)\<rparr>) owned t)"
proof -
  let ?a = "g\<lparr>sg_programs := (sg_programs g)(p \<mapsto> d\<lparr>pd_shaders := pd_shaders d @ [s]\<rparr>)\<rparr>"
  let ?r = "g\<lparr>sg_programs := (sg_programs g)(p \<mapsto> d\<lparr>pd_shaders := remove1 s (pd_shaders d)\<rparr>)\<rparr>"
  show "refs ?a owned t = (if t = s then Suc (refs g owned t) else refs g owned t)" if n: "s \<notin> set (pd_shaders d)"
  proof -
    have "users ?a t = (if t = s then insert p (users g t) else users g t)" using assms(1) by (auto simp: users_def)
    moreover have "p \<notin> users g s" using n assms(1) by (simp add: users_def)
    ultimately show ?thesis by (simp add: refs_def)
  qed
  show "refs g owned t = (if t = s then Suc (refs ?r owned t) else refs ?r owned t)" if n: "s \<in> set (pd_shaders d)"
  proof -
    have "users ?r t = (if t = s then users g t - {p} else users g t)" using assms by (auto simp: users_def)
    moreover have "p \<in> users g s" using n assms(1) by (simp add: users_def)
    then have "card (users g s) = Suc (card (users g s - {p}))" by (simp only: card.remove [OF finite_users])
    ultimately show ?thesis by (cases "t = s") (simp_all add: refs_def)
  qed
qed

text \<open>Giving a reference back when the new number of references is one less.\<close>

lemma shader_inv_unref:
  assumes inv: "shader_inv g owned"
    and dec: "\<And>t. refs g owned t = (if t = s then Suc (refs g' owned' t) else refs g' owned' t)"
    and same: "sg_shaders g' = sg_shaders g"
    and dist: "\<And>p d. sg_programs g' p = Some d \<Longrightarrow> distinct (pd_shaders d)"
  shows "shader_inv (unrefShaderData s g') owned'"
proof (rule shader_invI)
  have c: "counted (sg_shaders g t) (refs g owned t)" for t by (rule shader_invD(1) [OF inv])
  then obtain d where d: "sg_shaders g s = Some d" "sd_refcount d = int (refs g' owned' s) + 1"
    using dec [of s] by (cases "sg_shaders g s") (auto dest: spec [of _ s] simp: dec elim: meta_allE [of _ s])
  fix t
  show "counted (sg_shaders (unrefShaderData s g') t) (refs (unrefShaderData s g') owned' t)"
    using c [of t] d dec [of t] by (cases "t = s") (auto simp: unrefShaderData_def same)
next
  fix p d
  assume "sg_programs (unrefShaderData s g') p = Some d"
  then show "distinct (pd_shaders d)" using dist by (simp add: unrefShaderData_def split: option.splits if_splits)
qed

lemma shader_inv_attach:
  assumes inv: "shader_inv g owned"
  shows "shader_inv (attachShader p s g) owned"
proof (cases "\<exists>d sd. sg_programs g p = Some d \<and> sg_shaders g s = Some sd \<and> s \<notin> set (pd_shaders d)")
  case False
  with inv show ?thesis
    by (auto simp: attachShader_def pd_attachShader_def split: option.splits)
next
  case True
  then obtain d sd where p: "sg_programs g p = Some d" and s: "sg_shaders g s = Some sd" "s \<notin> set (pd_shaders d)"
    by blast
  let ?g = "g\<lparr>sg_programs := (sg_programs g)(p \<mapsto> d\<lparr>pd_shaders := pd_shaders d @ [s]\<rparr>)\<rparr>"
  have dist: "distinct (pd_shaders d)" by (rule shader_invD(2) [OF inv p])
  note r = refs_programs(1) [OF p dist s(2)]
  have a: "attachShader p s g = ?g\<lparr>sg_shaders := (sg_shaders g)(s \<mapsto> sd\<lparr>sd_refcount := sd_refcount sd + 1\<rparr>)\<rparr>"
    using p s by (simp add: attachShader_def pd_attachShader_def add_reference_def)
  show ?thesis unfolding a
  proof (rule shader_invI)
    fix t
    show "counted (sg_shaders (?g\<lparr>sg_shaders := (sg_shaders g)(s \<mapsto> sd\<lparr>sd_refcount := sd_refcount sd + 1\<rparr>)\<rparr>) t)
        (refs (?g\<lparr>sg_shaders := (sg_shaders g)(s \<mapsto> sd\<lparr>sd_refcount := sd_refcount sd + 1\<rparr>)\<rparr>) owned t)"
      unfolding refs_shaders r using shader_invD(1) [OF inv, of t] s(1) by auto
  next
    fix q e
    assume "sg_programs (?g\<lparr>sg_shaders := (sg_shaders g)(s \<mapsto> sd\<lparr>sd_refcount := sd_refcount sd + 1\<rparr>)\<rparr>) q = Some e"
    then show "distinct (pd_shaders e)"
      using dist s(2) shader_invD(2) [OF inv] by (auto split: if_splits)
  qed
qed

lemma shader_inv_detach:
  assumes inv: "shader_inv g owned"
  shows "shader_inv (detachShader p s g) owned"
proof (cases "\<exists>d sd. sg_programs g p = Some d \<and> sg_shaders g s = Some sd \<and> s \<in> set (pd_shaders d)")
  case False
  with inv show ?thesis
    by (auto simp: detachShader_def pd_detachShader_def split: option.splits)
next
  case True
  then obtain d sd where p: "sg_programs g p = Some d" and s: "sg_shaders g s = Some sd" "s \<in> set (pd_shaders d)"
    by blast
  have dist: "distinct (pd_shaders d)" by (rule shader_invD(2) [OF inv p])
  let ?g = "g\<lparr>sg_programs := (sg_programs g)(p \<mapsto> d\<lparr>pd_shaders := remove1 s (pd_shaders d)\<rparr>)\<rparr>"
  have d: "detachShader p s g = unrefShaderData s ?g"
    using p s by (simp add: detachShader_def pd_detachShader_def)
  show ?thesis unfolding d
  proof (rule shader_inv_unref [OF inv refs_programs(2) [OF p dist s(2)]])
    fix q e
    assume "sg_programs ?g q = Some e"
    then show "distinct (pd_shaders e)"
      using dist shader_invD(2) [OF inv] by (auto split: if_splits)
  qed simp
qed

lemma shader_inv_programs:
  assumes "shader_inv g owned" "\<And>s. users (g\<lparr>sg_programs := m\<rparr>) s = users g s"
    and "\<And>p d. m p = Some d \<Longrightarrow> distinct (pd_shaders d)"
  shows "shader_inv (g\<lparr>sg_programs := m\<rparr>) owned"
proof (rule shader_invI)
  show "counted (sg_shaders (g\<lparr>sg_programs := m\<rparr>) s) (refs (g\<lparr>sg_programs := m\<rparr>) owned s)" for s
    using shader_invD(1) [OF assms(1), of s] assms(2) by (simp add: refs_def)
qed (use assms(3) in simp)

text \<open>
  As long as names are new when they are created, a shader is deleted once, and a program is deleted when no shader
  is attached to it, the reference count of a shader is the number of its users: the application and the programs it is
  attached to. The shader is known exactly as long as it has a user.
\<close>
lemma shader_references:
  assumes "shader_inv g owned" "allowed oper g owned"
  shows "shader_inv (shader_step oper g) (owned_after oper owned)"
proof (cases oper)
  case (Create_Shader s)
  with assms shader_invD(1) [OF assms(1), of s] have n: "s \<notin> owned" "users g s = {}" by (simp_all add: refs_0_iff)
  have "shader_inv (addShaderData s g) (insert s owned)"
  proof (rule shader_invI)
    show "counted (sg_shaders (addShaderData s g) t) (refs (addShaderData s g) (insert s owned) t)" for t
      using shader_invD(1) [OF assms(1), of t] n
      by (cases "t = s") (simp_all add: addShaderData_def refs_def users_def)
  qed (use shader_invD(2) [OF assms(1)] in \<open>simp add: addShaderData_def\<close>)
  with Create_Shader show ?thesis by simp
next
  case (Delete_Shader s)
  with assms(2) have s: "s \<in> owned" by simp
  have "shader_inv (unrefShaderData s g) (owned - {s})"
    by (rule shader_inv_unref [OF assms(1)]) (use s shader_invD(2) [OF assms(1)] in \<open>simp_all add: refs_def\<close>)
  with Delete_Shader show ?thesis by simp
next
  case (Create_Program p)
  have "shader_inv (addProgramData p g) owned" unfolding addProgramData_def
    by (rule shader_inv_programs [OF assms(1)])
      (use Create_Program assms(2) shader_invD(2) [OF assms(1)] in
        \<open>auto simp: users_def program_data_new_def split: if_splits\<close>)
  with Create_Program show ?thesis by simp
next
  case (Delete_Program p)
  have "shader_inv (deleteProgramData p g) owned" unfolding deleteProgramData_def
    by (rule shader_inv_programs [OF assms(1)])
      (use Delete_Program assms(2) shader_invD(2) [OF assms(1)] in \<open>auto simp: users_def split: if_splits\<close>)
  with Delete_Program show ?thesis by simp
next
  case (Attach p s)
  with shader_inv_attach [OF assms(1)] show ?thesis by simp
next
  case (Detach p s)
  with shader_inv_detach [OF assms(1)] show ?thesis by simp
qed

lemma shader_references_witness:
  "shader_inv (shader_step (Create_Shader 3) shared_group_new) {3}"
  using shader_references [OF shader_inv_new, of "Create_Shader 3"] by (simp add: shared_group_new_def)

text \<open>A program that is deleted does not give its references back: its shaders are never forgotten.\<close>

lemma deleted_program_keeps_shader:
  "sg_shaders (fold shader_step
     [Create_Shader 1, Create_Program 2, Attach 2 1, Delete_Program 2, Delete_Shader 1] shared_group_new) 1 =
   Some \<lparr>sd_samplerExternalNames = [], sd_refcount = 1\<rparr>"
  by (simp add: shared_group_new_def addShaderData_def addProgramData_def attachShader_def pd_attachShader_def
      add_reference_def deleteProgramData_def unrefShaderData_def program_data_new_def)


end
