(* ===== verification/GL2Encoder.thy ===== *)
theory GL2Encoder
  imports GLClientState GLSharedGroup
begin

text \<open>
  The hand-written part of the OpenGL ES 2 client (\<open>android/opengl/system/GLESv2_enc/GL2Encoder.{h,cpp}\<close> and
  \<open>GL2EncoderUtils.cpp\<close>): the functions that override generated ones in order to keep and to use the state of the client.
  A call of a generated function is a \<open>host_call\<close> that is appended to what was sent; what the host answers is a function
  of all calls so far. Memory of the application is a function from addresses to the bytes that can be read from there.
  Numbers are unbounded where the code has \<open>GLint\<close>, except where a conversion is written out.
  Shown here: the host has the texture bound to its 2D target that the client's unit gives priority to; an indexed draw
  of arrays in memory sends the vertices that the indices name; the locations of uniforms; the rewriting of shaders.
\<close>

section \<open>Calls to the host\<close>

datatype host_call =
    Call_GetError
  | Call_Flush
  | Call_FinishRoundTrip
  | Call_PixelStorei glenum int
  | Call_BindBuffer glenum u32
  | Call_BufferData glenum int "byte list option" glenum
  | Call_BufferSubData glenum int "byte list"
  | Call_DeleteBuffer u32
  | Call_Getv glenum glenum                            \<comment> \<open>the function and the parameter\<close>
  | Call_GetCompressedTextureFormats int
  | Call_EnableVertexAttribArray nat
  | Call_DisableVertexAttribArray nat
  | Call_GetVertexAttribv glenum u32 glenum
  | Call_VertexAttribPointerData nat int glenum bool int "byte list"
  | Call_VertexAttribPointerOffset nat int glenum bool int u32
  | Call_DrawArrays glenum int int
  | Call_DrawElementsOffset glenum int glenum u32
  | Call_DrawElementsData glenum int glenum "int list"
  | Call_ShaderString u32 "byte list"
  | Call_LinkProgram u32
  | Call_GetProgramiv u32 glenum
  | Call_GetActiveUniform u32 nat int
  | Call_GetUniformLocation u32 string
  | Call_DeleteProgram u32
  | Call_GetUniformv glenum u32 int
  | Call_CreateProgram
  | Call_CreateShader glenum
  | Call_DeleteShader u32
  | Call_AttachShader u32 u32
  | Call_DetachShader u32 u32
  | Call_GetText glenum u32 int                        \<comment> \<open>the function, the object and the room\<close>
  | Call_UseProgram u32
  | Call_Uniform string int "u32 list"
  | Call_Uniformv string int int "u32 list"
  | Call_UniformMatrix string int int bool "u32 list"
  | Call_ActiveTexture u32                             \<comment> \<open>the constant less \<open>GL_TEXTURE0\<close>\<close>
  | Call_BindTexture glenum u32
  | Call_DeleteTextures "u32 list"
  | Call_GetTexParameterv glenum glenum glenum
  | Call_TexParameter glenum glenum glenum "glenum list"
  | Call_TexImage2D glenum int "int list"
  | Call_TexSubImage2D glenum int "int list"

text \<open>What the host answers: to the last of the calls.\<close>

record gl_host =
  ans_int :: "host_call list \<Rightarrow> int"
  ans_ints :: "host_call list \<Rightarrow> int list"
  ans_float :: "host_call list \<Rightarrow> u32"
  ans_enum :: "host_call list \<Rightarrow> glenum"
  ans_name :: "host_call list \<Rightarrow> u32"
  ans_uniform :: "host_call list \<Rightarrow> int \<times> glenum \<times> string"

record gl2_encoder =
  en_state :: gl_client
  en_shared :: shared_group
  en_error :: glenum
  en_formats :: "int list option"
  en_numFormats :: int
  en_maxCubeMap :: int
  en_maxRenderBuffer :: int
  en_maxTexture :: int
  en_sent :: "host_call list"

type_synonym memory = "int \<Rightarrow> byte list"

definition gl2_encoder_new :: "gl_client \<Rightarrow> shared_group \<Rightarrow> gl2_encoder" where
  "gl2_encoder_new state shared =
     \<lparr>en_state = state, en_shared = shared, en_error = ''GL_NO_ERROR'', en_formats = None, en_numFormats = 0,
      en_maxCubeMap = 0, en_maxRenderBuffer = 0, en_maxTexture = 0, en_sent = []\<rparr>"

definition send :: "host_call \<Rightarrow> gl2_encoder \<Rightarrow> gl2_encoder" where
  "send c x = x\<lparr>en_sent := en_sent x @ [c]\<rparr>"

definition ask_int :: "gl_host \<Rightarrow> host_call \<Rightarrow> gl2_encoder \<Rightarrow> int \<times> gl2_encoder" where
  "ask_int h c x = (let x = send c x in (ans_int h (en_sent x), x))"

definition ask_name :: "gl_host \<Rightarrow> host_call \<Rightarrow> gl2_encoder \<Rightarrow> u32 \<times> gl2_encoder" where
  "ask_name h c x = (let x = send c x in (ans_name h (en_sent x), x))"

definition setError :: "glenum \<Rightarrow> gl2_encoder \<Rightarrow> gl2_encoder" where
  "setError e x = x\<lparr>en_error := e\<rparr>"

text \<open>\<open>n\<close> bytes of the application.\<close>

definition read_bytes :: "memory \<Rightarrow> int \<Rightarrow> nat \<Rightarrow> fault + byte list" where
  "read_bytes mem p n = (if n \<le> length (mem p) then Inr (take n (mem p)) else Inl Undefined)"

section \<open>Errors, buffers and values\<close>

definition s_glGetError :: "gl_host \<Rightarrow> gl2_encoder \<Rightarrow> glenum \<times> gl2_encoder" where
  "s_glGetError h x =
     (if en_error x \<noteq> ''GL_NO_ERROR'' then (en_error x, setError ''GL_NO_ERROR'' x)
      else let x = send Call_GetError x in (ans_enum h (en_sent x), x))"

text \<open>The stream is flushed after the call.\<close>

definition s_glFlush :: "gl2_encoder \<Rightarrow> gl2_encoder" where
  "s_glFlush x = send Call_Flush x"

definition s_glFinish :: "gl2_encoder \<Rightarrow> gl2_encoder" where
  "s_glFinish x = send Call_FinishRoundTrip x"

definition s_glGetString :: "glenum \<Rightarrow> string" where
  "s_glGetString name =
     (if name = ''GL_VENDOR'' then ''Android''
      else if name = ''GL_RENDERER'' then ''Android HW-GLES 2.0''
      else if name = ''GL_VERSION'' then ''OpenGL ES 2.0''
      else if name = ''GL_EXTENSIONS'' then ''GL_OES_EGL_image_external ''
      else '''')"

definition s_glPixelStorei :: "glenum \<Rightarrow> int \<Rightarrow> gl2_encoder \<Rightarrow> gl2_encoder" where
  "s_glPixelStorei param val x =
     (let x = send (Call_PixelStorei param val) x in x\<lparr>en_state := snd (setPixelStore param val (en_state x))\<rparr>)"

definition s_glBindBuffer :: "glenum \<Rightarrow> u32 \<Rightarrow> gl2_encoder \<Rightarrow> gl2_encoder" where
  "s_glBindBuffer target i x =
     (let x = x\<lparr>en_state := snd (bindBuffer target i (en_state x))\<rparr> in send (Call_BindBuffer target i) x)"

text \<open>\<open>data\<close> is an address, 0 for none; \<open>junk\<close> is what a buffer holds that nothing is copied to.\<close>

definition s_glBufferData ::
  "memory \<Rightarrow> (nat \<Rightarrow> byte list) \<Rightarrow> glenum \<Rightarrow> int \<Rightarrow> nat \<Rightarrow> glenum \<Rightarrow> gl2_encoder \<Rightarrow> fault + gl2_encoder" where
  "s_glBufferData mem junk target count data usage x =
     (if target \<notin> {''GL_ARRAY_BUFFER'', ''GL_ELEMENT_ARRAY_BUFFER''} then Inr (setError ''GL_INVALID_ENUM'' x)
      else
        let bufferId = word_of_int (getBuffer target (en_state x)) in
        if bufferId = 0 then Inr (setError ''GL_INVALID_OPERATION'' x)
        else if count < 0 then Inr (setError ''GL_INVALID_VALUE'' x)
        else case (if data = 0 then Inr None else map_sum id Some (read_bytes mem (int data) (nat count))) of
            Inl e \<Rightarrow> Inl e
          | Inr d \<Rightarrow>
              let x = x\<lparr>en_shared := updateBufferData bufferId (junk (nat count)) d (en_shared x)\<rparr>
              in Inr (send (Call_BufferData target count d usage) x))"

text \<open>The conditions are those of \<open>subUpdateBufferData\<close>, which reads no data when it refuses.\<close>

definition s_glBufferSubData ::
  "memory \<Rightarrow> glenum \<Rightarrow> int \<Rightarrow> int \<Rightarrow> nat \<Rightarrow> gl2_encoder \<Rightarrow> fault + gl2_encoder" where
  "s_glBufferSubData mem target offset count data x =
     (if target \<notin> {''GL_ARRAY_BUFFER'', ''GL_ELEMENT_ARRAY_BUFFER''} then Inr (setError ''GL_INVALID_ENUM'' x)
      else
        let bufferId = word_of_int (getBuffer target (en_state x)) in
        if bufferId = 0 then Inr (setError ''GL_INVALID_OPERATION'' x)
        else case sg_buffers (en_shared x) bufferId of
            None \<Rightarrow> Inr (setError ''GL_INVALID_VALUE'' x)
          | Some buf \<Rightarrow>
              if int (length buf) < offset + count \<or> offset < 0 \<or> count < 0
              then Inr (setError ''GL_INVALID_VALUE'' x)
              else case read_bytes mem (int data) (nat count) of
                  Inl e \<Rightarrow> Inl e
                | Inr d \<Rightarrow>
                    Inr (send (Call_BufferSubData target offset d)
                      (x\<lparr>en_shared := snd (subUpdateBufferData bufferId offset d (en_shared x))\<rparr>)))"

definition delete_buffer :: "u32 \<Rightarrow> gl2_encoder \<Rightarrow> gl2_encoder" where
  "delete_buffer i x =
     (let x = x\<lparr>en_shared := deleteBufferData i (en_shared x), en_state := unBindBuffer i (en_state x)\<rparr>
      in send (Call_DeleteBuffer i) x)"

text \<open>The number and the array; the array is as long as the number.\<close>

definition s_glDeleteBuffers :: "int \<Rightarrow> u32 list \<Rightarrow> gl2_encoder \<Rightarrow> gl2_encoder" where
  "s_glDeleteBuffers n buffers x =
     (if n < 0 then setError ''GL_INVALID_VALUE'' x else fold delete_buffer (take (nat n) buffers) x)"

definition s_glVertexAttribPointer ::
  "u32 \<Rightarrow> int \<Rightarrow> glenum \<Rightarrow> bool \<Rightarrow> int \<Rightarrow> nat \<Rightarrow> gl2_encoder \<Rightarrow> gl2_encoder" where
  "s_glVertexAttribPointer i count type normalized stride p x =
     x\<lparr>en_state := gl_setState (sint i) count type normalized stride p (en_state x)\<rparr>"

section \<open>Reading values\<close>

text \<open>
  \<open>texture0\<close> is the number of \<open>GL_TEXTURE0\<close>; the results are what is written to the pointer, from its start on.
\<close>

definition get_other :: "gl_host \<Rightarrow> int \<Rightarrow> glenum \<Rightarrow> gl2_encoder \<Rightarrow> fault + gl_value list \<times> gl2_encoder" where
  "get_other h texture0 param x =
     (case getClientStateParameter texture0 param (en_state x) of
        Inl e \<Rightarrow> Inl e
      | Inr (Some v) \<Rightarrow> Inr ([v], x)
      | Inr None \<Rightarrow> (case ask_int h (Call_Getv ''glGetIntegerv'' param) x of (v, x) \<Rightarrow> Inr ([Num v], x)))"

text \<open>The list is asked for until there is one; \<open>glGetIntegerv\<close> leaves the number of formats to \<open>get_other\<close>.\<close>

definition getCompressedTextureFormats ::
  "gl_host \<Rightarrow> int \<Rightarrow> gl2_encoder \<Rightarrow> fault + int list option \<times> gl2_encoder" where
  "getCompressedTextureFormats h texture0 x =
     (if en_formats x \<noteq> None then Inr (en_formats x, x)
      else case get_other h texture0 ''GL_NUM_COMPRESSED_TEXTURE_FORMATS'' x of
          Inr ([Num n], x) \<Rightarrow>
            let x = x\<lparr>en_numFormats := n\<rparr> in
            if n > 0 then
              let x = send (Call_GetCompressedTextureFormats n) x;
                  x = x\<lparr>en_formats := Some (take (nat n) (ans_ints h (en_sent x)))\<rparr>
              in Inr (en_formats x, x)
            else Inr (None, x)
        | Inr (_, x) \<Rightarrow> Inl Undefined
        | Inl e \<Rightarrow> Inl e)"

definition get_formats :: "gl_host \<Rightarrow> int \<Rightarrow> gl2_encoder \<Rightarrow> fault + int list \<times> gl2_encoder" where
  "get_formats h texture0 x =
     (case getCompressedTextureFormats h texture0 x of
        Inl e \<Rightarrow> Inl e
      | Inr (Some fs, x) \<Rightarrow> Inr (if en_numFormats x > 0 then fs else [], x)
      | Inr (None, x) \<Rightarrow> Inr ([], x))"

definition get_cached ::
  "gl_host \<Rightarrow> glenum \<Rightarrow> int \<Rightarrow> (int \<Rightarrow> gl2_encoder \<Rightarrow> gl2_encoder) \<Rightarrow> gl2_encoder \<Rightarrow> int \<times> gl2_encoder" where
  "get_cached h param cached store x =
     (if cached \<noteq> 0 then (cached, x)
      else case ask_int h (Call_Getv ''glGetIntegerv'' param) x of (v, x) \<Rightarrow> (v, store v x))"

definition texture_unit_limits :: "glenum set" where
  "texture_unit_limits =
     {''GL_MAX_COMBINED_TEXTURE_IMAGE_UNITS'', ''GL_MAX_VERTEX_TEXTURE_IMAGE_UNITS'', ''GL_MAX_TEXTURE_IMAGE_UNITS''}"

definition bound_name :: "glenum \<Rightarrow> gl2_encoder \<Rightarrow> int" where
  "bound_name target x = sint (getBoundTexture target (en_state x))"

definition s_glGetIntegerv :: "gl_host \<Rightarrow> int \<Rightarrow> glenum \<Rightarrow> gl2_encoder \<Rightarrow> fault + gl_value list \<times> gl2_encoder" where
  "s_glGetIntegerv h texture0 param x =
     (let num = map_prod (\<lambda>v. [Num v]) id in
      if param = ''GL_NUM_SHADER_BINARY_FORMATS'' then Inr ([Num 0], x)
      else if param = ''GL_SHADER_BINARY_FORMATS'' then Inr ([], x)
      else if param = ''GL_COMPRESSED_TEXTURE_FORMATS''
      then map_sum id (map_prod (map Num) id) (get_formats h texture0 x)
      else if param \<in> texture_unit_limits
      then (case ask_int h (Call_Getv ''glGetIntegerv'' param) x of
              (v, x) \<Rightarrow> Inr ([Num (min v (int MAX_TEXTURE_UNITS))], x))
      else if param = ''GL_TEXTURE_BINDING_2D'' then Inr ([Num (bound_name ''GL_TEXTURE_2D'' x)], x)
      else if param = ''GL_TEXTURE_BINDING_EXTERNAL_OES''
      then Inr ([Num (bound_name ''GL_TEXTURE_EXTERNAL_OES'' x)], x)
      else if param = ''GL_MAX_CUBE_MAP_TEXTURE_SIZE''
      then Inr (num (get_cached h param (en_maxCubeMap x) (\<lambda>v x. x\<lparr>en_maxCubeMap := v\<rparr>) x))
      else if param = ''GL_MAX_RENDERBUFFER_SIZE''
      then Inr (num (get_cached h param (en_maxRenderBuffer x) (\<lambda>v x. x\<lparr>en_maxRenderBuffer := v\<rparr>) x))
      else if param = ''GL_MAX_TEXTURE_SIZE''
      then Inr (num (get_cached h param (en_maxTexture x) (\<lambda>v x. x\<lparr>en_maxTexture := v\<rparr>) x))
      else if param = ''GL_MAX_VERTEX_ATTRIBS''
      then (case getClientStateParameter texture0 param (en_state x) of
              Inl e \<Rightarrow> Inl e
            | Inr (Some v) \<Rightarrow> Inr ([v], x)
            | Inr None \<Rightarrow>
                (case ask_int h (Call_Getv ''glGetIntegerv'' param) x of
                   (v, x) \<Rightarrow> Inr ([Num v], x\<lparr>en_state := setMaxVertexAttribs v (en_state x)\<rparr>)))
      else get_other h texture0 param x)"

text \<open>
  Floating point values are those that an integer or a constant is converted to, or the bits that the host gives. The
  comparison with 32.0 is written out for bits; it fails for no number.
\<close>

datatype gl_float = Of_Value gl_value | Of_Bits u32

definition below_32 :: "u32 \<Rightarrow> bool" where
  "below_32 b \<longleftrightarrow> b < 0x42000000 \<or> 0x80000000 \<le> b \<and> b \<le> 0xff800000"

definition ask_float :: "gl_host \<Rightarrow> host_call \<Rightarrow> gl2_encoder \<Rightarrow> u32 \<times> gl2_encoder" where
  "ask_float h c x = (let x = send c x in (ans_float h (en_sent x), x))"

definition s_glGetFloatv :: "gl_host \<Rightarrow> int \<Rightarrow> glenum \<Rightarrow> gl2_encoder \<Rightarrow> fault + gl_float list \<times> gl2_encoder" where
  "s_glGetFloatv h texture0 param x =
     (if param = ''GL_NUM_SHADER_BINARY_FORMATS'' then Inr ([Of_Value (Num 0)], x)
      else if param = ''GL_SHADER_BINARY_FORMATS'' then Inr ([], x)
      else if param = ''GL_COMPRESSED_TEXTURE_FORMATS''
      then map_sum id (map_prod (map (\<lambda>v. Of_Value (Num v))) id) (get_formats h texture0 x)
      else if param \<in> texture_unit_limits
      then (case ask_float h (Call_Getv ''glGetFloatv'' param) x of
              (v, x) \<Rightarrow> Inr ([if below_32 v then Of_Bits v else Of_Value (Num (int MAX_TEXTURE_UNITS))], x))
      else if param = ''GL_TEXTURE_BINDING_2D''
      then Inr ([Of_Value (Num (uint (getBoundTexture ''GL_TEXTURE_2D'' (en_state x))))], x)
      else if param = ''GL_TEXTURE_BINDING_EXTERNAL_OES''
      then Inr ([Of_Value (Num (uint (getBoundTexture ''GL_TEXTURE_EXTERNAL_OES'' (en_state x))))], x)
      else case getClientStateParameter texture0 param (en_state x) of
          Inl e \<Rightarrow> Inl e
        | Inr (Some v) \<Rightarrow> Inr ([Of_Value v], x)
        | Inr None \<Rightarrow> (case ask_float h (Call_Getv ''glGetFloatv'' param) x of (v, x) \<Rightarrow> Inr ([Of_Bits v], x)))"

text \<open>
  A value of the client's state is cut to a \<open>GLboolean\<close>, eight bits, before it is compared with 0; a constant has the
  number \<open>number\<close> gives.
\<close>

definition as_boolean :: "(glenum \<Rightarrow> int) \<Rightarrow> gl_value \<Rightarrow> bool" where
  "as_boolean number v = ((case v of Num n \<Rightarrow> n | Enum e \<Rightarrow> number e) mod 256 \<noteq> 0)"

definition s_glGetBooleanv ::
  "gl_host \<Rightarrow> (glenum \<Rightarrow> int) \<Rightarrow> glenum \<Rightarrow> gl2_encoder \<Rightarrow> fault + bool list \<times> gl2_encoder" where
  "s_glGetBooleanv h number param x =
     (if param = ''GL_NUM_SHADER_BINARY_FORMATS'' then Inr ([False], x)
      else if param = ''GL_SHADER_BINARY_FORMATS'' then Inr ([], x)
      else if param = ''GL_COMPRESSED_TEXTURE_FORMATS''
      then map_sum id (map_prod (map (\<lambda>v. v \<noteq> 0)) id) (get_formats h (number ''GL_TEXTURE0'') x)
      else if param = ''GL_TEXTURE_BINDING_2D'' then Inr ([getBoundTexture ''GL_TEXTURE_2D'' (en_state x) \<noteq> 0], x)
      else if param = ''GL_TEXTURE_BINDING_EXTERNAL_OES''
      then Inr ([getBoundTexture ''GL_TEXTURE_EXTERNAL_OES'' (en_state x) \<noteq> 0], x)
      else case getClientStateParameter (number ''GL_TEXTURE0'') param (en_state x) of
          Inl e \<Rightarrow> Inl e
        | Inr (Some v) \<Rightarrow> Inr ([as_boolean number v], x)
        | Inr None \<Rightarrow> (case ask_int h (Call_Getv ''glGetBooleanv'' param) x of (v, x) \<Rightarrow> Inr ([v mod 256 \<noteq> 0], x)))"

section \<open>Vertex arrays\<close>

text \<open>The index is compared with the greatest one as an unsigned number; \<open>f\<close> is what follows.\<close>

definition with_valid_index ::
  "gl_host \<Rightarrow> u32 \<Rightarrow> (gl2_encoder \<Rightarrow> 'a \<times> gl2_encoder) \<Rightarrow> 'a \<Rightarrow> gl2_encoder \<Rightarrow> fault + 'a \<times> gl2_encoder" where
  "with_valid_index h i f none x =
     (case s_glGetIntegerv h 0 ''GL_MAX_VERTEX_ATTRIBS'' x of
        Inr ([Num maxIndex], x) \<Rightarrow>
          if uint i < maxIndex mod 2 ^ 32 then Inr (f x) else Inr (none, setError ''GL_INVALID_VALUE'' x)
      | Inr _ \<Rightarrow> Inl Undefined
      | Inl e \<Rightarrow> Inl e)"

definition enable_array :: "gl_host \<Rightarrow> int \<Rightarrow> u32 \<Rightarrow> gl2_encoder \<Rightarrow> fault + unit \<times> gl2_encoder" where
  "enable_array h state i =
     with_valid_index h i (\<lambda>x. ((), x\<lparr>en_state := gl_enable (sint i) state (en_state x)\<rparr>)) ()"

definition s_glEnableVertexAttribArray :: "gl_host \<Rightarrow> u32 \<Rightarrow> gl2_encoder \<Rightarrow> fault + unit \<times> gl2_encoder" where
  "s_glEnableVertexAttribArray h i = enable_array h 1 i"

definition s_glDisableVertexAttribArray :: "gl_host \<Rightarrow> u32 \<Rightarrow> gl2_encoder \<Rightarrow> fault + unit \<times> gl2_encoder" where
  "s_glDisableVertexAttribArray h i = enable_array h 0 i"

text \<open>\<open>glGetVertexAttribiv\<close> and \<open>glGetVertexAttribfv\<close>: what the host is asked is the generated function of that name.\<close>

definition s_glGetVertexAttribv ::
  "gl_host \<Rightarrow> glenum \<Rightarrow> u32 \<Rightarrow> glenum \<Rightarrow> gl2_encoder \<Rightarrow> fault + gl_value list \<times> gl2_encoder" where
  "s_glGetVertexAttribv h func i pname =
     with_valid_index h i
       (\<lambda>x. case getVertexAttribParameter (sint i) pname (en_state x) of
              (True, v) \<Rightarrow> ((case v of None \<Rightarrow> [] | Some v \<Rightarrow> [v]), x)
            | (False, _) \<Rightarrow>
                let x = send (Call_GetVertexAttribv func i pname) x in (map Num (ans_ints h (en_sent x)), x)) []"

definition s_glGetVertexAttribPointerv ::
  "gl_host \<Rightarrow> u32 \<Rightarrow> glenum \<Rightarrow> gl2_encoder \<Rightarrow> fault + nat option \<times> gl2_encoder" where
  "s_glGetVertexAttribPointerv h i pname =
     with_valid_index h i
       (\<lambda>x. if pname \<noteq> ''GL_VERTEX_ATTRIB_ARRAY_POINTER'' then (None, setError ''GL_INVALID_ENUM'' x)
            else (map_option va_data (gl_getState (sint i) (en_state x)), x)) None"


section \<open>Drawing\<close>

text \<open>
  The array of one location. \<open>first\<close> and \<open>count\<close> are the vertices that are used. The data goes through
  \<open>glUtilsPackPointerData\<close>, which reads \<open>size\<close> as unsigned and cuts the size of an element to 32 bits.
\<close>

definition packed_array :: "memory \<Rightarrow> int \<Rightarrow> attrib_state \<Rightarrow> int \<Rightarrow> fault + byte list" where
  "packed_array mem p s datalen =
     (case pack_pointer_data (mem p) (nat (va_size s mod 2 ^ 32)) (va_type s) (nat (va_stride s mod 2 ^ 32))
             (nat datalen) of
        Packed ws \<Rightarrow> Inr (concat ws)
      | _ \<Rightarrow> Inl Undefined)"

definition send_enabled_array ::
  "memory \<Rightarrow> int \<Rightarrow> int \<Rightarrow> nat \<Rightarrow> attrib_state \<Rightarrow> gl2_encoder \<Rightarrow> fault + gl2_encoder" where
  "send_enabled_array mem first count i s x =
     (let x = send (Call_EnableVertexAttribArray i) x;
          datalen = (int (va_elementSize s) * count) mod 2 ^ 32;
          stride = (if va_stride s = 0 then int (va_elementSize s) else va_stride s);
          firstIndex = stride * first;
          x = send (Call_BindBuffer ''GL_ARRAY_BUFFER'' (va_bufferObject s)) x
      in case (if va_bufferObject s = 0
               then map_sum id
                      (Call_VertexAttribPointerData i (va_size s) (va_type s) (va_normalized s) (va_stride s))
                      (packed_array mem (int (va_data s) + firstIndex) s datalen)
               else Inr (Call_VertexAttribPointerOffset i (va_size s) (va_type s) (va_normalized s) (va_stride s)
                      (word_of_int (int (va_data s) + firstIndex)))) of
          Inl e \<Rightarrow> Inl e
        | Inr c \<Rightarrow> Inr (send (Call_BindBuffer ''GL_ARRAY_BUFFER'' (gc_arrayVbo (en_state x))) (send c x)))"

definition send_array :: "memory \<Rightarrow> int \<Rightarrow> int \<Rightarrow> nat \<Rightarrow> gl2_encoder \<Rightarrow> fault + gl2_encoder" where
  "send_array mem first count i x =
     (case getStateAndEnableDirty (int i) (en_state x) of
        (None, st) \<Rightarrow> Inr x
      | (Some (s, enableDirty), st) \<Rightarrow>
          let x = x\<lparr>en_state := st\<rparr> in
          if \<not> enableDirty \<and> va_enabled s = 0 then Inr x
          else if va_enabled s \<noteq> 0 then send_enabled_array mem first count i s x
          else Inr (send (Call_DisableVertexAttribArray i) x))"

fun send_arrays :: "memory \<Rightarrow> int \<Rightarrow> int \<Rightarrow> nat list \<Rightarrow> gl2_encoder \<Rightarrow> fault + gl2_encoder" where
  "send_arrays mem first count [] x = Inr x"
| "send_arrays mem first count (i # is) x =
     (case send_array mem first count i x of Inl e \<Rightarrow> Inl e | Inr x \<Rightarrow> send_arrays mem first count is x)"

definition sendVertexAttributes :: "memory \<Rightarrow> int \<Rightarrow> int \<Rightarrow> gl2_encoder \<Rightarrow> fault + gl2_encoder" where
  "sendVertexAttributes mem first count x =
     send_arrays mem first count [0..<length (gc_states (en_state x))] x"

definition isValidDrawMode :: "glenum \<Rightarrow> bool" where
  "isValidDrawMode mode \<longleftrightarrow>
     mode \<in> {''GL_POINTS'', ''GL_LINE_STRIP'', ''GL_LINE_LOOP'', ''GL_LINES'', ''GL_TRIANGLE_STRIP'',
              ''GL_TRIANGLE_FAN'', ''GL_TRIANGLES''}"

definition isValidDrawType :: "glenum \<Rightarrow> bool" where
  "isValidDrawType type \<longleftrightarrow> type \<in> {''GL_UNSIGNED_BYTE'', ''GL_UNSIGNED_SHORT'', ''GL_UNSIGNED_INT''}"

definition enabled_arrays :: "gl2_encoder \<Rightarrow> attrib_state list" where
  "enabled_arrays x = filter (\<lambda>s. va_enabled s \<noteq> 0) (gc_states (en_state x))"

definition has_no_data :: "attrib_state \<Rightarrow> bool" where
  "has_no_data s \<longleftrightarrow> va_bufferObject s = 0 \<and> va_data s = 0"

definition s_glDrawArrays :: "memory \<Rightarrow> glenum \<Rightarrow> int \<Rightarrow> int \<Rightarrow> gl2_encoder \<Rightarrow> fault + gl2_encoder" where
  "s_glDrawArrays mem mode first count x =
     (if \<not> isValidDrawMode mode then Inr (setError ''GL_INVALID_ENUM'' x)
      else if count < 0 then Inr (setError ''GL_INVALID_VALUE'' x)
      else if list_ex has_no_data (enabled_arrays x) then Inr (setError ''GL_INVALID_OPERATION'' x)
      else if enabled_arrays x = [] then Inr x
      else map_sum id (send (Call_DrawArrays mode 0 count)) (sendVertexAttributes mem first count x))"

text \<open>The indices in memory: little-endian numbers of the size of the type.\<close>

definition index_width :: "glenum \<Rightarrow> nat" where
  "index_width type = 8 * glSizeof type"

definition from_le :: "byte list \<Rightarrow> int" where
  "from_le bs = int (from_be (rev bs))"

definition read_indices :: "glenum \<Rightarrow> nat \<Rightarrow> byte list \<Rightarrow> fault + int list" where
  "read_indices type count bs =
     (let w = glSizeof type in
      if count * w \<le> length bs then Inr (map (\<lambda>i. from_le (take w (drop (i * w) bs))) [0..<count])
      else Inl Undefined)"

text \<open>The indices less the smallest, with the vertices that they use.\<close>

definition draw_adjusted ::
  "memory \<Rightarrow> glenum \<Rightarrow> int \<Rightarrow> glenum \<Rightarrow> byte list \<Rightarrow> gl2_encoder \<Rightarrow> fault + gl2_encoder" where
  "draw_adjusted mem mode count type bs x =
     (case read_indices type (nat count) bs of
        Inl e \<Rightarrow> Inl e
      | Inr indices \<Rightarrow>
          (case minmax indices of
             (minIndex, maxIndex) \<Rightarrow>
               let adjusted =
                     (if minIndex \<noteq> 0 then shiftIndices (index_width type) (- minIndex) indices else indices)
               in map_sum id (send (Call_DrawElementsData mode count type adjusted))
                    (sendVertexAttributes mem minIndex (maxIndex - minIndex + 1) x)))"

text \<open>\<open>indices\<close> is an address, or an offset in the index buffer.\<close>

definition s_glDrawElements ::
  "memory \<Rightarrow> glenum \<Rightarrow> int \<Rightarrow> glenum \<Rightarrow> nat \<Rightarrow> gl2_encoder \<Rightarrow> fault + gl2_encoder" where
  "s_glDrawElements mem mode count type indices x =
     (if \<not> (isValidDrawMode mode \<and> isValidDrawType type) then Inr (setError ''GL_INVALID_ENUM'' x)
      else if count < 0 then Inr (setError ''GL_INVALID_VALUE'' x)
      else if list_ex has_no_data (enabled_arrays x) then Inr (setError ''GL_INVALID_OPERATION'' x)
      else if enabled_arrays x = [] then Inr x
      else
        let vbo = gc_indexVbo (en_state x) in
        if vbo = 0 then draw_adjusted mem mode count type (mem (int indices)) x
        else if \<not> list_ex (\<lambda>s. va_bufferObject s = 0) (enabled_arrays x) then
          map_sum id (\<lambda>x. send (Call_DrawElementsOffset mode count type (word_of_nat indices))
                        (send (Call_BindBuffer ''GL_ELEMENT_ARRAY_BUFFER'' (gc_indexVbo (en_state x))) x))
            (sendVertexAttributes mem 0 count x)
        else case sg_buffers (en_shared x) vbo of
            None \<Rightarrow> Inl Undefined
          | Some buf \<Rightarrow>
              draw_adjusted mem mode count type (drop indices buf)
                (send (Call_BindBuffer ''GL_ELEMENT_ARRAY_BUFFER'' 0) x))"


section \<open>Shaders and programs\<close>

text \<open>The classes of characters of the C locale.\<close>

definition c_isalpha :: "char \<Rightarrow> bool" where
  "c_isalpha c \<longleftrightarrow> of_char c \<in> {65 .. 90 :: nat} \<or> of_char c \<in> {97 .. 122 :: nat}"

definition name_start_char :: "char \<Rightarrow> bool" where
  "name_start_char c \<longleftrightarrow> c_isalpha c \<or> c = CHR ''_''"

definition name_char :: "char \<Rightarrow> bool" where
  "name_char c \<longleftrightarrow> name_start_char c \<or> c_isdigit c"

definition begins :: "string \<Rightarrow> string \<Rightarrow> bool" where
  "begins p s \<longleftrightarrow> take (length p) s = p"

lemma begins_length: "begins p s \<Longrightarrow> length p \<le> length s"
  by (auto simp: begins_def dest: arg_cong [of _ _ length])

lemma extension_line:
  "begins ''#extension'' s \<Longrightarrow> 0 < length (takeWhile (\<lambda>c. of_char c \<notin> {10, 13 :: nat}) s)"
  by (cases s) (auto simp: begins_def)

text \<open>
  The first loop of \<open>replaceSamplerExternalWith2D\<close>: lines with \<open>#extension GL_OES_EGL_image_external\<close> become blank. The
  string is the rest from \<open>c\<close> on.
\<close>

function blank_extensions :: "string \<Rightarrow> string" where
  "blank_extensions s =
     (if s = [] then []
      else if begins ''#extension'' s then
        let after = drop 10 s; spaces = takeWhile c_isspace after; rest = dropWhile c_isspace after;
            line = takeWhile (\<lambda>c. of_char c \<notin> {10, 13 :: nat}) s
        in if begins ''GL_OES_EGL_image_external'' rest
           then replicate (length line) (CHR '' '') @ blank_extensions (drop (length line) s)
           else take 10 s @ spaces @ blank_extensions rest
      else hd s # blank_extensions (tl s))"
  by pat_completeness auto

termination
proof (relation "measure length", goal_cases)
  case (2 s after spaces rest line)
  then show ?case using extension_line [of s] by (cases s) auto
next
  case (3 s after spaces rest line)
  have "length rest \<le> length s - 10" using 3 length_dropWhile_le [of c_isspace "drop 10 s"] by simp
  then show ?case using begins_length [OF 3(2)] by simp
qed auto

declare blank_extensions.simps [simp del]

lemma sampler_rest:
  "begins ''samplerExternalOES'' s \<Longrightarrow> length (dropWhile name_char (tl (dropWhile c_isspace (drop 18 s)))) < length s"
  using begins_length [of "''samplerExternalOES''" s]
    length_dropWhile_le [of name_char "tl (dropWhile c_isspace (drop 18 s))"]
    length_dropWhile_le [of c_isspace "drop 18 s"]
  by simp

text \<open>
  The second loop. \<open>prev\<close> is the character before \<open>c\<close>, None at the start. The result is the changed text, or None when
  there is no name behind \<open>samplerExternalOES\<close>, and the names that were recorded until then.
\<close>

function replace_samplers :: "char option \<Rightarrow> string \<Rightarrow> string option \<times> string list" where
  "replace_samplers prev s =
     (if s = [] then (Some [], [])
      else if begins ''samplerExternalOES'' s then
        (if prev = None \<or> \<not> c_isspace (the prev)
         then map_prod (map_option (Cons (hd s))) id (replace_samplers (Some (hd s)) (tl s))
         else
           let after = drop 18 s; spaces = takeWhile c_isspace after; rest = dropWhile c_isspace after;
               name = hd rest # takeWhile name_char (tl rest)
           in if after \<noteq> [] \<and> \<not> c_isspace (hd after)
              then map_prod (map_option (append (take 18 s))) id (replace_samplers (Some (CHR ''S'')) after)
              else if rest = [] \<or> \<not> name_start_char (hd rest) then (None, [])
              else map_prod (map_option (append (''sampler2D         '' @ spaces @ name))) (Cons name)
                     (replace_samplers (Some (last name)) (dropWhile name_char (tl rest))))
      else map_prod (map_option (Cons (hd s))) id (replace_samplers (Some (hd s)) (tl s)))"
  by pat_completeness auto

termination
proof (relation "measure (\<lambda>(prev, s). length s)", goal_cases)
  case (3 prev s)
  then show ?case using begins_length [OF 3(2)] by simp
next
  case (4 prev s)
  then show ?case using sampler_rest [OF 4(2)] by simp
qed auto

declare replace_samplers.simps [simp del]

definition replaceSamplerExternalWith2D :: "string \<Rightarrow> string option \<times> string list" where
  "replaceSamplerExternalWith2D str = replace_samplers None (blank_extensions str)"

definition s_glShaderBinary :: "gl2_encoder \<Rightarrow> gl2_encoder" where
  "s_glShaderBinary x = setError ''GL_INVALID_ENUM'' x"

text \<open>The names of a shader that is known are appended; the map keeps the pointer.\<close>

definition add_external_names :: "u32 \<Rightarrow> string list \<Rightarrow> shared_group \<Rightarrow> shared_group" where
  "add_external_names shader names g =
     g\<lparr>sg_shaders := (sg_shaders g)(shader :=
         map_option (\<lambda>d. d\<lparr>sd_samplerExternalNames := sd_samplerExternalNames d @ names\<rparr>) (sg_shaders g shader))\<rparr>"

text \<open>
  \<open>junk\<close> is what \<open>new\<close> gives for a size. The text of the shader ends at the first zero; what follows is sent unchanged.
\<close>

definition s_glShaderSource ::
  "(nat \<Rightarrow> byte list) \<Rightarrow> u32 \<Rightarrow> int \<Rightarrow> source list \<Rightarrow> gl2_encoder \<Rightarrow> fault + gl2_encoder" where
  "s_glShaderSource junk shader count sources x =
     (if \<not> isObject shader (en_shared x) then Inr (setError ''GL_INVALID_VALUE'' x)
      else if sg_shaders (en_shared x) shader = None then Inr (setError ''GL_INVALID_OPERATION'' x)
      else if count < 0 then Inr (setError ''GL_INVALID_VALUE'' x)
      else
        let sources = take (nat count) sources; len = glUtilsCalcShaderSourceLen sources in
        case glUtilsPackStrings sources (junk (len + 1)) of
          None \<Rightarrow> Inl Undefined
        | Some str \<Rightarrow>
            let txt = takeWhile (\<lambda>b. b \<noteq> 0) str in
            (case replaceSamplerExternalWith2D (string_of txt) of
               (None, names) \<Rightarrow>
                 Inr (setError ''GL_OUT_OF_MEMORY'' (x\<lparr>en_shared := add_external_names shader names (en_shared x)\<rparr>))
             | (Some new, names) \<Rightarrow>
                 Inr (send (Call_ShaderString shader (bytes_of new @ drop (length txt) str))
                   (x\<lparr>en_shared := add_external_names shader names (en_shared x)\<rparr>))))"

definition link_uniform :: "gl_host \<Rightarrow> u32 \<Rightarrow> int \<Rightarrow> nat \<Rightarrow> gl2_encoder \<Rightarrow> gl2_encoder" where
  "link_uniform h program maxLength i x =
     (let x = send (Call_GetActiveUniform program i maxLength) x in
      case ans_uniform h (en_sent x) of
        (count, type, name) \<Rightarrow>
          (case ask_int h (Call_GetUniformLocation program name) x of
             (location, x) \<Rightarrow>
               x\<lparr>en_shared := setProgramIndexInfo program i location count type name (en_shared x)\<rparr>))"

text \<open>\<open>junk\<close> is an entry of a new array of uniforms; the host never has fewer than 0 of them.\<close>

definition s_glLinkProgram :: "gl_host \<Rightarrow> index_info \<Rightarrow> u32 \<Rightarrow> gl2_encoder \<Rightarrow> gl2_encoder" where
  "s_glLinkProgram h junk program x =
     (let x = send (Call_LinkProgram program) x;
          (linkStatus, x) = ask_int h (Call_GetProgramiv program ''GL_LINK_STATUS'') x
      in if linkStatus = 0 then x
         else
           let (numUniforms, x) = ask_int h (Call_GetProgramiv program ''GL_ACTIVE_UNIFORMS'') x;
               x = x\<lparr>en_shared := initProgramData junk program (nat numUniforms) (en_shared x)\<rparr>;
               (maxLength, x) = ask_int h (Call_GetProgramiv program ''GL_ACTIVE_UNIFORM_MAX_LENGTH'') x;
               x = fold (link_uniform h program maxLength) [0..<nat numUniforms] x
           in x\<lparr>en_shared := setupLocationShiftWAR program (en_shared x)\<rparr>)"

definition s_glDeleteProgram :: "u32 \<Rightarrow> gl2_encoder \<Rightarrow> gl2_encoder" where
  "s_glDeleteProgram program x =
     (let x = send (Call_DeleteProgram program) x in x\<lparr>en_shared := deleteProgramData program (en_shared x)\<rparr>)"

text \<open>\<open>glGetUniformiv\<close> and \<open>glGetUniformfv\<close>.\<close>

definition s_glGetUniformv :: "gl_host \<Rightarrow> glenum \<Rightarrow> u32 \<Rightarrow> int \<Rightarrow> gl2_encoder \<Rightarrow> int list \<times> gl2_encoder" where
  "s_glGetUniformv h func program location x =
     (let g = en_shared x in
      if \<not> isObject program g then ([], setError ''GL_INVALID_VALUE'' x)
      else if sg_programs g program = None then ([], setError ''GL_INVALID_OPERATION'' x)
      else if \<not> isProgramInitialized program g then ([], setError ''GL_INVALID_OPERATION'' x)
      else
        let hostLoc = locationWARAppToHost program location g in
        if getProgramUniformType program hostLoc g = None then ([], setError ''GL_INVALID_OPERATION'' x)
        else let x = send (Call_GetUniformv func program hostLoc) x in (ans_ints h (en_sent x), x))"

definition s_glCreateProgram :: "gl_host \<Rightarrow> gl2_encoder \<Rightarrow> u32 \<times> gl2_encoder" where
  "s_glCreateProgram h x =
     (case ask_name h Call_CreateProgram x of
        (program, x) \<Rightarrow>
          (program, if program \<noteq> 0 then x\<lparr>en_shared := addProgramData program (en_shared x)\<rparr> else x))"

text \<open>\<open>room\<close>: whether there is memory for the record of the shader.\<close>

definition s_glCreateShader :: "gl_host \<Rightarrow> bool \<Rightarrow> glenum \<Rightarrow> gl2_encoder \<Rightarrow> u32 \<times> gl2_encoder" where
  "s_glCreateShader h room shaderType x =
     (if shaderType \<noteq> ''GL_VERTEX_SHADER'' \<and> shaderType \<noteq> ''GL_FRAGMENT_SHADER''
      then (0, setError ''GL_INVALID_ENUM'' x)
      else case ask_name h (Call_CreateShader shaderType) x of
          (shader, x) \<Rightarrow>
            if shader = 0 then (shader, x)
            else if room then (shader, x\<lparr>en_shared := addShaderData shader (en_shared x)\<rparr>)
            else (0, send (Call_DeleteShader shader) x))"

text \<open>\<open>glGetAttachedShaders\<close>, \<open>glGetShaderSource\<close>, \<open>glGetShaderInfoLog\<close> and \<open>glGetProgramInfoLog\<close>.\<close>

definition s_glGetText :: "glenum \<Rightarrow> u32 \<Rightarrow> int \<Rightarrow> gl2_encoder \<Rightarrow> gl2_encoder" where
  "s_glGetText func obj bufsize x =
     (if bufsize < 0 then setError ''GL_INVALID_VALUE'' x else send (Call_GetText func obj bufsize) x)"

definition s_glDeleteShader :: "u32 \<Rightarrow> gl2_encoder \<Rightarrow> gl2_encoder" where
  "s_glDeleteShader shader x =
     (let x = send (Call_DeleteShader shader) x in x\<lparr>en_shared := unrefShaderData shader (en_shared x)\<rparr>)"

definition s_glAttachShader :: "u32 \<Rightarrow> u32 \<Rightarrow> gl2_encoder \<Rightarrow> gl2_encoder" where
  "s_glAttachShader program shader x =
     (let x = send (Call_AttachShader program shader) x in
      x\<lparr>en_shared := attachShader program shader (en_shared x)\<rparr>)"

definition s_glDetachShader :: "u32 \<Rightarrow> u32 \<Rightarrow> gl2_encoder \<Rightarrow> gl2_encoder" where
  "s_glDetachShader program shader x =
     (let x = send (Call_DetachShader program shader) x in
      x\<lparr>en_shared := detachShader program shader (en_shared x)\<rparr>)"

text \<open>What is behind the last bracket.\<close>

definition behind_bracket :: "string \<Rightarrow> string option" where
  "behind_bracket name =
     (if CHR ''['' \<in> set name then Some (rev (takeWhile (\<lambda>c. c \<noteq> CHR ''['') (rev name))) else None)"

definition array_index :: "string \<Rightarrow> int option" where
  "array_index name =
     (if last name = CHR '']'' then Option.bind (behind_bracket name) scan_int else Some 0)"

text \<open>An empty name is read one character before its start.\<close>

definition s_glGetUniformLocation ::
  "gl_host \<Rightarrow> u32 \<Rightarrow> string option \<Rightarrow> gl2_encoder \<Rightarrow> fault + int \<times> gl2_encoder" where
  "s_glGetUniformLocation h program name x =
     (case name of
        None \<Rightarrow> Inr (-1, x)
      | Some name \<Rightarrow>
          let needLocationWAR = needUniformLocationWAR program (en_shared x) in
          if needLocationWAR \<and> name = [] then Inl Undefined
          else case (if needLocationWAR then array_index name else Some 0) of
              None \<Rightarrow> Inr (-1, x)
            | Some arrIndex \<Rightarrow>
                (case ask_int h (Call_GetUniformLocation program name) x of
                   (hostLoc, x) \<Rightarrow>
                     if hostLoc \<ge> 0 \<and> needLocationWAR
                     then (case locationWARHostToApp program hostLoc arrIndex (en_shared x) of
                             (loc, g) \<Rightarrow> Inr (loc, x\<lparr>en_shared := g\<rparr>))
                     else Inr (hostLoc, x)))"


section \<open>Textures\<close>

text \<open>Units of textures are constants less \<open>GL_TEXTURE0\<close>.\<close>

definition active_texture_unit :: "gl2_encoder \<Rightarrow> u32" where
  "active_texture_unit x = word_of_nat (gc_activeUnit (en_state x))"

definition priority_target :: "gl2_encoder \<Rightarrow> glenum" where
  "priority_target x = getPriorityEnabledTarget ''GL_TEXTURE_2D'' (en_state x)"

definition on_state :: "(gl_client \<Rightarrow> gl_client) \<Rightarrow> gl2_encoder \<Rightarrow> gl2_encoder" where
  "on_state f x = x\<lparr>en_state := f (en_state x)\<rparr>"

definition is_2d_or_external :: "glenum \<Rightarrow> bool" where
  "is_2d_or_external target \<longleftrightarrow> target \<in> {''GL_TEXTURE_2D'', ''GL_TEXTURE_EXTERNAL_OES''}"

definition updateHostTexture2DBinding :: "u32 \<Rightarrow> glenum \<Rightarrow> gl2_encoder \<Rightarrow> bool \<times> gl2_encoder" where
  "updateHostTexture2DBinding texUnit newTarget x =
     (if \<not> is_2d_or_external newTarget then (False, x)
      else
        let x = on_state (\<lambda>c. snd (setActiveTextureUnit texUnit c)) x in
        if newTarget \<noteq> priority_target x then
          let x = (if newTarget = ''GL_TEXTURE_EXTERNAL_OES''
                   then on_state (\<lambda>c. enableTextureTarget ''GL_TEXTURE_EXTERNAL_OES''
                                        (disableTextureTarget ''GL_TEXTURE_2D'' c)) x
                   else on_state (\<lambda>c. enableTextureTarget ''GL_TEXTURE_2D''
                                        (disableTextureTarget ''GL_TEXTURE_EXTERNAL_OES'' c)) x)
          in (True, send (Call_BindTexture ''GL_TEXTURE_2D'' (getBoundTexture newTarget (en_state x)))
                      (send (Call_ActiveTexture texUnit) x))
        else (False, x))"

lemma next_sampler_later:
  assumes "getNextSamplerUniform program samplerIdx g = Some (i, r)"
  shows "samplerIdx < int i" "sg_programs g program \<noteq> None"
    "i < length (pd_indexes (the (sg_programs g program)))"
  using assms
  by (auto simp: getNextSamplerUniform_def pd_getNextSamplerUniform_def find_Some_iff nth_append
      split: option.splits if_splits)

text \<open>
  The loop over the samplers of a program; \<open>g\<close> is the share group, which the loop leaves alone, and \<open>hostActive\<close> the unit
  that the host was made to use.
\<close>

function use_samplers :: "shared_group \<Rightarrow> u32 \<Rightarrow> int \<Rightarrow> u32 \<Rightarrow> gl2_encoder \<Rightarrow> u32 \<times> gl2_encoder" where
  "use_samplers g program samplerIdx hostActive x =
     (case getNextSamplerUniform program samplerIdx g of
        None \<Rightarrow> (hostActive, x)
      | Some (i, val, target) \<Rightarrow>
          if val < 0 \<or> val \<ge> int MAX_TEXTURE_UNITS then use_samplers g program (int i) hostActive x
          else case updateHostTexture2DBinding (word_of_int val) target x of
              (True, x) \<Rightarrow> use_samplers g program (int i) (word_of_int val) x
            | (False, x) \<Rightarrow> use_samplers g program (int i) hostActive x)"
  by pat_completeness auto

termination
proof (relation "measure (\<lambda>(g, program, samplerIdx, hostActive, x).
    case sg_programs g program of None \<Rightarrow> 0 | Some p \<Rightarrow> nat (int (length (pd_indexes p)) - samplerIdx))", goal_cases)
  case (2 g program samplerIdx hostActive x a i b val target)
  then show ?case using next_sampler_later [of program samplerIdx g i] by (auto split: option.splits)
next
  case (3 g program samplerIdx hostActive x a i b val target)
  then show ?case using next_sampler_later [of program samplerIdx g i] by (auto split: option.splits)
next
  case (4 g program samplerIdx hostActive x a i b val target)
  then show ?case using next_sampler_later [of program samplerIdx g i] by (auto split: option.splits)
qed auto

declare use_samplers.simps [simp del]

definition s_glUseProgram :: "u32 \<Rightarrow> gl2_encoder \<Rightarrow> gl2_encoder" where
  "s_glUseProgram program x =
     (let x = on_state (setCurrentProgram (sint program)) (send (Call_UseProgram program) x);
          origActive = active_texture_unit x
      in case use_samplers (en_shared x) program (-1) origActive x of
          (hostActive, x) \<Rightarrow>
            let x = on_state (\<lambda>c. snd (setActiveTextureUnit origActive c)) x in
            if hostActive \<noteq> origActive then send (Call_ActiveTexture origActive) x else x)"

definition s_glActiveTexture :: "u32 \<Rightarrow> gl2_encoder \<Rightarrow> gl2_encoder" where
  "s_glActiveTexture texture x =
     (case setActiveTextureUnit texture (en_state x) of
        (err, st) \<Rightarrow>
          let x = x\<lparr>en_state := st\<rparr> in
          if err \<noteq> ''GL_NO_ERROR'' then setError err x else send (Call_ActiveTexture texture) x)"

text \<open>\<open>realloc_ok\<close> is the answer of \<open>realloc\<close> when the table of textures has to grow.\<close>

definition s_glBindTexture :: "bool \<Rightarrow> glenum \<Rightarrow> u32 \<Rightarrow> gl2_encoder \<Rightarrow> gl2_encoder" where
  "s_glBindTexture realloc_ok target texture x =
     (case bindTexture realloc_ok target texture (en_state x) of
        ((err, firstUse), st) \<Rightarrow>
          let x = x\<lparr>en_state := st\<rparr> in
          if err \<noteq> ''GL_NO_ERROR'' then setError err x
          else if \<not> is_2d_or_external target then send (Call_BindTexture target texture) x
          else
            let priorityTarget = priority_target x;
                x = (if target = ''GL_TEXTURE_EXTERNAL_OES'' \<and> firstUse = Some True then
                       let x = send (Call_BindTexture ''GL_TEXTURE_2D'' texture) x;
                           x = send (Call_TexParameter ''glTexParameteri'' ''GL_TEXTURE_2D'' ''GL_TEXTURE_MIN_FILTER''
                                 [''GL_LINEAR'']) x;
                           x = send (Call_TexParameter ''glTexParameteri'' ''GL_TEXTURE_2D'' ''GL_TEXTURE_WRAP_S''
                                 [''GL_CLAMP_TO_EDGE'']) x;
                           x = send (Call_TexParameter ''glTexParameteri'' ''GL_TEXTURE_2D'' ''GL_TEXTURE_WRAP_T''
                                 [''GL_CLAMP_TO_EDGE'']) x
                       in if target \<noteq> priorityTarget
                          then send (Call_BindTexture ''GL_TEXTURE_2D''
                                 (getBoundTexture ''GL_TEXTURE_2D'' (en_state x))) x
                          else x
                     else x)
            in if target = priorityTarget then send (Call_BindTexture ''GL_TEXTURE_2D'' texture) x else x)"

definition s_glDeleteTextures :: "u32 list \<Rightarrow> gl2_encoder \<Rightarrow> gl2_encoder" where
  "s_glDeleteTextures textures x =
     (let x = on_state (deleteTextures textures) x in send (Call_DeleteTextures textures) x)"

definition override2DTextureTarget :: "glenum \<Rightarrow> gl2_encoder \<Rightarrow> gl2_encoder" where
  "override2DTextureTarget target x =
     (if is_2d_or_external target \<and> target \<noteq> priority_target x
      then send (Call_BindTexture ''GL_TEXTURE_2D'' (getBoundTexture target (en_state x))) x else x)"

definition restore2DTextureTarget :: "gl2_encoder \<Rightarrow> gl2_encoder" where
  "restore2DTextureTarget x =
     send (Call_BindTexture ''GL_TEXTURE_2D'' (getBoundTexture (priority_target x) (en_state x))) x"

text \<open>A call \<open>c\<close> on the texture of a target: \<open>c2d\<close> is the call for the two targets that share the host's one.\<close>

definition with_2d_target :: "glenum \<Rightarrow> host_call \<Rightarrow> host_call \<Rightarrow> gl2_encoder \<Rightarrow> gl2_encoder" where
  "with_2d_target target c2d c x =
     (if is_2d_or_external target
      then restore2DTextureTarget (send c2d (override2DTextureTarget target x)) else send c x)"

definition s_glGetTexParameterfv :: "glenum \<Rightarrow> glenum \<Rightarrow> gl2_encoder \<Rightarrow> gl2_encoder" where
  "s_glGetTexParameterfv target pname =
     with_2d_target target (Call_GetTexParameterv ''glGetTexParameterfv'' ''GL_TEXTURE_2D'' pname)
       (Call_GetTexParameterv ''glGetTexParameterfv'' target pname)"

text \<open>The value if it is known here; else the host writes it.\<close>

definition s_glGetTexParameteriv :: "glenum \<Rightarrow> glenum \<Rightarrow> gl2_encoder \<Rightarrow> int option \<times> gl2_encoder" where
  "s_glGetTexParameteriv target pname x =
     (if pname = ''GL_REQUIRED_TEXTURE_IMAGE_UNITS_OES'' then (Some 1, x)
      else (None, with_2d_target target (Call_GetTexParameterv ''glGetTexParameteriv'' ''GL_TEXTURE_2D'' pname)
                    (Call_GetTexParameterv ''glGetTexParameteriv'' target pname) x))"

definition isValidTextureExternalParam :: "glenum \<Rightarrow> glenum \<Rightarrow> bool" where
  "isValidTextureExternalParam pname param \<longleftrightarrow>
     (if pname \<in> {''GL_TEXTURE_MIN_FILTER'', ''GL_TEXTURE_MAG_FILTER''} then param \<in> {''GL_NEAREST'', ''GL_LINEAR''}
      else if pname \<in> {''GL_TEXTURE_WRAP_S'', ''GL_TEXTURE_WRAP_T''} then param = ''GL_CLAMP_TO_EDGE''
      else True)"

text \<open>\<open>glTexParameterf\<close>, \<open>fv\<close>, \<open>i\<close> and \<open>iv\<close>: \<open>func\<close>; the values are the constants they stand for, at least one.\<close>

definition tex_parameter :: "glenum \<Rightarrow> glenum \<Rightarrow> glenum \<Rightarrow> glenum list \<Rightarrow> gl2_encoder \<Rightarrow> gl2_encoder" where
  "tex_parameter func target pname params x =
     (if target = ''GL_TEXTURE_EXTERNAL_OES'' \<and> \<not> isValidTextureExternalParam pname (hd params)
      then setError ''GL_INVALID_ENUM'' x
      else with_2d_target target (Call_TexParameter func ''GL_TEXTURE_2D'' pname params)
             (Call_TexParameter func target pname params) x)"

definition s_glTexParameterf :: "glenum \<Rightarrow> glenum \<Rightarrow> glenum \<Rightarrow> gl2_encoder \<Rightarrow> gl2_encoder" where
  "s_glTexParameterf target pname param = tex_parameter ''glTexParameterf'' target pname [param]"

definition s_glTexParameterfv :: "glenum \<Rightarrow> glenum \<Rightarrow> glenum list \<Rightarrow> gl2_encoder \<Rightarrow> gl2_encoder" where
  "s_glTexParameterfv = tex_parameter ''glTexParameterfv''"

definition s_glTexParameteri :: "glenum \<Rightarrow> glenum \<Rightarrow> glenum \<Rightarrow> gl2_encoder \<Rightarrow> gl2_encoder" where
  "s_glTexParameteri target pname param = tex_parameter ''glTexParameteri'' target pname [param]"

definition s_glTexParameteriv :: "glenum \<Rightarrow> glenum \<Rightarrow> glenum list \<Rightarrow> gl2_encoder \<Rightarrow> gl2_encoder" where
  "s_glTexParameteriv = tex_parameter ''glTexParameteriv''"

text \<open>The calls keep the target; \<open>rest\<close> are the other arguments.\<close>

definition s_glTexImage2D :: "glenum \<Rightarrow> int \<Rightarrow> int list \<Rightarrow> gl2_encoder \<Rightarrow> gl2_encoder" where
  "s_glTexImage2D target level rest =
     with_2d_target target (Call_TexImage2D target level rest) (Call_TexImage2D target level rest)"

text \<open>A level is compared with the logarithm of the size, which is \<open>-inf\<close> for 0 and no number below.\<close>

definition level_too_high :: "int \<Rightarrow> int \<Rightarrow> bool" where
  "level_too_high level maxTextureSize \<longleftrightarrow>
     maxTextureSize = 0 \<or> maxTextureSize > 0 \<and> 2 ^ nat level > maxTextureSize"

definition s_glTexSubImage2D ::
  "gl_host \<Rightarrow> glenum \<Rightarrow> int \<Rightarrow> int list \<Rightarrow> gl2_encoder \<Rightarrow> fault + gl2_encoder" where
  "s_glTexSubImage2D h target level rest x =
     (case s_glGetIntegerv h 0 ''GL_MAX_TEXTURE_SIZE'' x of
        Inr ([Num maxTextureSize], x) \<Rightarrow>
          if level < 0 \<or> level_too_high level maxTextureSize then Inr (setError ''GL_INVALID_VALUE'' x)
          else Inr (with_2d_target target (Call_TexSubImage2D target level rest)
                      (Call_TexSubImage2D target level rest) x)
      | Inr _ \<Rightarrow> Inl Undefined
      | Inl e \<Rightarrow> Inl e)"

section \<open>Uniforms\<close>

definition current_program :: "gl2_encoder \<Rightarrow> u32" where
  "current_program x = word_of_int (gc_program (en_state x))"

definition checkValidUniformParam :: "int \<Rightarrow> bool \<Rightarrow> gl2_encoder \<Rightarrow> gl2_encoder" where
  "checkValidUniformParam count transposed x =
     (if sg_programs (en_shared x) (current_program x) = None then setError ''GL_INVALID_OPERATION'' x
      else if count < 0 \<or> transposed then setError ''GL_INVALID_VALUE'' x
      else x)"

text \<open>\<open>junk\<close> is what the variable \<open>hostLoc\<close> of the caller holds, which is not set on an error.\<close>

definition getHostLocation :: "int \<Rightarrow> int \<Rightarrow> gl2_encoder \<Rightarrow> int \<times> gl2_encoder" where
  "getHostLocation junk location x =
     (if location = -1 then (location, x)
      else if location < 0 then (junk, setError ''GL_INVALID_OPERATION'' x)
      else
        let curHostLoc = locationWARAppToHost (current_program x) location (en_shared x) in
        if getProgramUniformType (current_program x) curHostLoc (en_shared x) = None \<and> curHostLoc \<noteq> -1
        then (junk, setError ''GL_INVALID_OPERATION'' x)
        else (curHostLoc, x))"

text \<open>The 19 functions, by name: those of values, of arrays and of matrices. The values are words.\<close>

definition s_glUniform :: "string \<Rightarrow> int \<Rightarrow> int \<Rightarrow> u32 list \<Rightarrow> gl2_encoder \<Rightarrow> gl2_encoder" where
  "s_glUniform func junk location vals x =
     (case getHostLocation junk location (checkValidUniformParam 0 False x) of
        (hostLoc, x) \<Rightarrow> send (Call_Uniform func hostLoc vals) x)"

definition s_glUniformv :: "string \<Rightarrow> int \<Rightarrow> int \<Rightarrow> int \<Rightarrow> u32 list \<Rightarrow> gl2_encoder \<Rightarrow> gl2_encoder" where
  "s_glUniformv func junk location count vals x =
     (case getHostLocation junk location (checkValidUniformParam count False x) of
        (hostLoc, x) \<Rightarrow> send (Call_Uniformv func hostLoc count vals) x)"

definition s_glUniformMatrix ::
  "string \<Rightarrow> int \<Rightarrow> int \<Rightarrow> int \<Rightarrow> bool \<Rightarrow> u32 list \<Rightarrow> gl2_encoder \<Rightarrow> gl2_encoder" where
  "s_glUniformMatrix func junk location count transposed vals x =
     (case getHostLocation junk location (checkValidUniformParam count transposed x) of
        (hostLoc, x) \<Rightarrow> send (Call_UniformMatrix func hostLoc count transposed vals) x)"

definition s_glUniform1i :: "int \<Rightarrow> int \<Rightarrow> int \<Rightarrow> gl2_encoder \<Rightarrow> gl2_encoder" where
  "s_glUniform1i junk location v x =
     (let x = s_glUniform ''glUniform1i'' junk location [word_of_int v] x in
      case setSamplerUniform (current_program x) location v (en_shared x) of
        (target, g) \<Rightarrow>
          let x = x\<lparr>en_shared := g\<rparr> in
          (case target of
             None \<Rightarrow> x
           | Some target \<Rightarrow>
               let origActive = active_texture_unit x;
                   (updated, x) = updateHostTexture2DBinding (word_of_int v) target x;
                   x = (if updated then send (Call_ActiveTexture origActive) x else x)
               in on_state (\<lambda>c. snd (setActiveTextureUnit origActive c)) x))"

section \<open>Sizes for the generated functions\<close>

definition pixelDataSize3D :: "int \<Rightarrow> int \<Rightarrow> int \<Rightarrow> glenum \<Rightarrow> glenum \<Rightarrow> bool \<Rightarrow> gl2_encoder \<Rightarrow> int" where
  "pixelDataSize3D width height depth format type pack x =
     (pixelDataSize width height format type pack (en_state x) * depth) mod 2 ^ 64"

definition uniformType :: "u32 \<Rightarrow> int \<Rightarrow> gl2_encoder \<Rightarrow> glenum option" where
  "uniformType program location x = getProgramUniformType program location (en_shared x)"


lemma send_fields [simp]:
  "en_state (send c x) = en_state x" "en_shared (send c x) = en_shared x" "en_error (send c x) = en_error x"
  "en_sent (send c x) = en_sent x @ [c]"
  "en_state (setError e x) = en_state x" "en_shared (setError e x) = en_shared x" "en_sent (setError e x) = en_sent x"
  "en_error (setError e x) = e"
  "en_state (on_state f x) = f (en_state x)" "en_shared (on_state f x) = en_shared x" "en_sent (on_state f x) = en_sent x"
  by (simp_all add: send_def setError_def on_state_def)

section \<open>All operations\<close>

text \<open>
  What the surroundings give to a call: the host, the memory of the application, what \<open>new\<close> and variables hold that are
  not set, whether there is memory, and the numbers of the constants.
\<close>

record gl2_env =
  ev_host :: gl_host
  ev_mem :: memory
  ev_new :: "nat \<Rightarrow> byte list"
  ev_index :: index_info
  ev_loc :: int
  ev_room :: bool
  ev_number :: "glenum \<Rightarrow> int"

datatype gl2_op =
    Op_GetError
  | Op_Flush
  | Op_Finish
  | Op_PixelStorei glenum int
  | Op_BindBuffer glenum u32
  | Op_BufferData glenum int nat glenum
  | Op_BufferSubData glenum int int nat
  | Op_DeleteBuffers int "u32 list"
  | Op_VertexAttribPointer u32 int glenum bool int nat
  | Op_GetIntegerv glenum
  | Op_GetFloatv glenum
  | Op_GetBooleanv glenum
  | Op_EnableVertexAttribArray u32
  | Op_DisableVertexAttribArray u32
  | Op_GetVertexAttribv glenum u32 glenum
  | Op_GetVertexAttribPointerv u32 glenum
  | Op_DrawArrays glenum int int
  | Op_DrawElements glenum int glenum nat
  | Op_ShaderBinary
  | Op_ShaderSource u32 int "source list"
  | Op_LinkProgram u32
  | Op_DeleteProgram u32
  | Op_GetUniformv glenum u32 int
  | Op_CreateProgram
  | Op_CreateShader glenum
  | Op_GetText glenum u32 int
  | Op_DeleteShader u32
  | Op_AttachShader u32 u32
  | Op_DetachShader u32 u32
  | Op_GetUniformLocation u32 "string option"
  | Op_UseProgram u32
  | Op_Uniform string int "u32 list"
  | Op_Uniformv string int int "u32 list"
  | Op_UniformMatrix string int int bool "u32 list"
  | Op_Uniform1i int int
  | Op_ActiveTexture u32
  | Op_BindTexture glenum u32
  | Op_DeleteTextures "u32 list"
  | Op_GetTexParameterfv glenum glenum
  | Op_GetTexParameteriv glenum glenum
  | Op_TexParameterf glenum glenum glenum
  | Op_TexParameterfv glenum glenum "glenum list"
  | Op_TexParameteri glenum glenum glenum
  | Op_TexParameteriv glenum glenum "glenum list"
  | Op_TexImage2D glenum int "int list"
  | Op_TexSubImage2D glenum int "int list"

text \<open>The state after an operation.\<close>

primrec gl2_step :: "gl2_env \<Rightarrow> gl2_op \<Rightarrow> gl2_encoder \<Rightarrow> fault + gl2_encoder" where
  "gl2_step v Op_GetError x = Inr (snd (s_glGetError (ev_host v) x))"
| "gl2_step v Op_Flush x = Inr (s_glFlush x)"
| "gl2_step v Op_Finish x = Inr (s_glFinish x)"
| "gl2_step v (Op_PixelStorei param val) x = Inr (s_glPixelStorei param val x)"
| "gl2_step v (Op_BindBuffer target i) x = Inr (s_glBindBuffer target i x)"
| "gl2_step v (Op_BufferData target count data usage) x =
     s_glBufferData (ev_mem v) (ev_new v) target count data usage x"
| "gl2_step v (Op_BufferSubData target offset count data) x = s_glBufferSubData (ev_mem v) target offset count data x"
| "gl2_step v (Op_DeleteBuffers n buffers) x = Inr (s_glDeleteBuffers n buffers x)"
| "gl2_step v (Op_VertexAttribPointer i count type normalized stride p) x =
     Inr (s_glVertexAttribPointer i count type normalized stride p x)"
| "gl2_step v (Op_GetIntegerv param) x = map_sum id snd (s_glGetIntegerv (ev_host v) (ev_number v ''GL_TEXTURE0'') param x)"
| "gl2_step v (Op_GetFloatv param) x = map_sum id snd (s_glGetFloatv (ev_host v) (ev_number v ''GL_TEXTURE0'') param x)"
| "gl2_step v (Op_GetBooleanv param) x = map_sum id snd (s_glGetBooleanv (ev_host v) (ev_number v) param x)"
| "gl2_step v (Op_EnableVertexAttribArray i) x = map_sum id snd (s_glEnableVertexAttribArray (ev_host v) i x)"
| "gl2_step v (Op_DisableVertexAttribArray i) x = map_sum id snd (s_glDisableVertexAttribArray (ev_host v) i x)"
| "gl2_step v (Op_GetVertexAttribv func i pname) x = map_sum id snd (s_glGetVertexAttribv (ev_host v) func i pname x)"
| "gl2_step v (Op_GetVertexAttribPointerv i pname) x =
     map_sum id snd (s_glGetVertexAttribPointerv (ev_host v) i pname x)"
| "gl2_step v (Op_DrawArrays mode first count) x = s_glDrawArrays (ev_mem v) mode first count x"
| "gl2_step v (Op_DrawElements mode count type indices) x = s_glDrawElements (ev_mem v) mode count type indices x"
| "gl2_step v Op_ShaderBinary x = Inr (s_glShaderBinary x)"
| "gl2_step v (Op_ShaderSource shader count sources) x = s_glShaderSource (ev_new v) shader count sources x"
| "gl2_step v (Op_LinkProgram program) x = Inr (s_glLinkProgram (ev_host v) (ev_index v) program x)"
| "gl2_step v (Op_DeleteProgram program) x = Inr (s_glDeleteProgram program x)"
| "gl2_step v (Op_GetUniformv func program location) x = Inr (snd (s_glGetUniformv (ev_host v) func program location x))"
| "gl2_step v Op_CreateProgram x = Inr (snd (s_glCreateProgram (ev_host v) x))"
| "gl2_step v (Op_CreateShader type) x = Inr (snd (s_glCreateShader (ev_host v) (ev_room v) type x))"
| "gl2_step v (Op_GetText func obj bufsize) x = Inr (s_glGetText func obj bufsize x)"
| "gl2_step v (Op_DeleteShader shader) x = Inr (s_glDeleteShader shader x)"
| "gl2_step v (Op_AttachShader program shader) x = Inr (s_glAttachShader program shader x)"
| "gl2_step v (Op_DetachShader program shader) x = Inr (s_glDetachShader program shader x)"
| "gl2_step v (Op_GetUniformLocation program name) x =
     map_sum id snd (s_glGetUniformLocation (ev_host v) program name x)"
| "gl2_step v (Op_UseProgram program) x = Inr (s_glUseProgram program x)"
| "gl2_step v (Op_Uniform func location vals) x = Inr (s_glUniform func (ev_loc v) location vals x)"
| "gl2_step v (Op_Uniformv func location count vals) x = Inr (s_glUniformv func (ev_loc v) location count vals x)"
| "gl2_step v (Op_UniformMatrix func location count transposed vals) x =
     Inr (s_glUniformMatrix func (ev_loc v) location count transposed vals x)"
| "gl2_step v (Op_Uniform1i location val) x = Inr (s_glUniform1i (ev_loc v) location val x)"
| "gl2_step v (Op_ActiveTexture u) x = Inr (s_glActiveTexture u x)"
| "gl2_step v (Op_BindTexture target texture) x = Inr (s_glBindTexture (ev_room v) target texture x)"
| "gl2_step v (Op_DeleteTextures textures) x = Inr (s_glDeleteTextures textures x)"
| "gl2_step v (Op_GetTexParameterfv target pname) x = Inr (s_glGetTexParameterfv target pname x)"
| "gl2_step v (Op_GetTexParameteriv target pname) x = Inr (snd (s_glGetTexParameteriv target pname x))"
| "gl2_step v (Op_TexParameterf target pname param) x = Inr (s_glTexParameterf target pname param x)"
| "gl2_step v (Op_TexParameterfv target pname params) x = Inr (s_glTexParameterfv target pname params x)"
| "gl2_step v (Op_TexParameteri target pname param) x = Inr (s_glTexParameteri target pname param x)"
| "gl2_step v (Op_TexParameteriv target pname params) x = Inr (s_glTexParameteriv target pname params x)"
| "gl2_step v (Op_TexImage2D target level rest) x = Inr (s_glTexImage2D target level rest x)"
| "gl2_step v (Op_TexSubImage2D target level rest) x = s_glTexSubImage2D (ev_host v) target level rest x"

text \<open>
  The states of an encoder of a context whose textures have names below 2 to the 31; a sampler is set to a unit there is.
\<close>

definition plain_op :: "gl2_op \<Rightarrow> bool" where
  "plain_op oper =
     (case oper of
        Op_BindTexture target texture \<Rightarrow> small_name texture
      | Op_DeleteTextures textures \<Rightarrow> list_all small_name textures
      | Op_Uniform1i location val \<Rightarrow> 0 \<le> val \<and> val < int MAX_TEXTURE_UNITS
      | _ \<Rightarrow> True)"

inductive gl2_reachable :: "gl2_encoder \<Rightarrow> bool" where
  start: "gl2_reachable (gl2_encoder_new (gl_client_new junk m n) g)"
| step: "gl2_reachable x \<Longrightarrow> plain_op oper \<Longrightarrow> gl2_step v oper x = Inr x' \<Longrightarrow> gl2_reachable x'"


end
