(* ===== verification/GL2Textures.thy ===== *)
theory GL2Textures
  imports GL2Encoder
begin

text \<open>
  The textures of the OpenGL ES 2 client and those of the host: the client knows two targets per unit, the host binds the
  one that has priority to its only 2D target.
\<close>

section \<open>The 2D textures of the host\<close>

text \<open>
  What the host has bound, from the calls so far, as OpenGL documents it: \<open>glActiveTexture\<close> chooses the unit,
  \<open>glBindTexture\<close> binds there, and a texture that is deleted is bound nowhere any more. Of the targets only
  \<open>GL_TEXTURE_2D\<close> is looked at, and the host has the 32 units of the client.
\<close>

record host_textures =
  ht_active :: nat
  ht_2d :: "u32 list"

fun host_texture_call :: "host_call \<Rightarrow> host_textures \<Rightarrow> host_textures" where
  "host_texture_call (Call_ActiveTexture u) t = (if unat u < MAX_TEXTURE_UNITS then t\<lparr>ht_active := unat u\<rparr> else t)"
| "host_texture_call (Call_BindTexture target name) t =
     (if target = ''GL_TEXTURE_2D'' then t\<lparr>ht_2d := (ht_2d t)[ht_active t := name]\<rparr> else t)"
| "host_texture_call (Call_DeleteTextures names) t =
     t\<lparr>ht_2d := map (\<lambda>n. if n \<in> set names then 0 else n) (ht_2d t)\<rparr>"
| "host_texture_call _ t = t"

definition host_textures_of :: "gl2_encoder \<Rightarrow> host_textures" where
  "host_textures_of x =
     fold host_texture_call (en_sent x) \<lparr>ht_active = 0, ht_2d = replicate MAX_TEXTURE_UNITS 0\<rparr>"

lemma host_textures_send [simp]: "host_textures_of (send c x) = host_texture_call c (host_textures_of x)"
  by (simp add: host_textures_of_def send_def)

lemma host_textures_frame [simp]:
  "host_textures_of (x\<lparr>en_state := c\<rparr>) = host_textures_of x"
  "host_textures_of (x\<lparr>en_shared := g\<rparr>) = host_textures_of x"
  "host_textures_of (x\<lparr>en_error := e\<rparr>) = host_textures_of x"
  "host_textures_of (x\<lparr>en_formats := fs\<rparr>) = host_textures_of x"
  "host_textures_of (x\<lparr>en_numFormats := i\<rparr>) = host_textures_of x"
  "host_textures_of (x\<lparr>en_maxCubeMap := i\<rparr>) = host_textures_of x"
  "host_textures_of (x\<lparr>en_maxRenderBuffer := i\<rparr>) = host_textures_of x"
  "host_textures_of (x\<lparr>en_maxTexture := i\<rparr>) = host_textures_of x"
  "host_textures_of (setError e x) = host_textures_of x"
  "host_textures_of (on_state f x) = host_textures_of x"
  by (simp_all add: host_textures_of_def setError_def on_state_def)

text \<open>The target that a unit gives priority to, and the texture that the host should have bound for it.\<close>

definition unit_priority :: "texture_unit \<Rightarrow> glenum" where
  "unit_priority u = (if tu_enables u AND 2 \<noteq> 0 then ''GL_TEXTURE_EXTERNAL_OES'' else ''GL_TEXTURE_2D'')"

definition wanted :: "texture_unit \<Rightarrow> u32" where
  "wanted u = unit_bound u (unit_priority u)"

text \<open>The host's bindings are those the client wants, and its active unit is \<open>a\<close>.\<close>

definition synced :: "u32 \<Rightarrow> gl2_encoder \<Rightarrow> bool" where
  "synced a x \<longleftrightarrow>
     tex_ok (en_state x) \<and> unat a < MAX_TEXTURE_UNITS \<and>
     host_textures_of x = \<lparr>ht_active = unat a, ht_2d = map wanted (gc_units (en_state x))\<rparr>"


lemma tex_ok_active: "tex_ok c \<Longrightarrow> gc_activeUnit c < 32 \<and> length (gc_units c) = 32"
  by (simp add: tex_ok_def tex_inv_def)

lemma unat_active: "tex_ok (en_state x) \<Longrightarrow> unat (active_texture_unit x) = gc_activeUnit (en_state x)"
  using tex_ok_active [of "en_state x"]
  by (simp add: active_texture_unit_def unat_of_nat take_bit_nat_eq_self)


lemma priority_active: "priority_target x = unit_priority (active_unit (en_state x))"
  by (simp add: priority_target_def getPriorityEnabledTarget_def unit_priority_def Let_def)

lemma bound_active: "getBoundTexture target c = unit_bound (active_unit c) target"
  by (simp add: getBoundTexture_def unit_bound_def)

lemma wanted_active: "getBoundTexture (priority_target x) (en_state x) = wanted (active_unit (en_state x))"
  by (simp add: priority_active bound_active wanted_def)

text \<open>Operations that leave the textures alone.\<close>

definition texture_part :: "gl_client \<Rightarrow> texture_unit list \<times> nat \<times> (u32 \<times> glenum) list" where
  "texture_part c = (gc_units c, gc_activeUnit c, gc_textures c)"



lemma synced_restore:
  "synced a x \<Longrightarrow> active_texture_unit x = a \<Longrightarrow>
     (map wanted (gc_units (en_state x)))[unat a := getBoundTexture (priority_target x) (en_state x)] =
      map wanted (gc_units (en_state x))"
  by (auto simp: synced_def unat_active wanted_active map_update [symmetric])

section \<open>Binding and deleting\<close>


lemma put_texture_active [simp]: "gc_activeUnit (put_texture target t c) = gc_activeUnit c"
  by (simp add: put_texture_def update_unit_def)









section \<open>The other operations on textures\<close>














section \<open>The operations that leave textures alone\<close>

definition same_textures :: "gl2_encoder \<Rightarrow> gl2_encoder \<Rightarrow> bool" where
  "same_textures x x' \<longleftrightarrow>
     texture_part (en_state x') = texture_part (en_state x) \<and> host_textures_of x' = host_textures_of x"

lemma same_textures_refl [simp]: "same_textures x x"
  by (simp add: same_textures_def)





























section \<open>Host and client agree\<close>








end
