(* ===== verification/GL2Draws.thy ===== *)
theory GL2Draws
  imports GL2Encoder
begin

text \<open>
  Drawing from arrays in the memory of the application: what is sent to the host is a copy of the vertices from the
  smallest index to the greatest, and the indices less the smallest. Shown here: every index of the host names the vertex
  that the application's index names. Drawing from an index buffer and arrays in memory loses the host's index buffer.
\<close>

section \<open>Arrays\<close>

text \<open>Memory is contiguous.\<close>

definition memory_ok :: "memory \<Rightarrow> bool" where
  "memory_ok mem \<longleftrightarrow> (\<forall>p k. k \<le> length (mem p) \<longrightarrow> mem (p + int k) = drop k (mem p))"

text \<open>An array as \<open>glVertexAttribPointer\<close> sets it with arguments that OpenGL allows.\<close>

definition array_ok :: "attrib_state \<Rightarrow> bool" where
  "array_ok s \<longleftrightarrow>
     0 < va_size s \<and> va_size s < 2 ^ 32 \<and> 0 \<le> va_stride s \<and> va_stride s < 2 ^ 32 \<and>
     0 < va_elementSize s \<and> va_elementSize s < 2 ^ 32 \<and> va_elementSize s = nat (va_size s) * glSizeof (va_type s)"

definition array_step :: "attrib_state \<Rightarrow> nat" where
  "array_step s = (if va_stride s = 0 then va_elementSize s else nat (va_stride s))"

text \<open>The vertices up to \<open>m\<close> can be read.\<close>

definition readable :: "memory \<Rightarrow> attrib_state \<Rightarrow> nat \<Rightarrow> bool" where
  "readable mem s m \<longleftrightarrow> m * array_step s + va_elementSize s \<le> length (mem (int (va_data s)))"

lemma set_pointer_array_ok:
  assumes "0 < n" "n < 2 ^ 32" "0 \<le> stride" "stride < 2 ^ 32" "0 < glSizeof type" "n * int (glSizeof type) < 2 ^ 32"
    "validLocation c l"
  shows "array_ok (gc_states (gl_setState l n type norm stride p c) ! nat l)"
proof -
  define k where "k = nat n"
  have k: "n = int k" "0 < k" "k < 2 ^ 32" "k * glSizeof type < 2 ^ 32"
    using assms(1,2,6) by (simp_all add: k_def nat_less_iff flip: of_nat_less_iff [where 'a = int])
  have "(int (glSizeof type) * n) mod 2 ^ 32 = int ((glSizeof type * k) mod 2 ^ 32)"
    unfolding k(1) by (simp only: of_nat_mult of_nat_mod of_nat_power of_nat_numeral)
  also have "(glSizeof type * k) mod 2 ^ 32 = k * glSizeof type" using k(4) by (simp add: mult.commute)
  finally have "nat ((int (glSizeof type) * n) mod 2 ^ 32) = k * glSizeof type" by (simp only: nat_int)
  moreover have "nat l < length (gc_states c)" using assms(7) by (auto simp: validLocation_def)
  ultimately have "va_elementSize (gc_states (gl_setState l n type norm stride p c) ! nat l) = k * glSizeof type"
    "va_size (gc_states (gl_setState l n type norm stride p c) ! nat l) = int k"
    "va_type (gc_states (gl_setState l n type norm stride p c) ! nat l) = type"
    "va_stride (gc_states (gl_setState l n type norm stride p c) ! nat l) = stride"
    using assms(1,7) k(1) by (simp_all add: gl_setState_def gl_update_def)
  with k assms(3,4,5) show ?thesis by (simp only: array_ok_def) simp
qed

text \<open>The bytes that are sent for \<open>n\<close> vertices from \<open>first\<close> on, and where each is.\<close>

definition sent_vertices :: "memory \<Rightarrow> attrib_state \<Rightarrow> nat \<Rightarrow> nat \<Rightarrow> byte list" where
  "sent_vertices mem s first n =
     concat (map (\<lambda>j. element_bytes (mem (int (va_data s))) (va_elementSize s) (array_step s) (first + j)) [0..<n])"

lemma nth_concat_uniform:
  "\<forall>x \<in> set xs. length x = v \<Longrightarrow> j < length xs \<Longrightarrow> take v (drop (j * v) (concat xs)) = xs ! j"
proof (induction xs arbitrary: j)
  case (Cons x xs)
  then show ?case by (cases j) simp_all
qed simp

lemma sent_vertex:
  assumes "readable mem s (first + n - 1)" "j < n"
  shows "take (va_elementSize s) (drop (j * va_elementSize s) (sent_vertices mem s first n)) =
    element_bytes (mem (int (va_data s))) (va_elementSize s) (array_step s) (first + j)"
proof -
  let ?e = "\<lambda>j. element_bytes (mem (int (va_data s))) (va_elementSize s) (array_step s) (first + j)"
  have "length (?e j) = va_elementSize s" if "j < n" for j
  proof -
    have "(first + j) * array_step s \<le> (first + n - 1) * array_step s" using that by (intro mult_right_mono) simp_all
    with assms(1) have "(first + j) * array_step s + va_elementSize s \<le> length (mem (int (va_data s)))"
      unfolding readable_def by linarith
    then show ?thesis by (simp add: element_bytes_def)
  qed
  then have "\<forall>b \<in> set (map ?e [0..<n]). length b = va_elementSize s" by auto
  from nth_concat_uniform [OF this, of j] assms(2) show ?thesis by (simp add: sent_vertices_def)
qed

lemma packed_array_ok:
  assumes "memory_ok mem" "array_ok s" "readable mem s (first + n - 1)" "0 < n" "va_elementSize s * n < 2 ^ 32"
  shows "packed_array mem (int (va_data s) + int (array_step s) * int first) s
      ((int (va_elementSize s) * int n) mod 2 ^ 32) = Inr (sent_vertices mem s first n)"
proof -
  let ?m = "mem (int (va_data s))" and ?v = "va_elementSize s" and ?t = "array_step s"
  have "first * ?t \<le> (first + n - 1) * ?t" using assms(4) by (intro mult_right_mono) simp_all
  then have le: "first * ?t \<le> length ?m" using assms(3) unfolding readable_def by linarith
  have src: "mem (int (va_data s) + int ?t * int first) = drop (first * ?t) ?m"
    using assms(1) le unfolding memory_ok_def by (metis mult.commute of_nat_mult)
  have "first + n - 1 = first + (n - 1)" using assms(4) by simp
  then have "(first + n - 1) * ?t = first * ?t + (n - 1) * ?t" by (simp only: add_mult_distrib)
  then have "first * ?t + (n - 1) * ?t + ?v \<le> length ?m" using assms(3) unfolding readable_def by linarith
  then have room: "(n - 1) * ?t + ?v \<le> length (drop (first * ?t) ?m)" unfolding length_drop by linarith
  have sz: "nat (va_size s mod 2 ^ 32) = nat (va_size s)" "nat (va_stride s mod 2 ^ 32) = nat (va_stride s)"
    using assms(2) by (simp_all add: array_ok_def)
  have v: "?v = nat (va_size s) * glSizeof (va_type s)" "?v < 2 ^ 32" "0 < ?v"
    "?t = (if nat (va_stride s) = 0 then ?v else nat (va_stride s))"
    using assms(2) by (auto simp: array_ok_def array_step_def)
  have "int ?v * int n < 2 ^ 32" using assms(5) by (metis of_nat_less_iff of_nat_mult of_nat_numeral of_nat_power)
  then have "(int ?v * int n) mod 2 ^ 32 = int (n * ?v)" by (simp add: mult.commute)
  then have len: "nat ((int ?v * int n) mod 2 ^ 32) = n * ?v" by (simp only: nat_int)
  have e: "element_bytes (drop (first * ?t) ?m) ?v ?t = (\<lambda>j. element_bytes ?m ?v ?t (first + j))"
    by (rule ext) (simp add: element_bytes_def add_mult_distrib add.commute)
  from packed_elements [OF v(1-3) assms(4) v(4) room] obtain ws where
    "pack_pointer_data (drop (first * ?t) ?m) (nat (va_size s)) (va_type s) (nat (va_stride s)) (n * ?v) = Packed ws"
    "concat ws = concat (map (element_bytes (drop (first * ?t) ?m) ?v ?t) [0..<n])" by blast
  then show ?thesis
    unfolding packed_array_def src sz len by (simp add: sent_vertices_def e)
qed

section \<open>What is sent for the arrays\<close>

text \<open>The calls for an array, without what they read: for the vertices from \<open>first\<close> on, \<open>n\<close> of them.\<close>

definition pointer_call :: "memory \<Rightarrow> nat \<Rightarrow> nat \<Rightarrow> nat \<Rightarrow> attrib_state \<Rightarrow> host_call" where
  "pointer_call mem first n i s =
     (if va_bufferObject s = 0
      then Call_VertexAttribPointerData i (va_size s) (va_type s) (va_normalized s) (va_stride s)
             (sent_vertices mem s first n)
      else Call_VertexAttribPointerOffset i (va_size s) (va_type s) (va_normalized s) (va_stride s)
             (word_of_int (int (va_data s) + int (array_step s) * int first)))"

definition array_calls :: "memory \<Rightarrow> nat \<Rightarrow> nat \<Rightarrow> u32 \<Rightarrow> attrib_state list \<Rightarrow> nat \<Rightarrow> host_call list" where
  "array_calls mem first n vbo ss i =
     (let s = ss ! i in
      if va_enabled s \<noteq> 0 then
        [Call_EnableVertexAttribArray i, Call_BindBuffer ''GL_ARRAY_BUFFER'' (va_bufferObject s),
         pointer_call mem first n i s, Call_BindBuffer ''GL_ARRAY_BUFFER'' vbo]
      else if va_enableDirty s then [Call_DisableVertexAttribArray i] else [])"

definition sendable :: "memory \<Rightarrow> nat \<Rightarrow> nat \<Rightarrow> attrib_state \<Rightarrow> bool" where
  "sendable mem first n s \<longleftrightarrow>
     array_ok s \<and>
     (va_bufferObject s = 0 \<longrightarrow> readable mem s (first + n - 1) \<and> va_elementSize s * n < 2 ^ 32)"

definition clean_state :: "nat \<Rightarrow> gl_client \<Rightarrow> gl_client" where
  "clean_state i c = gl_update (int i) (\<lambda>s. s\<lparr>va_enableDirty := False\<rparr>) c"

lemma send_array_sends:
  assumes "i < length (gc_states (en_state x))" "memory_ok mem" "0 < n"
    and "va_enabled (gc_states (en_state x) ! i) \<noteq> 0 \<Longrightarrow> sendable mem first n (gc_states (en_state x) ! i)"
  shows "send_array mem (int first) (int n) i x =
    Inr (x\<lparr>en_state := clean_state i (en_state x),
           en_sent := en_sent x @ array_calls mem first n (gc_arrayVbo (en_state x)) (gc_states (en_state x)) i\<rparr>)"
proof -
  let ?s = "gc_states (en_state x) ! i" and ?c = "clean_state i (en_state x)"
  have g: "getStateAndEnableDirty (int i) (en_state x) = (Some (?s\<lparr>va_enableDirty := False\<rparr>, va_enableDirty ?s), ?c)"
    using assms(1) by (simp add: getStateAndEnableDirty_def gl_getState_def validLocation_def clean_state_def)
  have vbo: "gc_arrayVbo ?c = gc_arrayVbo (en_state x)" by (simp add: clean_state_def gl_update_def)
  show ?thesis
  proof (cases "va_enabled ?s = 0")
    case True
    then show ?thesis by (simp add: send_array_def g array_calls_def send_def Let_def)
  next
    case False
    let ?t = "?s\<lparr>va_enableDirty := False\<rparr>"
    have ok: "array_ok ?s" using assms(4) False by (simp add: sendable_def)
    have step: "(if va_stride ?s = 0 then int (va_elementSize ?s) else va_stride ?s) = int (array_step ?s)"
      using ok by (simp add: array_ok_def array_step_def)
    have same: "array_ok ?t = array_ok ?s" "readable mem ?t m = readable mem ?s m"
      "sent_vertices mem ?t first n = sent_vertices mem ?s first n" "array_step ?t = array_step ?s" for m
      by (simp_all add: array_ok_def readable_def array_step_def sent_vertices_def)
    have p: "packed_array mem (int (va_data ?s) + int (array_step ?s) * int first) ?t
        ((int (va_elementSize ?s) * int n) mod 2 ^ 32) = Inr (sent_vertices mem ?s first n)" if "va_bufferObject ?s = 0"
      using packed_array_ok [OF assms(2), of ?t first n] assms(3,4) False that same
      by (simp add: sendable_def)
    have "send_enabled_array mem (int first) (int n) i ?t (x\<lparr>en_state := ?c\<rparr>) =
        Inr (x\<lparr>en_state := ?c,
               en_sent := en_sent x @ array_calls mem first n (gc_arrayVbo (en_state x)) (gc_states (en_state x)) i\<rparr>)"
      using False p
      by (simp add: send_enabled_array_def array_calls_def pointer_call_def send_def Let_def step vbo cong: if_cong)
    then show ?thesis using False by (simp add: send_array_def g)
  qed
qed


lemma clean_state_fields:
  "i < length (gc_states c) \<Longrightarrow> gc_states (clean_state i c) = (gc_states c)[i := (gc_states c ! i)\<lparr>va_enableDirty := False\<rparr>]"
  "gc_arrayVbo (clean_state i c) = gc_arrayVbo c" "gc_indexVbo (clean_state i c) = gc_indexVbo c"
  by (simp_all add: clean_state_def gl_update_def validLocation_def)

lemma send_arrays_send:
  assumes "memory_ok mem" "0 < n" "distinct is" "length ss = length (gc_states (en_state x))"
    and "\<forall>i \<in> set is. i < length ss \<and> gc_states (en_state x) ! i = ss ! i"
    and "\<forall>i \<in> set is. va_enabled (ss ! i) \<noteq> 0 \<longrightarrow> sendable mem first n (ss ! i)"
    and "gc_arrayVbo (en_state x) = vbo"
  shows "\<exists>x'. send_arrays mem (int first) (int n) is x = Inr x' \<and>
    en_sent x' = en_sent x @ concat (map (array_calls mem first n vbo ss) is)"
  using assms(3-)
proof (induction "is" arbitrary: x)
  case (Cons i "is")
  let ?c = "clean_state i (en_state x)"
  define y where "y = x\<lparr>en_state := ?c,
    en_sent := en_sent x @ array_calls mem first n (gc_arrayVbo (en_state x)) (gc_states (en_state x)) i\<rparr>"
  have i: "i < length (gc_states (en_state x))" "gc_states (en_state x) ! i = ss ! i" using Cons.prems by auto
  have s: "send_array mem (int first) (int n) i x = Inr y"
    unfolding y_def using Cons.prems(4) i by (intro send_array_sends [OF i(1) assms(1,2)]) auto
  have calls: "array_calls mem first n vbo (gc_states (en_state x)) i = array_calls mem first n vbo ss i"
    using i by (simp add: array_calls_def)
  have "length ss = length (gc_states (en_state y))" "gc_arrayVbo (en_state y) = vbo"
    using Cons.prems i by (simp_all add: y_def clean_state_fields)
  moreover have "\<forall>k \<in> set is. k < length ss \<and> gc_states (en_state y) ! k = ss ! k"
    using Cons.prems i by (auto simp: y_def clean_state_fields nth_list_update)
  moreover have "\<forall>k \<in> set is. va_enabled (ss ! k) \<noteq> 0 \<longrightarrow> sendable mem first n (ss ! k)"
    using Cons.prems(4) by simp
  ultimately obtain x' where x': "send_arrays mem (int first) (int n) is y = Inr x'"
    "en_sent x' = en_sent y @ concat (map (array_calls mem first n vbo ss) is)"
    using Cons.IH [of y] Cons.prems(1) by auto
  with s calls Cons.prems(5) show ?case by (simp add: y_def)
qed simp

lemma send_all_arrays:
  assumes "memory_ok mem" "0 < n"
    and "\<forall>s \<in> set (enabled_arrays x). sendable mem first n s"
  shows "\<exists>x'. sendVertexAttributes mem (int first) (int n) x = Inr x' \<and>
    en_sent x' = en_sent x @ concat (map (array_calls mem first n (gc_arrayVbo (en_state x)) (gc_states (en_state x)))
      [0..<length (gc_states (en_state x))])"
  unfolding sendVertexAttributes_def
  using assms(3) by (intro send_arrays_send [OF assms(1,2)]) (auto simp: enabled_arrays_def)

section \<open>Indices\<close>




section \<open>The vertices that are drawn\<close>

text \<open>
  A vertex of an array: bytes in memory, or a place in the buffer that is bound. What the application means by number
  \<open>j\<close>, and what the host finds for it after the call that sets the pointer, as the protocol documents it: data that was
  sent is dense.
\<close>

datatype vertex = Vertex_Bytes "byte list" | Vertex_At u32

definition client_vertex :: "memory \<Rightarrow> attrib_state \<Rightarrow> nat \<Rightarrow> vertex" where
  "client_vertex mem s j =
     (if va_bufferObject s = 0
      then Vertex_Bytes (element_bytes (mem (int (va_data s))) (va_elementSize s) (array_step s) j)
      else Vertex_At (word_of_int (int (va_data s) + int (array_step s) * int j)))"

fun host_vertex :: "host_call \<Rightarrow> nat \<Rightarrow> vertex option" where
  "host_vertex (Call_VertexAttribPointerData i n type norm stride bytes) j =
     (let v = nat n * glSizeof type in Some (Vertex_Bytes (take v (drop (j * v) bytes))))"
| "host_vertex (Call_VertexAttribPointerOffset i n type norm stride offset) j =
     (let step = (if stride = 0 then nat n * glSizeof type else nat stride)
      in Some (Vertex_At (offset + of_nat (step * j))))"
| "host_vertex _ j = None"

lemma pointer_call_vertex:
  assumes "sendable mem first n s" "j < n"
  shows "host_vertex (pointer_call mem first n i s) j = Some (client_vertex mem s (first + j))"
proof (cases "va_bufferObject s = 0")
  case True
  with assms sent_vertex [of mem s first n j] show ?thesis
    by (simp add: pointer_call_def client_vertex_def sendable_def array_ok_def Let_def)
next
  case False
  have "(if va_stride s = 0 then nat (va_size s) * glSizeof (va_type s) else nat (va_stride s)) = array_step s"
    using assms(1) by (simp add: sendable_def array_ok_def array_step_def)
  moreover have "(word_of_int (int (va_data s) + int (array_step s) * int first) :: u32) + of_nat (array_step s * j) =
      word_of_int (int (va_data s) + int (array_step s) * int (first + j))"
    by (simp add: algebra_simps)
  ultimately show ?thesis using False by (simp add: pointer_call_def client_vertex_def Let_def)
qed

text \<open>Location \<open>i\<close> is set up with the pointer of call \<open>c\<close>, into the right buffer.\<close>

definition sets_up :: "host_call list \<Rightarrow> nat \<Rightarrow> u32 \<Rightarrow> host_call \<Rightarrow> bool" where
  "sets_up cs i vbo c \<longleftrightarrow>
     (\<exists>pre post. cs = pre @ [Call_EnableVertexAttribArray i, Call_BindBuffer ''GL_ARRAY_BUFFER'' vbo, c] @ post)"

lemma array_calls_set_up:
  assumes "i < length ss" "va_enabled (ss ! i) \<noteq> 0"
  shows "sets_up (concat (map (array_calls mem first n vbo ss) [0..<length ss])) i (va_bufferObject (ss ! i))
    (pointer_call mem first n i (ss ! i))"
proof -
  let ?f = "array_calls mem first n vbo ss"
  have "[0..<length ss] = [0..<i] @ i # [Suc i..<length ss]"
    using assms(1) by (metis le_add_same_cancel1 upt_add_eq_append upt_conv_Cons zero_le less_imp_le add_0 le_add_diff_inverse)
  then have "concat (map ?f [0..<length ss]) = concat (map ?f [0..<i]) @ ?f i @ concat (map ?f [Suc i..<length ss])"
    by simp
  then show ?thesis using assms(2) by (auto simp: sets_up_def array_calls_def Let_def)
qed

lemma enabled_arrays_nth:
  "i < length (gc_states (en_state x)) \<Longrightarrow> va_enabled (gc_states (en_state x) ! i) \<noteq> 0 \<Longrightarrow>
     gc_states (en_state x) ! i \<in> set (enabled_arrays x)"
  by (auto simp: enabled_arrays_def)



definition flat_memory :: "byte list \<Rightarrow> memory" where
  "flat_memory bs p = (if 0 \<le> p then drop (nat p) bs else [])"

lemma flat_memory_ok: "memory_ok (flat_memory bs)"
  by (auto simp: memory_ok_def flat_memory_def nat_add_distrib add.commute)

definition example_memory :: memory where
  "example_memory = flat_memory [0, 3, 4, 5, 0, 0, 0, 0, 10, 11, 12, 13, 14, 15, 16]"

definition example_array :: attrib_state where
  "example_array = some_attrib\<lparr>va_enabled := 1, va_size := 1, va_type := ''GL_BYTE'', va_data := 8, va_elementSize := 1\<rparr>"

definition example_encoder :: "u32 \<Rightarrow> gl2_encoder" where
  "example_encoder vbo =
     gl2_encoder_new ((gl_client_new some_attrib 0 16)\<lparr>gc_states := [example_array], gc_indexVbo := vbo\<rparr>)
       (shared_group_new\<lparr>sg_buffers := [vbo \<mapsto> [3, 4, 5]]\<rparr>)"

lemma example_enabled: "enabled_arrays (example_encoder vbo) = [example_array]"
  by (simp add: enabled_arrays_def example_encoder_def gl2_encoder_new_def example_array_def)


text \<open>
  The draw from an index buffer with an array in memory unbinds the host's index buffer, and nothing binds it again: the
  client still has the buffer bound, so that the next \<open>glBufferSubData\<close> on it is sent to a host that has none.
\<close>

lemma draw_loses_index_buffer:
  "\<exists>x'. s_glDrawElements example_memory ''GL_TRIANGLES'' 3 ''GL_UNSIGNED_BYTE'' 0 (example_encoder 9) = Inr x' \<and>
     gc_indexVbo (en_state x') = 9 \<and>
     filter (\<lambda>c. case c of Call_BindBuffer target i \<Rightarrow> target = ''GL_ELEMENT_ARRAY_BUFFER'' | _ \<Rightarrow> False) (en_sent x') =
       [Call_BindBuffer ''GL_ELEMENT_ARRAY_BUFFER'' 0]"
proof -
  have r: "read_indices ''GL_UNSIGNED_BYTE'' (nat 3) [3, 4, 5] = Inr [3, 4, 5]"
    by (simp add: read_indices_def from_le_def from_be_def glSizeof_def upt_rec)
  have m: "minmax [3, 4, 5] = (3, 5)" by (simp add: minmax_def int32_def)
  let ?y = "send (Call_BindBuffer ''GL_ELEMENT_ARRAY_BUFFER'' 0) (example_encoder 9)"
  have s: "sendable example_memory 3 3 example_array"
    by (simp add: sendable_def array_ok_def readable_def array_step_def example_array_def some_attrib_def
        example_memory_def flat_memory_def glSizeof_def)
  have st: "gc_states (en_state ?y) = [example_array]" "gc_arrayVbo (en_state ?y) = 0"
    by (simp_all add: example_encoder_def gl2_encoder_new_def gl_client_new_def Let_def)
  have "send_array example_memory (int 3) (int 3) 0 ?y = Inr (?y\<lparr>en_state := clean_state 0 (en_state ?y),
      en_sent := en_sent ?y @ array_calls example_memory 3 3 0 [example_array] 0\<rparr>)"
    using send_array_sends [of 0 ?y example_memory 3 3] s st
    by (simp add: flat_memory_ok example_memory_def)
  then have "sendVertexAttributes example_memory 3 3 ?y = Inr (?y\<lparr>en_state := clean_state 0 (en_state ?y),
      en_sent := en_sent ?y @ array_calls example_memory 3 3 0 [example_array] 0\<rparr>)"
    unfolding sendVertexAttributes_def st by simp
  then have "s_glDrawElements example_memory ''GL_TRIANGLES'' 3 ''GL_UNSIGNED_BYTE'' 0 (example_encoder 9) =
      Inr (send (Call_DrawElementsData ''GL_TRIANGLES'' 3 ''GL_UNSIGNED_BYTE''
             (shiftIndices (index_width ''GL_UNSIGNED_BYTE'') (- 3) [3, 4, 5]))
        (?y\<lparr>en_state := clean_state 0 (en_state ?y),
           en_sent := en_sent ?y @ array_calls example_memory 3 3 0 [example_array] 0\<rparr>))"
    unfolding s_glDrawElements_def example_enabled
    using r m
    by (simp add: isValidDrawMode_def isValidDrawType_def draw_adjusted_def has_no_data_def example_array_def
        some_attrib_def example_encoder_def gl2_encoder_new_def shared_group_new_def)
  then show ?thesis
    by (simp add: clean_state_fields st array_calls_def pointer_call_def example_array_def some_attrib_def Let_def)
      (simp add: example_encoder_def gl2_encoder_new_def)
qed


text \<open>Without indices: the host draws from 0 on, and finds the vertices from \<open>first\<close> on.\<close>

lemma draw_arrays_same_vertices:
  assumes "memory_ok mem" "isValidDrawMode mode" "0 < n" "enabled_arrays x \<noteq> []"
    "\<not> list_ex has_no_data (enabled_arrays x)" "\<forall>s \<in> set (enabled_arrays x). sendable mem first n s"
  shows "\<exists>x' cs. s_glDrawArrays mem mode (int first) (int n) x = Inr x' \<and>
    en_sent x' = en_sent x @ cs @ [Call_DrawArrays mode 0 (int n)] \<and>
    (\<forall>i < length (gc_states (en_state x)). va_enabled (gc_states (en_state x) ! i) \<noteq> 0 \<longrightarrow>
       (\<exists>c. sets_up cs i (va_bufferObject (gc_states (en_state x) ! i)) c \<and>
         (\<forall>k < n. host_vertex c k = Some (client_vertex mem (gc_states (en_state x) ! i) (first + k)))))"
proof -
  let ?ss = "gc_states (en_state x)"
  let ?cs = "concat (map (array_calls mem first n (gc_arrayVbo (en_state x)) ?ss) [0..<length ?ss])"
  from send_all_arrays [OF assms(1,3,6)] obtain y where y:
    "sendVertexAttributes mem (int first) (int n) x = Inr y" "en_sent y = en_sent x @ ?cs" by blast
  have d: "s_glDrawArrays mem mode (int first) (int n) x = Inr (send (Call_DrawArrays mode 0 (int n)) y)"
    using assms(2,4,5) y(1) by (simp add: s_glDrawArrays_def)
  have v: "sets_up ?cs i (va_bufferObject (?ss ! i)) (pointer_call mem first n i (?ss ! i)) \<and>
      (\<forall>k < n. host_vertex (pointer_call mem first n i (?ss ! i)) k = Some (client_vertex mem (?ss ! i) (first + k)))"
    if i: "i < length ?ss" "va_enabled (?ss ! i) \<noteq> 0" for i
    using array_calls_set_up [OF i] pointer_call_vertex assms(6) enabled_arrays_nth [OF i] by blast
  show ?thesis
    using d y(2) v by (intro exI [of _ "send (Call_DrawArrays mode 0 (int n)) y"] exI [of _ ?cs]) auto
qed

text \<open>
  A first vertex below 0 is not refused, and no indices at all count as the index -1: both read in front of the array,
  here in front of everything.
\<close>

lemma draws_read_in_front:
  "s_glDrawArrays (\<lambda>p. if p = 8 then [1, 2, 3] else []) ''GL_POINTS'' (-1) 1 (example_encoder 0) = Inl Undefined"
  "s_glDrawElements (\<lambda>p. if p = 8 then [1, 2, 3] else []) ''GL_POINTS'' 0 ''GL_UNSIGNED_BYTE'' 0 (example_encoder 0) =
     Inl Undefined"
proof -
  let ?mem = "\<lambda>p. if p = 8 then [1, 2, 3] else []"
  have st: "gc_states (en_state (example_encoder 0)) = [example_array]"
    by (simp add: example_encoder_def gl2_encoder_new_def)
  have "send_array ?mem (-1) 1 0 (example_encoder 0) = Inl Undefined"
    by (simp add: send_array_def getStateAndEnableDirty_def gl_getState_def validLocation_def st
        send_enabled_array_def packed_array_def Let_def)
      (simp add: example_array_def some_attrib_def pack_pointer_data_def glSizeof_def Let_def)
  then have s: "sendVertexAttributes ?mem (-1) 1 (example_encoder 0) = Inl Undefined"
    unfolding sendVertexAttributes_def st by simp
  have d: "\<not> list_ex has_no_data (enabled_arrays (example_encoder 0))" "enabled_arrays (example_encoder 0) \<noteq> []"
    "gc_indexVbo (en_state (example_encoder 0)) = 0"
    by (simp_all add: example_enabled has_no_data_def example_array_def, simp add: example_encoder_def gl2_encoder_new_def)
  show "s_glDrawArrays ?mem ''GL_POINTS'' (-1) 1 (example_encoder 0) = Inl Undefined"
    using s d by (simp add: s_glDrawArrays_def isValidDrawMode_def)
  show "s_glDrawElements ?mem ''GL_POINTS'' 0 ''GL_UNSIGNED_BYTE'' 0 (example_encoder 0) = Inl Undefined"
    using s d by (simp add: s_glDrawElements_def draw_adjusted_def read_indices_def minmax_def isValidDrawMode_def
        isValidDrawType_def Let_def)
qed


end
