(* ===== verification/GL2Programs.thy ===== *)
theory GL2Programs
  imports GL2Encoder
begin

text \<open>
  Programs and shaders of the OpenGL ES 2 client. Shown here: a value that the application gives for a location it was
  told is sent to the host's location of that uniform; \<open>samplerExternalOES\<close> is gone from a shader after it was replaced,
  whose length stays the same.
\<close>

section \<open>Linking\<close>

text \<open>
  What the host answers for a program: it links, and its uniforms, by name, size and type, have the locations \<open>loc\<close>,
  which is defined for names with an index too.
\<close>

definition host_serves :: "gl_host \<Rightarrow> u32 \<Rightarrow> (string \<times> int \<times> glenum) list \<Rightarrow> (string \<Rightarrow> int) \<Rightarrow> bool" where
  "host_serves h program us loc \<longleftrightarrow>
     (\<forall>cs. ans_int h (cs @ [Call_GetProgramiv program ''GL_LINK_STATUS'']) \<noteq> 0 \<and>
        ans_int h (cs @ [Call_GetProgramiv program ''GL_ACTIVE_UNIFORMS'']) = int (length us) \<and>
        (\<forall>i m. i < length us \<longrightarrow> ans_uniform h (cs @ [Call_GetActiveUniform program i m]) =
           (fst (snd (us ! i)), snd (snd (us ! i)), fst (us ! i))) \<and>
        (\<forall>name. ans_int h (cs @ [Call_GetUniformLocation program name]) = loc name))"

definition uniform_table :: "(string \<times> int \<times> glenum) list \<Rightarrow> (string \<Rightarrow> int) \<Rightarrow> (int \<times> int \<times> glenum) list" where
  "uniform_table us loc = map (\<lambda>(name, count, type). (loc name, count, type)) us"

lemma link_uniform_step:
  assumes "host_serves h program us loc" "i < length us" "0 < fst (snd (us ! i))"
    and "sg_programs (en_shared x) program = Some p" "uniforms_upto i (uniform_table us loc) p"
  shows "\<exists>p'. sg_programs (en_shared (link_uniform h program m i x)) program = Some p' \<and>
    uniforms_upto (Suc i) (uniform_table us loc) p'"
proof -
  obtain name c t where u: "us ! i = (name, c, t)" by (cases "us ! i")
  have len: "length (uniform_table us loc) = length us" "uniform_table us loc ! i = (loc name, c, t)"
    using assms(2) u by (simp_all add: uniform_table_def)
  have s: "en_shared (link_uniform h program m i x) =
      setProgramIndexInfo program i (loc name) c t name (en_shared x)"
    using assms(1,2) u by (simp add: link_uniform_def ask_int_def host_serves_def Let_def)
  note set = uniforms_upto_set [OF assms(5) _ len(2)]
  have "uniforms_upto (Suc i) (uniform_table us loc) (setIndexInfo i (loc name) c t p)"
    using set assms(2,3) u len(1) by simp
  with uniforms_upto_flags [OF this] assms(4) show ?thesis
    unfolding s by (auto simp: setProgramIndexInfo_def on_program_def Let_def)
qed

lemma link_uniforms:
  assumes "host_serves h program us loc" "list_all (\<lambda>u. 0 < fst (snd u)) us" "n \<le> length us"
    and "sg_programs (en_shared x) program = Some p" "uniforms_upto 0 (uniform_table us loc) p"
  shows "\<exists>p'. sg_programs (en_shared (fold (link_uniform h program m) [0..<n] x)) program = Some p' \<and>
    uniforms_upto n (uniform_table us loc) p'"
  using assms(3)
proof (induction n)
  case (Suc n)
  then obtain q where q: "sg_programs (en_shared (fold (link_uniform h program m) [0..<n] x)) program = Some q"
    "uniforms_upto n (uniform_table us loc) q" by auto
  have "0 < fst (snd (us ! n))" using assms(2) Suc.prems by (simp add: list_all_length)
  from link_uniform_step [OF assms(1) _ this q] Suc.prems show ?case by simp
qed (use assms(4,5) in simp)

lemma linked_program:
  assumes "host_serves h program us loc" "list_all (\<lambda>u. 0 < fst (snd u)) us"
    and "sg_programs (en_shared x) program = Some p"
  shows "\<exists>q. sg_programs (en_shared (s_glLinkProgram h junk program x)) program = Some q \<and>
    uniforms_upto (length us) (uniform_table us loc) q"
proof -
  define x1 where "x1 = send (Call_LinkProgram program) x"
  define x2 where "x2 = send (Call_GetProgramiv program ''GL_ACTIVE_UNIFORMS'')
    (send (Call_GetProgramiv program ''GL_LINK_STATUS'') x1)"
  define x3 where "x3 = send (Call_GetProgramiv program ''GL_ACTIVE_UNIFORM_MAX_LENGTH'')
    (x2\<lparr>en_shared := initProgramData junk program (length us) (en_shared x2)\<rparr>)"
  have p: "sg_programs (en_shared x3) program = Some (pd_init junk (length us) p)"
    using assms(3) by (simp add: x1_def x2_def x3_def initProgramData_def on_program_def)
  have len: "length (uniform_table us loc) = length us" by (simp add: uniform_table_def)
  obtain q m where q: "sg_programs (en_shared (fold (link_uniform h program m) [0..<length us] x3)) program = Some q"
    "uniforms_upto (length us) (uniform_table us loc) q" "m = ans_int h (en_sent x3)"
    using link_uniforms [OF assms(1,2) order_refl p, of "ans_int h (en_sent x3)"] uniforms_upto_init [of "uniform_table us loc" junk p] len
    by auto
  have host: "ans_int h ((en_sent x @ [Call_LinkProgram program]) @ [Call_GetProgramiv program ''GL_LINK_STATUS'']) \<noteq> 0"
    "ans_int h (((en_sent x @ [Call_LinkProgram program]) @ [Call_GetProgramiv program ''GL_LINK_STATUS'']) @
       [Call_GetProgramiv program ''GL_ACTIVE_UNIFORMS'']) = int (length us)"
    using assms(1) unfolding host_serves_def by blast+
  have "s_glLinkProgram h junk program x =
      (let y = fold (link_uniform h program m) [0..<length us] x3 in y\<lparr>en_shared := setupLocationShiftWAR program (en_shared y)\<rparr>)"
    using host by (simp add: s_glLinkProgram_def ask_int_def Let_def x1_def x2_def x3_def q(3))
  with q(1,2) show ?thesis
    by (simp add: Let_def setupLocationShiftWAR_def on_program_def uniforms_upto_setup)
qed

lemma app_bases:
  assumes "laid_out xs" "i < length xs"
  shows "0 \<le> ix_appBase (xs ! i)"
proof (cases "i = 0")
  case True
  with assms show ?thesis by (simp add: laid_out_def)
next
  case False
  then have "ix_appBase (xs ! 0) + ix_size (xs ! 0) \<le> ix_appBase (xs ! i)"
    using laid_out_ordered [OF assms(1), of 0 i] assms(2) by simp
  moreover have "ix_appBase (xs ! 0) = 0" "0 < ix_size (xs ! 0)"
    using assms(1) [unfolded laid_out_def, rule_format, of 0] le_less_trans [OF le0 assms(2)] by simp_all
  ultimately show ?thesis by simp
qed

text \<open>
  C26. A program is linked, the location of a uniform, or of an element of it, is asked for, and a value is given for the
  location: what the host gets is its own location and the value, without an error. The host may count the locations of
  uniforms in its own way: in steps of its own, and from bases of its own.
\<close>
theorem uniforms_reach_host:
  assumes "sg_programs (en_shared x) program = Some p" "host_serves h program us loc"
    and "list_all (\<lambda>u. 0 < fst (snd u)) us"
    and "name \<noteq> []" "array_index name = Some j" "host_location (uniform_table us loc) i j (loc name)" "0 \<le> loc name"
  shows "\<exists>l z. s_glGetUniformLocation h program (Some name) (s_glLinkProgram h junk program x) = Inr (l, z) \<and> 0 \<le> l \<and>
    (\<forall>w. en_shared w = en_shared z \<and> current_program w = program \<longrightarrow>
      (\<forall>func junk' vals. let w' = s_glUniform func junk' l vals w in
         en_sent w' = en_sent w @ [Call_Uniform func (loc name) vals] \<and> en_error w' = en_error w))"
proof -
  define y where "y = s_glLinkProgram h junk program x"
  have len: "length (uniform_table us loc) = length us" by (simp add: uniform_table_def)
  obtain q where q: "sg_programs (en_shared y) program = Some q" "uniforms_upto (length us) (uniform_table us loc) q"
    using linked_program [OF assms(2,3,1), of junk] unfolding y_def by blast
  note u = q(2) [folded len]
  obtain l q' where t: "pd_locationWARHostToApp (loc name) j q = (l, q')" by fastforce
  note rt = round_trip_at [OF u assms(6) t]
  have i: "i < length us" "0 \<le> j" using assms(6) len by (simp_all add: host_location_def)
  have "laid_out (pd_indexes q)" "length (pd_indexes q) = length us"
    using q(2) unfolding uniforms_upto_def len by (metis take_all_iff order_refl)+
  then have l: "0 \<le> l" using rt(3) app_bases [of "pd_indexes q" i] i assms(7) by simp
  define z where "z = send (Call_GetUniformLocation program name) y"
  have host: "ans_int h (en_sent y @ [Call_GetUniformLocation program name]) = loc name"
    using assms(2) unfolding host_serves_def by blast
  have notwar: "l = loc name \<and> q' = q" if "\<not> pd_locShiftWAR q"
    using t that by (simp add: pd_locationWARHostToApp_def)
  define g where "g = (if pd_locShiftWAR q then (en_shared z)\<lparr>sg_programs := (sg_programs (en_shared z))(program \<mapsto> q')\<rparr>
    else en_shared z)"
  have loc: "s_glGetUniformLocation h program (Some name) y = Inr (l, z\<lparr>en_shared := g\<rparr>)"
    using assms(4,5,7) q(1) t host notwar
    by (simp add: s_glGetUniformLocation_def needUniformLocationWAR_def ask_int_def locationWARHostToApp_def z_def g_def
        Let_def)
  have g: "sg_programs g program = Some q'" using q(1) notwar by (simp add: g_def z_def)
  have "getIndexForLocation (loc name) q' = i" by (rule host_location_index [OF rt(2) assms(6)])
  then have ty: "getTypeForLocation (loc name) q' = Some (ix_type (pd_indexes q' ! i))"
    using rt(2) i(1) len by (simp add: getTypeForLocation_def uniforms_upto_def Let_def)
  have "en_sent (s_glUniform func junk' l vals w) = en_sent w @ [Call_Uniform func (loc name) vals] \<and>
      en_error (s_glUniform func junk' l vals w) = en_error w"
    if "en_shared w = g" "current_program w = program" for w func junk' vals
    using that g ty rt(1) l
    by (simp add: s_glUniform_def checkValidUniformParam_def getHostLocation_def locationWARAppToHost_def
        getProgramUniformType_def Let_def)
  with loc l show ?thesis unfolding y_def by (auto simp: Let_def)
qed

text \<open>One uniform of five elements; the host's locations are 65536 and, for an element, one more for each.\<close>

definition five_floats :: "(string \<times> int \<times> glenum) list" where
  "five_floats = [(''u'', 1, ''GL_INT''), (''w'', 5, ''GL_FLOAT'')]"

definition five_locations :: "string \<Rightarrow> int" where
  "five_locations name =
     (if name = ''u'' then 65536 else if name = ''w'' then 131072 else if name = ''w[3]'' then 131075 else -1)"

definition obliging_host :: gl_host where
  "obliging_host =
     \<lparr>ans_int = (\<lambda>cs. case last cs of
          Call_GetProgramiv program e \<Rightarrow> if e = ''GL_LINK_STATUS'' then 1 else 2
        | Call_GetUniformLocation program name \<Rightarrow> five_locations name
        | _ \<Rightarrow> 0),
      ans_ints = (\<lambda>_. []), ans_float = (\<lambda>_. 0), ans_enum = (\<lambda>_. ''GL_NO_ERROR''), ans_name = (\<lambda>_. 7),
      ans_uniform = (\<lambda>cs. case last cs of
          Call_GetActiveUniform program i m \<Rightarrow>
            (fst (snd (five_floats ! i)), snd (snd (five_floats ! i)), fst (five_floats ! i))
        | _ \<Rightarrow> (0, [], []))\<rparr>"

lemma uniforms_reach_host_witness:
  "\<exists>l z. s_glGetUniformLocation obliging_host 7 (Some ''w[3]'')
      (s_glLinkProgram obliging_host no_index 7 (snd (s_glCreateProgram obliging_host
        (gl2_encoder_new (gl_client_new some_attrib 0 16) shared_group_new)))) = Inr (l, z) \<and> 0 \<le> l"
proof -
  let ?x = "snd (s_glCreateProgram obliging_host (gl2_encoder_new (gl_client_new some_attrib 0 16) shared_group_new))"
  have p: "sg_programs (en_shared ?x) 7 = Some program_data_new"
    by (simp add: s_glCreateProgram_def ask_name_def obliging_host_def gl2_encoder_new_def addProgramData_def Let_def)
  have h: "host_serves obliging_host 7 five_floats five_locations"
    by (simp add: host_serves_def obliging_host_def five_floats_def)
  have n: "array_index ''w[3]'' = Some 3" by code_simp
  have t: "uniform_table five_floats five_locations = [(65536, 1, ''GL_INT''), (131072, 5, ''GL_FLOAT'')]"
    by (simp add: uniform_table_def five_floats_def five_locations_def)
  have l: "five_locations ''w[3]'' = 131075" by (simp add: five_locations_def)
  have hl: "host_location (uniform_table five_floats five_locations) 1 3 (five_locations ''w[3]'')"
    unfolding t l host_location_def by (auto intro!: exI [of _ 1])
  show ?thesis
    using uniforms_reach_host [OF p h _ _ n hl, of no_index] by (force simp: five_floats_def five_locations_def)
qed

text \<open>
  A uniform call that is in error is sent to the host all the same, and with a location that was never set.
\<close>

lemma wrong_uniform_is_sent:
  "en_sent (s_glUniform func junk (-2) vals (gl2_encoder_new c shared_group_new)) = [Call_Uniform func junk vals]"
  "en_error (s_glUniform func junk (-2) vals (gl2_encoder_new c shared_group_new)) = ''GL_INVALID_OPERATION''"
  by (simp_all add: s_glUniform_def checkValidUniformParam_def getHostLocation_def gl2_encoder_new_def)

text \<open>The last error is kept, where OpenGL keeps the first.\<close>

lemma last_error_is_kept:
  "en_error (s_glShaderBinary (setError e x)) = ''GL_INVALID_ENUM''"
  by (simp add: s_glShaderBinary_def)


section \<open>Shaders\<close>

abbreviation nonspace :: "char \<Rightarrow> bool" where
  "nonspace c \<equiv> \<not> c_isspace c"

abbreviation external_sampler :: string where
  "external_sampler \<equiv> ''samplerExternalOES''"

text \<open>Behind a character that is no space a word goes on.\<close>

definition inside :: "char option \<Rightarrow> bool" where
  "inside prev \<longleftrightarrow> prev = None \<or> nonspace (the prev)"

text \<open>The second loop as a relation: the ways through it, with the text before and after and the names.\<close>

inductive rewritten :: "char option \<Rightarrow> string \<Rightarrow> string \<Rightarrow> string list \<Rightarrow> bool" where
  at_end: "rewritten prev [] [] []"
| other_char: "inside prev \<or> \<not> begins external_sampler (c # s) \<Longrightarrow> rewritten (Some c) s out ns \<Longrightarrow>
    rewritten prev (c # s) (c # out) ns"
| longer_word: "\<not> inside prev \<Longrightarrow> s \<noteq> [] \<Longrightarrow> nonspace (hd s) \<Longrightarrow> rewritten (Some (CHR ''S'')) s out ns \<Longrightarrow>
    rewritten prev (external_sampler @ s) (external_sampler @ out) ns"
| sampler: "\<not> inside prev \<Longrightarrow> spaces \<noteq> [] \<Longrightarrow> list_all c_isspace spaces \<Longrightarrow> name_start_char n \<Longrightarrow> list_all name_char name \<Longrightarrow>
    (s = [] \<or> \<not> name_char (hd s)) \<Longrightarrow> rewritten (Some (last (n # name))) s out ns \<Longrightarrow>
    rewritten prev (external_sampler @ spaces @ n # name @ s) (''sampler2D         '' @ spaces @ n # name @ out)
      ((n # name) # ns)"

inductive_cases rewritten_NilE: "rewritten prev [] out ns"

lemma map_prod_Some:
  "map_prod (map_option f) g r = (Some out, ns) \<longleftrightarrow> (\<exists>o' ns'. r = (Some o', ns') \<and> out = f o' \<and> ns = g ns')"
  by (cases r) auto

lemma begins_split: "begins p s \<longleftrightarrow> (\<exists>r. s = p @ r)"
proof
  assume "begins p s"
  then have "s = p @ drop (length p) s" by (metis append_take_drop_id begins_def)
  then show "\<exists>r. s = p @ r" ..
qed (auto simp: begins_def)

lemma replace_samplers_char:
  assumes "inside prev \<or> \<not> begins external_sampler (c # s)"
  shows "replace_samplers prev (c # s) = map_prod (map_option (Cons c)) id (replace_samplers (Some c) s)"
proof (cases "begins external_sampler (c # s)")
  case True
  then have "prev = None \<or> nonspace (the prev)" using assms by (simp add: inside_def)
  with True show ?thesis by (subst replace_samplers.simps) (simp only: if_True list.sel list.distinct if_False)
next
  case False
  then show ?thesis by (subst replace_samplers.simps) (simp only: if_True list.sel list.distinct if_False)
qed

lemma replace_samplers_begins:
  assumes "\<not> inside prev" "begins external_sampler t"
  shows "replace_samplers prev t =
    (let s = drop 18 t; spaces = takeWhile c_isspace s; rest = dropWhile c_isspace s;
         name = hd rest # takeWhile name_char (tl rest)
     in if s \<noteq> [] \<and> nonspace (hd s)
        then map_prod (map_option (append (take 18 t))) id (replace_samplers (Some (CHR ''S'')) s)
        else if rest = [] \<or> \<not> name_start_char (hd rest) then (None, [])
        else map_prod (map_option (append (''sampler2D         '' @ spaces @ name))) (Cons name)
               (replace_samplers (Some (last name)) (dropWhile name_char (tl rest))))"
proof -
  have ne: "t \<noteq> []" using assms(2) by (auto simp: begins_def)
  have prev: "\<not> (prev = None \<or> nonspace (the prev))" using assms(1) by (simp add: inside_def)
  show ?thesis
    by (subst replace_samplers.simps) (simp only: if_not_P [OF ne] if_P [OF assms(2)] if_not_P [OF prev] Let_def)
qed

lemma external_sampler_split:
  assumes "begins external_sampler t"
  shows "t = external_sampler @ drop 18 t" "take 18 t = external_sampler"
proof -
  obtain r where r: "t = external_sampler @ r" using assms begins_split by blast
  have l: "length external_sampler = 18" by simp
  show "t = external_sampler @ drop 18 t" "take 18 t = external_sampler"
    unfolding r l [symmetric] by (simp_all only: append_eq_conv_conj append_eq_append_conv2 drop_append take_append
        diff_self_eq_0 drop_all order_refl drop0 append_Nil take_all take0 append_Nil2)
qed

lemma name_split:
  assumes "rest \<noteq> []"
  shows "rest = hd rest # takeWhile name_char (tl rest) @ dropWhile name_char (tl rest)"
  using assms by simp

lemma replace_samplers_rewritten:
  "replace_samplers prev s = (Some out, ns) \<Longrightarrow> rewritten prev s out ns"
proof (induction "length s" arbitrary: prev s out ns rule: less_induct)
  case less
  show ?case
  proof (cases s)
    case Nil
    with less.prems have "out = []" "ns = []" by (simp_all add: replace_samplers.simps [of prev "[]"])
    with Nil show ?thesis by (simp add: rewritten.at_end)
  next
    case (Cons c t)
    show ?thesis
    proof (cases "inside prev \<or> \<not> begins external_sampler s")
      case True
      with less.prems Cons obtain o' where o: "replace_samplers (Some c) t = (Some o', ns)" "out = c # o'"
        by (auto simp: replace_samplers_char map_prod_Some)
      have "rewritten (Some c) t o' ns" using less.hyps [OF _ o(1)] Cons by simp
      with True Cons o(2) show ?thesis by (auto intro: rewritten.other_char)
    next
      case False
      then have prev: "\<not> inside prev" and b: "begins external_sampler s" by simp_all
      define r where "r = drop 18 s"
      have s: "s = external_sampler @ r" "take 18 s = external_sampler"
        using external_sampler_split [OF b] by (simp_all only: r_def)
      have len: "length s = 18 + length r" unfolding s(1) by simp
      note eq = replace_samplers_begins [OF prev b, folded r_def, unfolded Let_def s(2)]
      show ?thesis
      proof (cases "r \<noteq> [] \<and> nonspace (hd r)")
        case True
        from less.prems [unfolded eq if_P [OF True]] obtain o' where
          o: "replace_samplers (Some (CHR ''S'')) r = (Some o', ns)" "out = external_sampler @ o'"
          unfolding map_prod_Some by auto
        have "rewritten (Some (CHR ''S'')) r o' ns" using less.hyps [OF _ o(1)] len by simp
        then show ?thesis unfolding s(1) o(2) using True prev by (intro rewritten.longer_word) simp_all
      next
        case notword: False
        let ?rest = "dropWhile c_isspace r" and ?spaces = "takeWhile c_isspace r"
        let ?name = "takeWhile name_char (tl ?rest)" and ?more = "dropWhile name_char (tl ?rest)"
        have start: "\<not> (?rest = [] \<or> \<not> name_start_char (hd ?rest))"
        proof
          assume "?rest = [] \<or> \<not> name_start_char (hd ?rest)"
          from less.prems [unfolded eq if_not_P [OF notword] if_P [OF this]] show False by simp
        qed
        from less.prems [unfolded eq if_not_P [OF notword] if_not_P [OF start]] obtain o' ns' where
          o: "replace_samplers (Some (last (hd ?rest # ?name))) ?more = (Some o', ns')"
          "out = ''sampler2D         '' @ ?spaces @ hd ?rest # ?name @ o'" "ns = (hd ?rest # ?name) # ns'"
          unfolding map_prod_Some by auto
        have r: "r = ?spaces @ hd ?rest # ?name @ ?more"
          using start name_split [of ?rest] by (metis takeWhile_dropWhile_id)
        have "length ?more < length s"
          using length_dropWhile_le [of name_char "tl ?rest"] length_dropWhile_le [of c_isspace r] len by simp
        from less.hyps [OF this o(1)] have "rewritten (Some (last (hd ?rest # ?name))) ?more o' ns'" .
        moreover have "?spaces \<noteq> []"
          using notword start by (cases r) (auto split: if_splits)
        moreover have "list_all c_isspace ?spaces" "list_all name_char ?name"
          by (auto simp: list_all_iff dest: set_takeWhileD)
        moreover have "?more = [] \<or> \<not> name_char (hd ?more)" using hd_dropWhile [of name_char "tl ?rest"] by blast
        ultimately have "rewritten prev (external_sampler @ ?spaces @ hd ?rest # ?name @ ?more)
            (''sampler2D         '' @ ?spaces @ hd ?rest # ?name @ o') ((hd ?rest # ?name) # ns')"
          using prev start by (intro rewritten.sampler) simp_all
        then show ?thesis unfolding o(2,3) using s(1) r by metis
      qed
    qed
  qed
qed

lemma rewritten_length: "rewritten prev s out ns \<Longrightarrow> length out = length s"
  by (induction rule: rewritten.induct) simp_all

text \<open>A word that has begun is not changed.\<close>

lemma rewritten_word: "rewritten prev s out ns \<Longrightarrow> inside prev \<Longrightarrow> takeWhile nonspace out = takeWhile nonspace s"
proof (induction rule: rewritten.induct)
  case (other_char prev c s out ns)
  then show ?case by (cases "c_isspace c") (simp_all add: inside_def)
qed simp_all

text \<open>Texts that stay as they are.\<close>

lemma begins_word:
  "begins external_sampler s \<longleftrightarrow> begins external_sampler (takeWhile nonspace s)"
proof
  have w: "list_all nonspace external_sampler" by (simp add: c_isspace_def)
  assume "begins external_sampler s"
  then obtain r where "s = external_sampler @ r" using begins_split by blast
  with w have "takeWhile nonspace s = external_sampler @ takeWhile nonspace r"
    by (simp add: takeWhile_append2 list_all_iff)
  then show "begins external_sampler (takeWhile nonspace s)" using begins_split by blast
next
  assume "begins external_sampler (takeWhile nonspace s)"
  then obtain r where "takeWhile nonspace s = external_sampler @ r" using begins_split by blast
  then have "s = external_sampler @ (r @ dropWhile nonspace s)"
    by (metis append_assoc takeWhile_dropWhile_id)
  then show "begins external_sampler s" using begins_split by blast
qed

lemma name_char_nonspace: "name_char c \<Longrightarrow> nonspace c"
  by (auto simp: name_char_def name_start_char_def c_isalpha_def c_isdigit_def c_isspace_def)

lemma stays_spaces:
  "list_all c_isspace w \<Longrightarrow> rewritten (if w = [] then prev else Some (last w)) t t [] \<Longrightarrow> rewritten prev (w @ t) (w @ t) []"
proof (induction w arbitrary: prev)
  case (Cons c w)
  have "\<not> begins external_sampler (c # w @ t)" using Cons.prems(1) by (auto simp: begins_def c_isspace_def)
  moreover have "rewritten (Some c) (w @ t) (w @ t) []" using Cons by (cases "w = []") simp_all
  ultimately show ?case by (simp add: rewritten.other_char)
qed simp

lemma stays_word:
  "inside prev \<Longrightarrow> list_all nonspace w \<Longrightarrow> rewritten (if w = [] then prev else Some (last w)) t t [] \<Longrightarrow>
     rewritten prev (w @ t) (w @ t) []"
proof (induction w arbitrary: prev)
  case (Cons c w)
  have "inside (Some c)" using Cons.prems(2) by (simp add: inside_def)
  with Cons have "rewritten (Some c) (w @ t) (w @ t) []" by (cases "w = []") simp_all
  with Cons.prems(1) show ?case by (simp add: rewritten.other_char)
qed simp

lemma stays_name:
  assumes "\<not> inside prev" "list_all name_char w" "w \<noteq> []" "w \<noteq> external_sampler"
    "t = [] \<or> \<not> name_char (hd t)" "rewritten (Some (last w)) t t []"
  shows "rewritten prev (w @ t) (w @ t) []"
proof -
  have ns: "list_all nonspace w" using assms(2) name_char_nonspace by (auto simp: list_all_iff)
  obtain n v where w: "w = n # v" using assms(3) by (cases w) auto
  show ?thesis
  proof (cases "begins external_sampler (w @ t)")
    case False
    have "rewritten (Some n) (v @ t) (v @ t) []"
      by (rule stays_word) (use assms(6) ns w in \<open>auto simp: inside_def split: if_splits\<close>)
    with False show ?thesis by (simp add: w rewritten.other_char)
  next
    case True
    then obtain r where r: "w @ t = external_sampler @ r" using begins_split by blast
    have "list_all name_char external_sampler"
      by (simp add: name_char_def name_start_char_def c_isalpha_def)
    then have "length external_sampler \<le> length (takeWhile name_char (w @ t))"
      unfolding r by (simp add: takeWhile_append2 list_all_iff)
    moreover have "takeWhile name_char (w @ t) = w"
      using assms(2,5) by (cases t) (simp_all add: takeWhile_append2 list_all_iff takeWhile_eq_all_conv)
    ultimately have l: "18 \<le> length w" by simp
    have "take 18 w = take 18 (w @ t)" using l by simp
    also have "\<dots> = external_sampler" unfolding r by simp
    finally have t: "take 18 w = external_sampler" .
    define u where "u = drop 18 w"
    have u: "w = external_sampler @ u" unfolding u_def using t by (metis append_take_drop_id)
    with assms(4) have "u \<noteq> []" by auto
    have "rewritten (Some (CHR ''S'')) (u @ t) (u @ t) []"
      by (rule stays_word) (use assms(6) ns u(1) \<open>u \<noteq> []\<close> in \<open>auto simp: inside_def c_isspace_def\<close>)
    moreover have "nonspace (hd (u @ t))" using ns u \<open>u \<noteq> []\<close> by (cases u) simp_all
    ultimately show ?thesis
      using assms(1) \<open>u \<noteq> []\<close> u rewritten.longer_word [of prev "u @ t" "u @ t" "[]"] by simp
  qed
qed

lemma rewritten_stays:
  "rewritten prev s out ns \<Longrightarrow> external_sampler \<notin> set ns \<Longrightarrow> rewritten prev out out []"
proof (induction rule: rewritten.induct)
  case (at_end prev)
  show ?case by (rule rewritten.at_end)
next
  case (other_char prev c s out ns)
  have "inside prev \<or> \<not> begins external_sampler (c # out)"
  proof (cases "inside prev \<or> c_isspace c")
    case True
    then show ?thesis by (auto simp: begins_def c_isspace_def)
  next
    case False
    then have "takeWhile nonspace (c # out) = takeWhile nonspace (c # s)"
      using rewritten_word [OF other_char(2)] by (simp add: inside_def)
    then have "begins external_sampler (c # out) = begins external_sampler (c # s)"
      using begins_word [of "c # out"] begins_word [of "c # s"] by (simp only:)
    with other_char(1) False show ?thesis by blast
  qed
  with other_char show ?case by (intro rewritten.other_char) simp_all
next
  case (longer_word prev s out ns)
  have "takeWhile nonspace out = takeWhile nonspace s"
    using rewritten_word [OF longer_word(4)] by (simp add: inside_def c_isspace_def)
  then have "out \<noteq> []" "nonspace (hd out)" using longer_word(2,3) by (cases s; cases out; auto split: if_splits)+
  with longer_word show ?case by (intro rewritten.longer_word) simp_all
next
  case (sampler prev spaces n name s out ns)
  let ?w = "n # name"
  have w: "list_all name_char ?w" using sampler(4,5) by (simp add: name_char_def)
  then have "name_char (last ?w)" using last_in_set [of ?w] by (simp only: list_all_iff list.distinct simp_thms)
  then have "inside (Some (last ?w))" using name_char_nonspace by (simp add: inside_def del: last.simps)
  from rewritten_word [OF sampler(7) this] have tw: "takeWhile nonspace out = takeWhile nonspace s" .
  have "out = [] \<or> \<not> name_char (hd out)"
    using sampler(6) tw rewritten_length [OF sampler(7)] name_char_nonspace
    by (cases s; cases out) (auto split: if_splits)
  moreover have "rewritten (Some (last ?w)) out out []" using sampler.IH sampler.prems by simp
  ultimately have name: "rewritten (Some (last spaces)) (?w @ out) (?w @ out) []"
    using w sampler(2,3) sampler.prems
    by (intro stays_name) (auto simp: inside_def list_all_iff simp del: last.simps)
  have "rewritten (Some (CHR '' '')) (spaces @ ?w @ out) (spaces @ ?w @ out) []"
    by (rule stays_spaces [where w = spaces]) (use sampler(2,3) name in \<open>simp_all del: last.simps\<close>)
  then have "rewritten (Some (CHR ''D'')) (''         '' @ spaces @ ?w @ out) (''         '' @ spaces @ ?w @ out) []"
    by (intro stays_spaces [where w = "''         ''"]) (simp_all add: c_isspace_def)
  then have "rewritten (Some (CHR ''s'')) (''ampler2D'' @ ''         '' @ spaces @ ?w @ out)
      (''ampler2D'' @ ''         '' @ spaces @ ?w @ out) []"
    by (intro stays_word [where w = "''ampler2D''"]) (simp_all add: inside_def c_isspace_def)
  moreover have "\<not> begins external_sampler (''sampler2D         '' @ spaces @ ?w @ out)" by (simp add: begins_def)
  ultimately show ?case
    using rewritten.other_char [of prev "CHR ''s''" "''ampler2D'' @ ''         '' @ spaces @ ?w @ out"] by simp
qed

text \<open>The other direction.\<close>

lemma rewritten_replace_samplers:
  "rewritten prev s out ns \<Longrightarrow> replace_samplers prev s = (Some out, ns)"
proof (induction rule: rewritten.induct)
  case (at_end prev)
  show ?case by (simp add: replace_samplers.simps [of prev "[]"])
next
  case (other_char prev c s out ns)
  then show ?case by (simp add: replace_samplers_char)
next
  case (longer_word prev s out ns)
  have b: "begins external_sampler (external_sampler @ s)" by (simp add: begins_split)
  have "drop 18 (external_sampler @ s) = s" "take 18 (external_sampler @ s) = external_sampler" by simp_all
  with longer_word show ?case
    using replace_samplers_begins [OF longer_word(1) b] by (simp only: Let_def simp_thms if_True map_prod_simp option.map id_apply)
next
  case (sampler prev spaces n name s out ns)
  let ?t = "spaces @ n # name @ s"
  have b: "begins external_sampler (external_sampler @ ?t)" by (simp add: begins_split)
  have d: "drop 18 (external_sampler @ ?t) = ?t" by simp
  have n: "nonspace n" using sampler(4) name_char_nonspace by (simp add: name_char_def)
  have sp: "takeWhile c_isspace ?t = spaces" "dropWhile c_isspace ?t = n # name @ s"
    using sampler(3) n by (simp_all add: list_all_iff takeWhile_append2 dropWhile_append2)
  have nm: "takeWhile name_char (name @ s) = name" "dropWhile name_char (name @ s) = s"
    using sampler(5,6) by (cases s; simp add: list_all_iff takeWhile_append2 dropWhile_append2 takeWhile_eq_all_conv)+
  have h: "\<not> (?t \<noteq> [] \<and> nonspace (hd ?t))" using sampler(2,3) by (cases spaces) simp_all
  have st: "\<not> (n # name @ s = [] \<or> \<not> name_start_char (hd (n # name @ s)))" using sampler(4) by simp
  show ?case
    unfolding replace_samplers_begins [OF sampler(1) b] Let_def d sp if_not_P [OF h] if_not_P [OF st] list.sel nm sampler.IH
    by (simp add: sampler(4))
qed

lemma blank_extensions_length: "length (blank_extensions s) = length s"
proof (induction s rule: blank_extensions.induct)
  case (1 s)
  show ?case
  proof (cases "s = [] \<or> \<not> begins ''#extension'' s")
    case True
    with 1(3) show ?thesis by (subst blank_extensions.simps) (cases s; simp)
  next
    case False
    let ?after = "drop 10 s" and ?line = "takeWhile (\<lambda>c. of_char c \<notin> {10, 13 :: nat}) s"
    have len: "10 \<le> length s" using False begins_length [of "''#extension''" s] by simp
    have line: "length ?line \<le> length s" by (simp add: length_takeWhile_le)
    have spaces: "length (takeWhile c_isspace ?after) + length (dropWhile c_isspace ?after) = length s - 10"
      by (metis length_append length_drop takeWhile_dropWhile_id)
    note e = blank_extensions.simps [of s]
    show ?thesis
    proof (cases "begins ''GL_OES_EGL_image_external'' (dropWhile c_isspace ?after)")
      case True
      with False have "blank_extensions s = replicate (length ?line) (CHR '' '') @ blank_extensions (drop (length ?line) s)"
        by (subst e) (simp only: if_False if_True de_Morgan_disj not_not Let_def)
      moreover have "length (blank_extensions (drop (length ?line) s)) = length (drop (length ?line) s)"
        using 1(1) [OF _ _ refl refl refl refl] False True by blast
      ultimately show ?thesis using line by simp
    next
      case other: False
      with False have "blank_extensions s =
          take 10 s @ takeWhile c_isspace ?after @ blank_extensions (dropWhile c_isspace ?after)"
        by (subst e) (simp only: if_False if_True de_Morgan_disj not_not Let_def)
      moreover have "length (blank_extensions (dropWhile c_isspace ?after)) = length (dropWhile c_isspace ?after)"
        using 1(2) [OF _ _ refl refl refl refl] False other by blast
      ultimately show ?thesis using spaces len by simp
    qed
  qed
qed

text \<open>
  When the text of a shader was rewritten, it has the length it had, and no sampler for external textures is left: to
  go over the new text again changes nothing and finds no name. A sampler must not itself have the name of the type.
\<close>
lemma external_samplers_replaced:
  assumes "replaceSamplerExternalWith2D str = (Some out, names)" "external_sampler \<notin> set names"
  shows "length out = length str \<and> replace_samplers None out = (Some out, [])"
proof -
  have r: "rewritten None (blank_extensions str) out names"
    using assms(1) replace_samplers_rewritten by (simp add: replaceSamplerExternalWith2D_def)
  from rewritten_length [OF r] blank_extensions_length [of str] rewritten_replace_samplers [OF rewritten_stays [OF r assms(2)]]
  show ?thesis by simp
qed

lemma external_samplers_replaced_witness:
  "\<exists>out. replaceSamplerExternalWith2D ''uniform samplerExternalOES tex;'' = (Some out, [''tex'']) \<and>
     out = ''uniform sampler2D          tex;'' \<and> replace_samplers None out = (Some out, [])"
proof -
  have "replaceSamplerExternalWith2D ''uniform samplerExternalOES tex;'' =
      (Some ''uniform sampler2D          tex;'', [''tex''])" by code_simp
  from external_samplers_replaced [OF this] this show ?thesis by simp
qed

text \<open>A sampler with the name of the type is found again: it would be replaced the next time.\<close>

lemma sampler_named_like_type:
  "replaceSamplerExternalWith2D '' samplerExternalOES samplerExternalOES x'' =
     (Some '' sampler2D          samplerExternalOES x'', [external_sampler])"
  by code_simp

end
