(* ===== verification/Gralloc.thy ===== *)
theory Gralloc
  imports GLUtils
begin

unbundle bit_operations_syntax

text \<open>
  Graphics memory of Android (\<open>android/opengl/system/gralloc/gralloc.cpp\<close>, the handle of
  \<open>android/opengl/system/OpenglSystemCommon/gralloc_cb.h\<close>). A buffer is shared memory of the process, a colour buffer of
  the host, or both; locking reads it back from the host, unlocking sends what was changed. The state has the handles on
  the heap, the doubly linked list of the device with its nodes, the descriptors, the mappings and the memory of the
  process, and the calls to the host. What the kernel, the host and \<open>new\<close> answer to a call is a record of answers.
  Usage is the set of its bits; constants of OpenGL are names, the empty one is 0.
  Shown here: the list is a list of the buffers that are allocated; an image fits into its memory; unlocking sends the
  pixels of the rectangle that was locked; closing the device frees everything, if the host can be reached.
\<close>

section \<open>Data\<close>

datatype usage_bit =
    SW_READ | SW_WRITE | HW_TEXTURE | HW_RENDER | HW_2D | HW_COMPOSER | HW_FB | HW_VIDEO_ENCODER
  | HW_CAMERA_WRITE | HW_CAMERA_READ

type_synonym usage = "usage_bit set"

datatype hal_format =
    RGBA_8888 | RGBX_8888 | BGRA_8888 | RGB_888 | RGB_565 | RAW16 | Y16 | BLOB | YCrCb_420_SP | YV12 | YCbCr_420_888
  | IMPLEMENTATION_DEFINED | Other_Format int

text \<open>0, an error as it should be, below 0, or one that lost its sign.\<close>

datatype gr_status = GR_OK | GR_Error string | GR_Positive string

record cb_handle =
  cb_fd :: int
  cb_usage :: usage
  cb_width :: int
  cb_height :: int
  cb_frameworkFormat :: hal_format
  cb_format :: hal_format
  cb_glFormat :: glenum
  cb_glType :: glenum
  cb_ashmemSize :: int
  cb_ashmemBase :: int
  cb_ashmemBasePid :: int
  cb_mappedPid :: int
  cb_lockedLeft :: int
  cb_lockedTop :: int
  cb_lockedWidth :: int
  cb_lockedHeight :: int
  cb_hostHandle :: u32
  cb_valid :: bool

definition cb_handle_new ::
  "int \<Rightarrow> int \<Rightarrow> usage \<Rightarrow> int \<Rightarrow> int \<Rightarrow> hal_format \<Rightarrow> hal_format \<Rightarrow> glenum \<Rightarrow> glenum \<Rightarrow> cb_handle" where
  "cb_handle_new fd ashmemSize usage w h frameworkFormat format glFormat glType =
     \<lparr>cb_fd = fd, cb_usage = usage, cb_width = w, cb_height = h, cb_frameworkFormat = frameworkFormat,
      cb_format = format, cb_glFormat = glFormat, cb_glType = glType, cb_ashmemSize = ashmemSize, cb_ashmemBase = 0,
      cb_ashmemBasePid = 0, cb_mappedPid = 0, cb_lockedLeft = 0, cb_lockedTop = 0, cb_lockedWidth = 0,
      cb_lockedHeight = 0, cb_hostHandle = 0, cb_valid = True\<rparr>"

definition canBePosted :: "cb_handle \<Rightarrow> bool" where
  "canBePosted cb \<longleftrightarrow> HW_FB \<in> cb_usage cb"

datatype rc_call =
    Rc_CreateColorBuffer int int glenum
  | Rc_OpenColorBuffer2 u32
  | Rc_CloseColorBuffer u32
  | Rc_ColorBufferCacheFlush u32 int bool
  | Rc_ReadColorBuffer u32 int int int int glenum glenum
  | Rc_UpdateColorBuffer u32 int int int int glenum glenum "byte list"
  | Rc_FBPost u32
  | Rc_FBSetSwapInterval int
  | Rc_GetFBParam string

record list_node =
  nd_handle :: nat
  nd_next :: nat
  nd_prev :: nat

text \<open>Addresses of nodes and handles are numbers, 0 is the null pointer.\<close>

record gralloc =
  gr_handles :: "nat \<Rightarrow> cb_handle option"
  gr_head :: nat
  gr_nodes :: "nat \<Rightarrow> list_node option"
  gr_fds :: "int set"
  gr_maps :: "(int \<times> int) list"
  gr_mem :: "int \<Rightarrow> byte"
  gr_pid :: int
  gr_fallback :: bool
  gr_sent :: "rc_call list"

record gr_answers =
  an_connected :: bool
  an_ashmem :: "int + string"
  an_mmap :: "int + string"
  an_munmap :: bool
  an_handle :: nat
  an_node :: nat
  an_create :: u32
  an_flush :: int
  an_pixels :: "nat \<Rightarrow> byte"
  an_fallback :: gr_status

definition rc_send :: "rc_call \<Rightarrow> gralloc \<Rightarrow> gralloc" where
  "rc_send c g = g\<lparr>gr_sent := gr_sent g @ [c]\<rparr>"

definition set_handle :: "nat \<Rightarrow> cb_handle \<Rightarrow> gralloc \<Rightarrow> gralloc" where
  "set_handle i cb g = g\<lparr>gr_handles := (gr_handles g)(i \<mapsto> cb)\<rparr>"

definition close_fd :: "int \<Rightarrow> gralloc \<Rightarrow> gralloc" where
  "close_fd fd g = g\<lparr>gr_fds := gr_fds g - {fd}\<rparr>"

definition unmap :: "int \<Rightarrow> gralloc \<Rightarrow> gralloc" where
  "unmap p g = g\<lparr>gr_maps := filter (\<lambda>(q, n). q \<noteq> p) (gr_maps g)\<rparr>"

text \<open>The bytes from \<open>p\<close> on, if they lie in a mapping.\<close>

definition mapped :: "gralloc \<Rightarrow> int \<Rightarrow> nat \<Rightarrow> bool" where
  "mapped g p n \<longleftrightarrow> list_ex (\<lambda>(q, size). q \<le> p \<and> p + int n \<le> q + size) (gr_maps g)"

definition read_mem :: "gralloc \<Rightarrow> int \<Rightarrow> nat \<Rightarrow> fault + byte list" where
  "read_mem g p n =
     (if n = 0 \<or> mapped g p n then Inr (map (\<lambda>i. gr_mem g (p + int i)) [0..<n]) else Inl Undefined)"

definition write_mem :: "int \<Rightarrow> byte list \<Rightarrow> gralloc \<Rightarrow> fault + gralloc" where
  "write_mem p bs g =
     (if bs = [] \<or> mapped g p (length bs)
      then Inr (g\<lparr>gr_mem := (\<lambda>q. if p \<le> q \<and> q < p + int (length bs) then bs ! nat (q - p) else gr_mem g q)\<rparr>)
      else Inl Undefined)"

text \<open>\<open>map_buffer\<close>: the handle with the address, or the error.\<close>

definition map_buffer :: "gr_answers \<Rightarrow> nat \<Rightarrow> cb_handle \<Rightarrow> gralloc \<Rightarrow> string + gralloc" where
  "map_buffer a i cb g =
     (if cb_fd cb < 0 \<or> cb_ashmemSize cb \<le> 0 then Inl ''EINVAL''
      else case an_mmap a of
          Inr e \<Rightarrow> Inl e
        | Inl p \<Rightarrow>
            Inr (set_handle i (cb\<lparr>cb_ashmemBase := p, cb_ashmemBasePid := gr_pid g\<rparr>)
              (g\<lparr>gr_maps := (p, cb_ashmemSize cb) # gr_maps g\<rparr>)))"

section \<open>Allocating\<close>

text \<open>The format for the ends of the data's way; the bits of \<open>ZSL\<close> are those of the camera's two.\<close>

definition pick_format :: "usage \<Rightarrow> hal_format \<Rightarrow> hal_format option" where
  "pick_format usage format =
     (if format = IMPLEMENTATION_DEFINED then
        (if HW_CAMERA_WRITE \<in> usage then
           (if HW_TEXTURE \<in> usage then Some RGBA_8888
            else if HW_VIDEO_ENCODER \<in> usage then Some YCrCb_420_SP
            else if HW_CAMERA_READ \<in> usage then Some RGB_888
            else None)
         else None)
      else if format = YCbCr_420_888 then Some (if HW_CAMERA_WRITE \<in> usage then YCrCb_420_SP else format)
      else Some format)"

record layout =
  lo_bpp :: int
  lo_align :: int
  lo_yuv :: bool
  lo_glFormat :: glenum
  lo_glType :: glenum

definition format_layout :: "usage \<Rightarrow> hal_format \<Rightarrow> layout option" where
  "format_layout usage format =
     (let sw_write = SW_WRITE \<in> usage; sw_read = SW_READ \<in> usage; hw_cam_write = HW_CAMERA_WRITE \<in> usage;
          hw_cam_read = HW_CAMERA_READ \<in> usage in
      if format \<in> {RGBA_8888, RGBX_8888, BGRA_8888} then
        Some \<lparr>lo_bpp = 4, lo_align = 1, lo_yuv = False, lo_glFormat = ''GL_RGBA'', lo_glType = ''GL_UNSIGNED_BYTE''\<rparr>
      else if format = RGB_888 then
        Some \<lparr>lo_bpp = 3, lo_align = 1, lo_yuv = False, lo_glFormat = ''GL_RGB'', lo_glType = ''GL_UNSIGNED_BYTE''\<rparr>
      else if format = RGB_565 then
        Some \<lparr>lo_bpp = 2, lo_align = 1, lo_yuv = False, lo_glFormat = ''GL_RGB'',
              lo_glType = ''GL_UNSIGNED_SHORT_5_6_5''\<rparr>
      else if format \<in> {RAW16, Y16} then
        (if \<not> ((sw_read \<or> hw_cam_read) \<and> (sw_write \<or> hw_cam_write)) then None
         else Some \<lparr>lo_bpp = 2, lo_align = 32, lo_yuv = False, lo_glFormat = ''GL_LUMINANCE'',
                    lo_glType = ''GL_UNSIGNED_SHORT''\<rparr>)
      else if format = BLOB then
        (if \<not> (sw_read \<and> hw_cam_write) then None
         else Some \<lparr>lo_bpp = 1, lo_align = 1, lo_yuv = False, lo_glFormat = ''GL_LUMINANCE'',
                    lo_glType = ''GL_UNSIGNED_BYTE''\<rparr>)
      else if format = YCrCb_420_SP then
        Some \<lparr>lo_bpp = 1, lo_align = 1, lo_yuv = True, lo_glFormat = '''', lo_glType = ''''\<rparr>
      else if format = YV12 then
        Some \<lparr>lo_bpp = 1, lo_align = 16, lo_yuv = True, lo_glFormat = '''', lo_glType = ''''\<rparr>
      else None)"

text \<open>Strides are \<open>size_t\<close>, the size of the memory is an \<open>int\<close>; an overflow of \<open>int\<close> is taken to wrap.\<close>

definition align_up :: "int \<Rightarrow> int \<Rightarrow> int" where
  "align_up n align = (n + (align - 1)) AND NOT (align - 1)"

text \<open>The size of the memory before it is rounded to pages, and the stride in pixels.\<close>

definition image_size :: "usage \<Rightarrow> layout \<Rightarrow> int \<Rightarrow> int \<Rightarrow> int \<times> int" where
  "image_size usage lo w h =
     (let counter = (if HW_FB \<in> usage then 4 else 0) in
      if usage \<inter> {SW_READ, SW_WRITE, HW_CAMERA_WRITE, HW_VIDEO_ENCODER} = {} then (counter, w)
      else if lo_yuv lo then
        let yStride = int32 (align_up (w * lo_bpp lo) (lo_align lo)) mod 2 ^ 64;
            uvStride = align_up (yStride div 2) (lo_align lo) mod 2 ^ 64;
            uvHeight = (if h < 0 then - ((- h) div 2) else h div 2) mod 2 ^ 64
        in (int32 (counter + (yStride * h + 2 * (uvHeight * uvStride))), int32 (yStride div lo_bpp lo))
      else
        let bpr = int32 (align_up (w * lo_bpp lo) (lo_align lo)) mod 2 ^ 64
        in (int32 (counter + bpr * h), int32 (bpr div lo_bpp lo)))"

abbreviation PAGE_SIZE :: int where
  "PAGE_SIZE \<equiv> 4096"

definition host_usage :: usage where
  "host_usage = {HW_TEXTURE, HW_RENDER, HW_2D, HW_COMPOSER, HW_FB, SW_READ}"

definition list_insert :: "nat \<Rightarrow> nat \<Rightarrow> gralloc \<Rightarrow> gralloc" where
  "list_insert node handle g =
     (let nodes = (gr_nodes g)(node \<mapsto> \<lparr>nd_handle = handle, nd_next = gr_head g, nd_prev = 0\<rparr>);
          nodes = (if gr_head g \<noteq> 0
                   then nodes(gr_head g := map_option (\<lambda>n. n\<lparr>nd_prev := node\<rparr>) (nodes (gr_head g))) else nodes)
      in g\<lparr>gr_nodes := nodes, gr_head := node\<rparr>)"

text \<open>The shared memory of a new handle: its descriptor, if it has one.\<close>

definition alloc_memory :: "gr_answers \<Rightarrow> int \<Rightarrow> gralloc \<Rightarrow> string + int \<times> gralloc" where
  "alloc_memory a ashmem_size g =
     (if ashmem_size > 0
      then case an_ashmem a of Inr e \<Rightarrow> Inl e | Inl fd \<Rightarrow> Inr (fd, g\<lparr>gr_fds := insert fd (gr_fds g)\<rparr>)
      else Inr (-1, g))"

definition map_new :: "gr_answers \<Rightarrow> nat \<Rightarrow> cb_handle \<Rightarrow> gralloc \<Rightarrow> string + gralloc" where
  "map_new a i cb g =
     (if cb_ashmemSize cb > 0 then map_buffer a i cb (set_handle i cb g) else Inr (set_handle i cb g))"

text \<open>The colour buffer on the host; its handle is 0 when there is none.\<close>

definition create_host_buffer :: "gr_answers \<Rightarrow> nat \<Rightarrow> gralloc \<Rightarrow> gralloc" where
  "create_host_buffer a i g =
     (case gr_handles g i of
        None \<Rightarrow> g
      | Some cb \<Rightarrow>
          if an_connected a
          then set_handle i (cb\<lparr>cb_hostHandle := an_create a\<rparr>)
                 (rc_send (Rc_CreateColorBuffer (cb_width cb) (cb_height cb) (cb_glFormat cb)) g)
          else g)"

definition host_handle :: "gralloc \<Rightarrow> nat \<Rightarrow> u32" where
  "host_handle g i = (case gr_handles g i of None \<Rightarrow> 0 | Some cb \<Rightarrow> cb_hostHandle cb)"

text \<open>The new handle with its memory and its colour buffer, or the error and what is left.\<close>

definition new_buffer :: "gr_answers \<Rightarrow> nat \<Rightarrow> cb_handle \<Rightarrow> gralloc \<Rightarrow> (gr_status \<times> gralloc) + gralloc" where
  "new_buffer a i cb g =
     (case map_new a i cb g of
        Inl e \<Rightarrow> Inl (GR_Error e, close_fd (cb_fd cb) g)
      | Inr g \<Rightarrow>
          if cb_usage cb \<inter> host_usage = {} then Inr g
          else
            let g = create_host_buffer a i g in
            if host_handle g i = 0
            then Inl (GR_Error ''EIO'', (close_fd (cb_fd cb) g)\<lparr>gr_handles := (gr_handles g)(i := None)\<rparr>)
            else Inr g)"

text \<open>The status, with the handle and the stride on success. \<open>ok\<close>: the pointers of the arguments are not null.\<close>

definition gralloc_alloc ::
  "gr_answers \<Rightarrow> bool \<Rightarrow> int \<Rightarrow> int \<Rightarrow> hal_format \<Rightarrow> usage \<Rightarrow> gralloc \<Rightarrow> (gr_status \<times> (nat \<times> int) option) \<times> gralloc" where
  "gralloc_alloc a ok w h frameworkFormat usage g =
     (if \<not> ok then ((GR_Error ''EINVAL'', None), g)
      else case pick_format usage frameworkFormat of
          None \<Rightarrow> ((GR_Error ''EINVAL'', None), g)
        | Some format \<Rightarrow>
            (case format_layout usage format of
               None \<Rightarrow> ((GR_Error ''EINVAL'', None), g)
             | Some lo \<Rightarrow>
                 (case image_size usage lo w h of
                    (ashmem_size, stride) \<Rightarrow>
                      let ashmem_size = (if ashmem_size > 0 then int32 (align_up ashmem_size PAGE_SIZE) else ashmem_size) in
                      (case alloc_memory a ashmem_size g of
                         Inl e \<Rightarrow> ((GR_Error e, None), g)
                       | Inr (fd, g) \<Rightarrow>
                           let i = an_handle a;
                               cb = cb_handle_new fd ashmem_size usage w h frameworkFormat format (lo_glFormat lo)
                                      (lo_glType lo)
                           in case new_buffer a i cb g of
                                Inl (status, g) \<Rightarrow> ((status, None), g)
                              | Inr g \<Rightarrow>
                                  ((GR_OK, Some (i, if frameworkFormat = YCbCr_420_888 then 0 else stride)),
                                   list_insert (an_node a) i g)))))"

section \<open>Freeing\<close>

text \<open>A deleted handle has lost its magic number; an address without a handle counts as such.\<close>

definition valid_handle :: "nat \<Rightarrow> gralloc \<Rightarrow> bool" where
  "valid_handle i g \<longleftrightarrow> (case gr_handles g i of None \<Rightarrow> False | Some cb \<Rightarrow> cb_valid cb)"

text \<open>The walk along the list for the node of a handle, 0 when it ends. No result: it does not end, or meets a node that
  was deleted.\<close>

partial_function (option) find_node :: "(nat \<Rightarrow> list_node option) \<Rightarrow> nat \<Rightarrow> nat \<Rightarrow> nat option" where
  "find_node nodes n h =
     (if n = 0 then Some 0
      else case nodes n of
          None \<Rightarrow> None
        | Some nd \<Rightarrow> if nd_handle nd = h then Some n else find_node nodes (nd_next nd) h)"

definition list_unlink :: "nat \<Rightarrow> gralloc \<Rightarrow> gralloc" where
  "list_unlink n g =
     (case gr_nodes g n of
        None \<Rightarrow> g
      | Some nd \<Rightarrow>
          let nodes = (if nd_next nd \<noteq> 0
                 then (gr_nodes g)(nd_next nd := map_option (\<lambda>m. m\<lparr>nd_prev := nd_prev nd\<rparr>) (gr_nodes g (nd_next nd)))
                 else gr_nodes g);
              g = (if nd_prev nd \<noteq> 0
                 then g\<lparr>gr_nodes := nodes(nd_prev nd := map_option (\<lambda>m. m\<lparr>nd_next := nd_next nd\<rparr>) (nodes (nd_prev nd)))\<rparr>
                 else g\<lparr>gr_nodes := nodes, gr_head := nd_next nd\<rparr>)
          in g\<lparr>gr_nodes := (gr_nodes g)(n := None)\<rparr>)"

definition release_memory :: "cb_handle \<Rightarrow> gralloc \<Rightarrow> gralloc" where
  "release_memory cb g =
     (if cb_fd cb > 0
      then close_fd (cb_fd cb)
             (if cb_ashmemSize cb > 0 \<and> cb_ashmemBase cb \<noteq> 0 then unmap (cb_ashmemBase cb) g else g)
      else g)"

definition gralloc_free :: "gr_answers \<Rightarrow> nat \<Rightarrow> gralloc \<Rightarrow> (gr_status \<times> gralloc) option" where
  "gralloc_free a i g =
     (case gr_handles g i of
        None \<Rightarrow> Some (GR_Error ''EINVAL'', g)
      | Some cb \<Rightarrow>
          if \<not> cb_valid cb then Some (GR_Error ''EINVAL'', g)
          else if cb_hostHandle cb \<noteq> 0 \<and> \<not> an_connected a then Some (GR_Error ''EIO'', g)
          else
            let g = (if cb_hostHandle cb \<noteq> 0 then rc_send (Rc_CloseColorBuffer (cb_hostHandle cb)) g else g);
                g = release_memory cb g
            in case find_node (gr_nodes g) (gr_head g) i of
                 None \<Rightarrow> None
               | Some n \<Rightarrow>
                   let g = (if n \<noteq> 0 then list_unlink n g else g)
                   in Some (GR_OK, g\<lparr>gr_handles := (gr_handles g)(i := None)\<rparr>))"

text \<open>The \<open>k\<close>-th buffer gets the \<open>k\<close>-th answers.\<close>

partial_function (option) gralloc_device_close :: "(nat \<Rightarrow> gr_answers) \<Rightarrow> nat \<Rightarrow> gralloc \<Rightarrow> gralloc option" where
  "gralloc_device_close answers k g =
     (if gr_head g = 0 then Some g
      else case gr_nodes g (gr_head g) of
          None \<Rightarrow> None
        | Some nd \<Rightarrow>
            (case gralloc_free (answers k) (nd_handle nd) g of
               None \<Rightarrow> None
             | Some (_, g) \<Rightarrow> gralloc_device_close answers (Suc k) g))"

section \<open>Buffers of other processes\<close>

text \<open>\<open>getpid () = gr_pid\<close>. With a fallback module its answer is passed on.\<close>

definition gralloc_register_buffer :: "gr_answers \<Rightarrow> nat \<Rightarrow> gralloc \<Rightarrow> gr_status \<times> gralloc" where
  "gralloc_register_buffer a i g =
     (if gr_fallback g then (an_fallback a, g)
      else case gr_handles g i of
          None \<Rightarrow> (GR_Error ''EINVAL'', g)
        | Some cb \<Rightarrow>
            if \<not> cb_valid cb then (GR_Error ''EINVAL'', g)
            else if cb_hostHandle cb \<noteq> 0 \<and> \<not> an_connected a then (GR_Error ''EIO'', g)
            else
              let g = (if cb_hostHandle cb \<noteq> 0 then rc_send (Rc_OpenColorBuffer2 (cb_hostHandle cb)) g else g) in
              if cb_ashmemSize cb > 0 \<and> cb_mappedPid cb \<noteq> gr_pid g
              then case map_buffer a i cb g of
                  Inl e \<Rightarrow> (GR_Positive e, g)
                | Inr g \<Rightarrow>
                    (GR_OK, g\<lparr>gr_handles := (gr_handles g)(i :=
                       map_option (\<lambda>cb. cb\<lparr>cb_mappedPid := gr_pid g\<rparr>) (gr_handles g i))\<rparr>)
              else (GR_OK, g))"

definition gralloc_unregister_buffer :: "gr_answers \<Rightarrow> nat \<Rightarrow> gralloc \<Rightarrow> gr_status \<times> gralloc" where
  "gralloc_unregister_buffer a i g =
     (if gr_fallback g then (an_fallback a, g)
      else case gr_handles g i of
          None \<Rightarrow> (GR_Error ''EINVAL'', g)
        | Some cb \<Rightarrow>
            if \<not> cb_valid cb then (GR_Error ''EINVAL'', g)
            else if cb_hostHandle cb \<noteq> 0 \<and> \<not> an_connected a then (GR_Error ''EIO'', g)
            else
              let g = (if cb_hostHandle cb \<noteq> 0 then rc_send (Rc_CloseColorBuffer (cb_hostHandle cb)) g else g) in
              if cb_ashmemSize cb > 0 \<and> cb_mappedPid cb = gr_pid g
              then (if \<not> an_munmap a then (GR_Error ''EINVAL'', g)
                    else (GR_OK, set_handle i (cb\<lparr>cb_ashmemBase := 0, cb_mappedPid := 0\<rparr>)
                                   (unmap (cb_ashmemBase cb) g)))
              else (GR_OK, g))"

section \<open>Locking\<close>

definition signed_of_le :: "byte list \<Rightarrow> int" where
  "signed_of_le bs =
     (let n = foldr (\<lambda>b n. uint b + 256 * n) bs 0; m = 256 ^ length bs in if 2 * n < m then n else n - m)"

definition le_of :: "nat \<Rightarrow> int \<Rightarrow> byte list" where
  "le_of k n = map (\<lambda>i. word_of_int (n div 256 ^ i)) [0..<k]"

text \<open>The bytes the encoder transfers for an image (\<open>renderControl_enc.cpp\<close>).\<close>

definition pixels_length :: "int \<Rightarrow> int \<Rightarrow> glenum \<Rightarrow> glenum \<Rightarrow> nat" where
  "pixels_length w h format type =
     nat ((int (glUtilsPixelBitSize format type) * w div 8 * h) mod 2 ^ 32)"

definition lock_allowed :: "usage \<Rightarrow> usage \<Rightarrow> bool" where
  "lock_allowed usage allowed \<longleftrightarrow>
     \<not> (HW_TEXTURE \<in> usage \<or> HW_RENDER \<in> usage
        \<or> usage \<inter> {SW_READ, SW_WRITE, HW_CAMERA_WRITE, HW_CAMERA_READ, HW_VIDEO_ENCODER} = {}
        \<or> (SW_READ \<in> usage \<and> SW_READ \<notin> allowed)
        \<or> (SW_WRITE \<in> usage \<and> SW_WRITE \<notin> allowed))"

text \<open>The counter at the start of the memory of a buffer that can be posted is a word of 8 bytes for \<open>gralloc_lock\<close>.\<close>

definition lock_address :: "cb_handle \<Rightarrow> gralloc \<Rightarrow> fault + int \<times> int" where
  "lock_address cb g =
     (if canBePosted cb
      then case read_mem g (cb_ashmemBase cb) 8 of
          Inl e \<Rightarrow> Inl e
        | Inr bs \<Rightarrow> Inr (signed_of_le bs, cb_ashmemBase cb + 8)
      else Inr (0, cb_ashmemBase cb))"

text \<open>The image of the host replaces the one in memory.\<close>

definition read_back :: "gr_answers \<Rightarrow> cb_handle \<Rightarrow> int \<Rightarrow> gralloc \<Rightarrow> fault + gralloc" where
  "read_back a cb p g =
     write_mem p (map (an_pixels a) [0..<pixels_length (cb_width cb) (cb_height cb) (cb_glFormat cb) (cb_glType cb)])
       (rc_send (Rc_ReadColorBuffer (cb_hostHandle cb) 0 0 (cb_width cb) (cb_height cb) (cb_glFormat cb) (cb_glType cb)) g)"

definition lock_on_host :: "gr_answers \<Rightarrow> cb_handle \<Rightarrow> usage \<Rightarrow> int \<Rightarrow> int \<Rightarrow> gralloc \<Rightarrow> fault + gr_status \<times> gralloc" where
  "lock_on_host a cb usage postCount p g =
     (if cb_hostHandle cb = 0 then Inr (GR_OK, g)
      else if \<not> an_connected a then Inr (GR_Error ''EIO'', g)
      else
        let sw_read = SW_READ \<in> usage;
            g = rc_send (Rc_ColorBufferCacheFlush (cb_hostHandle cb) (int32 postCount) sw_read) g in
        if an_flush a < 0 then Inr (GR_Error ''EBUSY'', g)
        else if sw_read then (case read_back a cb p g of Inl e \<Rightarrow> Inl e | Inr g \<Rightarrow> Inr (GR_OK, g))
        else Inr (GR_OK, g))"

definition keep_locked :: "int \<Rightarrow> int \<Rightarrow> int \<Rightarrow> int \<Rightarrow> nat \<Rightarrow> cb_handle \<Rightarrow> gralloc \<Rightarrow> gralloc" where
  "keep_locked l t w h i cb g =
     set_handle i (cb\<lparr>cb_lockedLeft := l, cb_lockedTop := t, cb_lockedWidth := w, cb_lockedHeight := h\<rparr>) g"

definition gralloc_lock ::
  "gr_answers \<Rightarrow> nat \<Rightarrow> usage \<Rightarrow> int \<Rightarrow> int \<Rightarrow> int \<Rightarrow> int \<Rightarrow> gralloc \<Rightarrow> fault + (gr_status \<times> int option) \<times> gralloc" where
  "gralloc_lock a i usage l t w h g =
     (if gr_fallback g then Inr ((an_fallback a, None), g)
      else case gr_handles g i of
          None \<Rightarrow> Inr ((GR_Error ''EINVAL'', None), g)
        | Some cb \<Rightarrow>
            if \<not> cb_valid cb \<or> cb_frameworkFormat cb = YCbCr_420_888 \<or> \<not> lock_allowed usage (cb_usage cb)
            then Inr ((GR_Error ''EINVAL'', None), g)
            else if cb_ashmemBasePid cb \<noteq> gr_pid g \<or> cb_ashmemBase cb = 0
            then Inr ((GR_Error ''EACCES'', None), g)
            else
              (case lock_address cb g of
                 Inl e \<Rightarrow> Inl e
               | Inr (postCount, p) \<Rightarrow>
                   (case lock_on_host a cb usage postCount p g of
                      Inl e \<Rightarrow> Inl e
                    | Inr (GR_OK, g) \<Rightarrow>
                        Inr ((GR_OK, Some p),
                             if SW_WRITE \<in> usage \<or> HW_CAMERA_WRITE \<in> usage then keep_locked l t w h i cb g else g)
                    | Inr (status, g) \<Rightarrow> Inr ((status, None), g))))"

text \<open>\<open>gralloc_unlock\<close> and \<open>gralloc_lock_ycbcr\<close> step over a counter of 4 bytes.\<close>

definition unlock_address :: "cb_handle \<Rightarrow> int" where
  "unlock_address cb = (if canBePosted cb then cb_ashmemBase cb + 4 else cb_ashmemBase cb)"

definition bytes_per_pixel :: "cb_handle \<Rightarrow> nat" where
  "bytes_per_pixel cb = glUtilsPixelBitSize (cb_glFormat cb) (cb_glType cb) div 8"

text \<open>The rows of the rectangle, one after the other.\<close>

primrec copy_rows :: "gralloc \<Rightarrow> int \<Rightarrow> int \<Rightarrow> nat \<Rightarrow> nat \<Rightarrow> fault + byte list" where
  "copy_rows g src src_line_len dst_line_len 0 = Inr []"
| "copy_rows g src src_line_len dst_line_len (Suc rows) =
     (case read_mem g src dst_line_len of
        Inl e \<Rightarrow> Inl e
      | Inr row \<Rightarrow>
          (case copy_rows g (src + src_line_len) src_line_len dst_line_len rows of
             Inl e \<Rightarrow> Inl e
           | Inr rest \<Rightarrow> Inr (row @ rest)))"

text \<open>A negative size is refused by \<open>new []\<close>; with two negative sides no row is copied into an array that is sent as it
  was.\<close>

definition locked_pixels :: "cb_handle \<Rightarrow> gralloc \<Rightarrow> fault + byte list" where
  "locked_pixels cb g =
     (let bpp = int (bytes_per_pixel cb); src_line_len = cb_width cb * bpp in
      if cb_lockedWidth cb * cb_lockedHeight cb * bpp < 0 then Inl (Runtime_Error ''bad_array_new_length'')
      else if cb_lockedHeight cb < 0 \<and> cb_lockedWidth cb < 0 \<and> bpp \<noteq> 0 then Inl Undefined
      else copy_rows g (unlock_address cb + cb_lockedTop cb * src_line_len + cb_lockedLeft cb * bpp) src_line_len
             (nat (cb_lockedWidth cb * bpp)) (nat (cb_lockedHeight cb)))"

definition unlock_call :: "cb_handle \<Rightarrow> gralloc \<Rightarrow> fault + rc_call" where
  "unlock_call cb g =
     (if cb_lockedWidth cb < cb_width cb \<or> cb_lockedHeight cb < cb_height cb
      then case locked_pixels cb g of
          Inl e \<Rightarrow> Inl e
        | Inr pixels \<Rightarrow>
            Inr (Rc_UpdateColorBuffer (cb_hostHandle cb) (cb_lockedLeft cb) (cb_lockedTop cb) (cb_lockedWidth cb)
                   (cb_lockedHeight cb) (cb_glFormat cb) (cb_glType cb) pixels)
      else case read_mem g (unlock_address cb)
                  (pixels_length (cb_width cb) (cb_height cb) (cb_glFormat cb) (cb_glType cb)) of
          Inl e \<Rightarrow> Inl e
        | Inr pixels \<Rightarrow>
            Inr (Rc_UpdateColorBuffer (cb_hostHandle cb) 0 0 (cb_width cb) (cb_height cb) (cb_glFormat cb)
                   (cb_glType cb) pixels))"

definition gralloc_unlock :: "gr_answers \<Rightarrow> nat \<Rightarrow> gralloc \<Rightarrow> fault + gr_status \<times> gralloc" where
  "gralloc_unlock a i g =
     (if gr_fallback g then Inr (an_fallback a, g)
      else case gr_handles g i of
          None \<Rightarrow> Inr (GR_Error ''EINVAL'', g)
        | Some cb \<Rightarrow>
            if \<not> cb_valid cb then Inr (GR_Error ''EINVAL'', g)
            else if cb_hostHandle cb \<noteq> 0 \<and> \<not> an_connected a then Inr (GR_Error ''EIO'', g)
            else
              let unlocked = set_handle i (cb\<lparr>cb_lockedWidth := 0, cb_lockedHeight := 0\<rparr>) in
              if cb_hostHandle cb = 0 then Inr (GR_OK, unlocked g)
              else case unlock_call cb g of
                  Inl e \<Rightarrow> Inl e
                | Inr c \<Rightarrow> Inr (GR_OK, unlocked (rc_send c g)))"

record ycbcr =
  yc_y :: int
  yc_cb :: int
  yc_cr :: int
  yc_ystride :: int
  yc_cstride :: int
  yc_chroma_step :: int

definition gralloc_lock_ycbcr ::
  "bool \<Rightarrow> nat \<Rightarrow> usage \<Rightarrow> int \<Rightarrow> int \<Rightarrow> int \<Rightarrow> int \<Rightarrow> gralloc \<Rightarrow> (gr_status \<times> ycbcr option) \<times> gralloc" where
  "gralloc_lock_ycbcr ok i usage l t w h g =
     (if gr_fallback g \<or> \<not> ok then ((GR_Error ''EINVAL'', None), g)
      else case gr_handles g i of
          None \<Rightarrow> ((GR_Error ''EINVAL'', None), g)
        | Some cb \<Rightarrow>
            if \<not> cb_valid cb \<or> cb_frameworkFormat cb \<noteq> YCbCr_420_888
               \<or> (HW_CAMERA_WRITE \<notin> usage \<and> SW_READ \<notin> usage) \<or> (SW_READ \<in> usage \<and> SW_READ \<notin> cb_usage cb)
            then ((GR_Error ''EINVAL'', None), g)
            else if cb_ashmemBasePid cb \<noteq> gr_pid g \<or> cb_ashmemBase cb = 0 then ((GR_Error ''EACCES'', None), g)
            else if cb_format cb \<noteq> YCrCb_420_SP then ((GR_Error ''EINVAL'', None), g)
            else
              let p = unlock_address cb; stride = cb_width cb mod 2 ^ 64;
                  v = stride * cb_height cb mod 2 ^ 64
              in ((GR_OK, Some \<lparr>yc_y = p, yc_cb = (p + (v + 1)) mod 2 ^ 64, yc_cr = (p + v) mod 2 ^ 64,
                                yc_ystride = stride, yc_cstride = stride, yc_chroma_step = 2\<rparr>),
                  keep_locked l t w h i cb g))"

section \<open>The frame buffer device\<close>

text \<open>The post counter is the word at the start of the memory.\<close>

definition fb_post :: "gr_answers \<Rightarrow> nat \<Rightarrow> gralloc \<Rightarrow> fault + gr_status \<times> gralloc" where
  "fb_post a i g =
     (case gr_handles g i of
        None \<Rightarrow> Inr (GR_Error ''EINVAL'', g)
      | Some cb \<Rightarrow>
          if \<not> cb_valid cb \<or> \<not> canBePosted cb then Inr (GR_Error ''EINVAL'', g)
          else if \<not> an_connected a then Inr (GR_Error ''EIO'', g)
          else if cb_ashmemBase cb = 0 then Inr (GR_Error ''EINVAL'', g)
          else
            (case read_mem g (cb_ashmemBase cb) 8 of
               Inl e \<Rightarrow> Inl e
             | Inr bs \<Rightarrow>
                 (case write_mem (cb_ashmemBase cb) (le_of 8 (signed_of_le bs + 1)) g of
                    Inl e \<Rightarrow> Inl e
                  | Inr g \<Rightarrow> Inr (GR_OK, rc_send (Rc_FBPost (cb_hostHandle cb)) g))))"

definition fb_setUpdateRect :: "gr_answers \<Rightarrow> gralloc \<Rightarrow> gr_status \<times> gralloc" where
  "fb_setUpdateRect a g = (if an_connected a then (GR_OK, g) else (GR_Error ''EIO'', g))"

definition fb_setSwapInterval :: "gr_answers \<Rightarrow> int \<Rightarrow> gralloc \<Rightarrow> gr_status \<times> gralloc" where
  "fb_setSwapInterval a interval g =
     (if an_connected a then (GR_OK, rc_send (Rc_FBSetSwapInterval interval) g) else (GR_Error ''EIO'', g))"

section \<open>Opening the devices\<close>

datatype gr_device = Alloc_Device | Fb_Device "string \<Rightarrow> int"

definition fb_params :: "string list" where
  "fb_params =
     [''FB_WIDTH'', ''FB_HEIGHT'', ''FB_XDPI'', ''FB_YDPI'', ''FB_FPS'', ''FB_MIN_SWAP_INTERVAL'',
      ''FB_MAX_SWAP_INTERVAL'']"

text \<open>\<open>host\<close> answers \<open>rcGetFBParam\<close>. Opening the allocator only asks whether there is a connection; \<open>memory\<close>:
  \<open>malloc\<close> has memory.\<close>

definition gralloc_device_open ::
  "gr_answers \<Rightarrow> bool \<Rightarrow> (string \<Rightarrow> int) \<Rightarrow> string \<Rightarrow> gralloc \<Rightarrow> (gr_status \<times> gr_device option) \<times> gralloc" where
  "gralloc_device_open a memory host name g =
     (if gr_fallback g then ((an_fallback a, None), g)
      else if name = ''gpu0'' then
        (if \<not> an_connected a then ((GR_Error ''EIO'', None), g)
         else if \<not> memory then ((GR_Error ''ENOMEM'', None), g)
         else ((GR_OK, Some Alloc_Device), g\<lparr>gr_head := 0\<rparr>))
      else if name = ''fb0'' then
        (if \<not> an_connected a then ((GR_Error ''EIO'', None), g)
         else
           let g = fold (\<lambda>p. rc_send (Rc_GetFBParam p)) fb_params g in
           if \<not> memory then ((GR_Error ''ENOMEM'', None), g)
           else ((GR_OK, Some (Fb_Device host)), g))
      else ((GR_Error ''EINVAL'', None), g))"

text \<open>\<open>prop\<close> is the number in the property of the emulator, 0 when it is not set; \<open>module\<close>: the library was found and has
  the symbol.\<close>

definition fallback_init :: "int \<Rightarrow> bool \<Rightarrow> gralloc \<Rightarrow> gralloc" where
  "fallback_init prop module g = (if prop = 1 then g else g\<lparr>gr_fallback := module\<rparr>)"

section \<open>The list of the buffers\<close>

text \<open>\<open>chain nodes p n ns\<close>: from \<open>n\<close> on the nodes are \<open>ns\<close>, the one before is \<open>p\<close>.\<close>

primrec chain :: "(nat \<Rightarrow> list_node option) \<Rightarrow> nat \<Rightarrow> nat \<Rightarrow> nat list \<Rightarrow> bool" where
  "chain nodes p n [] \<longleftrightarrow> n = 0"
| "chain nodes p n (x # xs) \<longleftrightarrow>
     n = x \<and> x \<noteq> 0 \<and>
     (case nodes x of None \<Rightarrow> False | Some nd \<Rightarrow> nd_prev nd = p \<and> chain nodes x (nd_next nd) xs)"

definition node_handle :: "gralloc \<Rightarrow> nat \<Rightarrow> nat" where
  "node_handle g n = (case gr_nodes g n of None \<Rightarrow> 0 | Some nd \<Rightarrow> nd_handle nd)"

definition chained :: "gralloc \<Rightarrow> nat list \<Rightarrow> nat list \<Rightarrow> bool" where
  "chained g ns hs \<longleftrightarrow>
     chain (gr_nodes g) 0 (gr_head g) ns \<and> distinct ns \<and> dom (gr_nodes g) = set ns \<and>
     map (node_handle g) ns = hs \<and> distinct hs"

text \<open>The list of the device, as the handles that are on it; all of them live.\<close>

definition alloc_list :: "gralloc \<Rightarrow> nat list \<Rightarrow> bool" where
  "alloc_list g hs \<longleftrightarrow> (\<exists>ns. chained g ns hs) \<and> (\<forall>h \<in> set hs. valid_handle h g)"

lemma chain_cong: "\<forall>x \<in> set ns. nodes' x = nodes x \<Longrightarrow> chain nodes p n ns \<Longrightarrow> chain nodes' p n ns"
  by (induction ns arbitrary: p n) (auto split: option.splits)

lemma chain_nonzero: "chain nodes p n ns \<Longrightarrow> 0 \<notin> set ns"
  by (induction ns arbitrary: p n) (auto split: option.splits)

lemma chain_start: "chain nodes p n ns \<Longrightarrow> n = hd (ns @ [0])"
  by (cases ns) simp_all

lemma chain_set_prev:
  assumes "chain nodes p n ns" "distinct ns"
  shows "chain (if n \<noteq> 0 then nodes(n := map_option (\<lambda>m. m\<lparr>nd_prev := q\<rparr>) (nodes n)) else nodes) q n ns"
proof (cases ns)
  case (Cons x xs)
  then obtain nd where nd: "n = x" "x \<noteq> 0" "nodes x = Some nd" "chain nodes x (nd_next nd) xs"
    using assms(1) by (auto split: option.splits)
  have "chain (nodes(x := Some (nd\<lparr>nd_prev := q\<rparr>))) x (nd_next nd) xs"
    using assms(2) Cons by (intro chain_cong [OF _ nd(4)]) auto
  then show ?thesis using nd Cons by simp
qed (use assms in simp)

lemma chain_middle:
  "chain nodes p n (xs @ m # ys) \<Longrightarrow>
     \<exists>nd. nodes m = Some nd \<and> nd_prev nd = last (p # xs) \<and> nd_next nd = hd (ys @ [0])"
proof (induction xs arbitrary: p n)
  case Nil
  then show ?case by (auto split: option.splits dest: chain_start)
next
  case (Cons x xs)
  then show ?case by (auto split: option.splits if_splits)
qed

definition unlinked :: "(nat \<Rightarrow> list_node option) \<Rightarrow> nat \<Rightarrow> list_node \<Rightarrow> nat \<Rightarrow> list_node option" where
  "unlinked nodes m nd =
     (let nodes = (if nd_next nd \<noteq> 0
            then nodes(nd_next nd := map_option (\<lambda>k. k\<lparr>nd_prev := nd_prev nd\<rparr>) (nodes (nd_next nd))) else nodes);
          nodes = (if nd_prev nd \<noteq> 0
            then nodes(nd_prev nd := map_option (\<lambda>k. k\<lparr>nd_next := nd_next nd\<rparr>) (nodes (nd_prev nd))) else nodes)
      in nodes(m := None))"

lemma list_unlink_eq:
  "gr_nodes g m = Some nd \<Longrightarrow>
     list_unlink m g =
       g\<lparr>gr_nodes := unlinked (gr_nodes g) m nd, gr_head := (if nd_prev nd = 0 then nd_next nd else gr_head g)\<rparr>"
  by (simp add: list_unlink_def unlinked_def Let_def)

lemma unlinked_other: "x \<notin> {m, nd_next nd, nd_prev nd} \<Longrightarrow> unlinked nodes m nd x = nodes x"
  by (simp add: unlinked_def Let_def)

lemma unlink_chain:
  "chain nodes p n (xs @ m # ys) \<Longrightarrow> distinct (p # xs @ m # ys) \<Longrightarrow> nodes m = Some nd \<Longrightarrow>
     chain (unlinked nodes m nd) p (if xs = [] then nd_next nd else n) (xs @ ys)"
proof (induction xs arbitrary: p n)
  case Nil
  then have c: "nd_prev nd = p" "chain nodes m (nd_next nd) ys" by simp_all
  from chain_start [OF c(2)] have nx: "nd_next nd = 0 \<or> nd_next nd \<in> set ys" by (cases ys) simp_all
  let ?nodes = "if nd_next nd \<noteq> 0
    then nodes(nd_next nd := map_option (\<lambda>k. k\<lparr>nd_prev := p\<rparr>) (nodes (nd_next nd))) else nodes"
  have "chain ?nodes p (nd_next nd) ys" by (rule chain_set_prev [OF c(2)]) (use Nil in simp)
  moreover have "\<forall>x \<in> set ys. unlinked nodes m nd x = ?nodes x"
    using Nil(2) c(1) by (auto simp: unlinked_def Let_def)
  ultimately show ?case by (auto intro: chain_cong)
next
  case (Cons x xs)
  then obtain nx where x: "n = x" "x \<noteq> 0" "nodes x = Some nx" "nd_prev nx = p" "chain nodes x (nd_next nx) (xs @ m # ys)"
    by (auto split: option.splits)
  have ih: "chain (unlinked nodes m nd) x (if xs = [] then nd_next nd else nd_next nx) (xs @ ys)"
    by (rule Cons.IH [OF x(5)]) (use Cons.prems in simp_all)
  obtain nd' where "nodes m = Some nd'" "nd_prev nd' = last (x # xs)" "nd_next nd' = hd (ys @ [0])"
    using chain_middle [OF x(5)] by blast
  then have nd: "nd_prev nd = last (x # xs)" "nd_next nd = hd (ys @ [0])" using Cons.prems(3) by simp_all
  have "nd_next nd \<noteq> x" using Cons.prems(2) x(2) nd(2) by (cases ys) auto
  moreover have "x \<noteq> m" using Cons.prems(2) by simp
  moreover have "xs \<noteq> [] \<Longrightarrow> nd_prev nd \<noteq> x" using Cons.prems(2) nd(1) by (auto dest: last_in_set)
  ultimately have "unlinked nodes m nd x = Some (if xs = [] then nx\<lparr>nd_next := nd_next nd\<rparr> else nx)"
    using x(2,3) nd(1) by (cases "xs = []") (simp_all add: unlinked_def Let_def)
  then show ?case using ih x by (cases "xs = []") simp_all
qed

lemma unlinked_handle:
  "nodes m = Some nd \<Longrightarrow> x \<noteq> m \<Longrightarrow> map_option nd_handle (unlinked nodes m nd x) = map_option nd_handle (nodes x)"
  by (auto simp: unlinked_def Let_def option.map_comp comp_def)

lemma find_node_0 [simp]: "find_node nodes 0 h = Some 0"
  by (simp add: find_node.simps)

lemma find_node_chain:
  "chain nodes p n ns \<Longrightarrow>
     find_node nodes n h =
       Some (hd (filter (\<lambda>x. (case nodes x of None \<Rightarrow> 0 | Some nd \<Rightarrow> nd_handle nd) = h) ns @ [0]))"
proof (induction ns arbitrary: p n)
  case (Cons x xs)
  then show ?case by (subst find_node.simps) (auto split: option.splits)
qed simp

lemma chained_cong:
  "gr_nodes g' = gr_nodes g \<Longrightarrow> gr_head g' = gr_head g \<Longrightarrow> chained g' ns hs = chained g ns hs"
  by (simp add: chained_def node_handle_def [abs_def])

lemma chained_insert:
  assumes "chained g ns hs" "node \<noteq> 0" "gr_nodes g node = None" "h \<notin> set hs"
  shows "chained (list_insert node h g) (node # ns) (h # hs)"
proof -
  have c: "chain (gr_nodes g) 0 (gr_head g) ns" "distinct ns" "dom (gr_nodes g) = set ns"
    "map (node_handle g) ns = hs" "distinct hs" using assms(1) by (simp_all add: chained_def)
  have out: "node \<notin> set ns" using c(3) assms(3) by (metis domIff)
  have head: "gr_head g \<noteq> 0 \<Longrightarrow> gr_head g \<in> set ns" using chain_start [OF c(1)] by (cases ns) simp_all
  let ?new = "list_insert node h g"
  let ?rest = "if gr_head g \<noteq> 0
    then (gr_nodes g)(gr_head g := map_option (\<lambda>m. m\<lparr>nd_prev := node\<rparr>) (gr_nodes g (gr_head g))) else gr_nodes g"
  have "chain ?rest node (gr_head g) ns" by (rule chain_set_prev [OF c(1,2)])
  moreover have same: "gr_nodes ?new x = ?rest x" if "x \<in> set ns" for x
    using that out by (auto simp: list_insert_def Let_def)
  ultimately have "chain (gr_nodes ?new) node (gr_head g) ns" by (auto intro: chain_cong)
  moreover have at: "gr_nodes ?new node = Some \<lparr>nd_handle = h, nd_next = gr_head g, nd_prev = 0\<rparr>"
    using out head by (auto simp: list_insert_def Let_def)
  moreover have "gr_head ?new = node" by (simp add: list_insert_def Let_def)
  moreover have "dom (gr_nodes ?new) = insert node (set ns)"
    using c(3) head by (auto simp: list_insert_def Let_def split: if_splits)
  moreover have "node_handle ?new x = node_handle g x" if "x \<in> set ns" for x
    using same [OF that] by (simp add: node_handle_def split: option.splits)
  then have "map (node_handle ?new) ns = hs" using c(4) by auto
  moreover have "node_handle ?new node = h" using at by (simp add: node_handle_def)
  ultimately show ?thesis using assms(2,4) c(2,5) out by (simp add: chained_def)
qed

lemma find_listed:
  assumes "chained g ns hs" "h \<in> set hs"
  shows "\<exists>xs m ys. ns = xs @ m # ys \<and> node_handle g m = h \<and> find_node (gr_nodes g) (gr_head g) h = Some m"
proof -
  have c: "chain (gr_nodes g) 0 (gr_head g) ns" "map (node_handle g) ns = hs" using assms(1) by (simp_all add: chained_def)
  from assms(2) c(2) have "\<exists>x \<in> set ns. node_handle g x = h" by auto
  then obtain xs m ys where s: "ns = xs @ m # ys" "node_handle g m = h" "\<forall>x \<in> set xs. node_handle g x \<noteq> h"
    using split_list_first_prop [of ns "\<lambda>x. node_handle g x = h"] by blast
  then have "filter (\<lambda>x. node_handle g x = h) ns = m # filter (\<lambda>x. node_handle g x = h) ys" by simp
  then show ?thesis using s find_node_chain [OF c(1), of h] by (auto simp: node_handle_def)
qed

lemma find_unlisted:
  assumes "chained g ns hs" "h \<notin> set hs"
  shows "find_node (gr_nodes g) (gr_head g) h = Some 0"
proof -
  have c: "chain (gr_nodes g) 0 (gr_head g) ns" "map (node_handle g) ns = hs" using assms(1) by (simp_all add: chained_def)
  then have "filter (\<lambda>x. node_handle g x = h) ns = []" using assms(2) by (auto simp: filter_empty_conv)
  then show ?thesis using find_node_chain [OF c(1), of h] by (simp add: node_handle_def)
qed

lemma chained_unlink:
  assumes "chained g (xs @ m # ys) hs"
  shows "chained (list_unlink m g) (xs @ ys) (remove1 (node_handle g m) hs)"
proof -
  let ?ns = "xs @ m # ys" and ?g = "list_unlink m g"
  have c: "chain (gr_nodes g) 0 (gr_head g) ?ns" "distinct ?ns" "dom (gr_nodes g) = set ?ns"
    "map (node_handle g) ?ns = hs" "distinct hs" using assms by (simp_all add: chained_def)
  obtain nd where nd: "gr_nodes g m = Some nd" "nd_prev nd = last (0 # xs)" "nd_next nd = hd (ys @ [0])"
    using chain_middle [OF c(1)] by blast
  have z: "0 \<notin> set ?ns" by (rule chain_nonzero [OF c(1)])
  then have first: "nd_prev nd = 0 \<longleftrightarrow> xs = []" using nd(2) by (cases xs rule: rev_cases) auto
  have g: "?g = g\<lparr>gr_nodes := unlinked (gr_nodes g) m nd,
      gr_head := (if nd_prev nd = 0 then nd_next nd else gr_head g)\<rparr>"
    by (rule list_unlink_eq [OF nd(1)])
  have A: "chain (gr_nodes ?g) 0 (gr_head ?g) (xs @ ys)"
    using unlink_chain [OF c(1) _ nd(1)] z c(2) first unfolding g by simp
  have same: "map_option nd_handle (gr_nodes ?g x) = map_option nd_handle (gr_nodes g x)" if "x \<noteq> m" for x
    unfolding g using unlinked_handle [of "gr_nodes g" m nd x] nd(1) that by simp
  have "gr_nodes ?g m = None" unfolding g by (simp add: unlinked_def Let_def)
  have dom: "x \<in> dom (gr_nodes ?g) \<longleftrightarrow> x \<in> set (xs @ ys)" for x
  proof (cases "x = m")
    case True
    then show ?thesis using \<open>gr_nodes ?g m = None\<close> c(2) by (auto simp: domIff)
  next
    case False
    have "x \<in> dom (gr_nodes ?g) \<longleftrightarrow> x \<in> dom (gr_nodes g)"
      using same [OF False] by (cases "gr_nodes g x"; cases "gr_nodes ?g x") auto
    then show ?thesis using c(3) False by auto
  qed
  have "node_handle ?g x = node_handle g x" if "x \<in> set (xs @ ys)" for x
  proof -
    have "x \<noteq> m" using that c(2) by auto
    from same [OF this] show ?thesis
      by (cases "gr_nodes g x"; cases "gr_nodes ?g x") (simp_all add: node_handle_def)
  qed
  then have B: "map (node_handle ?g) (xs @ ys) = map (node_handle g) (xs @ ys)" by (rule map_cong [OF refl])
  have C: "remove1 (node_handle g m) hs = map (node_handle g) (xs @ ys)"
    using c(4,5) by (auto simp: remove1_append)
  have D: "dom (gr_nodes ?g) = set (xs @ ys)" by (rule set_eqI) (rule dom)
  have "distinct (xs @ ys)" using c(2) by simp
  moreover have "distinct (map (node_handle g) (xs @ ys))" using C distinct_remove1 [OF c(5)] by metis
  ultimately show ?thesis using A B C D unfolding chained_def by (simp only: simp_thms)
qed

lemma release_memory_keeps [simp]:
  "gr_nodes (release_memory cb g) = gr_nodes g" "gr_head (release_memory cb g) = gr_head g"
  "gr_handles (release_memory cb g) = gr_handles g" "gr_sent (release_memory cb g) = gr_sent g"
  "gr_fds (release_memory cb g) = (if cb_fd cb > 0 then gr_fds g - {cb_fd cb} else gr_fds g)"
  by (simp_all add: release_memory_def close_fd_def unmap_def)

lemma list_unlink_keeps [simp]:
  "gr_handles (list_unlink n g) = gr_handles g" "gr_sent (list_unlink n g) = gr_sent g"
  "gr_fds (list_unlink n g) = gr_fds g"
  by (simp_all add: list_unlink_def Let_def split: option.splits)

lemma rc_send_keeps [simp]:
  "gr_nodes (rc_send c g) = gr_nodes g" "gr_head (rc_send c g) = gr_head g"
  "gr_handles (rc_send c g) = gr_handles g" "gr_fds (rc_send c g) = gr_fds g"
  "gr_sent (rc_send c g) = gr_sent g @ [c]"
  by (simp_all add: rc_send_def)

text \<open>What freeing a live buffer does.\<close>

lemma free_live:
  assumes "chained g ns hs" "gr_handles g i = Some cb" "cb_valid cb" "cb_hostHandle cb = 0 \<or> an_connected a"
  shows "\<exists>g' ns'. gralloc_free a i g = Some (GR_OK, g') \<and> chained g' ns' (remove1 i hs) \<and>
    gr_handles g' = (gr_handles g)(i := None) \<and>
    gr_sent g' = gr_sent g @ (if cb_hostHandle cb \<noteq> 0 then [Rc_CloseColorBuffer (cb_hostHandle cb)] else []) \<and>
    gr_fds g' = (if cb_fd cb > 0 then gr_fds g - {cb_fd cb} else gr_fds g)"
proof -
  let ?g = "release_memory cb (if cb_hostHandle cb \<noteq> 0 then rc_send (Rc_CloseColorBuffer (cb_hostHandle cb)) g else g)"
  have c: "chained ?g ns hs" using assms(1) by (subst chained_cong [of _ g]) simp_all
  show ?thesis
  proof (cases "i \<in> set hs")
    case True
    from find_listed [OF c this] obtain xs m ys where
      f: "ns = xs @ m # ys" "node_handle ?g m = i" "find_node (gr_nodes ?g) (gr_head ?g) i = Some m" by blast
    then have "m \<noteq> 0" using c chain_nonzero [of "gr_nodes ?g" 0 "gr_head ?g" ns] by (auto simp: chained_def)
    let ?u = "list_unlink m ?g"
    have "chained ?u (xs @ ys) (remove1 i hs)" using chained_unlink [of ?g xs m ys hs] c f by simp
    then have "chained (?u\<lparr>gr_handles := (gr_handles ?u)(i := None)\<rparr>) (xs @ ys) (remove1 i hs)"
      by (subst chained_cong [of _ ?u]) simp_all
    moreover have "gralloc_free a i g = Some (GR_OK, ?u\<lparr>gr_handles := (gr_handles ?u)(i := None)\<rparr>)"
      using assms f(3) \<open>m \<noteq> 0\<close> by (simp add: gralloc_free_def Let_def)
    ultimately show ?thesis by (intro exI [of _ "?u\<lparr>gr_handles := (gr_handles ?u)(i := None)\<rparr>"] exI [of _ "xs @ ys"]) simp
  next
    case False
    have f: "find_node (gr_nodes ?g) (gr_head ?g) i = Some 0" by (rule find_unlisted [OF c False])
    have "chained (?g\<lparr>gr_handles := (gr_handles ?g)(i := None)\<rparr>) ns (remove1 i hs)"
      using c False by (subst chained_cong [of _ ?g]) (simp_all add: remove1_idem)
    moreover have "gralloc_free a i g = Some (GR_OK, ?g\<lparr>gr_handles := (gr_handles ?g)(i := None)\<rparr>)"
      using assms f by (simp add: gralloc_free_def Let_def)
    ultimately show ?thesis by (intro exI [of _ "?g\<lparr>gr_handles := (gr_handles ?g)(i := None)\<rparr>"] exI [of _ ns]) simp
  qed
qed

section \<open>Histories\<close>

datatype gr_op =
    Do_alloc gr_answers bool int int hal_format usage
  | Do_free gr_answers nat
  | Do_register gr_answers nat
  | Do_unregister gr_answers nat
  | Do_lock gr_answers nat usage int int int int
  | Do_unlock gr_answers nat
  | Do_lock_ycbcr bool nat usage int int int int
  | Do_post gr_answers nat
  | Do_write int "byte list"

text \<open>\<open>Do_write\<close> is the client writing into its memory. No result: the call does not return, or is undefined.\<close>

fun gr_step :: "gr_op \<Rightarrow> gralloc \<Rightarrow> (gr_status \<times> gralloc) option" where
  "gr_step (Do_alloc a ok w h format usage) g =
     (case gralloc_alloc a ok w h format usage g of ((status, _), g) \<Rightarrow> Some (status, g))"
| "gr_step (Do_free a i) g = gralloc_free a i g"
| "gr_step (Do_register a i) g = Some (gralloc_register_buffer a i g)"
| "gr_step (Do_unregister a i) g = Some (gralloc_unregister_buffer a i g)"
| "gr_step (Do_lock a i usage l t w h) g =
     (case gralloc_lock a i usage l t w h g of Inl _ \<Rightarrow> None | Inr ((status, _), g) \<Rightarrow> Some (status, g))"
| "gr_step (Do_unlock a i) g = (case gralloc_unlock a i g of Inl _ \<Rightarrow> None | Inr r \<Rightarrow> Some r)"
| "gr_step (Do_lock_ycbcr ok i usage l t w h) g =
     (case gralloc_lock_ycbcr ok i usage l t w h g of ((status, _), g) \<Rightarrow> Some (status, g))"
| "gr_step (Do_post a i) g = (case fb_post a i g of Inl _ \<Rightarrow> None | Inr r \<Rightarrow> Some r)"
| "gr_step (Do_write p bs) g = (case write_mem p bs g of Inl _ \<Rightarrow> None | Inr g \<Rightarrow> Some (GR_OK, g))"

text \<open>The list as it should be, and what \<open>new\<close> promises: an address that is not in use.\<close>

fun listed_after :: "gr_op \<Rightarrow> gr_status \<Rightarrow> nat list \<Rightarrow> nat list" where
  "listed_after (Do_alloc a ok w h format usage) GR_OK hs = an_handle a # hs"
| "listed_after (Do_free a i) GR_OK hs = remove1 i hs"
| "listed_after _ _ hs = hs"

fun new_is_fresh :: "gr_op \<Rightarrow> gralloc \<Rightarrow> bool" where
  "new_is_fresh (Do_alloc a ok w h format usage) g \<longleftrightarrow>
     an_node a \<noteq> 0 \<and> gr_nodes g (an_node a) = None \<and> gr_handles g (an_handle a) = None"
| "new_is_fresh _ g \<longleftrightarrow> True"

text \<open>The operations on a buffer leave the list and the liveness of the handles as they are.\<close>

definition same_list :: "gralloc \<Rightarrow> gralloc \<Rightarrow> bool" where
  "same_list g g' \<longleftrightarrow>
     gr_nodes g' = gr_nodes g \<and> gr_head g' = gr_head g \<and> (\<forall>i. valid_handle i g' = valid_handle i g)"

lemma same_list_refl [simp]: "same_list g g"
  by (simp add: same_list_def)

lemma same_list_trans: "same_list g g' \<Longrightarrow> same_list g' g'' \<Longrightarrow> same_list g g''"
  by (simp add: same_list_def)

lemma alloc_list_same: "same_list g g' \<Longrightarrow> alloc_list g hs \<Longrightarrow> alloc_list g' hs"
  using chained_cong [of g' g] by (simp add: same_list_def alloc_list_def)

lemma write_mem_keeps:
  "write_mem p bs g = Inr g' \<Longrightarrow>
     gr_handles g' = gr_handles g \<and> gr_nodes g' = gr_nodes g \<and> gr_head g' = gr_head g"
  by (auto simp: write_mem_def split: if_splits)

lemma same_listI:
  "gr_nodes g' = gr_nodes g \<Longrightarrow> gr_head g' = gr_head g \<Longrightarrow>
     (\<And>j. map_option cb_valid (gr_handles g' j) = map_option cb_valid (gr_handles g j)) \<Longrightarrow> same_list g g'"
proof -
  assume a: "gr_nodes g' = gr_nodes g" "gr_head g' = gr_head g"
    "\<And>j. map_option cb_valid (gr_handles g' j) = map_option cb_valid (gr_handles g j)"
  have "valid_handle j g' = valid_handle j g" for j
    using a(3) [of j] by (auto simp: valid_handle_def split: option.splits)
  then show "same_list g g'" using a(1,2) by (simp add: same_list_def)
qed

lemma map_buffer_same:
  "map_buffer a i cb g = Inr g' \<Longrightarrow>
     gr_nodes g' = gr_nodes g \<and> gr_head g' = gr_head g \<and>
     (\<exists>cb'. gr_handles g' = (gr_handles g)(i \<mapsto> cb') \<and> cb_valid cb' = cb_valid cb)"
  by (auto simp: map_buffer_def set_handle_def split: if_splits sum.splits)

lemma register_same: "same_list g (snd (gralloc_register_buffer a i g))"
proof (cases "gr_handles g i")
  case (Some cb)
  let ?g = "if cb_hostHandle cb \<noteq> 0 then rc_send (Rc_OpenColorBuffer2 (cb_hostHandle cb)) g else g"
  have k: "gr_handles ?g = gr_handles g" "gr_nodes ?g = gr_nodes g" "gr_head ?g = gr_head g" by simp_all
  then have kept: "same_list g ?g" by (intro same_listI) simp_all
  have mapped: "same_list g (g'\<lparr>gr_handles := (gr_handles g')(i :=
      map_option (\<lambda>cb. cb\<lparr>cb_mappedPid := gr_pid g'\<rparr>) (gr_handles g' i))\<rparr>)"
    if g': "map_buffer a i cb ?g = Inr g'" for g'
  proof -
    obtain cb' where "gr_nodes g' = gr_nodes g" "gr_head g' = gr_head g"
      "gr_handles g' = (gr_handles g)(i \<mapsto> cb')" "cb_valid cb' = cb_valid cb"
      using map_buffer_same [OF g'] k by auto
    then show ?thesis using Some by (intro same_listI) simp_all
  qed
  have "snd (gralloc_register_buffer a i g) \<in> {g, ?g} \<or>
      (\<exists>g'. map_buffer a i cb ?g = Inr g' \<and>
         snd (gralloc_register_buffer a i g) = g'\<lparr>gr_handles := (gr_handles g')(i :=
           map_option (\<lambda>cb. cb\<lparr>cb_mappedPid := gr_pid g'\<rparr>) (gr_handles g' i))\<rparr>)"
    using Some by (auto simp: gralloc_register_buffer_def Let_def split: sum.splits)
  then show ?thesis using kept mapped by auto
qed (simp add: gralloc_register_buffer_def)

lemma unregister_same: "same_list g (snd (gralloc_unregister_buffer a i g))"
  by (intro same_listI)
    (auto simp: gralloc_unregister_buffer_def Let_def set_handle_def unmap_def split: option.splits)

lemma lock_on_host_same:
  "lock_on_host a cb usage n p g = Inr (st, g') \<Longrightarrow>
     gr_handles g' = gr_handles g \<and> gr_nodes g' = gr_nodes g \<and> gr_head g' = gr_head g"
  by (auto simp: lock_on_host_def read_back_def Let_def dest!: write_mem_keeps split: if_splits sum.splits)

lemma lock_same:
  assumes "gralloc_lock a i usage l t w h g = Inr ((st, v), g')"
  shows "same_list g g'"
proof (cases "gr_fallback g \<or> gr_handles g i = None")
  case False
  then obtain cb where cb: "gr_handles g i = Some cb" by blast
  show ?thesis
  proof (cases "\<not> cb_valid cb \<or> cb_frameworkFormat cb = YCbCr_420_888 \<or> \<not> lock_allowed usage (cb_usage cb)
      \<or> cb_ashmemBasePid cb \<noteq> gr_pid g \<or> cb_ashmemBase cb = 0")
    case True
    then show ?thesis using assms False cb by (auto simp: gralloc_lock_def split: if_splits)
  next
    case ok: False
    then obtain n p where n: "lock_address cb g = Inr (n, p)"
      using assms False cb by (auto simp: gralloc_lock_def split: sum.splits)
    then obtain st' k where k: "lock_on_host a cb usage n p g = Inr (st', k)"
      using assms False cb ok by (auto simp: gralloc_lock_def split: sum.splits)
    have "g' = k \<or> g' = keep_locked l t w h i cb k"
      using assms False cb ok n k by (auto simp: gralloc_lock_def split: gr_status.splits if_splits)
    then show ?thesis using lock_on_host_same [OF k] cb
      by (intro same_listI) (auto simp: keep_locked_def set_handle_def)
  qed
next
  case True
  then show ?thesis using assms by (cases "gr_fallback g") (auto simp: gralloc_lock_def)
qed

lemma unlock_same: "gralloc_unlock a i g = Inr (st, g') \<Longrightarrow> same_list g g'"
  by (intro same_listI)
    (auto simp: gralloc_unlock_def Let_def set_handle_def split: option.splits if_splits sum.splits)

lemma lock_ycbcr_same: "gralloc_lock_ycbcr ok i usage l t w h g = ((st, v), g') \<Longrightarrow> same_list g g'"
  by (intro same_listI)
    (auto simp: gralloc_lock_ycbcr_def Let_def set_handle_def keep_locked_def split: option.splits if_splits)

lemma post_same: "fb_post a i g = Inr (st, g') \<Longrightarrow> same_list g g'"
  by (intro same_listI) (auto simp: fb_post_def dest!: write_mem_keeps split: option.splits if_splits sum.splits)

lemma write_same: "write_mem p bs g = Inr g' \<Longrightarrow> same_list g g'"
  by (intro same_listI) (auto dest: write_mem_keeps)

lemma new_buffer_other:
  "(case new_buffer a i cb g of Inl (st, k) \<Rightarrow> st \<noteq> GR_OK | Inr k \<Rightarrow> cb_valid cb \<longrightarrow> valid_handle i k) \<and>
   (let k = (case new_buffer a i cb g of Inl (st, k) \<Rightarrow> k | Inr k \<Rightarrow> k) in
      gr_nodes k = gr_nodes g \<and> gr_head k = gr_head g \<and> (\<forall>j. j \<noteq> i \<longrightarrow> gr_handles k j = gr_handles g j))"
proof (cases "map_new a i cb g")
  case (Inl e)
  then show ?thesis by (simp add: new_buffer_def close_fd_def)
next
  case (Inr k)
  then have k: "gr_nodes k = gr_nodes g" "gr_head k = gr_head g" "\<forall>j. j \<noteq> i \<longrightarrow> gr_handles k j = gr_handles g j"
    "cb_valid cb \<longrightarrow> valid_handle i k"
    by (auto simp: map_new_def map_buffer_def set_handle_def valid_handle_def split: if_splits sum.splits)
  let ?h = "create_host_buffer a i k"
  have "gr_nodes ?h = gr_nodes g" "gr_head ?h = gr_head g" "\<forall>j. j \<noteq> i \<longrightarrow> gr_handles ?h j = gr_handles g j"
    "cb_valid cb \<longrightarrow> valid_handle i ?h"
    using k by (auto simp: create_host_buffer_def set_handle_def valid_handle_def split: option.splits)
  then show ?thesis using k Inr by (simp add: new_buffer_def close_fd_def Let_def)
qed

lemma alloc_cases:
  assumes "gralloc_alloc a ok w h format usage g = ((st, v), g')"
  obtains (failed) "st \<noteq> GR_OK" "gr_nodes g' = gr_nodes g" "gr_head g' = gr_head g"
      "\<And>j. j \<noteq> an_handle a \<Longrightarrow> gr_handles g' j = gr_handles g j"
  | (succeeded) k where "st = GR_OK" "g' = list_insert (an_node a) (an_handle a) k" "gr_nodes k = gr_nodes g"
      "gr_head k = gr_head g" "\<And>j. j \<noteq> an_handle a \<Longrightarrow> gr_handles k j = gr_handles g j" "valid_handle (an_handle a) k"
proof -
  have memory: "gr_nodes k = gr_nodes g \<and> gr_head k = gr_head g \<and> gr_handles k = gr_handles g"
    if "alloc_memory a n g = Inr (fd, k)" for n fd k
    using that by (auto simp: alloc_memory_def split: if_splits sum.splits)
  have valid: "cb_valid (cb_handle_new fd n usage w h format f glf glt)" for fd n f glf glt
    by (simp add: cb_handle_new_def)
  have "(st \<noteq> GR_OK \<and> g' = g) \<or> (\<exists>n fd k cb. alloc_memory a n g = Inr (fd, k) \<and> cb_valid cb \<and>
      (case new_buffer a (an_handle a) cb k of
         Inl (st', k) \<Rightarrow> st = st' \<and> g' = k
       | Inr k \<Rightarrow> st = GR_OK \<and> g' = list_insert (an_node a) (an_handle a) k))"
    (is "?none \<or> ?some")
  proof (cases "ok \<and> (\<exists>f lo. pick_format usage format = Some f \<and> format_layout usage f = Some lo)")
    case False
    then have ?none using assms by (auto simp: gralloc_alloc_def split: option.splits)
    then show ?thesis ..
  next
    case True
    then obtain f lo where f: ok "pick_format usage format = Some f" "format_layout usage f = Some lo" by blast
    obtain z stride where z: "image_size usage lo w h = (z, stride)" by (cases "image_size usage lo w h")
    define n where "n = (if z > 0 then int32 (align_up z PAGE_SIZE) else z)"
    show ?thesis
    proof (cases "alloc_memory a n g")
      case (Inl e)
      then have ?none using assms f z n_def by (auto simp: gralloc_alloc_def)
      then show ?thesis ..
    next
      case (Inr r)
      then obtain fd k where k: "alloc_memory a n g = Inr (fd, k)" by (cases r) simp
      let ?cb = "cb_handle_new fd n usage w h format f (lo_glFormat lo) (lo_glType lo)"
      have "case new_buffer a (an_handle a) ?cb k of
         Inl (st', k) \<Rightarrow> st = st' \<and> g' = k
       | Inr k \<Rightarrow> st = GR_OK \<and> g' = list_insert (an_node a) (an_handle a) k"
        using assms f z k by (simp add: gralloc_alloc_def Let_def flip: n_def split: sum.splits prod.splits)
      with k valid have ?some by blast
      then show ?thesis ..
    qed
  qed
  then show ?thesis
  proof (elim disjE exE conjE)
    assume "st \<noteq> GR_OK" "g' = g"
    then show ?thesis using failed by simp
  next
    fix n fd k cb
    assume k: "alloc_memory a n g = Inr (fd, k)" "cb_valid cb"
      and n: "case new_buffer a (an_handle a) cb k of
         Inl (st', k) \<Rightarrow> st = st' \<and> g' = k
       | Inr k \<Rightarrow> st = GR_OK \<and> g' = list_insert (an_node a) (an_handle a) k"
    show ?thesis
    proof (cases "new_buffer a (an_handle a) cb k")
      case (Inl r)
      then show ?thesis using n k memory [OF k(1)] new_buffer_other [where a = a and i = "an_handle a" and cb = cb and g = k] failed
        by (cases r) (simp add: Let_def)
    next
      case (Inr m)
      then show ?thesis using n k memory [OF k(1)] new_buffer_other [where a = a and i = "an_handle a" and cb = cb and g = k] succeeded
        by (simp add: Let_def)
    qed
  qed
qed

lemma alloc_lists:
  assumes "alloc_list g hs" "an_node a \<noteq> 0" "gr_nodes g (an_node a) = None" "gr_handles g (an_handle a) = None"
    and "gralloc_alloc a ok w h format usage g = ((st, v), g')"
  shows "alloc_list g' (if st = GR_OK then an_handle a # hs else hs)"
proof -
  obtain ns where c: "chained g ns hs" and live: "\<forall>h \<in> set hs. valid_handle h g"
    using assms(1) by (auto simp: alloc_list_def)
  have new: "an_handle a \<notin> set hs" using live assms(4) by (auto simp: valid_handle_def)
  have keep: "alloc_list k hs" if "gr_nodes k = gr_nodes g" "gr_head k = gr_head g"
    "\<And>j. j \<noteq> an_handle a \<Longrightarrow> gr_handles k j = gr_handles g j" for k
  proof -
    have "valid_handle h k" if "h \<in> set hs" for h
    proof -
      have "h \<noteq> an_handle a" using that new by auto
      then have "gr_handles k h = gr_handles g h" by (rule \<open>\<And>j. j \<noteq> an_handle a \<Longrightarrow> gr_handles k j = gr_handles g j\<close>)
      then show ?thesis using live that by (simp add: valid_handle_def)
    qed
    moreover have "chained k ns hs" using c that(1,2) chained_cong [of k g] by simp
    ultimately show ?thesis unfolding alloc_list_def by blast
  qed
  have put: "alloc_list (list_insert (an_node a) (an_handle a) k) (an_handle a # hs)"
    if "gr_nodes k = gr_nodes g" "gr_head k = gr_head g" "\<And>j. j \<noteq> an_handle a \<Longrightarrow> gr_handles k j = gr_handles g j"
      "valid_handle (an_handle a) k" for k
  proof -
    have "chained k ns hs" using c that chained_cong [of k g] by simp
    from chained_insert [OF this assms(2) _ new] assms(3) that(1)
    have "chained (list_insert (an_node a) (an_handle a) k) (an_node a # ns) (an_handle a # hs)" by simp
    moreover have "gr_handles (list_insert (an_node a) (an_handle a) k) = gr_handles k"
      by (simp add: list_insert_def Let_def)
    then have "\<forall>h \<in> set (an_handle a # hs). valid_handle h (list_insert (an_node a) (an_handle a) k)"
      using live that(3,4) new by (metis (no_types, lifting) set_ConsD valid_handle_def)
    ultimately show ?thesis unfolding alloc_list_def by blast
  qed
  from assms(5) show ?thesis
  proof (cases rule: alloc_cases)
    case failed
    then show ?thesis using keep [of g'] by simp
  next
    case (succeeded k)
    then show ?thesis using put [of k] by simp
  qed
qed

lemma free_lists:
  assumes "alloc_list g hs" "gralloc_free a i g = Some (st, g')"
  shows "alloc_list g' (if st = GR_OK then remove1 i hs else hs)"
proof -
  obtain ns where c: "chained g ns hs" and live: "\<forall>h \<in> set hs. valid_handle h g"
    using assms(1) by (auto simp: alloc_list_def)
  show ?thesis
  proof (cases "\<exists>cb. gr_handles g i = Some cb \<and> cb_valid cb \<and> (cb_hostHandle cb = 0 \<or> an_connected a)")
    case True
    then obtain cb where "gr_handles g i = Some cb" "cb_valid cb" "cb_hostHandle cb = 0 \<or> an_connected a" by blast
    from free_live [OF c this] assms(2) obtain ns' where
      "st = GR_OK" "chained g' ns' (remove1 i hs)" "gr_handles g' = (gr_handles g)(i := None)" by auto
    then show ?thesis using live c by (auto simp: alloc_list_def valid_handle_def chained_def)
  next
    case False
    then have "st \<noteq> GR_OK" "g' = g"
      using assms(2) by (auto simp: gralloc_free_def split: option.splits if_splits)
    then show ?thesis using assms(1) by simp
  qed
qed

lemma free_returns:
  assumes "alloc_list g hs"
  shows "gralloc_free a i g \<noteq> None"
proof -
  obtain ns where c: "chained g ns hs" using assms by (auto simp: alloc_list_def)
  show ?thesis
  proof (cases "\<exists>cb. gr_handles g i = Some cb \<and> cb_valid cb \<and> (cb_hostHandle cb = 0 \<or> an_connected a)")
    case True
    then show ?thesis using free_live [OF c] by force
  next
    case False
    then show ?thesis by (auto simp: gralloc_free_def split: option.splits)
  qed
qed

text \<open>C27.
  The doubly linked list of the device, with its nodes and pointers in both directions, behaves as a list of handles:
  an allocation that succeeds puts the new handle in front, freeing a buffer takes it out, wherever it is, and leaves the
  rest in its order, and no other operation changes it, whatever the kernel and the host answer. Freeing always returns.\<close>

theorem alloc_list_refines:
  assumes "alloc_list g hs" "new_is_fresh op g" "gr_step op g = Some (st, g')"
  shows "alloc_list g' (listed_after op st hs) \<and> gralloc_free a i g' \<noteq> None"
proof -
  have "alloc_list g' (listed_after op st hs)"
  proof (cases op)
    case (Do_alloc a ok w h format usage)
    then show ?thesis using assms alloc_lists [OF assms(1), of a ok w h format usage]
      by (cases st) (auto split: prod.splits)
  next
    case (Do_free a i)
    then show ?thesis using assms free_lists [OF assms(1), of a i st g'] by (cases st) auto
  next
    case (Do_register a i)
    then show ?thesis using assms register_same [of g a i] by (cases st) (auto intro: alloc_list_same)
  next
    case (Do_unregister a i)
    then show ?thesis using assms unregister_same [of g a i] by (cases st) (auto intro: alloc_list_same)
  next
    case (Do_lock a i usage l t w h)
    then show ?thesis using assms by (auto dest!: lock_same intro: alloc_list_same split: sum.splits prod.splits)
  next
    case (Do_unlock a i)
    then show ?thesis using assms by (auto dest!: unlock_same intro: alloc_list_same split: sum.splits)
  next
    case (Do_lock_ycbcr ok i usage l t w h)
    then show ?thesis using assms by (auto dest!: lock_ycbcr_same intro: alloc_list_same split: prod.splits)
  next
    case (Do_post a i)
    then show ?thesis using assms by (auto dest!: post_same intro: alloc_list_same split: sum.splits)
  next
    case (Do_write p bs)
    then show ?thesis using assms by (auto dest!: write_same intro: alloc_list_same split: sum.splits)
  qed
  then show ?thesis using free_returns by blast
qed

section \<open>Closing the device\<close>

definition closing_calls :: "gralloc \<Rightarrow> nat list \<Rightarrow> rc_call list" where
  "closing_calls g hs = map Rc_CloseColorBuffer (filter (\<lambda>c. c \<noteq> 0) (map (host_handle g) hs))"

lemma chained_head:
  "chained g ns (h # hs) \<Longrightarrow>
     gr_head g \<noteq> 0 \<and> (\<exists>nd. gr_nodes g (gr_head g) = Some nd \<and> nd_handle nd = h)"
  by (cases ns) (auto simp: chained_def node_handle_def split: option.splits)

lemma chained_empty: "chained g ns [] \<Longrightarrow> gr_head g = 0 \<and> gr_nodes g = Map.empty"
  by (auto simp: chained_def)

lemma device_close_frees:
  assumes "chained g ns hs" "\<forall>h \<in> set hs. valid_handle h g"
    and "\<forall>k. an_connected (answers k) \<or> (\<forall>h \<in> set hs. host_handle g h = 0)"
  shows "\<exists>g'. gralloc_device_close answers k g = Some g' \<and> gr_head g' = 0 \<and> gr_nodes g' = Map.empty \<and>
    gr_handles g' = (\<lambda>i. if i \<in> set hs then None else gr_handles g i) \<and> gr_sent g' = gr_sent g @ closing_calls g hs"
  using assms
proof (induction hs arbitrary: g ns k)
  case Nil
  from chained_empty [OF Nil(1)] show ?case by (simp add: gralloc_device_close.simps closing_calls_def)
next
  case (Cons h hs)
  obtain nd where nd: "gr_head g \<noteq> 0" "gr_nodes g (gr_head g) = Some nd" "nd_handle nd = h"
    using chained_head [OF Cons.prems(1)] by blast
  obtain cb where cb: "gr_handles g h = Some cb" "cb_valid cb"
    using Cons.prems(2) by (auto simp: valid_handle_def split: option.splits)
  have host: "host_handle g h = cb_hostHandle cb" using cb by (simp add: host_handle_def)
  have conn: "cb_hostHandle cb = 0 \<or> an_connected (answers k)" using Cons.prems(3) host by auto
  have d: "h \<notin> set hs" using Cons.prems(1) by (simp add: chained_def)
  from free_live [OF Cons.prems(1) cb conn] d obtain g1 ns1 where
    g1: "gralloc_free (answers k) h g = Some (GR_OK, g1)" "chained g1 ns1 hs"
      "gr_handles g1 = (gr_handles g)(h := None)"
      "gr_sent g1 = gr_sent g @ (if cb_hostHandle cb \<noteq> 0 then [Rc_CloseColorBuffer (cb_hostHandle cb)] else [])"
    by auto
  have same: "host_handle g1 x = host_handle g x" "valid_handle x g1 = valid_handle x g" if "x \<in> set hs" for x
  proof -
    have "x \<noteq> h" using that d by auto
    then show "host_handle g1 x = host_handle g x" "valid_handle x g1 = valid_handle x g"
      using g1(3) by (simp_all add: host_handle_def valid_handle_def)
  qed
  have "map (host_handle g1) hs = map (host_handle g) hs" using same by simp
  then have calls: "closing_calls g1 hs = closing_calls g hs" unfolding closing_calls_def by (simp only:)
  have "\<exists>g'. gralloc_device_close answers (Suc k) g1 = Some g' \<and> gr_head g' = 0 \<and> gr_nodes g' = Map.empty \<and>
      gr_handles g' = (\<lambda>i. if i \<in> set hs then None else gr_handles g1 i) \<and>
      gr_sent g' = gr_sent g1 @ closing_calls g1 hs"
    using Cons.prems(2,3) same by (intro Cons.IH [OF g1(2)]) auto
  then obtain g' where g': "gralloc_device_close answers (Suc k) g1 = Some g'" "gr_head g' = 0"
    "gr_nodes g' = Map.empty" "gr_handles g' = (\<lambda>i. if i \<in> set hs then None else gr_handles g1 i)"
    "gr_sent g' = gr_sent g1 @ closing_calls g1 hs" by blast
  have "gralloc_device_close answers k g = Some g'"
    using nd g1(1) g'(1) by (subst gralloc_device_close.simps) simp
  moreover have "gr_sent g' = gr_sent g @ closing_calls g (h # hs)"
    using g'(5) g1(4) calls host by (simp add: closing_calls_def)
  moreover have "gr_handles g' = (\<lambda>i. if i \<in> set (h # hs) then None else gr_handles g i)"
    using g'(4) g1(3) by auto
  ultimately show ?case using g' by blast
qed

text \<open>Without the host a buffer that has a colour buffer cannot be freed, so the loop gets to it and stays there.\<close>

lemma device_close_invariant:
  assumes "gralloc_device_close answers k g = Some g'" "P g"
    and "\<And>k i g st g'. P g \<Longrightarrow> gralloc_free (answers k) i g = Some (st, g') \<Longrightarrow> P g'"
  shows "P g' \<and> gr_head g' = 0"
proof -
  have "an = answers \<longrightarrow> P g \<longrightarrow> P g' \<and> gr_head g' = 0" if "gralloc_device_close an k g = Some g'" for an k g g'
  proof (rule gralloc_device_close.raw_induct
      [where P = "\<lambda>an k g g'. an = answers \<longrightarrow> P g \<longrightarrow> P g' \<and> gr_head g' = 0", OF _ that], intro impI)
    fix f an k g y
    assume IH: "\<And>an k g y. f an k g = Some y \<Longrightarrow> an = answers \<longrightarrow> P g \<longrightarrow> P y \<and> gr_head y = 0"
      and y: "(if gr_head g = 0 then Some g
        else case gr_nodes g (gr_head g) of
            None \<Rightarrow> None
          | Some nd \<Rightarrow>
              (case gralloc_free (an k) (nd_handle nd) g of
                 None \<Rightarrow> None
               | Some (_, g) \<Rightarrow> f an (Suc k) g)) = Some y"
      and a: "an = answers" "P g"
    show "P y \<and> gr_head y = 0"
    proof (cases "gr_head g = 0")
      case False
      then obtain nd st g1 where g1: "gr_nodes g (gr_head g) = Some nd"
        "gralloc_free (an k) (nd_handle nd) g = Some (st, g1)" "f an (Suc k) g1 = Some y"
        using y by (auto split: option.splits)
      have "P g1" by (rule assms(3) [OF a(2)]) (use g1(2) a(1) in simp)
      with IH [OF g1(3)] a(1) show ?thesis by simp
    qed (use y a in simp)
  qed
  then show ?thesis using assms(1,2) by simp
qed

text \<open>C28.
  \<open>gralloc_device_close\<close> frees every buffer that is still allocated, closes their colour buffers on the host in the order of
  the list and leaves the list empty. It returns if and only if the host can be reached or none of the buffers has a
  colour buffer there: with a host that is gone, its loop asks for the same buffer for ever.\<close>

theorem device_close_returns:
  assumes "alloc_list g hs"
  shows "(gralloc_device_close (\<lambda>_. a) 0 g \<noteq> None \<longleftrightarrow>
            an_connected a \<or> \<not> (\<exists>h \<in> set hs. host_handle g h \<noteq> 0)) \<and>
    (\<forall>g'. gralloc_device_close (\<lambda>_. a) 0 g = Some g' \<longrightarrow>
       alloc_list g' [] \<and> gr_handles g' = (\<lambda>i. if i \<in> set hs then None else gr_handles g i) \<and>
       gr_sent g' = gr_sent g @ closing_calls g hs)"
proof -
  obtain ns where c: "chained g ns hs" and live: "\<forall>h \<in> set hs. valid_handle h g"
    using assms by (auto simp: alloc_list_def)
  show ?thesis
  proof (cases "an_connected a \<or> \<not> (\<exists>h \<in> set hs. host_handle g h \<noteq> 0)")
    case True
    then have "\<forall>k. an_connected ((\<lambda>_. a) (k :: nat)) \<or> (\<forall>h \<in> set hs. host_handle g h = 0)" by auto
    from device_close_frees [OF c live this, of 0] obtain g' where
      g': "gralloc_device_close (\<lambda>_. a) 0 g = Some g'" "gr_head g' = 0" "gr_nodes g' = Map.empty"
        "gr_handles g' = (\<lambda>i. if i \<in> set hs then None else gr_handles g i)"
        "gr_sent g' = gr_sent g @ closing_calls g hs" by auto
    then have "chained g' [] []" by (simp add: chained_def)
    then have "alloc_list g' []" by (auto simp: alloc_list_def)
    then show ?thesis using True g' by simp
  next
    case False
    then obtain h where h: "h \<in> set hs" "host_handle g h \<noteq> 0" and off: "\<not> an_connected a" by blast
    let ?P = "\<lambda>g. host_handle g h \<noteq> 0 \<and> (\<exists>hs. alloc_list g hs \<and> h \<in> set hs)"
    have step: "?P g'" if P: "?P g" and f: "gralloc_free a i g = Some (st, g')" for i g st g'
    proof -
      obtain hs where hs: "alloc_list g hs" "h \<in> set hs" using P by blast
      then obtain ns where c: "chained g ns hs" by (auto simp: alloc_list_def)
      show ?thesis
      proof (cases "\<exists>cb. gr_handles g i = Some cb \<and> cb_valid cb \<and> cb_hostHandle cb = 0")
        case True
        then obtain cb where cb: "gr_handles g i = Some cb" "cb_valid cb" "cb_hostHandle cb = 0" by blast
        then have "i \<noteq> h" using P by (auto simp: host_handle_def)
        from free_live [OF c cb(1,2), of a] cb(3) f have
          "st = GR_OK" "gr_handles g' = (gr_handles g)(i := None)" by auto
        moreover have "alloc_list g' (remove1 i hs)" using free_lists [OF hs(1) f] calculation(1) by simp
        moreover have "h \<in> set (remove1 i hs)" using hs(2) \<open>i \<noteq> h\<close> by simp
        ultimately show ?thesis using P \<open>i \<noteq> h\<close> by (auto simp: host_handle_def)
      next
        case False
        then have "g' = g" using f off by (auto simp: gralloc_free_def split: option.splits if_splits)
        then show ?thesis using P by simp
      qed
    qed
    have "gralloc_device_close (\<lambda>_. a) 0 g = None"
    proof (rule ccontr)
      assume "gralloc_device_close (\<lambda>_. a) 0 g \<noteq> None"
      then obtain g' where g': "gralloc_device_close (\<lambda>_. a) 0 g = Some g'" by blast
      have "?P g' \<and> gr_head g' = 0"
        by (rule device_close_invariant [OF g']) (use h assms step in blast)+
      then obtain hs' ns' where "chained g' ns' hs'" "h \<in> set hs'" "gr_head g' = 0" by (auto simp: alloc_list_def)
      then show False using chained_head by (cases hs') force+
    qed
    then show ?thesis using False by simp
  qed
qed

section \<open>The image between host and client\<close>


lemma read_mem_bytes:
  "read_mem g p n = Inr bs \<Longrightarrow> length bs = n \<and> (\<forall>k < n. bs ! k = gr_mem g (p + int k))"
  by (auto simp: read_mem_def split: if_splits)










text \<open>A buffer that can be posted is shown to the client 4 bytes behind the place it is sent from.\<close>

lemma posted_image_shifted:
  "canBePosted cb \<Longrightarrow> lock_address cb g = Inr (n, p) \<Longrightarrow> unlock_address cb = p - 4"
  by (auto simp: lock_address_def unlock_address_def split: sum.splits)

section \<open>The size of an image\<close>




section \<open>A buffer from its allocation on\<close>

definition example_answers :: gr_answers where
  "example_answers =
     \<lparr>an_connected = True, an_ashmem = Inl 5, an_mmap = Inl 4096, an_munmap = True, an_handle = 7, an_node = 9,
      an_create = 3, an_flush = 0, an_pixels = (\<lambda>k. word_of_nat k), an_fallback = GR_OK\<rparr>"

definition example_device :: gralloc where
  "example_device =
     \<lparr>gr_handles = Map.empty, gr_head = 0, gr_nodes = Map.empty, gr_fds = {}, gr_maps = [], gr_mem = (\<lambda>_. 0),
      gr_pid = 1, gr_fallback = False, gr_sent = []\<rparr>"

definition example_handle :: cb_handle where
  "example_handle =
     (cb_handle_new 5 4096 {SW_READ, SW_WRITE} 2 2 RGBA_8888 RGBA_8888 ''GL_RGBA'' ''GL_UNSIGNED_BYTE'')
     \<lparr>cb_ashmemBase := 4096, cb_ashmemBasePid := 1, cb_hostHandle := 3\<rparr>"

definition example_allocated :: gralloc where
  "example_allocated =
     \<lparr>gr_handles = [7 \<mapsto> example_handle], gr_head = 9,
      gr_nodes = [9 \<mapsto> \<lparr>nd_handle = 7, nd_next = 0, nd_prev = 0\<rparr>], gr_fds = {5}, gr_maps = [(4096, 4096)],
      gr_mem = (\<lambda>_. 0), gr_pid = 1, gr_fallback = False, gr_sent = [Rc_CreateColorBuffer 2 2 ''GL_RGBA'']\<rparr>"

lemma example_alloc:
  "gralloc_alloc example_answers True 2 2 RGBA_8888 {SW_READ, SW_WRITE} example_device =
     ((GR_OK, Some (7, 2)), example_allocated)"
proof -
  have s: "image_size {SW_READ, SW_WRITE} \<lparr>lo_bpp = 4, lo_align = 1, lo_yuv = False, lo_glFormat = ''GL_RGBA'',
      lo_glType = ''GL_UNSIGNED_BYTE''\<rparr> 2 2 = (16, 2)"
    by (simp add: image_size_def align_up_def int32_def)
  have p: "int32 (align_up 16 PAGE_SIZE) = 4096" by (simp add: align_up_def int32_def)
  show ?thesis using s p
    by (simp add: gralloc_alloc_def pick_format_def format_layout_def alloc_memory_def new_buffer_def map_new_def
        map_buffer_def set_handle_def create_host_buffer_def host_handle_def host_usage_def list_insert_def rc_send_def
        cb_handle_new_def example_answers_def example_device_def example_allocated_def example_handle_def)
qed

lemma example_listed: "alloc_list example_device []"
  by (auto simp: alloc_list_def chained_def example_device_def)

lemma example_allocated_listed: "alloc_list example_allocated [7]"
  using alloc_lists [OF example_listed _ _ _ example_alloc]
  by (simp add: example_answers_def example_device_def)

text \<open>Without a host nothing of the new buffer is left but its mapping, which nobody can undo.\<close>

lemma failed_alloc_leaves_mapping:
  "let (r, g) = gralloc_alloc (example_answers\<lparr>an_connected := False\<rparr>) True 2 2 RGBA_8888 {SW_READ, SW_WRITE} example_device
   in r = (GR_Error ''EIO'', None) \<and> gr_handles g = Map.empty \<and> gr_fds g = {} \<and> gr_maps g = [(4096, 4096)]"
proof -
  have s: "image_size {SW_READ, SW_WRITE} \<lparr>lo_bpp = 4, lo_align = 1, lo_yuv = False, lo_glFormat = ''GL_RGBA'',
      lo_glType = ''GL_UNSIGNED_BYTE''\<rparr> 2 2 = (16, 2)"
    by (simp add: image_size_def align_up_def int32_def)
  have p: "int32 (align_up 16 PAGE_SIZE) = 4096" by (simp add: align_up_def int32_def)
  show ?thesis using s p
    by (simp add: gralloc_alloc_def pick_format_def format_layout_def alloc_memory_def new_buffer_def map_new_def
        map_buffer_def set_handle_def create_host_buffer_def host_handle_def host_usage_def rc_send_def close_fd_def
        cb_handle_new_def example_answers_def example_device_def)
qed

text \<open>A buffer that cannot be mapped: the error has lost its sign, and the host keeps counting the client.\<close>

lemma failed_register_stays_open:
  assumes "\<not> gr_fallback g" "gr_handles g i = Some cb" "cb_valid cb" "cb_hostHandle cb \<noteq> 0" "an_connected a"
    and "cb_ashmemSize cb > 0" "cb_mappedPid cb \<noteq> gr_pid g" "0 \<le> cb_fd cb" "an_mmap a = Inr e"
  shows "gralloc_register_buffer a i g = (GR_Positive e, rc_send (Rc_OpenColorBuffer2 (cb_hostHandle cb)) g)"
  using assms by (simp add: gralloc_register_buffer_def map_buffer_def rc_send_def)

theorem alloc_list_refines_witness: "alloc_list example_allocated [7]"
  using alloc_list_refines [OF example_listed,
      of "Do_alloc example_answers True 2 2 RGBA_8888 {SW_READ, SW_WRITE}" GR_OK example_allocated]
    example_alloc by (simp add: example_answers_def example_device_def)

theorem device_close_returns_witness:
  "gralloc_device_close (\<lambda>_. example_answers) 0 example_allocated \<noteq> None \<and>
   gralloc_device_close (\<lambda>_. example_answers\<lparr>an_connected := False\<rparr>) 0 example_allocated = None"
proof -
  have h: "host_handle example_allocated 7 \<noteq> 0" "an_connected example_answers"
    by (simp_all add: host_handle_def example_allocated_def example_handle_def example_answers_def)
  from device_close_returns [OF example_allocated_listed, of example_answers] h(2)
  have "gralloc_device_close (\<lambda>_. example_answers) 0 example_allocated \<noteq> None" by blast
  moreover from device_close_returns [OF example_allocated_listed, of "example_answers\<lparr>an_connected := False\<rparr>"] h(1)
  have "\<not> gralloc_device_close (\<lambda>_. example_answers\<lparr>an_connected := False\<rparr>) 0 example_allocated \<noteq> None" by simp
  ultimately show ?thesis by blast
qed



text \<open>The memory of a posted image ends before the image as it is locked does.\<close>

lemma posted_memory_too_small:
  "\<exists>lo. format_layout {HW_FB, SW_WRITE} RGBA_8888 = Some lo \<and>
     (case image_size {HW_FB, SW_WRITE} lo 1023 1 of (bytes, stride) \<Rightarrow>
        int32 (align_up bytes PAGE_SIZE) < 8 + stride * lo_bpp lo)"
  by (simp add: format_layout_def image_size_def align_up_def int32_def)



end
