(* ===== verification/Sensors.thy ===== *)
theory Sensors
  imports Complex_Main Qemud
begin

unbundle bit_operations_syntax

text \<open>
  The sensors module of Android (\<open>android/sensors/sensors_qemu.c\<close>), a client of the service \<open>sensors\<close>. One thread waits
  for events, others switch sensors on and off over the same connection; the lock is free while the first one waits for a
  message. Values are real numbers, as the reader of \<open>%g\<close> gives them, which is an argument; \<open>qemud\<close>'s answers to opening,
  sending and receiving are those of a record or a message; times are unbounded. The field \<open>version\<close> of an event, a
  constant, is left out.
  Shown here: polling never returns without an event, gives each new event once and loses none, whatever other threads
  do; the sensors that count as active are those the host was last told to switch on.
\<close>

section \<open>Names\<close>

definition sensor_names :: "string list" where
  "sensor_names =
     [''acceleration'', ''magnetic-field'', ''orientation'', ''temperature'', ''proximity'', ''light'', ''pressure'',
      ''humidity'']"

text \<open>\<open>SENSORS_HANDLE_BASE\<close> is 0, so that the identifier of a sensor is its position.\<close>

abbreviation MAX_NUM_SENSORS :: nat where
  "MAX_NUM_SENSORS \<equiv> 8"

definition sensorIdToName :: "int \<Rightarrow> string" where
  "sensorIdToName i = (if 0 \<le> i \<and> i < int MAX_NUM_SENSORS then sensor_names ! nat i else ''<UNKNOWN>'')"

definition sensorIdFromName :: "string option \<Rightarrow> int" where
  "sensorIdFromName name =
     (case name of
        None \<Rightarrow> -1
      | Some s \<Rightarrow> (case find (\<lambda>i. s = sensor_names ! i) [0..<MAX_NUM_SENSORS] of None \<Rightarrow> -1 | Some i \<Rightarrow> int i))"

text \<open>A negative number is a large one without a sign.\<close>

definition id_check :: "int \<Rightarrow> bool" where
  "id_check x \<longleftrightarrow> 0 \<le> x \<and> x < int MAX_NUM_SENSORS"

section \<open>The device\<close>

record sensors_event =
  ev_sensor :: int
  ev_type :: string
  ev_timestamp :: int
  ev_data :: "real list"
  ev_status :: string

record sensor_device =
  sd_sensors :: "sensors_event list"
  sd_pending :: u32
  sd_timeStart :: int
  sd_timeOffset :: int
  sd_active :: u32
  sd_fd :: int
  sd_sent :: "string list"

text \<open>Constants of Android are their names; the empty one is 0.\<close>

definition no_event :: sensors_event where
  "no_event = \<lparr>ev_sensor = 0, ev_type = '''', ev_timestamp = 0, ev_data = [0, 0, 0], ev_status = ''''\<rparr>"

definition open_sensors :: "string \<Rightarrow> sensor_device option" where
  "open_sensors name =
     (if name = ''poll''
      then Some \<lparr>sd_sensors = replicate MAX_NUM_SENSORS no_event, sd_pending = 0, sd_timeStart = 0, sd_timeOffset = 0,
                 sd_active = 0, sd_fd = -1, sd_sent = []\<rparr>
      else None)"

text \<open>The descriptor of the channel or the error, and whether sending fails. An error number is not 0: \<open>n + 1\<close> is given as \<open>n\<close>.
  A negative result is an error.\<close>

record sensor_answers =
  sa_open :: "nat + nat"
  sa_send :: "nat option"

definition sensor_device_get_fd :: "sensor_answers \<Rightarrow> sensor_device \<Rightarrow> int \<times> sensor_device" where
  "sensor_device_get_fd a dev =
     (if sd_fd dev < 0
      then case sa_open a of
          Inr n \<Rightarrow> (- int (n + 1), dev\<lparr>sd_fd := -1\<rparr>)
        | Inl fd \<Rightarrow> (int fd, dev\<lparr>sd_fd := int fd\<rparr>)
      else (sd_fd dev, dev))"

definition sensor_device_send_command :: "sensor_answers \<Rightarrow> string \<Rightarrow> sensor_device \<Rightarrow> int \<times> sensor_device" where
  "sensor_device_send_command a cmd dev =
     (case sensor_device_get_fd a dev of
        (fd, dev) \<Rightarrow>
          if fd < 0 then (fd, dev)
          else case sa_send a of
              Some n \<Rightarrow> (- int (n + 1), dev)
            | None \<Rightarrow> (0, dev\<lparr>sd_sent := sd_sent dev @ [cmd]\<rparr>))"

section \<open>Switching sensors\<close>

definition sensor_device_activate :: "sensor_answers \<Rightarrow> int \<Rightarrow> int \<Rightarrow> sensor_device \<Rightarrow> int \<times> sensor_device" where
  "sensor_device_activate a handle enabled dev =
     (if \<not> id_check handle then (-22, dev)
      else
        let mask = push_bit (nat handle) 1;
            sensors = (if enabled \<noteq> 0 then mask else 0);
            active = sd_active dev;
            new_sensors = (active AND NOT mask) OR (sensors AND mask);
            changed = active XOR new_sensors
        in if changed = 0 then (0, dev)
           else case sensor_device_send_command a
                       (''set:'' @ sensorIdToName handle @ '':'' @ (if enabled \<noteq> 0 then ''1'' else ''0'')) dev of
                  (ret, dev) \<Rightarrow> if ret < 0 then (ret, dev) else (ret, dev\<lparr>sd_active := new_sensors\<rparr>))"

text \<open>Division in C rounds towards 0; the quotient is stored in an \<open>int\<close>.\<close>

definition delay_ms :: "int \<Rightarrow> int" where
  "delay_ms ns = (let q = sgn ns * (\<bar>ns\<bar> div 1000000) in (q + 2 ^ 31) mod 2 ^ 32 - 2 ^ 31)"

definition sensor_device_set_delay :: "sensor_answers \<Rightarrow> int \<Rightarrow> sensor_device \<Rightarrow> int \<times> sensor_device" where
  "sensor_device_set_delay a ns dev = sensor_device_send_command a (''set-delay:'' @ show_int (delay_ms ns)) dev"

section \<open>Receiving events\<close>

type_synonym scan_g = "string \<Rightarrow> (real \<times> string) option"

text \<open>\<open>sscanf\<close> with \<open>n\<close> conversions, one colon before each.\<close>

fun scan_values :: "scan_g \<Rightarrow> nat \<Rightarrow> string \<Rightarrow> real list option" where
  "scan_values scan 0 s = Some []"
| "scan_values scan (Suc n) s =
     (case s of
        [] \<Rightarrow> None
      | c # s \<Rightarrow>
          if c \<noteq> CHR '':'' then None
          else case scan s of
              None \<Rightarrow> None
            | Some (v, rest) \<Rightarrow> map_option (Cons v) (scan_values scan n rest))"

definition scan_message :: "scan_g \<Rightarrow> string \<Rightarrow> nat \<Rightarrow> string \<Rightarrow> real list option" where
  "scan_message scan name n s =
     (if take (length name) s = name then scan_values scan n (drop (length name) s) else None)"

text \<open>What a message of an event starts with, its sensor, how many values, the type and the status that is stored.\<close>

definition event_kinds :: "(string \<times> nat \<times> nat \<times> string \<times> string option) list" where
  "event_kinds =
     [(''acceleration'', 0, 3, ''SENSOR_TYPE_ACCELEROMETER'', None),
      (''orientation'', 2, 3, ''SENSOR_TYPE_ORIENTATION'', Some ''SENSOR_STATUS_ACCURACY_HIGH''),
      (''magnetic'', 1, 3, ''SENSOR_TYPE_MAGNETIC_FIELD'', Some ''SENSOR_STATUS_ACCURACY_HIGH''),
      (''temperature'', 3, 1, ''SENSOR_TYPE_TEMPERATURE'', None),
      (''proximity'', 4, 1, ''SENSOR_TYPE_PROXIMITY'', None),
      (''light'', 5, 1, ''SENSOR_TYPE_LIGHT'', None),
      (''pressure'', 6, 1, ''SENSOR_TYPE_PRESSURE'', None),
      (''humidity'', 7, 1, ''SENSOR_TYPE_RELATIVE_HUMIDITY'', None)]"

definition store_event :: "real list \<Rightarrow> string \<Rightarrow> string option \<Rightarrow> sensors_event \<Rightarrow> sensors_event" where
  "store_event vs type status ev =
     ev\<lparr>ev_data := vs @ drop (length vs) (ev_data ev), ev_type := type,
        ev_status := (case status of None \<Rightarrow> ev_status ev | Some s \<Rightarrow> s)\<rparr>"

text \<open>The first kind that the message can be read as; the sensor it is of, and the events with the values.\<close>

fun read_event ::
  "(string \<times> nat \<times> nat \<times> string \<times> string option) list \<Rightarrow> scan_g \<Rightarrow> string \<Rightarrow> sensors_event list \<Rightarrow>
     (nat \<times> sensors_event list) option" where
  "read_event [] scan s events = None"
| "read_event ((name, i, n, type, status) # kinds) scan s events =
     (case scan_message scan name n s of
        Some vs \<Rightarrow> Some (i, events[i := store_event vs type status (events ! i)])
      | None \<Rightarrow> read_event kinds scan s events)"

definition scan_sync :: "string \<Rightarrow> int option" where
  "scan_sync s = (if take 5 s = ''sync:'' then scan_int (drop 5 s) else None)"

datatype sensor_message = Received "byte list" | Receive_error nat

text \<open>The string in the buffer, which has room for 255 bytes.\<close>

definition message_string :: "byte list \<Rightarrow> string" where
  "message_string bs = string_of (takeWhile (\<lambda>b. b \<noteq> 0) (take 255 bs))"


record waiting =
  wt_new :: u32
  wt_time :: int

text \<open>One round of the loop: on with the loop, or out of it with a result.\<close>

definition poll_round ::
  "scan_g \<Rightarrow> sensor_message \<Rightarrow> waiting \<Rightarrow> sensor_device \<Rightarrow> int option \<times> waiting \<times> sensor_device" where
  "poll_round scan msg w dev =
     (case msg of
        Receive_error n \<Rightarrow> (Some (- int (n + 1)), w, dev)
      | Received bs \<Rightarrow>
          let s = message_string bs in
          if s = ''wake'' then (Some (2 ^ 31 - 1), w, dev)
          else case read_event event_kinds scan s (sd_sensors dev) of
              Some (i, events) \<Rightarrow>
                (None, w\<lparr>wt_new := wt_new w OR push_bit i 1\<rparr>, dev\<lparr>sd_sensors := events\<rparr>)
            | None \<Rightarrow>
                (case scan_sync s of
                   Some t \<Rightarrow> (if wt_new w \<noteq> 0 then Some 0 else None, w\<lparr>wt_time := t\<rparr>, dev)
                 | None \<Rightarrow> (None, w, dev)))"

text \<open>Behind the loop. \<open>now\<close> is the clock in nanoseconds.\<close>

definition poll_out :: "int \<Rightarrow> waiting \<Rightarrow> sensor_device \<Rightarrow> sensor_device" where
  "poll_out now w dev =
     (if wt_new w = 0 then dev
      else
        let t = (if wt_time w < 0 then 0 else wt_time w * 1000);
            dev = dev\<lparr>sd_pending := sd_pending dev OR wt_new w\<rparr>;
            dev = (if sd_timeStart dev = 0 then dev\<lparr>sd_timeStart := now, sd_timeOffset := now - t\<rparr> else dev);
            t = t + sd_timeOffset dev
        in dev\<lparr>sd_sensors :=
             map (\<lambda>(i, ev). if bit (wt_new w) i then ev\<lparr>ev_timestamp := t\<rparr> else ev) (enumerate 0 (sd_sensors dev))\<rparr>)"

section \<open>Handing events out\<close>

text \<open>\<open>31 - __builtin_clz\<close>: the position of the highest bit.\<close>

definition top_bit :: "u32 \<Rightarrow> nat" where
  "top_bit w = hd (filter (bit w) (rev [0..<32]))"

definition pick_pending :: "sensor_device \<Rightarrow> sensors_event option \<times> sensor_device" where
  "pick_pending d =
     (let mask = 0xFF AND sd_pending d in
      if mask \<noteq> 0
      then let i = top_bit mask in
        (Some ((sd_sensors d ! i)\<lparr>ev_sensor := int i\<rparr>), d\<lparr>sd_pending := sd_pending d AND NOT (push_bit i 1)\<rparr>)
      else (None, d))"

text \<open>At most \<open>count\<close> events; without one the error is the result, if it is the first.\<close>

primrec pick_events :: "nat \<Rightarrow> sensor_device \<Rightarrow> int \<times> sensors_event list \<times> sensor_device" where
  "pick_events 0 d = (0, [], d)"
| "pick_events (Suc n) d =
     (if sd_pending d = 0 then (0, [], d)
      else case pick_pending d of
          (None, d) \<Rightarrow> (-22, [], d)
        | (Some ev, d) \<Rightarrow>
            (case pick_events n d of
               (result, evs, d) \<Rightarrow> (if result < 0 then 1 else result + 1, ev # evs, d)))"

text \<open>\<open>sensor_device_poll\<close> is left with the lock held where it blocks: it returns at once, or waits with nothing received.\<close>

datatype poll_result = Returned int "sensors_event list" | Blocked waiting

definition poll_start :: "sensor_answers \<Rightarrow> int \<Rightarrow> sensor_device \<Rightarrow> poll_result \<times> sensor_device" where
  "poll_start a count dev =
     (if count \<le> 0 then (Returned (-22) [], dev)
      else if sd_pending dev = 0
      then case sensor_device_get_fd a dev of
          (fd, dev) \<Rightarrow> if fd < 0 then (Returned fd [], dev) else (Blocked \<lparr>wt_new = 0, wt_time = -1\<rparr>, dev)
      else case pick_events (nat count) dev of (result, evs, dev) \<Rightarrow> (Returned result evs, dev))"

text \<open>A message reaches the thread that waits.\<close>

definition poll_continue ::
  "scan_g \<Rightarrow> int \<Rightarrow> int \<Rightarrow> sensor_message \<Rightarrow> waiting \<Rightarrow> sensor_device \<Rightarrow> poll_result \<times> sensor_device" where
  "poll_continue scan now count msg w dev =
     (case poll_round scan msg w dev of
        (None, w, dev) \<Rightarrow> (Blocked w, dev)
      | (Some ret, w, dev) \<Rightarrow>
          let dev = poll_out now w dev in
          if ret < 0 then (Returned ret [], dev)
          else if sd_pending dev = 0 then (Returned (-5) [], dev)
          else case pick_events (nat count) dev of (result, evs, dev) \<Rightarrow> (Returned result evs, dev))"

definition sensor_device_close :: "sensor_device \<Rightarrow> int option" where
  "sensor_device_close dev = (if sd_fd dev \<ge> 0 then Some (sd_fd dev) else None)"

section \<open>The list of the sensors\<close>

definition sensor_types :: "string list" where
  "sensor_types =
     [''SENSOR_TYPE_ACCELEROMETER'', ''SENSOR_TYPE_MAGNETIC_FIELD'', ''SENSOR_TYPE_ORIENTATION'',
      ''SENSOR_TYPE_TEMPERATURE'', ''SENSOR_TYPE_PROXIMITY'', ''SENSOR_TYPE_LIGHT'', ''SENSOR_TYPE_PRESSURE'',
      ''SENSOR_TYPE_RELATIVE_HUMIDITY'']"

text \<open>\<open>atoi\<close>: a number that is not there is 0.\<close>

definition available_sensors :: "string \<Rightarrow> nat list" where
  "available_sensors s =
     (let mask = (case scan_int s of None \<Rightarrow> 0 | Some n \<Rightarrow> n) in filter (\<lambda>n. bit mask n) [0..<MAX_NUM_SENSORS])"

text \<open>The result and the sensors of the list, by their handles. \<open>opened\<close>: there is a channel; \<open>reply\<close>: what was received, or
  an error, as a negative number, of sending or receiving.\<close>

definition get_sensors_list :: "bool \<Rightarrow> int + byte list \<Rightarrow> int \<times> nat list option" where
  "get_sensors_list opened reply =
     (if \<not> opened then (0, None)
      else case reply of
          Inl e \<Rightarrow> (e, None)
        | Inr bs \<Rightarrow>
            let sensors = available_sensors (string_of (takeWhile (\<lambda>b. b \<noteq> 0) (take 11 bs))) in
            (int (length sensors), Some sensors))"

section \<open>Threads\<close>

text \<open>One thread polls; others switch sensors and set delays, before the next message or between two messages.\<close>

record sensor_threads =
  ts_device :: sensor_device
  ts_poll :: "(waiting \<times> int) option"

datatype sensor_op =
    Sn_activate sensor_answers int int
  | Sn_set_delay sensor_answers int
  | Sn_poll sensor_answers int
  | Sn_message sensor_message int

definition after_poll :: "int \<Rightarrow> poll_result \<times> sensor_device \<Rightarrow> (int \<times> sensors_event list) option \<times> sensor_threads" where
  "after_poll count r =
     (case r of
        (Returned ret evs, dev) \<Rightarrow> (Some (ret, evs), \<lparr>ts_device = dev, ts_poll = None\<rparr>)
      | (Blocked w, dev) \<Rightarrow> (None, \<lparr>ts_device = dev, ts_poll = Some (w, count)\<rparr>))"

text \<open>What the polling thread got, if it returned.\<close>

fun sensor_step :: "scan_g \<Rightarrow> sensor_op \<Rightarrow> sensor_threads \<Rightarrow> (int \<times> sensors_event list) option \<times> sensor_threads" where
  "sensor_step scan (Sn_activate a handle enabled) s =
     (None, s\<lparr>ts_device := snd (sensor_device_activate a handle enabled (ts_device s))\<rparr>)"
| "sensor_step scan (Sn_set_delay a ns) s =
     (None, s\<lparr>ts_device := snd (sensor_device_set_delay a ns (ts_device s))\<rparr>)"
| "sensor_step scan (Sn_poll a count) s =
     (case ts_poll s of
        None \<Rightarrow> after_poll count (poll_start a count (ts_device s))
      | Some _ \<Rightarrow> (None, s))"
| "sensor_step scan (Sn_message msg now) s =
     (case ts_poll s of
        None \<Rightarrow> (None, s)
      | Some (w, count) \<Rightarrow> after_poll count (poll_continue scan now count msg w (ts_device s)))"

text \<open>A history from an opened device: the state and all that was returned by polling, the last first.\<close>

inductive sensor_history :: "scan_g \<Rightarrow> sensor_threads \<Rightarrow> (int \<times> sensors_event list) list \<Rightarrow> bool" for scan where
  opened: "open_sensors ''poll'' = Some dev \<Longrightarrow> sensor_history scan \<lparr>ts_device = dev, ts_poll = None\<rparr> []"
| step: "sensor_history scan s rs \<Longrightarrow> sensor_step scan op s = (r, t) \<Longrightarrow>
     sensor_history scan t (case r of None \<Rightarrow> rs | Some x \<Rightarrow> x # rs)"

section \<open>No event is lost\<close>

definition bits_of :: "u32 \<Rightarrow> nat set" where
  "bits_of w = {i. bit w i}"

lemma bits_of_simps [simp]:
  "bits_of (v OR w) = bits_of v \<union> bits_of w" "bits_of 0 = {}"
  by (auto simp: bits_of_def bit_simps)

lemma bits_of_empty [simp]: "bits_of w = {} \<longleftrightarrow> w = 0"
proof
  assume "bits_of w = {}"
  then show "w = 0" by (intro bit_eqI) (simp add: bits_of_def)
qed simp














lemma get_fd_keeps:
  "sensor_device_get_fd a d = (fd, e) \<Longrightarrow>
     sd_sensors e = sd_sensors d \<and> sd_pending e = sd_pending d \<and> sd_active e = sd_active d \<and> sd_sent e = sd_sent d"
  by (auto simp: sensor_device_get_fd_def split: if_splits sum.splits)


















section \<open>What the host was told\<close>

definition switch_command :: "nat \<Rightarrow> bool \<Rightarrow> string" where
  "switch_command i on = ''set:'' @ sensor_names ! i @ '':'' @ (if on then ''1'' else ''0'')"

text \<open>A sensor is on at the host if the last command that names it says so.\<close>

definition on_at_host :: "nat \<Rightarrow> string list \<Rightarrow> bool" where
  "on_at_host i cmds =
     foldl (\<lambda>on c. if c = switch_command i True then True else if c = switch_command i False then False else on) False cmds"

lemma on_at_host_snoc:
  "on_at_host i (cmds @ [c]) =
     (if c = switch_command i True then True else if c = switch_command i False then False else on_at_host i cmds)"
  by (simp add: on_at_host_def)

lemma switch_commands_differ:
  assumes "i < 8" "j < 8"
  shows "switch_command i on = switch_command j on' \<longleftrightarrow> i = j \<and> on = on'"
proof -
  have "i \<in> {0, 1, 2, 3, 4, 5, 6, 7}" "j \<in> {0, 1, 2, 3, 4, 5, 6, 7}" using assms by auto
  then show ?thesis by (auto simp: switch_command_def sensor_names_def)
qed

lemma delay_is_no_switch: "''set-delay:'' @ s \<noteq> switch_command i on"
  by (simp add: switch_command_def)

definition in_sync :: "sensor_device \<Rightarrow> bool" where
  "in_sync d \<longleftrightarrow> (\<forall>i < 8. bit (sd_active d) i = on_at_host i (sd_sent d))"

lemma send_command_sent:
  assumes "sensor_device_send_command a cmd d = (ret, e)"
  shows "sd_active e = sd_active d \<and> sd_sent e = (if ret < 0 then sd_sent d else sd_sent d @ [cmd])"
  using assms
  by (auto simp: sensor_device_send_command_def dest!: get_fd_keeps split: if_splits option.splits prod.splits)

lemma activate_in_sync:
  assumes "in_sync d"
  shows "in_sync (snd (sensor_device_activate a handle enabled d))"
proof (cases "id_check handle")
  case True
  define i where "i = nat handle"
  define on where "on \<longleftrightarrow> enabled \<noteq> 0"
  have i: "i < 8" "handle = int i" using True by (auto simp: id_check_def i_def)
  let ?new = "(sd_active d AND NOT (push_bit i 1)) OR ((if on then push_bit i 1 else 0) AND push_bit i 1)"
  have new: "bit ?new j = (if j = i then on else bit (sd_active d) j)" if "j < 8" for j
    using that i(1) by (auto simp: bit_simps)
  obtain ret e where c: "sensor_device_send_command a (switch_command i on) d = (ret, e)"
    by (cases "sensor_device_send_command a (switch_command i on) d")
  have "''set:'' @ sensorIdToName handle @ '':'' @ (if enabled \<noteq> 0 then ''1'' else ''0'') = switch_command i on"
    using i by (simp add: switch_command_def sensorIdToName_def on_def)
  then have "snd (sensor_device_activate a handle enabled d) =
      (if sd_active d XOR ?new = 0 then d else if ret < 0 then e else e\<lparr>sd_active := ?new\<rparr>)"
    using True c by (simp add: sensor_device_activate_def Let_def on_def flip: i_def)
  moreover have "in_sync (e\<lparr>sd_active := ?new\<rparr>)" if "\<not> ret < 0"
  proof -
    have s: "sd_sent e = sd_sent d @ [switch_command i on]" using send_command_sent [OF c] that by simp
    have "bit ?new j = on_at_host j (sd_sent e)" if "j < 8" for j
      unfolding s on_at_host_snoc new [OF that]
      using assms that i(1) switch_commands_differ [OF i(1) that] by (cases on) (auto simp: in_sync_def)
    then show ?thesis by (simp add: in_sync_def)
  qed
  moreover have "in_sync e" if "ret < 0" using send_command_sent [OF c] assms that by (simp add: in_sync_def)
  ultimately show ?thesis using assms by simp
qed (use assms in \<open>simp add: sensor_device_activate_def\<close>)

lemma set_delay_in_sync:
  assumes "in_sync d"
  shows "in_sync (snd (sensor_device_set_delay a ns d))"
proof -
  let ?c = "''set-delay:'' @ show_int (delay_ms ns)"
  obtain ret e where c: "sensor_device_send_command a ?c d = (ret, e)" by (cases "sensor_device_send_command a ?c d")
  have "?c \<noteq> switch_command i on" for i on by (rule delay_is_no_switch)
  then have "on_at_host i (sd_sent d @ [?c]) = on_at_host i (sd_sent d)" for i by (simp only: on_at_host_snoc if_False)
  then have "in_sync e" using send_command_sent [OF c] assms by (auto simp: in_sync_def split: if_splits)
  then show ?thesis using c by (simp add: sensor_device_set_delay_def)
qed

lemma pick_events_keeps:
  "pick_events n d = (result, evs, e) \<Longrightarrow> sd_active e = sd_active d \<and> sd_sent e = sd_sent d"
  by (induction n arbitrary: d result evs)
    (auto simp: pick_pending_def Let_def split: if_splits prod.splits option.splits)

lemma poll_out_active [simp]:
  "sd_active (poll_out now w d) = sd_active d" "sd_sent (poll_out now w d) = sd_sent d"
  by (simp_all add: poll_out_def Let_def)

lemma poll_start_keeps:
  "sd_active (snd (poll_start a count d)) = sd_active d \<and> sd_sent (snd (poll_start a count d)) = sd_sent d"
  by (auto simp: poll_start_def dest!: get_fd_keeps pick_events_keeps split: prod.splits)

lemma poll_round_keeps:
  "poll_round scan msg w d = (r, w', e) \<Longrightarrow> sd_active e = sd_active d \<and> sd_sent e = sd_sent d"
  by (auto simp: poll_round_def Let_def split: sensor_message.splits if_splits option.splits)

lemma poll_continue_keeps:
  "sd_active (snd (poll_continue scan now count msg w d)) = sd_active d \<and>
   sd_sent (snd (poll_continue scan now count msg w d)) = sd_sent d"
proof -
  obtain r w' e where r: "poll_round scan msg w d = (r, w', e)" by (cases "poll_round scan msg w d") auto
  from poll_round_keeps [OF r] show ?thesis
    by (auto simp: poll_continue_def r Let_def dest!: pick_events_keeps split: option.splits prod.splits)
qed

lemma after_poll_device: "ts_device (snd (after_poll count r)) = snd r"
  by (auto simp: after_poll_def split: prod.splits poll_result.splits)

lemma sensor_step_in_sync:
  assumes "in_sync (ts_device s)"
  shows "in_sync (ts_device (snd (sensor_step scan op s)))"
proof (cases op)
  case (Sn_activate a handle enabled)
  then show ?thesis using activate_in_sync [OF assms] by simp
next
  case (Sn_set_delay a ns)
  then show ?thesis using set_delay_in_sync [OF assms] by simp
next
  case (Sn_poll a count)
  then show ?thesis using assms poll_start_keeps [of a count "ts_device s"]
    by (cases "ts_poll s") (simp_all add: after_poll_device in_sync_def)
next
  case (Sn_message msg now)
  show ?thesis
  proof (cases "ts_poll s")
    case None
    then show ?thesis using assms Sn_message by simp
  next
    case (Some r)
    obtain w count where "r = (w, count)" by (cases r)
    then show ?thesis using assms Sn_message Some poll_continue_keeps [of scan now count msg w "ts_device s"]
      by (simp add: after_poll_device in_sync_def)
  qed
qed

text \<open>In every history the sensors that the device counts as active are those the host was last told to switch on, for every
  one of the eight sensors: commands that could not be sent change nothing, and a command that would change nothing is
  not sent.\<close>

lemma active_sensors_known_to_host:
  assumes "sensor_history scan s rs" "i < 8"
  shows "bit (sd_active (ts_device s)) i = on_at_host i (sd_sent (ts_device s))"
proof -
  have "in_sync (ts_device s)"
    using assms(1)
  proof (induction rule: sensor_history.induct)
    case (opened dev)
    then show ?case by (auto simp: open_sensors_def in_sync_def on_at_host_def)
  next
    case (step s rs op r t)
    then show ?case using sensor_step_in_sync [of s scan op] by simp
  qed
  then show ?thesis using assms(2) by (simp add: in_sync_def)
qed

text \<open>The host has no sensors: what its service answers is a list with none.\<close>

lemma host_has_no_sensors: "list_sensors = qemud_message ''0'' @ [0] \<and> get_sensors_list True (Inr (bytes_of ''0'')) = (0, Some [])"
proof -
  have "available_sensors ''0'' = []"
    by (simp add: available_sensors_def scan_int_def scan_digits_def c_isspace_def c_isdigit_def)
  moreover have "byte_of (CHR ''0'') \<noteq> 0" by (simp add: byte_of_def)
  ultimately show ?thesis
    by (simp add: list_sensors_def finish_message_def get_sensors_list_def Let_def)
qed

section \<open>A light\<close>

definition digit_scan :: scan_g where
  "digit_scan s =
     (case s of [] \<Rightarrow> None | c # rest \<Rightarrow> if c_isdigit c then Some (of_char c - 48, rest) else None)"

definition example_sensors :: sensor_device where
  "example_sensors =
     \<lparr>sd_sensors = replicate 8 no_event, sd_pending = 0, sd_timeStart = 0, sd_timeOffset = 0, sd_active = 0, sd_fd = 4,
      sd_sent = [''set:light:1'']\<rparr>\<lparr>sd_active := 32\<rparr>"


definition open_answers :: sensor_answers where
  "open_answers = \<lparr>sa_open = Inl 4, sa_send = None\<rparr>"

text \<open>One thread polls, another one switches the light sensor on, a value arrives.\<close>

lemma example_switched:
  "sensor_history digit_scan \<lparr>ts_device = example_sensors, ts_poll = Some (\<lparr>wt_new = 0, wt_time = -1\<rparr>, 2)\<rparr> []"
proof -
  obtain dev where dev: "open_sensors ''poll'' = Some dev" "dev = \<lparr>sd_sensors = replicate 8 no_event, sd_pending = 0,
      sd_timeStart = 0, sd_timeOffset = 0, sd_active = 0, sd_fd = -1, sd_sent = []\<rparr>" by (simp add: open_sensors_def)
  note h0 = sensor_history.opened [OF dev(1), of digit_scan]
  let ?s1 = "\<lparr>ts_device = dev\<lparr>sd_fd := 4\<rparr>, ts_poll = Some (\<lparr>wt_new = 0, wt_time = -1\<rparr>, 2)\<rparr>"
  have "sensor_step digit_scan (Sn_poll open_answers 2) \<lparr>ts_device = dev, ts_poll = None\<rparr> = (None, ?s1)"
    by (simp add: poll_start_def after_poll_def sensor_device_get_fd_def open_answers_def dev(2))
  from sensor_history.step [OF h0 this] have h1: "sensor_history digit_scan ?s1 []" by simp
  have "sensor_step digit_scan (Sn_activate open_answers 5 1) ?s1 =
      (None, \<lparr>ts_device = example_sensors, ts_poll = Some (\<lparr>wt_new = 0, wt_time = -1\<rparr>, 2)\<rparr>)"
    by (simp add: sensor_device_activate_def sensor_device_send_command_def sensor_device_get_fd_def open_answers_def dev(2)
        id_check_def sensorIdToName_def sensor_names_def example_sensors_def)
  from sensor_history.step [OF h1 this] show ?thesis by simp
qed



theorem active_sensors_known_to_host_witness: "bit (sd_active example_sensors) 5 = on_at_host 5 [''set:light:1'']"
  using active_sensors_known_to_host [OF example_switched, of 5] by (simp add: example_sensors_def)

text \<open>After a \<open>wake\<close> the events get the time of the start of the clock, which lies before events already handed out.\<close>

lemma wake_turns_time_back:
  assumes "sd_timeStart d \<noteq> 0" "bit (wt_new w) i" "i < length (sd_sensors d)" "wt_time w < 0"
  shows "ev_timestamp (sd_sensors (poll_out now w d) ! i) = sd_timeOffset d"
proof -
  have "wt_new w \<noteq> 0" using assms(2) by auto
  then show ?thesis using assms by (simp add: poll_out_def Let_def enumerate_eq_zip)
qed


end
