(* ===== verification/HwControl.thy ===== *)
theory HwControl
  imports Qemud
begin

unbundle bit_operations_syntax

text \<open>
  The modules of Android for lights, the vibrator and power (\<open>android/lights/lights_qemu.c\<close>,
  \<open>android/vibrator/vibrator_qemu.c\<close>, \<open>android/power/power_qemu.c\<close>): each sends a command to the service \<open>hw-control\<close>. Whether
  there is a channel and sending succeeds is an argument. A result is the status and the command that was sent.
  Shown here: the brightness is a byte, 0 for black and 255 for white and grows with each colour; the host takes the commands and does nothing.
\<close>

section \<open>Lights\<close>

definition rgb_to_brightness :: "u32 \<Rightarrow> nat" where
  "rgb_to_brightness color =
     (let color = color AND 0x00ffffff in
      (77 * unat (drop_bit 16 color AND 0xff) + 150 * unat (drop_bit 8 color AND 0xff) + 29 * unat (color AND 0xff)) div 256)"

definition set_light_backlight :: "bool \<Rightarrow> bool \<Rightarrow> u32 \<Rightarrow> int \<times> string option" where
  "set_light_backlight opened sent color =
     (if \<not> opened then (-1, None)
      else if \<not> sent then (-1, None)
      else (0, Some (''power:light:brightness:lcd_backlight:'' @ show_nat (rgb_to_brightness color))))"

datatype light = Backlight | Keyboard | Buttons | Battery | Notifications | Attention

text \<open>The names are those of \<open>LIGHT_ID\<close>. \<open>memory\<close>: \<open>malloc\<close> has memory.\<close>

definition open_lights :: "bool \<Rightarrow> string \<Rightarrow> int \<times> light option" where
  "open_lights memory name =
     (case map_of [(''backlight'', Backlight), (''keyboard'', Keyboard), (''buttons'', Buttons), (''battery'', Battery),
                   (''notifications'', Notifications), (''attention'', Attention)] name of
        None \<Rightarrow> (-22, None)
      | Some l \<Rightarrow> if memory then (0, Some l) else (-22, None))"

text \<open>Only the backlight does anything.\<close>

definition set_light :: "bool \<Rightarrow> bool \<Rightarrow> light \<Rightarrow> u32 \<Rightarrow> int \<times> string option" where
  "set_light opened sent l color = (if l = Backlight then set_light_backlight opened sent color else (0, None))"

section \<open>Vibrator and power\<close>

text \<open>\<open>errno\<close> is that of the command that failed; 38 is \<open>ENOSYS\<close>.\<close>

definition vibrator_sendit :: "bool \<Rightarrow> int option \<Rightarrow> u32 \<Rightarrow> int \<times> string option" where
  "vibrator_sendit qemu errno timeout_ms =
     (if \<not> qemu then (-38, None)
      else case errno of
          Some e \<Rightarrow> (- e, None)
        | None \<Rightarrow> (0, Some (''vibrator:'' @ show_nat (unat timeout_ms))))"

definition qemu_vibra_on :: "bool \<Rightarrow> int option \<Rightarrow> u32 \<Rightarrow> int \<times> string option" where
  "qemu_vibra_on qemu errno timeout_ms = vibrator_sendit qemu errno timeout_ms"

definition qemu_vibra_off :: "bool \<Rightarrow> int option \<Rightarrow> int \<times> string option" where
  "qemu_vibra_off qemu errno = vibrator_sendit qemu errno 0"

text \<open>The descriptor of the channel is used even if there is none; the kernel then refuses it.\<close>

definition power_qemu_set_interactive :: "bool \<Rightarrow> bool \<Rightarrow> string option" where
  "power_qemu_set_interactive sent on =
     (if sent then Some (if on then ''power:screen_state:wake'' else ''power:screen_state:standby'') else None)"

section \<open>Brightness\<close>

lemma brightness_parts:
  "\<exists>r g b. r \<le> 255 \<and> g \<le> 255 \<and> b \<le> 255 \<and> rgb_to_brightness color = (77 * r + 150 * g + 29 * b) div 256 \<and>
    r = unat (drop_bit 16 color AND 0xff) \<and> g = unat (drop_bit 8 color AND 0xff) \<and> b = unat (color AND 0xff)"
proof -
  let ?m = "color AND 0x00ffffff"
  have byte: "unat (w AND 0xff) \<le> 255" for w :: u32
  proof -
    have "w AND 0xff \<le> 0xff" by (rule word_and_le1)
    then have "unat (w AND 0xff) \<le> unat (0xff :: u32)" by (rule word_le_nat_alt [THEN iffD1])
    then show ?thesis by simp
  qed
  have mask: "(0xffffff :: u32) = mask 24" "(0xff :: u32) = mask 8" by (simp_all add: mask_eq_exp_minus_1)
  have cut: "drop_bit n ?m AND 0xff = drop_bit n color AND 0xff" if "n \<le> 16" for n
    unfolding mask by (rule bit_eqI) (use that in \<open>auto simp: bit_simps\<close>)
  have "?m AND 0xff = color AND 0xff" using cut [of 0] by simp
  then show ?thesis using byte cut [of 16] cut [of 8] by (auto simp: rgb_to_brightness_def Let_def)
qed

lemma brightness_byte: "rgb_to_brightness color \<le> 255"
proof -
  obtain r g b where "r \<le> 255" "g \<le> 255" "b \<le> 255" "rgb_to_brightness color = (77 * r + 150 * g + 29 * b) div 256"
    using brightness_parts by blast
  then show ?thesis by auto
qed

lemma brightness_ends: "rgb_to_brightness 0 = 0 \<and> rgb_to_brightness 0xffffff = 255"
  by (simp add: rgb_to_brightness_def)

text \<open>The host has a service for the commands, which answers none of them.\<close>

lemma host_ignores_control: "handle_command Hw_Control c = []"
  by simp

end
