(* ===== verification/CameraClient.thy ===== *)
theory CameraClient
  imports Complex_Main Qemud
begin

text \<open>
  The client of the camera service in Android (\<open>android/camera/QemuClient.cpp\<close>): queries, their replies, and the two
  clients, for the list of the cameras and for one camera. The pipe is a record of functions on a state: opening,
  writing, reading and the value of \<open>errno\<close>, which are \<open>qemud\<close>'s and the kernel's; \<open>malloc\<close> is an argument that says which sizes
  can be had. Frame values are real numbers, printed by \<open>%g\<close>, which is an argument.
  Shown here: which replies are accepted; in the locale \<open>reply_service\<close> that a query whose answer is framed as the client
  expects is completed with the data of the answer, and that every other short answer is an error; the queries arrive as they were
  sent at the camera service of \<open>Qemud\<close>, an interpretation of the locale, and it never answers so that the client understands.
\<close>

section \<open>Queries\<close>

datatype status = NO_ERROR | Status string

record qemu_query =
  mQuery :: string
  mQueryDeliveryStatus :: status
  mReplyBuffer :: "byte list option"
  mReplyData :: "byte list option"
  mReplyDataSize :: nat
  mReplyStatus :: bool

definition reset_query :: qemu_query where
  "reset_query =
     \<lparr>mQuery = '''', mQueryDeliveryStatus = NO_ERROR, mReplyBuffer = None, mReplyData = None, mReplyDataSize = 0,
      mReplyStatus = False\<rparr>"

text \<open>The constructor stores the status that \<open>createQuery\<close> returns; \<open>new\<close> does not fail.\<close>

definition create_query :: "string option \<Rightarrow> string option \<Rightarrow> qemu_query" where
  "create_query name param =
     (case name of
        None \<Rightarrow> reset_query\<lparr>mQueryDeliveryStatus := Status ''EINVAL''\<rparr>
      | Some n \<Rightarrow>
          if n = [] then reset_query\<lparr>mQueryDeliveryStatus := Status ''EINVAL''\<rparr>
          else reset_query\<lparr>mQuery := (case param of
              None \<Rightarrow> n
            | Some p \<Rightarrow> if p = [] then n else n @ '' '' @ p)\<rparr>)"

definition failed_query :: "qemu_query \<Rightarrow> status \<times> qemu_query" where
  "failed_query q = (Status ''EINVAL'', q\<lparr>mQueryDeliveryStatus := Status ''EINVAL''\<rparr>)"

definition completeQuery :: "status \<Rightarrow> qemu_query \<Rightarrow> status \<times> qemu_query" where
  "completeQuery status q =
     (let q = q\<lparr>mQueryDeliveryStatus := status\<rparr> in
      if status \<noteq> NO_ERROR then (status, q)
      else case mReplyBuffer q of
          None \<Rightarrow> failed_query q
        | Some buf \<Rightarrow>
            if length buf < 3 then failed_query q
            else if take 2 buf \<noteq> bytes_of ''ok'' \<and> take 2 buf \<noteq> bytes_of ''ko'' then failed_query q
            else
              let q = q\<lparr>mReplyStatus := (take 2 buf = bytes_of ''ok'')\<rparr> in
              if length buf > 3
              then (if buf ! 2 \<noteq> byte_of (CHR '':'') then failed_query q
                    else (NO_ERROR, q\<lparr>mReplyData := Some (drop 3 buf), mReplyDataSize := length buf - 3\<rparr>))
              else if buf ! 2 \<noteq> 0 then failed_query q
              else (NO_ERROR, q))"

definition isQuerySucceeded :: "qemu_query \<Rightarrow> bool" where
  "isQuerySucceeded q \<longleftrightarrow> mQueryDeliveryStatus q = NO_ERROR \<and> mReplyStatus q"

definition getCompletionStatus :: "qemu_query \<Rightarrow> status" where
  "getCompletionStatus q =
     (if mQueryDeliveryStatus q = NO_ERROR
      then (if mReplyStatus q then NO_ERROR else Status ''EINVAL'')
      else mQueryDeliveryStatus q)"

section \<open>The client\<close>

record 's qemu_pipe =
  pp_open :: "string \<Rightarrow> 's \<Rightarrow> int \<times> 's"
  pp_write :: "byte list \<Rightarrow> 's \<Rightarrow> int \<times> 's"
  pp_read :: "nat \<Rightarrow> 's \<Rightarrow> byte list option \<times> 's"
  pp_errno :: "'s \<Rightarrow> string option"

record 's qemu_client =
  mPipeFD :: int
  qc_pipe :: 's

definition errno_or :: "'s qemu_pipe \<Rightarrow> 's \<Rightarrow> string \<Rightarrow> status" where
  "errno_or P s e = Status (case pp_errno P s of None \<Rightarrow> e | Some n \<Rightarrow> n)"

definition connectClient :: "'s qemu_pipe \<Rightarrow> string option \<Rightarrow> 's qemu_client \<Rightarrow> status \<times> 's qemu_client" where
  "connectClient P param c =
     (if mPipeFD c \<ge> 0 then (Status ''EINVAL'', c)
      else
        let name = (case param of
            None \<Rightarrow> ''qemud:camera''
          | Some p \<Rightarrow> if p = [] then ''qemud:camera'' else ''qemud:camera:'' @ p) in
        case pp_open P name (qc_pipe c) of
          (fd, s) \<Rightarrow>
            let c = c\<lparr>mPipeFD := fd, qc_pipe := s\<rparr> in
            if fd < 0 then (errno_or P s ''EINVAL'', c) else (NO_ERROR, c))"

definition disconnectClient :: "'s qemu_client \<Rightarrow> 's qemu_client" where
  "disconnectClient c = (if mPipeFD c \<ge> 0 then c\<lparr>mPipeFD := -1\<rparr> else c)"

definition sendMessage :: "'s qemu_pipe \<Rightarrow> byte list \<Rightarrow> 's qemu_client \<Rightarrow> status \<times> 's qemu_client" where
  "sendMessage P data c =
     (if mPipeFD c < 0 then (Status ''EINVAL'', c)
      else case pp_write P data (qc_pipe c) of
          (written, s) \<Rightarrow>
            (if written = int (length data) then NO_ERROR else errno_or P s ''EIO'', c\<lparr>qc_pipe := s\<rparr>))"

text \<open>\<open>strtol\<close> with base 16: spaces, a sign, \<open>0x\<close>, digits.\<close>

definition hex_unsigned :: "string \<Rightarrow> int" where
  "hex_unsigned s =
     (if take 2 s \<in> {''0x'', ''0X''} \<and> (case drop 2 s of [] \<Rightarrow> False | c # _ \<Rightarrow> hex_digit c \<noteq> None)
      then int (hex_value (hex_prefix (drop 2 s))) else int (hex_value (hex_prefix s)))"

definition strtol16 :: "string \<Rightarrow> int" where
  "strtol16 s =
     (let s = dropWhile blank s in
      if s \<noteq> [] \<and> hd s = CHR ''-'' then - hex_unsigned (tl s)
      else if s \<noteq> [] \<and> hd s = CHR ''+'' then hex_unsigned (tl s)
      else hex_unsigned s)"

text \<open>The size is a \<open>size_t\<close>; \<open>qemud_fd_read\<close> takes an \<open>int\<close>, a negative one fails. A zero byte ends the string of the size.\<close>

definition receiveMessage ::
  "'s qemu_pipe \<Rightarrow> (nat \<Rightarrow> bool) \<Rightarrow> 's qemu_client \<Rightarrow> (status \<times> byte list option) \<times> 's qemu_client" where
  "receiveMessage P malloc c =
     (if mPipeFD c < 0 then ((Status ''EINVAL'', None), c)
      else case pp_read P 8 (qc_pipe c) of
          (r, s) \<Rightarrow>
            let c = c\<lparr>qc_pipe := s\<rparr> in
            if (case r of None \<Rightarrow> True | Some bs \<Rightarrow> length bs \<noteq> 8) then ((errno_or P s ''EIO'', None), c)
            else
              let payload_size = nat (strtol16 (string_of (takeWhile (\<lambda>b. b \<noteq> 0) (the r))) mod 2 ^ 64) in
              if \<not> malloc payload_size then ((Status ''ENOMEM'', None), c)
              else if payload_size \<ge> 2 ^ 31 then ((errno_or P s ''EIO'', None), c)
              else case pp_read P payload_size s of
                  (r, s) \<Rightarrow>
                    let c = c\<lparr>qc_pipe := s\<rparr> in
                    if (case r of None \<Rightarrow> False | Some bs \<Rightarrow> length bs = payload_size) then ((NO_ERROR, r), c)
                    else ((errno_or P s ''EIO'', None), c))"

text \<open>A query is sent with its terminating zero.\<close>

definition doQuery ::
  "'s qemu_pipe \<Rightarrow> (nat \<Rightarrow> bool) \<Rightarrow> qemu_query \<Rightarrow> 's qemu_client \<Rightarrow> (status \<times> qemu_query) \<times> 's qemu_client" where
  "doQuery P malloc q c =
     (if mQueryDeliveryStatus q \<noteq> NO_ERROR then ((mQueryDeliveryStatus q, q), c)
      else case sendMessage P (bytes_of (mQuery q) @ [0]) c of
          (NO_ERROR, c) \<Rightarrow>
            (case receiveMessage P malloc c of
               ((res, buf), c) \<Rightarrow> (completeQuery res (q\<lparr>mReplyBuffer := buf\<rparr>), c))
        | (res, c) \<Rightarrow> (completeQuery res q, c))"

section \<open>The list of the cameras\<close>

definition listCameras ::
  "'s qemu_pipe \<Rightarrow> (nat \<Rightarrow> bool) \<Rightarrow> 's qemu_client \<Rightarrow> (status \<times> byte list option) \<times> 's qemu_client" where
  "listCameras P malloc c =
     (case doQuery P malloc (create_query (Some ''list'') None) c of
        ((res, q), c) \<Rightarrow>
          if res \<noteq> NO_ERROR \<or> \<not> isQuerySucceeded q then ((getCompletionStatus q, None), c)
          else case mReplyData q of
              None \<Rightarrow> ((Status ''EINVAL'', None), c)
            | Some data \<Rightarrow>
                if malloc (mReplyDataSize q) then ((NO_ERROR, Some data), c) else ((Status ''ENOMEM'', None), c))"

section \<open>One camera\<close>

definition simple_query ::
  "'s qemu_pipe \<Rightarrow> (nat \<Rightarrow> bool) \<Rightarrow> string \<Rightarrow> 's qemu_client \<Rightarrow> (status \<times> qemu_query) \<times> 's qemu_client" where
  "simple_query P malloc name c =
     (case doQuery P malloc (create_query (Some name) None) c of ((_, q), c) \<Rightarrow> ((getCompletionStatus q, q), c))"

definition queryConnect :: "'s qemu_pipe \<Rightarrow> (nat \<Rightarrow> bool) \<Rightarrow> 's qemu_client \<Rightarrow> status \<times> 's qemu_client" where
  "queryConnect P malloc c = (case simple_query P malloc ''connect'' c of ((res, _), c) \<Rightarrow> (res, c))"

definition queryDisconnect :: "'s qemu_pipe \<Rightarrow> (nat \<Rightarrow> bool) \<Rightarrow> 's qemu_client \<Rightarrow> status \<times> 's qemu_client" where
  "queryDisconnect P malloc c = (case simple_query P malloc ''disconnect'' c of ((res, _), c) \<Rightarrow> (res, c))"

definition queryStop :: "'s qemu_pipe \<Rightarrow> (nat \<Rightarrow> bool) \<Rightarrow> 's qemu_client \<Rightarrow> status \<times> 's qemu_client" where
  "queryStop P malloc c = (case simple_query P malloc ''stop'' c of ((res, _), c) \<Rightarrow> (res, c))"

text \<open>The text is cut to 255 characters; the pixel format is printed with a sign.\<close>

definition start_text :: "u32 \<Rightarrow> int \<Rightarrow> int \<Rightarrow> string" where
  "start_text pixel_format width height =
     take 255 (''start dim='' @ show_int width @ ''x'' @ show_int height @ '' pix='' @ show_int (sint pixel_format))"

definition queryStart ::
  "'s qemu_pipe \<Rightarrow> (nat \<Rightarrow> bool) \<Rightarrow> u32 \<Rightarrow> int \<Rightarrow> int \<Rightarrow> 's qemu_client \<Rightarrow> status \<times> 's qemu_client" where
  "queryStart P malloc pixel_format width height c =
     (case simple_query P malloc (start_text pixel_format width height) c of ((res, _), c) \<Rightarrow> (res, c))"

text \<open>A frame that is not wanted has no size. The video frame is first in the reply.\<close>

definition frame_text :: "(real \<Rightarrow> string) \<Rightarrow> nat \<Rightarrow> nat \<Rightarrow> real \<Rightarrow> real \<Rightarrow> real \<Rightarrow> real \<Rightarrow> string" where
  "frame_text show_g video preview r g b exposure =
     take 255 (''frame video='' @ show_nat video @ '' preview='' @ show_nat preview @ '' whiteb='' @ show_g r @ '',''
       @ show_g g @ '','' @ show_g b @ '' expcomp='' @ show_g exposure)"

text \<open>What the reply is cut into: the video frame and the preview frame, as far as there were enough bytes.\<close>

definition split_frames :: "byte list \<Rightarrow> nat \<Rightarrow> nat \<Rightarrow> status \<times> byte list option \<times> byte list option" where
  "split_frames data video preview =
     (if video \<noteq> 0 \<and> length data < video then (Status ''EINVAL'', None, None)
      else
        let v = (if video \<noteq> 0 then Some (take video data) else None); rest = drop video data in
        if preview \<noteq> 0
        then (if length rest < preview then (Status ''EINVAL'', v, None) else (NO_ERROR, v, Some (take preview rest)))
        else (NO_ERROR, v, None))"

definition queryFrame ::
  "'s qemu_pipe \<Rightarrow> (nat \<Rightarrow> bool) \<Rightarrow> (real \<Rightarrow> string) \<Rightarrow> nat \<Rightarrow> nat \<Rightarrow> real \<Rightarrow> real \<Rightarrow> real \<Rightarrow> real \<Rightarrow> 's qemu_client \<Rightarrow>
     (status \<times> byte list option \<times> byte list option) \<times> 's qemu_client" where
  "queryFrame P malloc show_g video preview r g b exposure c =
     (case simple_query P malloc (frame_text show_g video preview r g b exposure) c of
        ((res, q), c) \<Rightarrow>
          if res \<noteq> NO_ERROR then ((res, None, None), c)
          else (split_frames (case mReplyData q of None \<Rightarrow> [] | Some data \<Rightarrow> data) video preview, c))"

section \<open>Replies\<close>

text \<open>A reply is accepted if it is \<open>ok\<close> or \<open>ko\<close> with a zero, or with a colon and data.\<close>

lemma reply_accepted:
  "fst (completeQuery NO_ERROR q) = NO_ERROR \<longleftrightarrow>
     (\<exists>w \<in> {''ok'', ''ko''}. mReplyBuffer q = Some (bytes_of w @ [0]) \<or>
        (\<exists>data. data \<noteq> [] \<and> mReplyBuffer q = Some (bytes_of (w @ '':'') @ data)))"
proof (cases "mReplyBuffer q")
  case None
  then show ?thesis by (simp add: completeQuery_def failed_query_def)
next
  case (Some buf)
  show ?thesis
  proof (cases "length buf < 3")
    case True
    then show ?thesis using Some by (auto simp: completeQuery_def failed_query_def)
  next
    case False
    then obtain x xs where x: "buf = x # xs" "2 \<le> length xs" by (cases buf) auto
    then obtain y ys where y: "xs = y # ys" "1 \<le> length ys" by (cases xs) auto
    then obtain z rest where z: "ys = z # rest" by (cases ys) auto
    note buf = x(1) [unfolded y(1) z]
    show ?thesis using Some False
      by (auto simp: completeQuery_def failed_query_def buf Let_def)
  qed
qed

lemma reply_with_data:
  assumes "data \<noteq> []" "mReplyBuffer q = Some (bytes_of ''ok:'' @ data)"
  shows "\<exists>r. completeQuery NO_ERROR q = (NO_ERROR, r) \<and> isQuerySucceeded r \<and> mReplyData r = Some data \<and>
    mReplyDataSize r = length data"
  using assms by (cases data) (simp_all add: completeQuery_def isQuerySucceeded_def Let_def)

section \<open>The length in front of a reply\<close>

definition pad_hex :: "nat \<Rightarrow> nat \<Rightarrow> string" where
  "pad_hex k n = (let ds = hex_digits n in replicate (k - length ds) (CHR ''0'') @ ds)"

lemma pad_hex_nibbles:
  assumes "n < 16 ^ k" "0 < k"
  shows "length (pad_hex k n) = k \<and> hex_value (pad_hex k n) = n \<and> (\<forall>c \<in> set (pad_hex k n). \<exists>d < 16. c = nibble d)"
proof -
  have "CHR ''0'' = nibble 0" by code_simp
  moreover have "\<exists>d < 16. nibble 0 = nibble d" by (intro exI [of _ 0]) simp
  ultimately show ?thesis
    using hex_digits_ok [of n] hex_digits_length [OF assms] hex_value_pad [of "k - length (hex_digits n)" "hex_digits n"]
    by (auto simp: pad_hex_def Let_def list_all_iff)
qed

lemma strtol16_pad_hex:
  assumes "n < 16 ^ 8"
  shows "strtol16 (pad_hex 8 n) = int n"
proof -
  note h = pad_hex_nibbles [OF assms zero_less_numeral]
  obtain c s where s: "pad_hex 8 n = c # s" using h by (cases "pad_hex 8 n") auto
  obtain c' s' where s': "s = c' # s'" using h s by (cases s) auto
  have nice: "\<not> blank x \<and> x \<noteq> CHR ''-'' \<and> x \<noteq> CHR ''+'' \<and> x \<noteq> CHR ''x'' \<and> x \<noteq> CHR ''X''"
    if "x \<in> set (pad_hex 8 n)" for x
  proof -
    from bspec [OF conjunct2 [OF conjunct2 [OF h]] that] obtain d where "d < 16 \<and> x = nibble d" ..
    then show ?thesis using nibble_not_special [of d] by simp
  qed
  have "hex_prefix (pad_hex 8 n) = pad_hex 8 n"
    unfolding hex_prefix_def using h by (fastforce simp: takeWhile_eq_all_conv)
  then show ?thesis
    using h nice [of c] nice [of c'] by (simp add: strtol16_def hex_unsigned_def s s')
qed

lemma pad_hex_no_zero:
  assumes "n < 16 ^ 8"
  shows "takeWhile (\<lambda>b. b \<noteq> 0) (bytes_of (pad_hex 8 n)) = bytes_of (pad_hex 8 n)"
proof -
  have "byte_of c \<noteq> 0" if "c \<in> set (pad_hex 8 n)" for c
  proof -
    from bspec [OF conjunct2 [OF conjunct2 [OF pad_hex_nibbles [OF assms zero_less_numeral]]] that]
    obtain d where "d < 16 \<and> c = nibble d" ..
    then have "(of_char c :: nat) \<noteq> 0" by (simp add: of_char_nibble)
    then show ?thesis by auto
  qed
  then show ?thesis by (simp add: takeWhile_eq_all_conv)
qed

section \<open>Services that answer\<close>

text \<open>What a pipe to a service promises: what is written is answered behind what is still pending; a read gives the next
  bytes, or fewer, if there are not as many.\<close>

locale reply_service =
  fixes P :: "'s qemu_pipe"
    and pending :: "'s \<Rightarrow> byte list"
    and answer :: "'s \<Rightarrow> byte list \<Rightarrow> byte list"
  assumes written: "\<exists>s'. pp_write P bs s = (int (length bs), s') \<and> pending s' = pending s @ answer s bs"
    and read: "n \<le> length (pending s) \<Longrightarrow> \<exists>s'. pp_read P n s = (Some (take n (pending s)), s') \<and> pending s' = drop n (pending s)"
    and short: "length (pending s) < n \<Longrightarrow> \<exists>r s'. pp_read P n s = (r, s') \<and> (\<forall>bs. r = Some bs \<longrightarrow> length bs < n)"
begin

lemma sent:
  assumes "mPipeFD c \<ge> 0"
  shows "\<exists>s'. sendMessage P bs c = (NO_ERROR, c\<lparr>qc_pipe := s'\<rparr>) \<and> pending s' = pending (qc_pipe c) @ answer (qc_pipe c) bs"
  using written [of bs "qc_pipe c"] assms by (auto simp: sendMessage_def)

lemma framed_received:
  assumes "mPipeFD c \<ge> 0" "pending (qc_pipe c) = bytes_of (pad_hex 8 (length reply)) @ reply @ rest"
    and "length reply < 2 ^ 31" "malloc (length reply)"
  shows "\<exists>s'. receiveMessage P malloc c = ((NO_ERROR, Some reply), c\<lparr>qc_pipe := s'\<rparr>) \<and> pending s' = rest"
proof -
  let ?h = "bytes_of (pad_hex 8 (length reply))" and ?s = "qc_pipe c"
  have lim: "length reply < 16 ^ 8" using assms(3) by simp
  have h: "length ?h = 8" using pad_hex_nibbles [OF lim] by simp
  obtain s1 where r1: "pp_read P 8 ?s = (Some ?h, s1)" "pending s1 = reply @ rest"
    using read [of 8 ?s] h assms(2) by auto
  obtain s2 where r2: "pp_read P (length reply) s1 = (Some reply, s2)" "pending s2 = rest"
    using read [of "length reply" s1] r1(2) by auto
  have "strtol16 (string_of (takeWhile (\<lambda>b. b \<noteq> 0) ?h)) = int (length reply)"
    unfolding pad_hex_no_zero [OF lim] string_of_bytes_of by (rule strtol16_pad_hex [OF lim])
  moreover have "int (length reply) mod 2 ^ 64 = int (length reply)" using assms(3) by (intro mod_pos_pos_trivial) simp_all
  ultimately have size: "nat (strtol16 (string_of (takeWhile (\<lambda>b. b \<noteq> 0) ?h)) mod 2 ^ 64) = length reply" by simp
  have "receiveMessage P malloc c = ((NO_ERROR, Some reply), c\<lparr>qc_pipe := s2\<rparr>)"
    using assms(1,3,4) r1(1) r2(1) h size unfolding receiveMessage_def Let_def by simp
  then show ?thesis using r2(2) by blast
qed

lemma framed_answer:
  assumes "mPipeFD c \<ge> 0" "pending (qc_pipe c) = []" "mQueryDeliveryStatus q = NO_ERROR"
    and "answer (qc_pipe c) (bytes_of (mQuery q) @ [0]) = bytes_of (pad_hex 8 (length reply)) @ reply"
    and "length reply < 2 ^ 31" "malloc (length reply)"
  shows "\<exists>s'. doQuery P malloc q c = (completeQuery NO_ERROR (q\<lparr>mReplyBuffer := Some reply\<rparr>), c\<lparr>qc_pipe := s'\<rparr>) \<and>
    pending s' = []"
proof -
  obtain s1 where s1: "sendMessage P (bytes_of (mQuery q) @ [0]) c = (NO_ERROR, c\<lparr>qc_pipe := s1\<rparr>)"
    "pending s1 = bytes_of (pad_hex 8 (length reply)) @ reply @ []"
    using sent [OF assms(1)] assms(2,4) by fastforce
  obtain s2 where "receiveMessage P malloc (c\<lparr>qc_pipe := s1\<rparr>) = ((NO_ERROR, Some reply), c\<lparr>qc_pipe := s2\<rparr>)" "pending s2 = []"
    using framed_received [of "c\<lparr>qc_pipe := s1\<rparr>" reply "[]" malloc] s1(2) assms(1,5,6) by auto
  then show ?thesis using assms(3) s1(1) by (intro exI [of _ s2]) (simp add: doQuery_def)
qed

lemma short_answer:
  assumes "mPipeFD c \<ge> 0" "mQueryDeliveryStatus q = NO_ERROR"
    and "length (pending (qc_pipe c) @ answer (qc_pipe c) (bytes_of (mQuery q) @ [0])) < 8"
  shows "\<exists>e q' c'. doQuery P malloc q c = ((Status e, q'), c') \<and> mQueryDeliveryStatus q' = Status e"
proof -
  obtain s1 where s1: "sendMessage P (bytes_of (mQuery q) @ [0]) c = (NO_ERROR, c\<lparr>qc_pipe := s1\<rparr>)" "length (pending s1) < 8"
    using sent [OF assms(1)] assms(3) by metis
  obtain r s2 where r: "pp_read P 8 s1 = (r, s2)" "\<forall>bs. r = Some bs \<longrightarrow> length bs < 8" using short [OF s1(2)] by blast
  have "case r of None \<Rightarrow> True | Some bs \<Rightarrow> length bs \<noteq> 8" using r(2) by (cases r) auto
  then have "receiveMessage P malloc (c\<lparr>qc_pipe := s1\<rparr>) = ((errno_or P s2 ''EIO'', None), c\<lparr>qc_pipe := s2\<rparr>)"
    using r(1) assms(1) by (simp add: receiveMessage_def Let_def)
  then show ?thesis using assms(2) s1(1)
    by (simp add: doQuery_def completeQuery_def errno_or_def Let_def)
qed

end

section \<open>The camera service of the host\<close>

text \<open>The bytes that were not handled yet and those for the client (\<open>anbox/qemu/camera_message_processor.cpp\<close>).\<close>

record camera_host =
  ch_buffer :: "byte list"
  ch_out :: "byte list"

definition host_answer :: "camera_host \<Rightarrow> byte list \<Rightarrow> byte list" where
  "host_answer s bs = concat (map camera_handle (snd (camera_commands (ch_buffer s @ bs))))"

definition host_pipe :: "camera_host qemu_pipe" where
  "host_pipe =
     \<lparr>pp_open = (\<lambda>name s. (3, \<lparr>ch_buffer = [], ch_out = []\<rparr>)),
      pp_write = (\<lambda>bs s. (int (length bs),
        \<lparr>ch_buffer = (if fst (camera_commands (ch_buffer s @ bs)) = None then [] else ch_buffer s @ bs),
         ch_out = ch_out s @ host_answer s bs\<rparr>)),
      pp_read = (\<lambda>n s. if n \<le> length (ch_out s) then (Some (take n (ch_out s)), s\<lparr>ch_out := drop n (ch_out s)\<rparr>)
        else if ch_out s = [] then (None, s) else (Some (ch_out s), s\<lparr>ch_out := []\<rparr>)),
      pp_errno = (\<lambda>s. None)\<rparr>"

interpretation ch: reply_service host_pipe ch_out host_answer
  by unfold_locales (simp_all add: host_pipe_def)

lemma camera_command_first:
  assumes "\<forall>b \<in> set bs. b \<noteq> 0"
  shows "camera_commands (bs @ 0 # rest) = (case camera_commands rest of (e, cs) \<Rightarrow> (e, string_of bs # cs))"
proof -
  have "takeWhile (\<lambda>b. b \<noteq> 0) (bs @ 0 # rest) = bs" using assms by (induction bs) auto
  then show ?thesis by (subst camera_commands.simps) simp
qed

lemma commands_arrive:
  "\<forall>q \<in> set qs. CHR 0x00 \<notin> set q \<Longrightarrow> camera_commands (concat (map (\<lambda>q. bytes_of q @ [0]) qs)) = (None, qs)"
proof (induction qs)
  case Nil
  then show ?case by (simp add: camera_commands.simps)
next
  case (Cons q qs)
  have "\<forall>b \<in> set (bytes_of q). b \<noteq> 0" using Cons.prems by auto
  then show ?case using Cons camera_command_first by (simp add: comp_def)
qed

text \<open>A query is completed with the data of its reply: for every service that keeps the contract of a pipe and answers a query
  with a length of eight hexadecimal digits and \<open>ok:\<close> with data, the client ends with success and with exactly that data,
  and nothing of the answer is left in the pipe for the next query.\<close>

lemma query_reply_round_trip:
  assumes "reply_service P pending answer" "mPipeFD c \<ge> 0" "pending (qc_pipe c) = []" "name \<noteq> []" "data \<noteq> []"
    and "answer (qc_pipe c) (bytes_of name @ [0]) =
      bytes_of (pad_hex 8 (length data + 3)) @ bytes_of ''ok:'' @ data"
    and "length data + 3 < 2 ^ 31" "malloc (length data + 3)"
  shows "\<exists>q s'. doQuery P malloc (create_query (Some name) None) c = ((NO_ERROR, q), c\<lparr>qc_pipe := s'\<rparr>) \<and>
    isQuerySucceeded q \<and> mReplyData q = Some data \<and> pending s' = []"
proof -
  let ?q = "create_query (Some name) None" and ?reply = "bytes_of ''ok:'' @ data"
  have q: "mQuery ?q = name" "mQueryDeliveryStatus ?q = NO_ERROR"
    using assms(4) by (simp_all add: create_query_def reset_query_def)
  have len: "length ?reply = length data + 3" by simp
  obtain s' where s': "doQuery P malloc ?q c = (completeQuery NO_ERROR (?q\<lparr>mReplyBuffer := Some ?reply\<rparr>), c\<lparr>qc_pipe := s'\<rparr>)"
    "pending s' = []"
    using reply_service.framed_answer [OF assms(1-3) q(2), of ?reply malloc] assms(6-8) unfolding len q(1) by auto
  obtain r where "completeQuery NO_ERROR (?q\<lparr>mReplyBuffer := Some ?reply\<rparr>) = (NO_ERROR, r)" "isQuerySucceeded r"
    "mReplyData r = Some data"
    using reply_with_data [OF assms(5), of "?q\<lparr>mReplyBuffer := Some ?reply\<rparr>"] by auto
  then show ?thesis using s' by auto
qed

text \<open>A service that has two bytes of data for every query.\<close>

definition example_pipe :: "byte list qemu_pipe" where
  "example_pipe =
     \<lparr>pp_open = (\<lambda>name s. (3, [])),
      pp_write = (\<lambda>bs s. (int (length bs), s @ bytes_of (pad_hex 8 5) @ bytes_of ''ok:'' @ [7, 8])),
      pp_read = (\<lambda>n s. if n \<le> length s then (Some (take n s), drop n s) else (None, s)),
      pp_errno = (\<lambda>s. None)\<rparr>"

theorem query_reply_round_trip_witness:
  "\<exists>q. fst (doQuery example_pipe (\<lambda>n. n < 100) (create_query (Some ''frame'') None) \<lparr>mPipeFD = 3, qc_pipe = []\<rparr>) = (NO_ERROR, q) \<and>
     mReplyData q = Some [7, 8]"
proof -
  have s: "reply_service example_pipe id (\<lambda>s bs. bytes_of (pad_hex 8 5) @ bytes_of ''ok:'' @ [7, 8])"
    by unfold_locales (simp_all add: example_pipe_def)
  from query_reply_round_trip [OF s, of "\<lparr>mPipeFD = 3, qc_pipe = []\<rparr>" "''frame''" "[7, 8]" "\<lambda>n. n < 100"]
  show ?thesis by (auto simp del: bytes_of_string_of)
qed

text \<open>The two ends of the camera service of this repository: what the client sends is, up to its zero, one command of the host's
  service, but no query ever succeeds. The host answers a list with a line feed and everything else with nothing, without
  the length and the status that the client waits for, so that Android sees an error and never has a list of cameras.\<close>

lemma camera_service_never_understood:
  assumes "mPipeFD c < 0" "name \<noteq> []" "CHR 0x00 \<notin> set name"
  shows "\<exists>c1 e q c2. connectClient host_pipe param c = (NO_ERROR, c1) \<and>
    camera_commands (bytes_of name @ [0]) = (None, [name]) \<and>
    doQuery host_pipe malloc (create_query (Some name) None) c1 = ((Status e, q), c2) \<and>
    (\<exists>e' c3. listCameras host_pipe malloc c1 = ((Status e', None), c3))"
proof -
  let ?c = "c\<lparr>mPipeFD := 3, qc_pipe := \<lparr>ch_buffer = [], ch_out = []\<rparr>\<rparr>"
  have opened: "connectClient host_pipe param c = (NO_ERROR, ?c)"
    using assms(1) by (simp add: connectClient_def host_pipe_def)
  have arrives: "camera_commands (bytes_of n @ [0]) = (None, [n])" if "CHR 0x00 \<notin> set n" for n
    using commands_arrive [of "[n]"] that by simp
  have fails: "\<exists>e q c2. doQuery host_pipe malloc (create_query (Some n) None) ?c = ((Status e, q), c2) \<and>
      mQueryDeliveryStatus q = Status e" if "n \<noteq> []" "CHR 0x00 \<notin> set n" for n
  proof (rule ch.short_answer)
    show "mQueryDeliveryStatus (create_query (Some n) None) = NO_ERROR"
      using that(1) by (simp add: create_query_def reset_query_def)
    have "mQuery (create_query (Some n) None) = n" using that(1) by (simp add: create_query_def reset_query_def)
    then show "length (ch_out (qc_pipe ?c) @ host_answer (qc_pipe ?c) (bytes_of (mQuery (create_query (Some n) None)) @ [0])) < 8"
      using arrives [OF that(2)] by (simp add: host_answer_def camera_handle_def)
  qed simp
  obtain e q c2 where l: "doQuery host_pipe malloc (create_query (Some ''list'') None) ?c = ((Status e, q), c2)"
    "mQueryDeliveryStatus q = Status e" using fails [of "''list''"] by auto
  then have "listCameras host_pipe malloc ?c = ((Status e, None), c2)"
    by (simp add: listCameras_def getCompletionStatus_def)
  then show ?thesis using opened arrives [OF assms(3)] fails [OF assms(2,3)] by blast
qed

theorem camera_service_never_understood_witness:
  "\<exists>c1 e c3. connectClient host_pipe None \<lparr>mPipeFD = -1, qc_pipe = \<lparr>ch_buffer = [], ch_out = []\<rparr>\<rparr> = (NO_ERROR, c1) \<and>
     listCameras host_pipe (\<lambda>n. True) c1 = ((Status e, None), c3)"
  using camera_service_never_understood [of "\<lparr>mPipeFD = -1, qc_pipe = \<lparr>ch_buffer = [], ch_out = []\<rparr>\<rparr>" "''list''" None "\<lambda>n. True"]
  by auto


end
