(* ===== verification/Converters.thy ===== *)
theory Converters
  imports Anbox_Prelude
begin

unbundle bit_operations_syntax

text \<open>
  The colour conversions of the emulated cameras (\<open>android/camera/Converters.h\<close>, \<open>Converters.cpp\<close>), on a little endian
  machine. Values are integers, colours words; a frame is read from memory by its addresses.
  Shown here: the limits of luminance and chrominance; that the loops, which walk over three planes with pointers
  that go back after every other row, give every pixel the chrominance of its block of four, for all the layouts of the planes.
\<close>

section \<open>Colours\<close>

text \<open>Red, green and blue of a word of 16 bits, with 5 or 6 bits and stretched to 8.\<close>

definition R16 :: "u16 \<Rightarrow> byte" where "R16 rgb = ucast (rgb AND 0x001f)"
definition G16 :: "u16 \<Rightarrow> byte" where "G16 rgb = ucast (drop_bit 5 (rgb AND 0x07e0))"
definition B16 :: "u16 \<Rightarrow> byte" where "B16 rgb = ucast (drop_bit 11 (rgb AND 0xf800))"

text \<open>The operands of shifts are promoted to \<open>int\<close>, so that nothing is lost before the cast.\<close>

definition R16_32 :: "u16 \<Rightarrow> byte" where
  "R16_32 rgb = ucast (push_bit 3 (rgb AND 0x001f) OR drop_bit 2 (rgb AND 0x001f))"

definition G16_32 :: "u16 \<Rightarrow> byte" where
  "G16_32 rgb = ucast (drop_bit 3 (rgb AND 0x07e0) OR drop_bit 9 (rgb AND 0x07e0))"

definition B16_32 :: "u16 \<Rightarrow> byte" where
  "B16_32 rgb = ucast (drop_bit 8 (rgb AND 0xf800) OR drop_bit 14 (rgb AND 0xf800))"

definition RGB565 :: "u16 \<Rightarrow> u16 \<Rightarrow> u16 \<Rightarrow> u16" where
  "RGB565 r g b = push_bit 5 (push_bit 6 b OR g) OR r"

text \<open>The union of a word of 32 bits and its bytes; the last byte is not set by the conversions and is an argument.\<close>

definition RGB32 :: "byte \<Rightarrow> byte \<Rightarrow> byte \<Rightarrow> byte \<Rightarrow> u32" where
  "RGB32 r g b a = ucast r OR push_bit 8 (ucast g) OR push_bit 16 (ucast b) OR push_bit 24 (ucast a)"

definition R32 :: "u32 \<Rightarrow> byte" where "R32 rgb = ucast (rgb AND 0x000000ff)"
definition G32 :: "u32 \<Rightarrow> byte" where "G32 rgb = ucast (drop_bit 8 (rgb AND 0x0000ff00) AND 0xff)"
definition B32 :: "u32 \<Rightarrow> byte" where "B32 rgb = ucast (drop_bit 16 (rgb AND 0x00ff0000) AND 0xff)"

definition clamp :: "int \<Rightarrow> int" where
  "clamp x = (if x > 255 then 255 else if x < 0 then 0 else x)"

section \<open>To luminance and chrominance\<close>

text \<open>Shifting right is division that rounds down.\<close>

definition RGB2Y :: "int \<Rightarrow> int \<Rightarrow> int \<Rightarrow> byte" where
  "RGB2Y r g b = word_of_int ((66 * r + 129 * g + 25 * b + 128) div 256 + 16)"

definition RGB2U :: "int \<Rightarrow> int \<Rightarrow> int \<Rightarrow> byte" where
  "RGB2U r g b = word_of_int ((-38 * r - 74 * g + 112 * b + 128) div 256 + 128)"

definition RGB2V :: "int \<Rightarrow> int \<Rightarrow> int \<Rightarrow> byte" where
  "RGB2V r g b = word_of_int ((112 * r - 94 * g - 18 * b + 128) div 256 + 128)"

definition R8G8B8ToYUV :: "byte \<Rightarrow> byte \<Rightarrow> byte \<Rightarrow> byte \<times> byte \<times> byte" where
  "R8G8B8ToYUV r g b = (RGB2Y (uint r) (uint g) (uint b), RGB2U (uint r) (uint g) (uint b), RGB2V (uint r) (uint g) (uint b))"

definition RGB565ToYUV :: "u16 \<Rightarrow> byte \<times> byte \<times> byte" where
  "RGB565ToYUV rgb = R8G8B8ToYUV (R16_32 rgb) (G16_32 rgb) (B16_32 rgb)"

definition RGB32ToYUV :: "u32 \<Rightarrow> byte \<times> byte \<times> byte" where
  "RGB32ToYUV rgb = R8G8B8ToYUV (ucast rgb) (ucast (drop_bit 8 rgb)) (ucast (drop_bit 16 rgb))"

section \<open>To red, green and blue\<close>

definition YUV2RO :: "int \<Rightarrow> int \<Rightarrow> int \<Rightarrow> int" where "YUV2RO C D E = clamp ((298 * C + 409 * E + 128) div 256)"
definition YUV2GO :: "int \<Rightarrow> int \<Rightarrow> int \<Rightarrow> int" where "YUV2GO C D E = clamp ((298 * C - 100 * D - 208 * E + 128) div 256)"
definition YUV2BO :: "int \<Rightarrow> int \<Rightarrow> int \<Rightarrow> int" where "YUV2BO C D E = clamp ((298 * C + 516 * D + 128) div 256)"

definition YUVToRGB565 :: "int \<Rightarrow> int \<Rightarrow> int \<Rightarrow> u16" where
  "YUVToRGB565 y u v =
     (let y = y - 16; u = u - 128; v = v - 128;
          r = word_of_int (YUV2RO y u v div 8) AND 0x1f;
          g = word_of_int (YUV2GO y u v div 4) AND 0x3f;
          b = word_of_int (YUV2BO y u v div 8) AND 0x1f
      in RGB565 r g b)"

definition YUVToRGB32 :: "byte \<Rightarrow> int \<Rightarrow> int \<Rightarrow> int \<Rightarrow> u32" where
  "YUVToRGB32 a y u v =
     (let y = y - 16; u = u - 128; v = v - 128 in
      RGB32 (word_of_int (YUV2RO y u v)) (word_of_int (YUV2GO y u v)) (word_of_int (YUV2BO y u v)) a)"

section \<open>Frames\<close>

text \<open>One row: \<open>pairs\<close> rounds of the loop, two pixels each. The pixels and the three pointers behind it.\<close>

primrec convert_row ::
  "(int \<Rightarrow> int \<Rightarrow> int \<Rightarrow> 'p) \<Rightarrow> (nat \<Rightarrow> byte) \<Rightarrow> nat \<Rightarrow> nat \<Rightarrow> nat \<Rightarrow> nat \<Rightarrow> nat \<Rightarrow> 'p list \<times> nat \<times> nat \<times> nat" where
  "convert_row conv mem dUV 0 Y U V = ([], Y, U, V)"
| "convert_row conv mem dUV (Suc pairs) Y U V =
     (let nU = uint (mem U); nV = uint (mem V) in
      case convert_row conv mem dUV pairs (Y + 2) (U + dUV) (V + dUV) of
        (px, Y', U', V') \<Rightarrow>
          (conv (uint (mem Y)) nU nV # conv (uint (mem (Y + 1))) nU nV # px, Y', U', V'))"

text \<open>The rows from row \<open>y\<close> on; an even row is followed by one with the same chrominance. The rounds of a row with an odd
  width are one half more.\<close>

primrec convert_rows ::
  "(int \<Rightarrow> int \<Rightarrow> int \<Rightarrow> 'p) \<Rightarrow> (nat \<Rightarrow> byte) \<Rightarrow> nat \<Rightarrow> nat \<Rightarrow> nat \<Rightarrow> nat \<Rightarrow> nat \<Rightarrow> nat \<Rightarrow> nat \<Rightarrow> nat \<Rightarrow> nat \<Rightarrow> 'p list" where
  "convert_rows conv mem dUV width 0 y Y U V U_pos V_pos = []"
| "convert_rows conv mem dUV width (Suc rows) y Y U V U_pos V_pos =
     (case convert_row conv mem dUV ((width + 1) div 2) Y U V of
        (px, Y, U, V) \<Rightarrow>
          px @ (if odd y then convert_rows conv mem dUV width rows (y + 1) Y U V U V
                else convert_rows conv mem dUV width rows (y + 1) Y U_pos V_pos U_pos V_pos))"

definition YUV420SToRGB :: "(int \<Rightarrow> int \<Rightarrow> int \<Rightarrow> 'p) \<Rightarrow> (nat \<Rightarrow> byte) \<Rightarrow> nat \<Rightarrow> nat \<Rightarrow> nat \<Rightarrow> nat \<Rightarrow> nat \<Rightarrow> nat \<Rightarrow> 'p list" where
  "YUV420SToRGB conv mem Y U V dUV width height = convert_rows conv mem dUV width height 0 Y U V U V"

definition YV12ToRGB565 :: "(nat \<Rightarrow> byte) \<Rightarrow> nat \<Rightarrow> nat \<Rightarrow> u16 list" where
  "YV12ToRGB565 mem width height =
     (let n = width * height in YUV420SToRGB YUVToRGB565 mem 0 n (n + n div 4) 1 width height)"

definition YV12ToRGB32 :: "byte \<Rightarrow> (nat \<Rightarrow> byte) \<Rightarrow> nat \<Rightarrow> nat \<Rightarrow> u32 list" where
  "YV12ToRGB32 a mem width height =
     (let n = width * height in YUV420SToRGB (YUVToRGB32 a) mem 0 (n + n div 4) n 1 width height)"

definition YU12ToRGB32 :: "byte \<Rightarrow> (nat \<Rightarrow> byte) \<Rightarrow> nat \<Rightarrow> nat \<Rightarrow> u32 list" where
  "YU12ToRGB32 a mem width height =
     (let n = width * height in YUV420SToRGB (YUVToRGB32 a) mem 0 n (n + n div 4) 1 width height)"

text \<open>The two planes in one, \<open>U\<close> first or \<open>V\<close> first.\<close>

definition NV12ToRGB565 :: "(nat \<Rightarrow> byte) \<Rightarrow> nat \<Rightarrow> nat \<Rightarrow> u16 list" where
  "NV12ToRGB565 mem width height =
     (let n = width * height in YUV420SToRGB YUVToRGB565 mem 0 n (n + 1) 2 width height)"

definition NV12ToRGB32 :: "byte \<Rightarrow> (nat \<Rightarrow> byte) \<Rightarrow> nat \<Rightarrow> nat \<Rightarrow> u32 list" where
  "NV12ToRGB32 a mem width height =
     (let n = width * height in YUV420SToRGB (YUVToRGB32 a) mem 0 n (n + 1) 2 width height)"

definition NV21ToRGB565 :: "(nat \<Rightarrow> byte) \<Rightarrow> nat \<Rightarrow> nat \<Rightarrow> u16 list" where
  "NV21ToRGB565 mem width height =
     (let n = width * height in YUV420SToRGB YUVToRGB565 mem 0 (n + 1) n 2 width height)"

definition NV21ToRGB32 :: "byte \<Rightarrow> (nat \<Rightarrow> byte) \<Rightarrow> nat \<Rightarrow> nat \<Rightarrow> u32 list" where
  "NV21ToRGB32 a mem width height =
     (let n = width * height in YUV420SToRGB (YUVToRGB32 a) mem 0 (n + 1) n 2 width height)"

section \<open>Limits\<close>

lemma clamp_bounds: "0 \<le> clamp x \<and> clamp x \<le> 255"
  by (simp add: clamp_def)

lemma div_256_range:
  fixes x :: int
  assumes "256 * lo \<le> x" "x \<le> 256 * hi + 255"
  shows "lo \<le> x div 256 \<and> x div 256 \<le> hi"
proof -
  define q m where "q = x div 256" and "m = x mod 256"
  have "x = 256 * q + m" "0 \<le> m" "m < 256" by (simp_all add: q_def m_def)
  then have "lo \<le> q" "q \<le> hi" using assms by linarith+
  then show ?thesis by (simp add: q_def)
qed

text \<open>Luminance is between 16 and 235, chrominance between 16 and 240: nothing wraps in a byte.\<close>

lemma in_byte:
  assumes "lo \<le> n" "n \<le> hi" "0 \<le> lo" "hi < 256"
  shows "lo \<le> uint (word_of_int n :: byte) \<and> uint (word_of_int n :: byte) \<le> hi"
proof -
  have "uint (word_of_int n :: byte) = n" using assms by (simp add: unsigned_of_int take_bit_int_eq_self)
  then show ?thesis using assms(1,2) by simp
qed

lemma yuv_limits:
  assumes "R8G8B8ToYUV r g b = (y, u, v)"
  shows "(16 \<le> uint y \<and> uint y \<le> 235) \<and> (16 \<le> uint u \<and> uint u \<le> 240) \<and> (16 \<le> uint v \<and> uint v \<le> 240)"
proof -
  have le: "uint x \<le> 255" for x :: byte
    using uint_bounded [of x] by simp
  note le = le [of r] le [of g] le [of b] uint_ge_0 [of r] uint_ge_0 [of g] uint_ge_0 [of b]
  have "0 \<le> (66 * uint r + 129 * uint g + 25 * uint b + 128) div 256 \<and>
      (66 * uint r + 129 * uint g + 25 * uint b + 128) div 256 \<le> 219"
    by (rule div_256_range) (use le in linarith)+
  moreover have "-112 \<le> (-38 * uint r - 74 * uint g + 112 * uint b + 128) div 256 \<and>
      (-38 * uint r - 74 * uint g + 112 * uint b + 128) div 256 \<le> 112"
    by (rule div_256_range) (use le in linarith)+
  moreover have "-112 \<le> (112 * uint r - 94 * uint g - 18 * uint b + 128) div 256 \<and>
      (112 * uint r - 94 * uint g - 18 * uint b + 128) div 256 \<le> 112"
    by (rule div_256_range) (use le in linarith)+
  moreover have "y = RGB2Y (uint r) (uint g) (uint b)" "u = RGB2U (uint r) (uint g) (uint b)"
    "v = RGB2V (uint r) (uint g) (uint b)" using assms by (simp_all only: R8G8B8ToYUV_def prod.inject)
  ultimately show ?thesis unfolding RGB2Y_def RGB2U_def RGB2V_def
    by (elim conjE, hypsubst, intro conjI [OF in_byte conjI [OF in_byte in_byte]]) simp_all
qed

section \<open>The loops and the pixels\<close>

text \<open>The pixel at \<open>x\<close>, \<open>y\<close> with the chrominance of its block.\<close>

definition block_pixel :: "(int \<Rightarrow> int \<Rightarrow> int \<Rightarrow> 'p) \<Rightarrow> (nat \<Rightarrow> byte) \<Rightarrow> nat \<Rightarrow> nat \<Rightarrow> nat \<Rightarrow> nat \<Rightarrow> nat \<Rightarrow> nat \<Rightarrow> nat \<Rightarrow> 'p" where
  "block_pixel conv mem dUV half Y U V y x =
     conv (uint (mem (Y + y * (2 * half) + x))) (uint (mem (U + (y div 2 * half + x div 2) * dUV)))
       (uint (mem (V + (y div 2 * half + x div 2) * dUV)))"

lemma convert_row_eq:
  "convert_row conv mem dUV pairs Y U V =
     (map (\<lambda>x. conv (uint (mem (Y + x))) (uint (mem (U + x div 2 * dUV))) (uint (mem (V + x div 2 * dUV)))) [0..<2 * pairs],
      Y + 2 * pairs, U + pairs * dUV, V + pairs * dUV)"
proof (induction pairs arbitrary: Y U V)
  case (Suc pairs)
  have "map (\<lambda>x. x + 2) [0..<2 * pairs] = [2..<2 * Suc pairs]"
    using map_add_upt [of 2 "2 * pairs"] by simp
  then have "[0..<2 * Suc pairs] = 0 # 1 # map (\<lambda>x. x + 2) [0..<2 * pairs]"
    by (simp only: upt_conv_Cons) (simp add: upt_conv_Cons numeral_2_eq_2 del: upt_Suc)
  then show ?case by (simp add: Suc Let_def comp_def algebra_simps)
qed simp

lemma convert_rows_eq:
  "convert_rows conv mem dUV (2 * half) rows y (Y + y * (2 * half)) (U + y div 2 * half * dUV) (V + y div 2 * half * dUV)
       (U + y div 2 * half * dUV) (V + y div 2 * half * dUV) =
     concat (map (\<lambda>y. map (block_pixel conv mem dUV half Y U V y) [0..<2 * half]) [y..<y + rows])"
proof (induction rows arbitrary: y)
  case (Suc rows)
  let ?U = "U + y div 2 * half * dUV" and ?V = "V + y div 2 * half * dUV" and ?Y = "Y + y * (2 * half)"
  have pairs: "(2 * half + 1) div 2 = half" by simp
  have row: "convert_row conv mem dUV half ?Y ?U ?V =
      (map (block_pixel conv mem dUV half Y U V y) [0..<2 * half], Y + Suc y * (2 * half), ?U + half * dUV, ?V + half * dUV)"
    unfolding convert_row_eq block_pixel_def by (simp add: algebra_simps)
  have upt: "[y..<y + Suc rows] = y # [Suc y..<Suc y + rows]" by (simp add: upt_conv_Cons)
  show ?case
  proof (cases "odd y")
    case True
    then have y: "Suc y div 2 = y div 2 + 1" by presburger
    have next_row: "U + Suc y div 2 * half * dUV = ?U + half * dUV" "V + Suc y div 2 * half * dUV = ?V + half * dUV"
      unfolding y by (simp_all only: distrib_right mult_1 add.assoc)
    show ?thesis unfolding convert_rows.simps pairs row upt using Suc.IH [of "Suc y", unfolded next_row] True
      by (simp only: prod.case not_not if_True not_True_eq_False not_False_eq_True Suc_eq_plus1 [symmetric] list.map concat.simps)
  next
    case False
    then have "Suc y div 2 = y div 2" by presburger
    then show ?thesis using Suc.IH [of "Suc y"] False
      unfolding convert_rows.simps pairs row upt by simp
  qed
qed simp

text \<open>C33.
  A frame of even width is converted pixel by pixel: the loops, whose pointers into the chrominance go back after every even
  row and on after every odd one, give the same as a formula for each pixel, row after row: its luminance, with the
  chrominance of the block of two by two pixels it lies in. This holds for every layout of the planes, interleaved or
  not, and for both formats of the result.\<close>

theorem frames_converted_by_blocks:
  "YUV420SToRGB conv mem Y U V dUV (2 * half) height =
     concat (map (\<lambda>y. map (block_pixel conv mem dUV half Y U V y) [0..<2 * half]) [0..<height])"
  using convert_rows_eq [of conv mem dUV half height 0 Y U V] by (simp add: YUV420SToRGB_def)

text \<open>The converters of \<open>YV12\<close> do not agree which plane is first: pure red in one format is blue in the other.\<close>

lemma yv12_red_is_blue:
  "let mem = (\<lambda>i. if i < 4 then 81 else if i = 4 then 240 else 90) in
     R32 (hd (YV12ToRGB32 0 mem 2 2)) = 255 \<and> B32 (hd (YV12ToRGB32 0 mem 2 2)) = 0 \<and>
     R16 (hd (YV12ToRGB565 mem 2 2)) < 4 \<and> B16 (hd (YV12ToRGB565 mem 2 2)) = 31"
  by code_simp

text \<open>With an odd width a row writes one pixel more than it has.\<close>

lemma odd_rows_too_long:
  "length (fst (convert_row conv mem dUV ((2 * half + 1 + 1) div 2) Y U V)) = 2 * half + 2"
  by (simp add: convert_row_eq)

end
