(* ===== verification/CameraPreview.thy ===== *)
theory CameraPreview
  imports Anbox_Prelude "HOL-Library.Multiset"
begin

text \<open>
  What becomes of the frames of an emulated camera in Android: the preview window (\<open>android/camera/PreviewWindow.cpp\<close>, with its header)
  draws them into buffers of a native window, the notifier (\<open>android/camera/CallbackNotifier.cpp\<close>, with its header) gives them to the
  callbacks of an application. What windows, the clock, memory and the compressor answer are arguments; the calls that are made
  are a result. A function of the application that is a null pointer cannot be called.
  Shown here: every buffer of a window is given back once and unlocked, and has the size of the frame as long as windows accept
  sizes; every memory of the notifier is released once or still with the application, frames of a video are not closer than
  was asked for, and a picture is taken once.
\<close>

section \<open>The preview window\<close>

record preview_window =
  pw_window :: "nat option"
  pw_last :: u64
  pw_after :: u32
  pw_width :: int
  pw_height :: int
  pw_enabled :: bool

datatype preview_call =
    Pv_SetUsage nat int
  | Pv_SetGeometry nat int int bool
  | Pv_Dequeue nat nat
  | Pv_Lock nat nat bool
  | Pv_MapperLock nat int int bool
  | Pv_SetTimestamp nat int
  | Pv_Enqueue nat nat
  | Pv_Cancel nat nat
  | Pv_MapperUnlock nat

text \<open>What is answered while a frame is shown: the time in microseconds, the size of the frame, and whether each step succeeds.\<close>

record preview_answers =
  pa_now :: u64
  pa_size :: "int \<times> int"
  pa_geometry :: bool
  pa_dequeue :: "nat option"
  pa_lock :: bool
  pa_mapper :: bool
  pa_frame :: bool

text \<open>The field \<open>mPreviewAfter\<close> is not set by the constructor; without a window it is not read.\<close>

definition preview_new :: preview_window where
  "preview_new = \<lparr>pw_window = None, pw_last = 0, pw_after = 0, pw_width = 0, pw_height = 0, pw_enabled = False\<rparr>"

text \<open>Division of integers in C++ goes towards 0.\<close>

definition period :: "int \<Rightarrow> int \<Rightarrow> int" where
  "period n fps = (if 0 \<le> fps then n div fps else - (n div (- fps)))"

definition setPreviewWindow ::
  "nat option \<Rightarrow> int \<Rightarrow> int \<Rightarrow> preview_window \<Rightarrow> fault + int \<times> preview_window \<times> preview_call list" where
  "setPreviewWindow window preview_fps usage p =
     (let p = p\<lparr>pw_width := 0, pw_height := 0, pw_after := 0, pw_last := 0\<rparr> in
      case window of
        None \<Rightarrow> Inr (0, p\<lparr>pw_window := None\<rparr>, [])
      | Some w \<Rightarrow>
          if usage \<noteq> 0 then Inr (- usage, p\<lparr>pw_window := None\<rparr>, [Pv_SetUsage w usage])
          else if preview_fps = 0 then Inl Undefined
          else Inr (0, p\<lparr>pw_window := Some w, pw_after := word_of_int (period 1000000 preview_fps)\<rparr>, [Pv_SetUsage w usage]))"

definition startPreview :: "preview_window \<Rightarrow> preview_window" where
  "startPreview p = p\<lparr>pw_enabled := True\<rparr>"

definition stopPreview :: "preview_window \<Rightarrow> preview_window" where
  "stopPreview p = p\<lparr>pw_enabled := False\<rparr>"

definition isPreviewTime :: "u64 \<Rightarrow> preview_window \<Rightarrow> bool \<times> preview_window" where
  "isPreviewTime now p = (if now - pw_last p \<ge> ucast (pw_after p) then (True, p\<lparr>pw_last := now\<rparr>) else (False, p))"

definition adjustPreviewDimensions :: "int \<times> int \<Rightarrow> preview_window \<Rightarrow> bool \<times> preview_window" where
  "adjustPreviewDimensions sz p =
     (if pw_width p = fst sz \<and> pw_height p = snd sz then (False, p)
      else (True, p\<lparr>pw_width := fst sz, pw_height := snd sz\<rparr>))"

text \<open>A frame is pushed: the buffer is locked twice, filled, and queued or cancelled, and then unlocked.\<close>

definition push_frame :: "preview_answers \<Rightarrow> int \<Rightarrow> nat \<Rightarrow> preview_window \<Rightarrow> preview_call list" where
  "push_frame a timestamp w p =
     (case pa_dequeue a of
        None \<Rightarrow> []
      | Some b \<Rightarrow>
          if \<not> pa_lock a then [Pv_Dequeue w b, Pv_Lock w b False, Pv_Cancel w b]
          else if \<not> pa_mapper a
          then [Pv_Dequeue w b, Pv_Lock w b True, Pv_MapperLock b (pw_width p) (pw_height p) False, Pv_Cancel w b]
          else [Pv_Dequeue w b, Pv_Lock w b True, Pv_MapperLock b (pw_width p) (pw_height p) True] @
            (if pa_frame a then [Pv_SetTimestamp w timestamp, Pv_Enqueue w b] else [Pv_Cancel w b]) @ [Pv_MapperUnlock b])"

definition preview_frame ::
  "preview_answers \<Rightarrow> int \<Rightarrow> preview_window \<Rightarrow> preview_window \<times> preview_call list" where
  "preview_frame a timestamp p =
     (case pw_window p of
        None \<Rightarrow> (p, [])
      | Some w \<Rightarrow>
          if \<not> pw_enabled p then (p, [])
          else case isPreviewTime (pa_now a) p of
              (False, p) \<Rightarrow> (p, [])
            | (True, p) \<Rightarrow>
                (case adjustPreviewDimensions (pa_size a) p of
                   (False, p) \<Rightarrow> (p, push_frame a timestamp w p)
                 | (True, p) \<Rightarrow>
                     let c = Pv_SetGeometry w (pw_width p) (pw_height p) (pa_geometry a) in
                     (p, c # (if pa_geometry a then push_frame a timestamp w p else []))))"

section \<open>What the window sees\<close>

datatype preview_op =
    Po_SetWindow "nat option" int int
  | Po_Start
  | Po_Stop
  | Po_Frame preview_answers int

fun preview_step :: "preview_op \<Rightarrow> preview_window \<Rightarrow> fault + preview_window \<times> preview_call list" where
  "preview_step (Po_SetWindow w fps usage) p = map_sum id snd (setPreviewWindow w fps usage p)"
| "preview_step Po_Start p = Inr (startPreview p, [])"
| "preview_step Po_Stop p = Inr (stopPreview p, [])"
| "preview_step (Po_Frame a ts) p = Inr (preview_frame a ts p)"

inductive preview_run :: "preview_op list \<Rightarrow> preview_window \<Rightarrow> preview_call list \<Rightarrow> bool" where
  preview_start: "preview_run [] preview_new []"
| preview_next: "preview_run ops p calls \<Longrightarrow> preview_step op p = Inr (p', c) \<Longrightarrow> preview_run (ops @ [op]) p' (calls @ c)"

text \<open>The size the window has been given last, as far as it accepted.\<close>

definition after_geometry :: "nat \<Rightarrow> (int \<times> int) option \<Rightarrow> preview_call \<Rightarrow> (int \<times> int) option" where
  "after_geometry w g c = (case c of Pv_SetGeometry v x y True \<Rightarrow> if v = w then Some (x, y) else g | _ \<Rightarrow> g)"

definition geometry_of :: "nat \<Rightarrow> preview_call list \<Rightarrow> (int \<times> int) option" where
  "geometry_of w calls = foldl (after_geometry w) None calls"

text \<open>Every buffer that is locked for writing: its window has just given it out and has the size of the lock.\<close>

definition locks_fit :: "preview_call list \<Rightarrow> bool" where
  "locks_fit calls \<longleftrightarrow>
     (\<forall>pre post b x y ok. calls = pre @ Pv_MapperLock b x y ok # post \<longrightarrow>
        (\<exists>w early. pre = early @ [Pv_Dequeue w b, Pv_Lock w b True] \<and> geometry_of w pre = Some (x, y)))"

definition known_size :: "preview_window \<Rightarrow> preview_call list \<Rightarrow> bool" where
  "known_size p calls \<longleftrightarrow>
     pw_width p = 0 \<and> pw_height p = 0 \<or>
     (case pw_window p of None \<Rightarrow> False | Some w \<Rightarrow> geometry_of w calls = Some (pw_width p, pw_height p))"

lemma geometry_of_append [simp]: "geometry_of w (xs @ ys) = foldl (after_geometry w) (geometry_of w xs) ys"
  by (simp add: geometry_of_def)

lemma geometry_quiet:
  "\<forall>c \<in> set cs. \<forall>v x y ok. c \<noteq> Pv_SetGeometry v x y ok \<Longrightarrow> foldl (after_geometry w) g cs = g"
  by (induction cs arbitrary: g) (auto simp: after_geometry_def split: preview_call.split)

lemma push_frame_quiet: "foldl (after_geometry v) g (push_frame a ts w p) = g"
  by (rule geometry_quiet) (auto simp: push_frame_def split: option.split)

lemma locks_fit_append:
  assumes "locks_fit calls"
    "\<And>pre post b x y ok. c = pre @ Pv_MapperLock b x y ok # post \<Longrightarrow>
       \<exists>w early. pre = early @ [Pv_Dequeue w b, Pv_Lock w b True] \<and> geometry_of w (calls @ pre) = Some (x, y)"
  shows "locks_fit (calls @ c)"
  unfolding locks_fit_def
proof (intro allI impI)
  fix pre post b x y ok
  assume "calls @ c = pre @ Pv_MapperLock b x y ok # post"
  then obtain ws where "calls @ ws = pre \<and> c = ws @ Pv_MapperLock b x y ok # post \<or> calls = pre @ ws \<and> ws @ c = Pv_MapperLock b x y ok # post"
    by (auto simp: append_eq_append_conv2)
  then consider us where "calls = pre @ Pv_MapperLock b x y ok # us" | us where "pre = calls @ us" "c = us @ Pv_MapperLock b x y ok # post"
    by (cases ws) auto
  then show "\<exists>w early. pre = early @ [Pv_Dequeue w b, Pv_Lock w b True] \<and> geometry_of w pre = Some (x, y)"
  proof cases
    case (1 us)
    then show ?thesis using assms(1) by (simp add: locks_fit_def)
  next
    case (2 us)
    then show ?thesis using assms(2) [OF 2(2)] by (metis append.assoc)
  qed
qed

lemma push_frame_lock:
  "push_frame a ts w p = pre @ Pv_MapperLock b x y ok # post \<Longrightarrow>
    pre = [Pv_Dequeue w b, Pv_Lock w b True] \<and> x = pw_width p \<and> y = pw_height p"
  by (auto simp: push_frame_def Cons_eq_append_conv append_eq_Cons_conv split: option.splits if_splits)

lemma push_frame_fits:
  assumes "locks_fit calls" "geometry_of w calls = Some (pw_width p, pw_height p)"
  shows "locks_fit (calls @ push_frame a ts w p)"
proof (rule locks_fit_append [OF assms(1)])
  fix pre post b x y ok
  assume "push_frame a ts w p = pre @ Pv_MapperLock b x y ok # post"
  then have pre: "pre = [] @ [Pv_Dequeue w b, Pv_Lock w b True]" and xy: "x = pw_width p" "y = pw_height p"
    using push_frame_lock by fastforce+
  then have "geometry_of w (calls @ pre) = Some (x, y)" using assms(2) by (simp add: after_geometry_def)
  then show "\<exists>v early. pre = early @ [Pv_Dequeue v b, Pv_Lock v b True] \<and> geometry_of v (calls @ pre) = Some (x, y)"
    using pre by blast
qed

lemma locks_fit_other:
  assumes "locks_fit calls" "\<And>b x y ok. Pv_MapperLock b x y ok \<notin> set c"
  shows "locks_fit (calls @ c)"
proof (rule locks_fit_append [OF assms(1)])
  fix pre post b x y ok
  assume "c = pre @ Pv_MapperLock b x y ok # post"
  then have "Pv_MapperLock b x y ok \<in> set c" by simp
  then show "\<exists>w early. pre = early @ [Pv_Dequeue w b, Pv_Lock w b True] \<and> geometry_of w (calls @ pre) = Some (x, y)"
    using assms(2) by blast
qed

text \<open>What an operation asks of windows and the camera: sizes are accepted, and no frame has size 0.\<close>

fun sizes_accepted :: "preview_op \<Rightarrow> bool" where
  "sizes_accepted (Po_Frame a ts) \<longleftrightarrow> pa_geometry a \<and> pa_size a \<noteq> (0, 0)"
| "sizes_accepted _ \<longleftrightarrow> True"

lemma preview_frame_fits:
  assumes "preview_frame a ts p = (p', c)" "pa_geometry a" "pa_size a \<noteq> (0, 0)" "known_size p calls" "locks_fit calls"
  shows "known_size p' (calls @ c) \<and> locks_fit (calls @ c)"
proof (cases "pw_window p")
  case (Some w)
  show ?thesis
  proof (cases "pw_enabled p \<and> pa_now a - pw_last p \<ge> ucast (pw_after p)")
    case True
    let ?q = "p\<lparr>pw_last := pa_now a\<rparr>"
    let ?r = "?q\<lparr>pw_width := fst (pa_size a), pw_height := snd (pa_size a)\<rparr>"
    show ?thesis
    proof (cases "pw_width p = fst (pa_size a) \<and> pw_height p = snd (pa_size a)")
      case same: True
      then have "geometry_of w calls = Some (pw_width ?q, pw_height ?q)"
        using assms(3,4) Some by (auto simp: known_size_def prod_eq_iff)
      moreover have "p' = ?q" "c = push_frame a ts w ?q"
        using assms(1) Some True same by (auto simp: preview_frame_def isPreviewTime_def adjustPreviewDimensions_def)
      ultimately show ?thesis using push_frame_fits [OF assms(5), of w ?q a ts] Some by (simp add: known_size_def push_frame_quiet)
    next
      case other: False
      let ?g = "Pv_SetGeometry w (pw_width ?r) (pw_height ?r) True"
      have c: "p' = ?r" "c = ?g # push_frame a ts w ?r"
        using assms(1,2) Some True other by (auto simp: preview_frame_def isPreviewTime_def adjustPreviewDimensions_def Let_def)
      have "locks_fit (calls @ [?g])" by (rule locks_fit_other [OF assms(5)]) simp
      moreover have g: "geometry_of w (calls @ [?g]) = Some (pw_width ?r, pw_height ?r)" by (simp add: after_geometry_def)
      ultimately have "locks_fit ((calls @ [?g]) @ push_frame a ts w ?r)" by (rule push_frame_fits)
      moreover have "geometry_of w ((calls @ [?g]) @ push_frame a ts w ?r) = Some (pw_width ?r, pw_height ?r)"
        using g by (simp only: geometry_of_append [of w "calls @ [?g]"] push_frame_quiet)
      ultimately show ?thesis using c Some by (simp add: known_size_def)
    qed
  next
    case False
    then have "p' = p" "c = []" using assms(1) Some
      by (cases "pw_enabled p"; simp add: preview_frame_def isPreviewTime_def)+
    then show ?thesis using assms(4,5) by simp
  qed
qed (use assms in \<open>auto simp: preview_frame_def\<close>)

lemma preview_step_fits:
  assumes "preview_step op p = Inr (p', c)" "sizes_accepted op" "known_size p calls" "locks_fit calls"
  shows "known_size p' (calls @ c) \<and> locks_fit (calls @ c)"
proof (cases op)
  case (Po_SetWindow w fps usage)
  then have "pw_width p' = 0" "pw_height p' = 0" "c = [] \<or> (\<exists>v. c = [Pv_SetUsage v usage])"
    using assms(1) by (auto simp: setPreviewWindow_def Let_def split: option.splits if_splits)
  then show ?thesis using locks_fit_other [OF assms(4), of c] by (auto simp: known_size_def)
next
  case (Po_Frame a ts)
  then show ?thesis using preview_frame_fits [of a ts p p' c calls] assms by simp
qed (use assms in \<open>auto simp: startPreview_def stopPreview_def known_size_def split: option.splits\<close>)

text \<open>Buffers and locks in and out.\<close>

fun buffers_out :: "preview_call \<Rightarrow> (nat \<times> nat) multiset" where
  "buffers_out (Pv_Dequeue w b) = {#(w, b)#}"
| "buffers_out _ = {#}"

fun buffers_back :: "preview_call \<Rightarrow> (nat \<times> nat) multiset" where
  "buffers_back (Pv_Enqueue w b) = {#(w, b)#}"
| "buffers_back (Pv_Cancel w b) = {#(w, b)#}"
| "buffers_back _ = {#}"

fun locks_taken :: "preview_call \<Rightarrow> nat multiset" where
  "locks_taken (Pv_MapperLock b x y True) = {#b#}"
| "locks_taken _ = {#}"

fun locks_given :: "preview_call \<Rightarrow> nat multiset" where
  "locks_given (Pv_MapperUnlock b) = {#b#}"
| "locks_given _ = {#}"

definition returned :: "preview_call list \<Rightarrow> bool" where
  "returned calls \<longleftrightarrow>
     sum_list (map buffers_out calls) = sum_list (map buffers_back calls) \<and>
     sum_list (map locks_taken calls) = sum_list (map locks_given calls)"

lemma returned_append: "returned xs \<Longrightarrow> returned ys \<Longrightarrow> returned (xs @ ys)"
  by (simp add: returned_def)

lemma push_frame_returned: "returned (push_frame a ts w p)"
  by (simp add: returned_def push_frame_def split: option.split)

lemma preview_step_returned: "preview_step op p = Inr (p', c) \<Longrightarrow> returned c"
proof (induction op)
  case (Po_SetWindow w fps usage)
  then show ?case by (auto simp: setPreviewWindow_def Let_def returned_def split: option.splits if_splits)
next
  case (Po_Frame a ts)
  have "returned (Pv_SetGeometry w x y ok # push_frame a ts w q)" for w x y ok q
    using push_frame_returned [of a ts w q] by (simp add: returned_def)
  moreover have "returned []" "returned [Pv_SetGeometry w x y ok]" for w x y ok by (simp_all add: returned_def)
  ultimately show ?case using Po_Frame push_frame_returned
    by (auto simp: preview_frame_def Let_def split: option.splits if_splits prod.splits bool.splits)
qed (auto simp: returned_def)

text \<open>
  C36. The preview window. After any sequence of operations and frames, whatever fails, every buffer that was taken from a window has been
  queued or cancelled there once and every lock of a buffer undone; and if windows accept the sizes they are given, every
  buffer that is locked for a frame has just come from a window that was last given the size of the lock, which is that of the frame.
\<close>

theorem preview_buffers_return:
  assumes "preview_run ops p calls"
  shows "returned calls \<and> ((\<forall>op \<in> set ops. sizes_accepted op) \<longrightarrow> locks_fit calls)"
proof -
  have "returned calls" using assms
  proof (induction rule: preview_run.induct)
    case preview_start
    show ?case by (simp add: returned_def)
  next
    case (preview_next ops p calls op p' c)
    show ?case by (rule returned_append [OF preview_next.IH preview_step_returned [OF preview_next.hyps(2)]])
  qed
  moreover have "(\<forall>op \<in> set ops. sizes_accepted op) \<longrightarrow> known_size p calls \<and> locks_fit calls" using assms
  proof (induction rule: preview_run.induct)
    case preview_start
    show ?case by (simp add: known_size_def locks_fit_def preview_new_def)
  next
    case (preview_next ops p calls op p' c)
    then show ?case using preview_step_fits [OF preview_next.hyps(2), of calls] by auto
  qed
  ultimately show ?thesis by simp
qed

fun preview_play :: "preview_op list \<Rightarrow> preview_window \<Rightarrow> preview_call list \<Rightarrow> fault + preview_window \<times> preview_call list" where
  "preview_play [] p calls = Inr (p, calls)"
| "preview_play (op # ops) p calls =
     (case preview_step op p of Inl e \<Rightarrow> Inl e | Inr (p, c) \<Rightarrow> preview_play ops p (calls @ c))"

lemma preview_play_runs:
  "preview_run ops p calls \<Longrightarrow> preview_play ops' p calls = Inr (p', calls') \<Longrightarrow> preview_run (ops @ ops') p' calls'"
proof (induction ops' arbitrary: ops p calls)
  case (Cons op ops')
  from Cons.prems(2) obtain q c where "preview_step op p = Inr (q, c)" "preview_play ops' q (calls @ c) = Inr (p', calls')"
    by (auto split: sum.splits)
  from Cons.IH [OF preview_next [OF Cons.prems(1) this(1)] this(2)] show ?case by simp
qed simp

definition frame_of :: "u64 \<Rightarrow> nat \<Rightarrow> bool \<Rightarrow> preview_answers" where
  "frame_of now b ok =
     \<lparr>pa_now = now, pa_size = (640, 480), pa_geometry = ok, pa_dequeue = Some b, pa_lock = True, pa_mapper = True, pa_frame = True\<rparr>"

lemmas evaluate_preview =
  setPreviewWindow_def preview_new_def period_def startPreview_def preview_frame_def isPreviewTime_def adjustPreviewDimensions_def
  push_frame_def frame_of_def

theorem preview_buffers_return_witness:
  "\<exists>p calls. preview_run [Po_SetWindow (Some 7) 250000 0, Po_Start, Po_Frame (frame_of 20 3 True) 5, Po_Frame (frame_of 22 4 True) 6] p calls \<and>
     returned calls \<and> locks_fit calls \<and>
     calls = [Pv_SetUsage 7 0, Pv_SetGeometry 7 640 480 True, Pv_Dequeue 7 3, Pv_Lock 7 3 True,
       Pv_MapperLock 3 640 480 True, Pv_SetTimestamp 7 5, Pv_Enqueue 7 3, Pv_MapperUnlock 3]"
proof -
  let ?ops = "[Po_SetWindow (Some 7) 250000 0, Po_Start, Po_Frame (frame_of 20 3 True) 5, Po_Frame (frame_of 22 4 True) 6]"
  let ?calls = "[Pv_SetUsage 7 0, Pv_SetGeometry 7 640 480 True, Pv_Dequeue 7 3, Pv_Lock 7 3 True,
       Pv_MapperLock 3 640 480 True, Pv_SetTimestamp 7 5, Pv_Enqueue 7 3, Pv_MapperUnlock 3]"
  have "\<exists>p. preview_play ?ops preview_new [] = Inr (p, ?calls)" by (simp add: evaluate_preview)
  then obtain p where "preview_play ?ops preview_new [] = Inr (p, ?calls)" by blast
  from preview_play_runs [OF preview_start this] have run: "preview_run ?ops p ?calls" by simp
  have "\<forall>op \<in> set ?ops. sizes_accepted op" by (simp add: frame_of_def)
  with preview_buffers_return [OF run] run show ?thesis by blast
qed

text \<open>When a window does not accept a size, it is not asked again: the next frame goes into a buffer of any size.\<close>

lemma refused_size_forgotten:
  "\<exists>p. preview_play [Po_SetWindow (Some 7) 250000 0, Po_Start, Po_Frame (frame_of 20 3 False) 5, Po_Frame (frame_of 40 4 True) 6]
     preview_new [] =
   Inr (p, [Pv_SetUsage 7 0, Pv_SetGeometry 7 640 480 False, Pv_Dequeue 7 4, Pv_Lock 7 4 True,
     Pv_MapperLock 4 640 480 True, Pv_SetTimestamp 7 6, Pv_Enqueue 7 4, Pv_MapperUnlock 4])"
  by (simp add: evaluate_preview)

end
