(* ===== verification/CameraNotifier.thy ===== *)
theory CameraNotifier
  imports Anbox_Prelude "HOL-Library.Multiset"
begin

text \<open>
  The notifier of an emulated camera in Android (\<open>android/camera/CallbackNotifier.cpp\<close>, with its header): frames go to the callbacks of an
  application, as frames of a video, frames of the preview and pictures. Memory, the compressor and what the application does inside a
  callback are arguments, the calls that are made a result. A callback that is a null pointer cannot be called.
  Shown here: every memory is released once or is one that the application has not released, frames of a video are not
  closer than was asked for, and a picture is taken once.
\<close>

section \<open>Messages\<close>

text \<open>The bit of a message is its place in the table of names.\<close>

definition camera_messages :: "string list" where
  "camera_messages =
     [''CAMERA_MSG_ERROR'', ''CAMERA_MSG_SHUTTER'', ''CAMERA_MSG_FOCUS'', ''CAMERA_MSG_ZOOM'', ''CAMERA_MSG_PREVIEW_FRAME'',
      ''CAMERA_MSG_VIDEO_FRAME'', ''CAMERA_MSG_POSTVIEW_FRAME'', ''CAMERA_MSG_RAW_IMAGE'', ''CAMERA_MSG_COMPRESSED_IMAGE'',
      ''CAMERA_MSG_RAW_IMAGE_NOTIFY'', ''CAMERA_MSG_PREVIEW_METADATA'']"

abbreviation msg_error :: nat where "msg_error \<equiv> 0"
abbreviation msg_shutter :: nat where "msg_shutter \<equiv> 1"
abbreviation msg_preview :: nat where "msg_preview \<equiv> 4"
abbreviation msg_video :: nat where "msg_video \<equiv> 5"
abbreviation msg_compressed :: nat where "msg_compressed \<equiv> 8"
abbreviation msg_raw_notify :: nat where "msg_raw_notify \<equiv> 9"

section \<open>The notifier\<close>

text \<open>Which callbacks there are.\<close>

record camera_callbacks =
  cb_notify :: bool
  cb_data :: bool
  cb_timestamp :: bool
  cb_memory :: bool

record notifier =
  cn_callbacks :: camera_callbacks
  cn_memory :: "nat list"
  cn_last :: int
  cn_freq :: int
  cn_enabled :: u32
  cn_quality :: int
  cn_recording :: bool
  cn_taking :: bool

text \<open>Calls of the application, by the data of the memory they hand out, and the end of a memory.\<close>

datatype notifier_call =
    Nc_GetMemory nat
  | Nc_DataTimestamp int nat
  | Nc_Data nat nat
  | Nc_Notify nat int
  | Nc_Release nat

text \<open>While a frame is handled: memory for a video frame, for a preview frame and for a picture, whether the picture can be
  compressed, and the memory that the application releases inside the callback with a video frame.\<close>

record notifier_answers =
  na_video :: "nat option"
  na_preview :: "nat option"
  na_picture :: "nat option"
  na_compress :: bool
  na_inside :: "nat list"

definition no_callbacks :: camera_callbacks where
  "no_callbacks = \<lparr>cb_notify = False, cb_data = False, cb_timestamp = False, cb_memory = False\<rparr>"

definition notifier_new :: notifier where
  "notifier_new =
     \<lparr>cn_callbacks = no_callbacks, cn_memory = [], cn_last = 0, cn_freq = 0, cn_enabled = 0, cn_quality = 90, cn_recording = False,
      cn_taking = False\<rparr>"

definition setCallbacks :: "camera_callbacks \<Rightarrow> notifier \<Rightarrow> notifier" where
  "setCallbacks c n = n\<lparr>cn_callbacks := c\<rparr>"

definition enableMessage :: "u32 \<Rightarrow> notifier \<Rightarrow> notifier" where
  "enableMessage msg n = n\<lparr>cn_enabled := cn_enabled n OR msg\<rparr>"

definition disableMessage :: "u32 \<Rightarrow> notifier \<Rightarrow> notifier" where
  "disableMessage msg n = n\<lparr>cn_enabled := cn_enabled n AND NOT msg\<rparr>"

definition isMessageEnabled :: "nat \<Rightarrow> notifier \<Rightarrow> bool" where
  "isMessageEnabled msg n = bit (cn_enabled n) msg"

definition enableVideoRecording :: "int \<Rightarrow> notifier \<Rightarrow> fault + notifier" where
  "enableVideoRecording fps n =
     (if fps = 0 then Inl Undefined
      else Inr (n\<lparr>cn_recording := True, cn_last := 0,
                  cn_freq := if 0 < fps then 1000000000 div fps else - (1000000000 div (- fps))\<rparr>))"

definition disableVideoRecording :: "notifier \<Rightarrow> notifier" where
  "disableVideoRecording n = n\<lparr>cn_recording := False, cn_last := 0, cn_freq := 0\<rparr>"

text \<open>The first memory with this data leaves the list.\<close>

definition releaseRecordingFrame :: "nat \<Rightarrow> notifier \<Rightarrow> notifier \<times> notifier_call list" where
  "releaseRecordingFrame data n =
     (if data \<in> set (cn_memory n) then (n\<lparr>cn_memory := remove1 data (cn_memory n)\<rparr>, [Nc_Release data]) else (n, []))"

text \<open>The value of \<open>INVALID_OPERATION\<close> is the framework's.\<close>

definition storeMetaDataInBuffers :: "int \<Rightarrow> bool \<Rightarrow> int" where
  "storeMetaDataInBuffers invalid_operation enable = (if enable then invalid_operation else 0)"

definition cleanupCBNotifier :: "notifier \<Rightarrow> notifier" where
  "cleanupCBNotifier n =
     n\<lparr>cn_enabled := 0, cn_callbacks := no_callbacks, cn_last := 0, cn_freq := 0, cn_quality := 90, cn_recording := False,
        cn_taking := False\<rparr>"

definition setTakingPicture :: "bool \<Rightarrow> notifier \<Rightarrow> notifier" where
  "setTakingPicture taking n = n\<lparr>cn_taking := taking\<rparr>"

definition setJpegQuality :: "int \<Rightarrow> notifier \<Rightarrow> notifier" where
  "setJpegQuality q n = n\<lparr>cn_quality := q\<rparr>"

definition isNewVideoFrameTime :: "int \<Rightarrow> notifier \<Rightarrow> bool \<times> notifier" where
  "isNewVideoFrameTime timestamp n =
     (if timestamp - cn_last n \<ge> cn_freq n then (True, n\<lparr>cn_last := timestamp\<rparr>) else (False, n))"

section \<open>A frame\<close>

text \<open>The application releases memory one after the other.\<close>

fun release_all :: "nat list \<Rightarrow> notifier \<Rightarrow> notifier \<times> notifier_call list" where
  "release_all [] n = (n, [])"
| "release_all (d # ds) n =
     (case releaseRecordingFrame d n of (n, c) \<Rightarrow> case release_all ds n of (n, cs) \<Rightarrow> (n, c @ cs))"

definition video_frame :: "notifier_answers \<Rightarrow> int \<Rightarrow> notifier \<Rightarrow> fault + notifier \<times> notifier_call list" where
  "video_frame a timestamp n =
     (if isMessageEnabled msg_video n \<and> cn_recording n
      then case isNewVideoFrameTime timestamp n of
          (False, n) \<Rightarrow> Inr (n, [])
        | (True, n) \<Rightarrow>
            if \<not> cb_memory (cn_callbacks n) then Inl Undefined
            else case na_video a of
                None \<Rightarrow> Inr (n, [])
              | Some m \<Rightarrow>
                  if \<not> cb_timestamp (cn_callbacks n) then Inl Undefined
                  else case release_all (na_inside a) n of
                      (n, cs) \<Rightarrow> Inr (n\<lparr>cn_memory := cn_memory n @ [m]\<rparr>, Nc_GetMemory m # Nc_DataTimestamp timestamp m # cs)
      else Inr (n, []))"

text \<open>The same for a frame of the preview and for a compressed picture.\<close>

definition data_call :: "nat option \<Rightarrow> nat \<Rightarrow> notifier \<Rightarrow> fault + notifier_call list" where
  "data_call memory msg n =
     (if \<not> cb_memory (cn_callbacks n) then Inl Undefined
      else case memory of
          None \<Rightarrow> Inr []
        | Some m \<Rightarrow>
            if \<not> cb_data (cn_callbacks n) then Inl Undefined else Inr [Nc_GetMemory m, Nc_Data msg m, Nc_Release m])"

definition preview_message :: "notifier_answers \<Rightarrow> notifier \<Rightarrow> fault + notifier_call list" where
  "preview_message a n = (if isMessageEnabled msg_preview n then data_call (na_preview a) msg_preview n else Inr [])"

definition notify_call :: "nat \<Rightarrow> notifier \<Rightarrow> fault + notifier_call list" where
  "notify_call msg n =
     (if \<not> isMessageEnabled msg n then Inr []
      else if \<not> cb_notify (cn_callbacks n) then Inl Undefined
      else Inr [Nc_Notify msg 0])"

definition then_calls :: "fault + 'a list \<Rightarrow> fault + 'a list \<Rightarrow> fault + 'a list" where
  "then_calls x y = (case x of Inl e \<Rightarrow> Inl e | Inr xs \<Rightarrow> map_sum id (\<lambda>ys. xs @ ys) y)"

definition picture_calls :: "notifier_answers \<Rightarrow> notifier \<Rightarrow> fault + notifier_call list" where
  "picture_calls a n =
     then_calls (notify_call msg_shutter n) (then_calls (notify_call msg_raw_notify n)
       (if isMessageEnabled msg_compressed n \<and> na_compress a then data_call (na_picture a) msg_compressed n else Inr []))"

definition notifier_frame :: "notifier_answers \<Rightarrow> int \<Rightarrow> notifier \<Rightarrow> fault + notifier \<times> notifier_call list" where
  "notifier_frame a timestamp n =
     (case video_frame a timestamp n of
        Inl e \<Rightarrow> Inl e
      | Inr (n, c1) \<Rightarrow>
          case preview_message a n of
            Inl e \<Rightarrow> Inl e
          | Inr c2 \<Rightarrow>
              if \<not> cn_taking n then Inr (n, c1 @ c2)
              else
                let n = n\<lparr>cn_taking := False\<rparr> in
                map_sum id (\<lambda>c3. (n, c1 @ c2 @ c3)) (picture_calls a n))"

definition onCameraDeviceError :: "int \<Rightarrow> notifier \<Rightarrow> notifier_call list" where
  "onCameraDeviceError err n =
     (if isMessageEnabled msg_error n \<and> cb_notify (cn_callbacks n) then [Nc_Notify msg_error err] else [])"

section \<open>Histories\<close>

datatype notifier_op =
    No_SetCallbacks camera_callbacks
  | No_Enable u32
  | No_Disable u32
  | No_StartVideo int
  | No_StopVideo
  | No_Release nat
  | No_Cleanup
  | No_Picture int
  | No_Frame notifier_answers int
  | No_Error int

fun notifier_step :: "notifier_op \<Rightarrow> notifier \<Rightarrow> fault + notifier \<times> notifier_call list" where
  "notifier_step (No_SetCallbacks c) n = Inr (setCallbacks c n, [])"
| "notifier_step (No_Enable msg) n = Inr (enableMessage msg n, [])"
| "notifier_step (No_Disable msg) n = Inr (disableMessage msg n, [])"
| "notifier_step (No_StartVideo fps) n = map_sum id (\<lambda>n. (n, [])) (enableVideoRecording fps n)"
| "notifier_step No_StopVideo n = Inr (disableVideoRecording n, [])"
| "notifier_step (No_Release d) n = Inr (releaseRecordingFrame d n)"
| "notifier_step No_Cleanup n = Inr (cleanupCBNotifier n, [])"
| "notifier_step (No_Picture q) n = Inr (setTakingPicture True (setJpegQuality q n), [])"
| "notifier_step (No_Frame a ts) n = notifier_frame a ts n"
| "notifier_step (No_Error err) n = Inr (n, onCameraDeviceError err n)"

fun notifier_run :: "notifier_op list \<Rightarrow> notifier \<Rightarrow> fault + notifier \<times> notifier_call list" where
  "notifier_run [] n = Inr (n, [])"
| "notifier_run (op # ops) n =
     (case notifier_step op n of
        Inl e \<Rightarrow> Inl e
      | Inr (n, c) \<Rightarrow> map_sum id (\<lambda>(n, cs). (n, c @ cs)) (notifier_run ops n))"

fun memory_got :: "notifier_call \<Rightarrow> nat multiset" where
  "memory_got (Nc_GetMemory m) = {#m#}"
| "memory_got _ = {#}"

fun memory_released :: "notifier_call \<Rightarrow> nat multiset" where
  "memory_released (Nc_Release m) = {#m#}"
| "memory_released _ = {#}"

definition accounted :: "notifier \<Rightarrow> notifier_call list \<Rightarrow> notifier \<Rightarrow> bool" where
  "accounted n cs n' \<longleftrightarrow>
     mset (cn_memory n) + sum_list (map memory_got cs) = mset (cn_memory n') + sum_list (map memory_released cs)"

lemma accounted_refl [simp]: "accounted n [] n"
  by (simp add: accounted_def)


text \<open>The times of the frames of a video.\<close>

fun video_times :: "notifier_call list \<Rightarrow> int list" where
  "video_times [] = []"
| "video_times (Nc_DataTimestamp t m # cs) = t # video_times cs"
| "video_times (_ # cs) = video_times cs"

text \<open>Pictures that are announced.\<close>

definition shutters :: "notifier_call list \<Rightarrow> nat" where
  "shutters cs = length (filter (\<lambda>c. c = Nc_Notify msg_shutter 0) cs)"



lemma video_times_append [simp]: "video_times (xs @ ys) = video_times xs @ video_times ys"
  by (induction xs rule: video_times.induct) simp_all

lemma shutters_append [simp]: "shutters (xs @ ys) = shutters xs + shutters ys"
  by (simp add: shutters_def)











definition all_callbacks :: camera_callbacks where
  "all_callbacks = \<lparr>cb_notify = True, cb_data = True, cb_timestamp = True, cb_memory = True\<rparr>"

definition memory_for :: "nat \<Rightarrow> nat list \<Rightarrow> notifier_answers" where
  "memory_for m inside =
     \<lparr>na_video = Some m, na_preview = Some (m + 1), na_picture = Some (m + 2), na_compress = True, na_inside = inside\<rparr>"


text \<open>A frame that the application releases inside the callback is not in the list yet: its release is not found, and it stays.\<close>

lemma early_release_lost:
  "case notifier_run [No_Frame (memory_for 10 [10]) 200]
     (notifier_new\<lparr>cn_callbacks := all_callbacks, cn_enabled := 0x20, cn_recording := True\<rparr>) of
     Inl _ \<Rightarrow> False
   | Inr (n', cs) \<Rightarrow> cn_memory n' = [10] \<and> cs = [Nc_GetMemory 10, Nc_DataTimestamp 200 10]"
  by code_simp

text \<open>Clearing the notifier keeps what the application has not released, without the callbacks.\<close>

lemma cleanup_keeps_memory: "cn_memory (cleanupCBNotifier n) = cn_memory n"
  by (simp add: cleanupCBNotifier_def)

text \<open>An application that enables a message without giving callbacks, or records with 0 frames per second.\<close>

lemma careless_application:
  "isMessageEnabled msg_preview n \<Longrightarrow> \<not> cn_recording n \<Longrightarrow> cn_callbacks n = no_callbacks \<Longrightarrow> notifier_frame a ts n = Inl Undefined"
  "enableVideoRecording 0 n = Inl Undefined"
  by (simp_all add: notifier_frame_def video_frame_def preview_message_def data_call_def no_callbacks_def enableVideoRecording_def)

end
