(* ===== verification/EmulatedCamera.thy ===== *)
theory EmulatedCamera
  imports CameraPreview CameraNotifier
begin

text \<open>
  An emulated camera in Android: the device with its worker thread (\<open>android/camera/EmulatedCameraDevice.cpp\<close> and
  \<open>EmulatedQemuCameraDevice.cpp\<close>, with their headers) and the camera that applications see (\<open>EmulatedCamera.cpp\<close>). The state is one
  record; the results of queries to the service, of starting threads and of making pipes come from a list, 0 is success and an
  empty list only succeeds; so do writes to the control pipe from a second list. The worker's steps are operations of their
  own; stopping it waits for what it is about to do. Parameters are what the framework's object for them answers.
  Shown here: the worker runs only while the device is started and its buffers are there, the preview is on exactly when it was
  started and not stopped since, a closed camera is quiet, and the memory that is lost.
\<close>

section \<open>The device\<close>

datatype device_state = ECDS_CONSTRUCTED | ECDS_INITIALIZED | ECDS_CONNECTED | ECDS_STARTED

text \<open>Formats of frames by the names of V4L2.\<close>

datatype camera_format = YVU420 | YUV420 | NV21 | NV12 | RGB32_Format | No_Format

record camera_device =
  cd_state :: device_state
  cd_worker :: bool
  cd_frame :: "int option"
  cd_preview :: "int option"
  cd_size :: int
  cd_format :: camera_format
  cd_width :: int
  cd_height :: int
  cd_total :: int
  cd_balance :: "string option"
  cd_exposure :: int
  wk_running :: bool
  wk_fds :: bool
  wk_burst :: bool

text \<open>Parameters of the camera that are asked for.\<close>

record camera_parameters =
  pm_video_size :: "(int \<times> int) option"
  pm_preview_size :: "int \<times> int"
  pm_picture_size :: "int \<times> int"
  pm_recording_hint :: "string option"
  pm_video_format :: "string option"
  pm_preview_format :: "string option"
  pm_picture_format :: string
  pm_jpeg_quality :: int
  pm_frame_rate :: int
  pm_exposure :: "int \<times> int \<times> int"
  pm_balance :: "string option"
  pm_balances :: "string option"

datatype camera_event =
    Ce_Query string int
  | Ce_New_Frame int
  | Ce_Delete_Frame
  | Ce_New_Preview int
  | Ce_Delete_Preview
  | Ce_Window preview_call
  | Ce_Callback notifier_call

record camera =
  ec_device :: camera_device
  ec_preview :: preview_window
  ec_notifier :: notifier
  ec_parameters :: camera_parameters
  ec_results :: "int list"
  ec_writes :: "int list"
  ec_log :: "camera_event list"

abbreviation EINVAL :: int where
  "EINVAL \<equiv> 22"

definition camera_device_new :: camera_device where
  "camera_device_new =
     \<lparr>cd_state = ECDS_CONSTRUCTED, cd_worker = False, cd_frame = None, cd_preview = None, cd_size = 0, cd_format = No_Format, cd_width = 0,
      cd_height = 0, cd_total = 0, cd_balance = None, cd_exposure = 0, wk_running = False, wk_fds = False, wk_burst = False\<rparr>"

definition isInitialized :: "camera_device \<Rightarrow> bool" where
  "isInitialized d \<longleftrightarrow> cd_worker d \<and> cd_state d \<noteq> ECDS_CONSTRUCTED"

definition isConnected :: "camera_device \<Rightarrow> bool" where
  "isConnected d \<longleftrightarrow> cd_state d = ECDS_CONNECTED \<or> cd_state d = ECDS_STARTED"

definition isStarted :: "camera_device \<Rightarrow> bool" where
  "isStarted d \<longleftrightarrow> cd_state d = ECDS_STARTED"

definition on_device :: "(camera_device \<Rightarrow> camera_device) \<Rightarrow> camera \<Rightarrow> camera" where
  "on_device f s = s\<lparr>ec_device := f (ec_device s)\<rparr>"

definition logged :: "camera_event list \<Rightarrow> camera \<Rightarrow> camera" where
  "logged es s = s\<lparr>ec_log := ec_log s @ es\<rparr>"

definition next_result :: "camera \<Rightarrow> int \<times> camera" where
  "next_result s = (case ec_results s of [] \<Rightarrow> (0, s) | r # rs \<Rightarrow> (r, s\<lparr>ec_results := rs\<rparr>))"

definition next_write :: "camera \<Rightarrow> int \<times> camera" where
  "next_write s = (case ec_writes s of [] \<Rightarrow> (0, s) | r # rs \<Rightarrow> (r, s\<lparr>ec_writes := rs\<rparr>))"

text \<open>A query to the service of the cameras.\<close>

definition query :: "string \<Rightarrow> camera \<Rightarrow> int \<times> camera" where
  "query name s = (case next_result s of (r, s) \<Rightarrow> (r, logged [Ce_Query name r] s))"

definition device_initialize :: "camera \<Rightarrow> int \<times> camera" where
  "device_initialize s =
     (if isInitialized (ec_device s) then (0, s)
      else (0, on_device (\<lambda>d. d\<lparr>cd_worker := True, cd_state := ECDS_INITIALIZED\<rparr>) s))"

definition qemu_initialize :: "camera \<Rightarrow> int \<times> camera" where
  "qemu_initialize s =
     (case query ''client'' s of
        (r, s) \<Rightarrow> if r \<noteq> 0 then (r, s) else device_initialize s)"

definition connectDevice :: "camera \<Rightarrow> int \<times> camera" where
  "connectDevice s =
     (if \<not> isInitialized (ec_device s) then (EINVAL, s)
      else if isConnected (ec_device s) then (0, s)
      else case query ''connect'' s of
          (r, s) \<Rightarrow> (r, if r = 0 then on_device (cd_state_update (\<lambda>_. ECDS_CONNECTED)) s else s))"

definition disconnectDevice :: "camera \<Rightarrow> int \<times> camera" where
  "disconnectDevice s =
     (if \<not> isConnected (ec_device s) then (0, s)
      else if isStarted (ec_device s) then (EINVAL, s)
      else case query ''disconnect'' s of
          (r, s) \<Rightarrow> (r, if r = 0 then on_device (cd_state_update (\<lambda>_. ECDS_INITIALIZED)) s else s))"

definition commonStartDevice :: "int \<Rightarrow> int \<Rightarrow> camera_format \<Rightarrow> camera \<Rightarrow> int \<times> camera" where
  "commonStartDevice width height fmt s =
     (if fmt \<notin> {YVU420, YUV420, NV21, NV12} then (EINVAL, s)
      else
        let size = width * height * 12 div 8 in
        (0, logged [Ce_New_Frame size] (on_device (\<lambda>d. d\<lparr>cd_size := size, cd_width := width, cd_height := height, cd_format := fmt,
              cd_total := width * height, cd_frame := Some size\<rparr>) s)))"

definition commonStopDevice :: "camera \<Rightarrow> camera" where
  "commonStopDevice s =
     (let f = cd_frame (ec_device s);
          s = on_device (\<lambda>d. d\<lparr>cd_width := 0, cd_height := 0, cd_total := 0, cd_format := No_Format, cd_frame := None\<rparr>) s in
      if f \<noteq> None then logged [Ce_Delete_Frame] s else s)"

definition startDevice :: "int \<Rightarrow> int \<Rightarrow> camera_format \<Rightarrow> camera \<Rightarrow> int \<times> camera" where
  "startDevice width height fmt s =
     (if \<not> isConnected (ec_device s) then (EINVAL, s)
      else if isStarted (ec_device s) then (0, s)
      else case commonStartDevice width height fmt s of
          (r, s) \<Rightarrow>
            if r \<noteq> 0 then (r, s)
            else
              let n = cd_total (ec_device s);
                  s = logged [Ce_New_Preview n] (on_device (cd_preview_update (\<lambda>_. Some n)) s) in
              (case query ''start'' s of
                 (r, s) \<Rightarrow> (r, if r = 0 then on_device (cd_state_update (\<lambda>_. ECDS_STARTED)) s else s)))"

text \<open>The preview frame is deleted when there is none.\<close>

definition stopDevice :: "camera \<Rightarrow> int \<times> camera" where
  "stopDevice s =
     (if \<not> isStarted (ec_device s) then (0, s)
      else case query ''stop'' s of
          (r, s) \<Rightarrow>
            if r \<noteq> 0 then (r, s)
            else
              let s = (if cd_preview (ec_device s) = None then logged [Ce_Delete_Preview] s else s) in
              (0, on_device (cd_state_update (\<lambda>_. ECDS_CONNECTED)) (commonStopDevice s)))"

section \<open>The worker\<close>

text \<open>A thread that runs cannot be started.\<close>

definition startDeliveringFrames :: "bool \<Rightarrow> camera \<Rightarrow> int \<times> camera" where
  "startDeliveringFrames one_burst s =
     (if \<not> isStarted (ec_device s) then (EINVAL, s)
      else if \<not> isInitialized (ec_device s) then (EINVAL, s)
      else
        let s = on_device (wk_burst_update (\<lambda>_. one_burst)) s in
        if wk_running (ec_device s) then (-38, s)
        else case next_result s of
            (r, s) \<Rightarrow> (r, if r = 0 then on_device (wk_running_update (\<lambda>_. True)) s else s))"

text \<open>The thread makes its pipe; without it, it ends.\<close>

definition readyToRun :: "camera \<Rightarrow> camera" where
  "readyToRun s =
     (case next_result s of
        (r, s) \<Rightarrow> if r = 0 then on_device (wk_fds_update (\<lambda>_. True)) s else on_device (wk_running_update (\<lambda>_. False)) s)"

definition stopThread :: "camera \<Rightarrow> int \<times> camera" where
  "stopThread s =
     (let s = (if wk_running (ec_device s) \<and> \<not> wk_fds (ec_device s) then readyToRun s else s) in
      if \<not> wk_fds (ec_device s) then (EINVAL, s)
      else case next_write s of
          (r, s) \<Rightarrow>
            if r \<noteq> 0 then (r, s) else (0, on_device (\<lambda>d. d\<lparr>wk_running := False, wk_fds := False\<rparr>) s))"

definition stopDeliveringFrames :: "camera \<Rightarrow> int \<times> camera" where
  "stopDeliveringFrames s =
     (if \<not> isStarted (ec_device s) then (0, s)
      else if \<not> isInitialized (ec_device s) then (EINVAL, s)
      else stopThread s)"

text \<open>The frame for the preview: the device's own, or one converted by the base class, which knows no format of RGB.\<close>

definition getCurrentPreviewFrame :: "camera_device \<Rightarrow> bool" where
  "getCurrentPreviewFrame d =
     (if cd_preview d \<noteq> None then True
      else isStarted d \<and> cd_frame d \<noteq> None \<and> cd_format d \<in> {YVU420, YUV420, NV21, NV12})"

definition onNextFrameAvailable ::
  "preview_answers \<Rightarrow> notifier_answers \<Rightarrow> int \<Rightarrow> camera \<Rightarrow> fault + camera" where
  "onNextFrameAvailable a b timestamp s =
     (case preview_frame (a\<lparr>pa_size := (cd_width (ec_device s), cd_height (ec_device s)),
                             pa_frame := getCurrentPreviewFrame (ec_device s)\<rparr>) timestamp (ec_preview s) of
        (p, c) \<Rightarrow>
          (case notifier_frame b timestamp (ec_notifier s) of
             Inl e \<Rightarrow> Inl e
           | Inr (n, d) \<Rightarrow> Inr (logged (map Ce_Window c @ map Ce_Callback d) (s\<lparr>ec_preview := p, ec_notifier := n\<rparr>))))"

text \<open>One round of the thread, when no message to stop has come: a frame, or an error that ends it.\<close>

definition inWorkerThread :: "preview_answers \<Rightarrow> notifier_answers \<Rightarrow> int \<Rightarrow> camera \<Rightarrow> fault + camera" where
  "inWorkerThread a b timestamp s =
     (if cd_balance (ec_device s) = None \<or> cd_frame (ec_device s) \<noteq> Some (cd_size (ec_device s)) then Inl Undefined
      else case query ''frame'' s of
          (r, s) \<Rightarrow>
            if r = 0
            then map_sum id (\<lambda>s. if wk_burst (ec_device s) then on_device (wk_running_update (\<lambda>_. False)) s else s)
                   (onNextFrameAvailable a b timestamp s)
            else Inr (on_device (wk_running_update (\<lambda>_. False))
                        (logged (map Ce_Callback (onCameraDeviceError 100 (ec_notifier s))) s)))"

section \<open>The camera\<close>

definition connectCamera :: "camera \<Rightarrow> int \<times> camera" where
  "connectCamera s = (case connectDevice s of (r, s) \<Rightarrow> (- r, s))"

text \<open>Formats for frames by the names of the framework.\<close>

definition frame_format :: "string \<Rightarrow> camera_format option" where
  "frame_format f =
     (if f = ''PIXEL_FORMAT_YUV420P'' then Some YUV420
      else if f = ''PIXEL_FORMAT_RGBA8888'' then Some RGB32_Format
      else if f = ''PIXEL_FORMAT_YUV420SP'' then Some NV21
      else None)"

definition picture_format :: "string \<Rightarrow> camera_format option" where
  "picture_format f = (if f = ''PIXEL_FORMAT_JPEG'' then Some NV21 else frame_format f)"

definition preview_parameters :: "camera_parameters \<Rightarrow> (int \<times> int) \<times> string option" where
  "preview_parameters m =
     ((case pm_video_size m of Some v \<Rightarrow> v | None \<Rightarrow> pm_preview_size m),
      (case (if pm_recording_hint m = Some ''true'' then pm_video_format m else None) of
         Some f \<Rightarrow> Some f | None \<Rightarrow> pm_preview_format m))"

definition stop_if_started :: "camera \<Rightarrow> int \<times> camera" where
  "stop_if_started s = (if isStarted (ec_device s) then stopDevice (snd (stopDeliveringFrames s)) else (0, s))"

definition on_preview :: "(preview_window \<Rightarrow> preview_window) \<Rightarrow> camera \<Rightarrow> camera" where
  "on_preview f s = s\<lparr>ec_preview := f (ec_preview s)\<rparr>"

definition doStartPreview :: "camera \<Rightarrow> int \<times> camera" where
  "doStartPreview s =
     (let s = on_preview startPreview (snd (stop_if_started s)) in
      case (if isConnected (ec_device s) then (0, s) else connectDevice s) of
        (r, s) \<Rightarrow>
          if r \<noteq> 0 then (r, on_preview stopPreview s)
          else case preview_parameters (ec_parameters s) of
              ((width, height), f) \<Rightarrow>
                (case Option.bind f frame_format of
                   None \<Rightarrow> (EINVAL, on_preview stopPreview s)
                 | Some fmt \<Rightarrow>
                     (case startDevice width height fmt s of
                        (r, s) \<Rightarrow>
                          if r \<noteq> 0 then (r, on_preview stopPreview s)
                          else case startDeliveringFrames False s of
                              (r, s) \<Rightarrow> (r, if r \<noteq> 0 then on_preview stopPreview (snd (stopDevice s)) else s))))"

definition doStopPreview :: "camera \<Rightarrow> int \<times> camera" where
  "doStopPreview s =
     (if pw_enabled (ec_preview s)
      then case stop_if_started s of (r, s) \<Rightarrow> (0, if r = 0 then on_preview stopPreview s else s)
      else (0, s))"

definition on_notifier :: "(notifier \<Rightarrow> notifier) \<Rightarrow> camera \<Rightarrow> camera" where
  "on_notifier f s = s\<lparr>ec_notifier := f (ec_notifier s)\<rparr>"

definition takePicture :: "camera \<Rightarrow> int \<times> camera" where
  "takePicture s =
     (case picture_format (pm_picture_format (ec_parameters s)) of
        None \<Rightarrow> (EINVAL, s)
      | Some fmt \<Rightarrow>
          let (width, height) = pm_picture_size (ec_parameters s);
              q = pm_jpeg_quality (ec_parameters s); quality = (if q \<le> 0 then 90 else q);
              preview_on = pw_enabled (ec_preview s);
              s = (if preview_on then snd (doStopPreview s) else s);
              s = snd (stop_if_started s) in
          case startDevice width height fmt s of
            (r, s) \<Rightarrow>
              if r \<noteq> 0 then (r, if preview_on then snd (doStartPreview s) else s)
              else case startDeliveringFrames True (on_notifier (setTakingPicture True \<circ> setJpegQuality quality) s) of
                  (r, s) \<Rightarrow>
                    if r \<noteq> 0
                    then (r, let s = on_notifier (setTakingPicture False) s in if preview_on then snd (doStartPreview s) else s)
                    else (r, s))"

definition cleanupCamera :: "camera \<Rightarrow> int \<times> camera" where
  "cleanupCamera s =
     (let s = snd (doStopPreview s) in
      case stop_if_started s of
        (r, s) \<Rightarrow>
          if r \<noteq> 0 then (- r, s)
          else case (if isConnected (ec_device s) then disconnectDevice s else (0, s)) of
              (r, s) \<Rightarrow> if r \<noteq> 0 then (- r, s) else (0, on_notifier cleanupCBNotifier s))"

text \<open>\<open>strstr\<close>: the mode is somewhere in the list of the supported ones. A mode that was not registered has no scales.\<close>

definition setWhiteBalanceMode :: "string \<Rightarrow> camera_device \<Rightarrow> camera_device" where
  "setWhiteBalanceMode mode d =
     d\<lparr>cd_balance := (if mode \<in> {''WHITE_BALANCE_AUTO'', ''WHITE_BALANCE_INCANDESCENT'', ''WHITE_BALANCE_DAYLIGHT'', ''WHITE_BALANCE_TWILIGHT''}
       then Some mode else None)\<rparr>"

definition new_exposure :: "camera_parameters \<Rightarrow> int" where
  "new_exposure m = (case pm_exposure m of (e, lo, hi) \<Rightarrow> let e = min e hi in max e lo)"

definition setParameters :: "camera_parameters \<Rightarrow> camera \<Rightarrow> int \<times> camera" where
  "setParameters m s =
     (let old = ec_parameters s;
          s = (case pm_exposure m of
                 (e, lo, hi) \<Rightarrow>
                   if (lo \<noteq> 0 \<or> hi \<noteq> 0) \<and> fst (pm_exposure old) \<noteq> new_exposure m
                   then on_device (cd_exposure_update (\<lambda>_. new_exposure m)) s else s);
          s = (case (pm_balances m, pm_balance m) of
                 (Some known, Some b) \<Rightarrow>
                   if sublist b known \<and> pm_balance old \<noteq> Some b then on_device (setWhiteBalanceMode b) s else s
               | _ \<Rightarrow> s)
      in (0, s\<lparr>ec_parameters := m\<rparr>))"

section \<open>Making a camera\<close>

text \<open>The first size of a list such as \<open>640x480,320x240\<close>; the copy is cut off after 127 characters, and \<open>atoi\<close> of no number is 0.\<close>

definition first_size :: "string \<Rightarrow> (int \<times> int) option" where
  "first_size frame_dims =
     (let first_dim = take 127 (takeWhile (\<lambda>c. c \<noteq> CHR '','') frame_dims);
          x = takeWhile (\<lambda>c. c \<noteq> CHR ''x'') first_dim;
          atoi = (\<lambda>s. case scan_int s of None \<Rightarrow> 0 | Some n \<Rightarrow> n) in
      if x = first_dim then None else Some (atoi x, atoi (drop (length x + 1) first_dim)))"

definition base_parameters :: camera_parameters where
  "base_parameters =
     \<lparr>pm_video_size = None, pm_preview_size = (-1, -1), pm_picture_size = (-1, -1), pm_recording_hint = None,
      pm_video_format = Some ''PIXEL_FORMAT_YUV420P'', pm_preview_format = Some ''PIXEL_FORMAT_YUV420SP'',
      pm_picture_format = ''PIXEL_FORMAT_JPEG'', pm_jpeg_quality = 90, pm_frame_rate = 24, pm_exposure = (0, -6, 6),
      pm_balance = Some ''WHITE_BALANCE_AUTO'',
      pm_balances = Some ''WHITE_BALANCE_AUTO,WHITE_BALANCE_INCANDESCENT,WHITE_BALANCE_DAYLIGHT,WHITE_BALANCE_TWILIGHT''\<rparr>"

definition camera_new :: "int list \<Rightarrow> int list \<Rightarrow> camera" where
  "camera_new results writes =
     \<lparr>ec_device = camera_device_new, ec_preview = preview_new, ec_notifier = notifier_new, ec_parameters = base_parameters,
      ec_results = results, ec_writes = writes, ec_log = []\<rparr>"

definition camera_initialize :: "string \<Rightarrow> camera \<Rightarrow> int \<times> camera" where
  "camera_initialize frame_dims s =
     (case qemu_initialize s of
        (r, s) \<Rightarrow>
          if r \<noteq> 0 then (r, s)
          else
            let s = (on_device (setWhiteBalanceMode ''WHITE_BALANCE_AUTO'') s)\<lparr>ec_parameters := base_parameters\<rparr> in
            (case first_size frame_dims of
               None \<Rightarrow> (EINVAL, s)
             | Some v \<Rightarrow> (0, s\<lparr>ec_parameters := (ec_parameters s)\<lparr>pm_preview_size := v, pm_picture_size := v\<rparr>\<rparr>)))"

section \<open>Histories\<close>

datatype camera_op =
    Co_Initialize string
  | Co_Connect
  | Co_SetWindow "nat option" int
  | Co_Notifier notifier_op
  | Co_StartPreview
  | Co_StopPreview
  | Co_StartRecording
  | Co_TakePicture
  | Co_SetParameters camera_parameters
  | Co_Close
  | Wk_Ready
  | Wk_Frame preview_answers notifier_answers int

text \<open>Operations of the notifier that the camera passes on.\<close>

fun passed_on :: "notifier_op \<Rightarrow> bool" where
  "passed_on (No_SetCallbacks c) = True"
| "passed_on (No_Enable m) = True"
| "passed_on (No_Disable m) = True"
| "passed_on No_StopVideo = True"
| "passed_on (No_Release d) = True"
| "passed_on _ = False"

text \<open>The steps of the worker happen when the thread runs, and the first of them is to make the pipe. None: it cannot happen.\<close>

fun camera_step :: "camera_op \<Rightarrow> camera \<Rightarrow> (fault + camera) option" where
  "camera_step (Co_Initialize dims) s = Some (Inr (snd (camera_initialize dims s)))"
| "camera_step Co_Connect s = Some (Inr (snd (connectCamera s)))"
| "camera_step (Co_SetWindow w usage) s =
     Some (map_sum id (\<lambda>(r, p, c). logged (map Ce_Window c) (on_preview (\<lambda>_. p) s))
             (setPreviewWindow w (pm_frame_rate (ec_parameters s)) usage (ec_preview s)))"
| "camera_step (Co_Notifier op) s =
     (if passed_on op
      then Some (map_sum id (\<lambda>(n, c). logged (map Ce_Callback c) (on_notifier (\<lambda>_. n) s)) (notifier_step op (ec_notifier s)))
      else None)"
| "camera_step Co_StartPreview s = Some (Inr (snd (doStartPreview s)))"
| "camera_step Co_StopPreview s = Some (Inr (snd (doStopPreview s)))"
| "camera_step Co_StartRecording s =
     Some (map_sum id (\<lambda>n. on_notifier (\<lambda>_. n) s) (enableVideoRecording (pm_frame_rate (ec_parameters s)) (ec_notifier s)))"
| "camera_step Co_TakePicture s = Some (Inr (snd (takePicture s)))"
| "camera_step (Co_SetParameters m) s = Some (Inr (snd (setParameters m s)))"
| "camera_step Co_Close s = Some (Inr (snd (cleanupCamera s)))"
| "camera_step Wk_Ready s =
     (if wk_running (ec_device s) \<and> \<not> wk_fds (ec_device s) then Some (Inr (readyToRun s)) else None)"
| "camera_step (Wk_Frame a b ts) s =
     (if wk_running (ec_device s) \<and> wk_fds (ec_device s) then Some (inWorkerThread a b ts s) else None)"


section \<open>The worker has its buffers\<close>

definition device_sound :: "camera_device \<Rightarrow> bool" where
  "device_sound d \<longleftrightarrow>
     (wk_running d \<or> wk_fds d \<longrightarrow> isStarted d) \<and>
     (cd_state d \<noteq> ECDS_CONSTRUCTED \<longrightarrow> cd_worker d) \<and>
     (isStarted d \<longrightarrow>
        cd_frame d = Some (cd_size d) \<and> cd_size d = cd_width d * cd_height d * 12 div 8 \<and>
        cd_total d = cd_width d * cd_height d \<and> cd_preview d = Some (cd_total d))"

definition camera_sound :: "camera \<Rightarrow> bool" where
  "camera_sound s \<longleftrightarrow> device_sound (ec_device s) \<and> set (ec_writes s) \<subseteq> {0}"

text \<open>A device whose thread is stopped.\<close>

definition camera_idle :: "camera \<Rightarrow> bool" where
  "camera_idle s \<longleftrightarrow> camera_sound s \<and> \<not> wk_running (ec_device s) \<and> \<not> wk_fds (ec_device s)"


lemma camera_fields [simp]:
  "ec_device (on_device f s) = f (ec_device s)" "ec_writes (on_device f s) = ec_writes s"
  "ec_preview (on_device f s) = ec_preview s" "ec_notifier (on_device f s) = ec_notifier s"
  "ec_parameters (on_device f s) = ec_parameters s"
  "ec_device (logged es s) = ec_device s" "ec_writes (logged es s) = ec_writes s"
  "ec_preview (logged es s) = ec_preview s" "ec_notifier (logged es s) = ec_notifier s"
  "ec_parameters (logged es s) = ec_parameters s"
  "ec_device (on_preview g s) = ec_device s" "ec_writes (on_preview g s) = ec_writes s"
  "ec_preview (on_preview g s) = g (ec_preview s)" "ec_notifier (on_preview g s) = ec_notifier s"
  "ec_parameters (on_preview g s) = ec_parameters s"
  "ec_device (on_notifier h s) = ec_device s" "ec_writes (on_notifier h s) = ec_writes s"
  "ec_preview (on_notifier h s) = ec_preview s" "ec_notifier (on_notifier h s) = h (ec_notifier s)"
  "ec_parameters (on_notifier h s) = ec_parameters s"
  by (simp_all add: on_device_def logged_def on_preview_def on_notifier_def)



text \<open>What does not touch the preview, the notifier and the parameters.\<close>

definition same_camera :: "camera \<Rightarrow> camera \<Rightarrow> bool" where
  "same_camera s s' \<longleftrightarrow>
     ec_preview s' = ec_preview s \<and> ec_notifier s' = ec_notifier s \<and> ec_parameters s' = ec_parameters s"



lemmas camera_conditions = camera_idle_def camera_sound_def device_sound_def same_camera_def isStarted_def isConnected_def isInitialized_def








section \<open>The camera is sound\<close>

lemma on_preview_sound [simp]:
  "camera_sound (on_preview f s) = camera_sound s" "camera_idle (on_preview f s) = camera_idle s"
  "camera_sound (on_notifier g s) = camera_sound s" "camera_idle (on_notifier g s) = camera_idle s"
  "camera_sound (logged es s) = camera_sound s"
  by (simp_all add: camera_conditions)










fun camera_play :: "camera_op list \<Rightarrow> camera \<Rightarrow> camera option" where
  "camera_play [] s = Some s"
| "camera_play (op # ops) s = (case camera_step op s of Some (Inr s) \<Rightarrow> camera_play ops s | _ \<Rightarrow> None)"




section \<open>What goes wrong\<close>

text \<open>Stopping never deletes the preview frame: every start loses the one before.\<close>

lemma preview_frames_leak:
  "case camera_play [Co_Initialize ''640x480'', Co_StartPreview, Co_StopPreview, Co_StartPreview, Co_StopPreview] (camera_new [] []) of
     None \<Rightarrow> False
   | Some s \<Rightarrow> filter (\<lambda>e. case e of Ce_New_Preview _ \<Rightarrow> True | Ce_Delete_Preview \<Rightarrow> True | _ \<Rightarrow> False) (ec_log s) =
       [Ce_New_Preview 307200, Ce_New_Preview 307200]"
  by code_simp

text \<open>A start that the service refuses keeps both frames, and the next start loses them.\<close>

lemma refused_start_leaks:
  "case camera_play [Co_Initialize ''640x480'', Co_StartPreview, Co_StartPreview] (camera_new [0, 0, 5, 0, 0] []) of
     None \<Rightarrow> False
   | Some s \<Rightarrow> filter (\<lambda>e. case e of Ce_New_Frame _ \<Rightarrow> True | Ce_Delete_Frame \<Rightarrow> True | _ \<Rightarrow> False) (ec_log s) =
       [Ce_New_Frame 460800, Ce_New_Frame 460800]"
  by code_simp

text \<open>A stop that fails is reported as success: the camera is closed with the preview on.\<close>

lemma closed_with_preview_on:
  "case camera_play [Co_Initialize ''640x480'', Co_StartPreview, Wk_Ready, Co_Close] (camera_new [0, 0, 0, 0, 0, 5] []) of
     None \<Rightarrow> False
   | Some s \<Rightarrow> pw_enabled (ec_preview s) \<and> \<not> isConnected (ec_device s)"
  by code_simp

text \<open>When a write to the pipe fails the worker goes on, and the frame is deleted under it.\<close>

lemma frame_deleted_under_worker:
  "case camera_play [Co_Initialize ''640x480'', Co_StartPreview, Wk_Ready, Co_StopPreview] (camera_new [] [9]) of
     None \<Rightarrow> False
   | Some s \<Rightarrow> wk_running (ec_device s) \<and> cd_frame (ec_device s) = None"
  by code_simp

text \<open>A white balance that is in the application's own list but was not registered has no scales, and the worker follows the null pointer.\<close>

lemma unknown_balance_followed:
  "case camera_play
     [Co_Initialize ''640x480'', Co_SetParameters (base_parameters\<lparr>pm_preview_size := (2, 2), pm_balance := Some ''x'', pm_balances := Some ''x''\<rparr>),
      Co_StartPreview, Wk_Ready] (camera_new [] []) of
     None \<Rightarrow> False
   | Some s \<Rightarrow> cd_balance (ec_device s) = None \<and> camera_step (Wk_Frame (frame_of 20 3 True) (memory_for 10 []) 5) s = Some (Inl Undefined)"
  by code_simp

end
