(* ===== verification/CameraFactory.thy ===== *)
theory CameraFactory
  imports EmulatedCamera
begin

text \<open>
  The factory of the emulated cameras in Android (\<open>android/camera/EmulatedCameraFactory.cpp\<close>): which cameras there are, from the list
  of the camera service and the boot properties, opening one, and changes of their status. The list is a string that ends at its first
  zero; initialising a camera succeeds or not as a list of answers says, and succeeds when that is empty. The array of the
  cameras is a list of slots, among them memory that nobody wrote and cameras that were deleted.
  Shown here: a list with the tokens the code asks for gives exactly its cameras, the documented list gives none; if the
  versions of the fake cameras are known every number below the number of cameras is a camera with that number.
\<close>

section \<open>The list of the service\<close>

text \<open>What is behind the first token (\<open>strstr\<close>), up to a space.\<close>

fun behind_token :: "string \<Rightarrow> string \<Rightarrow> string option" where
  "behind_token tok [] = (if tok = [] then Some [] else None)"
| "behind_token tok (c # cs) = (if prefix tok (c # cs) then Some (drop (length tok) (c # cs)) else behind_token tok cs)"

definition token_value :: "string \<Rightarrow> string \<Rightarrow> string option" where
  "token_value tok line = map_option (takeWhile (\<lambda>c. c \<noteq> CHR '' '')) (behind_token tok line)"

type_synonym camera_line = "string \<times> string \<times> string"

definition camera_entry :: "string \<Rightarrow> camera_line option" where
  "camera_entry line =
     (case (token_value ''name='' line, token_value ''framedims='' line, token_value ''dir='' line) of
        (Some n, Some f, Some d) \<Rightarrow> Some (n, f, d)
      | _ \<Rightarrow> None)"

abbreviation line_end :: char where
  "line_end \<equiv> CHR 0x0A"

definition next_entry :: "string \<Rightarrow> string option" where
  "next_entry cur = (if line_end \<in> set cur then Some (drop (Suc (length (takeWhile (\<lambda>c. c \<noteq> line_end) cur))) cur) else None)"

lemma next_entry_shorter: "next_entry cur = Some nxt \<Longrightarrow> cur \<noteq> [] \<Longrightarrow> length nxt < length cur"
  by (auto simp: next_entry_def split: if_splits)

text \<open>The cameras that were made, with the results of their initialisation still to come.\<close>

function make_cameras :: "string option \<Rightarrow> nat \<Rightarrow> nat \<Rightarrow> bool list \<Rightarrow> camera_line list \<times> bool list" where
  "make_cameras cur_entry index num ok =
     (case cur_entry of
        None \<Rightarrow> ([], ok)
      | Some cur \<Rightarrow>
          if cur = [] \<or> num \<le> index then ([], ok)
          else case camera_entry (takeWhile (\<lambda>c. c \<noteq> line_end) cur) of
              None \<Rightarrow> make_cameras (next_entry cur) index num ok
            | Some e \<Rightarrow>
                if ok = [] \<or> hd ok
                then (case make_cameras (next_entry cur) (index + 1) num (tl ok) of (es, ok) \<Rightarrow> (e # es, ok))
                else make_cameras (next_entry cur) index num (tl ok))"
  by auto
termination
proof (relation "measure (\<lambda>(c, i, n, ok). case c of None \<Rightarrow> 0 | Some c \<Rightarrow> Suc (length c))")
qed (auto split: option.split dest: next_entry_shorter)

declare make_cameras.simps [simp del]

section \<open>The array of the cameras\<close>

datatype camera_slot = Not_Written | No_Camera | Qemu_Camera nat camera_line | Fake_Camera nat nat bool | Deleted_Camera

record camera_factory =
  cf_cameras :: "camera_slot list option"
  cf_num :: nat
  cf_ok :: bool
  cf_callbacks :: bool

text \<open>The array has two slots more than the list has lines, and one more is cleared.\<close>

definition createQemuCameras :: "string option \<Rightarrow> bool list \<Rightarrow> camera_slot list option \<times> nat \<times> bool list" where
  "createQemuCameras camera_list ok =
     (case camera_list of
        None \<Rightarrow> (None, 0, ok)
      | Some l \<Rightarrow>
          let l = takeWhile (\<lambda>c. c \<noteq> CHR 0x00) l in
          if l = [] \<or> hd l = line_end then (None, 0, ok)
          else
            let num = length (filter (\<lambda>c. c = line_end) l); (es, ok) = make_cameras (Some l) 0 num ok; n = length es in
            (Some (map (\<lambda>(i, e). Qemu_Camera i e) (enumerate 0 es) @ replicate (num + 1 - n) No_Camera @ [Not_Written]), n, ok))"

text \<open>
  Boot properties; the version is 1 unless the property is a number and nothing else. A \<open>long\<close> of 64 bits, which ends at its
  bounds, becomes an \<open>int\<close>.
\<close>

definition fake_camera_on :: "string \<Rightarrow> string option \<Rightarrow> bool" where
  "fake_camera_on facing property = (case property of None \<Rightarrow> False | Some p \<Rightarrow> p = ''both'' \<or> p = facing)"

definition all_digits :: "string \<Rightarrow> bool" where
  "all_digits s = (let s = dropWhile c_isspace s; s = (if s \<noteq> [] \<and> hd s \<in> {CHR ''-'', CHR ''+''} then tl s else s) in
     s \<noteq> [] \<and> list_all c_isdigit s)"

definition hal_version :: "string option \<Rightarrow> int" where
  "hal_version property =
     (case property of
        None \<Rightarrow> 1
      | Some p \<Rightarrow>
          if p \<noteq> [] \<and> all_digits p
          then (case scan_int p of
              Some v \<Rightarrow> (max (-(2 ^ 63)) (min (2 ^ 63 - 1) v) + 2 ^ 31) mod 2 ^ 32 - 2 ^ 31
            | None \<Rightarrow> 1)
          else 1)"

text \<open>A fake camera gets the next number. What is in its slot decides whether it was made.\<close>

definition add_fake_camera ::
  "bool \<Rightarrow> int \<Rightarrow> bool \<Rightarrow> camera_slot list option \<times> nat \<Rightarrow> fault + camera_slot list option \<times> nat" where
  "add_fake_camera back version ok f =
     (case f of
        (slots, num) \<Rightarrow>
          let slots = (case slots of Some l \<Rightarrow> l | None \<Rightarrow> replicate (if back then num + 2 else num + 1) No_Camera);
              slots = (if version \<in> {1, 2, 3} then slots[num := Fake_Camera num (nat version) back] else slots) in
          if length slots \<le> num then Inl Undefined
          else case slots ! num of
              No_Camera \<Rightarrow> Inr (Some slots, num)
            | Not_Written \<Rightarrow> Inl Undefined
            | Deleted_Camera \<Rightarrow> Inl Undefined
            | _ \<Rightarrow> if ok then Inr (Some slots, num + 1) else Inr (Some (slots[num := Deleted_Camera]), num))"

record boot_properties =
  bp_fake :: "string option"
  bp_back :: "string option"
  bp_front :: "string option"

text \<open>\<open>connected\<close>: the service was reached; \<open>camera_list\<close>: what it lists, if it answers.\<close>

definition factory ::
  "bool \<Rightarrow> string option \<Rightarrow> boot_properties \<Rightarrow> bool list \<Rightarrow> bool \<Rightarrow> bool \<Rightarrow> fault + camera_factory" where
  "factory connected camera_list p ok back_ok front_ok =
     (case (if connected then createQemuCameras camera_list ok else (None, 0, ok)) of
        (slots, num, ok) \<Rightarrow>
          (case (if fake_camera_on ''back'' (bp_fake p) then add_fake_camera True (hal_version (bp_back p)) back_ok (slots, num)
                 else Inr (slots, num)) of
             Inl e \<Rightarrow> Inl e
           | Inr f \<Rightarrow>
               map_sum id (\<lambda>(slots, num). \<lparr>cf_cameras = slots, cf_num = num, cf_ok = True, cf_callbacks = False\<rparr>)
                 (if fake_camera_on ''front'' (bp_fake p) then add_fake_camera False (hal_version (bp_front p)) front_ok f else Inr f)))"

text \<open>The camera whose \<open>connectCamera\<close> or \<open>getCameraInfo\<close> is called; the errors are \<open>- EINVAL\<close> and \<open>- ENODEV\<close>.\<close>

definition camera_at :: "int \<Rightarrow> camera_factory \<Rightarrow> fault + int + camera_slot" where
  "camera_at camera_id f =
     (if \<not> cf_ok f then Inr (Inl (- EINVAL))
      else if camera_id < 0 \<or> camera_id \<ge> int (cf_num f) then Inr (Inl (-19))
      else case cf_cameras f of
          None \<Rightarrow> Inl Undefined
        | Some l \<Rightarrow>
            if length l \<le> nat camera_id then Inl Undefined
            else case l ! nat camera_id of
                Qemu_Camera i e \<Rightarrow> Inr (Inr (Qemu_Camera i e))
              | Fake_Camera i v b \<Rightarrow> Inr (Inr (Fake_Camera i v b))
              | _ \<Rightarrow> Inl Undefined)"

text \<open>The name is a number (\<open>atoi\<close>).\<close>

definition device_open :: "bool \<Rightarrow> string option \<Rightarrow> camera_factory \<Rightarrow> fault + int + camera_slot" where
  "device_open module name f =
     (if \<not> module then Inr (Inl (- EINVAL))
      else case name of
          None \<Rightarrow> Inr (Inl (- EINVAL))
        | Some n \<Rightarrow> camera_at (case scan_int n of None \<Rightarrow> 0 | Some i \<Rightarrow> i) f)"

datatype status_call = Status_Callback nat int | Unplug_Camera camera_slot | Plug_Camera camera_slot

text \<open>The number is not checked. \<open>status\<close>: the camera's own answer; 0 and 1 are the framework's values for absent and present.\<close>

definition factory_status_changed ::
  "nat \<Rightarrow> int \<Rightarrow> int \<Rightarrow> camera_factory \<Rightarrow> fault + status_call list" where
  "factory_status_changed camera_id newStatus status f =
     (case cf_cameras f of
        None \<Rightarrow> Inl Undefined
      | Some l \<Rightarrow>
          if length l \<le> camera_id then Inl Undefined
          else case l ! camera_id of
              No_Camera \<Rightarrow> Inr []
            | Not_Written \<Rightarrow> Inl Undefined
            | Deleted_Camera \<Rightarrow> Inl Undefined
            | c \<Rightarrow>
                if newStatus = status then Inr []
                else Inr ((if cf_callbacks f then [Status_Callback camera_id newStatus] else []) @
                  (if newStatus = 0 then [Unplug_Camera c] else if newStatus = 1 then [Plug_Camera c] else [])))"

section \<open>Lists are understood\<close>

text \<open>A line as the code wants it, and as the header of the client documents it.\<close>

definition service_line :: "nat \<Rightarrow> nat \<Rightarrow> camera_line \<Rightarrow> string" where
  "service_line channel pix e =
     (case e of (n, f, d) \<Rightarrow>
        ''name='' @ n @ CHR '' '' # ''channel='' @ show_nat channel @ CHR '' '' # ''pix='' @ show_nat pix @ CHR '' '' #
        ''dir='' @ d @ CHR '' '' # ''framedims='' @ f)"

definition documented_line :: "nat \<Rightarrow> nat \<Rightarrow> string \<Rightarrow> string \<Rightarrow> string" where
  "documented_line channel pix n f =
     ''name='' @ n @ CHR '' '' # ''channel='' @ show_nat channel @ CHR '' '' # ''pix='' @ show_nat pix @ CHR '' '' # ''framedims='' @ f"

text \<open>Values without spaces, ends of lines, zeros and equal signs.\<close>

definition plain :: "string \<Rightarrow> bool" where
  "plain s \<longleftrightarrow> set s \<inter> {CHR '' '', CHR ''='', line_end, CHR 0x00} = {}"

lemma plain_digits: "plain (show_nat n)"
proof (induction n rule: show_nat.induct)
  case (1 n)
  have "plain [char_of (48 + k)]" if "k < 10" for k :: nat
  proof -
    have "k \<in> {0, 1, 2, 3, 4, 5, 6, 7, 8, 9}" using that by auto
    then show ?thesis by (auto simp: plain_def char_of_def)
  qed
  then show ?case using 1 by (simp add: show_nat.simps [of n] plain_def Int_Un_distrib2)
qed

lemma behind_nothing:
  assumes "CHR ''='' \<notin> set v" "CHR ''='' \<in> set tok"
  shows "behind_token tok v = None"
  using assms
proof (induction v)
  case (Cons a v)
  have "\<not> prefix tok (a # v)" using Cons.prems set_mono_prefix by (metis subsetD)
  then show ?case using Cons by simp
qed auto

lemma prefix_word:
  assumes "c \<notin> set tok"
  shows "prefix tok (w @ c # rest) \<longleftrightarrow> prefix tok w"
proof
  assume p: "prefix tok (w @ c # rest)"
  show "prefix tok w"
  proof (cases "length tok \<le> length w")
    case True
    then show ?thesis using p by (metis prefix_append prefix_length_prefix prefix_order.refl prefixI)
  next
    case False
    from p obtain zs where "w @ c # rest = tok @ zs" by (auto simp: prefix_def)
    then have "tok ! length w = c" using False by (metis not_le nth_append nth_append_length)
    then show ?thesis using assms False by (metis not_le nth_mem)
  qed
qed (auto intro: prefix_prefix)

lemma behind_word:
  assumes "c \<notin> set tok" "tok \<noteq> []"
  shows "behind_token tok (w @ c # rest) =
    (case behind_token tok w of Some v \<Rightarrow> Some (v @ c # rest) | None \<Rightarrow> behind_token tok rest)"
proof (induction w)
  case Nil
  have "\<not> prefix tok (c # rest)" using assms by (cases tok) auto
  then show ?case using assms(2) by simp
next
  case (Cons a w)
  have "prefix tok ((a # w) @ c # rest) = prefix tok (a # w)" by (rule prefix_word [OF assms(1)])
  moreover have "drop (length tok) ((a # w) @ c # rest) = drop (length tok) (a # w) @ c # rest" if "prefix tok (a # w)"
    unfolding drop_append using prefix_length_le [OF that] by simp
  ultimately show ?case using Cons by (cases "prefix tok (a # w)") simp_all
qed

lemma behind_value:
  assumes "plain v" "CHR ''='' \<in> set tok" "CHR '' '' \<notin> set tok" "tok \<noteq> []"
  shows "behind_token tok (v @ CHR '' '' # rest) = behind_token tok rest"
  using assms behind_word [of "CHR '' ''" tok v rest] behind_nothing [of v tok] by (simp add: plain_def)

lemma plain_word [simp]: "plain v \<Longrightarrow> takeWhile (\<lambda>c. c \<noteq> CHR '' '') v = v" "plain v \<Longrightarrow> takeWhile (\<lambda>c. c \<noteq> CHR '' '') (v @ CHR '' '' # r) = v"
  by (auto simp: plain_def takeWhile_eq_all_conv intro: takeWhile_tail [THEN trans])

lemma plain_characters [simp]:
  "plain v \<Longrightarrow> CHR ''='' \<notin> set v" "plain v \<Longrightarrow> line_end \<notin> set v" "plain v \<Longrightarrow> CHR 0x00 \<notin> set v"
  by (simp_all add: plain_def)



lemma camera_entry_documented:
  assumes "plain n" "plain f"
  shows "camera_entry (documented_line channel pix n f) = None"
  using assms plain_digits
  by (simp add: camera_entry_def documented_line_def token_value_def behind_value behind_nothing)


definition service_text :: "nat \<Rightarrow> nat \<Rightarrow> camera_line list \<Rightarrow> string" where
  "service_text channel pix es = concat (map (\<lambda>e. service_line channel pix e @ [line_end]) es)"



lemma first_line:
  assumes "line_end \<notin> set l"
  shows "takeWhile (\<lambda>c. c \<noteq> line_end) (l @ line_end # rest) = l" "next_entry (l @ line_end # rest) = Some rest"
proof -
  show t: "takeWhile (\<lambda>c. c \<noteq> line_end) (l @ line_end # rest) = l"
    using assms by (induction l) auto
  show "next_entry (l @ line_end # rest) = Some rest" by (simp add: next_entry_def t)
qed






text \<open>A list as the header of the client documents it has no direction: it gives no camera at all.\<close>

lemma documented_list_unusable:
  assumes "plain n" "plain f"
  shows "fst (snd (createQemuCameras (Some (documented_line channel pix n f @ [line_end])) ok)) = 0"
proof -
  let ?l = "documented_line channel pix n f"
  have c: "line_end \<notin> set ?l" "CHR 0x00 \<notin> set ?l"
    using assms plain_digits by (simp_all add: documented_line_def)
  have "fst (make_cameras (Some (?l @ [line_end])) 0 k ok) = []" for k
  proof -
    have "make_cameras (Some (?l @ [line_end])) 0 k ok = (if k = 0 then ([], ok) else make_cameras (Some []) 0 k ok)"
      using first_line [OF c(1), of "[]"] camera_entry_documented [OF assms]
      by (subst make_cameras.simps) (simp add: documented_line_def)
    then show ?thesis by (simp add: make_cameras.simps)
  qed
  moreover have "takeWhile (\<lambda>c. c \<noteq> CHR 0x00) (?l @ [line_end]) = ?l @ [line_end]"
    using c(2) by (auto simp: takeWhile_eq_all_conv)
  ultimately show ?thesis unfolding createQemuCameras_def by (simp only: Let_def option.case case_prod_beta if_distrib [where f = "\<lambda>x. fst (snd x)"] fst_conv snd_conv list.size if_cancel)
qed


section \<open>The numbers of the cameras\<close>

fun camera_number :: "camera_slot \<Rightarrow> nat option" where
  "camera_number (Qemu_Camera i e) = Some i"
| "camera_number (Fake_Camera i v b) = Some i"
| "camera_number _ = None"

text \<open>The cameras are numbered by their places, and there is room for some more.\<close>

definition numbered :: "nat \<Rightarrow> camera_slot list option \<times> nat \<Rightarrow> bool" where
  "numbered room f \<longleftrightarrow>
     (case fst f of
        None \<Rightarrow> snd f = 0
      | Some l \<Rightarrow> snd f + room \<le> length l \<and> (\<forall>i < snd f. camera_number (l ! i) = Some i))"

lemma numbered_less: "numbered room f \<Longrightarrow> fewer \<le> room \<Longrightarrow> numbered fewer f"
  by (auto simp: numbered_def split: option.splits)

lemma made_in_bounds: "length (fst (make_cameras cur index num ok)) \<le> num - index"
proof (induction cur index num ok rule: make_cameras.induct)
  case (1 cur index num ok)
  then show ?case
    by (subst make_cameras.simps) (fastforce split: option.split simp: case_prod_beta)
qed

lemma listed_cameras_numbered:
  assumes "createQemuCameras camera_list ok = (slots, num, ok')"
  shows "numbered 2 (slots, num)"
proof (cases slots)
  case None
  then show ?thesis using assms
    by (auto simp: createQemuCameras_def numbered_def Let_def case_prod_beta split: option.splits if_splits)
next
  case (Some l)
  then obtain cur n where n: "num = length (fst (make_cameras cur 0 n ok))"
    and l: "l = map (\<lambda>(i, e). Qemu_Camera i e) (enumerate 0 (fst (make_cameras cur 0 n ok))) @ replicate (n + 1 - num) No_Camera @ [Not_Written]"
    using assms by (auto simp: createQemuCameras_def Let_def case_prod_beta split: option.splits if_splits)
  have "num \<le> n" using made_in_bounds [of cur 0 n ok] n by simp
  moreover have "camera_number (l ! i) = Some i" if "i < num" for i
    using that n unfolding l by (simp add: nth_append nth_enumerate_eq)
  ultimately show ?thesis using Some n by (simp add: numbered_def l)
qed

lemma add_fake_camera_numbered:
  assumes "numbered (Suc room) f" "version \<in> {1, 2, 3}" "room \<le> (if back then 1 else 0)"
  shows "\<exists>f'. add_fake_camera back version ok f = Inr f' \<and> numbered room f'"
proof -
  obtain slots num where f: "f = (slots, num)" by fastforce
  let ?l = "case slots of Some l \<Rightarrow> l | None \<Rightarrow> replicate (if back then num + 2 else num + 1) No_Camera"
  have l: "num + Suc room \<le> length ?l" "\<forall>i < num. camera_number (?l ! i) = Some i"
    using assms by (auto simp: f numbered_def split: option.splits)
  have result: "add_fake_camera back version ok f =
      (if ok then Inr (Some (?l[num := Fake_Camera num (nat version) back]), num + 1) else Inr (Some (?l[num := Deleted_Camera]), num))"
    using l(1) assms(2) unfolding add_fake_camera_def f prod.case Let_def by simp
  show ?thesis using l unfolding result by (cases ok) (auto simp: numbered_def less_Suc_eq)
qed

text \<open>
  C40. The numbers of the cameras. If the versions of the fake cameras that are on are known, the factory is built, whichever
  cameras could be initialised; each number below the number of cameras is answered by the camera that was
  given that number, and any other number is refused.
\<close>

theorem factory_numbers_are_cameras:
  assumes "fake_camera_on ''back'' (bp_fake p) \<longrightarrow> hal_version (bp_back p) \<in> {1, 2, 3}"
    and "fake_camera_on ''front'' (bp_fake p) \<longrightarrow> hal_version (bp_front p) \<in> {1, 2, 3}"
  shows "\<exists>f. factory connected camera_list p ok back_ok front_ok = Inr f \<and>
    (\<forall>i. case camera_at i f of
        Inl _ \<Rightarrow> False
      | Inr (Inl e) \<Rightarrow> e = -19 \<and> (i < 0 \<or> i \<ge> int (cf_num f))
      | Inr (Inr c) \<Rightarrow> 0 \<le> i \<and> i < int (cf_num f) \<and> camera_number c = Some (nat i))"
proof -
  obtain slots num ok' where q: "(if connected then createQemuCameras camera_list ok else (None, 0, ok)) = (slots, num, ok')"
    by (metis surj_pair)
  have "numbered 2 (slots, num)"
    using q listed_cameras_numbered [of camera_list ok slots num ok'] by (auto simp: numbered_def split: if_splits)
  then have "\<exists>f1. (if fake_camera_on ''back'' (bp_fake p) then add_fake_camera True (hal_version (bp_back p)) back_ok (slots, num)
      else Inr (slots, num)) = Inr f1 \<and> numbered 1 f1"
    using add_fake_camera_numbered [of 1 "(slots, num)" _ True] assms(1) numbered_less [of 2 _ 1] by (auto simp: numeral_2_eq_2)
  then obtain f1 where f1: "(if fake_camera_on ''back'' (bp_fake p) then add_fake_camera True (hal_version (bp_back p)) back_ok (slots, num)
      else Inr (slots, num)) = Inr f1" and n1: "numbered 1 f1" by blast
  have "\<exists>f2. (if fake_camera_on ''front'' (bp_fake p) then add_fake_camera False (hal_version (bp_front p)) front_ok f1 else Inr f1) = Inr f2
      \<and> numbered 0 f2"
    using add_fake_camera_numbered [of 0 f1 _ False] assms(2) n1 numbered_less [of 1 f1 0] by (cases f1) auto
  then obtain f2 where f2: "(if fake_camera_on ''front'' (bp_fake p) then add_fake_camera False (hal_version (bp_front p)) front_ok f1
      else Inr f1) = Inr f2" and n2: "numbered 0 f2" by blast
  define f where "f = \<lparr>cf_cameras = fst f2, cf_num = snd f2, cf_ok = True, cf_callbacks = False\<rparr>"
  have fields: "cf_cameras f = fst f2" "cf_num f = snd f2" "cf_ok f" by (simp_all add: f_def)
  have "factory connected camera_list p ok back_ok front_ok = Inr f"
    unfolding factory_def q prod.case f1 sum.case f2 f_def by (simp add: case_prod_beta)
  moreover have "case camera_at i f of
        Inl _ \<Rightarrow> False
      | Inr (Inl e) \<Rightarrow> e = -19 \<and> (i < 0 \<or> i \<ge> int (cf_num f))
      | Inr (Inr c) \<Rightarrow> 0 \<le> i \<and> i < int (cf_num f) \<and> camera_number c = Some (nat i)" for i
  proof (cases "i < 0 \<or> i \<ge> int (snd f2)")
    case False
    then have i: "nat i < snd f2" by linarith
    then obtain l where "fst f2 = Some l" "nat i < length l" "camera_number (l ! nat i) = Some (nat i)"
      using n2 by (cases "fst f2") (simp_all add: numbered_def)
    then show ?thesis using False by (cases "l ! nat i") (simp_all add: camera_at_def fields)
  qed (auto simp: camera_at_def fields)
  ultimately show ?thesis by blast
qed

theorem factory_numbers_are_cameras_witness:
  "\<exists>f. factory False None \<lparr>bp_fake = Some ''both'', bp_back = Some ''3'', bp_front = Some ''2x''\<rparr> [] True True = Inr f \<and>
    camera_at 2 f = Inr (Inl (-19))"
proof -
  let ?p = "\<lparr>bp_fake = Some ''both'', bp_back = Some ''3'', bp_front = Some ''2x''\<rparr>"
  have v: "fake_camera_on ''back'' (bp_fake ?p) \<longrightarrow> hal_version (bp_back ?p) \<in> {1, 2, 3}"
    "fake_camera_on ''front'' (bp_fake ?p) \<longrightarrow> hal_version (bp_front ?p) \<in> {1, 2, 3}"
    by code_simp+
  obtain f where f: "factory False None ?p [] True True = Inr f" and at: "\<forall>i. case camera_at i f of
        Inl _ \<Rightarrow> False
      | Inr (Inl e) \<Rightarrow> e = -19 \<and> (i < 0 \<or> i \<ge> int (cf_num f))
      | Inr (Inr c) \<Rightarrow> 0 \<le> i \<and> i < int (cf_num f) \<and> camera_number c = Some (nat i)"
    using factory_numbers_are_cameras [OF v, of False None "[]" True True] by blast
  have "map_sum id cf_num (factory False None ?p [] True True) = Inr 2" by code_simp
  then have "cf_num f = 2" unfolding f by simp
  then show ?thesis using f at [rule_format, of 2] by (auto split: sum.splits)
qed

text \<open>Without a known version the slot is read all the same: nobody wrote it, or its camera was deleted.\<close>

lemma unknown_version_undefined:
  "factory True (Some (service_text 1 2 [(''a'', ''4x2'', ''back'')])) \<lparr>bp_fake = Some ''both'', bp_back = None, bp_front = Some ''4''\<rparr> []
     True True = Inl Undefined"
  "factory False None \<lparr>bp_fake = Some ''both'', bp_back = None, bp_front = Some ''4''\<rparr> [] False True = Inl Undefined"
  by code_simp+

end
