(* ===== verification/EglDisplay.thy ===== *)
theory EglDisplay
  imports Anbox_Prelude
begin

text \<open>
  The one display of EGL in Android (\<open>android/opengl/system/egl/eglDisplay.cpp\<close>): what it learns from the host when it is
  initialised, the table of the framebuffer configurations, and the strings that are asked for. Constants of EGL and of
  pixel formats are their names, numbers of formats an argument; loading libraries and asking the host are
  answers of a record. Integers are unbounded. The lock is held by each operation as a whole.
  Shown here: after an initialisation the display answers for every configuration and attribute what the host
  said, but for the visual, which is the format of Android's pixels; how strings are looked for in a list; a
  string in static memory is freed.
\<close>

section \<open>The display\<close>

record egl_display =
  dp_initialized :: bool
  dp_major :: int
  dp_minor :: int
  dp_hostVersion :: int
  dp_numConfigs :: int
  dp_numAttribs :: int
  dp_attribs :: "string \<Rightarrow> nat option"
  dp_configs :: "int list option"
  dp_gles :: bool
  dp_gles2 :: bool
  dp_version :: "string option"
  dp_vendor :: "(bool \<times> string) option"
  dp_extensions :: "string option"

text \<open>The flag of \<open>dp_vendor\<close> tells that the string is the constant, not one on the heap.\<close>

definition display_new :: egl_display where
  "display_new =
     \<lparr>dp_initialized = False, dp_major = 0, dp_minor = 0, dp_hostVersion = 0, dp_numConfigs = 0, dp_numAttribs = 0,
      dp_attribs = (\<lambda>_. None), dp_configs = None, dp_gles = False, dp_gles2 = False, dp_version = None, dp_vendor = None,
      dp_extensions = None\<rparr>"

text \<open>What can be loaded, whether there is a connection, and what the host answers: its version; the version of EGL with a
  status; how many configurations and attributes; the number of configurations with the names of the attributes and all
  values, configuration by configuration; strings.\<close>

record egl_host =
  eh_gles :: bool
  eh_gles2 :: bool
  eh_connected :: bool
  eh_rendererVersion :: int
  eh_version :: "bool \<times> int \<times> int"
  eh_counts :: "int \<times> int"
  eh_configs :: "int \<times> string list \<times> int list"
  eh_strings :: "string \<Rightarrow> string option"

section \<open>Attributes of configurations\<close>

definition getAttribValue :: "egl_display \<Rightarrow> int \<Rightarrow> nat option \<Rightarrow> fault + int option" where
  "getAttribValue d config attribIdx =
     (case attribIdx of
        None \<Rightarrow> Inr None
      | Some a \<Rightarrow>
          let i = config * dp_numAttribs d + int a in
          (case dp_configs d of
             None \<Rightarrow> Inl Undefined
           | Some cells \<Rightarrow> if 0 \<le> i \<and> nat i < length cells then Inr (Some (cells ! nat i)) else Inl Undefined))"

definition getConfigAttrib :: "egl_display \<Rightarrow> int \<Rightarrow> string \<Rightarrow> fault + int option" where
  "getConfigAttrib d config attrib = getAttribValue d config (dp_attribs d attrib)"

text \<open>The display and whether the attribute is known.\<close>

definition setConfigAttrib :: "int \<Rightarrow> string \<Rightarrow> int \<Rightarrow> egl_display \<Rightarrow> fault + bool \<times> egl_display" where
  "setConfigAttrib config attrib v d =
     (case dp_attribs d attrib of
        None \<Rightarrow> Inr (False, d)
      | Some a \<Rightarrow>
          let i = config * dp_numAttribs d + int a in
          (case dp_configs d of
             None \<Rightarrow> Inl Undefined
           | Some cells \<Rightarrow>
               if 0 \<le> i \<and> nat i < length cells then Inr (True, d\<lparr>dp_configs := Some (cells[nat i := v])\<rparr>)
               else Inl Undefined))"

fun get_values :: "egl_display \<Rightarrow> int \<Rightarrow> string list \<Rightarrow> fault + int list option" where
  "get_values d config [] = Inr (Some [])"
| "get_values d config (a # names) =
     (case getConfigAttrib d config a of
        Inl e \<Rightarrow> Inl e
      | Inr None \<Rightarrow> Inr None
      | Inr (Some v) \<Rightarrow> map_sum id (map_option (Cons v)) (get_values d config names))"

definition colour_sizes :: "egl_display \<Rightarrow> int \<Rightarrow> fault + int list option" where
  "colour_sizes d config =
     get_values d config [''EGL_RED_SIZE'', ''EGL_BLUE_SIZE'', ''EGL_GREEN_SIZE'', ''EGL_ALPHA_SIZE'']"

text \<open>Red, blue, green and alpha.\<close>

fun native_format :: "int list \<Rightarrow> string option" where
  "native_format [r, b, g, a] =
     (if r = 8 \<and> g = 8 \<and> b = 8 \<and> a = 8 then Some ''PIXEL_FORMAT_RGBA_8888''
      else if r = 8 \<and> g = 8 \<and> b = 8 \<and> a = 0 then Some ''PIXEL_FORMAT_RGBX_8888''
      else if r = 5 \<and> g = 6 \<and> b = 5 \<and> a = 0 then Some ''PIXEL_FORMAT_RGB_565''
      else if r = 5 \<and> g = 5 \<and> b = 5 \<and> a = 1 then Some ''PIXEL_FORMAT_RGBA_5551''
      else if r = 4 \<and> g = 4 \<and> b = 4 \<and> a = 4 then Some ''PIXEL_FORMAT_RGBA_4444''
      else None)"
| "native_format _ = None"

fun config_gl_format :: "int list \<Rightarrow> string option" where
  "config_gl_format [r, b, g, a] =
     (if r = g \<and> r = b \<and> (r = 8 \<or> r = 16 \<or> r = 32) then Some (if a = 0 then ''GL_RGB'' else ''GL_RGBA'')
      else if r = 5 \<and> g = 6 \<and> b = 5 \<and> a = 0 then Some ''GL_RGB565_OES''
      else if r = 5 \<and> g = 5 \<and> b = 5 \<and> a = 1 then Some ''GL_RGB5_A1_OES''
      else if r = 4 \<and> g = 4 \<and> b = 4 \<and> a = 4 then Some ''GL_RGBA4_OES''
      else None)"
| "config_gl_format _ = None"

definition getConfigNativePixelFormat :: "egl_display \<Rightarrow> int \<Rightarrow> fault + string option" where
  "getConfigNativePixelFormat d config = map_sum id (\<lambda>vs. Option.bind vs native_format) (colour_sizes d config)"

definition getConfigGLPixelFormat :: "egl_display \<Rightarrow> int \<Rightarrow> fault + string option" where
  "getConfigGLPixelFormat d config = map_sum id (\<lambda>vs. Option.bind vs config_gl_format) (colour_sizes d config)"

section \<open>Initialising\<close>

text \<open>The smaller one of the version of the host and 1.4.\<close>

definition min_version :: "int \<Rightarrow> int \<Rightarrow> int \<times> int" where
  "min_version major minor =
     (if major > 1 then (1, 4) else if major = 1 \<and> minor > 4 then (major, 4) else (major, minor))"

text \<open>A name that comes again gets the later position.\<close>

definition add_attribs :: "string list \<Rightarrow> (string \<Rightarrow> nat option) \<Rightarrow> string \<Rightarrow> nat option" where
  "add_attribs names = fold (\<lambda>(i, a) f. f(a \<mapsto> i)) (enumerate 0 names)"

text \<open>The buffer has room for what the host was asked for. When the number of configurations is another one the
  table is allocated and nothing is in it.\<close>

definition first_initialize :: "egl_host \<Rightarrow> egl_display \<Rightarrow> bool \<times> egl_display" where
  "first_initialize H d =
     (let d = d\<lparr>dp_gles := eh_gles H\<rparr> in
      if \<not> eh_gles H then (False, d)
      else
        let d = d\<lparr>dp_gles2 := eh_gles2 H\<rparr> in
        if \<not> eh_connected H then (False, d)
        else case eh_version H of
            (ok, major, minor) \<Rightarrow>
              let d = d\<lparr>dp_hostVersion := eh_rendererVersion H, dp_major := major, dp_minor := minor\<rparr> in
              if \<not> ok then (False, d)
              else
                (case (min_version major minor, eh_counts H, eh_configs H) of
                   ((major, minor), (n, k), (m, names, cells)) \<Rightarrow>
                     let d = d\<lparr>dp_major := major, dp_minor := minor, dp_numConfigs := n, dp_numAttribs := k\<rparr> in
                     if n \<le> 0 \<or> k \<le> 0 then (False, d)
                     else if m \<noteq> n then (False, d\<lparr>dp_configs := Some []\<rparr>)
                     else (True, d\<lparr>dp_attribs := add_attribs (take (nat k) names) (dp_attribs d),
                                   dp_configs := Some (take (nat (n * k)) cells), dp_initialized := True\<rparr>)))"

text \<open>The visual of configuration \<open>i\<close>. \<open>code\<close> gives the number of a pixel format.\<close>

definition process_config :: "(string \<Rightarrow> int) \<Rightarrow> int \<Rightarrow> egl_display \<Rightarrow> fault + egl_display" where
  "process_config code i d =
     (case getConfigNativePixelFormat d i of
        Inl e \<Rightarrow> Inl e
      | Inr None \<Rightarrow> Inr d
      | Inr (Some f) \<Rightarrow> map_sum id snd (setConfigAttrib i ''EGL_NATIVE_VISUAL_ID'' (code f) d))"

fun process_from :: "(string \<Rightarrow> int) \<Rightarrow> int list \<Rightarrow> egl_display \<Rightarrow> fault + egl_display" where
  "process_from code [] d = Inr d"
| "process_from code (i # idx) d =
     (case process_config code i d of Inl e \<Rightarrow> Inl e | Inr d \<Rightarrow> process_from code idx d)"

definition processConfigs :: "(string \<Rightarrow> int) \<Rightarrow> egl_display \<Rightarrow> fault + egl_display" where
  "processConfigs code d = process_from code (map int [0..<nat (dp_numConfigs d)]) d"

definition display_initialize :: "(string \<Rightarrow> int) \<Rightarrow> egl_host \<Rightarrow> egl_display \<Rightarrow> fault + bool \<times> egl_display" where
  "display_initialize code H d =
     (case (if dp_initialized d then (True, d) else first_initialize H d) of
        (False, d) \<Rightarrow> Inr (False, d)
      | (True, d) \<Rightarrow> map_sum id (Pair True) (processConfigs code d))"

text \<open>\<open>free\<close> has no meaning for a string that was not allocated.\<close>

definition display_terminate :: "egl_display \<Rightarrow> fault + egl_display" where
  "display_terminate d =
     (if \<not> dp_initialized d then Inr d
      else if (case dp_vendor d of Some (True, _) \<Rightarrow> True | _ \<Rightarrow> False) then Inl Undefined
      else Inr (d\<lparr>dp_initialized := False, dp_configs := None, dp_version := None, dp_vendor := None, dp_extensions := None\<rparr>))"

section \<open>Strings\<close>

definition systemEGLVendor :: string where
  "systemEGLVendor = ''Google Android emulator''"

definition systemStaticEGLExtensions :: string where
  "systemStaticEGLExtensions =
     ''EGL_ANDROID_image_native_buffer EGL_KHR_fence_sync EGL_KHR_image_base EGL_KHR_gl_texture_2d_image ''"

definition queryHostEGLString :: "egl_host \<Rightarrow> string \<Rightarrow> string option" where
  "queryHostEGLString H name = (if eh_connected H then map_option (\<lambda>s. s @ '' '') (eh_strings H name) else None)"

text \<open>\<open>strchr\<close> looks for the next space; without one the search ends.\<close>

function findExtInList :: "string \<Rightarrow> string \<Rightarrow> bool" where
  "findExtInList token p =
     (if p = [] then False
      else
        let w = takeWhile (\<lambda>c. c \<noteq> CHR '' '') p in
        if w = p then False
        else if token = w then True
        else findExtInList token (drop (length w + 1) p))"
  by pat_completeness auto
termination by (relation "measure (length \<circ> snd)") (auto simp: Let_def)

declare findExtInList.simps [simp del]

definition buildExtensionString :: "egl_host \<Rightarrow> string" where
  "buildExtensionString H =
     (case queryHostEGLString H ''EGL_EXTENSIONS'' of
        None \<Rightarrow> systemStaticEGLExtensions
      | Some hostExt \<Rightarrow>
          if length hostExt \<le> 1 then systemStaticEGLExtensions else systemStaticEGLExtensions @ hostExt)"

definition display_queryString :: "egl_host \<Rightarrow> string \<Rightarrow> egl_display \<Rightarrow> string option \<times> egl_display" where
  "display_queryString H name d =
     (if name = ''EGL_CLIENT_APIS'' then (Some ''OpenGL_ES'', d)
      else if name = ''EGL_VERSION'' then
        (case dp_version d of
           Some s \<Rightarrow> (Some s, d)
         | None \<Rightarrow>
             let s = show_int (dp_major d) @ ''.'' @ show_int (dp_minor d) in (Some s, d\<lparr>dp_version := Some s\<rparr>))
      else if name = ''EGL_VENDOR'' then
        (case dp_vendor d of
           Some (_, s) \<Rightarrow> (Some s, d)
         | None \<Rightarrow>
             (case queryHostEGLString H ''EGL_VENDOR'' of
                Some hostVendor \<Rightarrow>
                  let s = systemEGLVendor @ '' Host: '' @ hostVendor in (Some s, d\<lparr>dp_vendor := Some (False, s)\<rparr>)
              | None \<Rightarrow> (Some systemEGLVendor, d\<lparr>dp_vendor := Some (True, systemEGLVendor)\<rparr>)))
      else if name = ''EGL_EXTENSIONS'' then
        (case dp_extensions d of
           Some s \<Rightarrow> (Some s, d)
         | None \<Rightarrow> (Some (buildExtensionString H), d\<lparr>dp_extensions := Some (buildExtensionString H)\<rparr>))
      else (None, d))"


section \<open>The table\<close>

abbreviation visual :: string where
  "visual \<equiv> ''EGL_NATIVE_VISUAL_ID''"

definition table_ok :: "egl_display \<Rightarrow> bool" where
  "table_ok d \<longleftrightarrow>
     (\<exists>cells. dp_configs d = Some cells \<and> length cells = nat (dp_numConfigs d * dp_numAttribs d)) \<and>
     0 < dp_numAttribs d \<and> (\<forall>a j. dp_attribs d a = Some j \<longrightarrow> int j < dp_numAttribs d) \<and>
     (\<forall>a b j. dp_attribs d a = Some j \<and> dp_attribs d b = Some j \<longrightarrow> a = b)"

definition config_of :: "egl_display \<Rightarrow> int \<Rightarrow> bool" where
  "config_of d i \<longleftrightarrow> 0 \<le> i \<and> i < dp_numConfigs d"

lemma cell_in_table:
  fixes i k n :: int
  assumes "0 \<le> i" "i < n" "int j < k"
  shows "0 \<le> i * k + int j \<and> nat (i * k + int j) < nat (n * k)"
proof -
  have "(i + 1) * k \<le> n * k" using assms by (intro mult_right_mono) auto
  moreover have "0 \<le> i * k" using assms by simp
  moreover have "(i + 1) * k = i * k + k" by (simp add: distrib_right)
  ultimately show ?thesis using assms(3) by (simp add: nat_less_eq_zless)
qed

lemma cells_differ:
  fixes i i' k :: int
  assumes "i * k + int j = i' * k + int j'" "int j < k" "int j' < k"
  shows "i = i' \<and> j = j'"
proof -
  have "(i * k + int j) div k = i" "(i' * k + int j') div k = i'" using assms(2,3) by simp_all
  then have "i = i'" using assms(1) by simp
  then show ?thesis using assms(1) by simp
qed

lemma get_in_table:
  assumes "table_ok d" "config_of d i" "dp_attribs d a = Some j" "dp_configs d = Some cells"
  shows "getConfigAttrib d i a = Inr (Some (cells ! nat (i * dp_numAttribs d + int j)))"
proof -
  have "0 \<le> i * dp_numAttribs d + int j \<and> nat (i * dp_numAttribs d + int j) < length cells"
    using assms cell_in_table [of i "dp_numConfigs d" j "dp_numAttribs d"] by (auto simp: table_ok_def config_of_def)
  then show ?thesis using assms(3,4) by (simp add: getConfigAttrib_def getAttribValue_def Let_def)
qed

lemma get_unknown: "dp_attribs d a = None \<Longrightarrow> getConfigAttrib d i a = Inr None"
  by (simp add: getConfigAttrib_def getAttribValue_def)

lemma get_defined:
  assumes "table_ok d" "config_of d i"
  shows "\<exists>v. getConfigAttrib d i a = Inr v"
proof (cases "dp_attribs d a")
  case (Some j)
  obtain cells where "dp_configs d = Some cells" using assms(1) by (auto simp: table_ok_def)
  from get_in_table [OF assms Some this] show ?thesis ..
qed (simp add: get_unknown)

lemma get_values_defined:
  assumes "table_ok d" "config_of d i"
  shows "\<exists>vs. get_values d i names = Inr vs"
proof (induction names)
  case (Cons a names)
  obtain v where "getConfigAttrib d i a = Inr v" using get_defined [OF assms] ..
  moreover obtain vs where "get_values d i names = Inr vs" using Cons ..
  ultimately show ?case by (cases v) simp_all
qed simp

lemma get_values_cong: "(\<And>a. a \<in> set names \<Longrightarrow> getConfigAttrib d i a = getConfigAttrib e i a) \<Longrightarrow>
    get_values d i names = get_values e i names"
  by (induction names) (auto split: sum.splits option.splits)

lemma native_format_cong:
  assumes "\<And>a. a \<noteq> visual \<Longrightarrow> getConfigAttrib d i a = getConfigAttrib e i a"
  shows "getConfigNativePixelFormat d i = getConfigNativePixelFormat e i"
  unfolding getConfigNativePixelFormat_def colour_sizes_def
  by (subst get_values_cong [of _ d i e]) (auto intro: assms)

lemma set_in_table:
  assumes "table_ok d" "config_of d i" "dp_attribs d a = Some j"
  shows "\<exists>cells. setConfigAttrib i a v d = Inr (True, d\<lparr>dp_configs := Some cells\<rparr>) \<and>
    table_ok (d\<lparr>dp_configs := Some cells\<rparr>) \<and>
    (\<forall>i' a'. config_of d i' \<longrightarrow> getConfigAttrib (d\<lparr>dp_configs := Some cells\<rparr>) i' a' =
       (if i' = i \<and> a' = a then Inr (Some v) else getConfigAttrib d i' a'))"
proof -
  obtain old where old: "dp_configs d = Some old" using assms(1) by (auto simp: table_ok_def)
  let ?k = "dp_numAttribs d"
  let ?c = "nat (i * ?k + int j)"
  let ?new = "old[?c := v]"
  let ?d = "d\<lparr>dp_configs := Some ?new\<rparr>"
  have c: "0 \<le> i * ?k + int j" "?c < length old" "int j < ?k"
    using assms old cell_in_table [of i "dp_numConfigs d" j ?k] by (auto simp: table_ok_def config_of_def)
  have ok: "table_ok ?d" using assms(1) old by (simp add: table_ok_def)
  have "setConfigAttrib i a v d = Inr (True, ?d)"
    using assms(3) old c by (simp add: setConfigAttrib_def Let_def)
  moreover have "getConfigAttrib ?d i' a' = (if i' = i \<and> a' = a then Inr (Some v) else getConfigAttrib d i' a')"
    if i': "config_of d i'" for i' a'
  proof (cases "dp_attribs d a'")
    case None
    then show ?thesis using assms(3) by (auto simp: get_unknown)
  next
    case (Some j')
    have j': "int j' < ?k" using assms(1) Some by (auto simp: table_ok_def)
    have c': "0 \<le> i' * ?k + int j'" using i' j' cell_in_table [of i' "dp_numConfigs d" j' ?k] by (simp add: config_of_def)
    have new: "getConfigAttrib ?d i' a' = Inr (Some (?new ! nat (i' * ?k + int j')))"
      using get_in_table [OF ok, of i' a' j' ?new] i' Some by (simp add: config_of_def)
    show ?thesis
    proof (cases "i' = i \<and> a' = a")
      case True
      then show ?thesis using new c Some assms(3) by simp
    next
      case False
      have "i' * ?k + int j' \<noteq> i * ?k + int j"
      proof
        assume "i' * ?k + int j' = i * ?k + int j"
        from cells_differ [OF this j' c(3)] have "i' = i" "j' = j" by simp_all
        moreover from this have "a' = a" using assms(1,3) Some by (auto simp: table_ok_def)
        ultimately show False using False by simp
      qed
      then have "?new ! nat (i' * ?k + int j') = old ! nat (i' * ?k + int j')"
        using c(1) c' by (subst nth_list_update_neq) auto
      then show ?thesis using new get_in_table [OF assms(1) i' Some old] by (simp only: if_not_P [OF False])
    qed
  qed
  ultimately show ?thesis using ok by blast
qed

text \<open>What an attribute becomes.\<close>

definition processed :: "(string \<Rightarrow> int) \<Rightarrow> egl_display \<Rightarrow> int \<Rightarrow> string \<Rightarrow> fault + int option" where
  "processed code d i a =
     (case (getConfigNativePixelFormat d i, getConfigAttrib d i a) of
        (Inr (Some f), Inr (Some _)) \<Rightarrow> if a = visual then Inr (Some (code f)) else getConfigAttrib d i a
      | _ \<Rightarrow> getConfigAttrib d i a)"

lemma process_config_ok:
  assumes "table_ok d" "config_of d i"
  shows "\<exists>e. process_config code i d = Inr e \<and> table_ok e \<and> (\<exists>cells. e = d\<lparr>dp_configs := Some cells\<rparr>) \<and>
    (\<forall>i' a. config_of d i' \<longrightarrow> getConfigAttrib e i' a = (if i' = i then processed code d i a else getConfigAttrib d i' a))"
proof -
  obtain old where old: "dp_configs d = Some old" using assms(1) by (auto simp: table_ok_def)
  then have same: "d = d\<lparr>dp_configs := Some old\<rparr>" by simp
  obtain vs where "colour_sizes d i = Inr vs" unfolding colour_sizes_def using get_values_defined [OF assms] by blast
  then obtain r where r: "getConfigNativePixelFormat d i = Inr r" by (simp add: getConfigNativePixelFormat_def)
  show ?thesis
  proof (cases "r = None \<or> dp_attribs d visual = None")
    case True
    then have "process_config code i d = Inr d"
      using r by (auto simp: process_config_def setConfigAttrib_def split: option.splits)
    moreover have "processed code d i a = getConfigAttrib d i a" for a
      using True r get_unknown [of d visual i] by (auto simp: processed_def split: sum.splits option.splits)
    ultimately show ?thesis using assms(1) same by auto
  next
    case False
    then obtain f j where f: "r = Some f" "dp_attribs d visual = Some j" by auto
    from set_in_table [OF assms f(2), of "code f"] obtain cells where
      v: "setConfigAttrib i visual (code f) d = Inr (True, d\<lparr>dp_configs := Some cells\<rparr>)"
        "table_ok (d\<lparr>dp_configs := Some cells\<rparr>)"
        "\<And>i' a'. config_of d i' \<Longrightarrow> getConfigAttrib (d\<lparr>dp_configs := Some cells\<rparr>) i' a' =
           (if i' = i \<and> a' = visual then Inr (Some (code f)) else getConfigAttrib d i' a')" by blast
    have "processed code d i a = (if a = visual then Inr (Some (code f)) else getConfigAttrib d i a)" for a
      using r f get_in_table [OF assms f(2) old] get_defined [OF assms, of a]
      by (auto simp: processed_def split: option.splits)
    then show ?thesis using r f(1) v by (auto simp: process_config_def)
  qed
qed

lemma processed_cong:
  assumes "\<And>a. getConfigAttrib d i a = getConfigAttrib e i a"
  shows "processed code d i a = processed code e i a"
proof -
  have "getConfigNativePixelFormat d i = getConfigNativePixelFormat e i" by (rule native_format_cong) (rule assms)
  then show ?thesis by (simp only: processed_def assms)
qed

lemma process_from_ok:
  assumes "table_ok d" "\<forall>i \<in> set idx. config_of d i" "distinct idx"
  shows "\<exists>e. process_from code idx d = Inr e \<and> table_ok e \<and> (\<exists>cells. e = d\<lparr>dp_configs := Some cells\<rparr>) \<and>
    (\<forall>i a. config_of d i \<longrightarrow> getConfigAttrib e i a = (if i \<in> set idx then processed code d i a else getConfigAttrib d i a))"
  using assms
proof (induction idx arbitrary: d)
  case Nil
  obtain old where "dp_configs d = Some old" using Nil.prems by (auto simp: table_ok_def)
  then have "d = d\<lparr>dp_configs := Some old\<rparr>" by simp
  then show ?case using Nil by auto
next
  case (Cons i idx)
  from process_config_ok [of d i code] Cons.prems obtain cells where
    e: "process_config code i d = Inr (d\<lparr>dp_configs := Some cells\<rparr>)" (is "_ = Inr ?e")
      "table_ok (d\<lparr>dp_configs := Some cells\<rparr>)"
      "\<And>i' a. config_of d i' \<Longrightarrow> getConfigAttrib (d\<lparr>dp_configs := Some cells\<rparr>) i' a =
         (if i' = i then processed code d i a else getConfigAttrib d i' a)" by auto
  have c: "config_of ?e = config_of d" by (simp add: config_of_def fun_eq_iff)
  from Cons.IH [OF e(2)] Cons.prems c obtain cells' where
    f: "process_from code idx ?e = Inr (?e\<lparr>dp_configs := Some cells'\<rparr>)" "table_ok (?e\<lparr>dp_configs := Some cells'\<rparr>)"
      "\<And>i' a. config_of d i' \<Longrightarrow> getConfigAttrib (?e\<lparr>dp_configs := Some cells'\<rparr>) i' a =
         (if i' \<in> set idx then processed code ?e i' a else getConfigAttrib ?e i' a)" by auto
  have "getConfigAttrib (?e\<lparr>dp_configs := Some cells'\<rparr>) i' a =
      (if i' \<in> set (i # idx) then processed code d i' a else getConfigAttrib d i' a)" if i': "config_of d i'" for i' a
  proof (cases "i' \<in> set idx")
    case True
    then have "i' \<noteq> i" using Cons.prems(3) by auto
    then have "processed code ?e i' a = processed code d i' a"
      using e(3) [OF i'] by (intro processed_cong) simp
    then show ?thesis using True f(3) [OF i'] by simp
  next
    case False
    then show ?thesis using e(3) [OF i'] f(3) [OF i'] by simp
  qed
  then show ?case using e(1) f(1,2) by auto
qed

lemma add_attribs_snoc: "add_attribs (names @ [a]) f = (add_attribs names f)(a \<mapsto> length names)"
  by (simp add: add_attribs_def enumerate_append_eq)

lemma add_attribs_other: "a \<notin> set names \<Longrightarrow> add_attribs names f a = f a"
  by (induction names rule: rev_induct) (simp_all add: add_attribs_snoc, simp add: add_attribs_def)

lemma add_attribs_nth: "distinct names \<Longrightarrow> j < length names \<Longrightarrow> add_attribs names f (names ! j) = Some j"
proof (induction names rule: rev_induct)
  case (snoc a names)
  then show ?case by (cases "j = length names") (auto simp: add_attribs_snoc nth_append)
qed simp

lemma add_attribs_Some:
  assumes "distinct names" "add_attribs names (\<lambda>_. None) a = Some j"
  shows "j < length names \<and> names ! j = a"
proof -
  have "a \<in> set names" using assms(2) add_attribs_other [of a names "\<lambda>_. None"] by auto
  then obtain i where "i < length names" "names ! i = a" by (auto simp: in_set_conv_nth)
  then show ?thesis using add_attribs_nth [OF assms(1), of i "\<lambda>_. None"] assms(2) by auto
qed

text \<open>What the host says, and what the pixels of a configuration are.\<close>

definition host_value :: "egl_host \<Rightarrow> int \<Rightarrow> string \<Rightarrow> int option" where
  "host_value H i a =
     (case (eh_counts H, eh_configs H) of
        ((n, k), (m, names, cells)) \<Rightarrow>
          map_option (\<lambda>j. cells ! nat (i * k + int j)) (find (\<lambda>j. names ! j = a) [0..<length names]))"

definition host_pixels :: "egl_host \<Rightarrow> int \<Rightarrow> string option" where
  "host_pixels H i =
     (case map (host_value H i) [''EGL_RED_SIZE'', ''EGL_BLUE_SIZE'', ''EGL_GREEN_SIZE'', ''EGL_ALPHA_SIZE''] of
        [Some r, Some b, Some g, Some a] \<Rightarrow> native_format [r, b, g, a]
      | _ \<Rightarrow> None)"

definition host_ok :: "egl_host \<Rightarrow> bool" where
  "host_ok H \<longleftrightarrow>
     (case (eh_counts H, eh_configs H) of
        ((n, k), (m, names, cells)) \<Rightarrow>
          0 < n \<and> 0 < k \<and> m = n \<and> distinct names \<and> int (length names) = k \<and> int (length cells) = n * k) \<and>
     eh_gles H \<and> eh_connected H \<and> fst (eh_version H)"

lemma find_name:
  assumes "distinct names"
  shows "find (\<lambda>j. names ! j = a) [0..<length names] = add_attribs names (\<lambda>_. None) a"
proof (cases "a \<in> set names")
  case True
  then obtain i where i: "i < length names" "names ! i = a" by (auto simp: in_set_conv_nth)
  have "find (\<lambda>j. names ! j = a) [0..<length names] = Some i"
    using i assms by (auto simp: find_Some_iff nth_eq_iff_index_eq intro!: exI [of _ i])
  then show ?thesis using add_attribs_nth [OF assms i(1)] i(2) by simp
next
  case False
  then show ?thesis by (auto simp: find_None_iff add_attribs_other)
qed

lemma first_initialized:
  assumes "host_ok H" "dp_attribs d = (\<lambda>_. None)"
  shows "\<exists>e. first_initialize H d = (True, e) \<and> table_ok e \<and> dp_numConfigs e = fst (eh_counts H) \<and>
    (\<forall>i a. config_of e i \<longrightarrow> getConfigAttrib e i a = Inr (host_value H i a))"
proof -
  obtain n k m names cells major minor where
    h: "eh_counts H = (n, k)" "eh_configs H = (m, names, cells)" "eh_version H = (True, major, minor)"
    using assms(1) by (cases "eh_counts H"; cases "eh_configs H"; cases "eh_version H") (auto simp: host_ok_def)
  have ok: "0 < n" "0 < k" "m = n" "distinct names" "int (length names) = k" "int (length cells) = n * k" "eh_gles H"
    "eh_connected H" using assms(1) by (simp_all add: host_ok_def h)
  obtain ma mi where mv: "min_version major minor = (ma, mi)" by (cases "min_version major minor")
  let ?e = "d\<lparr>dp_gles := True, dp_gles2 := eh_gles2 H, dp_hostVersion := eh_rendererVersion H, dp_major := ma,
    dp_minor := mi, dp_numConfigs := n, dp_numAttribs := k, dp_attribs := add_attribs names (\<lambda>_. None),
    dp_configs := Some cells, dp_initialized := True\<rparr>"
  have len: "take (nat k) names = names" "take (nat (n * k)) cells = cells" "length cells = nat (n * k)" using ok by auto
  have init: "first_initialize H d = (True, ?e)"
    using ok h mv assms(2) len by (simp add: first_initialize_def Let_def)
  have t: "table_ok ?e"
    using ok len(3) add_attribs_Some [OF ok(4)] by (auto simp: table_ok_def)
  have "getConfigAttrib ?e i a = Inr (host_value H i a)" if i: "config_of ?e i" for i a
  proof (cases "add_attribs names (\<lambda>_. None) a")
    case None
    then show ?thesis by (simp add: get_unknown host_value_def h find_name [OF ok(4)])
  next
    case (Some j)
    then have "getConfigAttrib ?e i a = Inr (Some (cells ! nat (i * k + int j)))"
      using get_in_table [OF t i, of a j cells] by simp
    then show ?thesis using Some by (simp add: host_value_def h find_name [OF ok(4)])
  qed
  then show ?thesis using init t h by auto
qed

lemma processed_host:
  assumes "\<forall>a. getConfigAttrib e i a = Inr (host_value H i a)"
  shows "processed code e i a = Inr (case host_pixels H i of
      Some f \<Rightarrow> if a = visual \<and> host_value H i visual \<noteq> None then Some (code f) else host_value H i a
    | None \<Rightarrow> host_value H i a)"
proof -
  have "getConfigNativePixelFormat e i = Inr (host_pixels H i)"
    using assms by (auto simp: getConfigNativePixelFormat_def colour_sizes_def host_pixels_def split: option.splits)
  then show ?thesis using assms by (auto simp: processed_def split: option.splits)
qed

text \<open>The framebuffer configurations of Android are those of the host: when the libraries are there and the host answers
  consistently, initialising succeeds, and afterwards every attribute of every configuration has the value that the host
  gave for it, found by the attribute's name in the host's table; only the visual is replaced by Android's number of the
  pixel format that the sizes of the colours stand for, if there is one.\<close>

lemma configs_are_the_hosts:
  assumes "host_ok H" "\<not> dp_initialized d" "dp_attribs d = (\<lambda>_. None)"
  shows "\<exists>e. display_initialize code H d = Inr (True, e) \<and> dp_numConfigs e = fst (eh_counts H) \<and>
    (\<forall>i a. 0 \<le> i \<and> i < fst (eh_counts H) \<longrightarrow> getConfigAttrib e i a = Inr (case host_pixels H i of
        Some f \<Rightarrow> if a = visual \<and> host_value H i visual \<noteq> None then Some (code f) else host_value H i a
      | None \<Rightarrow> host_value H i a))"
proof -
  obtain e where e: "first_initialize H d = (True, e)" "table_ok e" "dp_numConfigs e = fst (eh_counts H)"
    "\<And>i a. config_of e i \<Longrightarrow> getConfigAttrib e i a = Inr (host_value H i a)"
    using first_initialized [OF assms(1,3)] by auto
  let ?is = "map int [0..<nat (dp_numConfigs e)]"
  have "\<forall>i \<in> set ?is. config_of e i" "distinct ?is" by (auto simp: config_of_def distinct_map)
  from process_from_ok [OF e(2) this, of code] obtain cells where
    f: "process_from code ?is e = Inr (e\<lparr>dp_configs := Some cells\<rparr>)"
      "\<And>i a. config_of e i \<Longrightarrow> getConfigAttrib (e\<lparr>dp_configs := Some cells\<rparr>) i a =
         (if i \<in> set ?is then processed code e i a else getConfigAttrib e i a)" by auto
  have "i \<in> set ?is" if "config_of e i" for i
    using that by (auto simp: config_of_def image_iff intro!: bexI [of _ "nat i"])
  then have "getConfigAttrib (e\<lparr>dp_configs := Some cells\<rparr>) i a = processed code e i a" if "config_of e i" for i a
    using f(2) that by simp
  moreover have "display_initialize code H d = Inr (True, e\<lparr>dp_configs := Some cells\<rparr>)"
    using assms(2) e(1) f(1) by (simp add: display_initialize_def processConfigs_def)
  ultimately show ?thesis
    using e(3,4) processed_host [of e _ H code] by (auto simp: config_of_def)
qed

definition example_host :: egl_host where
  "example_host =
     \<lparr>eh_gles = True, eh_gles2 = False, eh_connected = True, eh_rendererVersion = 1, eh_version = (True, 1, 5),
      eh_counts = (1, 5),
      eh_configs = (1, [''EGL_RED_SIZE'', ''EGL_BLUE_SIZE'', ''EGL_GREEN_SIZE'', ''EGL_ALPHA_SIZE'', ''EGL_NATIVE_VISUAL_ID''],
                    [8, 8, 8, 0, 77]),
      eh_strings = (\<lambda>_. None)\<rparr>"

theorem configs_are_the_hosts_witness:
  "\<exists>e. display_initialize (\<lambda>f. if f = ''PIXEL_FORMAT_RGBX_8888'' then 2 else 0) example_host display_new = Inr (True, e) \<and>
     getConfigAttrib e 0 ''EGL_NATIVE_VISUAL_ID'' = Inr (Some 2) \<and> getConfigAttrib e 0 ''EGL_RED_SIZE'' = Inr (Some 8)"
proof -
  let ?code = "\<lambda>f. if f = ''PIXEL_FORMAT_RGBX_8888'' then 2 else 0"
  have ok: "host_ok example_host" by (simp add: host_ok_def example_host_def)
  have new: "\<not> dp_initialized display_new" "dp_attribs display_new = (\<lambda>_. None)" by (simp_all add: display_new_def)
  have v: "host_value example_host 0 ''EGL_RED_SIZE'' = Some 8" "host_value example_host 0 ''EGL_BLUE_SIZE'' = Some 8"
    "host_value example_host 0 ''EGL_GREEN_SIZE'' = Some 8" "host_value example_host 0 ''EGL_ALPHA_SIZE'' = Some 0"
    "host_value example_host 0 visual = Some 77"
    by (simp_all add: host_value_def example_host_def upt_rec)
  then have f: "host_pixels example_host 0 = Some ''PIXEL_FORMAT_RGBX_8888''" by (simp add: host_pixels_def)
  obtain e where e: "display_initialize ?code example_host display_new = Inr (True, e)"
    "\<forall>i a. 0 \<le> i \<and> i < fst (eh_counts example_host) \<longrightarrow> getConfigAttrib e i a = Inr (case host_pixels example_host i of
        Some f \<Rightarrow> if a = visual \<and> host_value example_host i visual \<noteq> None then Some (?code f) else host_value example_host i a
      | None \<Rightarrow> host_value example_host i a)"
    using configs_are_the_hosts [OF ok new, of ?code] by auto
  have "(0::int) < fst (eh_counts example_host)" by (simp add: example_host_def)
  with e(2) have "getConfigAttrib e 0 a = Inr (if a = visual then Some 2 else host_value example_host 0 a)" for a
    using v(5) f by simp
  then show ?thesis using e(1) v(1) by auto
qed

section \<open>Versions, strings and endings\<close>

lemma min_version_least:
  assumes "min_version major minor = (a, b)"
  shows "(a < 1 \<or> a = 1 \<and> b \<le> 4) \<and> (a < major \<or> a = major \<and> b \<le> minor)"
  using assms by (auto simp: min_version_def split: if_splits)

text \<open>A name is found in a list if it is one of its words, each with a space behind.\<close>

lemma find_ext_words:
  assumes "\<forall>w \<in> set ws. CHR '' '' \<notin> set w"
  shows "findExtInList token (concat (map (\<lambda>w. w @ '' '') ws)) \<longleftrightarrow> token \<in> set ws"
  using assms
proof (induction ws)
  case Nil
  then show ?case by (simp add: findExtInList.simps)
next
  case (Cons w ws)
  have "takeWhile (\<lambda>c. c \<noteq> CHR '' '') (w @ '' '' @ concat (map (\<lambda>w. w @ '' '') ws)) = w"
    using Cons.prems by (subst takeWhile_append2) auto
  then have "findExtInList token (w @ '' '' @ concat (map (\<lambda>w. w @ '' '') ws)) \<longleftrightarrow>
      token = w \<or> findExtInList token (concat (map (\<lambda>w. w @ '' '') ws))"
    by (subst findExtInList.simps) (simp add: Let_def)
  then show ?case using Cons by auto
qed

text \<open>Without a vendor of the host the constant is kept, which terminating the display frees.\<close>

lemma constant_vendor_freed:
  assumes "dp_initialized d" "dp_vendor d = None" "queryHostEGLString H ''EGL_VENDOR'' = None"
  shows "display_terminate (snd (display_queryString H ''EGL_VENDOR'' d)) = Inl Undefined"
  using assms by (simp add: display_queryString_def display_terminate_def)

end
