(* ===== verification/Egl.thy ===== *)
theory Egl
  imports EglDisplay
begin

text \<open>
  EGL in Android (\<open>android/opengl/system/egl/egl.cpp\<close>, with \<open>eglContext.h\<close>, \<open>ThreadInfo.h\<close> and \<open>EGLImage.h\<close>): contexts,
  surfaces and images, which context is current in which thread, and the calls that follow from it to the host and to the native
  windows. Objects are on heaps, a pointer is a number, 0 the null pointer; following a pointer to no object is
  undefined. What \<open>new\<close>, the host, the windows and the libraries answer is a record. A native buffer is a value, references to
  buffers and windows are seen as calls; the client state of a context is named by the context.
  What the calls keep is in \<open>EglLoans\<close> and \<open>EglCurrent\<close>.
\<close>

section \<open>Objects\<close>

record native_buffer =
  nb_id :: nat
  nb_width :: int
  nb_height :: int
  nb_hostHandle :: nat
  nb_format :: string
  nb_magic :: bool
  nb_version :: bool

datatype surface_kind = Window_Surface nat "native_buffer option" | Pbuffer_Surface nat

record egl_surface =
  su_dpy :: nat
  su_config :: int
  su_kind :: surface_kind
  su_width :: int
  su_height :: int
  su_texFormat :: string
  su_texTarget :: string
  su_rcSurface :: nat

record egl_context =
  cx_dpy :: nat
  cx_config :: int
  cx_read :: nat
  cx_draw :: nat
  cx_group :: nat
  cx_version :: int
  cx_rcContext :: nat
  cx_strings :: "string \<Rightarrow> string option"
  cx_deletePending :: bool
  cx_isCurrent :: bool

datatype egl_image = Native_Image nat native_buffer | Texture_Image nat nat

text \<open>An encoder of a thread's connection: whose client state it has, the shared group, and whether its functions are set up.\<close>

record encoder_slot =
  ec_client :: nat
  ec_group :: "nat option"
  ec_ready :: bool

record egl_thread =
  th_current :: nat
  th_error :: string
  th_gl :: encoder_slot
  th_gl2 :: encoder_slot

section \<open>Calls\<close>

text \<open>Calls of the host, with the results the ledger needs, and calls of windows and buffers.\<close>

datatype egl_host_call =
    Hc_CreateWindowSurface int int int nat
  | Hc_DestroyWindowSurface nat
  | Hc_SetWindowColorBuffer nat nat
  | Hc_FlushWindowColorBuffer nat
  | Hc_CreateColorBuffer int int string nat
  | Hc_CloseColorBuffer nat
  | Hc_CreateContext int nat int nat
  | Hc_DestroyContext nat
  | Hc_MakeCurrent nat nat nat bool
  | Hc_BindTexture nat
  | Hc_FBSetSwapInterval int
  | Hc_CreateClientImage nat nat nat
  | Hc_DestroyClientImage nat
  | Hc_Flush
  | Hc_ChooseConfig nat int
  | Hc_Init int
  | Hc_Finish int

datatype window_call =
    Wc_IncRef nat
  | Wc_DecRef nat
  | Wc_Dequeue nat native_buffer
  | Wc_Queue nat "native_buffer option"
  | Wc_Cancel nat native_buffer
  | Wc_SetSwapInterval nat int
  | Wc_BufferIncRef native_buffer
  | Wc_BufferDecRef native_buffer

record egl_answers =
  ea_host :: egl_host
  ea_connected :: bool
  ea_new :: nat
  ea_group :: nat
  ea_rcSurface :: nat
  ea_rcColorBuffer :: nat
  ea_rcContext :: nat
  ea_rcMakeCurrent :: bool
  ea_rcImage :: nat
  ea_dequeue :: "native_buffer option"
  ea_string :: "string option"
  ea_chosen :: "int \<times> nat list"

record egl_world =
  es_display :: egl_display
  es_contexts :: "nat \<Rightarrow> egl_context option"
  es_surfaces :: "nat \<Rightarrow> egl_surface option"
  es_images :: "nat \<Rightarrow> egl_image option"
  es_threads :: "nat \<Rightarrow> egl_thread"
  es_host :: "(nat \<times> egl_host_call) list"
  es_windows :: "window_call list"

definition thread_new :: egl_thread where
  "thread_new =
     \<lparr>th_current = 0, th_error = ''EGL_SUCCESS'', th_gl = \<lparr>ec_client = 0, ec_group = None, ec_ready = False\<rparr>,
      th_gl2 = \<lparr>ec_client = 0, ec_group = None, ec_ready = False\<rparr>\<rparr>"

definition egl_initial :: egl_world where
  "egl_initial =
     \<lparr>es_display = display_new, es_contexts = (\<lambda>_. None), es_surfaces = (\<lambda>_. None), es_images = (\<lambda>_. None),
      es_threads = (\<lambda>_. thread_new), es_host = [], es_windows = []\<rparr>"

section \<open>Errors and checks\<close>

type_synonym 'r egl_result = "fault + 'r \<times> egl_world"

text \<open>The address of \<open>s_display\<close>.\<close>

abbreviation the_display :: nat where
  "the_display \<equiv> 1"

definition current :: "nat \<Rightarrow> egl_world \<Rightarrow> nat" where
  "current t s = th_current (es_threads s t)"

definition on_thread :: "nat \<Rightarrow> (egl_thread \<Rightarrow> egl_thread) \<Rightarrow> egl_world \<Rightarrow> egl_world" where
  "on_thread t f s = s\<lparr>es_threads := (es_threads s)(t := f (es_threads s t))\<rparr>"

definition set_egl_error :: "nat \<Rightarrow> string \<Rightarrow> egl_world \<Rightarrow> egl_world" where
  "set_egl_error t e = on_thread t (th_error_update (\<lambda>_. e))"

definition egl_fail :: "nat \<Rightarrow> string \<Rightarrow> 'r \<Rightarrow> egl_world \<Rightarrow> 'r egl_result" where
  "egl_fail t e r s = Inr (r, set_egl_error t e s)"

definition host_call :: "nat \<Rightarrow> egl_host_call \<Rightarrow> egl_world \<Rightarrow> egl_world" where
  "host_call t c s = s\<lparr>es_host := es_host s @ [(t, c)]\<rparr>"

definition window_call :: "window_call \<Rightarrow> egl_world \<Rightarrow> egl_world" where
  "window_call c s = s\<lparr>es_windows := es_windows s @ [c]\<rparr>"

text \<open>Each check goes on with the rest of the function.\<close>

definition with_display :: "nat \<Rightarrow> nat \<Rightarrow> 'r \<Rightarrow> egl_world \<Rightarrow> 'r egl_result \<Rightarrow> 'r egl_result" where
  "with_display t dpy r s k =
     (if dpy \<noteq> the_display then egl_fail t ''EGL_BAD_DISPLAY'' r s
      else if \<not> dp_initialized (es_display s) then egl_fail t ''EGL_NOT_INITIALIZED'' r s
      else k)"

definition with_config :: "nat \<Rightarrow> int \<Rightarrow> 'r \<Rightarrow> egl_world \<Rightarrow> 'r egl_result \<Rightarrow> 'r egl_result" where
  "with_config t config r s k =
     (if config < 0 \<or> config > dp_numConfigs (es_display s) then egl_fail t ''EGL_BAD_CONFIG'' r s else k)"

definition with_surface :: "nat \<Rightarrow> nat \<Rightarrow> 'r \<Rightarrow> egl_world \<Rightarrow> 'r egl_result \<Rightarrow> 'r egl_result" where
  "with_surface t surface r s k =
     (if surface = 0 then k
      else case es_surfaces s surface of
          None \<Rightarrow> Inl Undefined
        | Some su \<Rightarrow> if su_dpy su \<noteq> the_display then egl_fail t ''EGL_BAD_DISPLAY'' r s else k)"

definition with_host :: "egl_answers \<Rightarrow> 'r \<Rightarrow> egl_world \<Rightarrow> 'r egl_result \<Rightarrow> 'r egl_result" where
  "with_host a r s k = (if ea_connected a then k else Inr (r, s))"

section \<open>Surfaces\<close>

definition destroy_surface :: "nat \<Rightarrow> egl_answers \<Rightarrow> egl_surface \<Rightarrow> egl_world \<Rightarrow> egl_world" where
  "destroy_surface t a su s =
     (case su_kind su of
        Window_Surface win buffer \<Rightarrow>
          let s = (if su_rcSurface su \<noteq> 0 \<and> ea_connected a then host_call t (Hc_DestroyWindowSurface (su_rcSurface su)) s else s);
              s = (case buffer of None \<Rightarrow> s | Some b \<Rightarrow> window_call (Wc_Cancel win b) s)
          in window_call (Wc_DecRef win) s
      | Pbuffer_Surface cb \<Rightarrow>
          if ea_connected a
          then
            let s = (if cb \<noteq> 0 then host_call t (Hc_CloseColorBuffer cb) s else s)
            in if su_rcSurface su \<noteq> 0 then host_call t (Hc_DestroyWindowSurface (su_rcSurface su)) s else s
          else s)"

definition new_surface :: "nat \<Rightarrow> int \<Rightarrow> surface_kind \<Rightarrow> egl_surface" where
  "new_surface dpy config kind =
     \<lparr>su_dpy = dpy, su_config = config, su_kind = kind, su_width = 0, su_height = 0, su_texFormat = ''EGL_NO_TEXTURE'',
      su_texTarget = ''EGL_NO_TEXTURE'', su_rcSurface = 0\<rparr>"

definition new_window_surface ::
  "nat \<Rightarrow> egl_answers \<Rightarrow> nat \<Rightarrow> int \<Rightarrow> nat \<Rightarrow> egl_world \<Rightarrow> egl_surface option \<times> egl_world" where
  "new_window_surface t a dpy config win s =
     (let su = new_surface dpy config (Window_Surface win None); s = window_call (Wc_IncRef win) s in
      case ea_dequeue a of
        None \<Rightarrow> (None, destroy_surface t a su (set_egl_error t ''EGL_BAD_ALLOC'' s))
      | Some b \<Rightarrow>
          let s = window_call (Wc_Dequeue win b) s;
              su = su\<lparr>su_kind := Window_Surface win (Some b), su_width := nb_width b, su_height := nb_height b\<rparr> in
          if \<not> ea_connected a then (None, destroy_surface t a su s)
          else
            let rc = ea_rcSurface a; s = host_call t (Hc_CreateWindowSurface config (nb_width b) (nb_height b) rc) s;
                su = su\<lparr>su_rcSurface := rc\<rparr> in
            if rc = 0 then (None, destroy_surface t a su s)
            else (Some su, host_call t (Hc_SetWindowColorBuffer rc (nb_hostHandle b)) s))"

definition create_pbuffer_surface ::
  "nat \<Rightarrow> egl_answers \<Rightarrow> nat \<Rightarrow> int \<Rightarrow> int \<Rightarrow> int \<Rightarrow> string \<Rightarrow> egl_world \<Rightarrow> egl_surface option \<times> egl_world" where
  "create_pbuffer_surface t a dpy config w h pixelFormat s =
     (let su = (new_surface dpy config (Pbuffer_Surface 0))\<lparr>su_width := w, su_height := h\<rparr> in
      if \<not> ea_connected a then (None, destroy_surface t a su s)
      else
        let rc = ea_rcSurface a; s = host_call t (Hc_CreateWindowSurface config w h rc) s; su = su\<lparr>su_rcSurface := rc\<rparr> in
        if rc = 0 then (None, destroy_surface t a su s)
        else
          let cb = ea_rcColorBuffer a; s = host_call t (Hc_CreateColorBuffer w h pixelFormat cb) s;
              su = su\<lparr>su_kind := Pbuffer_Surface cb\<rparr> in
          if cb = 0 then (None, destroy_surface t a su s)
          else (Some su, host_call t (Hc_SetWindowColorBuffer rc cb) s))"

text \<open>The status of \<open>swapBuffers\<close>, which \<open>eglSwapBuffers\<close> does not look at. Without a buffer the null pointer is queued.\<close>

definition swapBuffers :: "nat \<Rightarrow> egl_answers \<Rightarrow> egl_surface \<Rightarrow> egl_world \<Rightarrow> bool \<times> egl_surface \<times> egl_world" where
  "swapBuffers t a su s =
     (case su_kind su of
        Pbuffer_Surface _ \<Rightarrow> (True, su, s)
      | Window_Surface win buffer \<Rightarrow>
          if \<not> ea_connected a then (False, su, s)
          else
            let s = window_call (Wc_Queue win buffer) (host_call t (Hc_FlushWindowColorBuffer (su_rcSurface su)) s) in
            case ea_dequeue a of
              None \<Rightarrow> (False, su\<lparr>su_kind := Window_Surface win None\<rparr>, set_egl_error t ''EGL_BAD_ALLOC'' s)
            | Some b \<Rightarrow>
                (True, su\<lparr>su_kind := Window_Surface win (Some b), su_width := nb_width b, su_height := nb_height b\<rparr>,
                 host_call t (Hc_SetWindowColorBuffer (su_rcSurface su) (nb_hostHandle b)) (window_call (Wc_Dequeue win b) s)))"

text \<open>The bits of windows and pixel buffers in the type of a surface are those of EGL's header.\<close>

definition surface_type :: "egl_world \<Rightarrow> int \<Rightarrow> fault + int option" where
  "surface_type s config = getConfigAttrib (es_display s) config ''EGL_SURFACE_TYPE''"

definition add_surface :: "nat \<Rightarrow> egl_surface \<Rightarrow> egl_world \<Rightarrow> egl_world" where
  "add_surface p su s = s\<lparr>es_surfaces := (es_surfaces s)(p \<mapsto> su)\<rparr>"

definition eglCreateWindowSurface ::
  "nat \<Rightarrow> egl_answers \<Rightarrow> nat \<Rightarrow> int \<Rightarrow> nat \<Rightarrow> bool \<Rightarrow> egl_world \<Rightarrow> nat egl_result" where
  "eglCreateWindowSurface t a dpy config win magic s =
     with_display t dpy 0 s (with_config t config 0 s
       (if win = 0 then egl_fail t ''EGL_BAD_MATCH'' 0 s
        else case surface_type s config of
            Inl e \<Rightarrow> Inl e
          | Inr None \<Rightarrow> Inr (0, s)
          | Inr (Some v) \<Rightarrow>
              if \<not> bit v 2 then egl_fail t ''EGL_BAD_MATCH'' 0 s
              else if \<not> magic then egl_fail t ''EGL_BAD_NATIVE_WINDOW'' 0 s
              else case new_window_surface t a the_display config win s of
                  (None, s) \<Rightarrow> egl_fail t ''EGL_BAD_ALLOC'' 0 s
                | (Some su, s) \<Rightarrow> Inr (ea_new a, add_surface (ea_new a) su s)))"

datatype pbuffer_attrib = Pb_Width int | Pb_Height int | Pb_TextureFormat string | Pb_TextureTarget string | Pb_Other

fun pbuffer_attribs :: "pbuffer_attrib list \<Rightarrow> int \<times> int \<times> string \<times> string \<Rightarrow> int \<times> int \<times> string \<times> string" where
  "pbuffer_attribs [] p = p"
| "pbuffer_attribs (x # xs) (w, h, f, g) =
     pbuffer_attribs xs (case x of
         Pb_Width v \<Rightarrow> (v, h, f, g)
       | Pb_Height v \<Rightarrow> (w, v, f, g)
       | Pb_TextureFormat v \<Rightarrow> (w, h, v, g)
       | Pb_TextureTarget v \<Rightarrow> (w, h, f, v)
       | Pb_Other \<Rightarrow> (w, h, f, g))"

text \<open>The list of attributes is followed without a check.\<close>

definition eglCreatePbufferSurface ::
  "nat \<Rightarrow> egl_answers \<Rightarrow> nat \<Rightarrow> int \<Rightarrow> pbuffer_attrib list option \<Rightarrow> egl_world \<Rightarrow> nat egl_result" where
  "eglCreatePbufferSurface t a dpy config attrib_list s =
     with_display t dpy 0 s (with_config t config 0 s
       (case surface_type s config of
          Inl e \<Rightarrow> Inl e
        | Inr None \<Rightarrow> Inr (0, s)
        | Inr (Some v) \<Rightarrow>
            if \<not> bit v 0 then egl_fail t ''EGL_BAD_MATCH'' 0 s
            else case attrib_list of
                None \<Rightarrow> Inl Undefined
              | Some attribs \<Rightarrow>
                  (case pbuffer_attribs attribs (0, 0, ''EGL_NO_TEXTURE'', ''EGL_NO_TEXTURE'') of
                     (w, h, texFormat, texTarget) \<Rightarrow>
                       if (texFormat = ''EGL_NO_TEXTURE'') \<noteq> (texTarget = ''EGL_NO_TEXTURE'')
                       then egl_fail t ''EGL_BAD_MATCH'' 0 s
                       else case getConfigGLPixelFormat (es_display s) config of
                           Inl e \<Rightarrow> Inl e
                         | Inr None \<Rightarrow> egl_fail t ''EGL_BAD_MATCH'' 0 s
                         | Inr (Some pixelFormat) \<Rightarrow>
                             (case create_pbuffer_surface t a dpy config w h pixelFormat s of
                                (None, s) \<Rightarrow> egl_fail t ''EGL_BAD_ALLOC'' 0 s
                              | (Some su, s) \<Rightarrow>
                                  Inr (ea_new a, add_surface (ea_new a)
                                         (su\<lparr>su_texFormat := texFormat, su_texTarget := texTarget\<rparr>) s)))))"

definition eglDestroySurface :: "nat \<Rightarrow> egl_answers \<Rightarrow> nat \<Rightarrow> nat \<Rightarrow> egl_world \<Rightarrow> bool egl_result" where
  "eglDestroySurface t a dpy surface s =
     with_display t dpy False s (with_surface t surface False s
       (if surface = 0 then Inr (True, s)
        else case es_surfaces s surface of
            None \<Rightarrow> Inl Undefined
          | Some su \<Rightarrow> Inr (True, destroy_surface t a su (s\<lparr>es_surfaces := (es_surfaces s)(surface := None)\<rparr>))))"

datatype egl_value = Ev_Int int | Ev_Name string

text \<open>Whether the attribute is known and what is written.\<close>

definition query_surface :: "egl_world \<Rightarrow> egl_surface \<Rightarrow> string \<Rightarrow> fault + bool \<times> egl_value option" where
  "query_surface s su attribute =
     (let pbuffer = (case su_kind su of Pbuffer_Surface _ \<Rightarrow> True | _ \<Rightarrow> False) in
      if attribute = ''EGL_CONFIG_ID'' then
        map_sum id (\<lambda>v. (v \<noteq> None, map_option Ev_Int v)) (getConfigAttrib (es_display s) (su_config su) ''EGL_CONFIG_ID'')
      else if attribute = ''EGL_WIDTH'' then Inr (True, Some (Ev_Int (su_width su)))
      else if attribute = ''EGL_HEIGHT'' then Inr (True, Some (Ev_Int (su_height su)))
      else if attribute = ''EGL_TEXTURE_FORMAT'' then Inr (True, Some (Ev_Name (su_texFormat su)))
      else if attribute = ''EGL_TEXTURE_TARGET'' then Inr (True, Some (Ev_Name (su_texTarget su)))
      else if attribute = ''EGL_SWAP_BEHAVIOR'' then Inr (True, Some (Ev_Name ''EGL_BUFFER_PRESERVED''))
      else if attribute = ''EGL_LARGEST_PBUFFER'' then Inr (True, if pbuffer then Some (Ev_Name ''EGL_FALSE'') else None)
      else if attribute = ''EGL_MIPMAP_LEVEL'' then Inr (True, if pbuffer then Some (Ev_Int 0) else None)
      else if attribute = ''EGL_MULTISAMPLE_RESOLVE'' then Inr (True, Some (Ev_Name ''EGL_MULTISAMPLE_RESOLVE_DEFAULT''))
      else Inr (False, None))"

text \<open>A null surface passes the check; the attributes that do not ask it are answered.\<close>

definition eglQuerySurface ::
  "nat \<Rightarrow> nat \<Rightarrow> nat \<Rightarrow> string \<Rightarrow> egl_world \<Rightarrow> (bool \<times> egl_value option) egl_result" where
  "eglQuerySurface t dpy surface attribute s =
     with_display t dpy (False, None) s (with_surface t surface (False, None) s
       (case (if surface = 0 then None else es_surfaces s surface) of
          None \<Rightarrow>
            if attribute = ''EGL_MULTISAMPLE_RESOLVE'' then Inr ((True, Some (Ev_Name ''EGL_MULTISAMPLE_RESOLVE_DEFAULT'')), s)
            else if attribute = ''EGL_SWAP_BEHAVIOR'' then Inr ((True, Some (Ev_Name ''EGL_BUFFER_PRESERVED'')), s)
            else if attribute \<in> {''EGL_CONFIG_ID'', ''EGL_WIDTH'', ''EGL_HEIGHT'', ''EGL_TEXTURE_FORMAT'', ''EGL_TEXTURE_TARGET'',
                ''EGL_LARGEST_PBUFFER'', ''EGL_MIPMAP_LEVEL''} then Inl Undefined
            else egl_fail t ''EGL_BAD_ATTRIBUTE'' (False, None) s
        | Some su \<Rightarrow>
            (case query_surface s su attribute of
               Inl e \<Rightarrow> Inl e
             | Inr (known, v) \<Rightarrow>
                 if \<not> known \<and> attribute \<noteq> ''EGL_CONFIG_ID'' then egl_fail t ''EGL_BAD_ATTRIBUTE'' (False, v) s
                 else Inr ((known, v), s))))"

definition eglSurfaceAttrib :: "nat \<Rightarrow> nat \<Rightarrow> nat \<Rightarrow> string \<Rightarrow> egl_world \<Rightarrow> bool egl_result" where
  "eglSurfaceAttrib t dpy surface attribute s =
     with_display t dpy False s (with_surface t surface False s
       (if surface = 0 then egl_fail t ''EGL_BAD_SURFACE'' False s
        else Inr (attribute \<in> {''EGL_MIPMAP_LEVEL'', ''EGL_MULTISAMPLE_RESOLVE'', ''EGL_SWAP_BEHAVIOR''}, s)))"

definition eglBindTexImage :: "nat \<Rightarrow> egl_answers \<Rightarrow> nat \<Rightarrow> nat \<Rightarrow> bool \<Rightarrow> egl_world \<Rightarrow> bool egl_result" where
  "eglBindTexImage t a dpy surface back_buffer s =
     with_display t dpy False s (with_surface t surface False s
       (if surface = 0 then egl_fail t ''EGL_BAD_SURFACE'' False s
        else case es_surfaces s surface of
          None \<Rightarrow> Inl Undefined
        | Some su \<Rightarrow>
            if \<not> back_buffer then egl_fail t ''EGL_BAD_PARAMETER'' False s
            else if su_texFormat su = ''EGL_NO_TEXTURE'' then egl_fail t ''EGL_BAD_MATCH'' False s
            else case su_kind su of
                Window_Surface _ _ \<Rightarrow> egl_fail t ''EGL_BAD_SURFACE'' False s
              | Pbuffer_Surface cb \<Rightarrow> with_host a False s (Inr (True, host_call t (Hc_BindTexture cb) s))))"

text \<open>The flush is behind the swap whatever came of it.\<close>

definition eglSwapBuffers :: "nat \<Rightarrow> egl_answers \<Rightarrow> nat \<Rightarrow> nat \<Rightarrow> egl_world \<Rightarrow> bool egl_result" where
  "eglSwapBuffers t a dpy surface s =
     with_display t dpy False s
       (if surface = 0 then egl_fail t ''EGL_BAD_SURFACE'' False s
        else with_host a False s
          (case es_surfaces s surface of
             None \<Rightarrow> Inl Undefined
           | Some su \<Rightarrow>
               if su_dpy su \<noteq> dpy then egl_fail t ''EGL_BAD_DISPLAY'' False s
               else case swapBuffers t a su s of
                   (_, su, s) \<Rightarrow> Inr (True, host_call t Hc_Flush (add_surface surface su s))))"

section \<open>Contexts\<close>

definition set_context :: "nat \<Rightarrow> egl_context \<Rightarrow> egl_world \<Rightarrow> egl_world" where
  "set_context c cx s = s\<lparr>es_contexts := (es_contexts s)(c \<mapsto> cx)\<rparr>"

text \<open>The list of attributes: the last version that is in it.\<close>

definition context_version :: "(string \<times> int) list \<Rightarrow> int" where
  "context_version attribs = foldl (\<lambda>v (n, x). if n = ''EGL_CONTEXT_CLIENT_VERSION'' then x else v) 1 attribs"

definition new_context :: "nat \<Rightarrow> int \<Rightarrow> nat \<Rightarrow> int \<Rightarrow> nat \<Rightarrow> egl_context" where
  "new_context dpy config grp version rc =
     \<lparr>cx_dpy = dpy, cx_config = config, cx_read = 0, cx_draw = 0, cx_group = grp, cx_version = version, cx_rcContext = rc,
      cx_strings = (\<lambda>_. None), cx_deletePending = False, cx_isCurrent = False\<rparr>"

definition eglCreateContext ::
  "nat \<Rightarrow> egl_answers \<Rightarrow> nat \<Rightarrow> int \<Rightarrow> nat \<Rightarrow> (string \<times> int) list \<Rightarrow> egl_world \<Rightarrow> nat egl_result" where
  "eglCreateContext t a dpy config share_context attribs s =
     with_display t dpy 0 s (with_config t config 0 s
       (let version = context_version attribs in
        if version \<noteq> 1 \<and> version \<noteq> 2 then egl_fail t ''EGL_BAD_CONFIG'' 0 s
        else case (if share_context = 0 then Inr (0, ea_group a)
                   else case es_contexts s share_context of
                       None \<Rightarrow> Inl Undefined
                     | Some cx \<Rightarrow> Inr (cx_rcContext cx, cx_group cx)) of
            Inl e \<Rightarrow> Inl e
          | Inr (rcShareCtx, grp) \<Rightarrow>
              if share_context \<noteq> 0 \<and> map_option cx_dpy (es_contexts s share_context) \<noteq> Some dpy
              then egl_fail t ''EGL_BAD_MATCH'' 0 s
              else with_host a 0 s
                (let rc = ea_rcContext a; s = host_call t (Hc_CreateContext config rcShareCtx version rc) s in
                 if rc = 0 then egl_fail t ''EGL_BAD_ALLOC'' 0 s
                 else Inr (ea_new a, set_context (ea_new a) (new_context dpy config grp version rc) s))))"

definition delete_context :: "nat \<Rightarrow> egl_world \<Rightarrow> egl_world" where
  "delete_context c s = s\<lparr>es_contexts := (es_contexts s)(c := None)\<rparr>"

definition eglDestroyContext :: "nat \<Rightarrow> egl_answers \<Rightarrow> nat \<Rightarrow> nat \<Rightarrow> egl_world \<Rightarrow> bool egl_result" where
  "eglDestroyContext t a dpy ctx s =
     with_display t dpy False s
       (if ctx = 0 then egl_fail t ''EGL_BAD_CONTEXT'' False s
        else case es_contexts s ctx of
            None \<Rightarrow> Inl Undefined
          | Some cx \<Rightarrow>
              if current t s = ctx then Inr (True, set_context ctx (cx\<lparr>cx_deletePending := True\<rparr>) s)
              else if cx_rcContext cx \<noteq> 0
              then with_host a False s
                (Inr (True, delete_context ctx (host_call t (Hc_DestroyContext (cx_rcContext cx)) s)))
              else Inr (True, delete_context ctx s))"

text \<open>The encoder of a version.\<close>

definition on_encoder :: "nat \<Rightarrow> int \<Rightarrow> (encoder_slot \<Rightarrow> encoder_slot) \<Rightarrow> egl_world \<Rightarrow> egl_world" where
  "on_encoder t version f = on_thread t (\<lambda>th. if version = 2 then th\<lparr>th_gl2 := f (th_gl2 th)\<rparr> else th\<lparr>th_gl := f (th_gl th)\<rparr>)"

definition encoder_of :: "int \<Rightarrow> egl_thread \<Rightarrow> encoder_slot" where
  "encoder_of version th = (if version = 2 then th_gl2 th else th_gl th)"

text \<open>The context that is current is destroyed at last when another one becomes current.\<close>

definition leave_pending :: "nat \<Rightarrow> egl_answers \<Rightarrow> nat \<Rightarrow> nat \<Rightarrow> egl_world \<Rightarrow> fault + egl_world" where
  "leave_pending t a dpy ctx s =
     (let cur = current t s in
      if cur = 0 then Inr s
      else case es_contexts s cur of
          None \<Rightarrow> Inl Undefined
        | Some cx \<Rightarrow>
            if cx_deletePending cx \<and> cur \<noteq> ctx
            then map_sum id snd (eglDestroyContext t a dpy cur (on_thread t (th_current_update (\<lambda>_. 0)) s))
            else Inr s)"

text \<open>The client state and the shared group of the encoder.\<close>

definition bind_encoder :: "nat \<Rightarrow> nat \<Rightarrow> nat \<Rightarrow> nat \<Rightarrow> egl_world \<Rightarrow> fault + egl_world" where
  "bind_encoder t ctx draw read s =
     (if ctx \<noteq> 0
      then case es_contexts s ctx of
          None \<Rightarrow> Inl Undefined
        | Some cx \<Rightarrow>
            Inr (on_encoder t (cx_version cx) (\<lambda>e. e\<lparr>ec_client := ctx, ec_group := Some (cx_group cx)\<rparr>)
                   (set_context ctx (cx\<lparr>cx_draw := draw, cx_read := read, cx_isCurrent := True\<rparr>) s))
      else if current t s \<noteq> 0
      then case es_contexts s (current t s) of
          None \<Rightarrow> Inl Undefined
        | Some cx \<Rightarrow> Inr (on_encoder t (cx_version cx) (\<lambda>e. e\<lparr>ec_client := 0, ec_group := None\<rparr>) s)
      else Inr s)"

text \<open>The flag of the context that was current is taken away, also if it is the one that becomes current.\<close>

definition switch_current :: "nat \<Rightarrow> nat \<Rightarrow> egl_world \<Rightarrow> fault + egl_world" where
  "switch_current t ctx s =
     (if current t s = 0 then Inr (on_thread t (th_current_update (\<lambda>_. ctx)) s)
      else case es_contexts s (current t s) of
          None \<Rightarrow> Inl Undefined
        | Some cx \<Rightarrow>
            Inr (on_thread t (th_current_update (\<lambda>_. ctx)) (set_context (current t s) (cx\<lparr>cx_isCurrent := False\<rparr>) s)))"

text \<open>The functions of the library are set up when a thread first uses the encoder; the second library may not be there.\<close>

definition setup_encoder :: "nat \<Rightarrow> nat \<Rightarrow> egl_world \<Rightarrow> fault + egl_world" where
  "setup_encoder t ctx s =
     (if ctx = 0 then Inr s
      else case es_contexts s ctx of
          None \<Rightarrow> Inl Undefined
        | Some cx \<Rightarrow>
            if ec_ready (encoder_of (cx_version cx) (es_threads s t)) then Inr s
            else if cx_version cx = 2 \<and> \<not> dp_gles2 (es_display s) then Inl Undefined
            else Inr (on_encoder t (cx_version cx) (ec_ready_update (\<lambda>_. True)) (host_call t (Hc_Init (cx_version cx)) s)))"

definition bind_sum :: "fault + 'a \<Rightarrow> ('a \<Rightarrow> fault + 'b) \<Rightarrow> fault + 'b" where
  "bind_sum m f = (case m of Inl e \<Rightarrow> Inl e | Inr x \<Rightarrow> f x)"

definition rc_of :: "nat \<Rightarrow> egl_world \<Rightarrow> nat" where
  "rc_of surface s = (if surface = 0 then 0 else case es_surfaces s surface of None \<Rightarrow> 0 | Some su \<Rightarrow> su_rcSurface su)"

definition eglMakeCurrent :: "nat \<Rightarrow> egl_answers \<Rightarrow> nat \<Rightarrow> nat \<Rightarrow> nat \<Rightarrow> nat \<Rightarrow> egl_world \<Rightarrow> bool egl_result" where
  "eglMakeCurrent t a dpy draw read ctx s =
     with_display t dpy False s (with_surface t draw False s (with_surface t read False s
       (if (read = 0 \<and> draw = 0) \<and> ctx \<noteq> 0 \<or> (read \<noteq> 0 \<or> draw \<noteq> 0) \<and> ctx = 0
        then egl_fail t ''EGL_BAD_MATCH'' False s
        else if ctx \<noteq> 0 \<and> es_contexts s ctx = None then Inl Undefined
        else
          let ctxHandle = (case es_contexts s ctx of Some cx \<Rightarrow> if ctx = 0 then 0 else cx_rcContext cx | None \<Rightarrow> 0);
              drawHandle = rc_of draw s; readHandle = rc_of read s in
          if current t s = ctx \<and>
             (ctx = 0 \<or> (case es_contexts s ctx of None \<Rightarrow> False | Some cx \<Rightarrow> cx_draw cx = draw \<and> cx_read cx = read))
          then Inr (True, s)
          else bind_sum (leave_pending t a dpy ctx s) (\<lambda>s.
            if ctx \<noteq> 0 \<and> (case es_contexts s ctx of None \<Rightarrow> False | Some cx \<Rightarrow> cx_isCurrent cx) \<and> ctx \<noteq> current t s
            then egl_fail t ''EGL_BAD_ACCESS'' False s
            else with_host a False s
              (let s = host_call t (Hc_MakeCurrent ctxHandle drawHandle readHandle (ea_rcMakeCurrent a)) s in
               if \<not> ea_rcMakeCurrent a then egl_fail t ''EGL_BAD_CONTEXT'' False s
               else bind_sum (bind_encoder t ctx draw read s) (\<lambda>s.
                 bind_sum (switch_current t ctx s) (\<lambda>s.
                 bind_sum (setup_encoder t ctx s) (\<lambda>s. Inr (True, s)))))))))"

definition eglReleaseThread :: "nat \<Rightarrow> egl_answers \<Rightarrow> egl_world \<Rightarrow> bool egl_result" where
  "eglReleaseThread t a s = (if current t s \<noteq> 0 then eglMakeCurrent t a the_display 0 0 0 s else Inr (True, s))"

definition current_context :: "nat \<Rightarrow> egl_world \<Rightarrow> fault + egl_context option" where
  "current_context t s =
     (if current t s = 0 then Inr None
      else case es_contexts s (current t s) of None \<Rightarrow> Inl Undefined | Some cx \<Rightarrow> Inr (Some cx))"

definition eglSwapInterval :: "nat \<Rightarrow> egl_answers \<Rightarrow> nat \<Rightarrow> int \<Rightarrow> egl_world \<Rightarrow> bool egl_result" where
  "eglSwapInterval t a dpy interval s =
     with_display t dpy False s (with_host a False s
       (bind_sum (current_context t s) (\<lambda>c. case c of
            None \<Rightarrow> egl_fail t ''EGL_BAD_CONTEXT'' False s
          | Some cx \<Rightarrow>
              if cx_draw cx = 0 then egl_fail t ''EGL_BAD_SURFACE'' False s
              else case es_surfaces s (cx_draw cx) of
                  None \<Rightarrow> Inl Undefined
                | Some su \<Rightarrow>
                    let s = (case su_kind su of
                        Window_Surface win _ \<Rightarrow> window_call (Wc_SetSwapInterval win interval) s
                      | Pbuffer_Surface _ \<Rightarrow> s)
                    in Inr (True, host_call t (Hc_FBSetSwapInterval interval) s))))"

definition eglWaitGL :: "nat \<Rightarrow> egl_world \<Rightarrow> bool egl_result" where
  "eglWaitGL t s =
     bind_sum (current_context t s) (\<lambda>c. case c of
         None \<Rightarrow> Inr (False, s)
       | Some cx \<Rightarrow> Inr (True, host_call t (Hc_Finish (cx_version cx)) s))"

definition eglGetCurrentSurface :: "nat \<Rightarrow> string \<Rightarrow> egl_world \<Rightarrow> nat egl_result" where
  "eglGetCurrentSurface t readdraw s =
     bind_sum (current_context t s) (\<lambda>c. case c of
         None \<Rightarrow> Inr (0, s)
       | Some cx \<Rightarrow>
           if readdraw = ''EGL_READ'' then Inr (cx_read cx, s)
           else if readdraw = ''EGL_DRAW'' then Inr (cx_draw cx, s)
           else egl_fail t ''EGL_BAD_PARAMETER'' 0 s)"

definition eglGetCurrentDisplay :: "nat \<Rightarrow> egl_world \<Rightarrow> nat egl_result" where
  "eglGetCurrentDisplay t s =
     bind_sum (current_context t s) (\<lambda>c. Inr (case c of None \<Rightarrow> 0 | Some cx \<Rightarrow> cx_dpy cx, s))"

definition eglQueryContext ::
  "nat \<Rightarrow> nat \<Rightarrow> nat \<Rightarrow> string \<Rightarrow> egl_world \<Rightarrow> (bool \<times> egl_value option) egl_result" where
  "eglQueryContext t dpy ctx attribute s =
     with_display t dpy (False, None) s
       (if ctx = 0 then egl_fail t ''EGL_BAD_CONTEXT'' (False, None) s
        else if attribute = ''EGL_CONTEXT_CLIENT_TYPE'' then Inr ((True, Some (Ev_Name ''EGL_OPENGL_ES_API'')), s)
        else if attribute \<notin> {''EGL_CONFIG_ID'', ''EGL_CONTEXT_CLIENT_VERSION'', ''EGL_RENDER_BUFFER''}
        then egl_fail t ''EGL_BAD_ATTRIBUTE'' (False, None) s
        else case es_contexts s ctx of
            None \<Rightarrow> Inl Undefined
          | Some cx \<Rightarrow>
              if attribute = ''EGL_CONFIG_ID'' then
                map_sum id (\<lambda>v. ((v \<noteq> None, map_option Ev_Int v), s))
                  (getConfigAttrib (es_display s) (cx_config cx) ''EGL_CONFIG_ID'')
              else if attribute = ''EGL_CONTEXT_CLIENT_VERSION'' then Inr ((True, Some (Ev_Int (cx_version cx))), s)
              else Inr ((True, Some (Ev_Name (if cx_draw cx = 0 then ''EGL_NONE'' else ''EGL_BACK_BUFFER''))), s))"

text \<open>A string of the current context is asked for once; the answer is None when the host has none.\<close>

definition getGLString :: "nat \<Rightarrow> egl_answers \<Rightarrow> string \<Rightarrow> egl_world \<Rightarrow> string option egl_result" where
  "getGLString t a glEnum s =
     bind_sum (current_context t s) (\<lambda>c. case c of
         None \<Rightarrow> Inr (None, s)
       | Some cx \<Rightarrow>
           if glEnum \<notin> {''GL_VERSION'', ''GL_VENDOR'', ''GL_RENDERER'', ''GL_SHADING_LANGUAGE_VERSION'', ''GL_EXTENSIONS''}
           then Inr (None, s)
           else case cx_strings cx glEnum of
               Some x \<Rightarrow> Inr (Some x, s)
             | None \<Rightarrow>
                 with_host a None s
                   (Inr (ea_string a, set_context (current t s) (cx\<lparr>cx_strings := (cx_strings cx)(glEnum := ea_string a)\<rparr>) s)))"

section \<open>Images and fences\<close>

definition set_image :: "nat \<Rightarrow> egl_image option \<Rightarrow> egl_world \<Rightarrow> egl_world" where
  "set_image p img s = s\<lparr>es_images := (es_images s)(p := img)\<rparr>"

text \<open>What a client can give: a native buffer or the name of a texture.\<close>

datatype client_buffer = Cb_Native native_buffer | Cb_Texture nat | Cb_Other

definition eglCreateImageKHR ::
  "nat \<Rightarrow> egl_answers \<Rightarrow> nat \<Rightarrow> nat \<Rightarrow> client_buffer \<Rightarrow> egl_world \<Rightarrow> nat egl_result" where
  "eglCreateImageKHR t a dpy ctx buffer s =
     with_display t dpy 0 s
       (case buffer of
          Cb_Native b \<Rightarrow>
            if ctx \<noteq> 0 then egl_fail t ''EGL_BAD_CONTEXT'' 0 s
            else if \<not> nb_magic b \<or> \<not> nb_version b then egl_fail t ''EGL_BAD_PARAMETER'' 0 s
            else if nb_format b \<notin> {''HAL_PIXEL_FORMAT_RGBA_8888'', ''HAL_PIXEL_FORMAT_RGBX_8888'', ''HAL_PIXEL_FORMAT_RGB_888'',
                ''HAL_PIXEL_FORMAT_RGB_565'', ''HAL_PIXEL_FORMAT_BGRA_8888''} then egl_fail t ''EGL_BAD_PARAMETER'' 0 s
            else Inr (ea_new a, set_image (ea_new a) (Some (Native_Image dpy b)) (window_call (Wc_BufferIncRef b) s))
        | Cb_Texture texture \<Rightarrow>
            if ctx = 0 then egl_fail t ''EGL_BAD_CONTEXT'' 0 s
            else with_host a 0 s
              (case es_contexts s ctx of
                 None \<Rightarrow> Inl Undefined
               | Some cx \<Rightarrow>
                   Inr (ea_new a, set_image (ea_new a) (Some (Texture_Image dpy (ea_rcImage a)))
                          (host_call t (Hc_CreateClientImage (cx_rcContext cx) texture (ea_rcImage a)) s)))
        | Cb_Other \<Rightarrow> egl_fail t ''EGL_BAD_PARAMETER'' 0 s)"

text \<open>The buffer of an image was checked when it was made. \<open>ea_rcMakeCurrent\<close> is also the host's answer to destroying an image.\<close>

definition eglDestroyImageKHR :: "nat \<Rightarrow> egl_answers \<Rightarrow> nat \<Rightarrow> nat \<Rightarrow> egl_world \<Rightarrow> bool egl_result" where
  "eglDestroyImageKHR t a dpy img s =
     with_display t dpy False s
       (if img = 0 then egl_fail t ''EGL_BAD_PARAMETER'' False s
        else case es_images s img of
            None \<Rightarrow> Inl Undefined
          | Some (Native_Image d b) \<Rightarrow>
              if d \<noteq> dpy then egl_fail t ''EGL_BAD_PARAMETER'' False s
              else Inr (True, set_image img None (window_call (Wc_BufferDecRef b) s))
          | Some (Texture_Image d h) \<Rightarrow>
              if d \<noteq> dpy then egl_fail t ''EGL_BAD_PARAMETER'' False s
              else
                let s = set_image img None s in
                with_host a False s (Inr (ea_rcMakeCurrent a, host_call t (Hc_DestroyClientImage h) s)))"

abbreviation fence_handle :: nat where
  "fence_handle \<equiv> 0xFE4CE"

definition eglCreateSyncKHR :: "nat \<Rightarrow> nat \<Rightarrow> string \<Rightarrow> bool \<Rightarrow> egl_world \<Rightarrow> nat egl_result" where
  "eglCreateSyncKHR t dpy type attribs s =
     (if dpy \<noteq> the_display then egl_fail t ''EGL_BAD_DISPLAY'' 0 s
      else if type \<noteq> ''EGL_SYNC_FENCE_KHR'' \<or> attribs then egl_fail t ''EGL_BAD_ATTRIBUTE'' 0 s
      else bind_sum (current_context t s) (\<lambda>c. case c of
          None \<Rightarrow> egl_fail t ''EGL_BAD_MATCH'' 0 s
        | Some cx \<Rightarrow> Inr (fence_handle, host_call t (Hc_Finish (cx_version cx)) s)))"

definition eglDestroySyncKHR :: "nat \<Rightarrow> nat \<Rightarrow> egl_world \<Rightarrow> bool egl_result" where
  "eglDestroySyncKHR t sync s =
     (if sync \<noteq> fence_handle then egl_fail t ''EGL_BAD_PARAMETER'' False s else Inr (True, s))"

definition eglClientWaitSyncKHR :: "nat \<Rightarrow> nat \<Rightarrow> egl_world \<Rightarrow> string egl_result" where
  "eglClientWaitSyncKHR t sync s =
     (if sync \<noteq> fence_handle then egl_fail t ''EGL_BAD_PARAMETER'' ''EGL_FALSE'' s
      else Inr (''EGL_CONDITION_SATISFIED_KHR'', s))"

definition eglGetSyncAttribKHR :: "nat \<Rightarrow> nat \<Rightarrow> string \<Rightarrow> egl_world \<Rightarrow> (bool \<times> string option) egl_result" where
  "eglGetSyncAttribKHR t sync attribute s =
     (if sync \<noteq> fence_handle then egl_fail t ''EGL_BAD_PARAMETER'' (False, None) s
      else case map_of [(''EGL_SYNC_TYPE_KHR'', ''EGL_SYNC_FENCE_KHR''), (''EGL_SYNC_STATUS_KHR'', ''EGL_SIGNALED_KHR''),
                        (''EGL_SYNC_CONDITION_KHR'', ''EGL_SYNC_PRIOR_COMMANDS_COMPLETE_KHR'')] attribute of
          Some v \<Rightarrow> Inr ((True, Some v), s)
        | None \<Rightarrow> egl_fail t ''EGL_BAD_ATTRIBUTE'' (False, None) s)"

section \<open>The display\<close>

definition eglGetDisplay :: "bool \<Rightarrow> nat" where
  "eglGetDisplay default_display = (if \<not> default_display then 0 else the_display)"

text \<open>The version is written on success.\<close>

definition eglInitialize ::
  "(string \<Rightarrow> int) \<Rightarrow> nat \<Rightarrow> egl_answers \<Rightarrow> nat \<Rightarrow> egl_world \<Rightarrow> (int \<times> int) option egl_result" where
  "eglInitialize code t a dpy s =
     (if dpy \<noteq> the_display then egl_fail t ''EGL_BAD_DISPLAY'' None s
      else case display_initialize code (ea_host a) (es_display s) of
          Inl e \<Rightarrow> Inl e
        | Inr (ok, d) \<Rightarrow> Inr (if ok then Some (dp_major d, dp_minor d) else None, s\<lparr>es_display := d\<rparr>))"

definition eglTerminate :: "nat \<Rightarrow> nat \<Rightarrow> egl_world \<Rightarrow> bool egl_result" where
  "eglTerminate t dpy s =
     with_display t dpy False s
       (case display_terminate (es_display s) of Inl e \<Rightarrow> Inl e | Inr d \<Rightarrow> Inr (True, s\<lparr>es_display := d\<rparr>))"

definition eglGetError :: "nat \<Rightarrow> egl_world \<Rightarrow> string egl_result" where
  "eglGetError t s = Inr (th_error (es_threads s t), set_egl_error t ''EGL_SUCCESS'' s)"

definition eglQueryString :: "nat \<Rightarrow> egl_answers \<Rightarrow> nat \<Rightarrow> string \<Rightarrow> egl_world \<Rightarrow> string option egl_result" where
  "eglQueryString t a dpy name s =
     with_display t dpy None s
       (case display_queryString (ea_host a) name (es_display s) of (r, d) \<Rightarrow> Inr (r, s\<lparr>es_display := d\<rparr>))"

text \<open>The number and, with room for \<open>config_size\<close>, the configurations.\<close>

definition eglGetConfigs :: "nat \<Rightarrow> nat \<Rightarrow> int option \<Rightarrow> bool \<Rightarrow> egl_world \<Rightarrow> (bool \<times> int \<times> int list) egl_result" where
  "eglGetConfigs t dpy config_size num_config s =
     with_display t dpy (False, 0, []) s
       (if \<not> num_config then egl_fail t ''EGL_BAD_PARAMETER'' (False, 0, []) s
        else
          let n = dp_numConfigs (es_display s) in
          case config_size of
            None \<Rightarrow> Inr ((True, n, []), s)
          | Some k \<Rightarrow> let m = nat (min n k) in Inr ((True, int m, map int [0..<m]), s))"

definition eglGetConfigAttrib :: "nat \<Rightarrow> nat \<Rightarrow> int \<Rightarrow> string \<Rightarrow> egl_world \<Rightarrow> int option egl_result" where
  "eglGetConfigAttrib t dpy config attribute s =
     with_display t dpy None s (with_config t config None s
       (case getConfigAttrib (es_display s) config attribute of
          Inl e \<Rightarrow> Inl e
        | Inr None \<Rightarrow> egl_fail t ''EGL_BAD_ATTRIBUTE'' None s
        | Inr (Some v) \<Rightarrow> Inr (Some v, s)))"

text \<open>What the host is given of the attributes, in words, and what it chose; \<open>configs\<close>: there is memory for the result, which has
  room for \<open>config_size\<close>.\<close>

definition attribs_size :: "(int \<times> int) list option \<Rightarrow> nat" where
  "attribs_size attrib_list = (case attrib_list of None \<Rightarrow> 0 | Some l \<Rightarrow> 2 * length l + 1)"

definition eglChooseConfig ::
  "nat \<Rightarrow> egl_answers \<Rightarrow> nat \<Rightarrow> (int \<times> int) list option \<Rightarrow> bool \<Rightarrow> int \<Rightarrow> egl_world \<Rightarrow> (bool \<times> int \<times> nat list) egl_result" where
  "eglChooseConfig t a dpy attrib_list configs config_size s =
     with_display t dpy (False, 0, []) s
       (if config_size \<le> 0 then Inl Undefined
        else with_host a (False, 0, []) s
          (case ea_chosen a of
             (num_config, chosen) \<Rightarrow>
               let s = host_call t (Hc_ChooseConfig (attribs_size attrib_list) config_size) s in
               if configs \<and> num_config > config_size then Inl Undefined
               else Inr ((num_config > 0, num_config, if configs then take (nat num_config) chosen else []), s)))"

definition eglBindAPI :: "nat \<Rightarrow> string \<Rightarrow> egl_world \<Rightarrow> bool egl_result" where
  "eglBindAPI t api s =
     (if api \<noteq> ''EGL_OPENGL_ES_API'' then egl_fail t ''EGL_BAD_PARAMETER'' False s else Inr (True, s))"

section \<open>Histories\<close>

datatype egl_op =
    Eo_Initialize nat
  | Eo_Terminate nat
  | Eo_GetError
  | Eo_QueryString nat string
  | Eo_GetConfigs nat "int option" bool
  | Eo_GetConfigAttrib nat int string
  | Eo_ChooseConfig nat "(int \<times> int) list option" bool int
  | Eo_CreateWindowSurface nat int nat bool
  | Eo_CreatePbufferSurface nat int "pbuffer_attrib list option"
  | Eo_DestroySurface nat nat
  | Eo_QuerySurface nat nat string
  | Eo_SurfaceAttrib nat nat string
  | Eo_BindTexImage nat nat bool
  | Eo_SwapBuffers nat nat
  | Eo_CreateContext nat int nat "(string \<times> int) list"
  | Eo_DestroyContext nat nat
  | Eo_MakeCurrent nat nat nat nat
  | Eo_ReleaseThread
  | Eo_SwapInterval nat int
  | Eo_WaitGL
  | Eo_GetCurrentSurface string
  | Eo_GetCurrentDisplay
  | Eo_QueryContext nat nat string
  | Eo_GetGLString string
  | Eo_CreateImage nat nat client_buffer
  | Eo_DestroyImage nat nat
  | Eo_CreateSync nat string bool
  | Eo_DestroySync nat
  | Eo_ClientWaitSync nat
  | Eo_GetSyncAttrib nat string
  | Eo_BindAPI string

definition after_call :: "'r egl_result \<Rightarrow> fault + egl_world" where
  "after_call r = map_sum id snd r"

fun egl_step :: "(string \<Rightarrow> int) \<Rightarrow> nat \<Rightarrow> egl_answers \<Rightarrow> egl_op \<Rightarrow> egl_world \<Rightarrow> fault + egl_world" where
  "egl_step code t a (Eo_Initialize dpy) s = after_call (eglInitialize code t a dpy s)"
| "egl_step code t a (Eo_Terminate dpy) s = after_call (eglTerminate t dpy s)"
| "egl_step code t a Eo_GetError s = after_call (eglGetError t s)"
| "egl_step code t a (Eo_QueryString dpy name) s = after_call (eglQueryString t a dpy name s)"
| "egl_step code t a (Eo_GetConfigs dpy n num) s = after_call (eglGetConfigs t dpy n num s)"
| "egl_step code t a (Eo_GetConfigAttrib dpy config attr) s = after_call (eglGetConfigAttrib t dpy config attr s)"
| "egl_step code t a (Eo_ChooseConfig dpy attribs configs n) s = after_call (eglChooseConfig t a dpy attribs configs n s)"
| "egl_step code t a (Eo_CreateWindowSurface dpy config win magic) s =
     after_call (eglCreateWindowSurface t a dpy config win magic s)"
| "egl_step code t a (Eo_CreatePbufferSurface dpy config attribs) s =
     after_call (eglCreatePbufferSurface t a dpy config attribs s)"
| "egl_step code t a (Eo_DestroySurface dpy x) s = after_call (eglDestroySurface t a dpy x s)"
| "egl_step code t a (Eo_QuerySurface dpy x attr) s = after_call (eglQuerySurface t dpy x attr s)"
| "egl_step code t a (Eo_SurfaceAttrib dpy x attr) s = after_call (eglSurfaceAttrib t dpy x attr s)"
| "egl_step code t a (Eo_BindTexImage dpy x back) s = after_call (eglBindTexImage t a dpy x back s)"
| "egl_step code t a (Eo_SwapBuffers dpy x) s = after_call (eglSwapBuffers t a dpy x s)"
| "egl_step code t a (Eo_CreateContext dpy config share attribs) s =
     after_call (eglCreateContext t a dpy config share attribs s)"
| "egl_step code t a (Eo_DestroyContext dpy ctx) s = after_call (eglDestroyContext t a dpy ctx s)"
| "egl_step code t a (Eo_MakeCurrent dpy draw read ctx) s = after_call (eglMakeCurrent t a dpy draw read ctx s)"
| "egl_step code t a Eo_ReleaseThread s = after_call (eglReleaseThread t a s)"
| "egl_step code t a (Eo_SwapInterval dpy n) s = after_call (eglSwapInterval t a dpy n s)"
| "egl_step code t a Eo_WaitGL s = after_call (eglWaitGL t s)"
| "egl_step code t a (Eo_GetCurrentSurface which) s = after_call (eglGetCurrentSurface t which s)"
| "egl_step code t a Eo_GetCurrentDisplay s = after_call (eglGetCurrentDisplay t s)"
| "egl_step code t a (Eo_QueryContext dpy ctx attr) s = after_call (eglQueryContext t dpy ctx attr s)"
| "egl_step code t a (Eo_GetGLString name) s = after_call (getGLString t a name s)"
| "egl_step code t a (Eo_CreateImage dpy ctx buffer) s = after_call (eglCreateImageKHR t a dpy ctx buffer s)"
| "egl_step code t a (Eo_DestroyImage dpy img) s = after_call (eglDestroyImageKHR t a dpy img s)"
| "egl_step code t a (Eo_CreateSync dpy type attribs) s = after_call (eglCreateSyncKHR t dpy type attribs s)"
| "egl_step code t a (Eo_DestroySync sync) s = after_call (eglDestroySyncKHR t sync s)"
| "egl_step code t a (Eo_ClientWaitSync sync) s = after_call (eglClientWaitSyncKHR t sync s)"
| "egl_step code t a (Eo_GetSyncAttrib sync attr) s = after_call (eglGetSyncAttribKHR t sync attr s)"
| "egl_step code t a (Eo_BindAPI api) s = after_call (eglBindAPI t api s)"

declare egl_step.simps [simp del]

text \<open>\<open>new\<close> gives an address where nothing is.\<close>

definition fresh_address :: "egl_answers \<Rightarrow> egl_world \<Rightarrow> bool" where
  "fresh_address a s \<longleftrightarrow>
     ea_new a \<noteq> 0 \<and> es_contexts s (ea_new a) = None \<and> es_surfaces s (ea_new a) = None \<and> es_images s (ea_new a) = None"

inductive egl_run :: "(string \<Rightarrow> int) \<Rightarrow> (nat \<times> egl_answers \<times> egl_op) list \<Rightarrow> egl_world \<Rightarrow> bool" for code where
  start: "egl_run code [] egl_initial"
| step: "egl_run code ops s \<Longrightarrow> fresh_address a s \<Longrightarrow> egl_step code t a op s = Inr s' \<Longrightarrow> egl_run code (ops @ [(t, a, op)]) s'"

section \<open>Fields\<close>

lemma error_fields [simp]:
  "es_windows (set_egl_error t e s) = es_windows s" "es_host (set_egl_error t e s) = es_host s"
  "es_surfaces (set_egl_error t e s) = es_surfaces s" "es_contexts (set_egl_error t e s) = es_contexts s"
  "es_images (set_egl_error t e s) = es_images s" "es_display (set_egl_error t e s) = es_display s"
  by (simp_all add: set_egl_error_def on_thread_def)

lemma thread_fields [simp]:
  "es_windows (on_thread t f s) = es_windows s" "es_host (on_thread t f s) = es_host s"
  "es_surfaces (on_thread t f s) = es_surfaces s" "es_contexts (on_thread t f s) = es_contexts s"
  "es_images (on_thread t f s) = es_images s" "es_display (on_thread t f s) = es_display s"
  by (simp_all add: on_thread_def)

lemma call_fields [simp]:
  "es_surfaces (window_call c s) = es_surfaces s" "es_contexts (window_call c s) = es_contexts s"
  "es_images (window_call c s) = es_images s" "es_display (window_call c s) = es_display s"
  "es_threads (window_call c s) = es_threads s"
  "es_surfaces (host_call t d s) = es_surfaces s" "es_contexts (host_call t d s) = es_contexts s"
  "es_images (host_call t d s) = es_images s" "es_display (host_call t d s) = es_display s"
  "es_threads (host_call t d s) = es_threads s"
  by (simp_all add: window_call_def host_call_def)

section \<open>Calls that keep a condition\<close>

text \<open>A condition holds after a call that returns.\<close>

definition keeps :: "(egl_world \<Rightarrow> bool) \<Rightarrow> 'r egl_result \<Rightarrow> bool" where
  "keeps Q m \<longleftrightarrow> (\<forall>x s. m = Inr (x, s) \<longrightarrow> Q s)"

lemma keeps_simps [simp]:
  "keeps Q (Inl w)" "keeps Q (Inr (x, s)) \<longleftrightarrow> Q s" "keeps Q (egl_fail t e r s) \<longleftrightarrow> Q (set_egl_error t e s)"
  by (simp_all add: keeps_def egl_fail_def)

lemma keeps_display: "Q (set_egl_error t ''EGL_BAD_DISPLAY'' s) \<Longrightarrow> Q (set_egl_error t ''EGL_NOT_INITIALIZED'' s) \<Longrightarrow>
    (dp_initialized (es_display s) \<Longrightarrow> keeps Q k) \<Longrightarrow> keeps Q (with_display t dpy r s k)"
  by (simp add: with_display_def)

lemma keeps_config: "Q (set_egl_error t ''EGL_BAD_CONFIG'' s) \<Longrightarrow> keeps Q k \<Longrightarrow> keeps Q (with_config t config r s k)"
  by (simp add: with_config_def)

lemma keeps_surface: "Q (set_egl_error t ''EGL_BAD_DISPLAY'' s) \<Longrightarrow> (surface = 0 \<or> es_surfaces s surface \<noteq> None \<Longrightarrow> keeps Q k) \<Longrightarrow>
    keeps Q (with_surface t surface r s k)"
  by (auto simp: with_surface_def split: option.splits)

lemma keeps_host: "Q s \<Longrightarrow> (ea_connected a \<Longrightarrow> keeps Q k) \<Longrightarrow> keeps Q (with_host a r s k)"
  by (simp add: with_host_def)

lemma keeps_bind: "(\<And>x. m = Inr x \<Longrightarrow> keeps Q (f x)) \<Longrightarrow> keeps Q (bind_sum m f)"
  by (auto simp: bind_sum_def split: sum.splits)

lemma keeps_branches:
  "keeps Q x \<Longrightarrow> keeps Q y \<Longrightarrow> keeps Q (if b then x else y)"
  "keeps Q x \<Longrightarrow> (\<And>z. keeps Q (f z)) \<Longrightarrow> keeps Q (case o1 of None \<Rightarrow> x | Some z \<Rightarrow> f z)"
  "(\<And>z. keeps Q (g z)) \<Longrightarrow> (\<And>z. keeps Q (f z)) \<Longrightarrow> keeps Q (case o2 of Inl z \<Rightarrow> g z | Inr z \<Rightarrow> f z)"
  "(\<And>w b. keeps Q (f1 w b)) \<Longrightarrow> (\<And>cb. keeps Q (f2 cb)) \<Longrightarrow>
     keeps Q (case k of Window_Surface w b \<Rightarrow> f1 w b | Pbuffer_Surface cb \<Rightarrow> f2 cb)"
  "(\<And>y z. keeps Q (h y z)) \<Longrightarrow> keeps Q (case o3 of (y, z) \<Rightarrow> h y z)"
  by (auto simp: keeps_def split: option.split sum.split surface_kind.split prod.split)

lemma keeps_mapped [simp]: "Q s \<Longrightarrow> keeps Q (map_sum id (\<lambda>v. (w v, s)) m)"
  by (simp add: keeps_def map_sum_def split: sum.split)

lemma keeps_after: "after_call m = Inr s' \<Longrightarrow> keeps Q m \<Longrightarrow> Q s'"
  by (auto simp: keeps_def after_call_def map_sum_def split: sum.splits)

lemmas keeps_rules = keeps_display keeps_config keeps_surface keeps_host keeps_bind

lemma current_context_cases:
  assumes "current_context t s = Inr c"
  obtains "c = None" "current t s = 0" | cx where "c = Some cx" "es_contexts s (current t s) = Some cx" "current t s \<noteq> 0"
proof (cases "current t s = 0")
  case True
  then show thesis using assms that(1) by (simp add: current_context_def)
next
  case False
  then obtain cx where "es_contexts s (current t s) = Some cx" "c = Some cx"
    using assms by (cases "es_contexts s (current t s)") (auto simp: current_context_def)
  then show thesis using that(2) False by simp
qed

text \<open>Calls that make, give back and switch nothing.\<close>

fun calm_host :: "egl_host_call \<Rightarrow> bool" where
  "calm_host (Hc_SetWindowColorBuffer _ _) = True"
| "calm_host (Hc_FlushWindowColorBuffer _) = True"
| "calm_host (Hc_BindTexture _) = True"
| "calm_host (Hc_FBSetSwapInterval _) = True"
| "calm_host Hc_Flush = True"
| "calm_host (Hc_ChooseConfig _ _) = True"
| "calm_host (Hc_Init _) = True"
| "calm_host (Hc_Finish _) = True"
| "calm_host _ = False"

text \<open>A condition that does not look at errors, the display, strings and such calls is kept by all that only does that.\<close>

locale unheeding =
  fixes Q :: "egl_world \<Rightarrow> bool"
  assumes error_kept: "Q s \<Longrightarrow> Q (set_egl_error t e s)"
    and display_kept: "Q s \<Longrightarrow> Q (s\<lparr>es_display := d\<rparr>)"
    and host_kept: "calm_host c \<Longrightarrow> Q s \<Longrightarrow> Q (host_call t c s)"
    and interval_kept: "Q s \<Longrightarrow> Q (window_call (Wc_SetSwapInterval w n) s)"
    and string_kept: "es_contexts s p = Some cx \<Longrightarrow> Q s \<Longrightarrow> Q (set_context p (cx\<lparr>cx_strings := f\<rparr>) s)"
begin

lemmas kept = error_kept display_kept host_kept interval_kept string_kept

lemma kept_guards:
  assumes "Q s"
  shows "(dp_initialized (es_display s) \<Longrightarrow> keeps (Q) k) \<Longrightarrow> keeps (Q) (with_display t dpy r s k)"
    and "keeps (Q) k \<Longrightarrow> keeps (Q) (with_config t config r s k)"
    and "(surface = 0 \<or> es_surfaces s surface \<noteq> None \<Longrightarrow> keeps (Q) k) \<Longrightarrow> keeps (Q) (with_surface t surface r s k)"
    and "(ea_connected a \<Longrightarrow> keeps (Q) k) \<Longrightarrow> keeps (Q) (with_host a r s k)"
proof -
  show "(surface = 0 \<or> es_surfaces s surface \<noteq> None \<Longrightarrow> keeps (Q) k) \<Longrightarrow> keeps (Q) (with_surface t surface r s k)"
    by (rule keeps_surface) (use assms kept in simp_all)
qed (use assms kept in \<open>simp_all add: keeps_display keeps_config keeps_host\<close>)

lemma kept_terminate: "Q s \<Longrightarrow> keeps Q (eglTerminate t dpy s)"
  by (auto simp: eglTerminate_def kept intro!: kept_guards split: sum.split)

lemma kept_getGLString: "Q s \<Longrightarrow> keeps Q (getGLString t a e s)"
  unfolding getGLString_def
  by (rule keeps_bind)
    (auto simp: kept elim!: current_context_cases intro!: kept_guards split: option.split)

lemma kept_swap_interval: "Q s \<Longrightarrow> keeps Q (eglSwapInterval t a dpy n s)"
  unfolding eglSwapInterval_def
  by (intro kept_guards keeps_bind) (auto simp: kept Let_def split: option.split surface_kind.split)

lemma kept_reading:
  assumes "Q s"
  shows "keeps Q (eglGetCurrentSurface t which s)" "keeps Q (eglGetCurrentDisplay t s)"
    "keeps Q (eglWaitGL t s)" "keeps Q (eglCreateSyncKHR t dpy type attribs s)"
    "keeps Q (eglQueryContext t dpy ctx attr s)" "keeps Q (eglQuerySurface t dpy x attr s)"
    "keeps Q (eglSurfaceAttrib t dpy x attr s)" "keeps Q (eglBindTexImage t a dpy x back s)"
    "keeps Q (eglGetConfigs t dpy m num s)" "keeps Q (eglGetConfigAttrib t dpy config attr s)"
    "keeps Q (eglChooseConfig t a dpy l configs k s)" "keeps Q (eglQueryString t a dpy attr s)"
    "keeps Q (eglInitialize code t a dpy s)" "keeps Q (eglGetError t s)"
    "keeps Q (eglDestroySyncKHR t sync s)" "keeps Q (eglClientWaitSyncKHR t sync s)"
    "keeps Q (eglGetSyncAttribKHR t sync attr s)" "keeps Q (eglBindAPI t api s)"
proof -
  note guards = kept_guards [OF assms] keeps_branches [where Q = Q]
  show "keeps Q (eglGetCurrentSurface t which s)" "keeps Q (eglGetCurrentDisplay t s)" "keeps Q (eglWaitGL t s)"
    unfolding eglGetCurrentSurface_def eglGetCurrentDisplay_def eglWaitGL_def
    by (rule keeps_bind, use assms kept in \<open>simp split: option.split\<close>)+
  show "keeps Q (eglCreateSyncKHR t dpy type attribs s)"
    unfolding eglCreateSyncKHR_def using assms kept by (intro keeps_bind guards) simp_all
  show "keeps Q (eglQueryContext t dpy ctx attr s)"
    unfolding eglQueryContext_def by (intro guards) (simp_all add: assms kept)
  show "keeps Q (eglQuerySurface t dpy x attr s)"
    unfolding eglQuerySurface_def by (intro guards) (simp_all add: assms kept)
  show "keeps Q (eglSurfaceAttrib t dpy x attr s)"
    unfolding eglSurfaceAttrib_def by (intro guards) (simp_all add: assms kept)
  show "keeps Q (eglBindTexImage t a dpy x back s)"
    unfolding eglBindTexImage_def by (intro guards) (simp_all add: assms kept)
  show "keeps Q (eglGetConfigs t dpy m num s)"
    unfolding eglGetConfigs_def Let_def by (intro guards) (simp_all add: assms kept)
  show "keeps Q (eglGetConfigAttrib t dpy config attr s)"
    unfolding eglGetConfigAttrib_def by (intro guards) (simp_all add: assms kept)
  show "keeps Q (eglChooseConfig t a dpy l configs k s)"
    unfolding eglChooseConfig_def Let_def by (intro guards) (simp_all add: assms kept)
  show "keeps Q (eglQueryString t a dpy attr s)"
    unfolding eglQueryString_def by (intro guards) (simp_all add: assms kept)
  show "keeps Q (eglInitialize code t a dpy s)"
    unfolding eglInitialize_def by (intro guards) (simp_all add: assms kept)
  show "keeps Q (eglGetError t s)" unfolding eglGetError_def by (simp add: assms kept)
  show "keeps Q (eglDestroySyncKHR t sync s)"
    unfolding eglDestroySyncKHR_def by (intro guards) (simp_all add: assms kept)
  show "keeps Q (eglClientWaitSyncKHR t sync s)"
    unfolding eglClientWaitSyncKHR_def by (intro guards) (simp_all add: assms kept)
  show "keeps Q (eglGetSyncAttribKHR t sync attr s)"
    unfolding eglGetSyncAttribKHR_def by (intro guards) (simp_all add: assms kept)
  show "keeps Q (eglBindAPI t api s)"
    unfolding eglBindAPI_def by (intro guards) (simp_all add: assms kept)
qed

end

section \<open>An example\<close>

text \<open>A host with one configuration, and a history on it.\<close>

definition one_config :: egl_host where
  "one_config =
     \<lparr>eh_gles = True, eh_gles2 = True, eh_connected = True, eh_rendererVersion = 1, eh_version = (True, 1, 4),
      eh_counts = (1, 2), eh_configs = (1, [''EGL_SURFACE_TYPE'', ''EGL_RED_SIZE''], [5, 8]), eh_strings = (\<lambda>_. None)\<rparr>"

definition some_buffer :: "nat \<Rightarrow> native_buffer" where
  "some_buffer n =
     \<lparr>nb_id = n, nb_width = 4, nb_height = 2, nb_hostHandle = n, nb_format = ''HAL_PIXEL_FORMAT_RGBA_8888'', nb_magic = True,
      nb_version = True\<rparr>"

definition answer_of :: "nat \<Rightarrow> egl_answers" where
  "answer_of n =
     \<lparr>ea_host = one_config, ea_connected = True, ea_new = n, ea_group = n, ea_rcSurface = n, ea_rcColorBuffer = n, ea_rcContext = n,
      ea_rcMakeCurrent = True, ea_rcImage = n, ea_dequeue = Some (some_buffer n), ea_string = None, ea_chosen = (0, [])\<rparr>"

fun egl_play :: "(string \<Rightarrow> int) \<Rightarrow> (nat \<times> egl_answers \<times> egl_op) list \<Rightarrow> egl_world \<Rightarrow> fault + egl_world" where
  "egl_play code [] s = Inr s"
| "egl_play code ((t, a, op) # ops) s =
     (if fresh_address a s then case egl_step code t a op s of Inl e \<Rightarrow> Inl e | Inr s \<Rightarrow> egl_play code ops s else Inl Undefined)"

lemma play_runs: "egl_run code ops s \<Longrightarrow> egl_play code ops' s = Inr s' \<Longrightarrow> egl_run code (ops @ ops') s'"
proof (induction ops' arbitrary: ops s)
  case (Cons x ops')
  obtain t a op where x: "x = (t, a, op)" by (cases x)
  from Cons.prems x obtain v where v: "fresh_address a s" "egl_step code t a op s = Inr v" "egl_play code ops' v = Inr s'"
    by (auto split: if_splits sum.splits)
  show ?case using Cons.IH [OF egl_run.step [OF Cons.prems(1) v(1,2)] v(3)] by (simp add: x)
qed simp


end
