(* ===== verification/EglLoans.thy ===== *)
theory EglLoans
  imports Egl "HOL-Library.Multiset"
begin

text \<open>
  What EGL in Android holds of others, over the calls of \<open>Egl\<close>: references and buffers of native windows, references of native buffers
  and, on the host, window surfaces, colour buffers, contexts and images. A ledger reads from the calls what was taken and what was
  given back; the objects on the heaps say what is held. Shown here: with a connection the books are balanced after every history, and
  without one those of the windows still are.
\<close>

section \<open>The ledger\<close>

text \<open>What Android holds of others: references and buffers of windows, and objects of the host.\<close>

datatype loan =
    Window_Ref nat
  | Window_Buffer nat native_buffer
  | Buffer_Ref native_buffer
  | Host_Surface nat
  | Host_Color_Buffer nat
  | Host_Context nat
  | Host_Image nat

fun of_window :: "loan \<Rightarrow> bool" where
  "of_window (Window_Ref _) = True"
| "of_window (Window_Buffer _ _) = True"
| "of_window (Buffer_Ref _) = True"
| "of_window _ = False"

definition unless_0 :: "(nat \<Rightarrow> loan) \<Rightarrow> nat \<Rightarrow> loan multiset" where
  "unless_0 f n = (if n = 0 then {#} else {#f n#})"

fun takes :: "window_call \<Rightarrow> loan multiset" where
  "takes (Wc_IncRef w) = {#Window_Ref w#}"
| "takes (Wc_Dequeue w b) = {#Window_Buffer w b#}"
| "takes (Wc_BufferIncRef b) = {#Buffer_Ref b#}"
| "takes _ = {#}"

fun gives :: "window_call \<Rightarrow> loan multiset" where
  "gives (Wc_DecRef w) = {#Window_Ref w#}"
| "gives (Wc_Queue w (Some b)) = {#Window_Buffer w b#}"
| "gives (Wc_Cancel w b) = {#Window_Buffer w b#}"
| "gives (Wc_BufferDecRef b) = {#Buffer_Ref b#}"
| "gives _ = {#}"

fun host_takes :: "egl_host_call \<Rightarrow> loan multiset" where
  "host_takes (Hc_CreateWindowSurface _ _ _ r) = unless_0 Host_Surface r"
| "host_takes (Hc_CreateColorBuffer _ _ _ r) = unless_0 Host_Color_Buffer r"
| "host_takes (Hc_CreateContext _ _ _ r) = unless_0 Host_Context r"
| "host_takes (Hc_CreateClientImage _ _ r) = {#Host_Image r#}"
| "host_takes _ = {#}"

fun host_gives :: "egl_host_call \<Rightarrow> loan multiset" where
  "host_gives (Hc_DestroyWindowSurface r) = {#Host_Surface r#}"
| "host_gives (Hc_CloseColorBuffer r) = {#Host_Color_Buffer r#}"
| "host_gives (Hc_DestroyContext r) = {#Host_Context r#}"
| "host_gives (Hc_DestroyClientImage r) = {#Host_Image r#}"
| "host_gives _ = {#}"

definition taken :: "egl_world \<Rightarrow> loan multiset" where
  "taken s = sum_list (map takes (es_windows s)) + sum_list (map (host_takes \<circ> snd) (es_host s))"

definition given :: "egl_world \<Rightarrow> loan multiset" where
  "given s = sum_list (map gives (es_windows s)) + sum_list (map (host_gives \<circ> snd) (es_host s))"

definition surface_loans :: "egl_surface \<Rightarrow> loan multiset" where
  "surface_loans su =
     unless_0 Host_Surface (su_rcSurface su) +
     (case su_kind su of
        Window_Surface w None \<Rightarrow> {#Window_Ref w#}
      | Window_Surface w (Some b) \<Rightarrow> {#Window_Ref w, Window_Buffer w b#}
      | Pbuffer_Surface cb \<Rightarrow> unless_0 Host_Color_Buffer cb)"

definition context_loans :: "egl_context \<Rightarrow> loan multiset" where
  "context_loans cx = unless_0 Host_Context (cx_rcContext cx)"

definition image_loans :: "egl_image \<Rightarrow> loan multiset" where
  "image_loans img = (case img of Native_Image _ b \<Rightarrow> {#Buffer_Ref b#} | Texture_Image _ h \<Rightarrow> {#Host_Image h#})"

definition heap_sum :: "('a \<Rightarrow> 'b multiset) \<Rightarrow> (nat \<Rightarrow> 'a option) \<Rightarrow> 'b multiset" where
  "heap_sum f h = (\<Sum>p \<in> dom h. f (the (h p)))"

definition held :: "egl_world \<Rightarrow> loan multiset" where
  "held s =
     heap_sum surface_loans (es_surfaces s) + heap_sum context_loans (es_contexts s) + heap_sum image_loans (es_images s)"

lemma heap_sum_empty [simp]: "heap_sum f (\<lambda>_. None) = {#}"
  by (simp add: heap_sum_def)

lemma heap_sum_remove:
  assumes "finite (dom h)" "h p = Some x"
  shows "heap_sum f h = f x + heap_sum f (h(p := None))"
proof -
  have "(\<Sum>q \<in> dom h - {p}. f (the (h q))) = (\<Sum>q \<in> dom h - {p}. f (the ((h(p := None)) q)))"
    by (rule sum.cong) auto
  moreover have "dom (h(p := None)) = dom h - {p}" by auto
  moreover have "p \<in> dom h" using assms(2) by auto
  ultimately show ?thesis using sum.remove [OF assms(1), of p "\<lambda>q. f (the (h q))"] assms(2)
    by (simp add: heap_sum_def)
qed

lemma heap_sum_add:
  assumes "finite (dom h)" "h p = None"
  shows "heap_sum f (h(p \<mapsto> x)) = f x + heap_sum f h"
proof -
  have "(h(p \<mapsto> x))(p := None) = h" using assms(2) by auto
  then show ?thesis using heap_sum_remove [of "h(p \<mapsto> x)" p x f] assms(1) by simp
qed

lemma heap_sum_update:
  assumes "finite (dom h)" "h p = Some x" "f y = f x"
  shows "heap_sum f (h(p \<mapsto> y)) = heap_sum f h"
  using heap_sum_remove [OF assms(1,2), of f] heap_sum_remove [of "h(p \<mapsto> y)" p y f] assms by simp

text \<open>\<open>owes P s L\<close>: of the loans in \<open>P\<close> those in \<open>L\<close> have been taken and not been given back. Without a connection only the loans
  of windows are kept track of.\<close>

definition owes :: "(loan \<Rightarrow> bool) \<Rightarrow> egl_world \<Rightarrow> loan multiset \<Rightarrow> bool" where
  "owes P s L \<longleftrightarrow> filter_mset P (taken s) = filter_mset P (given s) + filter_mset P L"

definition tracked :: "(loan \<Rightarrow> bool) \<Rightarrow> egl_answers \<Rightarrow> bool" where
  "tracked P a \<longleftrightarrow> ea_connected a \<or> (\<forall>l. P l \<longrightarrow> of_window l)"

lemma logs_calls [simp]:
  "taken (window_call c s) = taken s + takes c" "given (window_call c s) = given s + gives c"
  "taken (host_call t d s) = taken s + host_takes d" "given (host_call t d s) = given s + host_gives d"
  by (simp_all add: taken_def given_def window_call_def host_call_def)

lemma owes_cong:
  "es_windows s' = es_windows s \<Longrightarrow> es_host s' = es_host s \<Longrightarrow> owes P s' L = owes P s L"
  by (simp add: owes_def taken_def given_def)

lemma owes_window: "owes P s (gives c + L) \<Longrightarrow> owes P (window_call c s) (takes c + L)"
  by (simp add: owes_def)

lemma owes_host: "owes P s (host_gives d + L) \<Longrightarrow> owes P (host_call t d s) (host_takes d + L)"
  by (simp add: owes_def)

lemma owes_untracked:
  assumes "owes P s (M + L)" "\<forall>l \<in># M. \<not> P l"
  shows "owes P s L"
proof -
  have "filter_mset P M = {#}" using assms(2) by (simp add: filter_mset_eq_conv)
  then show ?thesis using assms(1) by (simp add: owes_def)
qed

lemma free_calls_owe [simp]:
  "host_takes d = {#} \<Longrightarrow> host_gives d = {#} \<Longrightarrow> owes P (host_call t d s) L = owes P s L"
  "takes c = {#} \<Longrightarrow> gives c = {#} \<Longrightarrow> owes P (window_call c s) L = owes P s L"
  by (simp_all add: owes_def)

lemma error_owes [simp]: "owes P (set_egl_error t e s) L = owes P s L"
  by (rule owes_cong) simp_all

section \<open>Surfaces pay back\<close>

lemma destroy_surface_heaps [simp]:
  "es_surfaces (destroy_surface t a su s) = es_surfaces s" "es_contexts (destroy_surface t a su s) = es_contexts s"
  "es_images (destroy_surface t a su s) = es_images s"
  by (simp_all add: destroy_surface_def Let_def split: surface_kind.split option.split)

lemma destroy_surface_owes:
  assumes "owes P s (surface_loans su + L)" "tracked P a"
  shows "owes P (destroy_surface t a su s) L"
proof (cases "ea_connected a")
  case True
  then show ?thesis using assms(1)
    by (auto simp: destroy_surface_def surface_loans_def unless_0_def owes_def Let_def
        split: surface_kind.splits option.splits if_splits)
next
  case False
  then have "\<forall>l. P l \<longrightarrow> of_window l" using assms(2) by (simp add: tracked_def)
  then have "filter_mset P (unless_0 Host_Surface n) = {#}" "filter_mset P (unless_0 Host_Color_Buffer n) = {#}" for n
    by (auto simp: unless_0_def)
  then show ?thesis using assms(1) False
    by (auto simp: destroy_surface_def surface_loans_def owes_def Let_def split: surface_kind.splits option.splits)
qed

lemma new_window_surface_owes:
  assumes "new_window_surface t a dpy config win s = (r, s')" "owes P s L" "tracked P a"
  shows "owes P s' ((case r of None \<Rightarrow> {#} | Some su \<Rightarrow> surface_loans su) + L) \<and> es_surfaces s' = es_surfaces s \<and>
    es_contexts s' = es_contexts s \<and> es_images s' = es_images s"
proof (cases "ea_dequeue a")
  case None
  let ?su = "new_surface dpy config (Window_Surface win None)"
  let ?s = "set_egl_error t ''EGL_BAD_ALLOC'' (window_call (Wc_IncRef win) s)"
  have "owes P ?s (surface_loans ?su + L)"
    using owes_window [of P s "Wc_IncRef win" L] assms(2) by (simp add: new_surface_def surface_loans_def unless_0_def)
  from destroy_surface_owes [OF this assms(3)] show ?thesis
    using assms(1) None by (auto simp: new_window_surface_def Let_def)
next
  case (Some b)
  let ?su = "\<lambda>rc. (new_surface dpy config (Window_Surface win (Some b)))\<lparr>su_width := nb_width b, su_height := nb_height b, su_rcSurface := rc\<rparr>"
  let ?s = "window_call (Wc_Dequeue win b) (window_call (Wc_IncRef win) s)"
  have 1: "owes P ?s (surface_loans (?su 0) + L)"
    using assms(2) by (simp add: owes_def new_surface_def surface_loans_def unless_0_def)
  have 2: "owes P (host_call t (Hc_CreateWindowSurface config (nb_width b) (nb_height b) rc) ?s) (surface_loans (?su rc) + L)" for rc
    using assms(2) by (simp add: owes_def new_surface_def surface_loans_def)
  show ?thesis
    using assms(1) Some destroy_surface_owes [OF 1 assms(3), of t] destroy_surface_owes [OF 2 [of 0] assms(3), of t]
      2 [of "ea_rcSurface a"]
    by (auto simp: new_window_surface_def new_surface_def Let_def split: if_splits)
qed

lemma create_pbuffer_surface_owes:
  assumes "create_pbuffer_surface t a dpy config w h f s = (r, s')" "owes P s L" "tracked P a"
  shows "owes P s' ((case r of None \<Rightarrow> {#} | Some su \<Rightarrow> surface_loans su) + L) \<and> es_surfaces s' = es_surfaces s \<and>
    es_contexts s' = es_contexts s \<and> es_images s' = es_images s"
proof -
  let ?su = "\<lambda>rc cb. (new_surface dpy config (Pbuffer_Surface cb))\<lparr>su_width := w, su_height := h, su_rcSurface := rc\<rparr>"
  let ?rc = "ea_rcSurface a"
  have 0: "owes P s (surface_loans (?su 0 0) + L)"
    using assms(2) by (simp add: owes_def new_surface_def surface_loans_def unless_0_def)
  have 1: "owes P (host_call t (Hc_CreateWindowSurface config w h rc) s) (surface_loans (?su rc 0) + L)" for rc
    using assms(2) by (simp add: owes_def new_surface_def surface_loans_def unless_0_def)
  have 2: "owes P (host_call t (Hc_CreateColorBuffer w h f cb) (host_call t (Hc_CreateWindowSurface config w h rc) s))
      (surface_loans (?su rc cb) + L)" for rc cb
    using assms(2) by (simp add: owes_def new_surface_def surface_loans_def unless_0_def)
  show ?thesis
    using assms(1) destroy_surface_owes [OF 0 assms(3), of t] destroy_surface_owes [OF 1 [of 0] assms(3), of t]
      destroy_surface_owes [OF 2 [of 0 ?rc] assms(3), of t] 2 [of "ea_rcColorBuffer a" ?rc]
    by (auto simp: create_pbuffer_surface_def new_surface_def Let_def split: if_splits)
qed

lemma swapBuffers_owes:
  assumes "swapBuffers t a su s = (ok, su', s')" "owes P s (surface_loans su + L)"
  shows "owes P s' (surface_loans su' + L) \<and> es_surfaces s' = es_surfaces s \<and> es_contexts s' = es_contexts s \<and>
    es_images s' = es_images s"
proof (cases "su_kind su")
  case (Pbuffer_Surface cb)
  then show ?thesis using assms by (simp add: swapBuffers_def)
next
  case (Window_Surface w b)
  show ?thesis
  proof (cases "ea_connected a")
    case False
    then show ?thesis using assms Window_Surface by (simp add: swapBuffers_def)
  next
    case True
    let ?s = "window_call (Wc_Queue w b) (host_call t (Hc_FlushWindowColorBuffer (su_rcSurface su)) s)"
    let ?no = "su\<lparr>su_kind := Window_Surface w None\<rparr>"
    have q: "owes P ?s (surface_loans ?no + L)"
      using assms(2) Window_Surface by (cases b) (simp_all add: surface_loans_def owes_def)
    show ?thesis
    proof (cases "ea_dequeue a")
      case None
      then show ?thesis using assms(1) Window_Surface True q by (auto simp: swapBuffers_def Let_def)
    next
      case (Some c)
      let ?su = "su\<lparr>su_kind := Window_Surface w (Some c), su_width := nb_width c, su_height := nb_height c\<rparr>"
      have "owes P (window_call (Wc_Dequeue w c) ?s) (surface_loans ?su + L)"
        using q by (simp add: surface_loans_def owes_def)
      then show ?thesis using assms(1) Window_Surface True Some by (auto simp: swapBuffers_def Let_def)
    qed
  qed
qed


section \<open>The books are balanced\<close>

definition books :: "(loan \<Rightarrow> bool) \<Rightarrow> egl_world \<Rightarrow> bool" where
  "books P s \<longleftrightarrow>
     finite (dom (es_surfaces s)) \<and> finite (dom (es_contexts s)) \<and> finite (dom (es_images s)) \<and> owes P s (held s)"

lemma books_cong:
  assumes "es_surfaces s' = es_surfaces s" "es_contexts s' = es_contexts s" "es_images s' = es_images s"
    "es_windows s' = es_windows s" "es_host s' = es_host s"
  shows "books P s' = books P s"
  using owes_cong [OF assms(4,5)] assms by (simp add: books_def held_def)

lemma books_simps [simp]:
  "books P (set_egl_error t e s) = books P s" "books P (on_thread t f s) = books P s"
  "books P (s\<lparr>es_display := d\<rparr>) = books P s" "books P (on_encoder t v g s) = books P s"
  by (rule books_cong; simp add: on_encoder_def)+

lemma books_free_calls [simp]:
  "host_takes d = {#} \<Longrightarrow> host_gives d = {#} \<Longrightarrow> books P (host_call t d s) = books P s"
  "takes c = {#} \<Longrightarrow> gives c = {#} \<Longrightarrow> books P (window_call c s) = books P s"
  by (simp_all add: books_def held_def)

lemma books_set_context:
  assumes "books P s" "es_contexts s c = Some cx" "cx_rcContext cx' = cx_rcContext cx"
  shows "books P (set_context c cx' s)"
proof -
  have "heap_sum context_loans ((es_contexts s)(c \<mapsto> cx')) = heap_sum context_loans (es_contexts s)"
    using assms by (intro heap_sum_update) (auto simp: books_def context_loans_def)
  moreover have "owes P (set_context c cx' s) L = owes P s L" for L by (rule owes_cong) (simp_all add: set_context_def)
  ultimately show ?thesis using assms(1) by (simp add: books_def held_def set_context_def)
qed

lemma books_add_surface:
  assumes "books P s" "es_surfaces s p = None" "owes P s' (surface_loans su + held s)"
    "es_surfaces s' = es_surfaces s" "es_contexts s' = es_contexts s" "es_images s' = es_images s"
  shows "books P (add_surface p su s')"
proof -
  have "heap_sum surface_loans ((es_surfaces s)(p \<mapsto> su)) = surface_loans su + heap_sum surface_loans (es_surfaces s)"
    using assms(1,2) by (intro heap_sum_add) (auto simp: books_def)
  moreover have "owes P (add_surface p su s') L = owes P s' L" for L by (rule owes_cong) (simp_all add: add_surface_def)
  ultimately show ?thesis using assms by (simp add: books_def held_def add_surface_def add.assoc)
qed

lemma held_with_surface:
  assumes "books P s" "es_surfaces s p = Some su"
  shows "held s = surface_loans su + held (s\<lparr>es_surfaces := (es_surfaces s)(p := None)\<rparr>)"
  using heap_sum_remove [of "es_surfaces s" p su surface_loans] assms by (simp add: books_def held_def add.assoc)

lemma books_swap_surface:
  assumes "books P s" "es_surfaces s p = Some su" "swapBuffers t a su s = (ok, su', s')"
  shows "books P (add_surface p su' s')"
proof -
  let ?s = "s\<lparr>es_surfaces := (es_surfaces s)(p := None)\<rparr>"
  have "owes P s (surface_loans su + held ?s)" using assms(1) held_with_surface [OF assms(1,2)] by (simp add: books_def)
  from swapBuffers_owes [OF assms(3) this] have s': "owes P s' (surface_loans su' + held ?s)"
    "es_surfaces s' = es_surfaces s" "es_contexts s' = es_contexts s" "es_images s' = es_images s" by simp_all
  let ?s' = "s'\<lparr>es_surfaces := (es_surfaces s)(p := None)\<rparr>"
  have "owes P ?s' L = owes P s' L" for L by (rule owes_cong) simp_all
  moreover have "finite (dom (es_surfaces ?s'))" "held ?s = held ?s'" using assms(1) s' by (simp_all add: books_def held_def)
  moreover have "heap_sum surface_loans ((es_surfaces s)(p \<mapsto> su')) =
      surface_loans su' + heap_sum surface_loans ((es_surfaces s)(p := None))"
    using heap_sum_add [of "(es_surfaces s)(p := None)" p surface_loans su'] assms(1) by (simp add: books_def)
  moreover have "owes P (add_surface p su' s') L = owes P s' L" for L by (rule owes_cong) (simp_all add: add_surface_def)
  ultimately show ?thesis using assms(1) s' by (simp add: books_def held_def add_surface_def add.assoc)
qed

lemma books_remove_surface:
  assumes "books P s" "es_surfaces s p = Some su" "tracked P a"
  shows "books P (destroy_surface t a su (s\<lparr>es_surfaces := (es_surfaces s)(p := None)\<rparr>))"
proof -
  let ?s = "s\<lparr>es_surfaces := (es_surfaces s)(p := None)\<rparr>"
  have "owes P ?s L = owes P s L" for L by (rule owes_cong) simp_all
  then have "owes P ?s (surface_loans su + held ?s)"
    using assms(1) held_with_surface [OF assms(1,2)] by (simp add: books_def)
  from destroy_surface_owes [OF this assms(3), of t] show ?thesis using assms(1) by (simp add: books_def held_def)
qed

lemma books_add_context:
  assumes "books P s" "es_contexts s c = None" "rc \<noteq> 0" "cx_rcContext cx = rc"
  shows "books P (set_context c cx (host_call t (Hc_CreateContext config share version rc) s))"
proof -
  have "heap_sum context_loans ((es_contexts s)(c \<mapsto> cx)) = {#Host_Context rc#} + heap_sum context_loans (es_contexts s)"
    using heap_sum_add [of "es_contexts s" c context_loans cx] assms
    by (simp add: books_def context_loans_def unless_0_def)
  moreover have "owes P (set_context c cx s') L = owes P s' L" for L s' by (rule owes_cong) (simp_all add: set_context_def)
  ultimately show ?thesis using assms(1,3)
    by (simp add: books_def held_def owes_def set_context_def unless_0_def taken_def given_def host_call_def)
qed

lemma books_delete_context:
  assumes "books P s" "es_contexts s c = Some cx"
  shows "cx_rcContext cx \<noteq> 0 \<Longrightarrow> books P (delete_context c (host_call t (Hc_DestroyContext (cx_rcContext cx)) s))"
    and "cx_rcContext cx = 0 \<Longrightarrow> books P (delete_context c s)"
  using heap_sum_remove [of "es_contexts s" c cx context_loans] assms
  by (simp_all add: books_def held_def owes_def delete_context_def context_loans_def unless_0_def taken_def given_def host_call_def)

lemma books_add_image:
  assumes "books P s" "es_images s p = None"
  shows "books P (set_image p (Some (Native_Image d b)) (window_call (Wc_BufferIncRef b) s))"
    and "books P (set_image p (Some (Texture_Image d h)) (host_call t (Hc_CreateClientImage c x h) s))"
  using heap_sum_add [of "es_images s" p image_loans] assms
  by (simp_all add: books_def held_def owes_def set_image_def image_loans_def taken_def given_def host_call_def window_call_def)

lemma books_remove_image:
  assumes "books P s"
  shows "es_images s p = Some (Native_Image d b) \<Longrightarrow> books P (set_image p None (window_call (Wc_BufferDecRef b) s))"
    and "es_images s p = Some (Texture_Image d h) \<Longrightarrow> books P (host_call t (Hc_DestroyClientImage h) (set_image p None s))"
    and "es_images s p = Some (Texture_Image d h) \<Longrightarrow> \<forall>l. P l \<longrightarrow> of_window l \<Longrightarrow> books P (set_image p None s)"
  using heap_sum_remove [of "es_images s" p _ image_loans] assms
  by (auto simp: books_def held_def owes_def set_image_def image_loans_def taken_def given_def host_call_def window_call_def)

interpretation bk: unheeding "books P" for P
proof
  show "books P s \<Longrightarrow> calm_host c \<Longrightarrow> books P (host_call t c s)" for s c t by (cases c) simp_all
qed (simp_all add: books_set_context)

lemma destroy_context_books:
  assumes "books P s"
  shows "keeps (books P) (eglDestroyContext t a dpy ctx s)"
  unfolding eglDestroyContext_def
  by (rule keeps_display; (simp add: assms)?)
    (auto simp: assms books_delete_context [OF assms] intro!: keeps_host books_set_context [OF assms] split: option.splits)

lemma leave_pending_books:
  assumes "books P s" "leave_pending t a dpy ctx s = Inr s'"
  shows "books P s'"
proof -
  have "keeps (books P) (eglDestroyContext t a dpy (current t s) (on_thread t (th_current_update (\<lambda>_. 0)) s))"
    by (rule destroy_context_books) (simp add: assms(1))
  then show ?thesis using assms
    by (auto simp: leave_pending_def keeps_def map_sum_def Let_def split: if_splits option.splits sum.splits)
qed

lemma bind_encoder_books: "books P s \<Longrightarrow> bind_encoder t ctx draw read s = Inr s' \<Longrightarrow> books P s'"
  by (auto simp: bind_encoder_def books_set_context split: if_splits option.splits)

lemma switch_current_books: "books P s \<Longrightarrow> switch_current t ctx s = Inr s' \<Longrightarrow> books P s'"
  by (auto simp: switch_current_def books_set_context split: if_splits option.splits)

lemma setup_encoder_books: "books P s \<Longrightarrow> setup_encoder t ctx s = Inr s' \<Longrightarrow> books P s'"
  by (auto simp: setup_encoder_def split: if_splits option.splits)

lemma make_current_books:
  assumes "books P s"
  shows "keeps (books P) (eglMakeCurrent t a dpy draw read ctx s)"
proof -
  have "books P w" if "leave_pending t a dpy ctx s = Inr v" "bind_encoder t ctx draw read (host_call t (Hc_MakeCurrent x y z ok) v) = Inr u1"
    "switch_current t ctx u1 = Inr u2" "setup_encoder t ctx u2 = Inr w" for v u1 u2 w x y z ok
    using leave_pending_books [OF assms that(1)] bind_encoder_books [OF _ that(2)] switch_current_books [OF _ that(3)]
      setup_encoder_books [OF _ that(4)] by simp
  moreover have "books P v" if "leave_pending t a dpy ctx s = Inr v" for v using leave_pending_books [OF assms that] .
  ultimately show ?thesis unfolding eglMakeCurrent_def Let_def
    by (auto simp: assms intro!: keeps_rules)
qed

lemma window_surface_books:
  assumes "books P s" "tracked P a" "fresh_address a s"
  shows "keeps (books P) (eglCreateWindowSurface t a dpy config win magic s)"
proof -
  have none: "es_surfaces s (ea_new a) = None" using assms(3) by (simp add: fresh_address_def)
  have owes: "owes P s (held s)" using assms(1) by (simp add: books_def)
  have failed: "books P s'" if "new_window_surface t a the_display config win s = (None, s')" for s'
    using new_window_surface_owes [OF that owes assms(2)] assms(1) by (simp add: books_def held_def)
  have made: "books P (add_surface (ea_new a) su s')"
    if "new_window_surface t a the_display config win s = (Some su, s')" for su s'
    using new_window_surface_owes [OF that owes assms(2)] by (auto intro: books_add_surface [OF assms(1) none])
  show ?thesis unfolding eglCreateWindowSurface_def
    by (intro bk.kept_guards assms(1)) (auto simp: assms(1) failed made split: sum.split option.split prod.split)
qed

lemma pbuffer_surface_books:
  assumes "books P s" "tracked P a" "fresh_address a s"
  shows "keeps (books P) (eglCreatePbufferSurface t a dpy config attribs s)"
proof -
  have none: "es_surfaces s (ea_new a) = None" using assms(3) by (simp add: fresh_address_def)
  have owes: "owes P s (held s)" using assms(1) by (simp add: books_def)
  have loans: "surface_loans (su\<lparr>su_texFormat := f, su_texTarget := g\<rparr>) = surface_loans su" for su f g
    by (simp add: surface_loans_def)
  have failed: "books P s'" if "create_pbuffer_surface t a dpy config w h fmt s = (None, s')" for s' w h fmt
    using create_pbuffer_surface_owes [OF that owes assms(2)] assms(1) by (simp add: books_def held_def)
  have made: "books P (add_surface (ea_new a) (su\<lparr>su_texFormat := f, su_texTarget := g\<rparr>) s')"
    if "create_pbuffer_surface t a dpy config w h fmt s = (Some su, s')" for su s' w h fmt f g
    using create_pbuffer_surface_owes [OF that owes assms(2)]
    by (auto simp: loans intro: books_add_surface [OF assms(1) none])
  show ?thesis unfolding eglCreatePbufferSurface_def
    by (intro bk.kept_guards assms(1))
      (auto simp: assms(1) failed made split: sum.split option.split prod.split)
qed

lemma destroy_surface_books:
  assumes "books P s" "tracked P a"
  shows "keeps (books P) (eglDestroySurface t a dpy x s)"
  unfolding eglDestroySurface_def
  by (intro bk.kept_guards assms(1)) (auto simp: assms(1) books_remove_surface [OF assms(1) _ assms(2)] split: option.split)

lemma swap_buffers_books:
  assumes "books P s"
  shows "keeps (books P) (eglSwapBuffers t a dpy x s)"
  unfolding eglSwapBuffers_def
  by (intro bk.kept_guards assms)
    (auto simp: assms books_swap_surface [OF assms] intro!: bk.kept_guards split: option.split prod.split)

lemma create_context_books:
  assumes "books P s" "fresh_address a s"
  shows "keeps (books P) (eglCreateContext t a dpy config share attribs s)"
proof -
  have none: "es_contexts s (ea_new a) = None" using assms(2) by (simp add: fresh_address_def)
  have made: "books P (set_context (ea_new a) (new_context dpy config grp v (ea_rcContext a))
      (host_call t (Hc_CreateContext config share v (ea_rcContext a)) s))" if "0 < ea_rcContext a" for grp v share dpy
    using books_add_context [OF assms(1) none, of "ea_rcContext a"] that by (simp add: new_context_def)
  have failed: "books P (host_call t (Hc_CreateContext config share v 0) s)" for share v
    using assms(1) by (simp add: unless_0_def)
  show ?thesis unfolding eglCreateContext_def
    by (intro bk.kept_guards assms(1))
      (auto simp: assms(1) made failed Let_def intro!: bk.kept_guards split: sum.split)
qed

lemma image_books:
  assumes "books P s" "tracked P a"
  shows "fresh_address a s \<Longrightarrow> keeps (books P) (eglCreateImageKHR t a dpy ctx b s)"
    and "keeps (books P) (eglDestroyImageKHR t a dpy img s)"
proof -
  show "keeps (books P) (eglCreateImageKHR t a dpy ctx b s)" if "fresh_address a s"
  proof -
    have "es_images s (ea_new a) = None" using that by (simp add: fresh_address_def)
    from books_add_image [OF assms(1) this] show ?thesis unfolding eglCreateImageKHR_def
      by (intro bk.kept_guards assms(1))
        (auto simp: assms(1) intro!: bk.kept_guards split: client_buffer.split option.split)
  qed
  show "keeps (books P) (eglDestroyImageKHR t a dpy img s)"
    unfolding eglDestroyImageKHR_def with_host_def
    by (intro bk.kept_guards assms(1))
      (use assms in \<open>auto simp: books_remove_image [OF assms(1)] tracked_def Let_def split: option.split egl_image.split\<close>)
qed

lemma release_thread_books: "books P s \<Longrightarrow> keeps (books P) (eglReleaseThread t a s)"
  by (simp add: eglReleaseThread_def make_current_books)

lemmas books_calls =
  window_surface_books pbuffer_surface_books destroy_surface_books swap_buffers_books create_context_books destroy_context_books
  make_current_books release_thread_books image_books bk.kept_terminate bk.kept_getGLString bk.kept_swap_interval bk.kept_reading

lemma step_books:
  assumes "egl_step code t a op s = Inr s'" "books P s" "tracked P a" "fresh_address a s"
  shows "books P s'"
  using assms(1) by (cases op; simp only: egl_step.simps; elim keeps_after; intro books_calls assms)

section \<open>Histories balance\<close>

lemma run_books:
  assumes "egl_run code ops s" "\<forall>(t, a, op) \<in> set ops. tracked P a"
  shows "books P s"
  using assms
proof (induction rule: egl_run.induct)
  case start
  then show ?case by (simp add: books_def egl_initial_def held_def owes_def taken_def given_def)
next
  case (step ops s a t op s')
  then show ?case using step_books [of code t a op s s' P] by auto
qed

text \<open>
  C34. The books of EGL. After any history of calls, whichever failed, the references and the buffers of native windows and the
  references of native buffers that were taken are those given back and those that the surfaces and images that are left hold: each
  once. If the connection to the host was there in every call the same holds of the host's surfaces, colour buffers, contexts and
  images: nothing leaks, nothing is given back twice.
\<close>

theorem egl_books_balance:
  assumes "egl_run code ops s"
  shows "filter_mset of_window (taken s) = filter_mset of_window (given s + held s) \<and>
    ((\<forall>(t, a, op) \<in> set ops. ea_connected a) \<longrightarrow> taken s = given s + held s)"
proof
  have "books of_window s" using run_books [OF assms, of of_window] by (auto simp: tracked_def)
  then show "filter_mset of_window (taken s) = filter_mset of_window (given s + held s)"
    by (simp add: books_def owes_def)
  show "(\<forall>(t, a, op) \<in> set ops. ea_connected a) \<longrightarrow> taken s = given s + held s"
  proof
    assume "\<forall>(t, a, op) \<in> set ops. ea_connected a"
    then have "books (\<lambda>_. True) s" using run_books [OF assms, of "\<lambda>_. True"] by (simp add: tracked_def case_prod_beta)
    then show "taken s = given s + held s" by (simp add: books_def owes_def)
  qed
qed

text \<open>A history on the example of \<open>Egl\<close>.\<close>

definition swap_history :: "(nat \<times> egl_answers \<times> egl_op) list" where
  "swap_history =
     [(0, answer_of 2, Eo_Initialize 1), (0, answer_of 3, Eo_CreateWindowSurface 1 0 9 True), (0, answer_of 4, Eo_SwapBuffers 1 3),
      (0, answer_of 5, Eo_CreateWindowSurface 1 0 8 True), (0, answer_of 6, Eo_DestroySurface 1 3)]"

theorem egl_books_balance_witness:
  "\<exists>s. egl_run (\<lambda>_. 0) swap_history s \<and> taken s = given s + held s \<and>
     es_windows s = [Wc_IncRef 9, Wc_Dequeue 9 (some_buffer 3), Wc_Queue 9 (Some (some_buffer 3)), Wc_Dequeue 9 (some_buffer 4),
       Wc_IncRef 8, Wc_Dequeue 8 (some_buffer 5), Wc_Cancel 9 (some_buffer 4), Wc_DecRef 9]"
proof -
  have "case egl_play (\<lambda>_. 0) swap_history egl_initial of Inl _ \<Rightarrow> False | Inr s \<Rightarrow>
      es_windows s = [Wc_IncRef 9, Wc_Dequeue 9 (some_buffer 3), Wc_Queue 9 (Some (some_buffer 3)), Wc_Dequeue 9 (some_buffer 4),
       Wc_IncRef 8, Wc_Dequeue 8 (some_buffer 5), Wc_Cancel 9 (some_buffer 4), Wc_DecRef 9]"
    by code_simp
  then obtain s where s: "egl_play (\<lambda>_. 0) swap_history egl_initial = Inr s"
    "es_windows s = [Wc_IncRef 9, Wc_Dequeue 9 (some_buffer 3), Wc_Queue 9 (Some (some_buffer 3)), Wc_Dequeue 9 (some_buffer 4),
       Wc_IncRef 8, Wc_Dequeue 8 (some_buffer 5), Wc_Cancel 9 (some_buffer 4), Wc_DecRef 9]"
    by (auto split: sum.splits)
  from play_runs [OF egl_run.start s(1)] have "egl_run (\<lambda>_. 0) swap_history s" by simp
  moreover have "\<forall>(t, a, op) \<in> set swap_history. ea_connected a" by (simp add: swap_history_def answer_of_def)
  ultimately show ?thesis using egl_books_balance [of "\<lambda>_. 0" swap_history s] s(2) by auto
qed

end
