(* ===== verification/EglCurrent.thy ===== *)
theory EglCurrent
  imports Egl
begin

text \<open>
  Which context is current: in a thread of Android, in the encoder of its connection and on the host, over the calls of \<open>Egl\<close>.
  Shown here: as long as clients do what the code expects of them the three are the same, the surfaces with them, and no two
  threads have the same context; and what comes of a client that does something else.
\<close>

section \<open>What the host believes\<close>

text \<open>The context and the surfaces of a thread's last request that the host accepted.\<close>

definition after_request :: "nat \<Rightarrow> nat \<times> nat \<times> nat \<Rightarrow> nat \<times> egl_host_call \<Rightarrow> nat \<times> nat \<times> nat" where
  "after_request t cur r =
     (case r of (u, Hc_MakeCurrent x d e ok) \<Rightarrow> if u = t \<and> ok then (x, d, e) else cur | _ \<Rightarrow> cur)"

definition host_current :: "nat \<Rightarrow> egl_world \<Rightarrow> nat \<times> nat \<times> nat" where
  "host_current t s = foldl (after_request t) (0, 0, 0) (es_host s)"

definition live_surface :: "nat \<Rightarrow> egl_world \<Rightarrow> bool" where
  "live_surface p s \<longleftrightarrow> p = 0 \<or> es_surfaces s p \<noteq> None"

definition agrees :: "nat \<Rightarrow> egl_world \<Rightarrow> bool" where
  "agrees t s \<longleftrightarrow>
     current t s = 0 \<or>
     (case es_contexts s (current t s) of
        None \<Rightarrow> False
      | Some cx \<Rightarrow>
          cx_isCurrent cx \<and> live_surface (cx_draw cx) s \<and> live_surface (cx_read cx) s \<and>
          host_current t s = (cx_rcContext cx, rc_of (cx_draw cx) s, rc_of (cx_read cx) s) \<and>
          encoder_of (cx_version cx) (es_threads s t) =
            \<lparr>ec_client = current t s, ec_group = Some (cx_group cx), ec_ready = True\<rparr>)"

definition exclusive :: "egl_world \<Rightarrow> bool" where
  "exclusive s \<longleftrightarrow> (\<forall>t u. t \<noteq> u \<longrightarrow> current t s \<noteq> 0 \<longrightarrow> current t s \<noteq> current u s)"

definition agreed :: "egl_world \<Rightarrow> bool" where
  "agreed s \<longleftrightarrow> (\<forall>t. agrees t s) \<and> exclusive s"



section \<open>Calls that leave it as it is\<close>

definition view :: "egl_context \<Rightarrow> bool \<times> nat \<times> nat \<times> nat \<times> int \<times> nat" where
  "view cx = (cx_isCurrent cx, cx_rcContext cx, cx_draw cx, cx_read cx, cx_version cx, cx_group cx)"

definition used_surface :: "nat \<Rightarrow> egl_world \<Rightarrow> bool" where
  "used_surface p s \<longleftrightarrow>
     (\<exists>t cx. current t s \<noteq> 0 \<and> es_contexts s (current t s) = Some cx \<and> p \<in> {cx_draw cx, cx_read cx})"

definition quiet :: "egl_world \<Rightarrow> egl_world \<Rightarrow> bool" where
  "quiet v s \<longleftrightarrow>
     (\<forall>t. current t s = current t v \<and> th_gl (es_threads s t) = th_gl (es_threads v t) \<and>
          th_gl2 (es_threads s t) = th_gl2 (es_threads v t) \<and> host_current t s = host_current t v) \<and>
     (\<forall>t cx. current t v \<noteq> 0 \<longrightarrow> es_contexts v (current t v) = Some cx \<longrightarrow>
        (\<exists>cx'. es_contexts s (current t v) = Some cx' \<and> view cx' = view cx)) \<and>
     (\<forall>p su. used_surface p v \<longrightarrow> es_surfaces v p = Some su \<longrightarrow>
        (\<exists>su'. es_surfaces s p = Some su' \<and> su_rcSurface su' = su_rcSurface su))"


lemma quiet_surface:
  assumes "quiet v s" "p = 0 \<or> used_surface p v" "live_surface p v"
  shows "live_surface p s \<and> rc_of p s = rc_of p v"
proof (cases "p = 0")
  case False
  then obtain su where "es_surfaces v p = Some su" using assms(3) by (auto simp: live_surface_def)
  moreover from this obtain su' where "es_surfaces s p = Some su'" "su_rcSurface su' = su_rcSurface su"
    using assms(1,2) False unfolding quiet_def by blast
  ultimately show ?thesis by (simp add: live_surface_def rc_of_def)
qed (simp add: live_surface_def rc_of_def)

lemma quiet_agrees:
  assumes "quiet v s" "agrees t v"
  shows "agrees t s"
proof (cases "current t v = 0")
  case True
  then show ?thesis using assms(1) by (simp add: agrees_def quiet_def)
next
  case False
  then obtain cx where cx: "es_contexts v (current t v) = Some cx" "cx_isCurrent cx" "live_surface (cx_draw cx) v"
    "live_surface (cx_read cx) v" "host_current t v = (cx_rcContext cx, rc_of (cx_draw cx) v, rc_of (cx_read cx) v)"
    "encoder_of (cx_version cx) (es_threads v t) = \<lparr>ec_client = current t v, ec_group = Some (cx_group cx), ec_ready = True\<rparr>"
    using assms(2) by (auto simp: agrees_def split: option.splits)
  then obtain cx' where cx': "es_contexts s (current t v) = Some cx'" "view cx' = view cx"
    using assms(1) False unfolding quiet_def by blast
  have same: "current t s = current t v" "host_current t s = host_current t v"
    "encoder_of (cx_version cx) (es_threads s t) = encoder_of (cx_version cx) (es_threads v t)"
    using assms(1) by (simp_all add: quiet_def encoder_of_def)
  have "used_surface (cx_draw cx) v" "used_surface (cx_read cx) v" using False cx(1) by (auto simp: used_surface_def)
  then have "live_surface (cx_draw cx) s \<and> rc_of (cx_draw cx) s = rc_of (cx_draw cx) v"
    "live_surface (cx_read cx) s \<and> rc_of (cx_read cx) s = rc_of (cx_read cx) v"
    using quiet_surface [OF assms(1)] cx(3,4) by blast+
  then show ?thesis using cx(2,5,6) cx' same by (simp add: agrees_def view_def)
qed

lemma quiet_agreed: "quiet v s \<Longrightarrow> agreed v \<Longrightarrow> agreed s"
proof -
  assume q: "quiet v s" and v: "agreed v"
  then have "current t s = current t v" for t by (simp add: quiet_def)
  then show "agreed s" using v quiet_agrees [OF q] by (simp add: agreed_def exclusive_def)
qed

lemma quiet_trans:
  assumes "quiet u v" "agreed u" "quiet v s"
  shows "agreed s"
  using quiet_agreed assms by blast

lemma quiet_cong:
  assumes "\<And>t. th_current (es_threads s' t) = th_current (es_threads s t) \<and> th_gl (es_threads s' t) = th_gl (es_threads s t) \<and>
      th_gl2 (es_threads s' t) = th_gl2 (es_threads s t)"
    "es_contexts s' = es_contexts s" "es_surfaces s' = es_surfaces s" "\<And>t. host_current t s' = host_current t s"
  shows "quiet v s' = quiet v s"
  by (simp add: quiet_def current_def assms)

lemma host_current_call [simp]:
  "host_current t (host_call u c s) = after_request t (host_current t s) (u, c)"
  "host_current t (window_call w s) = host_current t s" "host_current t (set_egl_error u e s) = host_current t s"
  "host_current t (on_thread u f s) = host_current t s" "host_current t (s\<lparr>es_display := d\<rparr>) = host_current t s"
  "host_current t (s\<lparr>es_surfaces := h\<rparr>) = host_current t s" "host_current t (s\<lparr>es_contexts := k\<rparr>) = host_current t s"
  "host_current t (s\<lparr>es_images := i\<rparr>) = host_current t s" "host_current t (s\<lparr>es_threads := j\<rparr>) = host_current t s"
  by (simp_all add: host_current_def host_call_def window_call_def set_egl_error_def on_thread_def)

lemma quiet_error [simp]: "quiet v (set_egl_error t e s) = quiet v s"
  by (rule quiet_cong) (simp_all add: set_egl_error_def on_thread_def)

lemma quiet_window_call [simp]: "quiet v (window_call w s) = quiet v s"
  by (rule quiet_cong) simp_all

lemma quiet_host_call: "(\<And>x d e ok. c \<noteq> Hc_MakeCurrent x d e ok) \<Longrightarrow> quiet v (host_call t c s) = quiet v s"
  by (rule quiet_cong) (auto simp: after_request_def split: egl_host_call.split)

lemma quiet_host_calls [simp]:
  "quiet v (host_call t (Hc_CreateWindowSurface c w h r) s) = quiet v s"
  "quiet v (host_call t (Hc_DestroyWindowSurface r) s) = quiet v s"
  "quiet v (host_call t (Hc_SetWindowColorBuffer r b) s) = quiet v s"
  "quiet v (host_call t (Hc_FlushWindowColorBuffer r) s) = quiet v s"
  "quiet v (host_call t (Hc_CreateColorBuffer w h f r) s) = quiet v s"
  "quiet v (host_call t (Hc_CloseColorBuffer r) s) = quiet v s"
  "quiet v (host_call t (Hc_CreateContext c r n q) s) = quiet v s"
  "quiet v (host_call t (Hc_DestroyContext r) s) = quiet v s"
  "quiet v (host_call t (Hc_CreateClientImage r q i) s) = quiet v s"
  "quiet v (host_call t (Hc_DestroyClientImage i) s) = quiet v s"
  "quiet v (host_call t Hc_Flush s) = quiet v s"
  by (simp_all add: quiet_host_call)

lemma quiet_display [simp]: "quiet v (s\<lparr>es_display := d\<rparr>) = quiet v s"
  by (rule quiet_cong) simp_all

lemma quiet_image [simp]: "quiet v (set_image p i s) = quiet v s"
  by (rule quiet_cong) (simp_all add: set_image_def)



section \<open>Surfaces\<close>

lemma quiet_destroy [simp]: "quiet v (destroy_surface t a su s) = quiet v s"
  by (simp add: destroy_surface_def Let_def split: surface_kind.split option.split)





section \<open>Contexts and images\<close>








section \<open>Making a context current\<close>

















section \<open>Histories\<close>














section \<open>Careless clients\<close>

text \<open>The current context with other surfaces loses its flag, and another thread can take it.\<close>

lemma rebound_context_is_taken:
  "case egl_play (\<lambda>_. 0)
     [(0, answer_of 2, Eo_Initialize 1), (0, answer_of 3, Eo_CreateWindowSurface 1 0 9 True),
      (0, answer_of 5, Eo_CreateWindowSurface 1 0 8 True), (0, answer_of 4, Eo_CreateContext 1 0 0 []),
      (0, answer_of 6, Eo_MakeCurrent 1 3 3 4), (0, answer_of 7, Eo_MakeCurrent 1 5 5 4), (1, answer_of 8, Eo_MakeCurrent 1 3 3 4)]
     egl_initial of Inl _ \<Rightarrow> False | Inr s \<Rightarrow> current 0 s = 4 \<and> current 1 s = 4"
  by code_simp

definition ends_undefined :: "(nat \<times> egl_answers \<times> egl_op) list \<Rightarrow> bool" where
  "ends_undefined ops =
     (case egl_play (\<lambda>_. 0) (butlast ops) egl_initial of
        Inl _ \<Rightarrow> False
      | Inr _ \<Rightarrow> (case egl_play (\<lambda>_. 0) ops egl_initial of Inl e \<Rightarrow> (case e of Undefined \<Rightarrow> True | _ \<Rightarrow> False) | Inr _ \<Rightarrow> False))"

text \<open>A context that is current in another thread is destroyed: the other thread follows its pointer.\<close>

lemma destroyed_elsewhere_dangles:
  "ends_undefined
     [(0, answer_of 2, Eo_Initialize 1), (0, answer_of 3, Eo_CreateWindowSurface 1 0 9 True),
      (0, answer_of 4, Eo_CreateContext 1 0 0 []), (0, answer_of 5, Eo_MakeCurrent 1 3 3 4),
      (1, answer_of 6, Eo_DestroyContext 1 4), (0, answer_of 7, Eo_WaitGL)]"
  by code_simp

text \<open>The encoder keeps the client state of a context that is destroyed when it is left.\<close>

lemma encoder_keeps_freed_client:
  "case egl_play (\<lambda>_. 0)
     [(0, answer_of 2, Eo_Initialize 1), (0, answer_of 3, Eo_CreateWindowSurface 1 0 9 True),
      (0, answer_of 4, Eo_CreateContext 1 0 0 []), (0, answer_of 5, Eo_MakeCurrent 1 3 3 4),
      (0, answer_of 6, Eo_DestroyContext 1 4), (0, answer_of 7, Eo_ReleaseThread)] egl_initial of
     Inl _ \<Rightarrow> False
   | Inr s \<Rightarrow> current 0 s = 0 \<and> ec_client (th_gl (es_threads s 0)) = 4 \<and> Option.is_none (es_contexts s 4)"
  by code_simp

text \<open>The number of configurations is taken for a configuration.\<close>

lemma configuration_past_the_end:
  "ends_undefined [(0, answer_of 2, Eo_Initialize 1), (0, answer_of 3, Eo_GetConfigAttrib 1 1 ''EGL_SURFACE_TYPE'')]"
  by code_simp

text \<open>Without the second library a context of its version is made, and becomes current through a null pointer.\<close>

lemma missing_library_followed:
  "ends_undefined
     [(0, (answer_of 2)\<lparr>ea_host := one_config\<lparr>eh_gles2 := False\<rparr>\<rparr>, Eo_Initialize 1),
      (0, answer_of 3, Eo_CreateWindowSurface 1 0 9 True),
      (0, answer_of 4, Eo_CreateContext 1 0 0 [(''EGL_CONTEXT_CLIENT_VERSION'', 2)]), (0, answer_of 5, Eo_MakeCurrent 1 3 3 4)]"
  by code_simp

text \<open>A swap that got no buffer is a success, and the next one gives the window a null pointer.\<close>

lemma null_buffer_queued:
  "case egl_play (\<lambda>_. 0)
     [(0, answer_of 2, Eo_Initialize 1), (0, answer_of 3, Eo_CreateWindowSurface 1 0 9 True),
      (0, (answer_of 4)\<lparr>ea_dequeue := None\<rparr>, Eo_SwapBuffers 1 3), (0, answer_of 5, Eo_SwapBuffers 1 3)] egl_initial of
     Inl _ \<Rightarrow> False
   | Inr s \<Rightarrow> es_windows s =
       [Wc_IncRef 9, Wc_Dequeue 9 (some_buffer 3), Wc_Queue 9 (Some (some_buffer 3)), Wc_Queue 9 None, Wc_Dequeue 9 (some_buffer 5)]"
  by code_simp

text \<open>Null pointers of clients are followed: a surface that is asked for its width, the attributes of a pixel buffer.\<close>

lemma null_pointers_followed:
  "ends_undefined [(0, answer_of 2, Eo_Initialize 1), (0, answer_of 3, Eo_QuerySurface 1 0 ''EGL_WIDTH'')]"
  "ends_undefined [(0, answer_of 2, Eo_Initialize 1), (0, answer_of 3, Eo_CreatePbufferSurface 1 0 None)]"
  by code_simp+

text \<open>A call that is refused has destroyed the context that was to be left, and nothing is current.\<close>

lemma refused_call_destroys:
  "case egl_play (\<lambda>_. 0)
     [(0, answer_of 2, Eo_Initialize 1), (0, answer_of 3, Eo_CreateWindowSurface 1 0 9 True),
      (0, answer_of 4, Eo_CreateContext 1 0 0 []), (0, answer_of 5, Eo_CreateContext 1 0 0 []),
      (0, answer_of 6, Eo_MakeCurrent 1 3 3 4), (1, answer_of 7, Eo_MakeCurrent 1 3 3 5), (0, answer_of 8, Eo_DestroyContext 1 4),
      (0, answer_of 9, Eo_MakeCurrent 1 3 3 5)] egl_initial of
     Inl _ \<Rightarrow> False
   | Inr s \<Rightarrow> th_error (es_threads s 0) = ''EGL_BAD_ACCESS'' \<and> current 0 s = 0 \<and> Option.is_none (es_contexts s 4)"
  by code_simp

end
