(* ===== verification/Spec2Isabelle.thy ===== *)
theory Spec2Isabelle
  imports Multiplexer Looper QueueMonitor SmallVector MessageChannel BufferedIOStream BinaryWriter Rpc Network
    WindowManager InputDevices Pipe RenderControl Bridge Checksum Fingerprint Gps Container Mounts GLClientState
    GLSharedGroup GL2Textures GL2Draws GL2Programs Gralloc HwComposer Sensors HwControl CameraClient Converters CameraFactory EglLoans EglCurrent
begin

text \<open>
  Anbox, which runs Android in a container on a Linux host (\<open>src/type3_AndroidCloud/anbox-master\<close> of the IEC
  stack), as definitions that follow its C++ and C sources, and theorems about them. In this text \<open>anbox/x\<close> is
  \<open>src/anbox/x\<close> and \<open>android/x\<close> is \<open>android/x\<close> below that directory.

  \<^bold>\<open>The program.\<close> Two processes run on the host. The container manager, as root, mounts Android's file system and
  starts the container on request of the other one. The session manager, as the user, is what Android talks to: over
  one socket that Android's side opens as a pipe it serves OpenGL (a stream of commands decoded into calls of a
  renderer), the debugger, and the devices a phone has (modem, sensors, GPS, fingerprint, boot properties); over a
  second one it exchanges remote calls with a service in Android, which reports windows and applications and is told to
  start, focus and resize them. Windows of Android become windows of the host; their events become input events of
  virtual devices. In the container a daemon shares one serial line among the clients of the devices, and modules of
  Android's hardware layer talk to it.

  \<^bold>\<open>The theories.\<close> Each models the files it names in its own first text, in the order of the code.

  \<^item> \<open>Anbox_Prelude\<close>: integer types, faults a function of C++ can end in, bytes and characters, digits, indices
    of rings; the locale \<open>bounded_fifo\<close>, what a bounded queue promises. \<open>OrderedMap\<close>: \<open>std::map\<close>, the locale
    \<open>keyed_store\<close>. \<open>Streams\<close>: the locale \<open>incremental\<close>, a consumer for which the chunks a stream comes in do not
    matter. \<open>Utils\<close>: \<open>anbox/utils.cpp\<close>.
  \<^item> The graphics stream: \<open>BufferQueue\<close> (\<open>anbox/graphics/buffer_queue.cpp\<close>) is a ring of buffers between two
    threads, \<open>QueueMonitor\<close> the two threads with their condition variables, \<open>SmallVector\<close>
    (\<open>anbox/common/small_vector.h\<close>) the buffers, with the heap, \<open>BufferedIOStream\<close>
    (\<open>anbox/graphics/buffered_io_stream.cpp\<close>) reading and writing by bytes over them. \<open>MessageChannel\<close>
    (\<open>anbox/common\<close>) is a second queue with the same contract. \<open>Checksum\<close>
    (\<open>android/opengl/shared/OpenglCodecCommon/ChecksumCalculator\<close>) is what both ends of the stream check.
  \<^item> The renderer (\<open>anbox/graphics/emugl\<close>): \<open>RendererState\<close> its tables of contexts, windows and colour buffers and
    their life times, \<open>RendererConfig\<close> the framebuffer configurations, \<open>RenderControl\<close> the calls Android makes.
  \<^item> Windows: \<open>Geometry\<close> rectangles, densities and the hit test, \<open>WindowManager\<close> the multi-window manager, platform
    windows and the composition of layers, \<open>InputDevices\<close> SDL events, touch slots, virtual input devices.
  \<^item> Remote calls: \<open>BinaryWriter\<close> (with the network configuration of Android), \<open>Network\<close> connections, acceptors,
    sockets, \<open>Rpc\<close> messages and pending calls, \<open>Bridge\<close> the calls in both directions, \<open>Applications\<close> the data base of
    applications and their launchers.
  \<^item> Devices on the host (\<open>anbox/qemu\<close>): \<open>Pipe\<close> finds out what a client wants, \<open>Qemud\<close> frames and answers commands,
    \<open>Gsm\<close> is the modem, \<open>Adb\<close> the bridge of the debugger.
  \<^item> Devices in Android: \<open>QemudDaemon\<close>, \<open>Multiplexer\<close> and \<open>Looper\<close> are \<open>android/qemud/qemud.c\<close>, from the serial
    line over the clients to the event loop; \<open>Fingerprint\<close>, \<open>Gps\<close>, \<open>Sensors\<close> and \<open>HwControl\<close> (lights, vibrator,
    power) are hardware modules; the cameras (\<open>android/camera\<close>) are \<open>CameraClient\<close>, which talks to the camera service,
    \<open>Converters\<close> for colours, \<open>CameraPreview\<close> and \<open>CameraNotifier\<close> for what the framework is given, \<open>EmulatedCamera\<close>,
    the device with its worker thread and the camera over it, and \<open>CameraFactory\<close>, which finds out which cameras there are.
  \<^item> OpenGL ES 2 in Android (\<open>android/opengl/system/GLESv2_enc/GL2Encoder.cpp\<close> and
    \<open>android/opengl/shared/OpenglCodecCommon\<close>): \<open>GLUtils\<close> sizes and packing, \<open>GLClientState\<close> what is known of a context
    without asking the host, \<open>GLSharedGroup\<close> the objects contexts share, \<open>GL2Encoder\<close> all functions of the encoder
    that are written by hand, with the calls they send; \<open>GL2Textures\<close>, \<open>GL2Draws\<close> and \<open>GL2Programs\<close> hold what is
    shown of them.
  \<^item> \<open>Gralloc\<close> (\<open>android/opengl/system/gralloc\<close>) is the graphics memory that Android's processes share,
    \<open>HwComposer\<close> (\<open>android/hwcomposer\<close>) posts the layers of a frame to the host. EGL in Android
    (\<open>android/opengl/system/egl\<close>): \<open>EglDisplay\<close> the display with its configurations, \<open>Egl\<close> contexts, surfaces, images
    and what is current in a thread, with the locale \<open>unheeding\<close> of conditions that reading calls keep; \<open>EglLoans\<close> and
    \<open>EglCurrent\<close> hold what is shown.
  \<^item> The container manager: \<open>Container\<close> (\<open>anbox/container\<close>) and \<open>Mounts\<close> (\<open>anbox/cmds/container_manager.cpp\<close>).

  \<^bold>\<open>How the code is modelled.\<close> An object is a record of its fields, a method a function that returns the record
  updated and what it did outside (bytes sent, calls made, callbacks) as values. Exceptions, assertions and undefined
  behaviour are values of the type \<open>fault\<close>. Integers are words where their width matters. What a method asks of code
  that is not in the repository (EGL, SDL, protobuf, Boost, liblxc, the kernel) is an argument; hypotheses say what the
  code relies on, such as \<open>umount_undoes\<close>. A wait on a condition variable is an outcome of an atomic operation;
  \<open>QueueMonitor\<close> has the threads themselves.

  \<^bold>\<open>What is shown.\<close> Queues and streams: both queues refine a bounded list, no byte is lost, repeated or reordered
  from \<open>write\<close> to the socket and from the socket to \<open>read\<close>, the small vectors neither leak nor free twice, and no
  thread sleeps for ever when a queue is closed. Remote calls: what one side sends the other handles, once and in
  order, in whatever chunks it arrives, and every call is completed once, also on errors. The renderer: handles are
  new, a colour buffer lives exactly as long as it is referenced, the tables stay consistent. Windows: an update of
  Android's windows leads to exactly the tasks it names, layers go to the windows of their tasks. Input: from the
  events the fingers on the glass can be told. Devices: framing and parsing do not depend on chunks, one debugger at a
  time is connected, packets of the serial line reach the client of their channel and no other; enrolled fingerprints
  survive a restart, positions are those of the sentences. OpenGL in Android: the host's textures are those the client
  means, whatever is called, indexed draws name the same vertices on both sides, values for uniforms arrive where the
  host has the uniform, shaders are rewritten in place; graphics memory
  fits its images, what was drawn into a locked rectangle is what the host gets, and the host composes exactly the layers that
  Android set; EGL gives back what it takes, and what is current in a thread is current on the host. Sensors: every event that arrives is handed out once, whatever other threads do.
  Cameras: the worker thread has its buffers whenever it runs, buffers and memory of the framework are given back, and the numbers of
  the cameras are those of the factory. The container: starting it is all or nothing, its ids,
  devices and addresses are the configured ones, every mount is undone. Faults that were found on the way are theorems
  too; the list of findings names them.

  \<^bold>\<open>Bounds and fuel.\<close> Loops over buffers recurse on what is left and are total, with no fuel; the search for a handle
  (\<open>RendererState\<close>) ends because there are fewer handles in use than numbers, which is a hypothesis, and the search
  for a channel (\<open>Multiplexer\<close>) is a \<open>partial_function\<close> that returns exactly when a channel is free.

  \<^bold>\<open>Not modelled.\<close> The generated encoders of OpenGL calls and the decoders, which are vendored; drawing and scaling
  of textures (sequences of OpenGL calls); Android's framework; D-Bus marshalling and the command line; logging. The
  Foundation part of the repository (scripts, YAML, a copy of a Go framework) has no program of its own. Not yet
  modelled: the fake cameras, which synthesise images, and the newer interfaces of cameras; the encoder of OpenGL ES 1; audio.
\<close>

end
